(* ===== verification/Prelude.thy ===== *)
theory Prelude
  imports Main "HOL-Library.Word" "HOL-Library.AList"
begin

text \<open>
  Shared vocabulary of the development: fallible results as sums with their bind, the
  rows of a table with a primary key (an association list in row order) with the
  statements the journal issues on it, and the interface such a table offers
  (\<open>keyed_table\<close>), interpreted here on the association lists themselves.
\<close>

named_theorems table_simps \<open>lookups after a statement on a keyed table\<close>

type_synonym bytes = string

section \<open>Fallible results\<close>

fun bindr :: "'e + 'a \<Rightarrow> ('a \<Rightarrow> 'e + 'b) \<Rightarrow> 'e + 'b" where
  "bindr (Inl e) f = Inl e"
| "bindr (Inr a) f = f a"

lemma bindr_Inr_iff [simp]: "bindr m f = Inr b \<longleftrightarrow> (\<exists>a. m = Inr a \<and> f a = Inr b)"
  by (cases m) auto

lemma bindr_Inl_iff: "bindr m f = Inl e \<longleftrightarrow> m = Inl e \<or> (\<exists>a. m = Inr a \<and> f a = Inl e)"
  by (cases m) auto

lemma bindr_split:
  "P (bindr m f) \<longleftrightarrow> (\<forall>e. m = Inl e \<longrightarrow> P (Inl e)) \<and> (\<forall>a. m = Inr a \<longrightarrow> P (f a))"
  by (cases m) auto

definition checkr :: "bool \<Rightarrow> 'e \<Rightarrow> 'e + unit" where
  "checkr b e = (if b then Inr () else Inl e)"

lemma checkr_Inr [simp]: "checkr b e = Inr u \<longleftrightarrow> b"
  by (simp add: checkr_def)

lemma checkr_Inl [simp]: "checkr b e = Inl e' \<longleftrightarrow> \<not> b \<and> e' = e"
  by (auto simp: checkr_def)

text \<open>A loop over a list that threads a state and stops at the first error.\<close>

fun foldr_res :: "('a \<Rightarrow> 's \<Rightarrow> 'e + 's) \<Rightarrow> 'a list \<Rightarrow> 's \<Rightarrow> 'e + 's" where
  "foldr_res f [] s = Inr s"
| "foldr_res f (x # xs) s = bindr (f x s) (foldr_res f xs)"

lemma foldr_res_append:
  "foldr_res f (xs @ ys) s = bindr (foldr_res f xs s) (foldr_res f ys)"
  by (induction xs arbitrary: s) (auto split: bindr_split)

lemma foldr_res_invariant:
  assumes "foldr_res f xs s = Inr t" and "P s"
    and "\<And>x s t. x \<in> set xs \<Longrightarrow> P s \<Longrightarrow> f x s = Inr t \<Longrightarrow> P t"
  shows "P t"
  using assms
proof (induction xs arbitrary: s)
  case Nil
  then show ?case by simp
next
  case (Cons x xs)
  from Cons.prems(1) obtain s' where s': "f x s = Inr s'" "foldr_res f xs s' = Inr t" by auto
  have "P s'" using Cons.prems(2,3) s'(1) by auto
  then show ?case using Cons.IH [OF s'(2)] Cons.prems(3) by auto
qed

section \<open>Decimal numerals\<close>

definition digit_char :: "nat \<Rightarrow> char" where
  "digit_char n = ''0123456789'' ! n"

fun show_nat :: "nat \<Rightarrow> string" where
  "show_nat n = (if n < 10 then [digit_char n] else show_nat (n div 10) @ [digit_char (n mod 10)])"

declare show_nat.simps [simp del]

definition show_int :: "int \<Rightarrow> string" where
  "show_int i = (if i < 0 then ''-'' @ show_nat (nat (- i)) else show_nat (nat i))"

section \<open>Rows under a primary key\<close>

text \<open>
  A table is the list of its rows in the order they were inserted (SQLite's rowid order),
  each row a key and its columns.
\<close>

type_synonym ('k, 'v) rows = "('k \<times> 'v) list"

definition row_insert :: "'k \<Rightarrow> 'v \<Rightarrow> ('k, 'v) rows \<Rightarrow> ('k, 'v) rows option" where
  "row_insert k v t = (if map_of t k = None then Some (t @ [(k, v)]) else None)"

definition row_set :: "'k \<Rightarrow> 'v \<Rightarrow> ('k, 'v) rows \<Rightarrow> ('k, 'v) rows" where
  "row_set k v t = map (\<lambda>(k', x). if k' = k then (k', v) else (k', x)) t"

definition row_upsert :: "'k \<Rightarrow> 'v \<Rightarrow> ('k, 'v) rows \<Rightarrow> ('k, 'v) rows" where
  "row_upsert k v t = (if map_of t k = None then t @ [(k, v)] else row_set k v t)"

definition rows_where :: "('k \<Rightarrow> 'v \<Rightarrow> bool) \<Rightarrow> ('k, 'v) rows \<Rightarrow> ('k, 'v) rows" where
  "rows_where P t = filter (\<lambda>(k, v). P k v) t"

abbreviation primary :: "('k, 'v) rows \<Rightarrow> bool" where
  "primary t \<equiv> distinct (map fst t)"

declare map_of_eq_Some_iff [simp del]

lemma map_of_append_single:
  "map_of (t @ [(k, v)]) k' = (case map_of t k' of Some x \<Rightarrow> Some x | None \<Rightarrow> if k' = k then Some v else None)"
  by (auto split: option.splits simp: map_add_def)

lemma map_of_row_insert [table_simps]:
  "row_insert k v t = Some t' \<Longrightarrow> map_of t' = (map_of t)(k \<mapsto> v)"
  by (auto simp: row_insert_def map_of_append_single fun_eq_iff simp del: map_of_append
      split: if_splits option.splits)

lemma row_insert_None_iff [table_simps]: "row_insert k v t = None \<longleftrightarrow> map_of t k \<noteq> None"
  by (simp add: row_insert_def)

lemma row_insert_Some_iff:
  "row_insert k v t = Some t' \<longleftrightarrow> map_of t k = None \<and> t' = t @ [(k, v)]"
  by (auto simp: row_insert_def)

lemma primary_row_insert: "row_insert k v t = Some t' \<Longrightarrow> primary t \<Longrightarrow> primary t'"
  by (auto simp: row_insert_Some_iff map_of_eq_None_iff)

lemma map_fst_row_set [simp]: "map fst (row_set k v t) = map fst t"
  by (auto simp: row_set_def)

lemma map_of_row_set [table_simps]:
  "map_of (row_set k v t) = (if map_of t k = None then map_of t else (map_of t)(k \<mapsto> v))"
proof (induction t)
  case Nil
  then show ?case by (simp add: row_set_def)
next
  case (Cons r t)
  then show ?case by (cases r) (auto simp: row_set_def fun_eq_iff)
qed

lemma map_of_row_upsert [table_simps]: "map_of (row_upsert k v t) = (map_of t)(k \<mapsto> v)"
  by (auto simp: row_upsert_def map_of_append_single map_of_row_set fun_eq_iff simp del: map_of_append
      split: option.splits)

lemma primary_row_upsert: "primary t \<Longrightarrow> primary (row_upsert k v t)"
  by (auto simp: row_upsert_def map_of_eq_None_iff)

lemma primary_rows_where: "primary t \<Longrightarrow> primary (rows_where P t)"
  by (induction t) (auto simp: rows_where_def)

lemma map_of_rows_where [table_simps]:
  assumes "primary t"
  shows "map_of (rows_where P t) k = (case map_of t k of Some v \<Rightarrow> if P k v then Some v else None | None \<Rightarrow> None)"
  using assms
proof (induction t)
  case Nil
  then show ?case by (simp add: rows_where_def)
next
  case (Cons r t)
  obtain k' v' where r: "r = (k', v')" by (cases r)
  have none: "map_of t k' = None" using Cons.prems by (simp add: r map_of_eq_None_iff)
  show ?case using Cons none by (auto simp: rows_where_def r split: option.splits)
qed

text \<open>
  The statements a client of a keyed table relies on: the lookup after an insert, a failed
  insert exactly on a taken key, and the key constraint kept by every statement.
\<close>

locale keyed_table =
  fixes lookup :: "'t \<Rightarrow> 'k \<Rightarrow> 'v option"
    and ins :: "'k \<Rightarrow> 'v \<Rightarrow> 't \<Rightarrow> 't option"
    and ok :: "'t \<Rightarrow> bool"
  assumes lookup_ins: "ins k v t = Some t' \<Longrightarrow> lookup t' = (lookup t)(k \<mapsto> v)"
    and ins_None: "ins k v t = None \<longleftrightarrow> lookup t k \<noteq> None"
    and ok_ins: "ins k v t = Some t' \<Longrightarrow> ok t \<Longrightarrow> ok t'"
begin

text \<open>Inserting one value under every key of a list, in order, stopping at a taken key.\<close>

fun ins_all :: "'k list \<Rightarrow> 'v \<Rightarrow> 't \<Rightarrow> 't option" where
  "ins_all [] v t = Some t"
| "ins_all (k # ks) v t = (case ins k v t of None \<Rightarrow> None | Some t' \<Rightarrow> ins_all ks v t')"

lemma ok_ins_all: "ins_all ks v t = Some t' \<Longrightarrow> ok t \<Longrightarrow> ok t'"
  by (induction ks arbitrary: t) (auto split: option.splits dest: ok_ins)

lemma lookup_ins_all:
  "ins_all ks v t = Some t' \<Longrightarrow> lookup t' k = (if k \<in> set ks then Some v else lookup t k)"
proof (induction ks arbitrary: t)
  case Nil
  then show ?case by simp
next
  case (Cons a ks)
  then obtain t1 where t1: "ins a v t = Some t1" and rest: "ins_all ks v t1 = Some t'"
    by (auto split: option.splits)
  show ?case using Cons.IH [OF rest] lookup_ins [OF t1] by auto
qed

lemma ins_all_Some_iff:
  "(\<exists>t'. ins_all ks v t = Some t') \<longleftrightarrow> distinct ks \<and> (\<forall>k \<in> set ks. lookup t k = None)"
proof (induction ks arbitrary: t)
  case Nil
  then show ?case by simp
next
  case (Cons a ks)
  show ?case
  proof (cases "ins a v t")
    case None
    then show ?thesis using ins_None [of a v t] by auto
  next
    case (Some t1)
    have "lookup t a = None" using ins_None [of a v t] Some by auto
    then show ?thesis using Cons.IH [of t1] Some lookup_ins [OF Some] by auto
  qed
qed

lemma ins_all_kept: "ins_all ks v t = Some t' \<Longrightarrow> lookup t k = Some w \<Longrightarrow> lookup t' k = Some w"
proof -
  assume a: "ins_all ks v t = Some t'" and b: "lookup t k = Some w"
  have "k \<notin> set ks" using ins_all_Some_iff [of ks v t] a b by auto
  then show ?thesis using lookup_ins_all [OF a] b by simp
qed

end

interpretation table: keyed_table map_of row_insert primary
  by unfold_locales (auto simp: table_simps dest: primary_row_insert)

end
