(* ===== verification/Domain.thy ===== *)
theory Domain
  imports Prelude
begin

unbundle bit_operations_syntax

text \<open>
  The platform-neutral contracts of \<^verbatim>\<open>internal/domain/domain.go\<close>: errors and exit codes,
  operation identities, resource keys, plans, jobs and events; and the canonical digests of
  \<^verbatim>\<open>internal/operations/canonical.go\<close> with the error wrappers of
  \<^verbatim>\<open>internal/operations/cancellation.go\<close>. Instants are nanoseconds (\<open>int\<close>); a Go map that
  is only serialised is the list of its members in key order.
\<close>

section \<open>JSON values and errors\<close>

datatype json =
    JNull
  | JBool bool
  | JNum int
  | JStr string
  | JArr "json list"
  | JObj "(string \<times> json) list"

record domain_error =
  err_code :: string
  err_message :: string
  err_resource :: string
  err_operation :: string
  err_retryable :: bool
  err_next :: "string list"
  err_details :: "json option"

text \<open>
  The values of Go's \<^verbatim>\<open>error\<close> interface the coordinator distinguishes: a \<^verbatim>\<open>*domain.Error\<close>,
  \<^verbatim>\<open>sql.ErrNoRows\<close> and other database errors, context errors, plain texts, the two sentinels
  and the \<^verbatim>\<open>notDone\<close> wrapper.
\<close>

datatype go_error =
    Domain_error domain_error
  | No_rows
  | Sql_error string
  | Context_error string
  | Plain string
  | Err_canceled_safely
  | Err_not_done
  | Not_done go_error

definition fail :: "string \<Rightarrow> string \<Rightarrow> domain_error" where
  "fail code msg = \<lparr>err_code = code, err_message = msg, err_resource = [], err_operation = [],
     err_retryable = False, err_next = [], err_details = None\<rparr>"

abbreviation failr :: "string \<Rightarrow> string \<Rightarrow> go_error + 'a" where
  "failr code msg \<equiv> Inl (Domain_error (fail code msg))"

fun error_text :: "go_error \<Rightarrow> string" where
  "error_text (Domain_error d) = err_code d @ '': '' @ err_message d"
| "error_text No_rows = ''sql: no rows in result set''"
| "error_text (Sql_error s) = s"
| "error_text (Context_error s) = s"
| "error_text (Plain s) = s"
| "error_text Err_canceled_safely = ''operation canceled at a verified safe boundary''"
| "error_text Err_not_done = ''step did not take effect; nothing unsafe remains in flight''"
| "error_text (Not_done e) = error_text e"

text \<open>\<^verbatim>\<open>errors.As(err, *domain.Error)\<close> and \<^verbatim>\<open>errors.Is\<close> along the unwrap chain.\<close>

fun errors_as_domain :: "go_error \<Rightarrow> domain_error option" where
  "errors_as_domain (Domain_error d) = Some d"
| "errors_as_domain (Not_done e) = errors_as_domain e"
| "errors_as_domain _ = None"

fun is_canceled_safely :: "go_error \<Rightarrow> bool" where
  "is_canceled_safely Err_canceled_safely = True"
| "is_canceled_safely (Not_done e) = is_canceled_safely e"
| "is_canceled_safely _ = False"

fun is_not_done :: "go_error \<Rightarrow> bool" where
  "is_not_done Err_not_done = True"
| "is_not_done (Not_done e) = True"
| "is_not_done _ = False"

text \<open>The process exit code of an error: a type assertion, so wrappers are not looked into.\<close>

definition exit_code :: "go_error option \<Rightarrow> int" where
  "exit_code e = (case e of
      None \<Rightarrow> 0
    | Some (Domain_error d) \<Rightarrow>
        (let c = err_code d in
         if c = ''INVALID_INPUT'' then 2
         else if c \<in> {''UNSUPPORTED_CAPABILITY'', ''NOT_IMPLEMENTED''} then 3
         else if c \<in> {''PERMISSION_REQUIRED'', ''PERMISSION_DENIED''} then 4
         else if c \<in> {''STALE_PLAN'', ''RESOURCE_BUSY'', ''IDEMPOTENCY_CONFLICT''} then 5
         else if c \<in> {''PARTIAL_APPLY'', ''RECOVERY_REQUIRED''} then 6
         else if c = ''WAIT_TIMEOUT'' then 7
         else if c = ''CLIENT_INTERRUPTED'' then 130
         else 1)
    | Some _ \<Rightarrow> 1)"

section \<open>Operation identities\<close>

definition hex_digit :: "nat \<Rightarrow> char" where
  "hex_digit n = ''0123456789abcdef'' ! n"

definition hex_byte :: "8 word \<Rightarrow> string" where
  "hex_byte b = [hex_digit (unat b div 16), hex_digit (unat b mod 16)]"

definition hex_encode :: "8 word list \<Rightarrow> string" where
  "hex_encode bs = concat (map hex_byte bs)"

text \<open>\<open>new_id\<close> is \<^verbatim>\<open>ID()\<close> for the sixteen random bytes it read.\<close>

definition stamp_version :: "8 word list \<Rightarrow> 8 word list" where
  "stamp_version b = b[6 := (b ! 6 AND 15) OR 64, 8 := (b ! 8 AND 63) OR 128]"

definition new_id :: "8 word list \<Rightarrow> string" where
  "new_id b = (let s = hex_encode (stamp_version b) in
     take 8 s @ ''-'' @ take 4 (drop 8 s) @ ''-'' @ take 4 (drop 12 s) @ ''-'' @
     take 4 (drop 16 s) @ ''-'' @ drop 20 s)"

definition lower_hex :: "char \<Rightarrow> bool" where
  "lower_hex c \<longleftrightarrow> c \<in> set ''abcdef0123456789''"

text \<open>
  The identity shape the privileged helper demands
  (\<^verbatim>\<open>^[a-f0-9]{8}-[a-f0-9]{4}-4[a-f0-9]{3}-[89ab][a-f0-9]{3}-[a-f0-9]{12}$\<close>).
\<close>

definition helper_uuid :: "string \<Rightarrow> bool" where
  "helper_uuid s \<longleftrightarrow> length s = 36 \<and>
     (\<forall>i \<in> set [0..<36].
        if i \<in> {8, 13, 18, 23} then s ! i = CHR ''-''
        else if i = 14 then s ! i = CHR ''4''
        else if i = 19 then s ! i \<in> set ''89ab''
        else lower_hex (s ! i))"

section \<open>Resource keys\<close>

record resource_key =
  provider_id :: string
  connection_id :: string
  key_kind :: string
  key_uuid :: string

definition key_string :: "resource_key \<Rightarrow> string" where
  "key_string k = provider_id k @ ''|'' @ connection_id k @ ''|'' @ key_kind k @ ''|'' @ key_uuid k"

section \<open>Plans, jobs, events\<close>

record grant =
  grant_operation :: string
  grant_resource :: string

record step =
  step_id :: string
  step_action :: string
  step_preconditions :: "string list"
  step_idempotency :: string
  step_compensation :: string
  step_reconciliation :: string
  step_completion :: string

record estimates =
  additional_bytes :: "64 word"
  requires_downtime :: bool
  est_notes :: string

record plan =
  plan_api :: string
  plan_id :: string
  plan_created :: int
  plan_expires :: int
  plan_actor :: "32 word"
  plan_connection :: string
  plan_operation :: string
  plan_resources :: "string list"
  plan_input_digest :: string
  plan_digest :: string
  plan_before :: "(string \<times> string) list"
  plan_grants :: "grant list"
  plan_acks :: "string list"
  plan_risks :: "string list"
  plan_steps :: "step list"
  plan_estimates :: estimates
  plan_review :: "(string \<times> json) list"

text \<open>The job states, one constructor per string the coordinator writes or tests.\<close>

datatype job_state =
    Queued | Validating | Running | Verifying | Interrupted
  | Succeeded | Failed | Partial | Canceled | Recovery_required

definition state_name :: "job_state \<Rightarrow> string" where
  "state_name s = (case s of
      Queued \<Rightarrow> ''queued'' | Validating \<Rightarrow> ''validating'' | Running \<Rightarrow> ''running''
    | Verifying \<Rightarrow> ''verifying'' | Interrupted \<Rightarrow> ''interrupted'' | Succeeded \<Rightarrow> ''succeeded''
    | Failed \<Rightarrow> ''failed'' | Partial \<Rightarrow> ''partial'' | Canceled \<Rightarrow> ''canceled''
    | Recovery_required \<Rightarrow> ''recovery-required'')"

definition job_terminal :: "job_state \<Rightarrow> bool" where
  "job_terminal s \<longleftrightarrow> s \<in> {Succeeded, Failed, Partial, Canceled, Recovery_required}"

record job =
  job_id :: string
  job_plan :: string
  job_state :: job_state
  job_step :: int
  job_created :: int
  job_error :: "domain_error option"
  job_cancel :: bool
  job_recovery_of :: string
  job_recovery_op :: string

record event =
  ev_api :: string
  ev_operation :: string
  ev_seq :: int
  ev_at :: int
  ev_phase :: job_state
  ev_severity :: string
  ev_message :: string

abbreviation api_version :: string where
  "api_version \<equiv> ''virmill/v1''"


section \<open>Canonical digests\<close>

text \<open>
  What the digests use of code outside this repository: the JSON canonicaliser (after the
  strict validation of \<^verbatim>\<open>internal/wire\<close>), the JSON decoder, SHA-256 with its hex rendering
  and the RFC 3339 rendering of an instant.
\<close>

record env =
  env_canon :: "json \<Rightarrow> go_error + bytes"
  env_canon_raw :: "bytes \<Rightarrow> go_error + bytes"
  env_unmarshal :: "bytes \<Rightarrow> go_error + json"
  env_sha256 :: "bytes \<Rightarrow> string"
  env_rfc3339 :: "int \<Rightarrow> string"

definition digest :: "env \<Rightarrow> json \<Rightarrow> go_error + string" where
  "digest env v = bindr (env_canon env v) (\<lambda>b. Inr (env_sha256 env b))"

definition digest_raw :: "env \<Rightarrow> bytes \<Rightarrow> go_error + string" where
  "digest_raw env raw = bindr (env_canon_raw env raw) (\<lambda>b. Inr (env_sha256 env b))"

text \<open>
  \<^verbatim>\<open>json.Unmarshal\<close> into \<^verbatim>\<open>map[string]any\<close> reads every number as a binary64 value: a natural
  number keeps its 53 leading bits, rounded to nearest with ties to even.
\<close>

fun bit_count :: "nat \<Rightarrow> nat" where
  "bit_count n = (if n = 0 then 0 else Suc (bit_count (n div 2)))"

declare bit_count.simps [simp del]

definition binary64 :: "nat \<Rightarrow> nat" where
  "binary64 n = (let k = bit_count n - 53; q = n div 2 ^ k; r = n mod 2 ^ k; h = 2 ^ k div 2 in
     if k = 0 then n
     else if r > h \<or> (r = h \<and> odd q) then (q + 1) * 2 ^ k else q * 2 ^ k)"

definition grant_json :: "grant \<Rightarrow> json" where
  "grant_json g = JObj [(''operation'', JStr (grant_operation g)), (''resourceID'', JStr (grant_resource g))]"

definition step_json :: "step \<Rightarrow> json" where
  "step_json s = JObj [(''id'', JStr (step_id s)), (''action'', JStr (step_action s)),
     (''preconditions'', JArr (map JStr (step_preconditions s))),
     (''idempotency'', JStr (step_idempotency s)), (''compensation'', JStr (step_compensation s)),
     (''reconciliation'', JStr (step_reconciliation s)),
     (''completionPredicate'', JStr (step_completion s))]"

definition estimates_json :: "estimates \<Rightarrow> json" where
  "estimates_json e = JObj ([(''additionalBytes'', JNum (int (binary64 (unat (additional_bytes e))))),
     (''requiresDowntime'', JBool (requires_downtime e))] @
     (if est_notes e = [] then [] else [(''notes'', JStr (est_notes e))]))"

definition plan_members :: "env \<Rightarrow> plan \<Rightarrow> (string \<times> json) list" where
  "plan_members env p =
    [(''apiVersion'', JStr (plan_api p)), (''planID'', JStr (plan_id p)),
     (''createdAt'', JStr (env_rfc3339 env (plan_created p))),
     (''expiresAt'', JStr (env_rfc3339 env (plan_expires p))),
     (''actorUID'', JNum (uint (plan_actor p))), (''connectionID'', JStr (plan_connection p)),
     (''operation'', JStr (plan_operation p)),
     (''resourceIDs'', JArr (map JStr (plan_resources p))),
     (''inputDigest'', JStr (plan_input_digest p)), (''planDigest'', JStr (plan_digest p)),
     (''beforeFingerprints'', JObj (map (\<lambda>(k, v). (k, JStr v)) (plan_before p))),
     (''requiredGrants'', JArr (map grant_json (plan_grants p))),
     (''acknowledgements'', JArr (map JStr (plan_acks p))), (''risks'', JArr (map JStr (plan_risks p))),
     (''steps'', JArr (map step_json (plan_steps p))), (''estimates'', estimates_json (plan_estimates p))]
    @ (if plan_review p = [] then [] else [(''review'', JObj (plan_review p))])"

definition plan_hash :: "env \<Rightarrow> plan \<Rightarrow> go_error + string" where
  "plan_hash env p = digest env (JObj (filter (\<lambda>(k, _). k \<noteq> ''planDigest'') (plan_members env p)))"

section \<open>Lemmas\<close>

lemma hex_digit_lower: "n < 16 \<Longrightarrow> lower_hex (hex_digit n)"
proof -
  have "\<forall>n \<in> set [0..<16]. lower_hex (hex_digit n)" by code_simp
  then show "n < 16 \<Longrightarrow> ?thesis" by simp
qed

lemma length_hex_encode [simp]: "length (hex_encode bs) = 2 * length bs"
  by (induction bs) (auto simp: hex_encode_def hex_byte_def)

lemma unat_byte_div: "unat (b :: 8 word) div 16 = unat (drop_bit 4 b)"
  by (simp add: unat_drop_bit_eq drop_bit_nat_def)

lemma word_of_unat: "unat w = n \<Longrightarrow> w = of_nat n"
  by auto

lemma version_nibble: "hex_digit (unat ((b AND 15) OR 64 :: 8 word) div 16) = CHR ''4''"
proof -
  have "drop_bit 4 ((b AND 15) OR 64 :: 8 word) = 4" by (simp add: drop_bit_and drop_bit_or)
  then show ?thesis by (simp add: unat_byte_div hex_digit_def)
qed

lemma variant_nibble: "hex_digit (unat ((b AND 63) OR 128 :: 8 word) div 16) \<in> set ''89ab''"
proof -
  have d: "drop_bit 4 ((b AND 63) OR 128 :: 8 word) = (drop_bit 4 b AND 3) OR 8"
    by (simp add: drop_bit_and drop_bit_or)
  have le: "drop_bit 4 b AND 3 \<le> (3 :: 8 word)" by (rule word_and_le1)
  then have "unat (drop_bit 4 b AND 3 :: 8 word) \<le> 3" by (simp add: word_le_nat_alt)
  then consider "unat (drop_bit 4 b AND 3 :: 8 word) = 0" | "unat (drop_bit 4 b AND 3 :: 8 word) = 1"
    | "unat (drop_bit 4 b AND 3 :: 8 word) = 2" | "unat (drop_bit 4 b AND 3 :: 8 word) = 3"
    by linarith
  then have "(drop_bit 4 b AND 3 :: 8 word) \<in> {0, 1, 2, 3}"
    by cases (drule word_of_unat, simp)+
  then show ?thesis by (auto simp: unat_byte_div d hex_digit_def)
qed

lemma domain_error_equal: "Domain_error (fail c m) = Domain_error (fail c' m') \<longleftrightarrow> c = c' \<and> m = m'"
  by (auto simp: fail_def)

lemma state_name_inject [simp]: "state_name s = state_name t \<longleftrightarrow> s = t"
  by (cases s; cases t) (simp_all add: state_name_def)

lemma terminal_simps [simp]:
  "\<not> job_terminal Queued" "\<not> job_terminal Validating" "\<not> job_terminal Running"
  "\<not> job_terminal Verifying" "\<not> job_terminal Interrupted"
  "job_terminal Succeeded" "job_terminal Failed" "job_terminal Partial" "job_terminal Canceled"
  "job_terminal Recovery_required"
  by (simp_all add: job_terminal_def)

lemma plan_hash_ignores_digest: "plan_hash env (p\<lparr>plan_digest := d\<rparr>) = plan_hash env p"
  by (simp add: plan_hash_def plan_members_def)

end
