(* ===== verification/Store.thy ===== *)
theory Store
  imports Domain "HOL-Library.List_Lexorder" "HOL-Library.Char_ord"
begin

text \<open>
  The durable journal of \<^verbatim>\<open>internal/store\<close>: its SQLite tables as lists of rows in row
  order, each statement of the Go code as a statement of the prelude on such a list, and
  each exported method as a function from the database to a result and the new database.
  A method that opens a transaction returns the old database with its error, which is what
  the deferred rollback leaves. A JSON body is kept as the value it encodes. Identifiers
  and clock readings (\<^verbatim>\<open>domain.ID()\<close>, \<^verbatim>\<open>time.Now()\<close>) are arguments.
\<close>

section \<open>Tables\<close>

record plan_row =
  pr_digest :: string
  pr_body :: plan
  pr_input :: bytes

record dedup_row =
  dd_request :: string
  dd_job :: string
  dd_created :: int

record db =
  db_plans :: "(string, plan_row) rows"
  db_jobs :: "(string, job) rows"
  db_dedup :: "(string, dedup_row) rows"
  db_locks :: "(string, string) rows"
  db_events :: "(string \<times> int, event) rows"
  db_meta :: "(string \<times> string, bytes) rows"
  db_version :: int

definition empty_db :: db where
  "empty_db = \<lparr>db_plans = [], db_jobs = [], db_dedup = [], db_locks = [], db_events = [],
     db_meta = [], db_version = 3\<rparr>"

type_synonym 'a tx = "go_error + 'a"

section \<open>Opening the journal\<close>

text \<open>
  What \<^verbatim>\<open>Open\<close> learns from the file system and the driver, in the order it asks: the outcome
  of creating the directory, the directory's kind and permission bits, the lock, the
  journal file, creating it, the schema version and the outcome of the statement or the
  backup that the version calls for.
\<close>

datatype file_stat = Stat_missing | Stat_failed string | Stat_regular nat | Stat_other nat

record open_view =
  ov_mkdir :: "go_error option"
  ov_dir :: "(bool \<times> nat) option"
  ov_lock :: "go_error option"
  ov_file :: file_stat
  ov_create :: "go_error option"
  ov_open :: "go_error option"
  ov_version :: "go_error + int"
  ov_schema :: "go_error option"
  ov_backup :: "go_error option"
  ov_pragma :: "go_error option"

definition private_mode :: "nat \<Rightarrow> bool" where
  "private_mode m \<longleftrightarrow> m mod 64 = 0"

definition opt_err :: "go_error option \<Rightarrow> unit tx" where
  "opt_err e = (case e of None \<Rightarrow> Inr () | Some x \<Rightarrow> Inl x)"

definition open_journal :: "open_view \<Rightarrow> db \<Rightarrow> db tx" where
  "open_journal v d =
     bindr (opt_err (ov_mkdir v)) (\<lambda>_.
     bindr (case ov_dir v of
              Some (True, m) \<Rightarrow> checkr (private_mode m) (Plain ''journal directory must be private mode 0700'')
            | _ \<Rightarrow> Inl (Plain ''journal directory must be private mode 0700'')) (\<lambda>_.
     bindr (opt_err (ov_lock v)) (\<lambda>_.
     bindr (case ov_file v of
              Stat_missing \<Rightarrow> Inr ()
            | Stat_failed s \<Rightarrow> Inl (Plain s)
            | Stat_regular m \<Rightarrow> checkr (private_mode m) (Plain ''journal must be private regular file'')
            | Stat_other _ \<Rightarrow> Inl (Plain ''journal must be private regular file'')) (\<lambda>_.
     bindr (opt_err (ov_create v)) (\<lambda>_.
     bindr (opt_err (ov_open v)) (\<lambda>_.
     bindr (ov_version v) (\<lambda>n.
       if n > 3 then Inl (Plain ''database schema newer than application; use compatible binary'')
       else if n = 0 then bindr (opt_err (ov_schema v)) (\<lambda>_. Inr empty_db)
       else if n = 1 \<or> n = 2 then
         bindr (opt_err (ov_backup v)) (\<lambda>_.
         bindr (opt_err (ov_pragma v)) (\<lambda>_. Inr (d\<lparr>db_version := 3\<rparr>)))
       else Inr (d\<lparr>db_version := n\<rparr>))))))))"

section \<open>Plans and jobs\<close>

definition save_plan :: "plan \<Rightarrow> bytes \<Rightarrow> db \<Rightarrow> db tx" where
  "save_plan p input d =
     (case row_insert (plan_id p) \<lparr>pr_digest = plan_digest p, pr_body = p, pr_input = input\<rparr> (db_plans d) of
        None \<Rightarrow> Inl (Sql_error ''UNIQUE constraint failed: plans.id'')
      | Some t \<Rightarrow> Inr (d\<lparr>db_plans := t\<rparr>))"

definition get_plan :: "string \<Rightarrow> db \<Rightarrow> (plan \<times> bytes) tx" where
  "get_plan i d = (case map_of (db_plans d) i of
      None \<Rightarrow> Inl No_rows | Some r \<Rightarrow> Inr (pr_body r, pr_input r))"

definition get_job :: "string \<Rightarrow> db \<Rightarrow> job tx" where
  "get_job i d = (case map_of (db_jobs d) i of None \<Rightarrow> Inl No_rows | Some j \<Rightarrow> Inr j)"

definition dedup :: "string \<Rightarrow> string \<Rightarrow> db \<Rightarrow> job option tx" where
  "dedup key dig d = (case map_of (db_dedup d) key of
      None \<Rightarrow> Inr None
    | Some r \<Rightarrow>
        (if dd_request r \<noteq> dig then failr ''IDEMPOTENCY_CONFLICT'' ''key was already used with different inputs''
         else bindr (get_job (dd_job r) d) (\<lambda>j. Inr (Some j))))"

definition insert_job :: "job \<Rightarrow> db \<Rightarrow> db tx" where
  "insert_job j d =
     (if map_of (db_plans d) (job_plan j) = None then Inl (Sql_error ''FOREIGN KEY constraint failed'')
      else case row_insert (job_id j) j (db_jobs d) of
        None \<Rightarrow> Inl (Sql_error ''UNIQUE constraint failed: jobs.id'')
      | Some t \<Rightarrow> Inr (d\<lparr>db_jobs := t\<rparr>))"

definition insert_lock :: "string \<Rightarrow> string \<Rightarrow> db \<Rightarrow> db tx" where
  "insert_lock jid r d = (case row_insert r jid (db_locks d) of
      None \<Rightarrow> failr ''RESOURCE_BUSY'' (''a job already holds resource '' @ r)
    | Some t \<Rightarrow> Inr (d\<lparr>db_locks := t\<rparr>))"

definition insert_dedup :: "string \<Rightarrow> string \<Rightarrow> job \<Rightarrow> db \<Rightarrow> db tx" where
  "insert_dedup key dig j d =
     (case row_insert key \<lparr>dd_request = dig, dd_job = job_id j, dd_created = job_created j\<rparr> (db_dedup d) of
        None \<Rightarrow> Inl (Sql_error ''UNIQUE constraint failed: dedup.key'')
      | Some t \<Rightarrow> Inr (d\<lparr>db_dedup := t\<rparr>))"

definition new_job :: "string \<Rightarrow> int \<Rightarrow> plan \<Rightarrow> string \<Rightarrow> job" where
  "new_job i now p parent = \<lparr>job_id = i, job_plan = plan_id p, job_state = Queued, job_step = 0,
     job_created = now, job_error = None, job_cancel = False, job_recovery_of = parent,
     job_recovery_op = []\<rparr>"

text \<open>\<^verbatim>\<open>Accept\<close>: the job, its whole lock set and the idempotency key in one transaction.\<close>

definition accept_tx :: "job \<Rightarrow> plan \<Rightarrow> string \<Rightarrow> string \<Rightarrow> db \<Rightarrow> db tx" where
  "accept_tx j p key dig d =
     bindr (insert_job j d) (\<lambda>d1.
     bindr (foldr_res (insert_lock (job_id j)) (plan_resources p) d1)
       (insert_dedup key dig j))"

definition accept :: "string \<Rightarrow> int \<Rightarrow> plan \<Rightarrow> string \<Rightarrow> string \<Rightarrow> db \<Rightarrow> job tx \<times> db" where
  "accept i now p key dig d =
     (let j = new_job i now p [] in
      case accept_tx j p key dig d of Inl e \<Rightarrow> (Inl e, d) | Inr d' \<Rightarrow> (Inr j, d'))"

section \<open>Updates and events\<close>

definition job_events :: "string \<Rightarrow> db \<Rightarrow> (string \<times> int, event) rows" where
  "job_events i d = rows_where (\<lambda>(j, _) _. j = i) (db_events d)"

definition next_seq :: "string \<Rightarrow> db \<Rightarrow> int" where
  "next_seq i d = (let ss = map (snd \<circ> fst) (job_events i d) in if ss = [] then 1 else Max (set ss) + 1)"

definition insert_event :: "event \<Rightarrow> db \<Rightarrow> db tx" where
  "insert_event e d = (case row_insert (ev_operation e, ev_seq e) e (db_events d) of
      None \<Rightarrow> Inl (Sql_error ''UNIQUE constraint failed: events.job_id, events.seq'')
    | Some t \<Rightarrow> Inr (d\<lparr>db_events := t\<rparr>))"

definition job_event :: "job \<Rightarrow> string \<Rightarrow> string \<Rightarrow> int \<Rightarrow> db \<Rightarrow> event" where
  "job_event j severity msg now d = \<lparr>ev_api = api_version, ev_operation = job_id j,
     ev_seq = next_seq (job_id j) d, ev_at = now, ev_phase = job_state j,
     ev_severity = severity, ev_message = msg\<rparr>"

text \<open>The states whose update drops the job's locks.\<close>

definition releases :: "job_state \<Rightarrow> bool" where
  "releases s \<longleftrightarrow> job_terminal s \<and> s \<noteq> Recovery_required"

definition drop_locks :: "string \<Rightarrow> db \<Rightarrow> db" where
  "drop_locks i d = d\<lparr>db_locks := rows_where (\<lambda>_ owner. owner \<noteq> i) (db_locks d)\<rparr>"

definition update :: "job \<Rightarrow> string \<Rightarrow> int \<Rightarrow> db \<Rightarrow> db tx" where
  "update j msg now d = (case map_of (db_jobs d) (job_id j) of
      None \<Rightarrow> Inl No_rows
    | Some old \<Rightarrow>
        (let j' = j\<lparr>job_cancel := job_cancel j \<or> job_cancel old\<rparr>;
             d1 = d\<lparr>db_jobs := row_set (job_id j) j' (db_jobs d)\<rparr>;
             severity = (if job_error j' = None then ''info'' else ''error'') in
         bindr (insert_event (job_event j' severity msg now d1) d1) (\<lambda>d2.
           Inr (if releases (job_state j') then drop_locks (job_id j) d2 else d2))))"

definition events :: "string \<Rightarrow> int \<Rightarrow> db \<Rightarrow> event list tx" where
  "events i after d =
     (if after < 0 then Inl (Plain ''negative cursor'')
      else Inr (take 1000 (map snd (sort_key (snd \<circ> fst)
             (rows_where (\<lambda>(j, s) _. j = i \<and> s > after) (db_events d))))))"

definition jobs :: "db \<Rightarrow> job list" where
  "jobs d = take 1000 (rev (map snd (db_jobs d)))"

definition jobs_for_recovery :: "bool \<Rightarrow> db \<Rightarrow> job list" where
  "jobs_for_recovery include_partial d =
     filter (\<lambda>j. job_state j \<notin> {Succeeded, Failed, Canceled} \<and>
                 (include_partial \<or> job_state j \<noteq> Partial)) (map snd (db_jobs d))"

definition pending_jobs :: "db \<Rightarrow> job list" where
  "pending_jobs d = jobs_for_recovery False d"

definition storage_reference_jobs :: "db \<Rightarrow> job list" where
  "storage_reference_jobs d = jobs_for_recovery True d"

definition resource_jobs :: "string \<Rightarrow> db \<Rightarrow> string list" where
  "resource_jobs r d = sort (map snd (rows_where (\<lambda>k _. k = r) (db_locks d)))"

section \<open>Accepting a recovery\<close>

text \<open>
  \<^verbatim>\<open>AcceptRecovery\<close> (\<^verbatim>\<open>recovery_accept.go\<close>): the parent must be the actor's unresolved job, the
  child's plan must name every resource of the parent's plan and every lock the parent
  holds, and then all of it moves in one transaction. The iteration over the Go map of
  resources is over its distinct keys.
\<close>

definition recovery_parent :: "string \<Rightarrow> db \<Rightarrow> (job \<times> plan) tx" where
  "recovery_parent i d = (case map_of (db_jobs d) i of
      None \<Rightarrow> Inl No_rows
    | Some j \<Rightarrow> (case map_of (db_plans d) (job_plan j) of
        None \<Rightarrow> Inl No_rows | Some r \<Rightarrow> Inr (j, pr_body r)))"

definition recoverable :: "job_state \<Rightarrow> bool" where
  "recoverable s \<longleftrightarrow> s = Recovery_required \<or> s = Interrupted"

definition check_inherited :: "string \<Rightarrow> string list \<Rightarrow> db \<Rightarrow> string \<Rightarrow> unit \<Rightarrow> unit tx" where
  "check_inherited parent rs d r _ =
     bindr (checkr (r \<in> set rs) (Domain_error (fail ''INVALID_INPUT'' ''recovery must retain every original resource lock'')))
       (\<lambda>_. case map_of (db_locks d) r of
          None \<Rightarrow> Inl No_rows
        | Some owner \<Rightarrow> checkr (owner = parent)
            (Domain_error (fail ''RESOURCE_BUSY'' ''recovery parent no longer holds all its locks'')))"

definition owned_locks :: "string \<Rightarrow> db \<Rightarrow> string list" where
  "owned_locks i d = map fst (rows_where (\<lambda>_ owner. owner = i) (db_locks d))"

definition move_lock :: "string list \<Rightarrow> string \<Rightarrow> string \<Rightarrow> db \<Rightarrow> db tx" where
  "move_lock owned child r d =
     (if r \<in> set owned then Inr (d\<lparr>db_locks := row_set r child (db_locks d)\<rparr>)
      else case row_insert r child (db_locks d) of
        None \<Rightarrow> failr ''RESOURCE_BUSY'' ''recovery cannot acquire complete resource set''
      | Some t \<Rightarrow> Inr (d\<lparr>db_locks := t\<rparr>))"

definition link_parent :: "job \<Rightarrow> job \<Rightarrow> int \<Rightarrow> db \<Rightarrow> db tx" where
  "link_parent parent child now d =
     (let parent' = parent\<lparr>job_state := Partial, job_recovery_op := job_id child\<rparr>;
          d1 = d\<lparr>db_jobs := row_set (job_id parent) parent' (db_jobs d)\<rparr> in
      insert_event (job_event parent' ''warning''
        (''Reviewed recovery accepted; resource locks transferred atomically to operation '' @
         job_id child @ ''; original operation remains partial'') now d1) d1)"

definition accept_recovery_tx :: "job \<Rightarrow> int \<Rightarrow> plan \<Rightarrow> string \<Rightarrow> string \<Rightarrow> string \<Rightarrow> db \<Rightarrow> db tx" where
  "accept_recovery_tx child now p key dig parent_id d =
     bindr (recovery_parent parent_id d) (\<lambda>(parent, prior).
     bindr (checkr (recoverable (job_state parent) \<and> job_recovery_op parent = [] \<and>
                    plan_actor prior = plan_actor p \<and> plan_connection prior = plan_connection p)
       (Domain_error (fail ''STALE_PLAN'' ''recovery parent is not the actor's unresolved job on this connection''))) (\<lambda>_.
     bindr (foldr_res (check_inherited parent_id (plan_resources p) d) (plan_resources prior) ()) (\<lambda>_.
     let owned = owned_locks parent_id d in
     bindr (checkr (\<forall>r \<in> set owned. r \<in> set (plan_resources p))
       (Domain_error (fail ''INVALID_INPUT'' ''recovery omitted a held resource''))) (\<lambda>_.
     bindr (insert_job child d) (\<lambda>d1.
     bindr (foldr_res (move_lock owned (job_id child)) (remdups (plan_resources p)) d1) (\<lambda>d2.
     bindr (link_parent parent child now d2)
       (insert_dedup key dig child)))))))"

definition accept_recovery ::
  "string \<Rightarrow> int \<Rightarrow> plan \<Rightarrow> string \<Rightarrow> string \<Rightarrow> string \<Rightarrow> db \<Rightarrow> job tx \<times> db" where
  "accept_recovery i now p key dig parent_id d =
     (let child = new_job i now p parent_id in
      case accept_recovery_tx child now p key dig parent_id d of
        Inl e \<Rightarrow> (Inl e, d) | Inr d' \<Rightarrow> (Inr child, d'))"

section \<open>Metadata records\<close>

definition put :: "string \<Rightarrow> string \<Rightarrow> bytes \<Rightarrow> db \<Rightarrow> db" where
  "put kind i body d = d\<lparr>db_meta := row_upsert (kind, i) body (db_meta d)\<rparr>"

definition get :: "string \<Rightarrow> string \<Rightarrow> db \<Rightarrow> bytes tx" where
  "get kind i d = (case map_of (db_meta d) (kind, i) of None \<Rightarrow> Inl No_rows | Some b \<Rightarrow> Inr b)"

text \<open>The rows in the order of their keys, compared bytewise as SQLite's BINARY collation does.\<close>

definition metadata_records :: "db \<Rightarrow> ((string \<times> string) \<times> bytes) list" where
  "metadata_records d = sort_key (\<lambda>r. fst (fst r)) (sort_key (\<lambda>r. snd (fst r)) (db_meta d))"

definition metadata :: "string \<Rightarrow> db \<Rightarrow> bytes list" where
  "metadata kind d = map snd (sort_key (\<lambda>r. snd (fst r)) (rows_where (\<lambda>(k, _) _. k = kind) (db_meta d)))"

definition metadata_bytes :: "string \<Rightarrow> string \<Rightarrow> db \<Rightarrow> bytes option" where
  "metadata_bytes kind i d = map_of (db_meta d) (kind, i)"

text \<open>
  \<^verbatim>\<open>ComparePutWithResourceJobs\<close>: \<open>previous\<close> is the byte string the caller observed, \<open>None\<close> when
  the record must be absent; \<open>reviewed\<close> maps a resource to the jobs the review approved.
\<close>

definition reviewed_ok :: "(string \<times> string list) list \<Rightarrow> db \<Rightarrow> bool" where
  "reviewed_ok reviewed d \<longleftrightarrow>
     list_all (\<lambda>(r, approved). list_all (\<lambda>(_, owner). owner \<in> set approved)
        (rows_where (\<lambda>k _. k = r) (db_locks d))) reviewed"

definition compare_put_with_jobs ::
  "string \<Rightarrow> string \<Rightarrow> bytes option \<Rightarrow> bytes \<Rightarrow> (string \<times> string list) list \<Rightarrow> db \<Rightarrow> db tx" where
  "compare_put_with_jobs kind i previous body reviewed d =
     (if map_of (db_meta d) (kind, i) \<noteq> previous
      then failr ''STALE_PLAN'' ''application record changed after preview''
      else if \<not> reviewed_ok reviewed d
      then failr ''STALE_PLAN'' ''new active operation requires a fresh disposition review''
      else Inr (put kind i body d))"

definition compare_put :: "string \<Rightarrow> string \<Rightarrow> bytes option \<Rightarrow> bytes \<Rightarrow> db \<Rightarrow> db tx" where
  "compare_put kind i previous body d = compare_put_with_jobs kind i previous body [] d"

end
