(* ===== verification/Store_Laws.thy ===== *)
theory Store_Laws
  imports Store
begin

text \<open>
  The laws of the journal: what each method of \<open>Store\<close> does to the tables read as maps,
  the well-formedness every method keeps (keys, foreign keys, locks owned by jobs whose
  plans name them, event numbers without gaps), and the lock table as a \<open>keyed_table\<close>.
\<close>

named_theorems store_eff \<open>effects of journal operations on the tables read as maps\<close>

section \<open>Views\<close>

abbreviation job_of :: "db \<Rightarrow> string \<rightharpoonup> job" where
  "job_of d \<equiv> map_of (db_jobs d)"

abbreviation lock_of :: "db \<Rightarrow> string \<rightharpoonup> string" where
  "lock_of d \<equiv> map_of (db_locks d)"

definition plan_of :: "db \<Rightarrow> string \<rightharpoonup> plan" where
  "plan_of d i = map_option pr_body (map_of (db_plans d) i)"

text \<open>The resources the plan of a job names.\<close>

definition needs :: "db \<Rightarrow> string \<Rightarrow> string set" where
  "needs d i = (case job_of d i of
      None \<Rightarrow> {}
    | Some j \<Rightarrow> (case plan_of d (job_plan j) of None \<Rightarrow> {} | Some p \<Rightarrow> set (plan_resources p)))"

definition seqs :: "db \<Rightarrow> string \<Rightarrow> int list" where
  "seqs d i = map (snd \<circ> fst) (job_events i d)"

definition wf_db :: "db \<Rightarrow> bool" where
  "wf_db d \<longleftrightarrow> primary (db_plans d) \<and> primary (db_jobs d) \<and> primary (db_dedup d) \<and>
     primary (db_locks d) \<and> primary (db_events d) \<and> primary (db_meta d) \<and>
     (\<forall>i j. job_of d i = Some j \<longrightarrow> job_id j = i \<and> plan_of d (job_plan j) \<noteq> None) \<and>
     (\<forall>i p. plan_of d i = Some p \<longrightarrow> plan_id p = i) \<and>
     (\<forall>k r. map_of (db_dedup d) k = Some r \<longrightarrow> job_of d (dd_job r) \<noteq> None) \<and>
     (\<forall>r i. lock_of d r = Some i \<longrightarrow> job_of d i \<noteq> None \<and> r \<in> needs d i) \<and>
     (\<forall>i s e. map_of (db_events d) (i, s) = Some e \<longrightarrow> ev_operation e = i \<and> ev_seq e = s \<and> job_of d i \<noteq> None) \<and>
     (\<forall>i. seqs d i = map int [1..<Suc (length (seqs d i))])"

lemma wf_dbD:
  assumes "wf_db d"
  shows wf_primary: "primary (db_plans d)" "primary (db_jobs d)" "primary (db_dedup d)"
      "primary (db_locks d)" "primary (db_events d)" "primary (db_meta d)"
    and wf_job_id: "\<And>i j. job_of d i = Some j \<Longrightarrow> job_id j = i"
    and wf_job_plan: "\<And>i j. job_of d i = Some j \<Longrightarrow> \<exists>p. plan_of d (job_plan j) = Some p"
    and wf_plan_id: "\<And>i p. plan_of d i = Some p \<Longrightarrow> plan_id p = i"
    and wf_dedup: "\<And>k r. map_of (db_dedup d) k = Some r \<Longrightarrow> \<exists>j. job_of d (dd_job r) = Some j"
    and wf_lock_job: "\<And>r i. lock_of d r = Some i \<Longrightarrow> \<exists>j. job_of d i = Some j"
    and wf_lock_needs: "\<And>r i. lock_of d r = Some i \<Longrightarrow> r \<in> needs d i"
    and wf_seqs: "\<And>i. seqs d i = map int [1..<Suc (length (seqs d i))]"
  using assms unfolding wf_db_def by (fast | blast)+

section \<open>Events\<close>

lemma seqs_next: "next_seq i d = (if seqs d i = [] then 1 else Max (set (seqs d i)) + 1)"
  by (simp add: next_seq_def seqs_def Let_def)

lemma mem_seqs: "s \<in> set (seqs d i) \<longleftrightarrow> (\<exists>e. ((i, s), e) \<in> set (db_events d))"
  by (force simp: seqs_def job_events_def rows_where_def)

lemma next_seq_fresh: "map_of (db_events d) (i, next_seq i d) = None"
proof (rule ccontr)
  assume "map_of (db_events d) (i, next_seq i d) \<noteq> None"
  then have "next_seq i d \<in> set (seqs d i)" by (auto simp: mem_seqs dest: map_of_SomeD)
  moreover from this have "next_seq i d > Max (set (seqs d i))" by (simp add: seqs_next split: if_splits)
  ultimately show False using Max_ge [OF finite_set, of "next_seq i d" "seqs d i"] by linarith
qed

lemma insert_job_event:
  "insert_event (job_event j sev msg now d) d =
     Inr (d\<lparr>db_events := db_events d @ [((job_id j, next_seq (job_id j) d), job_event j sev msg now d)]\<rparr>)"
  using next_seq_fresh [of d "job_id j"]
  by (simp add: insert_event_def job_event_def row_insert_def)

lemma next_seq_length:
  assumes "seqs d i = map int [1..<Suc (length (seqs d i))]"
  shows "next_seq i d = int (Suc (length (seqs d i)))"
proof (cases "length (seqs d i)")
  case 0
  then show ?thesis by (simp add: seqs_next)
next
  case (Suc n)
  have "set (map int [1..<Suc (Suc n)]) = int ` {1..Suc n}"
    by (simp only: set_map set_upt atLeastLessThanSuc_atLeastAtMost)
  also have "\<dots> = {1..int (Suc n)}" by (simp only: image_int_atLeastAtMost of_nat_1)
  finally have "set (seqs d i) = {1..int (Suc n)}" using assms Suc by simp
  then have "Max (set (seqs d i)) = int (Suc n)"
    by (simp only:) (rule Max_eqI, auto)
  then show ?thesis using Suc by (auto simp: seqs_next)
qed

text \<open>Events of one job do not depend on any other table.\<close>

lemma seqs_cong: "db_events d' = db_events d \<Longrightarrow> seqs d' i = seqs d i"
  by (simp add: seqs_def job_events_def)

lemma seqs_append_event:
  "db_events d' = db_events d @ [((k, s), e)] \<Longrightarrow>
     seqs d' i = seqs d i @ (if i = k then [s] else [])"
  by (simp add: seqs_def job_events_def rows_where_def)

lemma next_seq_cong: "db_events d' = db_events d \<Longrightarrow> next_seq i d' = next_seq i d"
  by (simp add: next_seq_def job_events_def)

section \<open>The update of a job\<close>

definition merged :: "job \<Rightarrow> job \<Rightarrow> job" where
  "merged j old = j\<lparr>job_cancel := job_cancel j \<or> job_cancel old\<rparr>"

lemma merged_simps [simp]:
  "job_id (merged j old) = job_id j" "job_plan (merged j old) = job_plan j"
  "job_state (merged j old) = job_state j" "job_step (merged j old) = job_step j"
  "job_cancel (merged j old) = (job_cancel j \<or> job_cancel old)"
  "job_error (merged j old) = job_error j" "job_recovery_of (merged j old) = job_recovery_of j"
  "job_recovery_op (merged j old) = job_recovery_op j"
  by (simp_all add: merged_def)

definition update_event :: "job \<Rightarrow> string \<Rightarrow> int \<Rightarrow> db \<Rightarrow> event" where
  "update_event j msg now d =
     job_event j (if job_error j = None then ''info'' else ''error'') msg now d"

text \<open>The one successful outcome of an update, table by table.\<close>

lemma update_Inr:
  assumes "job_of d (job_id j) = Some old"
  shows "update j msg now d = Inr (d\<lparr>db_jobs := row_set (job_id j) (merged j old) (db_jobs d),
     db_events := db_events d @ [((job_id j, next_seq (job_id j) d), update_event j msg now d)],
     db_locks := (if releases (job_state j) then rows_where (\<lambda>_ owner. owner \<noteq> job_id j) (db_locks d)
                  else db_locks d)\<rparr>)"
proof -
  let ?d1 = "d\<lparr>db_jobs := row_set (job_id j) (merged j old) (db_jobs d)\<rparr>"
  let ?sev = "if job_error j = None then ''info'' else ''error''"
  have n: "next_seq (job_id j) ?d1 = next_seq (job_id j) d" by (rule next_seq_cong) simp
  then have ev: "job_event (merged j old) ?sev msg now ?d1 = update_event j msg now d"
    by (simp add: job_event_def update_event_def)
  have "insert_event (job_event (merged j old) ?sev msg now ?d1) ?d1 =
      Inr (?d1\<lparr>db_events := db_events d @ [((job_id j, next_seq (job_id j) d), update_event j msg now d)]\<rparr>)"
    using insert_job_event [of "merged j old" ?sev msg now ?d1] by (simp add: ev n)
  then show ?thesis using assms
    by (simp add: update_def merged_def [symmetric] Let_def drop_locks_def)
qed

lemma update_None: "job_of d (job_id j) = None \<Longrightarrow> update j msg now d = Inl No_rows"
  by (simp add: update_def)

lemma update_total: "(\<exists>d'. update j msg now d = Inr d') \<longleftrightarrow> job_of d (job_id j) \<noteq> None"
  by (cases "job_of d (job_id j)") (auto simp: update_Inr update_None)

lemma update_events:
  assumes "update j msg now d = Inr d'"
  shows "db_events d' = db_events d @ [((job_id j, next_seq (job_id j) d), update_event j msg now d)]"
proof -
  from assms obtain old where old: "job_of d (job_id j) = Some old" using update_total by blast
  from update_Inr [OF old] assms show ?thesis by auto
qed

lemma update_effects:
  assumes "update j msg now d = Inr d'" and "primary (db_locks d)"
  obtains old where "job_of d (job_id j) = Some old"
    and "job_of d' = (job_of d)(job_id j \<mapsto> merged j old)"
    and "map fst (db_jobs d') = map fst (db_jobs d)"
    and "db_plans d' = db_plans d" and "db_dedup d' = db_dedup d" and "db_meta d' = db_meta d"
    and "db_version d' = db_version d"
    and "db_events d' = db_events d @ [((job_id j, next_seq (job_id j) d), update_event j msg now d)]"
    and "lock_of d' = (\<lambda>r. if releases (job_state j) \<and> lock_of d r = Some (job_id j) then None else lock_of d r)"
    and "primary (db_locks d')"
proof -
  from assms(1) obtain old where old: "job_of d (job_id j) = Some old"
    using update_total by blast
  from update_Inr [OF old] assms(1) have d': "d' = d\<lparr>db_jobs := row_set (job_id j) (merged j old) (db_jobs d),
     db_events := db_events d @ [((job_id j, next_seq (job_id j) d), update_event j msg now d)],
     db_locks := (if releases (job_state j) then rows_where (\<lambda>_ owner. owner \<noteq> job_id j) (db_locks d)
                  else db_locks d)\<rparr>" by simp
  show thesis
    by (rule that [OF old]) (auto simp: d' old map_of_row_set fun_eq_iff map_of_rows_where assms(2)
        primary_rows_where split: option.splits)
qed

section \<open>Well-formedness is kept\<close>

lemma plan_of_cong: "db_plans d' = db_plans d \<Longrightarrow> plan_of d' = plan_of d"
  by (simp add: plan_of_def fun_eq_iff)

lemma needs_cong: "job_of d' i = job_of d i \<Longrightarrow> plan_of d' = plan_of d \<Longrightarrow> needs d' i = needs d i"
  by (simp add: needs_def cong: option.case_cong)

lemma needs_job: "job_of d i = Some j \<Longrightarrow> plan_of d (job_plan j) = Some p \<Longrightarrow> needs d i = set (plan_resources p)"
  by (simp add: needs_def)

lemma seqs_snoc_ok:
  assumes "xs = map int [1..<Suc (length xs)]" and "s = int (Suc (length xs))"
  shows "xs @ [s] = map int [1..<Suc (length (xs @ [s]))]"
proof -
  have "map int [1..<Suc (Suc (length xs))] = map int [1..<Suc (length xs)] @ [int (Suc (length xs))]"
    by simp
  then show ?thesis using assms by (simp only: length_append list.size One_nat_def add_Suc_right add_0_right)
qed

text \<open>The event part of well-formedness after one appended event with the next number.\<close>

lemma wf_append_event:
  assumes wf: "wf_db d" and ev: "db_events d' = db_events d @ [((i, next_seq i d), e)]"
    and e: "ev_operation e = i" "ev_seq e = next_seq i d"
    and jobs: "\<And>k. job_of d k \<noteq> None \<Longrightarrow> job_of d' k \<noteq> None" and i: "job_of d' i \<noteq> None"
  shows "primary (db_events d')"
    and "\<forall>k s x. map_of (db_events d') (k, s) = Some x \<longrightarrow> ev_operation x = k \<and> ev_seq x = s \<and> job_of d' k \<noteq> None"
    and "\<forall>k. seqs d' k = map int [1..<Suc (length (seqs d' k))]"
proof -
  have ins: "row_insert (i, next_seq i d) e (db_events d) = Some (db_events d')"
    using next_seq_fresh [of d i] by (simp add: row_insert_Some_iff ev)
  show "primary (db_events d')" using primary_row_insert [OF ins] wf by (simp add: wf_db_def)
  show "\<forall>k s x. map_of (db_events d') (k, s) = Some x \<longrightarrow> ev_operation x = k \<and> ev_seq x = s \<and> job_of d' k \<noteq> None"
    using wf e i jobs unfolding map_of_row_insert [OF ins] by (auto simp: wf_db_def)
  show "\<forall>k. seqs d' k = map int [1..<Suc (length (seqs d' k))]"
  proof
    fix k
    show "seqs d' k = map int [1..<Suc (length (seqs d' k))]"
    proof (cases "k = i")
      case True
      have "next_seq i d = int (Suc (length (seqs d i)))"
        by (rule next_seq_length) (rule wf_seqs [OF wf])
      then show ?thesis
        using seqs_append_event [OF ev, of k] seqs_snoc_ok [OF wf_seqs [OF wf, of i]] True by simp
    next
      case False
      then show ?thesis using seqs_append_event [OF ev, of k] wf_seqs [OF wf, of k] by simp
    qed
  qed
qed

lemma update_event_simps [simp]:
  "ev_operation (update_event j msg now d) = job_id j"
  "ev_seq (update_event j msg now d) = next_seq (job_id j) d"
  "ev_phase (update_event j msg now d) = job_state j"
  "ev_message (update_event j msg now d) = msg"
  by (simp_all add: update_event_def job_event_def)

lemma update_wf:
  assumes wf: "wf_db d" and up: "update j msg now d = Inr d'"
    and old: "job_of d (job_id j) = Some old" and plan: "job_plan j = job_plan old"
  shows "wf_db d'"
proof -
  from update_effects [OF up wf_primary(4) [OF wf]] old have
    jobs: "job_of d' = (job_of d)(job_id j \<mapsto> merged j old)" and
    keys: "map fst (db_jobs d') = map fst (db_jobs d)" and
    same: "db_plans d' = db_plans d" "db_dedup d' = db_dedup d" "db_meta d' = db_meta d" and
    ev: "db_events d' = db_events d @ [((job_id j, next_seq (job_id j) d), update_event j msg now d)]" and
    locks: "lock_of d' = (\<lambda>r. if releases (job_state j) \<and> lock_of d r = Some (job_id j) then None else lock_of d r)" and
    pl: "primary (db_locks d')"
    by (metis option.inject)+
  have plans: "plan_of d' = plan_of d" using same(1) by (rule plan_of_cong)
  have needs: "needs d' i = needs d i" for i
    using old plan by (auto simp: needs_def jobs plans cong: option.case_cong)
  note e = wf_append_event [OF wf ev update_event_simps(1,2)]
  have keep: "job_of d k \<noteq> None \<Longrightarrow> job_of d' k \<noteq> None" for k by (simp add: jobs)
  have here: "job_of d' (job_id j) \<noteq> None" by (simp add: jobs)
  show ?thesis
    unfolding wf_db_def
  proof (intro conjI)
    show "\<forall>i x. job_of d' i = Some x \<longrightarrow> job_id x = i \<and> plan_of d' (job_plan x) \<noteq> None"
      using wf_job_id [OF wf] wf_job_plan [OF wf] wf_job_plan [OF wf old] plan
      by (auto simp: jobs plans)
    show "\<forall>r i. lock_of d' r = Some i \<longrightarrow> job_of d' i \<noteq> None \<and> r \<in> needs d' i"
      using wf_lock_job [OF wf] wf_lock_needs [OF wf] by (auto simp: locks needs jobs split: if_splits)
    show "\<forall>k r. map_of (db_dedup d') k = Some r \<longrightarrow> job_of d' (dd_job r) \<noteq> None"
      using wf_dedup [OF wf] by (auto simp: same jobs)
    show "\<forall>i p. plan_of d' i = Some p \<longrightarrow> plan_id p = i" using wf_plan_id [OF wf] by (simp add: plans)
  qed (use wf pl keys same e [OF keep here] in \<open>simp_all add: wf_db_def\<close>)
qed

section \<open>Accepting a job\<close>

text \<open>The lock loop is the table interface's insertion of one owner under many keys.\<close>

lemma insert_locks_Inr:
  "foldr_res (insert_lock i) rs d = Inr d' \<longleftrightarrow>
     (\<exists>t. table.ins_all rs i (db_locks d) = Some t \<and> d' = d\<lparr>db_locks := t\<rparr>)"
proof (induction rs arbitrary: d)
  case Nil
  then show ?case by auto
next
  case (Cons r rs)
  then show ?case by (cases "row_insert r i (db_locks d)") (auto simp: insert_lock_def)
qed

lemma insert_locks_Inl:
  "foldr_res (insert_lock i) rs d = Inl e \<Longrightarrow>
     \<exists>r \<in> set rs. e = Domain_error (fail ''RESOURCE_BUSY'' (''a job already holds resource '' @ r))"
proof (induction rs arbitrary: d)
  case Nil
  then show ?case by simp
next
  case (Cons r rs)
  then show ?case
    by (cases "row_insert r i (db_locks d)") (force simp: insert_lock_def bindr_Inl_iff)+
qed

lemma insert_job_Inr:
  "insert_job j d = Inr d' \<longleftrightarrow> map_of (db_plans d) (job_plan j) \<noteq> None \<and> job_of d (job_id j) = None \<and>
     d' = d\<lparr>db_jobs := db_jobs d @ [(job_id j, j)]\<rparr>"
  by (auto simp: insert_job_def row_insert_def)

lemma insert_dedup_Inr:
  "insert_dedup key dig j d = Inr d' \<longleftrightarrow> map_of (db_dedup d) key = None \<and>
     d' = d\<lparr>db_dedup := db_dedup d @ [(key, \<lparr>dd_request = dig, dd_job = job_id j, dd_created = job_created j\<rparr>)]\<rparr>"
  by (auto simp: insert_dedup_def row_insert_def)

lemma accept_tx_Inr:
  "accept_tx j p key dig d = Inr d' \<longleftrightarrow>
     map_of (db_plans d) (job_plan j) \<noteq> None \<and> job_of d (job_id j) = None \<and>
     map_of (db_dedup d) key = None \<and>
     (\<exists>t. table.ins_all (plan_resources p) (job_id j) (db_locks d) = Some t \<and>
       d' = d\<lparr>db_jobs := db_jobs d @ [(job_id j, j)], db_locks := t,
              db_dedup := db_dedup d @ [(key, \<lparr>dd_request = dig, dd_job = job_id j, dd_created = job_created j\<rparr>)]\<rparr>)"
  by (auto simp: accept_tx_def insert_job_Inr insert_dedup_Inr insert_locks_Inr)

lemma accept_rollback: "accept i now p key dig d = (Inl e, d') \<Longrightarrow> d' = d"
  by (auto simp: accept_def Let_def split: sum.splits)

lemma accept_effects:
  assumes acc: "accept i now p key dig d = (Inr j, d')" and pl: "primary (db_locks d)"
  shows "j = new_job i now p []" and "job_of d i = None" and "map_of (db_dedup d) key = None"
    and "map_of (db_plans d) (plan_id p) \<noteq> None"
    and "distinct (plan_resources p)" and "\<forall>r \<in> set (plan_resources p). lock_of d r = None"
    and "job_of d' = (job_of d)(i \<mapsto> j)"
    and "lock_of d' = (\<lambda>r. if r \<in> set (plan_resources p) then Some i else lock_of d r)"
    and "map_of (db_dedup d') = (map_of (db_dedup d))(key \<mapsto> \<lparr>dd_request = dig, dd_job = i, dd_created = now\<rparr>)"
    and "db_plans d' = db_plans d" and "db_events d' = db_events d" and "db_meta d' = db_meta d"
    and "db_version d' = db_version d"
    and "primary (db_jobs d) \<Longrightarrow> primary (db_jobs d')" and "primary (db_locks d')"
    and "primary (db_dedup d) \<Longrightarrow> primary (db_dedup d')"
proof -
  from acc have j: "j = new_job i now p []" and tx: "accept_tx j p key dig d = Inr d'"
    by (auto simp: accept_def Let_def split: sum.splits)
  note tx = tx [unfolded accept_tx_Inr]
  then obtain t where t: "table.ins_all (plan_resources p) (job_id j) (db_locks d) = Some t"
    and d': "d' = d\<lparr>db_jobs := db_jobs d @ [(job_id j, j)], db_locks := t,
              db_dedup := db_dedup d @ [(key, \<lparr>dd_request = dig, dd_job = job_id j, dd_created = job_created j\<rparr>)]\<rparr>"
    by blast
  have i: "job_id j = i" "job_plan j = plan_id p" "job_created j = now"
    by (simp_all add: j new_job_def)
  have ji: "row_insert i j (db_jobs d) = Some (db_jobs d')"
    using tx by (simp add: row_insert_Some_iff d' i)
  have di: "row_insert key \<lparr>dd_request = dig, dd_job = i, dd_created = now\<rparr> (db_dedup d) = Some (db_dedup d')"
    using tx by (simp add: row_insert_Some_iff d' i)
  show "j = new_job i now p []" by (rule j)
  show "job_of d i = None" "map_of (db_dedup d) key = None" "map_of (db_plans d) (plan_id p) \<noteq> None"
    using tx by (simp_all add: i)
  show "distinct (plan_resources p)" "\<forall>r \<in> set (plan_resources p). lock_of d r = None"
    using table.ins_all_Some_iff [THEN iffD1, OF exI, OF t] by simp_all
  show "job_of d' = (job_of d)(i \<mapsto> j)" by (rule map_of_row_insert [OF ji])
  show "map_of (db_dedup d') = (map_of (db_dedup d))(key \<mapsto> \<lparr>dd_request = dig, dd_job = i, dd_created = now\<rparr>)"
    by (rule map_of_row_insert [OF di])
  show "lock_of d' = (\<lambda>r. if r \<in> set (plan_resources p) then Some i else lock_of d r)"
    using table.lookup_ins_all [OF t] by (simp add: d' i fun_eq_iff)
  show "primary (db_jobs d) \<Longrightarrow> primary (db_jobs d')" by (rule primary_row_insert [OF ji])
  show "primary (db_dedup d) \<Longrightarrow> primary (db_dedup d')" by (rule primary_row_insert [OF di])
  show "primary (db_locks d')" using table.ok_ins_all [OF t] pl by (simp add: d')
  show "db_plans d' = db_plans d" "db_events d' = db_events d" "db_meta d' = db_meta d"
    "db_version d' = db_version d" by (simp_all add: d')
qed

lemma new_job_simps [simp]:
  "job_id (new_job i now p q) = i" "job_plan (new_job i now p q) = plan_id p"
  "job_state (new_job i now p q) = Queued" "job_recovery_of (new_job i now p q) = q"
  "job_recovery_op (new_job i now p q) = []" "job_created (new_job i now p q) = now"
  "\<not> job_cancel (new_job i now p q)" "job_step (new_job i now p q) = 0"
  by (simp_all add: new_job_def)

text \<open>
  Well-formedness after a new job row, whatever happened to the locks: shared by the two
  ways a job is accepted.
\<close>

lemma wf_db_intro:
  assumes wf: "wf_db d" and plans: "db_plans d' = db_plans d" and meta: "db_meta d' = db_meta d"
    and prim: "primary (db_jobs d')" "primary (db_locks d')" "primary (db_dedup d')"
    and jobs: "\<And>i j. job_of d' i = Some j \<Longrightarrow> job_id j = i \<and> plan_of d (job_plan j) \<noteq> None"
    and keep: "\<And>i. job_of d i \<noteq> None \<Longrightarrow> job_of d' i \<noteq> None"
    and dedups: "\<And>k r. map_of (db_dedup d') k = Some r \<Longrightarrow>
        map_of (db_dedup d) k = Some r \<or> job_of d' (dd_job r) \<noteq> None"
    and locks: "\<And>r i. lock_of d' r = Some i \<Longrightarrow> job_of d' i \<noteq> None \<and> r \<in> needs d' i"
    and evs: "primary (db_events d')"
      "\<forall>k s x. map_of (db_events d') (k, s) = Some x \<longrightarrow> ev_operation x = k \<and> ev_seq x = s \<and> job_of d' k \<noteq> None"
      "\<forall>k. seqs d' k = map int [1..<Suc (length (seqs d' k))]"
  shows "wf_db d'"
  unfolding wf_db_def
proof (intro conjI)
  have p: "plan_of d' = plan_of d" using plans by (rule plan_of_cong)
  show "\<forall>i j. job_of d' i = Some j \<longrightarrow> job_id j = i \<and> plan_of d' (job_plan j) \<noteq> None"
    using jobs by (simp add: p)
  show "\<forall>i q. plan_of d' i = Some q \<longrightarrow> plan_id q = i" using wf_plan_id [OF wf] by (simp add: p)
  show "\<forall>k r. map_of (db_dedup d') k = Some r \<longrightarrow> job_of d' (dd_job r) \<noteq> None"
  proof (intro allI impI)
    fix k r assume "map_of (db_dedup d') k = Some r"
    from dedups [OF this] show "job_of d' (dd_job r) \<noteq> None"
    proof
      assume "map_of (db_dedup d) k = Some r"
      then have "job_of d (dd_job r) \<noteq> None" using wf_dedup [OF wf] by blast
      then show ?thesis by (rule keep)
    qed
  qed
  show "\<forall>r i. lock_of d' r = Some i \<longrightarrow> job_of d' i \<noteq> None \<and> r \<in> needs d' i"
    using locks by blast
qed (use wf plans meta prim evs in \<open>simp_all add: wf_db_def\<close>)

lemma wf_events_kept:
  assumes wf: "wf_db d" and ev: "db_events d' = db_events d"
    and keep: "\<And>i. job_of d i \<noteq> None \<Longrightarrow> job_of d' i \<noteq> None"
  shows "primary (db_events d')"
    and "\<forall>k s x. map_of (db_events d') (k, s) = Some x \<longrightarrow> ev_operation x = k \<and> ev_seq x = s \<and> job_of d' k \<noteq> None"
    and "\<forall>k. seqs d' k = map int [1..<Suc (length (seqs d' k))]"
  using wf keep unfolding wf_db_def by (auto simp: ev seqs_cong [OF ev])

lemma accept_wf:
  assumes wf: "wf_db d" and acc: "accept i now p key dig d = (Inr j, d')"
    and plan: "plan_of d (plan_id p) = Some p"
  shows "wf_db d'"
proof -
  note eff = accept_effects [OF acc wf_primary(4) [OF wf]]
  have p: "plan_of d' = plan_of d" using eff(10) by (rule plan_of_cong)
  have keep: "job_of d k \<noteq> None \<Longrightarrow> job_of d' k \<noteq> None" for k by (simp add: eff(7))
  have old: "job_of d k \<noteq> None \<Longrightarrow> needs d' k = needs d k" for k
    using eff(2) by (intro needs_cong) (auto simp: eff(7) p)
  have new: "needs d' i = set (plan_resources p)"
    using plan by (intro needs_job [where j = j]) (auto simp: eff(1,7) p)
  show ?thesis
  proof (rule wf_db_intro [OF wf eff(10,12)])
    show "\<And>k x. job_of d' k = Some x \<Longrightarrow> job_id x = k \<and> plan_of d (job_plan x) \<noteq> None"
      using wf_job_id [OF wf] wf_job_plan [OF wf] plan by (auto simp: eff(1,7) split: if_splits)
    show "\<And>k r. map_of (db_dedup d') k = Some r \<Longrightarrow>
        map_of (db_dedup d) k = Some r \<or> job_of d' (dd_job r) \<noteq> None"
      by (auto simp: eff(7,9) split: if_splits)
    show "\<And>r k. lock_of d' r = Some k \<Longrightarrow> job_of d' k \<noteq> None \<and> r \<in> needs d' k"
      using wf_lock_job [OF wf] wf_lock_needs [OF wf] new old keep eff(7)
      by (simp add: eff(8) split: if_splits) (metis option.distinct(1))
  qed (use eff wf_primary [OF wf] keep wf_events_kept [OF wf eff(11) keep] in auto)
qed

lemma save_plan_effects:
  assumes "save_plan p input d = Inr d'"
  shows "map_of (db_plans d') = (map_of (db_plans d))(plan_id p \<mapsto>
      \<lparr>pr_digest = plan_digest p, pr_body = p, pr_input = input\<rparr>)"
    and "map_of (db_plans d) (plan_id p) = None" and "primary (db_plans d) \<Longrightarrow> primary (db_plans d')"
    and "plan_of d' = (plan_of d)(plan_id p \<mapsto> p)"
    and "db_jobs d' = db_jobs d" and "db_locks d' = db_locks d" and "db_dedup d' = db_dedup d"
    and "db_events d' = db_events d" and "db_meta d' = db_meta d"
proof -
  from assms obtain t where t: "row_insert (plan_id p)
      \<lparr>pr_digest = plan_digest p, pr_body = p, pr_input = input\<rparr> (db_plans d) = Some t"
    and d': "d' = d\<lparr>db_plans := t\<rparr>" by (auto simp: save_plan_def split: option.splits)
  show "map_of (db_plans d') = (map_of (db_plans d))(plan_id p \<mapsto>
      \<lparr>pr_digest = plan_digest p, pr_body = p, pr_input = input\<rparr>)"
    using map_of_row_insert [OF t] by (simp add: d')
  then show "plan_of d' = (plan_of d)(plan_id p \<mapsto> p)" by (simp add: plan_of_def fun_eq_iff)
  show "map_of (db_plans d) (plan_id p) = None" using t by (simp add: row_insert_Some_iff)
  show "primary (db_plans d) \<Longrightarrow> primary (db_plans d')" using primary_row_insert [OF t] by (simp add: d')
qed (use assms in \<open>auto simp: save_plan_def split: option.splits\<close>)

lemma save_plan_wf:
  assumes wf: "wf_db d" and sv: "save_plan p input d = Inr d'"
  shows "wf_db d'"
proof -
  note eff = save_plan_effects [OF sv]
  have new: "plan_of d (plan_id p) = None" using eff(2) by (simp add: plan_of_def)
  have needs: "needs d' i = needs d i" for i
  proof (cases "job_of d i")
    case None
    then show ?thesis by (simp add: needs_def eff(5))
  next
    case (Some j)
    from wf_job_plan [OF wf Some] obtain q where "plan_of d (job_plan j) = Some q" by blast
    with new Some show ?thesis by (auto simp: needs_def eff(4,5))
  qed
  have "\<forall>i q. plan_of d' i = Some q \<longrightarrow> plan_id q = i"
    using wf_plan_id [OF wf] by (auto simp: eff(4))
  moreover have "\<forall>i j. job_of d' i = Some j \<longrightarrow> job_id j = i \<and> plan_of d' (job_plan j) \<noteq> None"
    using wf_job_id [OF wf] wf_job_plan [OF wf] by (auto simp: eff(4,5))
  ultimately show ?thesis
    using wf eff(3) unfolding wf_db_def needs eff(5-9) seqs_cong [OF eff(8)] by blast
qed

section \<open>Accepting a recovery\<close>

lemma check_inherited_Inr:
  "foldr_res (check_inherited parent rs d) qs u = Inr v \<longleftrightarrow>
     (\<forall>r \<in> set qs. r \<in> set rs \<and> lock_of d r = Some parent)"
  by (induction qs arbitrary: u) (auto simp: check_inherited_def split: option.splits)

lemma owned_locks_set:
  assumes "primary (db_locks d)"
  shows "r \<in> set (owned_locks i d) \<longleftrightarrow> lock_of d r = Some i"
  using assms by (force simp: owned_locks_def rows_where_def)

lemma move_locks_effects:
  assumes "foldr_res (move_lock owned i) rs d = Inr d'" and "distinct rs"
    and "\<forall>r \<in> set owned. lock_of d r \<noteq> None" and "primary (db_locks d)"
  shows "lock_of d' = (\<lambda>r. if r \<in> set rs then Some i else lock_of d r) \<and>
     (\<forall>r \<in> set rs. r \<in> set owned \<or> lock_of d r = None) \<and> primary (db_locks d') \<and>
     (\<exists>t. d' = d\<lparr>db_locks := t\<rparr>)"
  using assms
proof (induction rs arbitrary: d)
  case Nil
  then show ?case by (auto intro: exI [where x = "db_locks d"])
next
  case (Cons r rs)
  from Cons.prems(1) obtain d1 where d1: "move_lock owned i r d = Inr d1"
    and rest: "foldr_res (move_lock owned i) rs d1 = Inr d'" by auto
  have one: "lock_of d1 = (lock_of d)(r \<mapsto> i) \<and> (r \<in> set owned \<or> lock_of d r = None) \<and>
      primary (db_locks d1) \<and> (\<exists>t. d1 = d\<lparr>db_locks := t\<rparr>)"
    using d1 Cons.prems(3,4)
    by (auto simp: move_lock_def map_of_row_set dest: map_of_row_insert primary_row_insert
        split: if_splits option.splits) (auto simp: row_insert_Some_iff)
  have "\<forall>r \<in> set owned. lock_of d1 r \<noteq> None" using Cons.prems(3) one by auto
  from Cons.IH [OF rest _ this] Cons.prems(2) one
  have ih: "lock_of d' = (\<lambda>r. if r \<in> set rs then Some i else lock_of d1 r)"
    "\<forall>r \<in> set rs. r \<in> set owned \<or> lock_of d1 r = None" "primary (db_locks d')"
    "\<exists>t. d' = d1\<lparr>db_locks := t\<rparr>" by auto
  have "\<forall>q \<in> set rs. q \<in> set owned \<or> lock_of d q = None"
  proof
    fix q assume q: "q \<in> set rs"
    then have "q \<noteq> r" using Cons.prems(2) by auto
    then show "q \<in> set owned \<or> lock_of d q = None" using ih(2) one q by auto
  qed
  moreover have "\<exists>t. d' = d\<lparr>db_locks := t\<rparr>" using ih(4) one by auto
  ultimately show ?case using ih(1,3) one by auto
qed

lemma link_parent_Inr:
  "link_parent parent child now d = Inr d' \<longleftrightarrow>
     (let parent' = parent\<lparr>job_state := Partial, job_recovery_op := job_id child\<rparr> in
      d' = d\<lparr>db_jobs := row_set (job_id parent) parent' (db_jobs d),
             db_events := db_events d @ [((job_id parent, next_seq (job_id parent) d),
               job_event parent' ''warning'' (''Reviewed recovery accepted; resource locks transferred atomically to operation '' @
                 job_id child @ ''; original operation remains partial'') now d)]\<rparr>)"
proof -
  let ?p = "parent\<lparr>job_state := Partial, job_recovery_op := job_id child\<rparr>"
  let ?d1 = "d\<lparr>db_jobs := row_set (job_id parent) ?p (db_jobs d)\<rparr>"
  have n: "next_seq i ?d1 = next_seq i d" for i by (rule next_seq_cong) simp
  have "job_event ?p sev msg now ?d1 = job_event ?p sev msg now d" for sev msg
    by (simp add: job_event_def n)
  then show ?thesis
    using insert_job_event [of ?p "''warning''" _ now ?d1] by (auto simp: link_parent_def Let_def n)
qed

text \<open>The row of the parent once its recovery is accepted.\<close>

abbreviation superseded :: "job \<Rightarrow> string \<Rightarrow> job" where
  "superseded parent i \<equiv> parent\<lparr>job_state := Partial, job_recovery_op := i\<rparr>"

lemma accept_recovery_rollback: "accept_recovery i now p key dig par d = (Inl e, d') \<Longrightarrow> d' = d"
  by (auto simp: accept_recovery_def Let_def split: sum.splits)

lemma accept_recovery_effects:
  assumes acc: "accept_recovery i now p key dig par d = (Inr j, d')" and wf: "wf_db d"
  obtains parent prior where "j = new_job i now p par"
    and "job_of d par = Some parent" and "plan_of d (job_plan parent) = Some prior"
    and "recoverable (job_state parent)" and "job_recovery_op parent = []"
    and "plan_actor prior = plan_actor p" and "plan_connection prior = plan_connection p"
    and "job_of d i = None" and "map_of (db_plans d) (plan_id p) \<noteq> None"
    and "map_of (db_dedup d) key = None"
    and "set (plan_resources prior) \<subseteq> set (plan_resources p)"
    and "\<forall>r \<in> set (plan_resources prior). lock_of d r = Some par"
    and "\<forall>r. lock_of d r = Some par \<longrightarrow> r \<in> set (plan_resources p)"
    and "\<forall>r \<in> set (plan_resources p). lock_of d r = Some par \<or> lock_of d r = None"
    and "job_of d' = (job_of d)(i \<mapsto> j, par \<mapsto> superseded parent i)"
    and "lock_of d' = (\<lambda>r. if r \<in> set (plan_resources p) then Some i else lock_of d r)"
    and "map_of (db_dedup d') = (map_of (db_dedup d))(key \<mapsto> \<lparr>dd_request = dig, dd_job = i, dd_created = now\<rparr>)"
    and "db_plans d' = db_plans d" and "db_meta d' = db_meta d"
    and "primary (db_jobs d')" and "primary (db_locks d')" and "primary (db_dedup d')"
    and "\<exists>e. db_events d' = db_events d @ [((par, next_seq par d), e)] \<and> ev_operation e = par \<and>
           ev_seq e = next_seq par d \<and> ev_phase e = Partial"
proof -
  let ?child = "new_job i now p par"
  from acc have j: "j = ?child" and tx: "accept_recovery_tx ?child now p key dig par d = Inr d'"
    by (auto simp: accept_recovery_def Let_def split: sum.splits)
  from tx obtain parent prior d1 d2 d3 where
    par: "recovery_parent par d = Inr (parent, prior)" and
    ok: "recoverable (job_state parent)" "job_recovery_op parent = []"
        "plan_actor prior = plan_actor p" "plan_connection prior = plan_connection p" and
    inh: "foldr_res (check_inherited par (plan_resources p) d) (plan_resources prior) () = Inr ()" and
    owned: "\<forall>r \<in> set (owned_locks par d). r \<in> set (plan_resources p)" and
    d1: "insert_job ?child d = Inr d1" and
    d2: "foldr_res (move_lock (owned_locks par d) i) (remdups (plan_resources p)) d1 = Inr d2" and
    d3: "link_parent parent ?child now d2 = Inr d3" and
    d4: "insert_dedup key dig ?child d3 = Inr d'"
    by (auto simp: accept_recovery_tx_def Let_def)
  have parent: "job_of d par = Some parent" "plan_of d (job_plan parent) = Some prior"
    using par by (auto simp: recovery_parent_def plan_of_def split: option.splits)
  have pid: "job_id parent = par" using wf_job_id [OF wf parent(1)] .
  note d1' = d1 [unfolded insert_job_Inr new_job_simps]
  have own: "r \<in> set (owned_locks par d) \<longleftrightarrow> lock_of d r = Some par" for r
    by (rule owned_locks_set [OF wf_primary(4) [OF wf]])
  have lk: "db_locks d1 = db_locks d" using d1' by simp
  have mv: "lock_of d2 = (\<lambda>r. if r \<in> set (plan_resources p) then Some i else lock_of d r)"
    "\<forall>r \<in> set (plan_resources p). lock_of d r = Some par \<or> lock_of d r = None"
    "primary (db_locks d2)" "\<exists>t. d2 = d1\<lparr>db_locks := t\<rparr>"
    using move_locks_effects [OF d2] wf_primary(4) [OF wf] by (auto simp: lk own)
  then obtain t where t: "d2 = d1\<lparr>db_locks := t\<rparr>" by blast
  note d3' = d3 [unfolded link_parent_Inr Let_def pid new_job_simps]
  note d4' = d4 [unfolded insert_dedup_Inr new_job_simps]
  have ne: "par \<noteq> i" using parent(1) d1' by auto
  have ins: "row_insert i ?child (db_jobs d) = Some (db_jobs d1)" using d1' by (simp add: row_insert_Some_iff)
  have dins: "row_insert key \<lparr>dd_request = dig, dd_job = i, dd_created = now\<rparr> (db_dedup d) = Some (db_dedup d')"
    using d1' d4' by (simp add: row_insert_Some_iff d3' t)
  have n: "next_seq par d2 = next_seq par d" by (rule next_seq_cong) (simp add: t d1')
  show thesis
  proof (rule that [OF j parent ok])
    show "job_of d i = None" "map_of (db_plans d) (plan_id p) \<noteq> None" using d1' by simp_all
    show "map_of (db_dedup d) key = None" using dins by (simp add: row_insert_Some_iff)
    show "set (plan_resources prior) \<subseteq> set (plan_resources p)"
      "\<forall>r \<in> set (plan_resources prior). lock_of d r = Some par"
      using inh by (auto simp: check_inherited_Inr)
    show "\<forall>r. lock_of d r = Some par \<longrightarrow> r \<in> set (plan_resources p)" using owned by (simp add: own)
    show "\<forall>r \<in> set (plan_resources p). lock_of d r = Some par \<or> lock_of d r = None" by (rule mv(2))
    show "job_of d' = (job_of d)(i \<mapsto> j, par \<mapsto> superseded parent i)"
      using parent(1) ne by (simp add: d4' d3' t map_of_row_set map_of_row_insert [OF ins] j)
    show "lock_of d' = (\<lambda>r. if r \<in> set (plan_resources p) then Some i else lock_of d r)"
      using mv(1) by (simp add: d4' d3')
    show "map_of (db_dedup d') = (map_of (db_dedup d))(key \<mapsto> \<lparr>dd_request = dig, dd_job = i, dd_created = now\<rparr>)"
      by (rule map_of_row_insert [OF dins])
    show "primary (db_jobs d')" using primary_row_insert [OF ins wf_primary(2) [OF wf]] by (simp add: d4' d3' t)
    show "primary (db_locks d')" using mv(3) by (simp add: d4' d3')
    show "primary (db_dedup d')" by (rule primary_row_insert [OF dins wf_primary(3) [OF wf]])
    show "\<exists>e. db_events d' = db_events d @ [((par, next_seq par d), e)] \<and> ev_operation e = par \<and>
           ev_seq e = next_seq par d \<and> ev_phase e = Partial"
      by (simp add: d4' d3' job_event_def pid n) (simp add: t d1')
    show "db_plans d' = db_plans d" "db_meta d' = db_meta d" by (simp_all add: d4' d3' t d1')
  qed
qed

lemma accept_recovery_wf:
  assumes wf: "wf_db d" and acc: "accept_recovery i now p key dig par d = (Inr j, d')"
    and plan: "plan_of d (plan_id p) = Some p"
  shows "wf_db d'"
  using acc wf
proof (rule accept_recovery_effects)
  fix parent prior
  assume j: "j = new_job i now p par" and par: "job_of d par = Some parent"
    and prior: "plan_of d (job_plan parent) = Some prior"
    and i: "job_of d i = None"
    and owns: "\<forall>r. lock_of d r = Some par \<longrightarrow> r \<in> set (plan_resources p)"
    and jobs: "job_of d' = (job_of d)(i \<mapsto> j, par \<mapsto> superseded parent i)"
    and locks: "lock_of d' = (\<lambda>r. if r \<in> set (plan_resources p) then Some i else lock_of d r)"
    and dd: "map_of (db_dedup d') = (map_of (db_dedup d))(key \<mapsto> \<lparr>dd_request = dig, dd_job = i, dd_created = now\<rparr>)"
    and plans: "db_plans d' = db_plans d" and meta: "db_meta d' = db_meta d"
    and prim: "primary (db_jobs d')" "primary (db_locks d')" "primary (db_dedup d')"
    and ev: "\<exists>e. db_events d' = db_events d @ [((par, next_seq par d), e)] \<and> ev_operation e = par \<and>
           ev_seq e = next_seq par d \<and> ev_phase e = Partial"
  from ev obtain e where e: "db_events d' = db_events d @ [((par, next_seq par d), e)]"
    "ev_operation e = par" "ev_seq e = next_seq par d" by blast
  have p: "plan_of d' = plan_of d" using plans by (rule plan_of_cong)
  have ne: "par \<noteq> i" using par i by auto
  have pid: "job_id parent = par" by (rule wf_job_id [OF wf par])
  have keep: "job_of d k \<noteq> None \<Longrightarrow> job_of d' k \<noteq> None" for k by (simp add: jobs)
  have here: "job_of d' par \<noteq> None" by (simp add: jobs)
  have new: "needs d' i = set (plan_resources p)"
    using plan ne by (intro needs_job [where j = j]) (auto simp: jobs j p)
  have old: "needs d' k = needs d k" if k: "job_of d k \<noteq> None" for k
  proof (cases "k = par")
    case True
    then show ?thesis using par by (simp add: needs_def jobs p)
  next
    case False
    then show ?thesis using k i by (intro needs_cong) (auto simp: jobs p)
  qed
  show "wf_db d'"
  proof (rule wf_db_intro [OF wf plans meta prim])
    show "\<And>k x. job_of d' k = Some x \<Longrightarrow> job_id x = k \<and> plan_of d (job_plan x) \<noteq> None"
      using wf_job_id [OF wf] wf_job_plan [OF wf] plan pid prior by (auto simp: jobs j split: if_splits)
    show "\<And>k. job_of d k \<noteq> None \<Longrightarrow> job_of d' k \<noteq> None" by (rule keep)
    show "\<And>k r. map_of (db_dedup d') k = Some r \<Longrightarrow>
        map_of (db_dedup d) k = Some r \<or> job_of d' (dd_job r) \<noteq> None"
      by (auto simp: jobs dd split: if_splits)
    show "job_of d' k \<noteq> None \<and> r \<in> needs d' k" if l: "lock_of d' r = Some k" for r k
    proof (cases "r \<in> set (plan_resources p)")
      case True
      then have "k = i" using l by (simp add: locks)
      then show ?thesis using True new ne by (simp add: jobs)
    next
      case False
      then have "lock_of d r = Some k" using l by (simp add: locks)
      then have "job_of d k \<noteq> None" "r \<in> needs d k" using wf_lock_job [OF wf] wf_lock_needs [OF wf] by auto
      then show ?thesis using keep old by simp
    qed
  qed (use wf_append_event [OF wf e keep here] in auto)
qed

section \<open>Metadata\<close>

lemma put_lookup [store_eff]: "map_of (db_meta (put kind i body d)) = (map_of (db_meta d))((kind, i) \<mapsto> body)"
  by (simp add: put_def map_of_row_upsert)

lemma put_frame [simp]:
  "db_plans (put kind i body d) = db_plans d" "db_jobs (put kind i body d) = db_jobs d"
  "db_dedup (put kind i body d) = db_dedup d" "db_locks (put kind i body d) = db_locks d"
  "db_events (put kind i body d) = db_events d"
  by (simp_all add: put_def)

lemma wf_meta_only:
  assumes "wf_db d" and "primary m" shows "wf_db (d\<lparr>db_meta := m\<rparr>)"
proof -
  have a: "plan_of (d\<lparr>db_meta := m\<rparr>) = plan_of d" by (rule plan_of_cong) simp
  have b: "needs (d\<lparr>db_meta := m\<rparr>) i = needs d i" for i by (rule needs_cong) (simp_all add: a)
  have c: "seqs (d\<lparr>db_meta := m\<rparr>) i = seqs d i" for i by (rule seqs_cong) simp
  have f: "db_plans (d\<lparr>db_meta := m\<rparr>) = db_plans d" "db_jobs (d\<lparr>db_meta := m\<rparr>) = db_jobs d"
    "db_dedup (d\<lparr>db_meta := m\<rparr>) = db_dedup d" "db_locks (d\<lparr>db_meta := m\<rparr>) = db_locks d"
    "db_events (d\<lparr>db_meta := m\<rparr>) = db_events d" "db_meta (d\<lparr>db_meta := m\<rparr>) = m" by simp_all
  show ?thesis using assms unfolding wf_db_def a b c f by blast
qed

lemma put_wf: "wf_db d \<Longrightarrow> wf_db (put kind i body d)"
  using wf_meta_only [of d "row_upsert (kind, i) body (db_meta d)"]
  by (simp add: put_def primary_row_upsert wf_primary)

lemma compare_put_jobs_Inr:
  "compare_put_with_jobs kind i prev body reviewed d = Inr d' \<longleftrightarrow>
     map_of (db_meta d) (kind, i) = prev \<and> reviewed_ok reviewed d \<and> d' = put kind i body d"
  by (auto simp: compare_put_with_jobs_def)

lemma metadata_bytes_put: "metadata_bytes k i (put k i b d) = Some b"
  by (simp add: metadata_bytes_def put_def table_simps)

lemma compare_put_Inr:
  "compare_put k i prev b d = Inr d' \<longleftrightarrow> metadata_bytes k i d = prev \<and> d' = put k i b d"
  by (auto simp: compare_put_def compare_put_with_jobs_def reviewed_ok_def metadata_bytes_def)

lemma put_put: "put k i b (put k i a d) = put k i b d"
proof -
  have u: "row_upsert q y (row_upsert q x t) = row_upsert q y t" for q x y and t :: "('k, 'v) rows"
  proof (cases "map_of t q")
    case None
    then have "row_set q y t = t" by (force simp: row_set_def map_of_eq_None_iff intro: map_idI)
    then show ?thesis using None by (simp add: row_upsert_def map_of_append_single row_set_def del: map_of_append)
  next
    case (Some v)
    then have "row_upsert q x t = row_set q x t" "row_upsert q y (row_set q x t) = row_set q y (row_set q x t)"
      "row_upsert q y t = row_set q y t"
      by (simp_all add: row_upsert_def map_of_row_set)
    moreover have "row_set q y (row_set q x t) = row_set q y t" by (auto simp: row_set_def)
    ultimately show ?thesis by simp
  qed
  show ?thesis by (simp add: put_def u)
qed

lemma reviewed_ok_iff:
  assumes "primary (db_locks d)"
  shows "reviewed_ok reviewed d \<longleftrightarrow>
     (\<forall>(r, approved) \<in> set reviewed. \<forall>i. lock_of d r = Some i \<longrightarrow> i \<in> set approved)"
  using assms by (fastforce simp: reviewed_ok_def list_all_iff rows_where_def)

lemma wf_empty_db: "wf_db empty_db"
  by (simp add: wf_db_def empty_db_def plan_of_def seqs_def job_events_def rows_where_def)

end
