(* ===== verification/Engine.thy ===== *)
theory Engine
  imports Store_Laws
begin

text \<open>
  The operation engine of \<^verbatim>\<open>internal/operations/engine.go\<close>, with the operation context of
  \<^verbatim>\<open>context.go\<close> and \<^verbatim>\<open>cancellation.go\<close>. A handler is a record of the functions of the Go
  interfaces; \<open>'w\<close> is the world it observes and changes (hosts, files, devices). An optional
  interface a handler may implement is an optional field. The operation identity a Go
  context carries is a string argument, empty where there is none.
\<close>

section \<open>Handlers\<close>

record 'w handler =
  h_validate :: "'w \<Rightarrow> db \<Rightarrow> string \<Rightarrow> plan \<Rightarrow> bytes \<Rightarrow> go_error option"
  h_execute :: "'w \<Rightarrow> db \<Rightarrow> string \<Rightarrow> plan \<Rightarrow> bytes \<Rightarrow> step \<Rightarrow> 'w \<times> go_error option"
  h_reconcile :: "'w \<Rightarrow> db \<Rightarrow> string \<Rightarrow> plan \<Rightarrow> bytes \<Rightarrow> step \<Rightarrow> bool tx"
  h_retain :: "bool option"
  h_review :: "('w \<Rightarrow> db \<Rightarrow> plan \<Rightarrow> bytes \<Rightarrow> (string \<times> json) list tx) option"
  h_estimate :: "('w \<Rightarrow> db \<Rightarrow> plan \<Rightarrow> bytes \<Rightarrow> estimates tx) option"
  h_recovery :: "('w \<Rightarrow> db \<Rightarrow> plan \<Rightarrow> bytes \<Rightarrow> string tx) option"

type_synonym 'w handlers = "string \<rightharpoonup> 'w handler"

record apply_request =
  ar_plan :: string
  ar_digest :: string
  ar_key :: string
  ar_acks :: "string list option"

section \<open>Planning\<close>

definition plan_ttl :: int where
  "plan_ttl = 15 * 60 * 1000000000"

definition draft_plan ::
  "string \<Rightarrow> int \<Rightarrow> 32 word \<Rightarrow> string \<Rightarrow> string \<Rightarrow> string list \<Rightarrow> (string \<times> string) list \<Rightarrow> string \<Rightarrow>
   step list \<Rightarrow> string list \<Rightarrow> string list \<Rightarrow> plan" where
  "draft_plan i now uid conn op resources prior dig steps acks risks =
    \<lparr>plan_api = api_version, plan_id = i, plan_created = now, plan_expires = now + plan_ttl,
     plan_actor = uid, plan_connection = conn, plan_operation = op, plan_resources = sort resources,
     plan_input_digest = dig, plan_digest = [], plan_before = prior,
     plan_grants = map (\<lambda>r. \<lparr>grant_operation = op, grant_resource = r\<rparr>) (sort resources),
     plan_acks = acks, plan_risks = risks, plan_steps = steps,
     plan_estimates = \<lparr>additional_bytes = 0, requires_downtime = False, est_notes = []\<rparr>,
     plan_review = []\<rparr>"

definition none_or :: "'a \<Rightarrow> go_error option \<Rightarrow> 'a tx" where
  "none_or a e = (case e of None \<Rightarrow> Inr a | Some x \<Rightarrow> Inl x)"

definition complete_plan :: "env \<Rightarrow> 'w handler \<Rightarrow> 'w \<Rightarrow> db \<Rightarrow> bytes \<Rightarrow> plan \<Rightarrow> plan tx" where
  "complete_plan env h w d b p =
     bindr (checkr (plan_steps p \<noteq> []) (Domain_error (fail ''INVALID_INPUT'' ''plan requires an explicit verification step''))) (\<lambda>_.
     bindr (none_or () (h_validate h w d [] p b)) (\<lambda>_.
     bindr (case h_review h of None \<Rightarrow> Inr p
            | Some reviewer \<Rightarrow> bindr (reviewer w d p b) (\<lambda>v. Inr (p\<lparr>plan_review := v\<rparr>))) (\<lambda>p1.
     bindr (case h_estimate h of None \<Rightarrow> Inr p1
            | Some est \<Rightarrow> bindr (est w d p1 b) (\<lambda>v. Inr (p1\<lparr>plan_estimates := v\<rparr>))) (\<lambda>p2.
     bindr (plan_hash env p2) (\<lambda>dig. Inr (p2\<lparr>plan_digest := dig\<rparr>))))))"

definition make_plan ::
  "env \<Rightarrow> 'w handlers \<Rightarrow> 'w \<Rightarrow> string \<Rightarrow> int \<Rightarrow> 32 word \<Rightarrow> string \<Rightarrow> string \<Rightarrow> string list \<Rightarrow>
   (string \<times> string) list \<Rightarrow> json \<Rightarrow> step list \<Rightarrow> string list \<Rightarrow> string list \<Rightarrow> db \<Rightarrow> plan tx \<times> db" where
  "make_plan env hs w i now uid conn op resources prior input steps acks risks d =
     (case hs op of
        None \<Rightarrow> (failr ''NOT_IMPLEMENTED'' ''operation has no executable workflow'', d)
      | Some h \<Rightarrow>
        (case bindr (env_canon env input) (\<lambda>b.
              bindr (digest env input) (\<lambda>dig.
              bindr (complete_plan env h w d b
                (draft_plan i now uid conn op resources prior dig steps acks risks)) (\<lambda>p.
              bindr (save_plan p b d) (\<lambda>d'. Inr (p, d'))))) of
           Inl e \<Rightarrow> (Inl e, d)
         | Inr (p, d') \<Rightarrow> (Inr p, d')))"

section \<open>Applying a plan\<close>

definition ack_list :: "apply_request \<Rightarrow> string list" where
  "ack_list r = (case ar_acks r of None \<Rightarrow> [] | Some xs \<Rightarrow> sort xs)"

definition request_json :: "32 word \<Rightarrow> apply_request \<Rightarrow> json" where
  "request_json uid r = JObj [(''Actor'', JNum (uint uid)),
     (''Request'', JObj [(''planID'', JStr (ar_plan r)), (''planDigest'', JStr (ar_digest r)),
        (''idempotencyKey'', JStr (ar_key r)),
        (''acknowledgements'', if ar_acks r = None then JNull else JArr (map JStr (ack_list r)))])]"

datatype apply_outcome = Rejected go_error | Replayed job | Accepted job plan bytes

definition find_missing :: "string list \<Rightarrow> string list \<Rightarrow> string option" where
  "find_missing given required = find (\<lambda>a. a \<notin> set given) required"

text \<open>The checks between the stored plan and the handler, in the order of the code.\<close>

definition authorize_plan ::
  "env \<Rightarrow> int \<Rightarrow> 32 word \<Rightarrow> apply_request \<Rightarrow> plan \<Rightarrow> bytes \<Rightarrow> unit tx" where
  "authorize_plan env now uid r p input =
     bindr (checkr (plan_actor p = uid) (Domain_error (fail ''PERMISSION_DENIED'' ''plan belongs to a different actor''))) (\<lambda>_.
     bindr (plan_hash env p) (\<lambda>computed.
     bindr (checkr (plan_digest p = ar_digest r \<and> plan_digest p = computed \<and> now < plan_expires p)
       (Domain_error (fail ''STALE_PLAN'' ''plan hash differs or plan expired; generate a fresh preview''))) (\<lambda>_.
     bindr (env_unmarshal env input) (\<lambda>v.
     bindr (case digest env v of
              Inl _ \<Rightarrow> failr ''SOURCE_CHANGED'' ''stored input digest differs''
            | Inr dig \<Rightarrow> checkr (dig = plan_input_digest p)
                (Domain_error (fail ''SOURCE_CHANGED'' ''stored input digest differs''))) (\<lambda>_.
     (case find_missing (ack_list r) (plan_acks p) of
        None \<Rightarrow> Inr ()
      | Some a \<Rightarrow> failr ''PERMISSION_REQUIRED'' (''missing plan acknowledgement: '' @ a)))))))"

definition idempotency_message :: string where
  "idempotency_message = ''idempotency key must contain 1'' @ map char_of [226 :: nat, 128, 147] @ ''128 characters''"

text \<open>\<open>w\<close> is the world as the handler observes it; \<open>i\<close> is the identity of the new job.\<close>

definition apply_plan ::
  "env \<Rightarrow> 'w handlers \<Rightarrow> 'w \<Rightarrow> string \<Rightarrow> int \<Rightarrow> 32 word \<Rightarrow> apply_request \<Rightarrow> db \<Rightarrow> apply_outcome \<times> db" where
  "apply_plan env hs w i now uid r d =
     (if ar_key r = [] \<or> length (ar_key r) > 128
      then (Rejected (Domain_error (fail ''INVALID_INPUT'' idempotency_message)), d)
      else case digest env (request_json uid r) of
        Inl e \<Rightarrow> (Rejected e, d)
      | Inr rh \<Rightarrow> (case dedup (ar_key r) rh d of
          Inl e \<Rightarrow> (Rejected e, d)
        | Inr (Some j) \<Rightarrow> (Replayed j, d)
        | Inr None \<Rightarrow> (case get_plan (ar_plan r) d of
            Inl e \<Rightarrow> (Rejected e, d)
          | Inr (p, input) \<Rightarrow> (case authorize_plan env now uid r p input of
              Inl e \<Rightarrow> (Rejected e, d)
            | Inr _ \<Rightarrow> (case hs (plan_operation p) of
                None \<Rightarrow> (Rejected (Domain_error (fail ''NOT_IMPLEMENTED'' ''handler unavailable'')), d)
              | Some h \<Rightarrow> (case h_validate h w d [] p input of
                  Some e \<Rightarrow> (Rejected e, d)
                | None \<Rightarrow> (case h_recovery h of
                    None \<Rightarrow> (case accept i now p (ar_key r) rh d of
                        (Inl e, d') \<Rightarrow> (Rejected e, d')
                      | (Inr j, d') \<Rightarrow> (Accepted j p input, d'))
                  | Some rec \<Rightarrow> (case rec w d p input of
                      Inl e \<Rightarrow> (Rejected e, d)
                    | Inr parent \<Rightarrow> (case accept_recovery i now p (ar_key r) rh parent d of
                        (Inl e, d') \<Rightarrow> (Rejected e, d')
                      | (Inr j, d') \<Rightarrow> (Accepted j p input, d'))))))))))"

section \<open>Transitions of a job\<close>

definition recorded_error :: "string \<Rightarrow> go_error \<Rightarrow> domain_error" where
  "recorded_error i e = (case errors_as_domain e of
      Some de \<Rightarrow> de\<lparr>err_operation := i\<rparr>
    | None \<Rightarrow> (fail ''OPERATION_FAILED'' (error_text e))\<lparr>err_operation := i\<rparr>)"

definition moved :: "job \<Rightarrow> job_state \<Rightarrow> go_error option \<Rightarrow> job" where
  "moved j st e = (case e of None \<Rightarrow> j\<lparr>job_state := st\<rparr>
     | Some x \<Rightarrow> j\<lparr>job_state := st, job_error := Some (recorded_error (job_id j) x)\<rparr>)"

definition transition :: "job \<Rightarrow> job_state \<Rightarrow> string \<Rightarrow> go_error option \<Rightarrow> int \<Rightarrow> db \<Rightarrow> job \<times> db tx" where
  "transition j st msg e now d = (let j' = moved j st e in (j', update j' msg now d))"

text \<open>A transition whose error the code ignores: the journal is left as it is when it fails.\<close>

definition settle :: "job \<Rightarrow> job_state \<Rightarrow> string \<Rightarrow> go_error option \<Rightarrow> int \<Rightarrow> db \<Rightarrow> db" where
  "settle j st msg e now d = (case snd (transition j st msg e now d) of Inl _ \<Rightarrow> d | Inr d' \<Rightarrow> d')"

section \<open>The goroutine of a job\<close>

text \<open>
  \<^verbatim>\<open>run\<close> as a thread: where it is in the loop over the steps, and its own copy of the job.
  \<open>Head i\<close> is the part of iteration \<open>i\<close> under the engine's mutex (and, after the last step,
  the final transition, which is outside it); \<open>Check\<close> is the handler's validation; \<open>Intent\<close>
  persists the intent; \<open>Exec\<close> calls the effect; \<open>Seen\<close> records what the call returned;
  \<open>Observe\<close> reconciles. A thread that returns is \<open>None\<close>.
\<close>

datatype pc = Head nat | Check nat | Intent nat | Exec nat | Seen nat "go_error option" | Observe nat

record thread =
  th_job :: job
  th_plan :: plan
  th_input :: bytes
  th_pc :: pc

definition new_thread :: "job \<Rightarrow> plan \<Rightarrow> bytes \<Rightarrow> thread" where
  "new_thread j p input = \<lparr>th_job = j, th_plan = p, th_input = input, th_pc = Head 0\<rparr>"

definition retains :: "'w handler \<Rightarrow> nat \<Rightarrow> bool" where
  "retains h i \<longleftrightarrow> i > 0 \<and> h_retain h = Some True"

text \<open>\<open>retainPartial\<close> of the code, or a recovery: what is uncertain stays locked.\<close>

definition keeps_locks :: "'w handler \<Rightarrow> job \<Rightarrow> nat \<Rightarrow> bool" where
  "keeps_locks h j i \<longleftrightarrow> job_recovery_of j \<noteq> [] \<or> retains h i"

definition advance :: "thread \<Rightarrow> job_state \<Rightarrow> string \<Rightarrow> pc \<Rightarrow> int \<Rightarrow> db \<Rightarrow> db \<times> thread option" where
  "advance t st msg k now d = (case transition (th_job t) st msg None now d of
      (j', Inl _) \<Rightarrow> (d, None)
    | (j', Inr d') \<Rightarrow> (d', Some (t\<lparr>th_job := j', th_pc := k\<rparr>)))"

definition stop :: "thread \<Rightarrow> job_state \<Rightarrow> string \<Rightarrow> go_error option \<Rightarrow> int \<Rightarrow> db \<Rightarrow> db \<times> thread option" where
  "stop t st msg e now d = (settle (th_job t) st msg e now d, None)"

definition intent_message :: "string \<Rightarrow> string" where
  "intent_message action = ''Intent persisted: '' @ action"

definition head_step :: "'w handler \<Rightarrow> nat \<Rightarrow> thread \<Rightarrow> int \<Rightarrow> db \<Rightarrow> db \<times> thread option" where
  "head_step h i t now d = (case get_job (job_id (th_job t)) d of
      Inl _ \<Rightarrow> (d, None)
    | Inr fresh \<Rightarrow>
        (let t1 = t\<lparr>th_job := (th_job t)\<lparr>job_cancel := job_cancel fresh, job_step := int i\<rparr>\<rparr> in
         if job_cancel (th_job t1) then
           (if keeps_locks h (th_job t1) i
            then stop t1 Recovery_required ''Recovery canceled; inherited uncertain resources remain locked''
                   (Some (Domain_error (fail ''RECOVERY_REQUIRED'' ''review another recovery operation''))) now d
            else stop t1 Canceled ''Canceled at a safe step boundary'' None now d)
         else advance t1 Validating ''Rechecking preconditions before effect'' (Check i) now d))"

definition check_step :: "'w handler \<Rightarrow> nat \<Rightarrow> thread \<Rightarrow> int \<Rightarrow> 'w \<Rightarrow> db \<Rightarrow> db \<times> thread option" where
  "check_step h i t now w d =
     (case h_validate h w d (job_id (th_job t)) (th_plan t) (th_input t) of
        None \<Rightarrow> (d, Some (t\<lparr>th_pc := Intent i\<rparr>))
      | Some e \<Rightarrow>
          (if keeps_locks h (th_job t) i
           then stop t Recovery_required ''Recovery preconditions failed; inherited resources remain locked'' (Some e) now d
           else stop t Failed ''Preconditions failed; no new step effect'' (Some e) now d))"

definition seen_step :: "nat \<Rightarrow> go_error option \<Rightarrow> thread \<Rightarrow> int \<Rightarrow> db \<Rightarrow> db \<times> thread option" where
  "seen_step i r t now d = (case r of
      None \<Rightarrow> advance t Verifying ''Effect returned; verifying observed state'' (Observe i) now d
    | Some e \<Rightarrow>
        (if is_canceled_safely e \<and> job_recovery_of (th_job t) = []
         then stop t Canceled ''Canceled at a verified safe boundary; no published effect remains'' None now d
         else if is_not_done e \<and> job_recovery_of (th_job t) = [] \<and> i = 0
         then stop t Failed ''Step did not take effect; nothing unsafe remains'' (Some e) now d
         else stop t Recovery_required ''Step may have taken effect; reconcile before any retry'' (Some e) now d))"

definition observe_step :: "'w handler \<Rightarrow> nat \<Rightarrow> step \<Rightarrow> thread \<Rightarrow> int \<Rightarrow> 'w \<Rightarrow> db \<Rightarrow> db \<times> thread option" where
  "observe_step h i s t now w d =
     (case h_reconcile h w d (job_id (th_job t)) (th_plan t) (th_input t) s of
        Inr True \<Rightarrow> (d, Some (t\<lparr>th_pc := Head (Suc i)\<rparr>))
      | Inr False \<Rightarrow> stop t Recovery_required ''Effect was not proven complete''
          (Some (Domain_error (fail ''RECOVERY_REQUIRED'' ''completion predicate not confirmed''))) now d
      | Inl e \<Rightarrow> stop t Recovery_required ''Effect was not proven complete'' (Some e) now d)"

definition finish_step :: "thread \<Rightarrow> int \<Rightarrow> db \<Rightarrow> db \<times> thread option" where
  "finish_step t now d = stop t Succeeded ''All completion predicates verified'' None now d"

text \<open>One move of a thread. A program counter past the last step does not arise (proved below).\<close>

definition thread_step ::
  "'w handler \<Rightarrow> thread \<Rightarrow> int \<Rightarrow> 'w \<Rightarrow> db \<Rightarrow> 'w \<times> db \<times> thread option" where
  "thread_step h t now w d =
     (let n = length (plan_steps (th_plan t)); step = (\<lambda>i. plan_steps (th_plan t) ! i) in
      case th_pc t of
        Head i \<Rightarrow> (w, if i < n then head_step h i t now d else finish_step t now d)
      | Check i \<Rightarrow> (w, check_step h i t now w d)
      | Intent i \<Rightarrow> (w, advance t Running (intent_message (step_action (step i))) (Exec i) now d)
      | Exec i \<Rightarrow>
          (let (w', r) = h_execute h w d (job_id (th_job t)) (th_plan t) (th_input t) (step i) in
           (w', d, Some (t\<lparr>th_pc := Seen i r\<rparr>)))
      | Seen i r \<Rightarrow> (w, seen_step i r t now d)
      | Observe i \<Rightarrow> (w, observe_step h i (step i) t now w d))"

section \<open>Cancellation, reconciliation, recovery\<close>

text \<open>
  \<^verbatim>\<open>Cancel\<close> reads the job and writes it back in two statements; the pair is what another
  goroutine can come between.
\<close>

definition cancel_read :: "string \<Rightarrow> db \<Rightarrow> job tx" where
  "cancel_read i d = bindr (get_job i d) (\<lambda>j.
     if job_terminal (job_state j) then failr ''INVALID_INPUT'' ''job is already terminal''
     else Inr (j\<lparr>job_cancel := True\<rparr>))"

definition cancel_write :: "job \<Rightarrow> int \<Rightarrow> db \<Rightarrow> db tx" where
  "cancel_write j now d = update j ''Cancellation requested; active step must reach a safe boundary'' now d"

definition cancel :: "string \<Rightarrow> int \<Rightarrow> db \<Rightarrow> db tx" where
  "cancel i now d = bindr (cancel_read i d) (\<lambda>j. cancel_write j now d)"

definition check_recovery_plan :: "env \<Rightarrow> plan \<Rightarrow> bytes \<Rightarrow> unit tx" where
  "check_recovery_plan env p input =
     bindr (checkr (plan_hash env p = Inr (plan_digest p))
       (Domain_error (fail ''SOURCE_CHANGED'' ''persisted recovery plan digest differs; retain resources without invoking its handler''))) (\<lambda>_.
     checkr (digest_raw env input = Inr (plan_input_digest p))
       (Domain_error (fail ''SOURCE_CHANGED'' ''persisted recovery recipe digest differs; retain resources without invoking its handler'')))"

definition reconcile :: "env \<Rightarrow> 'w handlers \<Rightarrow> 'w \<Rightarrow> string \<Rightarrow> int \<Rightarrow> db \<Rightarrow> go_error option \<times> db" where
  "reconcile env hs w i now d =
     (case bindr (get_job i d) (\<lambda>j.
           bindr (checkr (recoverable (job_state j))
             (Domain_error (fail ''INVALID_INPUT'' ''only interrupted/uncertain jobs may be reconciled''))) (\<lambda>_.
           bindr (get_plan (job_plan j) d) (\<lambda>(p, input).
           bindr (check_recovery_plan env p input) (\<lambda>_.
           (case hs (plan_operation p) of
              None \<Rightarrow> failr ''NOT_IMPLEMENTED'' ''handler unavailable''
            | Some h \<Rightarrow>
              (if job_step j < 0 \<or> job_step j \<ge> int (length (plan_steps p)) then Inl (Plain ''journal step invalid'')
               else bindr (h_reconcile h w d i p input (plan_steps p ! nat (job_step j))) (\<lambda>ok.
                 bindr (checkr ok (Domain_error (fail ''RECOVERY_REQUIRED'' ''effect cannot be proven; preserve resources and create a reviewed recovery plan''))) (\<lambda>_.
                 bindr (checkr (job_step j = int (length (plan_steps p)) - 1)
                   (Domain_error (fail ''RECOVERY_REQUIRED'' ''step complete but later steps need a fresh reviewed plan''))) (\<lambda>_.
                 snd (transition (j\<lparr>job_error := None\<rparr>) Succeeded
                   ''Recovered by observing the original intended effect; no replay'' None now d))))))))))
      of Inl e \<Rightarrow> (Some e, d) | Inr d' \<Rightarrow> (None, d'))"

text \<open>\<^verbatim>\<open>Recover\<close> at start-up: every pending job that is not terminal becomes uncertain.\<close>

fun recover_jobs :: "job list \<Rightarrow> int \<Rightarrow> db \<Rightarrow> go_error option \<times> db" where
  "recover_jobs [] now d = (None, d)"
| "recover_jobs (j # js) now d =
     (if job_terminal (job_state j) then recover_jobs js now d
      else case snd (transition j Recovery_required
                 ''Coordinator restarted; effects require observation before continuation''
                 (Some (Domain_error (fail ''RECOVERY_REQUIRED'' (''interrupted at step '' @ show_int (job_step j))))) now d) of
        Inl e \<Rightarrow> (Some e, d)
      | Inr d' \<Rightarrow> recover_jobs js now d')"

definition recover :: "int \<Rightarrow> db \<Rightarrow> go_error option \<times> db" where
  "recover now d = recover_jobs (pending_jobs d) now d"

definition cancellation_requested :: "go_error option \<Rightarrow> string \<Rightarrow> db \<Rightarrow> bool tx" where
  "cancellation_requested ctx i d = (case ctx of
      Some e \<Rightarrow> Inl e
    | None \<Rightarrow> (if i = [] then Inr False else bindr (get_job i d) (\<lambda>j. Inr (job_cancel j))))"

definition progress_note :: "string \<Rightarrow> string \<Rightarrow> int \<Rightarrow> db \<Rightarrow> db tx" where
  "progress_note i msg now d = (if i = [] then Inl (Plain ''operation context missing'')
     else bindr (get_job i d) (\<lambda>j. update j msg now d))"

end
