(* ===== verification/Engine_Steps.thy ===== *)
theory Engine_Steps
  imports Engine
begin

text \<open>
  The coordinator as a transition system: any number of job goroutines interleaved with the
  calls of the API, the two statements of a cancellation taken apart, failed journal
  statements, restarts, progress notes and metadata writes of handlers, and an outside
  world that changes at will. The invariant of every reachable state gives the exclusion
  of effects; the history lemma says what no step ever undoes.
\<close>

section \<open>The system\<close>

record 'w sys =
  sy_db :: db
  sy_threads :: "thread list"
  sy_pending :: "job option"
  sy_world :: 'w

text \<open>The part of \<^verbatim>\<open>run\<close> that holds the engine's mutex.\<close>

definition under_mutex :: "thread \<Rightarrow> bool" where
  "under_mutex t \<longleftrightarrow> (case th_pc t of Head i \<Rightarrow> i < length (plan_steps (th_plan t)) | _ \<Rightarrow> False)"

definition thread_list :: "thread option \<Rightarrow> thread list" where
  "thread_list r = (case r of None \<Rightarrow> [] | Some t \<Rightarrow> [t])"

text \<open>
  \<open>sy_pending\<close> is the job a \<^verbatim>\<open>Cancel\<close> has read and not yet written; the mutex it holds keeps
  out the API calls and the heads of the loops, not the other moves of the goroutines.
\<close>

inductive sys_step :: "env \<Rightarrow> 'w handlers \<Rightarrow> 'w sys \<Rightarrow> 'w sys \<Rightarrow> bool" for env hs where
  planning: "make_plan env hs w i now uid conn op rs prior input steps acks risks (sy_db s) = (Inr p, d') \<Longrightarrow>
     sys_step env hs s (s\<lparr>sy_db := d'\<rparr>)"
| applying: "sy_pending s = None \<Longrightarrow>
     apply_plan env hs w i now uid r (sy_db s) = (Accepted j p input, d') \<Longrightarrow>
     sys_step env hs s (s\<lparr>sy_db := d', sy_threads := new_thread j p input # sy_threads s\<rparr>)"
| moving: "sy_threads s = ts1 @ t # ts2 \<Longrightarrow> under_mutex t \<Longrightarrow> sy_pending s = None \<Longrightarrow>
     hs (plan_operation (th_plan t)) = Some h \<Longrightarrow>
     thread_step h t now (sy_world s) (sy_db s) = (w', d', r) \<Longrightarrow>
     sys_step env hs s (s\<lparr>sy_db := d', sy_threads := ts1 @ thread_list r @ ts2, sy_world := w'\<rparr>)"
| moving_free: "sy_threads s = ts1 @ t # ts2 \<Longrightarrow> \<not> under_mutex t \<Longrightarrow>
     hs (plan_operation (th_plan t)) = Some h \<Longrightarrow>
     thread_step h t now (sy_world s) (sy_db s) = (w', d', r) \<Longrightarrow>
     sys_step env hs s (s\<lparr>sy_db := d', sy_threads := ts1 @ thread_list r @ ts2, sy_world := w'\<rparr>)"
| dying: "sy_threads s = ts1 @ t # ts2 \<Longrightarrow> sys_step env hs s (s\<lparr>sy_threads := ts1 @ ts2\<rparr>)"
| cancel_begins: "sy_pending s = None \<Longrightarrow> cancel_read i (sy_db s) = Inr j \<Longrightarrow>
     sys_step env hs s (s\<lparr>sy_pending := Some j\<rparr>)"
| cancel_ends: "sy_pending s = Some j \<Longrightarrow> cancel_write j now (sy_db s) = Inr d' \<Longrightarrow>
     sys_step env hs s (s\<lparr>sy_db := d', sy_pending := None\<rparr>)"
| cancel_fails: "sy_pending s = Some j \<Longrightarrow> sys_step env hs s (s\<lparr>sy_pending := None\<rparr>)"
| reconciling: "sy_pending s = None \<Longrightarrow> reconcile env hs w i now (sy_db s) = (r, d') \<Longrightarrow>
     sys_step env hs s (s\<lparr>sy_db := d'\<rparr>)"
| restarting: "recover now (sy_db s) = (None, d') \<Longrightarrow>
     sys_step env hs s (s\<lparr>sy_db := d', sy_threads := [], sy_pending := None\<rparr>)"
| noting: "t \<in> set (sy_threads s) \<Longrightarrow> th_pc t = Exec i \<Longrightarrow>
     progress_note (job_id (th_job t)) msg now (sy_db s) = Inr d' \<Longrightarrow>
     sys_step env hs s (s\<lparr>sy_db := d'\<rparr>)"
| recording: "compare_put_with_jobs kind i prev body reviewed (sy_db s) = Inr d' \<Longrightarrow>
     sys_step env hs s (s\<lparr>sy_db := d'\<rparr>)"
| outside: "sys_step env hs s (s\<lparr>sy_world := w'\<rparr>)"

definition fresh_sys :: "'w \<Rightarrow> 'w sys" where
  "fresh_sys w = \<lparr>sy_db = empty_db, sy_threads = [], sy_pending = None, sy_world = w\<rparr>"

inductive reachable :: "env \<Rightarrow> 'w handlers \<Rightarrow> 'w sys \<Rightarrow> bool" for env hs where
  fresh: "reachable env hs (fresh_sys w)"
| later: "reachable env hs s \<Longrightarrow> sys_step env hs s t \<Longrightarrow> reachable env hs t"

text \<open>
  A step is \<open>undisturbed\<close> when no job row that a cancellation has read is written before the
  cancellation writes it back.
\<close>

definition undisturbed :: "'w sys \<Rightarrow> 'w sys \<Rightarrow> bool" where
  "undisturbed s t \<longleftrightarrow> (\<forall>j. sy_pending s = Some j \<longrightarrow>
     sy_pending t = None \<or> job_of (sy_db t) (job_id j) = job_of (sy_db s) (job_id j))"

inductive reachable_calm :: "env \<Rightarrow> 'w handlers \<Rightarrow> 'w sys \<Rightarrow> bool" for env hs where
  fresh_calm: "reachable_calm env hs (fresh_sys w)"
| later_calm: "reachable_calm env hs s \<Longrightarrow> sys_step env hs s t \<Longrightarrow> undisturbed s t \<Longrightarrow>
     reachable_calm env hs t"

lemma calm_reachable: "reachable_calm env hs s \<Longrightarrow> reachable env hs s"
  by (induction rule: reachable_calm.induct) (auto intro: reachable.intros)

section \<open>Writes of one job row\<close>

text \<open>
  Everything the engine writes to a known job is a \<open>touch\<close>: an update of its row by a job
  value that names the same plan. The frame facts are proved once, about \<open>touch\<close>.
\<close>

definition touch :: "db \<Rightarrow> job \<Rightarrow> db \<Rightarrow> bool" where
  "touch d j d' \<longleftrightarrow> (\<exists>msg now old. job_of d (job_id j) = Some old \<and> job_plan j = job_plan old \<and>
     update j msg now d = Inr d')"

lemma touchI:
  "update j msg now d = Inr d' \<Longrightarrow> job_of d (job_id j) = Some old \<Longrightarrow> job_plan j = job_plan old \<Longrightarrow>
     touch d j d'"
  by (auto simp: touch_def)

lemma touch_wf: "wf_db d \<Longrightarrow> touch d j d' \<Longrightarrow> wf_db d'"
  by (auto simp: touch_def intro: update_wf)

lemma touch_effects:
  assumes "touch d j d'" and "wf_db d"
  obtains old where "job_of d (job_id j) = Some old" and "job_plan j = job_plan old"
    and "job_of d' = (job_of d)(job_id j \<mapsto> merged j old)"
    and "db_plans d' = db_plans d" and "db_dedup d' = db_dedup d"
    and "set (db_events d) \<subseteq> set (db_events d')"
    and "lock_of d' = (\<lambda>r. if releases (job_state j) \<and> lock_of d r = Some (job_id j) then None else lock_of d r)"
proof -
  from assms(1) obtain msg now old where o: "job_of d (job_id j) = Some old" "job_plan j = job_plan old"
    and up: "update j msg now d = Inr d'" by (auto simp: touch_def)
  show thesis
    by (rule update_effects [OF up wf_primary(4) [OF assms(2)]]) (rule that, auto simp: o)
qed

lemma moved_simps [simp]:
  "job_id (moved j st e) = job_id j" "job_plan (moved j st e) = job_plan j"
  "job_state (moved j st e) = st" "job_cancel (moved j st e) = job_cancel j"
  "job_recovery_of (moved j st e) = job_recovery_of j" "job_step (moved j st e) = job_step j"
  "job_recovery_op (moved j st e) = job_recovery_op j"
  by (cases e; simp add: moved_def)+

lemma settle_touch:
  assumes "job_of d (job_id j) = Some old" and "job_plan j = job_plan old"
  shows "touch d (moved j st e) (settle j st msg e now d)"
  using assms update_Inr [of d "moved j st e" old msg now]
  by (auto simp: settle_def transition_def Let_def intro!: touchI)

lemma advance_touch:
  assumes "job_of d (job_id (th_job t)) = Some old" and "job_plan (th_job t) = job_plan old"
  obtains d' where "advance t st msg k now d = (d', Some (t\<lparr>th_job := moved (th_job t) st None, th_pc := k\<rparr>))"
    and "touch d (moved (th_job t) st None) d'"
    and "update (moved (th_job t) st None) msg now d = Inr d'"
proof -
  from assms(1) obtain d' where up: "update (moved (th_job t) st None) msg now d = Inr d'"
    using update_total [of "moved (th_job t) st None" msg now d] by auto
  show thesis
  proof (rule that [of d'])
    show "touch d (moved (th_job t) st None) d'" by (rule touchI [OF up]) (simp_all add: assms)
  qed (simp_all add: advance_def transition_def Let_def up)
qed

section \<open>The invariant of every reachable state\<close>

definition active :: "job_state \<Rightarrow> bool" where
  "active st \<longleftrightarrow> st \<in> {Queued, Validating, Running, Verifying}"

lemma active_simps [simp]:
  "active Queued" "active Validating" "active Running" "active Verifying" "\<not> active Interrupted"
  "\<not> active Recovery_required" "\<not> active Succeeded" "\<not> active Failed" "\<not> active Partial" "\<not> active Canceled"
  by (simp_all add: active_def)

lemma releases_simps [simp]:
  "releases Succeeded" "releases Failed" "releases Partial" "releases Canceled"
  "\<not> releases Recovery_required" "\<not> releases Interrupted" "\<not> releases Queued"
  "\<not> releases Validating" "\<not> releases Running" "\<not> releases Verifying"
  by (simp_all add: releases_def)

lemma active_not_terminal: "active st \<Longrightarrow> \<not> job_terminal st"
  and active_not_releases: "active st \<Longrightarrow> \<not> releases st"
  and active_not_recoverable: "active st \<Longrightarrow> \<not> recoverable st"
  by (auto simp: active_def job_terminal_def releases_def recoverable_def)

lemma open_state_cases: "\<not> job_terminal st \<longleftrightarrow> active st \<or> st = Interrupted"
  by (cases st) simp_all

definition pc_ok :: "thread \<Rightarrow> bool" where
  "pc_ok t \<longleftrightarrow> (let n = length (plan_steps (th_plan t)) in
     case th_pc t of Head i \<Rightarrow> i \<le> n | Check i \<Rightarrow> i < n | Intent i \<Rightarrow> i < n | Exec i \<Rightarrow> i < n
       | Seen i _ \<Rightarrow> i < n | Observe i \<Rightarrow> i < n)"

text \<open>The persisted intent of a step: an event of phase \<^verbatim>\<open>running\<close> that names its action.\<close>

definition intent_event :: "db \<Rightarrow> thread \<Rightarrow> nat \<Rightarrow> bool" where
  "intent_event d t i \<longleftrightarrow> (\<exists>k e. (k, e) \<in> set (db_events d) \<and> ev_operation e = job_id (th_job t) \<and>
     ev_phase e = Running \<and> ev_message e = intent_message (step_action (plan_steps (th_plan t) ! i)))"

definition intent_logged :: "db \<Rightarrow> thread \<Rightarrow> bool" where
  "intent_logged d t \<longleftrightarrow> (case th_pc t of Exec i \<Rightarrow> intent_event d t i | Seen i _ \<Rightarrow> intent_event d t i
     | Observe i \<Rightarrow> intent_event d t i | _ \<Rightarrow> True)"

definition thread_ok :: "db \<Rightarrow> thread \<Rightarrow> bool" where
  "thread_ok d t \<longleftrightarrow>
     (\<exists>row. job_of d (job_id (th_job t)) = Some row \<and> job_plan row = plan_id (th_plan t) \<and> active (job_state row)) \<and>
     job_plan (th_job t) = plan_id (th_plan t) \<and> plan_of d (plan_id (th_plan t)) = Some (th_plan t) \<and>
     (\<forall>r \<in> set (plan_resources (th_plan t)). lock_of d r = Some (job_id (th_job t))) \<and>
     pc_ok t \<and> intent_logged d t"

abbreviation tid :: "thread \<Rightarrow> string" where
  "tid t \<equiv> job_id (th_job t)"

definition pending_ok :: "db \<Rightarrow> thread list \<Rightarrow> job option \<Rightarrow> bool" where
  "pending_ok d ts p \<longleftrightarrow> (\<forall>j. p = Some j \<longrightarrow>
     (\<exists>row. job_of d (job_id j) = Some row \<and> job_plan row = job_plan j) \<and>
     \<not> job_terminal (job_state j) \<and> (\<forall>t \<in> set ts. tid t = job_id j \<longrightarrow> active (job_state j)))"

definition sys_inv :: "'w sys \<Rightarrow> bool" where
  "sys_inv s \<longleftrightarrow> wf_db (sy_db s) \<and> distinct (map tid (sy_threads s)) \<and>
     (\<forall>t \<in> set (sy_threads s). thread_ok (sy_db s) t) \<and>
     pending_ok (sy_db s) (sy_threads s) (sy_pending s)"

lemma intent_event_pc [simp]: "intent_event d (t\<lparr>th_pc := k\<rparr>) i = intent_event d t i"
  by (simp add: intent_event_def)

lemma intent_event_mono: "intent_event d t i \<Longrightarrow> set (db_events d) \<subseteq> set (db_events d') \<Longrightarrow> intent_event d' t i"
  unfolding intent_event_def by blast

lemma intent_logged_mono: "intent_logged d t \<Longrightarrow> set (db_events d) \<subseteq> set (db_events d') \<Longrightarrow> intent_logged d' t"
  by (auto simp: intent_logged_def split: pc.splits intro: intent_event_mono)

lemma thread_ok_keep:
  assumes "thread_ok d t" and "set (db_events d) \<subseteq> set (db_events d')"
    and "\<And>row. job_of d (tid t) = Some row \<Longrightarrow> active (job_state row) \<Longrightarrow>
      \<exists>row'. job_of d' (tid t) = Some row' \<and> job_plan row' = job_plan row \<and> active (job_state row')"
    and "\<And>p. plan_of d (plan_id (th_plan t)) = Some p \<Longrightarrow> plan_of d' (plan_id (th_plan t)) = Some p"
    and "\<And>r. lock_of d r = Some (tid t) \<Longrightarrow> lock_of d' r = Some (tid t)"
  shows "thread_ok d' t"
proof -
  from assms(1) obtain row where row: "job_of d (tid t) = Some row" "job_plan row = plan_id (th_plan t)"
    "active (job_state row)" by (auto simp: thread_ok_def)
  from assms(3) [OF row(1,3)] row(2) have
    "\<exists>row'. job_of d' (tid t) = Some row' \<and> job_plan row' = plan_id (th_plan t) \<and> active (job_state row')"
    by auto
  then show ?thesis using assms(1,4,5) intent_logged_mono [OF _ assms(2)]
    by (auto simp: thread_ok_def)
qed

text \<open>A write to another job, or a write that leaves this job active, keeps a thread's claims.\<close>

lemma thread_ok_touch:
  assumes ok: "thread_ok d t" and tch: "touch d j d'" and wf: "wf_db d"
    and state: "tid t = job_id j \<Longrightarrow> active (job_state j)"
  shows "thread_ok d' t"
  using tch wf
proof (rule touch_effects)
  fix old
  assume old: "job_of d (job_id j) = Some old" "job_plan j = job_plan old"
    and jobs: "job_of d' = (job_of d)(job_id j \<mapsto> merged j old)"
    and plans: "db_plans d' = db_plans d" and ev: "set (db_events d) \<subseteq> set (db_events d')"
    and locks: "lock_of d' = (\<lambda>r. if releases (job_state j) \<and> lock_of d r = Some (job_id j) then None else lock_of d r)"
  show ?thesis
  proof (rule thread_ok_keep [OF ok ev])
    show "\<exists>row'. job_of d' (tid t) = Some row' \<and> job_plan row' = job_plan row \<and> active (job_state row')"
      if "job_of d (tid t) = Some row" "active (job_state row)" for row
      using that state old by (cases "tid t = job_id j") (auto simp: jobs)
    show "lock_of d' r = Some (tid t)" if "lock_of d r = Some (tid t)" for r
      using that state active_not_releases by (auto simp: locks)
  qed (simp add: plan_of_cong [OF plans])
qed

lemma pending_ok_touch:
  assumes "pending_ok d ts p" and "touch d j d'" and "wf_db d" and "set us \<subseteq> set ts"
  shows "pending_ok d' us p"
  using assms(2,3)
proof (rule touch_effects)
  fix old
  assume old: "job_of d (job_id j) = Some old" "job_plan j = job_plan old"
    and jobs: "job_of d' = (job_of d)(job_id j \<mapsto> merged j old)"
  show ?thesis
    using assms(1,4) old unfolding pending_ok_def jobs by (fastforce split: if_splits)
qed

lemma pending_ok_fewer:
  assumes pend: "pending_ok d ts p" and sub: "tid ` set us \<subseteq> tid ` set ts"
  shows "pending_ok d us p"
proof -
  have "active (job_state j)" if p: "p = Some j" and us: "u \<in> set us" and u: "tid u = job_id j" for j u
  proof -
    have "tid u \<in> tid ` set ts" using sub us by blast
    then obtain t where t: "t \<in> set ts" "tid t = job_id j" using u by (metis imageE)
    have all: "\<forall>t \<in> set ts. tid t = job_id j \<longrightarrow> active (job_state j)"
      using pend p unfolding pending_ok_def by blast
    show ?thesis by (rule all [rule_format, OF t])
  qed
  then show ?thesis using pend by (auto simp: pending_ok_def)
qed

section \<open>Moves of a goroutine\<close>

text \<open>What any move of a thread in good standing does: at most one write, of its own job.\<close>

definition good_move :: "db \<Rightarrow> thread \<Rightarrow> db \<Rightarrow> thread option \<Rightarrow> bool" where
  "good_move d t d' r \<longleftrightarrow>
     (d' = d \<or> (\<exists>j. job_id j = tid t \<and> touch d j d' \<and> (r \<noteq> None \<longrightarrow> active (job_state j)))) \<and>
     (\<forall>t'. r = Some t' \<longrightarrow> tid t' = tid t \<and> th_plan t' = th_plan t \<and> thread_ok d' t')"

lemma thread_okD:
  assumes "thread_ok d t"
  obtains row where "job_of d (tid t) = Some row" and "job_plan row = plan_id (th_plan t)"
    and "active (job_state row)" and "job_plan (th_job t) = plan_id (th_plan t)" and "pc_ok t"
    and "intent_logged d t"
  using assms by (auto simp: thread_ok_def)

lemma good_move_stop:
  assumes ok: "thread_ok d t" and id: "tid u = tid t" "job_plan (th_job u) = job_plan (th_job t)"
    and stop: "stop u st msg e now d = (d', r)"
  shows "good_move d t d' r"
proof -
  from ok obtain row where row: "job_of d (tid t) = Some row" "job_plan row = plan_id (th_plan t)"
    "job_plan (th_job t) = plan_id (th_plan t)" by (rule thread_okD)
  have "touch d (moved (th_job u) st e) (settle (th_job u) st msg e now d)"
    using settle_touch [of d "th_job u" row] row id by simp
  moreover have "r = None" "d' = settle (th_job u) st msg e now d" using stop by (simp_all add: stop_def)
  ultimately show ?thesis using id unfolding good_move_def by auto
qed

lemma good_move_stay:
  assumes "thread_ok d t" and "tid u = tid t" and "th_job u = th_job t" and "th_plan u = th_plan t"
    and "pc_ok u" and "intent_logged d u"
  shows "good_move d t d (Some u)"
  using assms by (auto simp: good_move_def thread_ok_def)

lemma good_move_advance:
  assumes ok: "thread_ok d t" and wf: "wf_db d"
    and u: "tid u = tid t" "job_plan (th_job u) = job_plan (th_job t)" "th_plan u = th_plan t"
    and adv: "advance u st msg k now d = (d', r)" and st: "active st"
    and k: "pc_ok (t\<lparr>th_pc := k\<rparr>)"
    and int: "intent_logged d (t\<lparr>th_pc := k\<rparr>) \<or>
      (\<exists>i. k = Exec i \<and> st = Running \<and> msg = intent_message (step_action (plan_steps (th_plan t) ! i)))"
  shows "good_move d t d' r"
proof -
  from ok obtain row where row: "job_of d (tid t) = Some row" "job_plan row = plan_id (th_plan t)"
    "job_plan (th_job t) = plan_id (th_plan t)" by (rule thread_okD)
  let ?j = "moved (th_job u) st None"
  let ?u = "u\<lparr>th_job := ?j, th_pc := k\<rparr>"
  obtain e where e: "advance u st msg k now d = (e, Some ?u)" "touch d ?j e" "update ?j msg now d = Inr e"
    using advance_touch [of d u row st msg k now] row u by auto
  have de: "d' = e" "r = Some ?u" using adv e(1) by simp_all
  have ok': "thread_ok e t" by (rule thread_ok_touch [OF ok e(2) wf]) (simp add: st)
  have sub: "set (db_events d) \<subseteq> set (db_events e)"
    and ev: "((tid u, next_seq (tid u) d), update_event ?j msg now d) \<in> set (db_events e)"
    using update_events [OF e(3)] by auto
  have "intent_logged e ?u"
    using int
  proof
    assume "intent_logged d (t\<lparr>th_pc := k\<rparr>)"
    then have "intent_logged e (t\<lparr>th_pc := k\<rparr>)" by (rule intent_logged_mono [OF _ sub])
    then show ?thesis using u by (auto simp: intent_logged_def intent_event_def split: pc.splits)
  next
    assume "\<exists>i. k = Exec i \<and> st = Running \<and> msg = intent_message (step_action (plan_steps (th_plan t) ! i))"
    then obtain i where i: "k = Exec i" "st = Running"
      "msg = intent_message (step_action (plan_steps (th_plan t) ! i))" by blast
    have "ev_operation (update_event ?j msg now d) = tid u \<and> ev_phase (update_event ?j msg now d) = Running \<and>
        ev_message (update_event ?j msg now d) = msg" using i by simp
    then have "intent_event e ?u i"
      unfolding intent_event_def using ev u i(3)
      by (intro exI [where x = "(tid u, next_seq (tid u) d)"] exI [where x = "update_event ?j msg now d"]) simp
    then show ?thesis by (simp add: intent_logged_def i(1))
  qed
  moreover have "pc_ok ?u" using k u by (simp add: pc_ok_def)
  ultimately have "thread_ok e ?u" using ok' u row by (auto simp: thread_ok_def)
  then show ?thesis using e(2) u st unfolding good_move_def de by (auto intro!: exI [where x = ?j])
qed

lemma thread_step_good:
  assumes ok: "thread_ok d t" and wf: "wf_db d" and step: "thread_step h t now w d = (w', d', r)"
  shows "good_move d t d' r"
proof -
  from ok obtain row where row: "job_of d (tid t) = Some row" and pc: "pc_ok t" and int: "intent_logged d t"
    by (rule thread_okD)
  show ?thesis
  proof (cases "th_pc t")
    case (Head i)
    show ?thesis
    proof (cases "i < length (plan_steps (th_plan t))")
      case False
      then have "stop t Succeeded ''All completion predicates verified'' None now d = (d', r)"
        using step Head by (simp add: thread_step_def finish_step_def)
      then show ?thesis by (rule good_move_stop [OF ok refl refl])
    next
      case True
      let ?t = "t\<lparr>th_job := (th_job t)\<lparr>job_cancel := job_cancel row, job_step := int i\<rparr>\<rparr>"
      have hs: "head_step h i t now d = (d', r)" using step Head True by (simp add: thread_step_def)
      have gj: "get_job (tid t) d = Inr row" using row by (simp add: get_job_def)
      show ?thesis
      proof (cases "job_cancel row")
        case True
        then obtain st msg e where "stop ?t st msg e now d = (d', r)"
          using hs by (cases "keeps_locks h (th_job ?t) i") (simp_all add: head_step_def gj)
        then show ?thesis by (intro good_move_stop [OF ok, of ?t]) simp_all
      next
        case False
        then have adv: "advance ?t Validating ''Rechecking preconditions before effect'' (Check i) now d = (d', r)"
          using hs by (simp add: head_step_def gj)
        show ?thesis
          by (rule good_move_advance [OF ok wf _ _ _ adv _ _ disjI1])
            (use \<open>i < length (plan_steps (th_plan t))\<close> in \<open>simp_all add: pc_ok_def intent_logged_def\<close>)
      qed
    qed
  next
    case (Check i)
    show ?thesis
    proof (cases "h_validate h w d (tid t) (th_plan t) (th_input t)")
      case None
      then have "d' = d" "r = Some (t\<lparr>th_pc := Intent i\<rparr>)"
        using step Check by (simp_all add: thread_step_def check_step_def)
      then show ?thesis
        using pc Check by (auto intro!: good_move_stay [OF ok] simp: pc_ok_def intent_logged_def)
    next
      case (Some e)
      then obtain st msg where "stop t st msg (Some e) now d = (d', r)"
        using step Check by (cases "keeps_locks h (th_job t) i") (auto simp: thread_step_def check_step_def)
      then show ?thesis by (rule good_move_stop [OF ok refl refl])
    qed
  next
    case (Intent i)
    then have adv: "advance t Running (intent_message (step_action (plan_steps (th_plan t) ! i))) (Exec i) now d = (d', r)"
      using step by (simp add: thread_step_def)
    show ?thesis
      by (rule good_move_advance [OF ok wf _ _ _ adv _ _ disjI2]) (use pc Intent in \<open>simp_all add: pc_ok_def\<close>)
  next
    case (Exec i)
    then obtain x where "d' = d" "r = Some (t\<lparr>th_pc := Seen i x\<rparr>)"
      using step by (auto simp: thread_step_def split: prod.splits)
    then show ?thesis
      using pc int Exec
      by (auto intro!: good_move_stay [OF ok] simp: pc_ok_def intent_logged_def)
  next
    case (Seen i x)
    show ?thesis
    proof (cases x)
      case None
      then have adv: "advance t Verifying ''Effect returned; verifying observed state'' (Observe i) now d = (d', r)"
        using step Seen by (simp add: thread_step_def seen_step_def)
      show ?thesis
        by (rule good_move_advance [OF ok wf _ _ _ adv _ _ disjI1])
          (use pc int Seen in \<open>simp_all add: pc_ok_def intent_logged_def\<close>)
    next
      case (Some e)
      then obtain st msg y where "stop t st msg y now d = (d', r)"
        using step Seen by (auto simp: thread_step_def seen_step_def split: if_splits)
      then show ?thesis by (rule good_move_stop [OF ok refl refl])
    qed
  next
    case (Observe i)
    have hs: "observe_step h i (plan_steps (th_plan t) ! i) t now w d = (d', r)"
      using step Observe by (auto simp: thread_step_def)
    show ?thesis
    proof (cases "h_reconcile h w d (tid t) (th_plan t) (th_input t) (plan_steps (th_plan t) ! i) = Inr True")
      case True
      then have "d' = d" "r = Some (t\<lparr>th_pc := Head (Suc i)\<rparr>)" using hs by (simp_all add: observe_step_def)
      then show ?thesis
        using pc Observe by (auto intro!: good_move_stay [OF ok] simp: pc_ok_def intent_logged_def)
    next
      case False
      then obtain msg e where "stop t Recovery_required msg e now d = (d', r)"
        using hs by (auto simp: observe_step_def split: sum.splits bool.splits)
      then show ?thesis by (rule good_move_stop [OF ok refl refl])
    qed
  qed
qed

section \<open>Every step keeps the invariant\<close>

lemma sys_invD:
  assumes "sys_inv s"
  shows inv_wf: "wf_db (sy_db s)" and inv_distinct: "distinct (map tid (sy_threads s))"
    and inv_thread: "\<And>t. t \<in> set (sy_threads s) \<Longrightarrow> thread_ok (sy_db s) t"
    and inv_pending: "pending_ok (sy_db s) (sy_threads s) (sy_pending s)"
  using assms by (auto simp: sys_inv_def)

text \<open>A write of one job while the threads stay as they are.\<close>

lemma sys_inv_touch:
  assumes inv: "sys_inv s" and tch: "touch (sy_db s) j d'"
    and st: "\<And>t. t \<in> set (sy_threads s) \<Longrightarrow> tid t = job_id j \<Longrightarrow> active (job_state j)"
  shows "sys_inv (s\<lparr>sy_db := d'\<rparr>)"
  using touch_wf [OF inv_wf [OF inv] tch] inv_distinct [OF inv]
    thread_ok_touch [OF inv_thread [OF inv] tch inv_wf [OF inv]] st
    pending_ok_touch [OF inv_pending [OF inv] tch inv_wf [OF inv] subset_refl]
  by (auto simp: sys_inv_def)

lemma sys_inv_thread:
  assumes inv: "sys_inv s" and ts: "sy_threads s = ts1 @ t # ts2" and good: "good_move (sy_db s) t d' r"
  shows "sys_inv (s\<lparr>sy_db := d', sy_threads := ts1 @ thread_list r @ ts2, sy_world := w'\<rparr>)"
proof -
  have wf: "wf_db (sy_db s)" by (rule inv_wf [OF inv])
  have others: "thread_ok d' u" if u: "u \<in> set ts1 \<union> set ts2" for u
  proof -
    have "tid t \<notin> tid ` set ts1 \<union> tid ` set ts2" using inv_distinct [OF inv] by (simp add: ts)
    moreover have "tid u \<in> tid ` set ts1 \<union> tid ` set ts2" using u by blast
    ultimately have ne: "tid u \<noteq> tid t" by metis
    have ok: "thread_ok (sy_db s) u" using inv_thread [OF inv] u by (auto simp: ts)
    show ?thesis
      using good ok thread_ok_touch [OF ok _ wf] ne by (auto simp: good_move_def)
  qed
  have keep: "\<forall>t'. r = Some t' \<longrightarrow> tid t' = tid t \<and> th_plan t' = th_plan t \<and> thread_ok d' t'"
    using good unfolding good_move_def by (rule conjunct2)
  have ids: "map tid (thread_list r) = [] \<or> map tid (thread_list r) = [tid t]"
    using keep by (cases r) (simp_all add: thread_list_def)
  have wf': "wf_db d'" using good wf touch_wf by (auto simp: good_move_def)
  have split: "distinct (map tid ts1 @ [tid t] @ map tid ts2)" using inv_distinct [OF inv] by (simp add: ts)
  have dist: "distinct (map tid (ts1 @ thread_list r @ ts2))"
    using ids
  proof
    assume e: "map tid (thread_list r) = []"
    show ?thesis using split by (simp only: map_append e) simp
  next
    assume e: "map tid (thread_list r) = [tid t]"
    show ?thesis using split by (simp only: map_append e)
  qed
  have oks: "\<forall>u \<in> set (ts1 @ thread_list r @ ts2). thread_ok d' u"
  proof -
    have "\<forall>u \<in> set ts1. thread_ok d' u" "\<forall>u \<in> set ts2. thread_ok d' u" using others by blast+
    moreover have "\<forall>u \<in> set (thread_list r). thread_ok d' u" using keep by (cases r) (simp_all add: thread_list_def)
    ultimately show ?thesis by (simp only: set_append ball_Un)
  qed
  have sub: "tid ` set (ts1 @ thread_list r @ ts2) \<subseteq> tid ` set (sy_threads s)"
  proof -
    have "set (map tid (thread_list r)) \<subseteq> {tid t}" using ids by (metis empty_set empty_subsetI list.set(2) order_refl)
    then show ?thesis by (auto simp: ts image_subset_iff)
  qed
  have pend: "pending_ok d' (sy_threads s) (sy_pending s)"
    using good inv_pending [OF inv] pending_ok_touch [OF inv_pending [OF inv] _ wf subset_refl]
    by (auto simp: good_move_def)
  then have "pending_ok d' (ts1 @ thread_list r @ ts2) (sy_pending s)"
    by (rule pending_ok_fewer [OF _ sub])
  then show ?thesis using wf' dist oks by (simp add: sys_inv_def)
qed

lemma make_plan_saves:
  "make_plan env hs w i now uid conn op rs prior input steps acks risks d = (Inr p, d') \<Longrightarrow>
     \<exists>b. save_plan p b d = Inr d'"
  by (auto simp: make_plan_def split: option.splits sum.splits)

lemma sys_inv_planning:
  assumes inv: "sys_inv s" and sv: "save_plan p b (sy_db s) = Inr d'"
  shows "sys_inv (s\<lparr>sy_db := d'\<rparr>)"
proof -
  note eff = save_plan_effects [OF sv]
  have new: "plan_of (sy_db s) (plan_id p) = None" using eff(2) by (simp add: plan_of_def)
  have "thread_ok d' t" if "t \<in> set (sy_threads s)" for t
    by (rule thread_ok_keep [OF inv_thread [OF inv that]]) (use new in \<open>auto simp: eff\<close>)
  moreover have "pending_ok d' (sy_threads s) (sy_pending s)"
    using inv_pending [OF inv] by (simp add: pending_ok_def eff(5))
  ultimately show ?thesis
    using save_plan_wf [OF inv_wf [OF inv] sv] inv_distinct [OF inv] by (simp add: sys_inv_def)
qed

text \<open>What an accepted request did, in either of its two forms.\<close>

lemma apply_accepted:
  assumes ap: "apply_plan env hs w i now uid r d = (Accepted j p input, d')"
  shows "get_plan (ar_plan r) d = Inr (p, input)" and "authorize_plan env now uid r p input = Inr ()"
    and "\<exists>rh. digest env (request_json uid r) = Inr rh \<and>
      (accept i now p (ar_key r) rh d = (Inr j, d') \<or>
       (\<exists>parent. accept_recovery i now p (ar_key r) rh parent d = (Inr j, d')))"
  using ap by (auto simp: apply_plan_def split: if_splits sum.splits option.splits prod.splits)

text \<open>A thread's job is not one whose parent another job inherits from: it is active.\<close>

lemma thread_ok_ids:
  assumes "thread_ok d t"
  shows "job_of d i = None \<Longrightarrow> tid t \<noteq> i" and "job_of d i = Some row \<Longrightarrow> \<not> active (job_state row) \<Longrightarrow> tid t \<noteq> i"
  using assms by (auto simp: thread_ok_def)

lemma new_thread_ok:
  assumes "job_of d i = Some (new_job i now p q)" and "plan_of d (plan_id p) = Some p"
    and "\<forall>r \<in> set (plan_resources p). lock_of d r = Some i"
  shows "thread_ok d (new_thread (new_job i now p q) p input)"
  using assms by (simp add: thread_ok_def new_thread_def pc_ok_def intent_logged_def)

lemma sys_inv_new:
  assumes inv: "sys_inv s" and wf: "wf_db d'" and none: "sy_pending s = None"
    and j: "j = new_job i now p q" and i: "job_of (sy_db s) i = None"
    and new: "thread_ok d' (new_thread j p input)"
    and old: "\<And>t. t \<in> set (sy_threads s) \<Longrightarrow> thread_ok d' t"
  shows "sys_inv (s\<lparr>sy_db := d', sy_threads := new_thread j p input # sy_threads s\<rparr>)"
proof -
  have "tid t \<noteq> i" if "t \<in> set (sy_threads s)" for t
    by (rule thread_ok_ids(1) [OF inv_thread [OF inv that] i])
  then have "distinct (map tid (new_thread j p input # sy_threads s))"
    using inv_distinct [OF inv] by (auto simp: new_thread_def j)
  then show ?thesis using wf none new old by (simp add: sys_inv_def pending_ok_def)
qed

lemma sys_inv_accept:
  assumes inv: "sys_inv s" and none: "sy_pending s = None"
    and p: "plan_of (sy_db s) (plan_id p) = Some p"
    and acc: "accept i now p key rh (sy_db s) = (Inr j, d')"
  shows "sys_inv (s\<lparr>sy_db := d', sy_threads := new_thread j p input # sy_threads s\<rparr>)"
proof -
  have wf: "wf_db (sy_db s)" by (rule inv_wf [OF inv])
  note eff = accept_effects [OF acc wf_primary(4) [OF wf]]
  have plans: "plan_of d' = plan_of (sy_db s)" by (rule plan_of_cong [OF eff(10)])
  show ?thesis
  proof (rule sys_inv_new [OF inv accept_wf [OF wf acc p] none eff(1,2)])
    show "thread_ok d' (new_thread j p input)"
      unfolding eff(1) by (rule new_thread_ok) (simp_all add: eff(7,8) plans p, simp add: eff(1))
    fix t assume t: "t \<in> set (sy_threads s)"
    have ne: "tid t \<noteq> i" by (rule thread_ok_ids(1) [OF inv_thread [OF inv t] eff(2)])
    show "thread_ok d' t"
    proof (rule thread_ok_keep [OF inv_thread [OF inv t]])
      show "lock_of d' r = Some (tid t)" if "lock_of (sy_db s) r = Some (tid t)" for r
        using that eff(6) by (auto simp: eff(8))
    qed (use ne in \<open>auto simp: eff(7,11) plans\<close>)
  qed
qed

lemma sys_inv_accept_recovery:
  assumes inv: "sys_inv s" and none: "sy_pending s = None"
    and p: "plan_of (sy_db s) (plan_id p) = Some p"
    and acc: "accept_recovery i now p key rh par (sy_db s) = (Inr j, d')"
  shows "sys_inv (s\<lparr>sy_db := d', sy_threads := new_thread j p input # sy_threads s\<rparr>)"
  using acc inv_wf [OF inv]
proof (rule accept_recovery_effects)
  fix parent prior
  assume j: "j = new_job i now p par" and par: "job_of (sy_db s) par = Some parent"
    and rec: "recoverable (job_state parent)" and i: "job_of (sy_db s) i = None"
    and free: "\<forall>r \<in> set (plan_resources p). lock_of (sy_db s) r = Some par \<or> lock_of (sy_db s) r = None"
    and jobs: "job_of d' = (job_of (sy_db s))(i \<mapsto> j, par \<mapsto> superseded parent i)"
    and locks: "lock_of d' = (\<lambda>r. if r \<in> set (plan_resources p) then Some i else lock_of (sy_db s) r)"
    and plans: "db_plans d' = db_plans (sy_db s)"
    and ev: "\<exists>e. db_events d' = db_events (sy_db s) @ [((par, next_seq par (sy_db s)), e)] \<and>
      ev_operation e = par \<and> ev_seq e = next_seq par (sy_db s) \<and> ev_phase e = Partial"
  have pl: "plan_of d' = plan_of (sy_db s)" by (rule plan_of_cong [OF plans])
  have ne: "par \<noteq> i" using par i by auto
  have wf': "wf_db d'" by (rule accept_recovery_wf [OF inv_wf [OF inv] acc p])
  show ?thesis
  proof (rule sys_inv_new [OF inv wf' none j i])
    show "thread_ok d' (new_thread j p input)"
      unfolding j by (rule new_thread_ok) (use ne in \<open>simp_all add: jobs locks pl p j\<close>)
    fix t assume t: "t \<in> set (sy_threads s)"
    have ni: "tid t \<noteq> i" by (rule thread_ok_ids(1) [OF inv_thread [OF inv t] i])
    have np: "tid t \<noteq> par"
      by (rule thread_ok_ids(2) [OF inv_thread [OF inv t] par]) (use rec active_not_recoverable in blast)
    show "thread_ok d' t"
    proof (rule thread_ok_keep [OF inv_thread [OF inv t]])
      show "set (db_events (sy_db s)) \<subseteq> set (db_events d')" using ev by auto
      show "lock_of d' r = Some (tid t)" if "lock_of (sy_db s) r = Some (tid t)" for r
        using that free np by (auto simp: locks)
    qed (use ni np in \<open>simp_all add: jobs pl\<close>)
  qed
qed

lemma sys_inv_applying:
  assumes inv: "sys_inv s" and none: "sy_pending s = None"
    and ap: "apply_plan env hs w i now uid r (sy_db s) = (Accepted j p input, d')"
  shows "sys_inv (s\<lparr>sy_db := d', sy_threads := new_thread j p input # sy_threads s\<rparr>)"
proof -
  have "plan_of (sy_db s) (ar_plan r) = Some p"
    using apply_accepted(1) [OF ap] by (auto simp: get_plan_def plan_of_def split: option.splits)
  then have p: "plan_of (sy_db s) (plan_id p) = Some p" using wf_plan_id [OF inv_wf [OF inv]] by metis
  show ?thesis
    using apply_accepted(3) [OF ap] sys_inv_accept [OF inv none p] sys_inv_accept_recovery [OF inv none p]
    by blast
qed

lemma reconcile_effects:
  assumes "reconcile env hs w i now d = (r, d')" and "wf_db d"
  shows "d' = d \<or> (\<exists>j. touch d j d' \<and> job_id j = i \<and> job_state j = Succeeded \<and>
    (\<exists>row. job_of d i = Some row \<and> recoverable (job_state row)))"
proof (cases r)
  case (Some e)
  then show ?thesis using assms(1) by (auto simp: reconcile_def split: sum.splits)
next
  case None
  with assms(1) obtain j where j: "job_of d i = Some j" "recoverable (job_state j)"
    "\<exists>msg. update (moved (j\<lparr>job_error := None\<rparr>) Succeeded None) msg now d = Inr d'"
    by (auto simp: reconcile_def get_job_def transition_def Let_def split: sum.splits option.splits prod.splits if_splits)
  have "job_id j = i" using wf_job_id [OF assms(2) j(1)] .
  then show ?thesis using j by (auto intro!: exI [where x = "moved (j\<lparr>job_error := None\<rparr>) Succeeded None"] touchI)
qed

lemma sys_inv_reconciling:
  assumes inv: "sys_inv s" and rc: "reconcile env hs w i now (sy_db s) = (r, d')"
  shows "sys_inv (s\<lparr>sy_db := d'\<rparr>)"
  using reconcile_effects [OF rc inv_wf [OF inv]]
proof
  assume "d' = sy_db s"
  then show ?thesis using inv by simp
next
  assume "\<exists>j. touch (sy_db s) j d' \<and> job_id j = i \<and> job_state j = Succeeded \<and>
    (\<exists>row. job_of (sy_db s) i = Some row \<and> recoverable (job_state row))"
  then obtain j row where j: "touch (sy_db s) j d'" "job_id j = i" "job_of (sy_db s) i = Some row"
    "recoverable (job_state row)" by blast
  show ?thesis
  proof (rule sys_inv_touch [OF inv j(1)])
    fix t assume t: "t \<in> set (sy_threads s)" "tid t = job_id j"
    have "tid t \<noteq> i"
      by (rule thread_ok_ids(2) [OF inv_thread [OF inv t(1)] j(3)]) (use j(4) active_not_recoverable in blast)
    then show "active (job_state j)" using t(2) j(2) by simp
  qed
qed

lemma sys_inv_cancel_ends:
  assumes inv: "sys_inv s" and pend: "sy_pending s = Some j" and cw: "cancel_write j now (sy_db s) = Inr d'"
  shows "sys_inv (s\<lparr>sy_db := d', sy_pending := None\<rparr>)"
proof -
  obtain row where row: "job_of (sy_db s) (job_id j) = Some row" "job_plan row = job_plan j"
    using inv_pending [OF inv] pend by (auto simp: pending_ok_def)
  have tch: "touch (sy_db s) j d'" using cw row by (auto simp: cancel_write_def intro!: touchI)
  have "sys_inv (s\<lparr>sy_db := d'\<rparr>)"
    by (rule sys_inv_touch [OF inv tch]) (use inv_pending [OF inv] pend in \<open>auto simp: pending_ok_def\<close>)
  then show ?thesis by (simp add: sys_inv_def pending_ok_def)
qed

lemma sys_inv_cancel_begins:
  assumes inv: "sys_inv s" and cr: "cancel_read i (sy_db s) = Inr j"
  shows "sys_inv (s\<lparr>sy_pending := Some j\<rparr>)"
proof -
  obtain row where row: "job_of (sy_db s) i = Some row" "\<not> job_terminal (job_state row)" "j = row\<lparr>job_cancel := True\<rparr>"
    using cr by (auto simp: cancel_read_def get_job_def split: option.splits if_splits)
  have id: "job_id row = i" by (rule wf_job_id [OF inv_wf [OF inv] row(1)])
  have "active (job_state row)" if "t \<in> set (sy_threads s)" "tid t = i" for t
    using inv_thread [OF inv that(1)] that(2) row(1) by (auto simp: thread_ok_def)
  then have "pending_ok (sy_db s) (sy_threads s) (Some j)" using row id by (auto simp: pending_ok_def)
  then show ?thesis using inv by (simp add: sys_inv_def)
qed

lemma sys_inv_noting:
  assumes inv: "sys_inv s" and nt: "progress_note i msg now (sy_db s) = Inr d'"
  shows "sys_inv (s\<lparr>sy_db := d'\<rparr>)"
proof -
  obtain row where row: "job_of (sy_db s) i = Some row" "update row msg now (sy_db s) = Inr d'"
    using nt by (auto simp: progress_note_def get_job_def split: option.splits if_splits)
  have id: "job_id row = i" by (rule wf_job_id [OF inv_wf [OF inv] row(1)])
  show ?thesis
  proof (rule sys_inv_touch [OF inv touchI [OF row(2)]])
    show "job_of (sy_db s) (job_id row) = Some row" using row id by simp
    fix t assume "t \<in> set (sy_threads s)" "tid t = job_id row"
    then show "active (job_state row)" using inv_thread [OF inv] row id by (fastforce simp: thread_ok_def)
  qed simp
qed

text \<open>
  The restart: the rows of the jobs that were not terminal become uncertain, keep their
  locks, their step and their cancel flag; nothing else changes but the events.
\<close>

definition interrupted :: "job \<Rightarrow> job" where
  "interrupted j = (if job_terminal (job_state j) then j
     else moved j Recovery_required
       (Some (Domain_error (fail ''RECOVERY_REQUIRED'' (''interrupted at step '' @ show_int (job_step j))))))"

lemma interrupted_simps [simp]:
  "job_id (interrupted j) = job_id j" "job_plan (interrupted j) = job_plan j"
  "job_step (interrupted j) = job_step j" "job_cancel (interrupted j) = job_cancel j"
  "job_state (interrupted j) = (if job_terminal (job_state j) then job_state j else Recovery_required)"
  by (simp_all add: interrupted_def moved_def)

lemma recover_jobs_effects:
  assumes "wf_db d" and "distinct (map job_id js)" and "\<forall>j \<in> set js. job_of d (job_id j) = Some j"
  shows "\<exists>d'. recover_jobs js now d = (None, d') \<and> wf_db d' \<and> lock_of d' = lock_of d \<and>
    db_plans d' = db_plans d \<and> db_dedup d' = db_dedup d \<and> set (db_events d) \<subseteq> set (db_events d') \<and>
    (\<forall>i. job_of d' i = (if i \<in> set (map job_id js) then map_option interrupted (job_of d i) else job_of d i))"
  using assms
proof (induction js arbitrary: d)
  case Nil
  then show ?case by auto
next
  case (Cons j js)
  have row: "job_of d (job_id j) = Some j" using Cons.prems(3) by simp
  show ?case
  proof (cases "job_terminal (job_state j)")
    case True
    then show ?thesis using Cons.IH [of d] Cons.prems by (auto simp: interrupted_def)
  next
    case False
    let ?m = "''Coordinator restarted; effects require observation before continuation''"
    let ?j = "interrupted j"
    have st: "job_state ?j = Recovery_required" using False by simp
    obtain e where up: "update ?j ?m now d = Inr e"
      using update_total [of ?j ?m now d] row by auto
    have tch: "touch d ?j e" by (rule touchI [OF up]) (simp_all add: row)
    have wf: "wf_db e" by (rule touch_wf [OF Cons.prems(1) tch])
    from tch Cons.prems(1) have eff: "job_of e = (job_of d)(job_id j \<mapsto> ?j) \<and> lock_of e = lock_of d \<and>
        db_plans e = db_plans d \<and> db_dedup e = db_dedup d \<and> set (db_events d) \<subseteq> set (db_events e)"
    proof (rule touch_effects)
      fix old assume old: "job_of d (job_id ?j) = Some old"
        "job_of e = (job_of d)(job_id ?j \<mapsto> merged ?j old)"
        "lock_of e = (\<lambda>r. if releases (job_state ?j) \<and> lock_of d r = Some (job_id ?j) then None else lock_of d r)"
      have "merged ?j j = ?j" by (simp add: merged_def)
      then show "db_plans e = db_plans d \<Longrightarrow> db_dedup e = db_dedup d \<Longrightarrow> set (db_events d) \<subseteq> set (db_events e) \<Longrightarrow> ?thesis"
        using old row st by simp
    qed
    have rec: "recover_jobs (j # js) now d = recover_jobs js now e"
      using up False by (simp add: transition_def Let_def interrupted_def)
    have dist: "distinct (map job_id js)" and fresh: "job_id j \<notin> set (map job_id js)"
      using Cons.prems(2) by simp_all
    have rows: "\<forall>k \<in> set js. job_of e (job_id k) = Some k"
    proof
      fix k assume k: "k \<in> set js"
      have "job_of d (job_id k) = Some k" by (rule bspec [OF Cons.prems(3)]) (simp add: k)
      moreover have "job_id k \<noteq> job_id j" using fresh k by (metis image_eqI list.set_map)
      ultimately show "job_of e (job_id k) = Some k" unfolding conjunct1 [OF eff] by simp
    qed
    from Cons.IH [OF wf dist rows] obtain d' where d': "recover_jobs js now e = (None, d')" "wf_db d'"
      "lock_of d' = lock_of e" "db_plans d' = db_plans e" "db_dedup d' = db_dedup e"
      "set (db_events e) \<subseteq> set (db_events d')"
      "\<forall>i. job_of d' i = (if i \<in> set (map job_id js) then map_option interrupted (job_of e i) else job_of e i)"
      by blast
    have "job_of d' i = (if i \<in> set (map job_id (j # js)) then map_option interrupted (job_of d i) else job_of d i)" for i
      using d'(7) [rule_format, of i] eff Cons.prems(2) row by (cases "i = job_id j") auto
    then show ?thesis
      using d'(1,2) eff d'(3-5) subset_trans [OF _ d'(6)] unfolding rec by (intro exI [where x = d']) metis
  qed
qed

lemma pending_jobs_rows:
  assumes "wf_db d"
  shows "distinct (map job_id (pending_jobs d))" and "j \<in> set (pending_jobs d) \<Longrightarrow> job_of d (job_id j) = Some j"
    and "job_of d i = Some j \<Longrightarrow> \<not> job_terminal (job_state j) \<Longrightarrow> i \<in> job_id ` set (pending_jobs d)"
proof -
  have rows: "job_of d i = Some j \<and> job_id j = i" if "(i, j) \<in> set (db_jobs d)" for i j
    using that wf_primary(2) [OF assms] wf_job_id [OF assms] by (simp add: map_of_is_SomeI)
  have ids: "map job_id (map snd (db_jobs d)) = map fst (db_jobs d)" using rows by auto
  have "distinct (map job_id (map snd (db_jobs d)))" unfolding ids by (rule wf_primary(2) [OF assms])
  then show "distinct (map job_id (pending_jobs d))"
    unfolding pending_jobs_def jobs_for_recovery_def by (rule distinct_map_filter)
  show "job_of d (job_id j) = Some j" if "j \<in> set (pending_jobs d)"
    using that rows by (fastforce simp: pending_jobs_def jobs_for_recovery_def)
  show "i \<in> job_id ` set (pending_jobs d)" if "job_of d i = Some j" "\<not> job_terminal (job_state j)"
  proof -
    have "(i, j) \<in> set (db_jobs d)" using that(1) by (rule map_of_SomeD)
    then have "j \<in> set (pending_jobs d)"
      using that(2) by (cases "job_state j") (force simp: pending_jobs_def jobs_for_recovery_def)+
    then show ?thesis using rows [OF \<open>(i, j) \<in> set (db_jobs d)\<close>] by force
  qed
qed

lemma recover_effects:
  assumes "wf_db d"
  obtains d' where "recover now d = (None, d')" and "wf_db d'" and "lock_of d' = lock_of d"
    and "db_plans d' = db_plans d" and "db_dedup d' = db_dedup d" and "set (db_events d) \<subseteq> set (db_events d')"
    and "\<And>i. job_of d' i = map_option interrupted (job_of d i)"
proof -
  obtain d' where d': "recover_jobs (pending_jobs d) now d = (None, d')" "wf_db d'" "lock_of d' = lock_of d"
    "db_plans d' = db_plans d" "db_dedup d' = db_dedup d" "set (db_events d) \<subseteq> set (db_events d')"
    "\<forall>i. job_of d' i = (if i \<in> set (map job_id (pending_jobs d)) then map_option interrupted (job_of d i) else job_of d i)"
    using recover_jobs_effects [OF assms pending_jobs_rows(1) [OF assms]] pending_jobs_rows(2) [OF assms] by metis
  have "job_of d' i = map_option interrupted (job_of d i)" for i
    using d'(7) pending_jobs_rows(3) [OF assms, of i] by (cases "job_of d i") (auto simp: interrupted_def)
  then show thesis using that d' by (simp add: recover_def)
qed

lemma sys_inv_restarting:
  assumes inv: "sys_inv s" and rc: "recover now (sy_db s) = (x, d')"
  shows "sys_inv (s\<lparr>sy_db := d', sy_threads := [], sy_pending := None\<rparr>)"
proof -
  have "wf_db d'" by (rule recover_effects [OF inv_wf [OF inv], of now]) (use rc in simp)
  then show ?thesis by (simp add: sys_inv_def pending_ok_def)
qed

theorem sys_inv_step:
  assumes inv: "sys_inv s" and step: "sys_step env hs s t"
  shows "sys_inv t"
  using step
proof cases
  case planning
  then show ?thesis using make_plan_saves sys_inv_planning [OF inv] by metis
next
  case applying
  then show ?thesis by (auto intro: sys_inv_applying [OF inv])
next
  case moving
  then show ?thesis
    using sys_inv_thread [OF inv] thread_step_good inv_thread [OF inv] inv_wf [OF inv] by (metis in_set_conv_decomp)
next
  case moving_free
  then show ?thesis
    using sys_inv_thread [OF inv] thread_step_good inv_thread [OF inv] inv_wf [OF inv] by (metis in_set_conv_decomp)
next
  case (dying ts1 u ts2)
  have "pending_ok (sy_db s) (ts1 @ ts2) (sy_pending s)"
    by (rule pending_ok_fewer [OF inv_pending [OF inv]]) (auto simp: dying)
  then show ?thesis using inv by (auto simp: sys_inv_def dying)
next
  case cancel_begins
  then show ?thesis by (auto intro: sys_inv_cancel_begins [OF inv])
next
  case cancel_ends
  then show ?thesis by (auto intro: sys_inv_cancel_ends [OF inv])
next
  case cancel_fails
  then show ?thesis using inv by (simp add: sys_inv_def pending_ok_def)
next
  case reconciling
  then show ?thesis by (auto intro: sys_inv_reconciling [OF inv])
next
  case restarting
  then show ?thesis by (auto intro: sys_inv_restarting [OF inv])
next
  case noting
  then show ?thesis by (auto intro: sys_inv_noting [OF inv])
next
  case (recording kind i prev body reviewed d')
  then have d': "d' = put kind i body (sy_db s)" by (simp add: compare_put_jobs_Inr)
  have pl: "plan_of d' = plan_of (sy_db s)" by (rule plan_of_cong) (simp add: d')
  have "thread_ok d' t" if "t \<in> set (sy_threads s)" for t
    by (rule thread_ok_keep [OF inv_thread [OF inv that]]) (simp_all add: d' pl [unfolded d'])
  then show ?thesis
    using recording put_wf [OF inv_wf [OF inv], of kind i body] inv_distinct [OF inv] inv_pending [OF inv]
    by (simp add: sys_inv_def pending_ok_def d')
next
  case outside
  then show ?thesis using inv by (simp add: sys_inv_def)
qed

lemma sys_inv_fresh: "sys_inv (fresh_sys w)"
  by (simp add: sys_inv_def fresh_sys_def wf_empty_db pending_ok_def)

theorem reachable_inv: "reachable env hs s \<Longrightarrow> sys_inv s"
  by (induction rule: reachable.induct) (auto intro: sys_inv_fresh sys_inv_step)

end
