(* ===== verification/Engine_History.thy ===== *)
theory Engine_History
  imports Engine_Steps
begin

text \<open>
  What no step of the coordinator ever undoes: plans, idempotency keys and events stay, a job
  stays under its identity with its plan, and a cancel request is never lost. With it, the
  contract of \<^verbatim>\<open>Apply\<close>: what an accepted request established, what a rejected one left
  alone, and what the same key means at any later time.
\<close>

section \<open>History\<close>

definition evolves :: "db \<Rightarrow> db \<Rightarrow> bool" where
  "evolves d d' \<longleftrightarrow> map_of (db_plans d) \<subseteq>\<^sub>m map_of (db_plans d') \<and> map_of (db_dedup d) \<subseteq>\<^sub>m map_of (db_dedup d') \<and>
     set (db_events d) \<subseteq> set (db_events d') \<and>
     (\<forall>i j. job_of d i = Some j \<longrightarrow> (\<exists>j'. job_of d' i = Some j' \<and> job_plan j' = job_plan j \<and>
        (job_cancel j \<longrightarrow> job_cancel j')))"

lemma evolves_refl [simp]: "evolves d d"
  by (simp add: evolves_def)

lemma evolvesI:
  assumes "db_plans d' = db_plans d" and "map_of (db_dedup d) \<subseteq>\<^sub>m map_of (db_dedup d')"
    and "set (db_events d) \<subseteq> set (db_events d')"
    and "\<And>i j. job_of d i = Some j \<Longrightarrow>
      \<exists>j'. job_of d' i = Some j' \<and> job_plan j' = job_plan j \<and> (job_cancel j \<longrightarrow> job_cancel j')"
  shows "evolves d d'"
  using assms by (simp add: evolves_def)

lemma evolves_dedup: "evolves d d' \<Longrightarrow> map_of (db_dedup d) k = Some r \<Longrightarrow> map_of (db_dedup d') k = Some r"
  by (auto simp: evolves_def map_le_def dom_def)

lemma evolves_job:
  "evolves d d' \<Longrightarrow> job_of d i = Some j \<Longrightarrow>
     \<exists>j'. job_of d' i = Some j' \<and> job_plan j' = job_plan j \<and> (job_cancel j \<longrightarrow> job_cancel j')"
  by (simp add: evolves_def)

lemma evolves_trans:
  assumes ab: "evolves a b" and bc: "evolves b c"
  shows "evolves a c"
proof -
  have "\<exists>j'. job_of c i = Some j' \<and> job_plan j' = job_plan j \<and> (job_cancel j \<longrightarrow> job_cancel j')"
    if j: "job_of a i = Some j" for i j
  proof -
    obtain k where k: "job_of b i = Some k" "job_plan k = job_plan j" "job_cancel j \<longrightarrow> job_cancel k"
      using evolves_job [OF ab j] by blast
    obtain l where "job_of c i = Some l" "job_plan l = job_plan k" "job_cancel k \<longrightarrow> job_cancel l"
      using evolves_job [OF bc k(1)] by blast
    then show ?thesis using k by auto
  qed
  moreover have "map_of (db_plans a) \<subseteq>\<^sub>m map_of (db_plans c)" "map_of (db_dedup a) \<subseteq>\<^sub>m map_of (db_dedup c)"
    using ab bc unfolding evolves_def by (blast intro: map_le_trans)+
  moreover have "set (db_events a) \<subseteq> set (db_events c)" using ab bc unfolding evolves_def by blast
  ultimately show ?thesis unfolding evolves_def by blast
qed

lemma map_le_new: "m k = None \<Longrightarrow> m \<subseteq>\<^sub>m m(k \<mapsto> v)"
  by (auto simp: map_le_def dom_def)

lemma touch_evolves:
  assumes "touch d j d'" and "wf_db d"
  shows "evolves d d'"
  using assms
proof (rule touch_effects)
  fix old
  assume old: "job_of d (job_id j) = Some old" "job_plan j = job_plan old"
    and jobs: "job_of d' = (job_of d)(job_id j \<mapsto> merged j old)"
    and rest: "db_plans d' = db_plans d" "db_dedup d' = db_dedup d" "set (db_events d) \<subseteq> set (db_events d')"
  have "\<exists>j'. job_of d' i = Some j' \<and> job_plan j' = job_plan x \<and> (job_cancel x \<longrightarrow> job_cancel j')"
    if "job_of d i = Some x" for i x
    using that old by (cases "i = job_id j") (simp_all add: jobs)
  then show ?thesis using rest by (intro evolvesI) simp_all
qed

lemma save_plan_evolves: "save_plan p b d = Inr d' \<Longrightarrow> evolves d d'"
  using save_plan_effects [of p b d d'] by (simp add: evolves_def map_le_new)

lemma accept_evolves:
  assumes "accept i now p key rh d = (Inr j, d')" and "wf_db d"
  shows "evolves d d'"
proof -
  note eff = accept_effects [OF assms(1) wf_primary(4) [OF assms(2)]]
  show ?thesis
    by (rule evolvesI) (use eff(2,3) in \<open>auto simp: eff(7,9,10,11) map_le_new\<close>)
qed

lemma accept_recovery_evolves:
  assumes "accept_recovery i now p key rh par d = (Inr j, d')" and "wf_db d"
  shows "evolves d d'"
  using assms
proof (rule accept_recovery_effects)
  fix parent
  assume par: "job_of d par = Some parent" and i: "job_of d i = None" and key: "map_of (db_dedup d) key = None"
    and jobs: "job_of d' = (job_of d)(i \<mapsto> j, par \<mapsto> superseded parent i)"
    and dd: "map_of (db_dedup d') = (map_of (db_dedup d))(key \<mapsto> \<lparr>dd_request = rh, dd_job = i, dd_created = now\<rparr>)"
    and plans: "db_plans d' = db_plans d"
    and ev: "\<exists>e. db_events d' = db_events d @ [((par, next_seq par d), e)] \<and> ev_operation e = par \<and>
      ev_seq e = next_seq par d \<and> ev_phase e = Partial"
  show ?thesis
  proof (rule evolvesI [OF plans])
    show "map_of (db_dedup d) \<subseteq>\<^sub>m map_of (db_dedup d')" by (simp add: dd map_le_new key)
    show "set (db_events d) \<subseteq> set (db_events d')" using ev by auto
    show "\<exists>j'. job_of d' k = Some j' \<and> job_plan j' = job_plan x \<and> (job_cancel x \<longrightarrow> job_cancel j')"
      if "job_of d k = Some x" for k x
      using that par i by (auto simp: jobs)
  qed
qed

lemma apply_evolves:
  assumes "apply_plan env hs w i now uid r d = (x, d')" and "wf_db d"
  shows "evolves d d'"
  using assms accept_evolves accept_recovery_evolves
  by (auto simp: apply_plan_def split: if_splits sum.splits option.splits prod.splits
      dest: accept_rollback accept_recovery_rollback)

lemma good_move_evolves: "good_move d t d' r \<Longrightarrow> wf_db d \<Longrightarrow> evolves d d'"
  by (auto simp: good_move_def intro: touch_evolves)

lemma thread_move_evolves:
  assumes inv: "sys_inv s" and ts: "sy_threads s = ts1 @ t # ts2"
    and step: "thread_step h t now w (sy_db s) = (w', d', r)"
  shows "evolves (sy_db s) d'"
proof -
  have "thread_ok (sy_db s) t" by (rule inv_thread [OF inv]) (simp add: ts)
  then show ?thesis by (rule good_move_evolves [OF thread_step_good [OF _ inv_wf [OF inv] step] inv_wf [OF inv]])
qed

lemma sys_step_evolves:
  assumes inv: "sys_inv s" and step: "sys_step env hs s t"
  shows "evolves (sy_db s) (sy_db t)"
  using step
proof cases
  case planning
  then show ?thesis by (auto dest!: make_plan_saves intro: save_plan_evolves)
next
  case applying
  then show ?thesis by (auto intro: apply_evolves [OF _ inv_wf [OF inv]])
next
  case moving
  then show ?thesis by (auto intro: thread_move_evolves [OF inv])
next
  case moving_free
  then show ?thesis by (auto intro: thread_move_evolves [OF inv])
next
  case (cancel_ends j now d')
  obtain row where "job_of (sy_db s) (job_id j) = Some row" "job_plan row = job_plan j"
    using inv_pending [OF inv] cancel_ends by (auto simp: pending_ok_def)
  then have "touch (sy_db s) j d'" using cancel_ends by (auto simp: cancel_write_def intro!: touchI)
  then show ?thesis using cancel_ends by (simp add: touch_evolves inv_wf [OF inv])
next
  case reconciling
  then show ?thesis using reconcile_effects [OF _ inv_wf [OF inv]] touch_evolves [OF _ inv_wf [OF inv]] by fastforce
next
  case (restarting now d')
  have "evolves (sy_db s) d'"
  proof (rule recover_effects [OF inv_wf [OF inv], of now])
    fix e assume e: "recover now (sy_db s) = (None, e)" "db_plans e = db_plans (sy_db s)"
      "db_dedup e = db_dedup (sy_db s)" "set (db_events (sy_db s)) \<subseteq> set (db_events e)"
      "\<And>i. job_of e i = map_option interrupted (job_of (sy_db s) i)"
    then show ?thesis using restarting by (intro evolvesI) simp_all
  qed
  then show ?thesis by (simp add: restarting)
next
  case (noting u i msg now d')
  obtain row where row: "job_of (sy_db s) (tid u) = Some row" "update row msg now (sy_db s) = Inr d'"
    using noting by (auto simp: progress_note_def get_job_def split: option.splits if_splits)
  have "touch (sy_db s) row d'"
    by (rule touchI [OF row(2)]) (use row(1) wf_job_id [OF inv_wf [OF inv] row(1)] in simp_all)
  then show ?thesis by (simp add: noting touch_evolves inv_wf [OF inv])
next
  case (recording kind i prev body reviewed d')
  then have d': "d' = put kind i body (sy_db s)" by (simp add: compare_put_jobs_Inr)
  show ?thesis by (auto simp: recording d' evolves_def)
qed simp_all

lemma sys_steps_evolve:
  assumes "(sys_step env hs)\<^sup>*\<^sup>* s t" and "reachable env hs s"
  shows "reachable env hs t \<and> evolves (sy_db s) (sy_db t)"
  using assms
proof (induction rule: rtranclp_induct)
  case (step t u)
  then show ?case
    using sys_step_evolves [OF reachable_inv step.hyps(2)] by (auto intro: later evolves_trans)
qed simp

end
