(* ===== verification/Engine_Run.thy ===== *)
theory Engine_Run
  imports Engine_History
begin

text \<open>
  How the goroutine of a job ends, among all others: its own moves are bounded by its steps; a last
  move of its own leaves a terminal state on record, success only when the handler confirmed the
  completion predicate of every step; when instead it dies, as on a failed write of the journal, or the
  coordinator restarts, its job keeps every lock.
\<close>

section \<open>A bound on the moves\<close>

text \<open>Six moves per step and the final transition.\<close>

definition moves_left :: "thread \<Rightarrow> nat" where
  "moves_left t = (let n = length (plan_steps (th_plan t)) in case th_pc t of
      Head i \<Rightarrow> 6 * (n - i) + 1 | Check i \<Rightarrow> 6 * (n - i) | Intent i \<Rightarrow> 6 * (n - i) - 1
    | Exec i \<Rightarrow> 6 * (n - i) - 2 | Seen i _ \<Rightarrow> 6 * (n - i) - 3 | Observe i \<Rightarrow> 6 * (n - i) - 4)"

definition at_step :: "pc \<Rightarrow> nat" where
  "at_step k = (case k of Head i \<Rightarrow> i | Check i \<Rightarrow> i | Intent i \<Rightarrow> i | Exec i \<Rightarrow> i | Seen i _ \<Rightarrow> i | Observe i \<Rightarrow> i)"

text \<open>
  What one move does to the loop: it goes on with fewer moves left, at the same step or, when
  the predicate of the step was confirmed, at the next; or it stops in a terminal state,
  which is success only after the last step.
\<close>

definition confirmed :: "'w handler \<Rightarrow> 'w \<Rightarrow> db \<Rightarrow> thread \<Rightarrow> nat \<Rightarrow> bool" where
  "confirmed h w d t i \<longleftrightarrow> h_reconcile h w d (tid t) (th_plan t) (th_input t) (plan_steps (th_plan t) ! i) = Inr True"

definition goes_on :: "'w handler \<Rightarrow> 'w \<Rightarrow> db \<Rightarrow> thread \<Rightarrow> thread \<Rightarrow> bool" where
  "goes_on h w d t t' \<longleftrightarrow> moves_left t' < moves_left t \<and> tid t' = tid t \<and> th_plan t' = th_plan t \<and>
     th_input t' = th_input t \<and> job_recovery_of (th_job t') = job_recovery_of (th_job t) \<and>
     (at_step (th_pc t') = at_step (th_pc t) \<or>
      at_step (th_pc t') = Suc (at_step (th_pc t)) \<and> confirmed h w d t (at_step (th_pc t)))"

definition ends_in :: "thread \<Rightarrow> job_state \<Rightarrow> db \<Rightarrow> bool" where
  "ends_in t st d' \<longleftrightarrow> job_terminal st \<and> (\<exists>row. job_of d' (tid t) = Some row \<and> job_state row = st) \<and>
     (st = Succeeded \<longrightarrow> th_pc t = Head (at_step (th_pc t)) \<and> length (plan_steps (th_plan t)) \<le> at_step (th_pc t))"

lemma at_step_simps [simp]:
  "at_step (Head i) = i" "at_step (Check i) = i" "at_step (Intent i) = i" "at_step (Exec i) = i"
  "at_step (Seen i r) = i" "at_step (Observe i) = i"
  by (simp_all add: at_step_def)

lemma settle_state:
  assumes ok: "thread_ok d t" and wf: "wf_db d" and j: "job_id j = tid t" "job_plan j = job_plan (th_job t)"
  shows "\<exists>row. job_of (settle j st msg e now d) (tid t) = Some row \<and> job_state row = st"
proof -
  obtain row where row: "job_of d (tid t) = Some row" "job_plan row = job_plan (th_job t)"
    using ok by (auto simp: thread_ok_def)
  have tch: "touch d (moved j st e) (settle j st msg e now d)" by (rule settle_touch [of _ _ row]) (use row j in simp_all)
  from tch wf show ?thesis by (rule touch_effects) (use j in auto)
qed

lemma stop_ends:
  assumes ok: "thread_ok d t" and wf: "wf_db d" and u: "tid u = tid t" "job_plan (th_job u) = job_plan (th_job t)"
    and stop: "stop u st msg e now d = (d', r)" and st: "job_terminal st"
    and succ: "st = Succeeded \<Longrightarrow> th_pc t = Head (at_step (th_pc t)) \<and> length (plan_steps (th_plan t)) \<le> at_step (th_pc t)"
  shows "r = None \<and> ends_in t st d'"
  using settle_state [OF ok wf u] stop st succ by (auto simp: stop_def ends_in_def)

lemma advance_goes_on:
  assumes ok: "thread_ok d t" and u: "tid u = tid t" "job_plan (th_job u) = job_plan (th_job t)"
      "th_plan u = th_plan t" "th_input u = th_input t" "job_recovery_of (th_job u) = job_recovery_of (th_job t)"
    and adv: "advance u st msg k now d = (d', r)" and k: "at_step k = at_step (th_pc t)"
    and less: "moves_left (t\<lparr>th_pc := k\<rparr>) < moves_left t"
  shows "\<exists>t'. r = Some t' \<and> th_pc t' = k \<and> goes_on h w d t t'"
proof -
  obtain row where row: "job_of d (tid t) = Some row" "job_plan row = job_plan (th_job t)"
    using ok by (auto simp: thread_ok_def)
  obtain e where "advance u st msg k now d = (e, Some (u\<lparr>th_job := moved (th_job u) st None, th_pc := k\<rparr>))"
    using advance_touch [of d u row st msg k now] row u by auto
  then have r: "r = Some (u\<lparr>th_job := moved (th_job u) st None, th_pc := k\<rparr>)" using adv by simp
  show ?thesis using u k less unfolding r by (simp add: goes_on_def moves_left_def)
qed

lemma thread_step_measure:
  assumes ok: "thread_ok d t" and wf: "wf_db d" and step: "thread_step h t now w d = (w', d', r)"
  shows "(\<exists>t'. r = Some t' \<and> goes_on h w d t t') \<or> (r = None \<and> (\<exists>st. ends_in t st d'))"
proof -
  obtain row where row: "job_of d (tid t) = Some row" and pc: "pc_ok t" using ok by (rule thread_okD)
  let ?n = "length (plan_steps (th_plan t))"
  show ?thesis
  proof (cases "th_pc t")
    case (Head i)
    show ?thesis
    proof (cases "i < ?n")
      case False
      then have "stop t Succeeded ''All completion predicates verified'' None now d = (d', r)"
        using step Head by (simp add: thread_step_def finish_step_def)
      then show ?thesis using stop_ends [OF ok wf refl refl] Head False by fastforce
    next
      case lt: True
      let ?t = "t\<lparr>th_job := (th_job t)\<lparr>job_cancel := job_cancel row, job_step := int i\<rparr>\<rparr>"
      have hs: "head_step h i t now d = (d', r)" using step Head lt by (simp add: thread_step_def)
      have gj: "get_job (tid t) d = Inr row" using row by (simp add: get_job_def)
      show ?thesis
      proof (cases "job_cancel row")
        case True
        then obtain st msg e where "stop ?t st msg e now d = (d', r)" "job_terminal st" "st \<noteq> Succeeded"
          using hs by (cases "keeps_locks h (th_job ?t) i") (simp_all add: head_step_def gj)
        then show ?thesis using stop_ends [OF ok wf, of ?t] by fastforce
      next
        case False
        then have adv: "advance ?t Validating ''Rechecking preconditions before effect'' (Check i) now d = (d', r)"
          using hs by (simp add: head_step_def gj)
        have "\<exists>t'. r = Some t' \<and> th_pc t' = Check i \<and> goes_on h w d t t'"
          by (rule advance_goes_on [OF ok _ _ _ _ _ adv]) (use Head lt in \<open>simp_all add: moves_left_def\<close>)
        then show ?thesis by blast
      qed
    qed
  next
    case (Check i)
    show ?thesis
    proof (cases "h_validate h w d (tid t) (th_plan t) (th_input t)")
      case None
      then have "r = Some (t\<lparr>th_pc := Intent i\<rparr>)" using step Check by (simp add: thread_step_def check_step_def)
      then show ?thesis using Check pc by (simp add: goes_on_def moves_left_def pc_ok_def)
    next
      case (Some e)
      then obtain st msg where "stop t st msg (Some e) now d = (d', r)" "job_terminal st" "st \<noteq> Succeeded"
        using step Check by (cases "keeps_locks h (th_job t) i") (auto simp: thread_step_def check_step_def)
      then show ?thesis using stop_ends [OF ok wf refl refl] by fastforce
    qed
  next
    case (Intent i)
    then have adv: "advance t Running (intent_message (step_action (plan_steps (th_plan t) ! i))) (Exec i) now d = (d', r)"
      using step by (simp add: thread_step_def)
    have "\<exists>t'. r = Some t' \<and> th_pc t' = Exec i \<and> goes_on h w d t t'"
      by (rule advance_goes_on [OF ok _ _ _ _ _ adv]) (use Intent pc in \<open>simp_all add: moves_left_def pc_ok_def\<close>)
    then show ?thesis by blast
  next
    case (Exec i)
    then obtain x where "r = Some (t\<lparr>th_pc := Seen i x\<rparr>)" using step by (auto simp: thread_step_def split: prod.splits)
    then show ?thesis using Exec pc by (simp add: goes_on_def moves_left_def pc_ok_def)
  next
    case (Seen i x)
    show ?thesis
    proof (cases x)
      case None
      then have adv: "advance t Verifying ''Effect returned; verifying observed state'' (Observe i) now d = (d', r)"
        using step Seen by (simp add: thread_step_def seen_step_def)
      have "\<exists>t'. r = Some t' \<and> th_pc t' = Observe i \<and> goes_on h w d t t'"
        by (rule advance_goes_on [OF ok _ _ _ _ _ adv]) (use Seen pc in \<open>simp_all add: moves_left_def pc_ok_def\<close>)
      then show ?thesis by blast
    next
      case (Some e)
      then obtain st msg y where "stop t st msg y now d = (d', r)" "job_terminal st" "st \<noteq> Succeeded"
        using step Seen by (auto simp: thread_step_def seen_step_def split: if_splits)
      then show ?thesis using stop_ends [OF ok wf refl refl] by fastforce
    qed
  next
    case (Observe i)
    have hs: "observe_step h i (plan_steps (th_plan t) ! i) t now w d = (d', r)"
      using step Observe by (auto simp: thread_step_def)
    show ?thesis
    proof (cases "h_reconcile h w d (tid t) (th_plan t) (th_input t) (plan_steps (th_plan t) ! i) = Inr True")
      case True
      then have "r = Some (t\<lparr>th_pc := Head (Suc i)\<rparr>)" using hs by (simp add: observe_step_def)
      moreover have "confirmed h w d t i" using True unfolding confirmed_def .
      ultimately show ?thesis using Observe pc by (auto simp: goes_on_def moves_left_def pc_ok_def)
    next
      case False
      then obtain msg e where "stop t Recovery_required msg e now d = (d', r)"
        using hs by (auto simp: observe_step_def split: sum.splits bool.splits)
      then show ?thesis using stop_ends [OF ok wf refl refl] by fastforce
    qed
  qed
qed

section \<open>Executions\<close>

text \<open>
  An execution is an infinite sequence of states of the coordinator (a state in which nothing happens
  may repeat, since the world outside may change to itself). The rule \<open>dying\<close> of \<open>sys_step\<close> stands for
  each return of \<^verbatim>\<open>run\<close> on a failed read or write of the journal, the ignored failures of its
  final writes included.
\<close>

definition live :: "string \<Rightarrow> 'w sys \<Rightarrow> bool" where
  "live i s \<longleftrightarrow> i \<in> set (map tid (sy_threads s))"

definition moving_to :: "'w handlers \<Rightarrow> 'w sys \<Rightarrow> thread list \<Rightarrow> thread \<Rightarrow> thread list \<Rightarrow> 'w sys \<Rightarrow> bool" where
  "moving_to hs s ts1 u ts2 t \<longleftrightarrow> sy_threads s = ts1 @ u # ts2 \<and> (under_mutex u \<longrightarrow> sy_pending s = None) \<and>
     (\<exists>h now w' d' r. hs (plan_operation (th_plan u)) = Some h \<and> thread_step h u now (sy_world s) (sy_db s) = (w', d', r) \<and>
       t = s\<lparr>sy_db := d', sy_threads := ts1 @ thread_list r @ ts2, sy_world := w'\<rparr>)"

text \<open>A step of the coordinator that is a move of the goroutine of the job \<open>i\<close>.\<close>

definition job_moves :: "'w handlers \<Rightarrow> string \<Rightarrow> 'w sys \<Rightarrow> 'w sys \<Rightarrow> bool" where
  "job_moves hs i s t \<longleftrightarrow> (\<exists>ts1 u ts2. tid u = i \<and> moving_to hs s ts1 u ts2 t)"

definition execution :: "env \<Rightarrow> 'w handlers \<Rightarrow> (nat \<Rightarrow> 'w sys) \<Rightarrow> bool" where
  "execution env hs \<sigma> \<longleftrightarrow> reachable env hs (\<sigma> 0) \<and> (\<forall>n. sys_step env hs (\<sigma> n) (\<sigma> (Suc n)))"

text \<open>The goroutine is scheduled again and again for as long as it is there.\<close>

definition scheduled :: "'w handlers \<Rightarrow> string \<Rightarrow> (nat \<Rightarrow> 'w sys) \<Rightarrow> bool" where
  "scheduled hs i \<sigma> \<longleftrightarrow> (\<forall>n. \<exists>m \<ge> n. live i (\<sigma> m) \<longrightarrow> job_moves hs i (\<sigma> m) (\<sigma> (Suc m)))"

text \<open>What a goroutine leaves that did not end by a move of its own.\<close>

definition abandoned :: "db \<Rightarrow> string \<Rightarrow> plan \<Rightarrow> bool" where
  "abandoned d i p \<longleftrightarrow> (\<exists>row. job_of d i = Some row \<and> (active (job_state row) \<or> job_state row = Recovery_required)) \<and>
     (\<forall>r \<in> set (plan_resources p). lock_of d r = Some i)"

lemma execution_inv: "execution env hs \<sigma> \<Longrightarrow> sys_inv (\<sigma> n)"
proof -
  assume e: "execution env hs \<sigma>"
  have "reachable env hs (\<sigma> n)" by (induction n) (use e in \<open>auto simp: execution_def intro: later\<close>)
  then show ?thesis by (rule reachable_inv)
qed

lemma live_iff: "live i s \<longleftrightarrow> (\<exists>u \<in> set (sy_threads s). tid u = i)"
  by (auto simp: live_def)

text \<open>A step of the coordinator, seen from one goroutine.\<close>

lemma moving_other:
  assumes "sy_threads s = ts1 @ v # ts2" and "u \<in> set (sy_threads s)" and "\<not> job_moves hs (tid u) s t"
    and "(under_mutex v \<longrightarrow> sy_pending s = None)" and "hs (plan_operation (th_plan v)) = Some h"
    and "thread_step h v now (sy_world s) (sy_db s) = (w', d', r)"
    and "t = s\<lparr>sy_db := d', sy_threads := ts1 @ thread_list r @ ts2, sy_world := w'\<rparr>"
  shows "u \<in> set (sy_threads t)"
proof -
  have "moving_to hs s ts1 v ts2 t" using assms unfolding moving_to_def by blast
  then have "tid v \<noteq> tid u" using assms(3) unfolding job_moves_def by blast
  then show ?thesis using assms(1,2,7) by auto
qed

lemma restart_abandons:
  assumes inv: "sys_inv s" and u: "u \<in> set (sy_threads s)" and rc: "recover now (sy_db s) = (None, d')"
  shows "abandoned d' (tid u) (th_plan u)"
proof (rule recover_effects [OF inv_wf [OF inv], of now])
  fix e assume e: "recover now (sy_db s) = (None, e)" "lock_of e = lock_of (sy_db s)"
    "\<And>i. job_of e i = map_option interrupted (job_of (sy_db s) i)"
  obtain row where row: "job_of (sy_db s) (tid u) = Some row" "active (job_state row)"
    using inv_thread [OF inv u] by (rule thread_okD)
  have "job_state (interrupted row) = Recovery_required" using row(2) by (simp add: active_not_terminal)
  then show ?thesis using e rc row(1) inv_thread [OF inv u] by (auto simp: abandoned_def thread_ok_def)
qed

lemma death_abandons:
  assumes inv: "sys_inv s" and u: "u \<in> set (sy_threads s)"
  shows "abandoned (sy_db s) (tid u) (th_plan u)"
  using inv_thread [OF inv u] by (auto simp: abandoned_def thread_ok_def)

lemma step_seen_by:
  assumes inv: "sys_inv s" and step: "sys_step env hs s t" and u: "u \<in> set (sy_threads s)"
    and own: "\<not> job_moves hs (tid u) s t"
  shows "u \<in> set (sy_threads t) \<or> \<not> live (tid u) t \<and> abandoned (sy_db t) (tid u) (th_plan u)"
  using step
proof cases
  case (moving ts1 v ts2 h now w' d' r)
  then show ?thesis using moving_other [OF moving(2) u own] by blast
next
  case (moving_free ts1 v ts2 h now w' d' r)
  then show ?thesis using moving_other [OF moving_free(2) u own] by blast
next
  case (dying ts1 v ts2)
  have "distinct (map tid (ts1 @ v # ts2))" using inv_distinct [OF inv] dying(2) by simp
  then have "u = v \<Longrightarrow> \<not> live (tid u) t" using dying(1) by (auto simp: live_def)
  then show ?thesis using death_abandons [OF inv u] u dying by auto
next
  case restarting
  then show ?thesis using restart_abandons [OF inv u] by (simp add: live_def)
qed (use u in simp_all)

lemma own_move:
  assumes inv: "sys_inv s" and u: "u \<in> set (sy_threads s)" and mv: "job_moves hs (tid u) s t"
  obtains (ended) h st where "hs (plan_operation (th_plan u)) = Some h" and "\<not> live (tid u) t" and "ends_in u st (sy_db t)"
  | (going) h u' where "hs (plan_operation (th_plan u)) = Some h" and "u' \<in> set (sy_threads t)"
      and "goes_on h (sy_world s) (sy_db s) u u'"
proof -
  obtain ts1 v ts2 where v: "tid v = tid u" and mt: "moving_to hs s ts1 v ts2 t" using mv unfolding job_moves_def by blast
  then obtain h now w' d' r where split: "sy_threads s = ts1 @ v # ts2" and h: "hs (plan_operation (th_plan v)) = Some h"
    and ts: "thread_step h v now (sy_world s) (sy_db s) = (w', d', r)"
    and t: "t = s\<lparr>sy_db := d', sy_threads := ts1 @ thread_list r @ ts2, sy_world := w'\<rparr>"
    unfolding moving_to_def by blast
  have dist: "distinct (map tid (ts1 @ v # ts2))" using inv_distinct [OF inv] split by simp
  have "u = v" using u v dist unfolding split by (auto simp: rev_image_eqI)
  note h = h [folded this] and ts = ts [folded this] and dist = dist [folded this]
  have ok: "thread_ok (sy_db s) u" "wf_db (sy_db s)" using inv_thread [OF inv u] inv_wf [OF inv] by simp_all
  from thread_step_measure [OF ok ts] show thesis
  proof (elim disjE exE conjE)
    fix u' assume "r = Some u'" "goes_on h (sy_world s) (sy_db s) u u'"
    then show thesis using going [OF h, of u'] by (simp add: t thread_list_def)
  next
    fix st assume "r = None" "ends_in u st d'"
    then show thesis using ended [OF h] dist by (simp add: t thread_list_def live_def)
  qed
qed

text \<open>
  What is known of the goroutine while it is there: the moves it has made and those it has left, and
  every step behind it was confirmed in an earlier state.
\<close>

definition own_moves :: "'w handlers \<Rightarrow> string \<Rightarrow> (nat \<Rightarrow> 'w sys) \<Rightarrow> nat \<Rightarrow> nat" where
  "own_moves hs i \<sigma> n = card {k. k < n \<and> job_moves hs i (\<sigma> k) (\<sigma> (Suc k))}"

lemma own_moves_simps [simp]: "own_moves hs i \<sigma> 0 = 0"
  "own_moves hs i \<sigma> (Suc n) = own_moves hs i \<sigma> n + (if job_moves hs i (\<sigma> n) (\<sigma> (Suc n)) then 1 else 0)"
proof -
  let ?M = "\<lambda>n. {k. k < n \<and> job_moves hs i (\<sigma> k) (\<sigma> (Suc k))}"
  have "?M (Suc n) = (if job_moves hs i (\<sigma> n) (\<sigma> (Suc n)) then insert n (?M n) else ?M n)" by (auto simp: less_Suc_eq)
  then show "own_moves hs i \<sigma> (Suc n) = own_moves hs i \<sigma> n + (if job_moves hs i (\<sigma> n) (\<sigma> (Suc n)) then 1 else 0)"
    by (simp add: own_moves_def)
qed (simp add: own_moves_def)

definition proved_before :: "'w handlers \<Rightarrow> thread \<Rightarrow> (nat \<Rightarrow> 'w sys) \<Rightarrow> nat \<Rightarrow> nat \<Rightarrow> bool" where
  "proved_before hs u \<sigma> n q \<longleftrightarrow> (\<exists>k < n. \<exists>h. hs (plan_operation (th_plan u)) = Some h \<and> job_moves hs (tid u) (\<sigma> k) (\<sigma> (Suc k)) \<and>
     confirmed h (sy_world (\<sigma> k)) (sy_db (\<sigma> k)) u q)"

definition on_course :: "'w handlers \<Rightarrow> thread \<Rightarrow> (nat \<Rightarrow> 'w sys) \<Rightarrow> nat \<Rightarrow> thread \<Rightarrow> bool" where
  "on_course hs u0 \<sigma> n u \<longleftrightarrow> u \<in> set (sy_threads (\<sigma> n)) \<and> tid u = tid u0 \<and> th_plan u = th_plan u0 \<and> th_input u = th_input u0 \<and>
     own_moves hs (tid u0) \<sigma> n + moves_left u \<le> moves_left u0 \<and> (\<forall>q < at_step (th_pc u). proved_before hs u0 \<sigma> n q)"

lemma proved_before_Suc: "proved_before hs u \<sigma> n q \<Longrightarrow> proved_before hs u \<sigma> (Suc n) q"
  unfolding proved_before_def by (blast intro: less_SucI)

lemma on_course_Suc:
  assumes e: "execution env hs \<sigma>" and c: "on_course hs u0 \<sigma> n u" and l: "live (tid u0) (\<sigma> (Suc n))"
  shows "\<exists>u'. on_course hs u0 \<sigma> (Suc n) u'"
proof -
  have inv: "sys_inv (\<sigma> n)" "sys_inv (\<sigma> (Suc n))" using execution_inv [OF e] by blast+
  have step: "sys_step env hs (\<sigma> n) (\<sigma> (Suc n))" using e by (simp add: execution_def)
  have u: "u \<in> set (sy_threads (\<sigma> n))" "tid u = tid u0" "th_plan u = th_plan u0" "th_input u = th_input u0"
    using c by (simp_all add: on_course_def)
  show ?thesis
  proof (cases "job_moves hs (tid u) (\<sigma> n) (\<sigma> (Suc n))")
    case True
    from inv(1) u(1) True show ?thesis
    proof (cases rule: own_move)
      case ended
      then show ?thesis using l u(2) by simp
    next
      case (going h u')
      have now: "proved_before hs u0 \<sigma> (Suc n) q" if "confirmed h (sy_world (\<sigma> n)) (sy_db (\<sigma> n)) u q" for q
        unfolding proved_before_def using that going(1) True u by (intro exI [of _ n] conjI exI [of _ h]) (simp_all add: confirmed_def)
      have "proved_before hs u0 \<sigma> (Suc n) q" if "q < at_step (th_pc u')" for q
        using that going(3) now c by (cases "q < at_step (th_pc u)") (auto simp: goes_on_def on_course_def less_Suc_eq intro: proved_before_Suc)
      then show ?thesis using going(2,3) c u True
        by (intro exI [of _ u']) (auto simp: on_course_def goes_on_def)
    qed
  next
    case False
    have "u \<in> set (sy_threads (\<sigma> (Suc n)))"
      using step_seen_by [OF inv(1) step u(1) False] l u(2) by simp
    then show ?thesis using c u False by (intro exI [of _ u]) (auto simp: on_course_def intro: proved_before_Suc)
  qed
qed

lemma on_course_live:
  assumes e: "execution env hs \<sigma>" and u0: "u0 \<in> set (sy_threads (\<sigma> 0))" "at_step (th_pc u0) = 0"
    and "\<forall>k \<le> n. live (tid u0) (\<sigma> k)"
  shows "\<exists>u. on_course hs u0 \<sigma> n u"
  using assms(4)
proof (induction n)
  case 0
  then show ?case using u0 by (intro exI [of _ u0]) (simp add: on_course_def)
next
  case (Suc n)
  then obtain u where "on_course hs u0 \<sigma> n u" by (meson le_SucI)
  then show ?case using on_course_Suc [OF e] Suc.prems by blast
qed

text \<open>A goroutine that is scheduled again and again comes to an end: its moves run out.\<close>

lemma own_moves_mono: "m \<le> n \<Longrightarrow> own_moves hs i \<sigma> m \<le> own_moves hs i \<sigma> n"
  by (induction rule: dec_induct) simp_all

lemma scheduled_moves:
  assumes "scheduled hs i \<sigma>" and "\<And>n. live i (\<sigma> n)"
  shows "\<exists>n. c \<le> own_moves hs i \<sigma> n"
proof (induction c)
  case (Suc c)
  then obtain n where n: "c \<le> own_moves hs i \<sigma> n" by blast
  obtain m where m: "n \<le> m" "job_moves hs i (\<sigma> m) (\<sigma> (Suc m))" using assms unfolding scheduled_def by blast
  then have "Suc c \<le> own_moves hs i \<sigma> (Suc m)" using n own_moves_mono [OF m(1), of hs i \<sigma>] by simp
  then show ?case by blast
qed simp

lemma goroutine_gone:
  assumes e: "execution env hs \<sigma>" and s: "scheduled hs (tid u0) \<sigma>"
    and u0: "u0 \<in> set (sy_threads (\<sigma> 0))" "at_step (th_pc u0) = 0"
  obtains m where "\<forall>n \<le> m. live (tid u0) (\<sigma> n)" and "\<not> live (tid u0) (\<sigma> (Suc m))"
proof -
  have "\<exists>n. \<not> live (tid u0) (\<sigma> n)"
  proof (rule ccontr)
    assume "\<nexists>n. \<not> live (tid u0) (\<sigma> n)"
    then have l: "\<And>n. live (tid u0) (\<sigma> n)" by blast
    obtain n where n: "Suc (moves_left u0) \<le> own_moves hs (tid u0) \<sigma> n" using scheduled_moves [OF s l] by blast
    obtain u where "on_course hs u0 \<sigma> n u" using on_course_live [OF e u0] l by blast
    then show False using n by (simp add: on_course_def)
  qed
  then have "\<not> live (tid u0) (\<sigma> (LEAST n. \<not> live (tid u0) (\<sigma> n)))" by (rule LeastI_ex)
  moreover have "\<forall>k < (LEAST n. \<not> live (tid u0) (\<sigma> n)). live (tid u0) (\<sigma> k)" using not_less_Least by blast
  moreover have "live (tid u0) (\<sigma> 0)" using u0 by (auto simp: live_iff)
  ultimately show thesis by (metis that less_Suc_eq_le not0_implies_Suc)
qed

lemma last_state:
  assumes e: "execution env hs \<sigma>" and u0: "u0 \<in> set (sy_threads (\<sigma> 0))" "at_step (th_pc u0) = 0"
    and m: "\<forall>n \<le> m. live (tid u0) (\<sigma> n)" "\<not> live (tid u0) (\<sigma> (Suc m))"
  shows "own_moves hs (tid u0) \<sigma> (Suc m) \<le> moves_left u0" and
    "if job_moves hs (tid u0) (\<sigma> m) (\<sigma> (Suc m))
     then \<exists>row h. job_of (sy_db (\<sigma> (Suc m))) (tid u0) = Some row \<and> job_terminal (job_state row) \<and> hs (plan_operation (th_plan u0)) = Some h \<and>
       (job_state row = Succeeded \<longrightarrow> (\<forall>q < length (plan_steps (th_plan u0)). proved_before hs u0 \<sigma> m q))
     else abandoned (sy_db (\<sigma> (Suc m))) (tid u0) (th_plan u0)"
proof -
  obtain u where c: "on_course hs u0 \<sigma> m u" using on_course_live [OF e u0 m(1)] by blast
  have inv: "sys_inv (\<sigma> m)" by (rule execution_inv [OF e])
  have u: "u \<in> set (sy_threads (\<sigma> m))" "tid u = tid u0" "th_plan u = th_plan u0"
    "own_moves hs (tid u0) \<sigma> m + moves_left u \<le> moves_left u0" "\<forall>q < at_step (th_pc u). proved_before hs u0 \<sigma> m q"
    using c by (simp_all add: on_course_def)
  have "0 < moves_left u" using inv_thread [OF inv u(1)]
    by (auto simp: thread_ok_def pc_ok_def moves_left_def Let_def split: pc.splits)
  then show "own_moves hs (tid u0) \<sigma> (Suc m) \<le> moves_left u0" using u(4) by simp
  show "if job_moves hs (tid u0) (\<sigma> m) (\<sigma> (Suc m))
     then \<exists>row h. job_of (sy_db (\<sigma> (Suc m))) (tid u0) = Some row \<and> job_terminal (job_state row) \<and> hs (plan_operation (th_plan u0)) = Some h \<and>
       (job_state row = Succeeded \<longrightarrow> (\<forall>q < length (plan_steps (th_plan u0)). proved_before hs u0 \<sigma> m q))
     else abandoned (sy_db (\<sigma> (Suc m))) (tid u0) (th_plan u0)"
  proof (cases "job_moves hs (tid u0) (\<sigma> m) (\<sigma> (Suc m))")
    case True
    from inv u(1) True [folded u(2)] show ?thesis
    proof (cases rule: own_move)
      case (ended h st)
      then show ?thesis using True u(2,3,5) by (auto simp: ends_in_def)
    next
      case (going h u')
      then show ?thesis using m(2) u(2) by (auto simp: live_iff goes_on_def)
    qed
  next
    case False
    have "sys_step env hs (\<sigma> m) (\<sigma> (Suc m))" using e by (simp add: execution_def)
    from step_seen_by [OF inv this u(1)] False u(2,3) m(2) show ?thesis by (auto simp: live_iff)
  qed
qed

end
