(* ===== verification/Engine_Demo.thy ===== *)
theory Engine_Demo
  imports Engine_Run
begin

text \<open>
  A coordinator on a small concrete platform: one kind of operation whose handler appends
  the action of each step to the list that is its world and observes it there, and a
  coarse rendering of JSON in place of the canonicaliser. Reachable states of it are the concrete
  inputs at which the general theorems are exercised, and the place where a behaviour of
  the engine is exhibited.
\<close>

section \<open>The platform\<close>

definition demo_env :: env where
  "demo_env = \<lparr>env_canon = \<lambda>v. Inr (case v of JNull \<Rightarrow> ''null'' | _ \<Rightarrow> ''object''), env_canon_raw = Inr,
     env_unmarshal = \<lambda>b. if b = ''null'' then Inr JNull else Inl (Plain ''invalid JSON''),
     env_sha256 = \<lambda>b. b, env_rfc3339 = \<lambda>_. ''t''\<rparr>"

definition demo_handler :: "string list handler" where
  "demo_handler = \<lparr>h_validate = \<lambda>w d i p b. None,
     h_execute = \<lambda>w d i p b s. (w @ [step_action s], None),
     h_reconcile = \<lambda>w d i p b s. Inr (step_action s \<in> set w),
     h_retain = None, h_review = None, h_estimate = None, h_recovery = None\<rparr>"

definition demo_hs :: "string list handlers" where
  "demo_hs op = (if op = ''demo'' then Some demo_handler else None)"

definition demo_step :: "string \<Rightarrow> step" where
  "demo_step a = \<lparr>step_id = a, step_action = a, step_preconditions = [], step_idempotency = [],
     step_compensation = [], step_reconciliation = [], step_completion = a\<rparr>"

section \<open>Driving the coordinator\<close>

definition do_plan :: "string \<Rightarrow> string list \<Rightarrow> string list \<Rightarrow> string list sys \<Rightarrow> string list sys" where
  "do_plan i rs acts s = s\<lparr>sy_db := snd (make_plan demo_env demo_hs (sy_world s) i 0 7 ''c'' ''demo'' rs [] JNull
     (map demo_step acts) [] [] (sy_db s))\<rparr>"

definition plan_ready :: "string \<Rightarrow> string list \<Rightarrow> string list \<Rightarrow> string list sys \<Rightarrow> bool" where
  "plan_ready i rs acts s = (case make_plan demo_env demo_hs (sy_world s) i 0 7 ''c'' ''demo'' rs [] JNull
     (map demo_step acts) [] [] (sy_db s) of (Inr _, _) \<Rightarrow> True | _ \<Rightarrow> False)"

definition demo_request :: "string \<Rightarrow> string \<Rightarrow> string list sys \<Rightarrow> apply_request" where
  "demo_request p k s = \<lparr>ar_plan = p, ar_digest = (case get_plan p (sy_db s) of Inr (q, _) \<Rightarrow> plan_digest q | _ \<Rightarrow> []),
     ar_key = k, ar_acks = None\<rparr>"

definition do_apply :: "string \<Rightarrow> string \<Rightarrow> string \<Rightarrow> string list sys \<Rightarrow> string list sys" where
  "do_apply i p k s = (case apply_plan demo_env demo_hs (sy_world s) i 1 7 (demo_request p k s) (sy_db s) of
      (Accepted j q b, d') \<Rightarrow> s\<lparr>sy_db := d', sy_threads := new_thread j q b # sy_threads s\<rparr>
    | _ \<Rightarrow> s)"

definition apply_ready :: "string \<Rightarrow> string \<Rightarrow> string \<Rightarrow> string list sys \<Rightarrow> bool" where
  "apply_ready i p k s = (sy_pending s = None \<and>
     (case apply_plan demo_env demo_hs (sy_world s) i 1 7 (demo_request p k s) (sy_db s) of
      (Accepted j q b, d') \<Rightarrow> True | _ \<Rightarrow> False))"

text \<open>The first thread of the list moves.\<close>

definition do_move :: "string list sys \<Rightarrow> string list sys" where
  "do_move s = (case sy_threads s of [] \<Rightarrow> s
    | t # ts \<Rightarrow> (case thread_step demo_handler t 2 (sy_world s) (sy_db s) of
        (w', d', r) \<Rightarrow> s\<lparr>sy_db := d', sy_threads := thread_list r @ ts, sy_world := w'\<rparr>))"

definition move_ready :: "string list sys \<Rightarrow> bool" where
  "move_ready s = (case sy_threads s of [] \<Rightarrow> False
    | t # ts \<Rightarrow> (\<not> under_mutex t \<or> sy_pending s = None) \<and> plan_operation (th_plan t) = ''demo'')"

definition do_cancel_read :: "string \<Rightarrow> string list sys \<Rightarrow> string list sys" where
  "do_cancel_read i s = (case cancel_read i (sy_db s) of Inr j \<Rightarrow> s\<lparr>sy_pending := Some j\<rparr> | _ \<Rightarrow> s)"

definition do_cancel_write :: "string list sys \<Rightarrow> string list sys" where
  "do_cancel_write s = (case sy_pending s of None \<Rightarrow> s
    | Some j \<Rightarrow> (case cancel_write j 3 (sy_db s) of Inr d' \<Rightarrow> s\<lparr>sy_db := d', sy_pending := None\<rparr> | _ \<Rightarrow> s))"

lemma reach_plan: "reachable demo_env demo_hs s \<Longrightarrow> plan_ready i rs acts s \<Longrightarrow> reachable demo_env demo_hs (do_plan i rs acts s)"
  by (rule later) (auto simp: plan_ready_def do_plan_def split: sum.splits prod.splits intro: planning)

lemma step_plan: "plan_ready i rs acts s \<Longrightarrow> sys_step demo_env demo_hs s (do_plan i rs acts s)"
  by (auto simp: plan_ready_def do_plan_def split: sum.splits prod.splits intro: planning)

lemma step_apply: "apply_ready i p k s \<Longrightarrow> sys_step demo_env demo_hs s (do_apply i p k s)"
  by (auto simp: apply_ready_def do_apply_def split: apply_outcome.splits prod.splits intro: applying)

lemma reach_apply: "reachable demo_env demo_hs s \<Longrightarrow> apply_ready i p k s \<Longrightarrow> reachable demo_env demo_hs (do_apply i p k s)"
  by (rule later) (auto simp: apply_ready_def do_apply_def split: apply_outcome.splits prod.splits intro: applying)

lemma move_moves:
  assumes "move_ready s"
  obtains t ts where "sy_threads s = t # ts" and "moving_to demo_hs s [] t ts (do_move s)"
    and "sys_step demo_env demo_hs s (do_move s)"
proof -
  obtain t ts where t: "sy_threads s = [] @ t # ts" using assms by (cases "sy_threads s") (auto simp: move_ready_def)
  obtain w' d' r where st: "thread_step demo_handler t 2 (sy_world s) (sy_db s) = (w', d', r)" by (metis prod_cases3)
  have h: "demo_hs (plan_operation (th_plan t)) = Some demo_handler"
    using assms t by (simp add: move_ready_def demo_hs_def)
  have eq: "do_move s = s\<lparr>sy_db := d', sy_threads := [] @ thread_list r @ ts, sy_world := w'\<rparr>"
    using t st by (simp add: do_move_def)
  have "sys_step demo_env demo_hs s (s\<lparr>sy_db := d', sy_threads := [] @ thread_list r @ ts, sy_world := w'\<rparr>)"
  proof (cases "under_mutex t")
    case True
    have none: "sy_pending s = None" using assms t True by (simp add: move_ready_def)
    show ?thesis by (rule moving [where ?ts1.0 = "[]"]) (rule t True none h st)+
  next
    case False
    show ?thesis by (rule moving_free [where ?ts1.0 = "[]"]) (rule t False h st)+
  qed
  then have step: "sys_step demo_env demo_hs s (do_move s)" by (simp only: eq)
  have "under_mutex t \<longrightarrow> sy_pending s = None" using assms t by (simp add: move_ready_def)
  then have "moving_to demo_hs s [] t ts (do_move s)" unfolding moving_to_def
    using t by (intro conjI exI) (rule h st eq | assumption)+
  then show thesis using that step t by simp
qed

lemma reach_move: "reachable demo_env demo_hs s \<Longrightarrow> move_ready s \<Longrightarrow> reachable demo_env demo_hs (do_move s)"
  by (blast elim: move_moves intro: later)

lemma reach_cancel_read:
  "reachable demo_env demo_hs s \<Longrightarrow> sy_pending s = None \<Longrightarrow> reachable demo_env demo_hs (do_cancel_read i s)"
  by (auto simp: do_cancel_read_def split: sum.splits intro: later cancel_begins)

lemma reach_cancel_write: "reachable demo_env demo_hs s \<Longrightarrow> reachable demo_env demo_hs (do_cancel_write s)"
  by (auto simp: do_cancel_write_def split: sum.splits option.splits intro: later cancel_ends)

section \<open>Scenarios\<close>

definition two_planned :: "string list sys" where
  "two_planned = do_plan ''p2'' [''net'', ''vol''] [''b''] (do_plan ''p1'' [''vm''] [''a1'', ''a2''] (fresh_sys []))"

definition two_running :: "string list sys" where
  "two_running = do_apply ''j2'' ''p2'' ''k2'' (do_apply ''j1'' ''p1'' ''k1'' two_planned)"


lemmas demo_defs = do_plan_def plan_ready_def do_apply_def apply_ready_def do_move_def move_ready_def
  do_cancel_read_def do_cancel_write_def demo_request_def demo_step_def demo_hs_def demo_handler_def
  demo_env_def make_plan_def complete_plan_def draft_plan_def plan_hash_def digest_def none_or_def
  checkr_def save_plan_def row_insert_def empty_db_def fresh_sys_def apply_plan_def request_json_def
  ack_list_def dedup_def get_plan_def authorize_plan_def find_missing_def plan_ttl_def accept_def
  accept_tx_def insert_job_def insert_lock_def insert_dedup_def new_thread_def thread_list_def new_job_def Let_def

lemma reach_two_planned: "reachable demo_env demo_hs two_planned"
  unfolding two_planned_def by (intro reach_plan fresh; simp add: demo_defs)

lemma reach_two_running: "reachable demo_env demo_hs two_running"
  unfolding two_running_def two_planned_def
  by (intro reach_apply reach_plan fresh; simp add: demo_defs)

lemmas run_defs = thread_step_def head_step_def check_step_def seen_step_def observe_step_def
  finish_step_def advance_def stop_def settle_def transition_def moved_def get_job_def update_def
  row_set_def insert_event_def job_event_def next_seq_def job_events_def rows_where_def releases_def
  drop_locks_def job_terminal_def under_mutex_def intent_message_def cancel_read_def cancel_write_def

text \<open>A job with one step, driven to the point where only its final transition is left.\<close>

definition one_planned :: "string list sys" where
  "one_planned = do_plan ''p'' [''vm''] [''a''] (fresh_sys [])"

definition one_running :: "string list sys" where
  "one_running = do_apply ''j'' ''p'' ''k'' one_planned"

definition one_verified :: "string list sys" where
  "one_verified = do_move (do_move (do_move (do_move (do_move (do_move one_running)))))"

definition one_raced :: "string list sys" where
  "one_raced = do_cancel_write (do_move (do_cancel_read ''j'' one_verified))"

lemma reach_one_planned: "reachable demo_env demo_hs one_planned"
  unfolding one_planned_def by (intro reach_plan fresh; simp add: demo_defs)

lemma one_applied:
  "\<exists>j q b d'. apply_plan demo_env demo_hs [] ''j'' 1 7 (demo_request ''p'' ''k'' one_planned) (sy_db one_planned) =
     (Accepted j q b, d') \<and> sy_pending one_planned = None"
  by (simp add: one_planned_def demo_defs)

lemma calm_one_running: "reachable_calm demo_env demo_hs one_running"
  unfolding one_running_def one_planned_def
  by (rule later_calm, rule later_calm, rule fresh_calm, rule step_plan; (rule step_apply)?;
      simp add: demo_defs undisturbed_def)

lemma reach_one_running: "reachable demo_env demo_hs one_running"
  unfolding one_running_def one_planned_def by (intro reach_apply reach_plan fresh; simp add: demo_defs)

lemmas demo_eval = one_planned_def one_running_def two_running_def two_planned_def demo_defs run_defs

lemma reach_one_verified: "reachable demo_env demo_hs one_verified"
  unfolding one_verified_def
  by (intro reach_move reach_one_running; simp add: demo_eval)

lemma reach_one_raced: "reachable demo_env demo_hs one_raced"
  unfolding one_raced_def
  by (intro reach_cancel_write reach_move reach_cancel_read reach_one_verified; simp add: one_verified_def demo_eval)

text \<open>The first effect of a two-step job, reached beside another job that has not started.\<close>

definition two_effect :: "string list sys" where
  "two_effect = do_move (do_move (do_move two_running))"

lemma reach_two_effect: "reachable demo_env demo_hs two_effect"
  unfolding two_effect_def
  by (intro reach_move reach_two_running; simp add: demo_eval)

lemma two_effect_threads:
  "\<exists>t u. sy_threads two_effect = [t, u] \<and> th_pc t = Exec 0 \<and>
     plan_resources (th_plan t) = [''net'', ''vol''] \<and> plan_resources (th_plan u) = [''vm'']"
  by (simp add: two_effect_def demo_eval)

text \<open>The same resource handed to a second job while the first counts as unsettled.\<close>

definition one_taken :: "string list sys" where
  "one_taken = do_apply ''j2'' ''p2'' ''k2'' (do_plan ''p2'' [''vm''] [''b''] one_raced)"

lemma reach_one_taken: "reachable demo_env demo_hs one_taken"
  unfolding one_taken_def
  by (intro reach_apply reach_plan reach_one_raced; simp add: one_raced_def one_verified_def demo_eval)

definition taken_shape :: "'w sys \<Rightarrow> bool" where
  "taken_shape s \<longleftrightarrow>
     (\<exists>j k. map_of (db_jobs (sy_db s)) ''j'' = Some j \<and> job_state j = Verifying \<and> job_cancel j \<and> job_plan j = ''p'' \<and>
       map_of (db_jobs (sy_db s)) ''j2'' = Some k \<and> job_state k = Queued \<and> map tid (sy_threads s) = [''j2'']) \<and>
     (\<exists>p b. get_plan ''p'' (sy_db s) = Inr (p, b) \<and> plan_resources p = [''vm'']) \<and>
     (\<exists>e. map_of (db_events (sy_db s)) (''j'', 4) = Some e \<and> ev_phase e = Succeeded) \<and>
     db_locks (sy_db s) = [(''vm'', ''j2'')]"

lemma one_taken_shape: "taken_shape one_taken"
proof -
  have "(\<lambda>s. taken_shape s) one_taken"
    apply (simp add: one_taken_def one_raced_def one_verified_def demo_eval)
    apply (simp add: taken_shape_def get_plan_def)
    done
  then show ?thesis .
qed

text \<open>An interrupted job and a second plan over its resource and one more.\<close>

definition one_interrupted :: db where
  "one_interrupted = snd (recover 9 (sy_db (do_plan ''q'' [''net'', ''vm''] [''fix''] one_running)))"

definition fix_plan :: plan where
  "fix_plan = (case get_plan ''q'' one_interrupted of Inr (p, _) \<Rightarrow> p)"

lemma wf_one_interrupted: "wf_db one_interrupted"
proof -
  have "reachable demo_env demo_hs (do_plan ''q'' [''net'', ''vm''] [''fix''] one_running)"
    by (rule reach_plan [OF reach_one_running]) (simp add: demo_eval)
  from inv_wf [OF reachable_inv [OF this]] show ?thesis
    by (rule recover_effects [where now = 9]) (simp add: one_interrupted_def)
qed

lemma fix_accepted:
  "\<exists>j d'. accept_recovery ''r'' 10 fix_plan ''kr'' ''h'' ''j'' one_interrupted = (Inr j, d') \<and>
     plan_resources fix_plan = [''net'', ''vm'']"
  by (simp add: one_interrupted_def fix_plan_def demo_eval recover_def pending_jobs_def jobs_for_recovery_def
      show_int_def accept_recovery_def accept_recovery_tx_def recovery_parent_def recoverable_def
      check_inherited_def owned_locks_def move_lock_def link_parent_def)

end
