(* ===== verification/Engine_Locks.thy ===== *)
theory Engine_Locks
  imports Engine_Demo
begin

text \<open>
  Which jobs hold their locks. While no row that a cancellation has read is written before
  the cancellation writes it back, every job whose state does not release its locks holds
  every resource of its plan, from its acceptance on and across restarts.
\<close>

definition locks_held :: "db \<Rightarrow> bool" where
  "locks_held d \<longleftrightarrow> (\<forall>i row r. job_of d i = Some row \<longrightarrow> \<not> releases (job_state row) \<longrightarrow> r \<in> needs d i \<longrightarrow>
     lock_of d r = Some i)"

definition calm_inv :: "'w sys \<Rightarrow> bool" where
  "calm_inv s \<longleftrightarrow> locks_held (sy_db s) \<and> (\<forall>j. sy_pending s = Some j \<longrightarrow>
     (\<exists>row. job_of (sy_db s) (job_id j) = Some row \<and> job_state row = job_state j))"

lemma needs_plan:
  assumes "job_of d' i = Some j'" and "job_of d i = Some j" and "job_plan j' = job_plan j"
    and "plan_of d' = plan_of d"
  shows "needs d' i = needs d i"
  using assms by (simp add: needs_def)

lemma locks_held_touch:
  assumes held: "locks_held d" and wf: "wf_db d" and tch: "touch d j d'"
    and state: "\<And>old. job_of d (job_id j) = Some old \<Longrightarrow> releases (job_state old) \<Longrightarrow> releases (job_state j)"
  shows "locks_held d'"
  using tch wf
proof (rule touch_effects)
  fix old
  assume old: "job_of d (job_id j) = Some old" "job_plan j = job_plan old"
    and jobs: "job_of d' = (job_of d)(job_id j \<mapsto> merged j old)"
    and plans: "db_plans d' = db_plans d"
    and locks: "lock_of d' = (\<lambda>r. if releases (job_state j) \<and> lock_of d r = Some (job_id j) then None else lock_of d r)"
  have pl: "plan_of d' = plan_of d" by (rule plan_of_cong [OF plans])
  show ?thesis
    unfolding locks_held_def
  proof (intro allI impI)
    fix i row r
    assume row: "job_of d' i = Some row" and nr: "\<not> releases (job_state row)" and r: "r \<in> needs d' i"
    obtain row0 where row0: "job_of d i = Some row0" "job_plan row = job_plan row0" "\<not> releases (job_state row0)"
    proof (cases "i = job_id j")
      case True
      have "\<not> releases (job_state old)" using row nr state [OF old(1)] True by (auto simp: jobs)
      then show thesis using row old True by (intro that [of old]) (auto simp: jobs)
    next
      case False
      then show thesis using that row nr by (simp add: jobs)
    qed
    have "r \<in> needs d i" using r needs_plan [OF row row0(1,2) pl] by simp
    then have "lock_of d r = Some i" using held row0 by (simp add: locks_held_def)
    moreover have "\<not> (releases (job_state j) \<and> i = job_id j)" using row nr by (auto simp: jobs)
    ultimately show "lock_of d' r = Some i" by (auto simp: locks)
  qed
qed


lemma locks_held_good_move:
  assumes "locks_held d" and "wf_db d" and "thread_ok d t" and "good_move d t d' r"
  shows "locks_held d'"
proof -
  obtain row where row: "job_of d (tid t) = Some row" "active (job_state row)" using assms(3) by (auto simp: thread_ok_def)
  have "d' = d \<or> (\<exists>j. job_id j = tid t \<and> touch d j d')" using assms(4) by (auto simp: good_move_def)
  then show ?thesis
  proof
    assume "\<exists>j. job_id j = tid t \<and> touch d j d'"
    then obtain j where j: "job_id j = tid t" "touch d j d'" by blast
    show ?thesis
      by (rule locks_held_touch [OF assms(1,2) j(2)]) (use row j(1) active_not_releases in auto)
  qed (use assms(1) in simp)
qed

lemma locks_held_save_plan:
  assumes held: "locks_held d" and wf: "wf_db d" and sv: "save_plan p b d = Inr d'"
  shows "locks_held d'"
proof -
  note eff = save_plan_effects [OF sv]
  have new: "plan_of d (plan_id p) = None" using eff(2) by (simp add: plan_of_def)
  have "needs d' i = needs d i" for i
  proof (cases "job_of d i")
    case (Some j)
    obtain q where "plan_of d (job_plan j) = Some q" using wf_job_plan [OF wf Some] by blast
    then show ?thesis using new Some by (auto simp: needs_def eff(4,5))
  qed (simp add: needs_def eff(5))
  then show ?thesis using held by (simp add: locks_held_def eff(5,6))
qed

lemma locks_held_accept:
  assumes held: "locks_held d" and wf: "wf_db d" and p: "plan_of d (plan_id p) = Some p"
    and acc: "accept i now p key rh d = (Inr j, d')"
  shows "locks_held d'"
proof -
  note eff = accept_effects [OF acc wf_primary(4) [OF wf]]
  have pl: "plan_of d' = plan_of d" by (rule plan_of_cong [OF eff(10)])
  show ?thesis
    unfolding locks_held_def
  proof (intro allI impI)
    fix k row r
    assume row: "job_of d' k = Some row" "\<not> releases (job_state row)" and r: "r \<in> needs d' k"
    show "lock_of d' r = Some k"
    proof (cases "k = i")
      case True
      then have "r \<in> set (plan_resources p)" using r p by (simp add: needs_def eff(7) pl) (simp add: eff(1) p)
      then show ?thesis by (simp add: eff(8) True)
    next
      case False
      then have k: "job_of d k = Some row" using row by (simp add: eff(7))
      then have "r \<in> needs d k" using r needs_plan [OF row(1) k refl pl] by simp
      then have "lock_of d r = Some k" using held k row(2) by (simp add: locks_held_def)
      then show ?thesis using eff(6) by (auto simp: eff(8))
    qed
  qed
qed

lemma locks_held_accept_recovery:
  assumes held: "locks_held d" and wf: "wf_db d" and p: "plan_of d (plan_id p) = Some p"
    and acc: "accept_recovery i now p key rh par d = (Inr j, d')"
  shows "locks_held d'"
  using acc wf
proof (rule accept_recovery_effects)
  fix parent
  assume j: "j = new_job i now p par" and par: "job_of d par = Some parent" and i: "job_of d i = None"
    and free: "\<forall>r \<in> set (plan_resources p). lock_of d r = Some par \<or> lock_of d r = None"
    and jobs: "job_of d' = (job_of d)(i \<mapsto> j, par \<mapsto> superseded parent i)"
    and locks: "lock_of d' = (\<lambda>r. if r \<in> set (plan_resources p) then Some i else lock_of d r)"
    and plans: "db_plans d' = db_plans d"
  have pl: "plan_of d' = plan_of d" by (rule plan_of_cong [OF plans])
  have ne: "par \<noteq> i" using par i by auto
  show ?thesis
    unfolding locks_held_def
  proof (intro allI impI)
    fix k row r
    assume row: "job_of d' k = Some row" "\<not> releases (job_state row)" and r: "r \<in> needs d' k"
    have np: "k \<noteq> par" using row by (auto simp: jobs)
    show "lock_of d' r = Some k"
    proof (cases "k = i")
      case True
      then have "r \<in> set (plan_resources p)" using r ne by (simp add: needs_def jobs pl j p)
      then show ?thesis by (simp add: locks True)
    next
      case False
      then have k: "job_of d k = Some row" using row np by (simp add: jobs)
      then have "r \<in> needs d k" using r needs_plan [OF row(1) k refl pl] by simp
      then have "lock_of d r = Some k" using held k row(2) by (simp add: locks_held_def)
      then show ?thesis using free np by (auto simp: locks)
    qed
  qed
qed

lemma locks_held_recover:
  assumes held: "locks_held d" and wf: "wf_db d" and rc: "recover now d = (x, d')"
  shows "locks_held d'"
proof (rule recover_effects [OF wf, of now])
  fix e
  assume e: "recover now d = (None, e)" "lock_of e = lock_of d" "db_plans e = db_plans d"
    "\<And>i. job_of e i = map_option interrupted (job_of d i)"
  have eq: "d' = e" using rc e(1) by simp
  have pl: "plan_of d' = plan_of d" unfolding eq by (rule plan_of_cong [OF e(3)])
  show ?thesis
    unfolding locks_held_def
  proof (intro allI impI)
    fix k row r
    assume row: "job_of d' k = Some row" "\<not> releases (job_state row)" and r: "r \<in> needs d' k"
    obtain row0 where row0: "job_of d k = Some row0" "row = interrupted row0" using row(1) by (auto simp: eq e(4))
    have "\<not> releases (job_state row0)" using row(2) row0(2) by (auto simp: releases_def split: if_splits)
    moreover have "r \<in> needs d k" using r needs_plan [OF row(1) row0(1) _ pl] row0(2) by simp
    ultimately show "lock_of d' r = Some k" using held row0(1) by (simp add: locks_held_def eq e(2))
  qed
qed

lemma calm_invD:
  assumes "calm_inv s"
  shows calm_held: "locks_held (sy_db s)"
    and calm_pending: "sy_pending s = Some j \<Longrightarrow>
      \<exists>row. job_of (sy_db s) (job_id j) = Some row \<and> job_state row = job_state j"
  using assms by (simp_all add: calm_inv_def)

lemma locks_held_step:
  assumes inv: "sys_inv s" and calm: "calm_inv s" and step: "sys_step env hs s t"
  shows "locks_held (sy_db t)"
  using step
proof cases
  case planning
  then show ?thesis
    using locks_held_save_plan [OF calm_held [OF calm] inv_wf [OF inv]] by (auto dest!: make_plan_saves)
next
  case (applying w i now uid r j p input d')
  have "plan_of (sy_db s) (ar_plan r) = Some p"
    using apply_accepted(1) [OF applying(3)] by (auto simp: get_plan_def plan_of_def split: option.splits)
  then have p: "plan_of (sy_db s) (plan_id p) = Some p" using wf_plan_id [OF inv_wf [OF inv]] by metis
  have "locks_held d'"
    using apply_accepted(3) [OF applying(3)] locks_held_accept [OF calm_held [OF calm] inv_wf [OF inv] p]
      locks_held_accept_recovery [OF calm_held [OF calm] inv_wf [OF inv] p] by blast
  then show ?thesis by (simp add: applying)
next
  case (moving ts1 u ts2 h now w' d' r)
  have ok: "thread_ok (sy_db s) u" by (rule inv_thread [OF inv]) (simp add: moving)
  show ?thesis
    using locks_held_good_move [OF calm_held [OF calm] inv_wf [OF inv] ok thread_step_good [OF ok inv_wf [OF inv] moving(6)]]
    by (simp add: moving)
next
  case (moving_free ts1 u ts2 h now w' d' r)
  have ok: "thread_ok (sy_db s) u" by (rule inv_thread [OF inv]) (simp add: moving_free)
  show ?thesis
    using locks_held_good_move [OF calm_held [OF calm] inv_wf [OF inv] ok thread_step_good [OF ok inv_wf [OF inv] moving_free(5)]]
    by (simp add: moving_free)
next
  case (cancel_ends j now d')
  obtain row where row: "job_of (sy_db s) (job_id j) = Some row" "job_plan row = job_plan j"
    using inv_pending [OF inv] cancel_ends by (auto simp: pending_ok_def)
  have tch: "touch (sy_db s) j d'" using cancel_ends row by (auto simp: cancel_write_def intro!: touchI)
  have "locks_held d'"
    by (rule locks_held_touch [OF calm_held [OF calm] inv_wf [OF inv] tch])
      (use calm_pending [OF calm cancel_ends(2)] row in auto)
  then show ?thesis by (simp add: cancel_ends)
next
  case (reconciling w i now r d')
  from reconcile_effects [OF reconciling(3) inv_wf [OF inv]] have "locks_held d'"
  proof
    assume "\<exists>j. touch (sy_db s) j d' \<and> job_id j = i \<and> job_state j = Succeeded \<and>
      (\<exists>row. job_of (sy_db s) i = Some row \<and> recoverable (job_state row))"
    then obtain j where j: "touch (sy_db s) j d'" "job_state j = Succeeded" by blast
    show ?thesis by (rule locks_held_touch [OF calm_held [OF calm] inv_wf [OF inv] j(1)]) (simp add: j(2))
  qed (use calm_held [OF calm] in simp)
  then show ?thesis by (simp add: reconciling)
next
  case restarting
  then show ?thesis using locks_held_recover [OF calm_held [OF calm] inv_wf [OF inv]] by auto
next
  case (noting u i msg now d')
  obtain row where row: "job_of (sy_db s) (tid u) = Some row" "update row msg now (sy_db s) = Inr d'"
    using noting by (auto simp: progress_note_def get_job_def split: option.splits if_splits)
  have id: "job_id row = tid u" by (rule wf_job_id [OF inv_wf [OF inv] row(1)])
  have tch: "touch (sy_db s) row d'" by (rule touchI [OF row(2)]) (use row(1) id in simp_all)
  have "locks_held d'"
    by (rule locks_held_touch [OF calm_held [OF calm] inv_wf [OF inv] tch]) (use row id in simp)
  then show ?thesis by (simp add: noting)
next
  case (recording kind i prev body reviewed d')
  then have d': "d' = put kind i body (sy_db s)" by (simp add: compare_put_jobs_Inr)
  have pl: "plan_of d' = plan_of (sy_db s)" by (rule plan_of_cong) (simp add: d')
  have "needs d' k = needs (sy_db s) k" for k by (rule needs_cong) (simp_all add: pl, simp add: d')
  then show ?thesis using calm_held [OF calm] by (simp add: recording locks_held_def) (simp add: d')
qed (use calm_held [OF calm] in simp_all)

lemma calm_inv_step:
  assumes inv: "sys_inv s" and calm: "calm_inv s" and step: "sys_step env hs s t" and quiet: "undisturbed s t"
  shows "calm_inv t"
proof -
  have "\<exists>row. job_of (sy_db t) (job_id j) = Some row \<and> job_state row = job_state j"
    if j: "sy_pending t = Some j" for j
  proof (cases "sy_pending s = Some j")
    case True
    then show ?thesis using quiet calm_pending [OF calm True] j by (auto simp: undisturbed_def)
  next
    case False
    with step j obtain i where i: "cancel_read i (sy_db s) = Inr j" and t: "t = s\<lparr>sy_pending := Some j\<rparr>"
      by cases auto
    obtain row where row: "job_of (sy_db s) i = Some row" "j = row\<lparr>job_cancel := True\<rparr>"
      using i by (auto simp: cancel_read_def get_job_def split: option.splits if_splits)
    have "job_id row = i" by (rule wf_job_id [OF inv_wf [OF inv] row(1)])
    then show ?thesis using row by (auto simp: t)
  qed
  then show ?thesis using locks_held_step [OF inv calm step] by (simp add: calm_inv_def)
qed

lemma reachable_calm_inv: "reachable_calm env hs s \<Longrightarrow> calm_inv s"
proof (induction rule: reachable_calm.induct)
  case (fresh_calm w)
  show ?case by (simp add: calm_inv_def locks_held_def fresh_sys_def empty_db_def)
next
  case (later_calm s t)
  then show ?case using calm_inv_step reachable_inv calm_reachable by blast
qed

end
