(* ===== verification/Engine_Properties.thy ===== *)
theory Engine_Properties
  imports Engine_Locks
begin

text \<open>
  The promises of the coordinator: exclusion of effects, the write-ahead intent, idempotent
  application, what acceptance checks, who holds locks, the outcome of a run, the restart,
  the hand-over of a recovery, and a race of the cancellation that breaks one of them.
\<close>

section \<open>Exclusion and intent\<close>

lemma threads_disjoint:
  assumes inv: "sys_inv s" and t: "t \<in> set (sy_threads s)" and u: "u \<in> set (sy_threads s)" and ne: "tid t \<noteq> tid u"
  shows "set (plan_resources (th_plan t)) \<inter> set (plan_resources (th_plan u)) = {}"
  using inv_thread [OF inv t] inv_thread [OF inv u] ne by (fastforce simp: thread_ok_def)

text \<open>
  C1. Two goroutines of the coordinator never work on a common resource: in every reachable
  state of the interleaved system, crashes, cancellations, recoveries and lost journal
  writes included, the plans of two different live threads name disjoint resources.
\<close>

theorem effects_exclusive:
  assumes "reachable env hs s" and "m < n" and "n < length (sy_threads s)"
  shows "set (plan_resources (th_plan (sy_threads s ! m))) \<inter> set (plan_resources (th_plan (sy_threads s ! n))) = {}"
proof -
  have inv: "sys_inv s" by (rule reachable_inv [OF assms(1)])
  have "tid (sy_threads s ! m) \<noteq> tid (sy_threads s ! n)"
    using nth_eq_iff_index_eq [OF inv_distinct [OF inv], of m n] assms(2,3) by simp
  then show ?thesis using threads_disjoint [OF inv] assms(2,3) by simp
qed

theorem effects_exclusive_witness:
  "\<exists>t u. sy_threads two_effect = [t, u] \<and> th_pc t = Exec 0 \<and>
     set (plan_resources (th_plan t)) \<inter> set (plan_resources (th_plan u)) = {}"
proof -
  obtain t u where tu: "sy_threads two_effect = [t, u]" "th_pc t = Exec 0" using two_effect_threads by blast
  then show ?thesis using effects_exclusive [OF reach_two_effect, of 0 1] by simp
qed

text \<open>
  C2. Write-ahead intent: whenever a goroutine is about to call the effect of a step, the
  journal already holds an event of that job, phase \<^verbatim>\<open>running\<close>, that names the step's action,
  and the job still holds every resource of its plan.
\<close>

theorem intent_before_effect:
  assumes "reachable env hs s" and "t \<in> set (sy_threads s)" and "th_pc t = Exec i"
  shows "(\<exists>seq e. map_of (db_events (sy_db s)) (job_id (th_job t), seq) = Some e \<and> ev_phase e = Running \<and>
      ev_message e = intent_message (step_action (plan_steps (th_plan t) ! i))) \<and>
    (\<forall>r \<in> set (plan_resources (th_plan t)). map_of (db_locks (sy_db s)) r = Some (job_id (th_job t)))"
proof -
  have inv: "sys_inv s" by (rule reachable_inv [OF assms(1)])
  have ok: "thread_ok (sy_db s) t" by (rule inv_thread [OF inv assms(2)])
  then obtain k e where e: "(k, e) \<in> set (db_events (sy_db s))" "ev_operation e = tid t" "ev_phase e = Running"
    "ev_message e = intent_message (step_action (plan_steps (th_plan t) ! i))"
    using assms(3) by (auto simp: thread_ok_def intent_logged_def intent_event_def)
  have look: "map_of (db_events (sy_db s)) k = Some e"
    using wf_primary(5) [OF inv_wf [OF inv]] e(1) by (rule map_of_is_SomeI)
  have "fst k = tid t" using look e(2) inv_wf [OF inv] unfolding wf_db_def by (cases k) auto
  then show ?thesis using look e ok by (cases k) (auto simp: thread_ok_def)
qed

theorem intent_before_effect_witness:
  "\<exists>t. t \<in> set (sy_threads two_effect) \<and> th_pc t = Exec 0 \<and> plan_resources (th_plan t) = [''net'', ''vol''] \<and>
     (\<exists>seq e. map_of (db_events (sy_db two_effect)) (job_id (th_job t), seq) = Some e \<and>
        ev_message e = intent_message (step_action (plan_steps (th_plan t) ! 0)))"
proof -
  obtain t where t: "t \<in> set (sy_threads two_effect)" "th_pc t = Exec 0" "plan_resources (th_plan t) = [''net'', ''vol'']"
    using two_effect_threads by (metis list.set_intros(1))
  show ?thesis using intent_before_effect [OF reach_two_effect t(1,2)] t by blast
qed

section \<open>Applying a plan\<close>

lemma accepted_dedup:
  assumes ap: "apply_plan env hs w i now uid r d = (Accepted j p input, d')" and wf: "wf_db d"
  shows "\<exists>rh row. digest env (request_json uid r) = Inr rh \<and> map_of (db_dedup d') (ar_key r) = Some row \<and>
    dd_request row = rh \<and> dd_job row = job_id j \<and> job_id j = i"
proof -
  obtain rh where rh: "digest env (request_json uid r) = Inr rh" and acc:
    "accept i now p (ar_key r) rh d = (Inr j, d') \<or> (\<exists>par. accept_recovery i now p (ar_key r) rh par d = (Inr j, d'))"
    using apply_accepted(3) [OF ap] by blast
  from acc have "map_of (db_dedup d') (ar_key r) = Some \<lparr>dd_request = rh, dd_job = i, dd_created = now\<rparr> \<and> job_id j = i"
  proof
    assume a: "accept i now p (ar_key r) rh d = (Inr j, d')"
    note eff = accept_effects [OF a wf_primary(4) [OF wf]]
    show ?thesis unfolding eff(9) by (simp add: eff(1))
  next
    assume "\<exists>par. accept_recovery i now p (ar_key r) rh par d = (Inr j, d')"
    then obtain par where a: "accept_recovery i now p (ar_key r) rh par d = (Inr j, d')" by blast
    show ?thesis by (rule accept_recovery_effects [OF a wf]) simp
  qed
  then show ?thesis using rh by auto
qed

lemma accepted_key: "apply_plan env hs w i now uid r d = (Accepted j p input, d') \<Longrightarrow>
    ar_key r \<noteq> [] \<and> length (ar_key r) \<le> 128"
  by (auto simp: apply_plan_def split: if_splits)

text \<open>
  C3. Idempotency for good: once a request was accepted, in every state the coordinator can
  reach from there, a request under the same key changes nothing; it answers with the job
  of the first when its canonical digest is the same, and with a conflict when it is not.
\<close>

theorem replay_same_job:
  assumes "reachable env hs s" and "sy_pending s = None"
    and "apply_plan env hs w i now uid r (sy_db s) = (Accepted j p input, d')"
    and "(sys_step env hs)\<^sup>*\<^sup>* (s\<lparr>sy_db := d', sy_threads := new_thread j p input # sy_threads s\<rparr>) t"
    and "ar_key q = ar_key r" and "digest env (request_json uid' q) = Inr qh"
  shows "map_of (db_jobs (sy_db t)) (job_id j) \<noteq> None \<and> apply_plan env hs w' i' now' uid' q (sy_db t) =
    (if digest env (request_json uid r) = Inr qh
     then Replayed (the (map_of (db_jobs (sy_db t)) (job_id j)))
     else Rejected (Domain_error (fail ''IDEMPOTENCY_CONFLICT'' ''key was already used with different inputs'')), sy_db t)"
proof -
  let ?s1 = "s\<lparr>sy_db := d', sy_threads := new_thread j p input # sy_threads s\<rparr>"
  have r1: "reachable env hs ?s1" by (rule later [OF assms(1) applying [OF assms(2,3)]])
  have t: "reachable env hs t" "evolves d' (sy_db t)" using sys_steps_evolve [OF assms(4) r1] by simp_all
  obtain rh row where d: "digest env (request_json uid r) = Inr rh" "map_of (db_dedup d') (ar_key r) = Some row"
    "dd_request row = rh" "dd_job row = job_id j"
    using accepted_dedup [OF assms(3) inv_wf [OF reachable_inv [OF assms(1)]]] by blast
  have dt: "map_of (db_dedup (sy_db t)) (ar_key r) = Some row" by (rule evolves_dedup [OF t(2) d(2)])
  obtain j' where j': "job_of (sy_db t) (job_id j) = Some j'"
    using wf_dedup [OF inv_wf [OF reachable_inv [OF t(1)]] dt] d(4) by auto
  show ?thesis
    using accepted_key [OF assms(3)] dt d j' assms(5,6)
    by (auto simp: apply_plan_def dedup_def get_job_def)
qed

theorem replay_same_job_witness:
  "\<exists>j q b d. apply_plan demo_env demo_hs [] ''j'' 1 7 (demo_request ''p'' ''k'' one_planned) (sy_db one_planned) = (Accepted j q b, d) \<and>
     apply_plan demo_env demo_hs [] ''j9'' 5 7 (demo_request ''p'' ''k'' one_planned) d =
       (Replayed (the (map_of (db_jobs d) (job_id j))), d)"
proof -
  let ?r = "demo_request ''p'' ''k'' one_planned"
  obtain j q b d where ap: "apply_plan demo_env demo_hs [] ''j'' 1 7 ?r (sy_db one_planned) = (Accepted j q b, d)"
    and none: "sy_pending one_planned = None" using one_applied by blast
  have dg: "digest demo_env (request_json 7 ?r) = Inr ''object''"
    by (simp add: digest_def demo_env_def request_json_def)
  show ?thesis
    using replay_same_job [OF reach_one_planned none ap rtranclp.rtrancl_refl refl dg, of "[]" "''j9''" 5] ap dg by auto
qed

lemma find_missing_None: "find_missing given required = None \<longleftrightarrow> set required \<subseteq> set given"
  by (auto simp: find_missing_def find_None_iff)

lemma set_ack_list: "set (ack_list r) = (case ar_acks r of None \<Rightarrow> {} | Some xs \<Rightarrow> set xs)"
  by (simp add: ack_list_def split: option.splits)

lemma authorize_plan_Inr:
  "authorize_plan env now uid r p input = Inr () \<longleftrightarrow> plan_actor p = uid \<and>
     plan_hash env p = Inr (plan_digest p) \<and> plan_digest p = ar_digest r \<and> now < plan_expires p \<and>
     (\<exists>v. env_unmarshal env input = Inr v \<and> digest env v = Inr (plan_input_digest p)) \<and>
     set (plan_acks p) \<subseteq> set (ack_list r)"
proof (cases "env_unmarshal env input")
  case Inl
  then show ?thesis by (auto simp: authorize_plan_def)
next
  case (Inr v)
  then show ?thesis
    by (cases "digest env v") (auto simp: authorize_plan_def find_missing_None [symmetric] split: option.splits)
qed

lemma apply_validated:
  assumes "apply_plan env hs w i now uid r d = (Accepted j p input, d')"
  obtains h rh where "hs (plan_operation p) = Some h" and "h_validate h w d [] p input = None"
    and "digest env (request_json uid r) = Inr rh"
    and "(h_recovery h = None \<and> accept i now p (ar_key r) rh d = (Inr j, d')) \<or>
      (\<exists>rec par. h_recovery h = Some rec \<and> rec w d p input = Inr par \<and>
         accept_recovery i now p (ar_key r) rh par d = (Inr j, d'))"
  using assms by (auto simp: apply_plan_def split: if_splits sum.splits option.splits prod.splits)

text \<open>
  The state an acceptance leaves: the new job queued, all its resources locked by it, each
  of which was free before or, in a recovery, held by the parent.
\<close>

definition job_installed :: "db \<Rightarrow> db \<Rightarrow> job \<Rightarrow> plan \<Rightarrow> string option \<Rightarrow> bool" where
  "job_installed d d' j p par \<longleftrightarrow> map_of (db_jobs d) (job_id j) = None \<and>
     map_of (db_jobs d') (job_id j) = Some j \<and> job_state j = Queued \<and> job_plan j = plan_id p \<and>
     (\<forall>x \<in> set (plan_resources p). map_of (db_locks d') x = Some (job_id j) \<and>
        (map_of (db_locks d) x = None \<or> par \<noteq> None \<and> map_of (db_locks d) x = par))"

lemma accept_installs:
  assumes a: "accept i now p key rh d = (Inr j, d')" and wf: "wf_db d"
  shows "job_installed d d' j p None \<and> job_id j = i"
proof -
  note eff = accept_effects [OF a wf_primary(4) [OF wf]]
  have "job_id j = i" "job_state j = Queued" "job_plan j = plan_id p" by (simp_all add: eff(1))
  then show ?thesis using eff(2,6) by (simp add: job_installed_def eff(7,8))
qed

lemma accept_recovery_installs:
  assumes a: "accept_recovery i now p key rh par d = (Inr j, d')" and wf: "wf_db d"
  shows "job_installed d d' j p (Some par) \<and> job_id j = i"
proof (rule accept_recovery_effects [OF a wf])
  fix parent
  assume j: "j = new_job i now p par" and par: "job_of d par = Some parent" and i: "job_of d i = None"
    and free: "\<forall>r \<in> set (plan_resources p). lock_of d r = Some par \<or> lock_of d r = None"
    and jobs: "job_of d' = (job_of d)(i \<mapsto> j, par \<mapsto> superseded parent i)"
    and locks: "lock_of d' = (\<lambda>r. if r \<in> set (plan_resources p) then Some i else lock_of d r)"
  have "par \<noteq> i" using par i by auto
  then have "job_of d' i = Some j" by (simp add: jobs)
  moreover have "job_id j = i" "job_state j = Queued" "job_plan j = plan_id p" by (simp_all add: j)
  ultimately show ?thesis using i free by (auto simp: job_installed_def locks)
qed

lemma apply_not_accepted:
  assumes "apply_plan env hs w i now uid r d = (x, d')" and "\<And>j p b. x \<noteq> Accepted j p b"
  shows "d' = d"
  using assms by (auto simp: apply_plan_def split: if_splits sum.splits option.splits prod.splits
      dest: accept_rollback accept_recovery_rollback)

text \<open>
  C4. What an accepted request proves: the plan is the actor's own, its stored hash is the
  reviewed one and recomputes, it has not expired, its input is the one that was hashed, every
  acknowledgement it demands was given, the handler validated it in the present world, and
  the job, its identity new, holds all of its resources, which were free unless the handler
  named a parent whose locks it takes over. Any other outcome leaves the journal untouched.
\<close>

theorem apply_contract:
  assumes "wf_db d"
  shows "case apply_plan env hs w i now uid r d of
    (Accepted j p input, d') \<Rightarrow>
      plan_actor p = uid \<and> plan_hash env p = Inr (plan_digest p) \<and> plan_digest p = ar_digest r \<and>
      now < plan_expires p \<and>
      (\<exists>v. env_unmarshal env input = Inr v \<and> digest env v = Inr (plan_input_digest p)) \<and>
      set (plan_acks p) \<subseteq> (case ar_acks r of None \<Rightarrow> {} | Some xs \<Rightarrow> set xs) \<and>
      (\<exists>h. hs (plan_operation p) = Some h \<and> h_validate h w d [] p input = None \<and>
        (\<exists>par. (par \<noteq> None \<longleftrightarrow> h_recovery h \<noteq> None) \<and> job_installed d d' j p par)) \<and> job_id j = i
  | (_, d') \<Rightarrow> d' = d"
proof -
  obtain x d' where ap: "apply_plan env hs w i now uid r d = (x, d')" by (metis prod.exhaust)
  show ?thesis
  proof (cases x)
    case (Accepted j p input)
    have ap': "apply_plan env hs w i now uid r d = (Accepted j p input, d')" using ap Accepted by simp
    show ?thesis
    proof (rule apply_validated [OF ap'])
      fix h rh
      assume h: "hs (plan_operation p) = Some h" "h_validate h w d [] p input = None"
        and acc: "(h_recovery h = None \<and> accept i now p (ar_key r) rh d = (Inr j, d')) \<or>
          (\<exists>rec par. h_recovery h = Some rec \<and> rec w d p input = Inr par \<and>
             accept_recovery i now p (ar_key r) rh par d = (Inr j, d'))"
      have inst: "(\<exists>par. (par \<noteq> None \<longleftrightarrow> h_recovery h \<noteq> None) \<and> job_installed d d' j p par) \<and> job_id j = i"
        using acc accept_installs [OF _ assms] accept_recovery_installs [OF _ assms] by fastforce
      have ex: "\<exists>h. hs (plan_operation p) = Some h \<and> h_validate h w d [] p input = None \<and>
          (\<exists>par. (par \<noteq> None \<longleftrightarrow> h_recovery h \<noteq> None) \<and> job_installed d d' j p par)"
        using h inst by blast
      show ?thesis
        using apply_accepted(2) [OF ap', unfolded authorize_plan_Inr set_ack_list] ex inst
        unfolding ap Accepted by simp
    qed
  qed (use apply_not_accepted [OF ap] in \<open>simp_all add: ap\<close>)
qed

theorem apply_contract_witness:
  "\<exists>j p b d'. apply_plan demo_env demo_hs [] ''j'' 1 7 (demo_request ''p'' ''k'' one_planned) (sy_db one_planned) =
     (Accepted j p b, d') \<and> plan_actor p = 7 \<and> job_id j = ''j'' \<and> job_installed (sy_db one_planned) d' j p None"
proof -
  have wf: "wf_db (sy_db one_planned)" by (rule inv_wf [OF reachable_inv [OF reach_one_planned]])
  obtain j q b d where ap: "apply_plan demo_env demo_hs [] ''j'' 1 7 (demo_request ''p'' ''k'' one_planned) (sy_db one_planned) =
      (Accepted j q b, d)" using one_applied by blast
  show ?thesis
    using apply_contract [OF wf, where env = demo_env and hs = demo_hs and w = "[]" and i = "''j''" and now = 1 and
        uid = 7 and r = "demo_request ''p'' ''k'' one_planned"] ap
    by (auto simp: demo_hs_def demo_handler_def split: if_splits)
qed
section \<open>Locks, outcomes and restarts\<close>

text \<open>
  C5. No uncertain resource is handed out: as long as no row a cancellation has read is
  written before the cancellation writes it back, every job that is not in a releasing
  state (succeeded, failed, partial, canceled) holds every resource of its plan, so no other
  job can be accepted on it, whether its goroutine lives, has died, or waits for recovery.
\<close>

theorem unsettled_jobs_hold_locks:
  assumes "reachable_calm env hs s" and "map_of (db_jobs (sy_db s)) i = Some j" and "\<not> releases (job_state j)"
  shows "\<exists>p. get_plan (job_plan j) (sy_db s) = Inr p \<and>
    (\<forall>r \<in> set (plan_resources (fst p)). map_of (db_locks (sy_db s)) r = Some i)"
proof -
  have wf: "wf_db (sy_db s)" by (rule inv_wf [OF reachable_inv [OF calm_reachable [OF assms(1)]]])
  obtain p where p: "plan_of (sy_db s) (job_plan j) = Some p" using wf_job_plan [OF wf assms(2)] by blast
  have "\<forall>r \<in> set (plan_resources p). lock_of (sy_db s) r = Some i"
    using calm_held [OF reachable_calm_inv [OF assms(1)]] assms(2,3) needs_job [OF assms(2) p]
    by (simp add: locks_held_def)
  then show ?thesis using p by (auto simp: get_plan_def plan_of_def split: option.splits)
qed

theorem unsettled_jobs_hold_locks_witness:
  "\<exists>j p. map_of (db_jobs (sy_db one_running)) ''j'' = Some j \<and> job_state j = Queued \<and>
     get_plan (job_plan j) (sy_db one_running) = Inr p \<and>
     (\<forall>r \<in> set (plan_resources (fst p)). map_of (db_locks (sy_db one_running)) r = Some ''j'')"
proof -
  have "\<exists>j. map_of (db_jobs (sy_db one_running)) ''j'' = Some j \<and> job_state j = Queued" by (simp add: demo_eval)
  then obtain j where j: "map_of (db_jobs (sy_db one_running)) ''j'' = Some j" "job_state j = Queued" by blast
  then have "\<not> releases (job_state j)" by simp
  from unsettled_jobs_hold_locks [OF calm_one_running j(1) this] show ?thesis using j by blast
qed

text \<open>
  C6. What the proviso of C5 excludes does happen. \<^verbatim>\<open>Cancel\<close> reads the job and writes the whole
  row back; the final transition of \<^verbatim>\<open>run\<close> is outside the engine's mutex and can fall
  between. Then a job that succeeded and gave up its lock is on record as verifying again,
  with a cancel request, no goroutine and no lock: a new job is accepted on its resource
  while the old one counts as unsettled.
\<close>

theorem cancel_resurrects_finished_job:
  "\<exists>s j k. reachable demo_env demo_hs s \<and>
     map_of (db_jobs (sy_db s)) ''j'' = Some j \<and> job_state j = Verifying \<and> job_cancel j \<and>
     (\<exists>p b. get_plan (job_plan j) (sy_db s) = Inr (p, b) \<and> plan_resources p = [''vm'']) \<and>
     (\<exists>e. map_of (db_events (sy_db s)) (''j'', 4) = Some e \<and> ev_phase e = Succeeded) \<and>
     map tid (sy_threads s) = [''j2''] \<and> map_of (db_jobs (sy_db s)) ''j2'' = Some k \<and> job_state k = Queued \<and>
     map_of (db_locks (sy_db s)) ''vm'' = Some ''j2''"
proof -
  obtain j k p b e where "map_of (db_jobs (sy_db one_taken)) ''j'' = Some j" "job_state j = Verifying" "job_cancel j"
    "job_plan j = ''p''" "map_of (db_jobs (sy_db one_taken)) ''j2'' = Some k" "job_state k = Queued"
    "map tid (sy_threads one_taken) = [''j2'']" "get_plan ''p'' (sy_db one_taken) = Inr (p, b)"
    "plan_resources p = [''vm'']" "map_of (db_events (sy_db one_taken)) (''j'', 4) = Some e" "ev_phase e = Succeeded"
    "db_locks (sy_db one_taken) = [(''vm'', ''j2'')]"
    using one_taken_shape unfolding taken_shape_def by (elim exE conjE) (rule that)
  then show ?thesis
    using reach_one_taken by (intro exI [where x = one_taken] exI [where x = j] exI [where x = k]) simp
qed

text \<open>
  C7. Every goroutine ends, whatever the other goroutines, the calls of the API, the handlers and the
  journal do meanwhile. In any execution of the coordinator that schedules the goroutine of an accepted
  job again and again, it is gone after at most six moves per step and one more. If it ended by a
  move of its own, its job is on record in a terminal state, and as \<^verbatim>\<open>succeeded\<close> only if the
  handler confirmed the completion predicate of every step, in the world and journal of an earlier
  state. If it was lost instead (a failed write of the journal, a restart), its job is unsettled or
  requires recovery, and still holds every resource of its plan.
\<close>

theorem goroutine_ends:
  assumes "execution env hs \<sigma>" and "new_thread j p input \<in> set (sy_threads (\<sigma> 0))" and "scheduled hs (job_id j) \<sigma>"
  shows "\<exists>m k. (\<forall>n \<le> m. live (job_id j) (\<sigma> n)) \<and> \<not> live (job_id j) (\<sigma> (Suc m)) \<and>
    card {n. n \<le> m \<and> job_moves hs (job_id j) (\<sigma> n) (\<sigma> (Suc n))} \<le> 6 * length (plan_steps p) + 1 \<and>
    map_of (db_jobs (sy_db (\<sigma> (Suc m)))) (job_id j) = Some k \<and>
    (if job_moves hs (job_id j) (\<sigma> m) (\<sigma> (Suc m))
     then job_terminal (job_state k) \<and> (job_state k = Succeeded \<longrightarrow>
       (\<exists>h. hs (plan_operation p) = Some h \<and> (\<forall>q < length (plan_steps p). \<exists>n < m.
          job_moves hs (job_id j) (\<sigma> n) (\<sigma> (Suc n)) \<and> h_reconcile h (sy_world (\<sigma> n)) (sy_db (\<sigma> n)) (job_id j) p input (plan_steps p ! q) = Inr True)))
     else (job_state k = Recovery_required \<or> \<not> job_terminal (job_state k)) \<and>
       (\<forall>r \<in> set (plan_resources p). map_of (db_locks (sy_db (\<sigma> (Suc m)))) r = Some (job_id j)))"
proof -
  let ?t = "new_thread j p input"
  have t: "tid ?t = job_id j" "th_plan ?t = p" "th_input ?t = input" "at_step (th_pc ?t) = 0" "moves_left ?t = 6 * length (plan_steps p) + 1"
    by (simp_all add: new_thread_def moves_left_def)
  obtain m where m: "\<forall>n \<le> m. live (tid ?t) (\<sigma> n)" "\<not> live (tid ?t) (\<sigma> (Suc m))"
    by (rule goroutine_gone [OF assms(1) _ assms(2) t(4)]) (use assms(3) t(1) in simp)
  note last = last_state [OF assms(1,2) t(4) m]
  have moves: "card {n. n \<le> m \<and> job_moves hs (job_id j) (\<sigma> n) (\<sigma> (Suc n))} \<le> 6 * length (plan_steps p) + 1"
    using last(1) by (simp add: t own_moves_def less_Suc_eq_le del: own_moves_simps)
  show ?thesis
  proof (cases "job_moves hs (job_id j) (\<sigma> m) (\<sigma> (Suc m))")
    case True
    then show ?thesis using last(2) m moves unfolding t proved_before_def confirmed_def
      by (intro exI [of _ m]) (auto simp: t)
  next
    case False
    then show ?thesis using last(2) m moves active_not_terminal unfolding t abandoned_def
      by (intro exI [of _ m]) auto
  qed
qed

text \<open>One goroutine from its acceptance to its end, and then nothing.\<close>

definition one_life :: "nat \<Rightarrow> string list sys" where
  "one_life n = (do_move ^^ min n 7) one_running"

lemma one_life_moves: "n < 7 \<Longrightarrow> move_ready (one_life n) \<and> map tid (sy_threads (one_life n)) = [''j'']"
proof -
  assume "n < 7"
  then consider "n = 0" | "n = 1" | "n = 2" | "n = 3" | "n = 4" | "n = 5" | "n = 6" by linarith
  then show ?thesis by cases (simp_all add: one_life_def eval_nat_numeral demo_eval)
qed

lemma one_life_gone: "\<not> live ''j'' (one_life 7)" "7 \<le> n \<Longrightarrow> one_life n = one_life 7"
proof -
  show "7 \<le> n \<Longrightarrow> one_life n = one_life 7" by (simp add: one_life_def min_def)
  show "\<not> live ''j'' (one_life 7)" by (simp add: one_life_def live_def eval_nat_numeral demo_eval)
qed

lemma one_life_step: "n < 7 \<Longrightarrow> sys_step demo_env demo_hs (one_life n) (one_life (Suc n)) \<and> job_moves demo_hs ''j'' (one_life n) (one_life (Suc n))"
proof -
  assume n: "n < 7"
  then have suc: "one_life (Suc n) = do_move (one_life n)" by (simp add: one_life_def min_def)
  from one_life_moves [OF n] show ?thesis
    unfolding suc job_moves_def by (elim conjE move_moves) fastforce
qed

lemma one_life_execution: "execution demo_env demo_hs one_life"
proof -
  have stay: "sys_step demo_env demo_hs s s" for s :: "string list sys"
    using outside [of demo_env demo_hs s "sy_world s"] by simp
  have "sys_step demo_env demo_hs (one_life n) (one_life (Suc n))" for n
    using one_life_step [of n] one_life_gone(2) [of n] one_life_gone(2) [of "Suc n"] stay by (cases "n < 7") simp_all
  then show ?thesis using reach_one_running by (simp add: execution_def one_life_def)
qed

lemma one_life_scheduled: "scheduled demo_hs ''j'' one_life"
  unfolding scheduled_def
proof
  fix n show "\<exists>m \<ge> n. live ''j'' (one_life m) \<longrightarrow> job_moves demo_hs ''j'' (one_life m) (one_life (Suc m))"
    using one_life_gone(1) one_life_gone(2) [of "max n 7"] by (intro exI [of _ "max n 7"]) simp
qed

lemma one_life_starts: "\<exists>j q b. new_thread j q b \<in> set (sy_threads (one_life 0)) \<and> job_id j = ''j'' \<and> length (plan_steps q) = 1"
  by (simp add: one_life_def demo_eval)

lemma one_life_succeeds: "\<exists>k. job_of (sy_db (one_life 7)) ''j'' = Some k \<and> job_state k = Succeeded"
  by (simp add: one_life_def eval_nat_numeral demo_eval)

theorem goroutine_ends_witness:
  "\<exists>j q b. new_thread j q b \<in> set (sy_threads one_running) \<and>
     (\<exists>n < 6. h_reconcile demo_handler (sy_world (one_life n)) (sy_db (one_life n)) ''j'' q b (plan_steps q ! 0) = Inr True)"
proof -
  obtain j q b where j: "new_thread j q b \<in> set (sy_threads (one_life 0))" "job_id j = ''j''" "length (plan_steps q) = 1"
    using one_life_starts by blast
  obtain m k where m: "\<forall>n \<le> m. live ''j'' (one_life n)" "\<not> live ''j'' (one_life (Suc m))"
    and k: "job_of (sy_db (one_life (Suc m))) ''j'' = Some k"
    and fin: "if job_moves demo_hs ''j'' (one_life m) (one_life (Suc m))
      then job_terminal (job_state k) \<and> (job_state k = Succeeded \<longrightarrow> (\<exists>h. demo_hs (plan_operation q) = Some h \<and>
        (\<forall>i < length (plan_steps q). \<exists>n < m. job_moves demo_hs ''j'' (one_life n) (one_life (Suc n)) \<and>
           h_reconcile h (sy_world (one_life n)) (sy_db (one_life n)) ''j'' q b (plan_steps q ! i) = Inr True)))
      else (job_state k = Recovery_required \<or> \<not> job_terminal (job_state k)) \<and>
        (\<forall>r \<in> set (plan_resources q). map_of (db_locks (sy_db (one_life (Suc m)))) r = Some ''j'')"
    using goroutine_ends [OF one_life_execution j(1)] one_life_scheduled unfolding j(2) by blast
  have "m < 7" using m(1) one_life_gone by (metis linorder_not_le le_refl)
  moreover have "\<not> Suc m < 7" using m(2) one_life_moves [of "Suc m"] by (auto simp: live_def)
  ultimately have "m = 6" "Suc m = 7" by simp_all
  then obtain h where "demo_hs (plan_operation q) = Some h" "\<exists>n < 6. h_reconcile h (sy_world (one_life n)) (sy_db (one_life n)) ''j'' q b (plan_steps q ! 0) = Inr True"
    using fin one_life_step [of 6] one_life_succeeds k j(3) by auto
  moreover from this have "h = demo_handler" by (simp add: demo_hs_def split: if_splits)
  ultimately show ?thesis using j by (auto simp: one_life_def)
qed

text \<open>
  C8. A restart turns exactly the jobs that were not terminal into jobs that require recovery,
  remembering step and cancel request, and touches neither locks nor plans nor keys; it does
  not fail on a well-formed journal.
\<close>

theorem restart_marks_unfinished_jobs:
  assumes "wf_db d"
  shows "\<exists>d'. recover now d = (None, d') \<and> wf_db d' \<and> map_of (db_locks d') = map_of (db_locks d) \<and>
    db_plans d' = db_plans d \<and> db_dedup d' = db_dedup d \<and>
    (\<forall>i. case map_of (db_jobs d) i of None \<Rightarrow> map_of (db_jobs d') i = None
      | Some j \<Rightarrow> (\<exists>k. map_of (db_jobs d') i = Some k \<and> job_step k = job_step j \<and> job_cancel k = job_cancel j \<and>
          job_plan k = job_plan j \<and>
          (if job_terminal (job_state j) then k = j else job_state k = Recovery_required \<and>
             job_error k \<noteq> None)))"
proof (rule recover_effects [OF assms, of now])
  fix d'
  assume d': "recover now d = (None, d')" "wf_db d'" "lock_of d' = lock_of d" "db_plans d' = db_plans d"
    "db_dedup d' = db_dedup d" and jobs: "\<And>i. job_of d' i = map_option interrupted (job_of d i)"
  have "case job_of d i of None \<Rightarrow> job_of d' i = None
      | Some j \<Rightarrow> (\<exists>k. job_of d' i = Some k \<and> job_step k = job_step j \<and> job_cancel k = job_cancel j \<and>
          job_plan k = job_plan j \<and> (if job_terminal (job_state j) then k = j
            else job_state k = Recovery_required \<and> job_error k \<noteq> None))" for i
    by (cases "job_of d i") (auto simp: jobs, auto simp: interrupted_def moved_def)
  then show ?thesis using d' by blast
qed

theorem restart_marks_unfinished_jobs_witness:
  "\<exists>d' k. recover 9 (sy_db one_running) = (None, d') \<and> map_of (db_jobs d') ''j'' = Some k \<and>
     job_state k = Recovery_required \<and> map_of (db_locks d') ''vm'' = Some ''j''"
proof -
  have wf: "wf_db (sy_db one_running)" by (rule inv_wf [OF reachable_inv [OF reach_one_running]])
  have facts: "\<exists>j. map_of (db_jobs (sy_db one_running)) ''j'' = Some j \<and> job_state j = Queued \<and>
      map_of (db_locks (sy_db one_running)) ''vm'' = Some ''j''" by (simp add: demo_eval)
  then obtain j where j: "map_of (db_jobs (sy_db one_running)) ''j'' = Some j" "job_state j = Queued"
    "map_of (db_locks (sy_db one_running)) ''vm'' = Some ''j''" by blast
  from restart_marks_unfinished_jobs [OF wf, of 9] obtain d' where d': "recover 9 (sy_db one_running) = (None, d')"
    "map_of (db_locks d') = map_of (db_locks (sy_db one_running))"
    and rows: "\<forall>i. case map_of (db_jobs (sy_db one_running)) i of None \<Rightarrow> map_of (db_jobs d') i = None
      | Some j \<Rightarrow> (\<exists>k. map_of (db_jobs d') i = Some k \<and> job_step k = job_step j \<and> job_cancel k = job_cancel j \<and>
          job_plan k = job_plan j \<and> (if job_terminal (job_state j) then k = j
            else job_state k = Recovery_required \<and> job_error k \<noteq> None))"
    by blast
  show ?thesis using d' j rows [rule_format, of "''j''"] by auto
qed

text \<open>
  C9. The hand-over to a recovery is all or nothing. An accepted recovery had an unresolved
  parent, not recovered before, of the same actor and connection, and names every resource
  of the parent's plan and every lock the parent held; afterwards the parent is
  \<^verbatim>\<open>partial\<close>, points to the child and holds no lock, the child holds everything it named, and
  no other job gained or lost a lock. A refused recovery changes nothing.
\<close>

theorem recovery_takes_over:
  assumes "wf_db d"
  shows "case accept_recovery i now p key dig par d of
    (Inl e, d') \<Rightarrow> d' = d
  | (Inr j, d') \<Rightarrow> (\<exists>parent prior. map_of (db_jobs d) par = Some parent \<and> plan_of d (job_plan parent) = Some prior \<and>
      recoverable (job_state parent) \<and> job_recovery_op parent = [] \<and> plan_actor prior = plan_actor p \<and>
      plan_connection prior = plan_connection p \<and> set (plan_resources prior) \<subseteq> set (plan_resources p) \<and>
      map_of (db_jobs d') par = Some (parent\<lparr>job_state := Partial, job_recovery_op := i\<rparr>) \<and>
      map_of (db_jobs d') i = Some j \<and> job_recovery_of j = par \<and>
      (\<forall>r. map_of (db_locks d') r = (if r \<in> set (plan_resources p) then Some i else map_of (db_locks d) r)) \<and>
      (\<forall>r \<in> set (plan_resources p). map_of (db_locks d) r \<in> {None, Some par}) \<and>
      (\<forall>r. map_of (db_locks d') r \<noteq> Some par))"
proof -
  obtain x d' where acc: "accept_recovery i now p key dig par d = (x, d')" by (metis prod.exhaust)
  show ?thesis
  proof (cases x)
    case (Inl e)
    then show ?thesis using acc accept_recovery_rollback by auto
  next
    case (Inr j)
    have a: "accept_recovery i now p key dig par d = (Inr j, d')" using acc Inr by simp
    show ?thesis
    proof (rule accept_recovery_effects [OF a assms])
      fix parent prior
      assume j: "j = new_job i now p par" and par: "job_of d par = Some parent"
        and prior: "plan_of d (job_plan parent) = Some prior" "recoverable (job_state parent)"
          "job_recovery_op parent = []" "plan_actor prior = plan_actor p" "plan_connection prior = plan_connection p"
        and i: "job_of d i = None" and sub: "set (plan_resources prior) \<subseteq> set (plan_resources p)"
        and held: "\<forall>r. lock_of d r = Some par \<longrightarrow> r \<in> set (plan_resources p)"
        and free: "\<forall>r \<in> set (plan_resources p). lock_of d r = Some par \<or> lock_of d r = None"
        and jobs: "job_of d' = (job_of d)(i \<mapsto> j, par \<mapsto> superseded parent i)"
        and locks: "lock_of d' = (\<lambda>r. if r \<in> set (plan_resources p) then Some i else lock_of d r)"
      have ne: "par \<noteq> i" using par i by auto
      have "lock_of d' r \<noteq> Some par" for r using held ne by (auto simp: locks)
      moreover have "job_of d' par = Some (parent\<lparr>job_state := Partial, job_recovery_op := i\<rparr>)"
        "job_of d' i = Some j" using ne by (simp_all add: jobs)
      ultimately show ?thesis
        using par prior sub free unfolding a
        by (intro case_prod_conv [THEN iffD2] sum.case(2) [THEN iffD2]) (auto simp: locks j)
    qed
  qed
qed

theorem recovery_takes_over_witness:
  "\<exists>j d'. accept_recovery ''r'' 10 fix_plan ''kr'' ''h'' ''j'' one_interrupted = (Inr j, d') \<and> job_recovery_of j = ''j'' \<and>
     map_of (db_locks d') ''vm'' = Some ''r'' \<and> map_of (db_locks d') ''net'' = Some ''r''"
proof -
  obtain j d' where a: "accept_recovery ''r'' 10 fix_plan ''kr'' ''h'' ''j'' one_interrupted = (Inr j, d')"
    "plan_resources fix_plan = [''net'', ''vm'']" using fix_accepted by blast
  show ?thesis
    using recovery_takes_over [OF wf_one_interrupted, where i = "''r''" and now = 10 and p = fix_plan and
        key = "''kr''" and dig = "''h''" and par = "''j''"] a by auto
qed

section \<open>What the journal keeps\<close>

lemma page_filter:
  "map (snd \<circ> fst) (rows_where (\<lambda>(j, s) _. j = i \<and> s > a) xs) =
     filter (\<lambda>s. s > a) (map (snd \<circ> fst) (rows_where (\<lambda>(j, _) _. j = i) xs))"
  by (induction xs) (auto simp: rows_where_def)

lemma event_page_keys:
  assumes wf: "wf_db d" and a: "0 \<le> a"
  shows "map (snd \<circ> fst) (rows_where (\<lambda>(j, s) _. j = i \<and> s > a) (db_events d)) =
    map int [Suc (nat a)..<Suc (length (seqs d i))]"
proof -
  have "map (snd \<circ> fst) (rows_where (\<lambda>(j, s) _. j = i \<and> s > a) (db_events d)) = filter (\<lambda>s. s > a) (seqs d i)"
    unfolding seqs_def job_events_def by (rule page_filter)
  also have "seqs d i = map int [1..<Suc (length (seqs d i))]" using wf unfolding wf_db_def by blast
  also have "filter (\<lambda>s. s > a) (map int [1..<Suc (length (seqs d i))]) = map int [Suc (nat a)..<Suc (length (seqs d i))]"
  proof -
    have eq: "int n > a \<longleftrightarrow> Suc (nat a) \<le> n" for n using a by linarith
    have "filter (\<lambda>n. int n > a) [1..<m] = [Suc (nat a)..<m]" for m
      unfolding eq by (induction m) auto
    then show ?thesis by (simp add: filter_map comp_def del: upt_Suc)
  qed
  finally show ?thesis .
qed


text \<open>
  C10. The events of a job are numbered from one without gaps, and a page of \<^verbatim>\<open>Events\<close> after a
  cursor is the next thousand of them in order: a client that asks again from the last
  number it saw misses nothing and sees nothing twice.
\<close>

theorem event_pages_have_no_gaps:
  assumes "reachable env hs s" and "0 \<le> a"
  shows "\<exists>es n. events i a (sy_db s) = Inr es \<and> n = length (job_events i (sy_db s)) \<and>
    map ev_seq es = map int (take 1000 [Suc (nat a)..<Suc n]) \<and> (\<forall>e \<in> set es. ev_operation e = i)"
proof -
  let ?d = "sy_db s" and ?P = "\<lambda>(j, s) (_ :: event). j = i \<and> s > a"
  have wf: "wf_db ?d" by (rule inv_wf [OF reachable_inv [OF assms(1)]])
  let ?L = "rows_where ?P (db_events ?d)"
  have keys: "map (snd \<circ> fst) ?L = map int [Suc (nat a)..<Suc (length (seqs ?d i))]"
    by (rule event_page_keys [OF wf assms(2)])
  have "sorted (map (snd \<circ> fst) ?L)" unfolding keys by (simp add: sorted_wrt_map del: upt_Suc)
  then have sort: "sort_key (snd \<circ> fst) ?L = ?L" by (rule sort_key_id_if_sorted)
  have row: "ev_seq (snd x) = (snd \<circ> fst) x \<and> ev_operation (snd x) = i" if mem: "x \<in> set ?L" for x
  proof -
    have "x \<in> set (db_events ?d)" "fst (fst x) = i" using mem by (auto simp: rows_where_def)
    then obtain k e where x: "x = ((i, k), e)" "((i, k), e) \<in> set (db_events ?d)" by (metis prod.collapse)
    then have "map_of (db_events ?d) (i, k) = Some e" using wf_primary(5) [OF wf] by (simp add: map_of_is_SomeI)
    then show ?thesis using wf x(1) unfolding wf_db_def by auto
  qed
  have "map ev_seq (map snd ?L) = map (snd \<circ> fst) ?L" using row by simp
  then have "map ev_seq (take 1000 (map snd ?L)) = map int (take 1000 [Suc (nat a)..<Suc (length (seqs ?d i))])"
    unfolding keys by (simp only: take_map [symmetric])
  moreover have "\<forall>e \<in> set (take 1000 (map snd ?L)). ev_operation e = i"
    using row set_take_subset [of 1000 "map snd ?L"] by auto
  moreover have "events i a ?d = Inr (take 1000 (map snd ?L))" using assms(2) sort by (simp add: events_def)
  ultimately show ?thesis by (auto simp: seqs_def)
qed

theorem event_pages_have_no_gaps_witness:
  "\<exists>es n. events ''j2'' 1 (sy_db two_effect) = Inr es \<and> n = length (job_events ''j2'' (sy_db two_effect)) \<and>
     map ev_seq es = map int (take 1000 [2..<Suc n])"
  using event_pages_have_no_gaps [OF reach_two_effect, of 1 "''j2''"] by (auto simp: numeral_2_eq_2)

text \<open>
  Nothing on record is undone: along any continuation plans and idempotency keys keep
  their values, events stay, and every job keeps its plan and, once requested, its
  cancellation.
\<close>

theorem history_is_kept:
  assumes "reachable env hs s" and "(sys_step env hs)\<^sup>*\<^sup>* s t"
  shows "map_of (db_plans (sy_db s)) \<subseteq>\<^sub>m map_of (db_plans (sy_db t)) \<and>
    map_of (db_dedup (sy_db s)) \<subseteq>\<^sub>m map_of (db_dedup (sy_db t)) \<and>
    set (db_events (sy_db s)) \<subseteq> set (db_events (sy_db t)) \<and>
    (\<forall>i \<in> dom (map_of (db_jobs (sy_db s))). \<exists>j k. map_of (db_jobs (sy_db s)) i = Some j \<and>
       map_of (db_jobs (sy_db t)) i = Some k \<and> job_plan k = job_plan j \<and> (job_cancel j \<longrightarrow> job_cancel k))"
  using sys_steps_evolve [OF assms(2,1)] unfolding evolves_def by blast

theorem history_is_kept_witness:
  "map_of (db_dedup (sy_db one_planned)) \<subseteq>\<^sub>m map_of (db_dedup (sy_db one_running)) \<and>
   set (db_events (sy_db one_planned)) \<subseteq> set (db_events (sy_db one_running))"
proof -
  obtain j q b d where ap: "apply_plan demo_env demo_hs [] ''j'' 1 7 (demo_request ''p'' ''k'' one_planned) (sy_db one_planned) =
      (Accepted j q b, d)" "sy_pending one_planned = None" using one_applied by blast
  have w: "sy_world one_planned = []" by (simp add: one_planned_def do_plan_def fresh_sys_def)
  have eq: "one_running = one_planned\<lparr>sy_db := d, sy_threads := new_thread j q b # sy_threads one_planned\<rparr>"
    using ap w by (simp add: one_running_def do_apply_def)
  have "sys_step demo_env demo_hs one_planned one_running" unfolding eq by (rule applying [OF ap(2,1)])
  then show ?thesis using history_is_kept [OF reach_one_planned r_into_rtranclp] by blast
qed

text \<open>
  A record is written only over the bytes the caller saw and only while every job that
  holds a reviewed resource was approved; then exactly that record changes. So of two
  writers that saw the same bytes the second is refused, unless the first wrote the same
  bytes back.
\<close>

theorem compare_and_put:
  assumes "wf_db d"
  shows "case compare_put_with_jobs kind i prev body reviewed d of
    Inl e \<Rightarrow> map_of (db_meta d) (kind, i) \<noteq> prev \<or>
      \<not> (\<forall>(r, approved) \<in> set reviewed. \<forall>owner. map_of (db_locks d) r = Some owner \<longrightarrow> owner \<in> set approved)
  | Inr d' \<Rightarrow> map_of (db_meta d) (kind, i) = prev \<and>
      (\<forall>(r, approved) \<in> set reviewed. \<forall>owner. map_of (db_locks d) r = Some owner \<longrightarrow> owner \<in> set approved) \<and>
      map_of (db_meta d') = (map_of (db_meta d))((kind, i) \<mapsto> body) \<and>
      db_jobs d' = db_jobs d \<and> db_locks d' = db_locks d \<and> db_plans d' = db_plans d \<and> wf_db d' \<and>
      (\<forall>body' reviewed'. prev \<noteq> Some body \<longrightarrow>
         compare_put_with_jobs kind i prev body' reviewed' d' = failr ''STALE_PLAN'' ''application record changed after preview'')"
proof (cases "compare_put_with_jobs kind i prev body reviewed d")
  case (Inl e)
  then show ?thesis using reviewed_ok_iff [OF wf_primary(4) [OF assms], of reviewed]
    by (auto simp: compare_put_with_jobs_def split: if_splits)
next
  case (Inr d')
  then have "map_of (db_meta d) (kind, i) = prev" "reviewed_ok reviewed d" and d': "d' = put kind i body d"
    by (simp_all add: compare_put_jobs_Inr)
  moreover have "compare_put_with_jobs kind i prev body' reviewed' d' = failr ''STALE_PLAN'' ''application record changed after preview''"
    if "prev \<noteq> Some body" for body' reviewed'
    using that by (auto simp: compare_put_with_jobs_def d' put_lookup)
  moreover have "wf_db d'" unfolding d' by (rule put_wf [OF assms])
  ultimately show ?thesis
    using reviewed_ok_iff [OF wf_primary(4) [OF assms], of reviewed] Inr by (simp add: put_lookup)
qed

theorem compare_and_put_witness:
  "\<exists>d'. compare_put_with_jobs ''vm'' ''a'' None ''x'' [(''r'', [])] empty_db = Inr d' \<and>
     compare_put_with_jobs ''vm'' ''a'' None ''y'' [] d' = failr ''STALE_PLAN'' ''application record changed after preview''"
proof -
  obtain d' where d': "compare_put_with_jobs ''vm'' ''a'' None ''x'' [(''r'', [])] empty_db = Inr d'"
    by (simp add: compare_put_with_jobs_def reviewed_ok_def rows_where_def empty_db_def)
  show ?thesis using compare_and_put [OF wf_empty_db, where kind = "''vm''" and i = "''a''" and prev = None and body = "''x''" and
      reviewed = "[(''r'', [])]"] d' by simp
qed

section \<open>Opening and naming\<close>

text \<open>
  The journal is opened only where nobody else can read or write it and never by a binary
  older than its schema; a new file starts empty, an old one keeps every row and ends at
  schema version 3, after a backup when the version changes.
\<close>

theorem journal_opened_safely:
  "case open_journal v d of
     Inl _ \<Rightarrow> True
   | Inr d' \<Rightarrow>
       (\<exists>m. ov_dir v = Some (True, m) \<and> m mod 64 = 0) \<and>
       (ov_file v = Stat_missing \<or> (\<exists>m. ov_file v = Stat_regular m \<and> m mod 64 = 0)) \<and>
       ov_lock v = None \<and>
       (\<exists>n. ov_version v = Inr n \<and> n \<le> 3 \<and>
          (if n = 0 then d' = empty_db
           else d' = d\<lparr>db_version := (if n = 1 \<or> n = 2 then 3 else n)\<rparr> \<and>
             (n = 1 \<or> n = 2 \<longrightarrow> ov_backup v = None \<and> ov_pragma v = None)))"
proof (cases "open_journal v d")
  case (Inr d')
  then obtain m n where dir: "ov_dir v = Some (True, m)" "private_mode m" and lock: "ov_lock v = None"
    and jfile: "ov_file v = Stat_missing \<or> (\<exists>k. ov_file v = Stat_regular k \<and> private_mode k)"
    and ver: "ov_version v = Inr n" "\<not> n > 3" and rest:
      "(if n = 0 then bindr (opt_err (ov_schema v)) (\<lambda>_. Inr empty_db)
        else if n = 1 \<or> n = 2 then bindr (opt_err (ov_backup v)) (\<lambda>_.
          bindr (opt_err (ov_pragma v)) (\<lambda>_. Inr (d\<lparr>db_version := 3\<rparr>)))
        else Inr (d\<lparr>db_version := n\<rparr>)) = Inr d'"
    by (auto simp: open_journal_def opt_err_def split: option.splits file_stat.splits if_splits bool.splits prod.splits)
  from rest have "if n = 0 then d' = empty_db
      else d' = d\<lparr>db_version := (if n = 1 \<or> n = 2 then 3 else n)\<rparr> \<and>
        (n = 1 \<or> n = 2 \<longrightarrow> ov_backup v = None \<and> ov_pragma v = None)"
    by (auto simp: opt_err_def split: if_splits option.splits)
  then show ?thesis using Inr dir jfile lock ver by (auto simp: private_mode_def)
qed simp

theorem journal_opened_safely_witness:
  "\<exists>d'. open_journal \<lparr>ov_mkdir = None, ov_dir = Some (True, 448), ov_lock = None, ov_file = Stat_regular 384,
      ov_create = None, ov_open = None, ov_version = Inr 2, ov_schema = None, ov_backup = None,
      ov_pragma = None\<rparr> (empty_db\<lparr>db_version := 2\<rparr>) = Inr d' \<and> db_version d' = 3"
proof -
  let ?v = "\<lparr>ov_mkdir = None, ov_dir = Some (True, 448), ov_lock = None, ov_file = Stat_regular 384,
      ov_create = None, ov_open = None, ov_version = Inr 2, ov_schema = None, ov_backup = None,
      ov_pragma = None\<rparr>"
  obtain d' where d': "open_journal ?v (empty_db\<lparr>db_version := 2\<rparr>) = Inr d'"
    by (simp add: open_journal_def opt_err_def private_mode_def)
  show ?thesis using journal_opened_safely [of ?v "empty_db\<lparr>db_version := 2\<rparr>"] d' by auto
qed

lemma sixteen_bytes:
  assumes "length (b :: 'a list) = 16"
  obtains b0 b1 b2 b3 b4 b5 b6 b7 b8 b9 b10 b11 b12 b13 b14 b15
    where "b = [b0, b1, b2, b3, b4, b5, b6, b7, b8, b9, b10, b11, b12, b13, b14, b15]"
  using assms by (auto simp: numeral_eq_Suc length_Suc_conv)

lemma hex_byte_lower: "lower_hex (hex_digit (unat (w :: 8 word) div 16))" "lower_hex (hex_digit (unat w mod 16))"
proof -
  have "unat w < 256" using unsigned_less [of w, where ?'a = nat] by simp
  then show "lower_hex (hex_digit (unat w div 16))" by (intro hex_digit_lower) simp
  show "lower_hex (hex_digit (unat w mod 16))" by (intro hex_digit_lower) simp
qed

text \<open>
  Every identity the coordinator draws has the exact shape the privileged helper demands
  of an operation identity, whatever sixteen random bytes it read.
\<close>

theorem new_id_is_helper_uuid:
  assumes "length b = 16"
  shows "helper_uuid (new_id b)"
  using assms
proof (rule sixteen_bytes)
  fix b0 b1 b2 b3 b4 b5 b6 b7 b8 b9 b10 b11 b12 b13 b14 b15
  assume b: "b = [b0, b1, b2, b3, b4, b5, b6, b7, b8, b9, b10, b11, b12, b13, b14, b15]"
  show ?thesis
    unfolding b
    by (simp add: new_id_def stamp_version_def hex_encode_def hex_byte_def helper_uuid_def Let_def
        upt_conv_Cons hex_byte_lower version_nibble variant_nibble [simplified])
qed

theorem new_id_is_helper_uuid_witness: "helper_uuid (new_id (replicate 16 255))"
  using new_id_is_helper_uuid [of "replicate 16 255"] by simp

end
