(* ===== verification/Engine_Claims.thy ===== *)
theory Engine_Claims
  imports Engine_Locks
begin

text \<open>
  The contract of the coordinator about resources, as a protocol of its own: identities that hold
  claims, some of them with a live goroutine. The journal, the threads and the races of the
  coordinator implement it, so that what holds of the protocol holds of the coordinator.
\<close>

section \<open>The protocol\<close>

record claims =
  cl_open :: "string \<rightharpoonup> string set"
  cl_live :: "string set"
  cl_used :: "string set"

definition no_claims :: claims where
  "no_claims = \<lparr>cl_open = Map.empty, cl_live = {}, cl_used = {}\<rparr>"

text \<open>
  A fresh identity is granted resources nobody claims, or takes over the claim of one that is no
  longer live; a claim ends only by its release; goroutines end alone or all at once and leave
  their claims behind.
\<close>

inductive claim_step :: "claims \<Rightarrow> claims \<Rightarrow> bool" where
  stutter: "claim_step c c"
| grant: "i \<notin> cl_used c \<Longrightarrow> (\<And>k X. cl_open c k = Some X \<Longrightarrow> X \<inter> R = {}) \<Longrightarrow>
    claim_step c \<lparr>cl_open = (cl_open c)(i \<mapsto> R), cl_live = insert i (cl_live c), cl_used = insert i (cl_used c)\<rparr>"
| inherit: "i \<notin> cl_used c \<Longrightarrow> cl_open c par = Some Q \<Longrightarrow> par \<notin> cl_live c \<Longrightarrow> Q \<subseteq> R \<Longrightarrow>
    (\<And>k X. k \<noteq> par \<Longrightarrow> cl_open c k = Some X \<Longrightarrow> X \<inter> R = {}) \<Longrightarrow>
    claim_step c \<lparr>cl_open = (cl_open c)(par := None, i \<mapsto> R), cl_live = insert i (cl_live c), cl_used = insert i (cl_used c)\<rparr>"
| release: "claim_step c (c\<lparr>cl_open := (cl_open c)(i := None), cl_live := cl_live c - {i}\<rparr>)"
| suspend: "claim_step c (c\<lparr>cl_live := cl_live c - {i}\<rparr>)"
| crash: "claim_step c (c\<lparr>cl_live := {}\<rparr>)"

inductive claim_reachable :: "claims \<Rightarrow> bool" where
  none_yet: "claim_reachable no_claims"
| one_more: "claim_reachable c \<Longrightarrow> claim_step c c' \<Longrightarrow> claim_reachable c'"

text \<open>What the protocol guarantees: claims exclude each other, and whoever is live holds one.\<close>

definition claims_apart :: "claims \<Rightarrow> bool" where
  "claims_apart c \<longleftrightarrow> cl_live c \<subseteq> dom (cl_open c) \<and> dom (cl_open c) \<subseteq> cl_used c \<and>
     (\<forall>i k X Y. i \<noteq> k \<longrightarrow> cl_open c i = Some X \<longrightarrow> cl_open c k = Some Y \<longrightarrow> X \<inter> Y = {})"

lemma claim_step_apart: "claim_step c c' \<Longrightarrow> claims_apart c \<Longrightarrow> claims_apart c'"
proof (induction rule: claim_step.induct)
  case (grant i c R)
  have "X \<inter> R = {}" "R \<inter> X = {}" if "cl_open c k = Some X" for k X using grant(2) [OF that] by auto
  then show ?case using grant(1,3) unfolding claims_apart_def by (auto split: if_splits)
next
  case (inherit i c par Q R)
  have "X \<inter> R = {}" "R \<inter> X = {}" if "k \<noteq> par" "cl_open c k = Some X" for k X using inherit(5) [OF that] by auto
  then show ?case using inherit(1-4,6) unfolding claims_apart_def by (auto split: if_splits)
next
  case (release c i)
  then show ?case unfolding claims_apart_def by (auto split: if_splits)
qed (auto simp: claims_apart_def)

lemma claim_reachable_apart: "claim_reachable c \<Longrightarrow> claims_apart c"
proof (induction rule: claim_reachable.induct)
  case none_yet
  show ?case by (simp add: claims_apart_def no_claims_def)
qed (rule claim_step_apart)

section \<open>The claims of the journal\<close>

definition open_of :: "db \<Rightarrow> string \<rightharpoonup> string set" where
  "open_of d i = (case job_of d i of None \<Rightarrow> None | Some j \<Rightarrow> if releases (job_state j) then None else Some (needs d i))"

definition claims_of :: "'w sys \<Rightarrow> claims" where
  "claims_of s = \<lparr>cl_open = open_of (sy_db s), cl_live = tid ` set (sy_threads s), cl_used = dom (job_of (sy_db s))\<rparr>"

lemma open_of_same: "job_of d' i = job_of d i \<Longrightarrow> plan_of d' = plan_of d \<Longrightarrow> open_of d' i = open_of d i"
  by (cases "job_of d i") (simp_all add: open_of_def needs_cong [of d' i d])

lemma open_of_cong: "job_of d' = job_of d \<Longrightarrow> plan_of d' = plan_of d \<Longrightarrow> open_of d' = open_of d"
  by (rule ext, rule open_of_same) simp_all

lemma open_of_row:
  "job_of d i = Some j \<Longrightarrow> plan_of d (job_plan j) = Some p \<Longrightarrow>
     open_of d i = (if releases (job_state j) then None else Some (set (plan_resources p)))"
  by (simp add: open_of_def needs_job)

lemma touch_open:
  assumes tch: "touch d j d'" and wf: "wf_db d"
    and old: "\<And>old. job_of d (job_id j) = Some old \<Longrightarrow> releases (job_state old) \<Longrightarrow> releases (job_state j)"
  shows "open_of d' = (if releases (job_state j) then (open_of d)(job_id j := None) else open_of d)"
    and "dom (job_of d') = dom (job_of d)"
proof -
  from tch wf have "open_of d' = (if releases (job_state j) then (open_of d)(job_id j := None) else open_of d) \<and> dom (job_of d') = dom (job_of d)"
  proof (rule touch_effects)
    fix prev
    assume prev: "job_of d (job_id j) = Some prev" "job_plan j = job_plan prev"
      and jobs: "job_of d' = (job_of d)(job_id j \<mapsto> merged j prev)" and plans: "db_plans d' = db_plans d"
    have pl: "plan_of d' = plan_of d" by (rule plan_of_cong [OF plans])
    obtain p where p: "plan_of d (job_plan prev) = Some p" using wf_job_plan [OF wf prev(1)] by blast
    have "open_of d' i = (if releases (job_state j) then (open_of d)(job_id j := None) else open_of d) i" for i
    proof (cases "i = job_id j")
      case True
      have "job_of d' i = Some (merged j prev)" "plan_of d' (job_plan (merged j prev)) = Some p" using True prev(2) p by (simp_all add: jobs pl)
      then show ?thesis using open_of_row [OF prev(1) p] open_of_row [of d' i "merged j prev" p] old [OF prev(1)] True by auto
    next
      case False
      then have "open_of d' i = open_of d i" by (intro open_of_same [OF _ pl]) (simp add: jobs)
      then show ?thesis using False by simp
    qed
    then show ?thesis using prev(1) jobs by auto
  qed
  then show "open_of d' = (if releases (job_state j) then (open_of d)(job_id j := None) else open_of d)"
    "dom (job_of d') = dom (job_of d)" by simp_all
qed

text \<open>Under the locks of the journal two open claims are apart, and a free resource is unclaimed.\<close>

lemma open_locked: "locks_held d \<Longrightarrow> open_of d k = Some X \<Longrightarrow> r \<in> X \<Longrightarrow> lock_of d r = Some k"
  by (auto simp: open_of_def locks_held_def split: option.splits if_splits)

section \<open>The steps\<close>

lemma claims_good_move:
  assumes inv: "sys_inv s" and ts: "sy_threads s = ts1 @ t # ts2" and good: "good_move (sy_db s) t d' r"
  shows "claim_step (claims_of s) (claims_of (s\<lparr>sy_db := d', sy_threads := ts1 @ thread_list r @ ts2, sy_world := w'\<rparr>))"
proof -
  have ok: "thread_ok (sy_db s) t" by (rule inv_thread [OF inv]) (simp add: ts)
  obtain row where row: "job_of (sy_db s) (tid t) = Some row" "active (job_state row)" using ok by (auto simp: thread_ok_def)
  have gone: "tid ` set (ts1 @ ts2) = tid ` set (sy_threads s) - {tid t}"
  proof -
    have "tid t \<notin> tid ` set (ts1 @ ts2)" using inv_distinct [OF inv] by (simp add: ts image_Un)
    moreover have "tid ` set (sy_threads s) = insert (tid t) (tid ` set (ts1 @ ts2))" by (auto simp: ts)
    ultimately show ?thesis by simp
  qed
  have live: "tid ` set (ts1 @ thread_list r @ ts2) = (if r = None then tid ` set (sy_threads s) - {tid t} else tid ` set (sy_threads s))"
  proof (cases r)
    case None
    then show ?thesis using gone by (simp add: thread_list_def)
  next
    case (Some t')
    then have "tid t' = tid t" using good by (simp add: good_move_def)
    then show ?thesis using Some by (simp add: thread_list_def ts)
  qed
  from good consider "d' = sy_db s" | j where "job_id j = tid t" "touch (sy_db s) j d'" "r \<noteq> None \<longrightarrow> active (job_state j)"
    by (auto simp: good_move_def)
  then show ?thesis
  proof cases
    case 1
    then show ?thesis using live suspend [of "claims_of s" "tid t"] stutter [of "claims_of s"]
      by (cases r) (simp_all add: claims_of_def)
  next
    case 2
    have eff: "open_of d' = (if releases (job_state j) then (open_of (sy_db s))(job_id j := None) else open_of (sy_db s))"
      "dom (job_of d') = dom (job_of (sy_db s))"
      by (rule touch_open [OF 2(2) inv_wf [OF inv]]; use row 2(1) active_not_releases in auto)+
    show ?thesis
    proof (cases "releases (job_state j)")
      case True
      then have "r = None" using 2(3) active_not_releases by blast
      then show ?thesis using release [of "claims_of s" "tid t"] live eff True 2(1) by (simp add: claims_of_def)
    next
      case False
      then show ?thesis using live eff suspend [of "claims_of s" "tid t"] stutter [of "claims_of s"]
        by (cases r) (simp_all add: claims_of_def)
    qed
  qed
qed

lemma claims_touch:
  assumes inv: "sys_inv s" and tch: "touch (sy_db s) j d'"
    and old: "\<And>old. job_of (sy_db s) (job_id j) = Some old \<Longrightarrow> releases (job_state old) \<Longrightarrow> releases (job_state j)"
    and dead: "releases (job_state j) \<Longrightarrow> job_id j \<notin> tid ` set (sy_threads s)"
  shows "claim_step (claims_of s) (claims_of (s\<lparr>sy_db := d'\<rparr>))"
proof (cases "releases (job_state j)")
  case True
  then have "cl_live (claims_of s) - {job_id j} = cl_live (claims_of s)" using dead by (simp add: claims_of_def)
  then show ?thesis using release [of "claims_of s" "job_id j"] touch_open [OF tch inv_wf [OF inv] old] True
    by (simp add: claims_of_def)
next
  case False
  then show ?thesis using stutter [of "claims_of s"] touch_open [OF tch inv_wf [OF inv] old] by (simp add: claims_of_def)
qed

lemma claims_accept:
  assumes inv: "sys_inv s" and held: "locks_held (sy_db s)" and p: "plan_of (sy_db s) (plan_id p) = Some p"
    and acc: "accept i now p key rh (sy_db s) = (Inr j, d')"
  shows "claim_step (claims_of s) (claims_of (s\<lparr>sy_db := d', sy_threads := new_thread j p input # sy_threads s\<rparr>))"
proof -
  note eff = accept_effects [OF acc wf_primary(4) [OF inv_wf [OF inv]]]
  have pl: "plan_of d' = plan_of (sy_db s)" by (rule plan_of_cong [OF eff(10)])
  have "open_of d' = (open_of (sy_db s))(i \<mapsto> set (plan_resources p))"
  proof
    fix k
    show "open_of d' k = ((open_of (sy_db s))(i \<mapsto> set (plan_resources p))) k"
    proof (cases "k = i")
      case True
      then show ?thesis using open_of_row [of d' i j p] by (simp add: eff(1,7) pl p)
    next
      case False
      then have "open_of d' k = open_of (sy_db s) k" by (intro open_of_same [OF _ pl]) (simp add: eff(7))
      then show ?thesis using False by simp
    qed
  qed
  moreover have "X \<inter> set (plan_resources p) = {}" if "open_of (sy_db s) k = Some X" for k X
    using open_locked [OF held that] eff(6) by auto
  moreover have "tid (new_thread j p input) = i" by (simp add: new_thread_def eff(1))
  ultimately show ?thesis using grant [of i "claims_of s" "set (plan_resources p)"] eff(2)
    by (simp add: claims_of_def eff(7) domIff)
qed

lemma claims_accept_recovery:
  assumes inv: "sys_inv s" and held: "locks_held (sy_db s)" and p: "plan_of (sy_db s) (plan_id p) = Some p"
    and acc: "accept_recovery i now p key rh par (sy_db s) = (Inr j, d')"
  shows "claim_step (claims_of s) (claims_of (s\<lparr>sy_db := d', sy_threads := new_thread j p input # sy_threads s\<rparr>))"
  using acc inv_wf [OF inv]
proof (rule accept_recovery_effects)
  fix parent prior
  assume j: "j = new_job i now p par" and par: "job_of (sy_db s) par = Some parent" and i: "job_of (sy_db s) i = None"
    and prior: "plan_of (sy_db s) (job_plan parent) = Some prior" and rec: "recoverable (job_state parent)"
    and sub: "set (plan_resources prior) \<subseteq> set (plan_resources p)"
    and free: "\<forall>r \<in> set (plan_resources p). lock_of (sy_db s) r = Some par \<or> lock_of (sy_db s) r = None"
    and jobs: "job_of d' = (job_of (sy_db s))(i \<mapsto> j, par \<mapsto> superseded parent i)"
    and plans: "db_plans d' = db_plans (sy_db s)"
  have pl: "plan_of d' = plan_of (sy_db s)" by (rule plan_of_cong [OF plans])
  have ne: "par \<noteq> i" using par i by auto
  have "open_of d' = (open_of (sy_db s))(par := None, i \<mapsto> set (plan_resources p))"
  proof
    fix k
    consider "k = i" | "k = par" | "k \<noteq> i" "k \<noteq> par" by blast
    then show "open_of d' k = ((open_of (sy_db s))(par := None, i \<mapsto> set (plan_resources p))) k"
    proof cases
      case 1
      then show ?thesis using open_of_row [of d' i j p] ne by (simp add: jobs pl p j)
    next
      case 2
      then show ?thesis using ne by (simp add: open_of_def jobs)
    next
      case 3
      then have "open_of d' k = open_of (sy_db s) k" by (intro open_of_same [OF _ pl]) (simp add: jobs)
      then show ?thesis using 3 by simp
    qed
  qed
  moreover have "open_of (sy_db s) par = Some (set (plan_resources prior))"
    using rec prior by (auto simp: open_of_def par needs_def recoverable_def)
  moreover have "par \<notin> tid ` set (sy_threads s)"
  proof
    assume "par \<in> tid ` set (sy_threads s)"
    then obtain t where "t \<in> set (sy_threads s)" "tid t = par" by auto
    then have "active (job_state parent)" using inv_thread [OF inv, of t] par by (auto simp: thread_ok_def)
    then show False using rec active_not_recoverable by blast
  qed
  moreover have "X \<inter> set (plan_resources p) = {}" if "k \<noteq> par" "open_of (sy_db s) k = Some X" for k X
    using open_locked [OF held that(2)] free that(1) by fastforce
  moreover have "tid (new_thread j p input) = i" by (simp add: new_thread_def j)
  moreover have "dom (job_of d') = insert i (dom (job_of (sy_db s)))" using par by (auto simp: jobs)
  ultimately show ?thesis
    using inherit [of i "claims_of s" par "set (plan_resources prior)" "set (plan_resources p)"] i sub
    by (simp add: claims_of_def domIff)
qed

lemma restart_claims:
  assumes inv: "sys_inv s" and rc: "recover now (sy_db s) = (None, d')"
  shows "open_of d' = open_of (sy_db s)" and "dom (job_of d') = dom (job_of (sy_db s))"
proof -
  have "open_of d' = open_of (sy_db s) \<and> dom (job_of d') = dom (job_of (sy_db s))"
  proof (rule recover_effects [OF inv_wf [OF inv], of now])
    fix e
    assume e: "recover now (sy_db s) = (None, e)" "db_plans e = db_plans (sy_db s)"
      "\<And>i. job_of e i = map_option interrupted (job_of (sy_db s) i)"
    have eq: "d' = e" using rc e(1) by simp
    have pl: "plan_of d' = plan_of (sy_db s)" unfolding eq by (rule plan_of_cong [OF e(2)])
    have "open_of d' k = open_of (sy_db s) k" for k
    proof (cases "job_of (sy_db s) k")
      case None
      then show ?thesis by (simp add: open_of_def eq e(3))
    next
      case (Some j)
      obtain p where p: "plan_of (sy_db s) (job_plan j) = Some p" using wf_job_plan [OF inv_wf [OF inv] Some] by blast
      have "job_of d' k = Some (interrupted j)" "plan_of d' (job_plan (interrupted j)) = Some p"
        using Some p by (simp_all add: eq e(3)) (simp add: eq [symmetric] pl)
      moreover have "releases (job_state (interrupted j)) = releases (job_state j)"
        by (cases "job_state j") simp_all
      ultimately show ?thesis using open_of_row [OF Some p] open_of_row [of d' k "interrupted j" p] by simp
    qed
    then show ?thesis by (auto simp: eq e(3) dom_def)
  qed
  then show "open_of d' = open_of (sy_db s)" "dom (job_of d') = dom (job_of (sy_db s))" by simp_all
qed

lemma claims_refined:
  assumes inv: "sys_inv s" and calm: "calm_inv s" and step: "sys_step env hs s t"
  shows "claim_step (claims_of s) (claims_of t)"
  using step
proof cases
  case (planning w i now uid conn op rs prior input steps acks risks p d')
  then obtain b where sv: "save_plan p b (sy_db s) = Inr d'" by (auto dest: make_plan_saves)
  note eff = save_plan_effects [OF sv]
  have "open_of d' k = open_of (sy_db s) k" for k
  proof (cases "job_of (sy_db s) k")
    case (Some j)
    obtain q where q: "plan_of (sy_db s) (job_plan j) = Some q" using wf_job_plan [OF inv_wf [OF inv] Some] by blast
    moreover have "plan_of (sy_db s) (plan_id p) = None" using eff(2) by (simp add: plan_of_def)
    ultimately have "plan_of d' (job_plan j) = Some q" by (auto simp: eff(4))
    then show ?thesis using open_of_row [OF Some q] open_of_row [of d' k j q] Some by (simp add: eff(5))
  qed (simp add: open_of_def eff(5))
  then have "claims_of t = claims_of s" by (simp add: planning claims_of_def eff(5) fun_eq_iff)
  then show ?thesis by (simp add: stutter)
next
  case (applying w i now uid r j p input d')
  have "plan_of (sy_db s) (ar_plan r) = Some p"
    using apply_accepted(1) [OF applying(3)] by (auto simp: get_plan_def plan_of_def split: option.splits)
  then have p: "plan_of (sy_db s) (plan_id p) = Some p" using wf_plan_id [OF inv_wf [OF inv]] by metis
  show ?thesis
    using apply_accepted(3) [OF applying(3)] claims_accept [OF inv calm_held [OF calm] p]
      claims_accept_recovery [OF inv calm_held [OF calm] p] by (auto simp: applying(1))
next
  case (moving ts1 u ts2 h now w' d' r)
  have ok: "thread_ok (sy_db s) u" by (rule inv_thread [OF inv]) (simp add: moving)
  show ?thesis unfolding moving(1)
    by (rule claims_good_move [OF inv moving(2) thread_step_good [OF ok inv_wf [OF inv] moving(6)]])
next
  case (moving_free ts1 u ts2 h now w' d' r)
  have ok: "thread_ok (sy_db s) u" by (rule inv_thread [OF inv]) (simp add: moving_free)
  show ?thesis unfolding moving_free(1)
    by (rule claims_good_move [OF inv moving_free(2) thread_step_good [OF ok inv_wf [OF inv] moving_free(5)]])
next
  case (dying ts1 u ts2)
  have ok: "thread_ok (sy_db s) u" by (rule inv_thread [OF inv]) (simp add: dying)
  have "good_move (sy_db s) u (sy_db s) None" by (simp add: good_move_def)
  from claims_good_move [OF inv dying(2) this, of "sy_world s"] show ?thesis by (simp add: dying(1) thread_list_def)
next
  case (cancel_ends j now d')
  obtain row where row: "job_of (sy_db s) (job_id j) = Some row" "job_plan row = job_plan j"
    using inv_pending [OF inv] cancel_ends by (auto simp: pending_ok_def)
  have tch: "touch (sy_db s) j d'" using cancel_ends row by (auto simp: cancel_write_def intro!: touchI)
  have st: "job_state row = job_state j" using calm_pending [OF calm cancel_ends(2)] row(1) by auto
  have "\<not> releases (job_state j)" using inv_pending [OF inv] cancel_ends(2)
    by (cases "job_state j") (auto simp: pending_ok_def)
  then have "claim_step (claims_of s) (claims_of (s\<lparr>sy_db := d'\<rparr>))"
    using claims_touch [OF inv tch] row st by auto
  then show ?thesis by (simp add: cancel_ends(1) claims_of_def)
next
  case (reconciling w i now r d')
  from reconcile_effects [OF reconciling(3) inv_wf [OF inv]] show ?thesis
  proof
    assume "d' = sy_db s"
    then show ?thesis by (simp add: reconciling(1) stutter)
  next
    assume "\<exists>j. touch (sy_db s) j d' \<and> job_id j = i \<and> job_state j = Succeeded \<and>
      (\<exists>row. job_of (sy_db s) i = Some row \<and> recoverable (job_state row))"
    then obtain j row where j: "touch (sy_db s) j d'" "job_id j = i" "job_state j = Succeeded"
      and row: "job_of (sy_db s) i = Some row" "recoverable (job_state row)" by blast
    have "i \<notin> tid ` set (sy_threads s)"
    proof
      assume "i \<in> tid ` set (sy_threads s)"
      then obtain u where "u \<in> set (sy_threads s)" "tid u = i" by auto
      then have "active (job_state row)" using inv_thread [OF inv, of u] row(1) by (auto simp: thread_ok_def)
      then show False using row(2) active_not_recoverable by blast
    qed
    then show ?thesis using claims_touch [OF inv j(1)] j(2,3) by (simp add: reconciling(1))
  qed
next
  case (restarting now d')
  show ?thesis using crash [of "claims_of s"] restart_claims [OF inv restarting(2)] by (simp add: restarting(1) claims_of_def)
next
  case (noting u i msg now d')
  obtain row where row: "job_of (sy_db s) (tid u) = Some row" "update row msg now (sy_db s) = Inr d'"
    using noting by (auto simp: progress_note_def get_job_def split: option.splits if_splits)
  have id: "job_id row = tid u" by (rule wf_job_id [OF inv_wf [OF inv] row(1)])
  have tch: "touch (sy_db s) row d'" by (rule touchI [OF row(2)]) (use row(1) id in simp_all)
  have "active (job_state row)" using inv_thread [OF inv noting(2)] row(1) by (auto simp: thread_ok_def)
  then show ?thesis using claims_touch [OF inv tch] row(1) id active_not_releases by (auto simp: noting(1))
next
  case (recording kind i prev body reviewed d')
  then have d': "d' = put kind i body (sy_db s)" by (simp add: compare_put_jobs_Inr)
  have "job_of d' = job_of (sy_db s)" "plan_of d' = plan_of (sy_db s)" by (simp add: d', rule plan_of_cong, simp add: d')
  then have "claims_of t = claims_of s" using open_of_cong [of d' "sy_db s"] by (simp add: recording(1) claims_of_def)
  then show ?thesis by (simp add: stutter)
qed (simp_all add: claims_of_def stutter)

lemma fresh_claims: "claims_of (fresh_sys w) = no_claims"
  by (simp add: claims_of_def fresh_sys_def no_claims_def empty_db_def open_of_def fun_eq_iff)

lemma calm_claims: "reachable_calm env hs s \<Longrightarrow> claim_reachable (claims_of s)"
proof (induction rule: reachable_calm.induct)
  case (fresh_calm w)
  show ?case unfolding fresh_claims by (rule none_yet)
next
  case (later_calm s t)
  then show ?case
    using one_more [OF later_calm.IH] claims_refined [OF reachable_inv [OF calm_reachable [OF later_calm(1)]] reachable_calm_inv [OF later_calm(1)]]
    by blast
qed

section \<open>Refinement\<close>

text \<open>
  C14. The coordinator refines the claim protocol. While no row a cancellation has read is written
  before the cancellation writes it back, the claims of the journal and its goroutines are a state
  the protocol reaches, and every further step of the coordinator, planning, acceptance, any
  move or death of a goroutine, cancellation, reconciliation, restart or record, is one step of the
  protocol or leaves the claims alone. Hence claims of different jobs are apart, every live
  goroutine holds one, and only a release or a takeover by a fresh identity ends one.
\<close>

theorem coordinator_refines_claims:
  assumes "reachable_calm env hs s"
  shows "claim_reachable (claims_of s) \<and> claims_apart (claims_of s) \<and>
    (\<forall>t. sys_step env hs s t \<longrightarrow> claim_step (claims_of s) (claims_of t))"
  using calm_claims [OF assms] claim_reachable_apart
    claims_refined [OF reachable_inv [OF calm_reachable [OF assms]] reachable_calm_inv [OF assms]] by blast

theorem coordinator_refines_claims_witness:
  "claims_apart (claims_of one_running) \<and> cl_live (claims_of one_running) = {''j''} \<and> cl_open (claims_of one_running) ''j'' = Some {''vm''}"
proof -
  have "cl_live (claims_of one_running) = {''j''}" by (simp add: claims_of_def demo_eval)
  moreover have "cl_open (claims_of one_running) ''j'' = Some {''vm''}"
    by (simp add: claims_of_def open_of_def needs_def plan_of_def demo_eval)
  ultimately show ?thesis using coordinator_refines_claims [OF calm_one_running] by blast
qed

end
