(* ===== verification/Netip.thy ===== *)
theory Netip
  imports Prelude
begin

unbundle bit_operations_syntax

text \<open>
  What the program uses of Go's \<^verbatim>\<open>net/netip\<close> for IPv4: addresses as 32-bit words, prefixes,
  their masking, containment and overlap, their text and its parser; and of \<^verbatim>\<open>sort.Search\<close>.
  The lemmas relate masking to division, overlap to the intersection of address intervals,
  and the parser to the printer.
\<close>

section \<open>Prefixes\<close>

type_synonym addr4 = "32 word"

record prefix4 =
  p_addr :: addr4
  p_bits :: nat

datatype net_prefix = Invalid_prefix | Prefix4 prefix4 | Prefix6 "128 word" nat

definition is_4in6 :: "128 word \<Rightarrow> bool" where
  "is_4in6 a \<longleftrightarrow> drop_bit 32 a = 0xffff"

definition mask_addr :: "addr4 \<Rightarrow> nat \<Rightarrow> addr4" where
  "mask_addr a b = a AND push_bit (32 - b) (- 1)"

definition masked :: "prefix4 \<Rightarrow> prefix4" where
  "masked p = p\<lparr>p_addr := mask_addr (p_addr p) (p_bits p)\<rparr>"

definition contains4 :: "prefix4 \<Rightarrow> addr4 \<Rightarrow> bool" where
  "contains4 p a \<longleftrightarrow> drop_bit (32 - p_bits p) (p_addr p XOR a) = 0"

definition overlaps4 :: "prefix4 \<Rightarrow> prefix4 \<Rightarrow> bool" where
  "overlaps4 p q \<longleftrightarrow> p = q \<or> (let m = min (p_bits p) (p_bits q) in
     m = 0 \<or> mask_addr (p_addr p) m = mask_addr (p_addr q) m)"

text \<open>A valid prefix has at most 32 bits; its addresses are a block of naturals.\<close>

definition valid4 :: "prefix4 \<Rightarrow> bool" where
  "valid4 p \<longleftrightarrow> p_bits p \<le> 32"

definition block_size :: "prefix4 \<Rightarrow> nat" where
  "block_size p = 2 ^ (32 - p_bits p)"

definition block_start :: "prefix4 \<Rightarrow> nat" where
  "block_start p = unat (p_addr p) div block_size p * block_size p"

definition block :: "prefix4 \<Rightarrow> nat set" where
  "block p = {block_start p..<block_start p + block_size p}"

lemma block_size_pos [simp]: "0 < block_size p"
  by (simp add: block_size_def)

lemma mask_addr_shift: "mask_addr a b = push_bit (32 - b) (drop_bit (32 - b) a)"
  unfolding mask_addr_def by (rule bit_word_eqI) (auto simp: bit_simps)

lemma unat_shift_back:
  fixes x :: "'a::len word"
  shows "unat (push_bit k (drop_bit k x)) = unat x div 2 ^ k * 2 ^ k"
proof -
  have lt: "unat x < 2 ^ LENGTH('a)" by (rule unsigned_less)
  have "unat x div 2 ^ k * 2 ^ k \<le> unat x" by (rule div_times_less_eq_dividend)
  then have "take_bit LENGTH('a) (unat x div 2 ^ k * 2 ^ k) = unat x div 2 ^ k * 2 ^ k"
    using lt by (intro take_bit_nat_eq_self) linarith
  moreover have "unat (push_bit k (drop_bit k x)) = take_bit LENGTH('a) (push_bit k (drop_bit k (take_bit LENGTH('a) (unat x))))"
    by (simp only: unsigned_push_bit_eq unsigned_drop_bit_eq)
  moreover have "take_bit LENGTH('a) (unat x) = unat x" using lt by (rule take_bit_nat_eq_self)
  ultimately show ?thesis by (simp add: push_bit_eq_mult drop_bit_eq_div)
qed

lemma unat_mask_addr: "unat (mask_addr a b) = unat a div 2 ^ (32 - b) * 2 ^ (32 - b)"
  unfolding mask_addr_shift by (rule unat_shift_back)

lemma unat_masked: "unat (p_addr (masked p)) = block_start p"
  by (simp add: masked_def unat_mask_addr block_start_def block_size_def)

lemma masked_same_block [simp]: "block_start (masked p) = block_start p" "block_size (masked p) = block_size p"
  "p_bits (masked p) = p_bits p"
  by (simp_all add: block_start_def block_size_def masked_def unat_mask_addr)

lemma block_masked [simp]: "block (masked p) = block p"
  by (simp add: block_def)

lemma mask_addr_eq_iff: "mask_addr a m = mask_addr b m \<longleftrightarrow> unat a div 2 ^ (32 - m) = unat b div 2 ^ (32 - m)"
proof -
  have "mask_addr a m = mask_addr b m \<longleftrightarrow> unat (mask_addr a m) = unat (mask_addr b m)"
    by (simp add: word_unat_eq_iff)
  then show ?thesis by (simp add: unat_mask_addr)
qed

lemma in_block:
  fixes q s x :: nat
  assumes "0 < s"
  shows "q * s \<le> x \<and> x < q * s + s \<longleftrightarrow> x div s = q"
proof
  assume "q * s \<le> x \<and> x < q * s + s"
  then show "x div s = q" by (intro div_nat_eqI) (simp_all add: mult.commute)
next
  assume "x div s = q"
  then have "x = q * s + x mod s" using div_mult_mod_eq [of x s] by simp
  then show "q * s \<le> x \<and> x < q * s + s" using mod_less_divisor [OF assms, of x] by linarith
qed

lemma nonempty_Int: "A \<inter> B \<noteq> {} \<Longrightarrow> (\<And>x. x \<in> A \<Longrightarrow> x \<in> B \<Longrightarrow> R) \<Longrightarrow> R"
  by auto

text \<open>Aligned blocks are nested or disjoint.\<close>

lemma aligned_blocks:
  fixes a b :: nat
  assumes "i \<le> j"
  shows "{a div 2 ^ i * 2 ^ i..<a div 2 ^ i * 2 ^ i + 2 ^ i} \<inter> {b div 2 ^ j * 2 ^ j..<b div 2 ^ j * 2 ^ j + 2 ^ j} \<noteq> {}
    \<longleftrightarrow> a div 2 ^ j = b div 2 ^ j"
proof
  have blk: "x \<in> {c div 2 ^ k * 2 ^ k..<c div 2 ^ k * 2 ^ k + 2 ^ k} \<longleftrightarrow> x div 2 ^ k = c div 2 ^ k" for x c :: nat and k
    using in_block [of "2 ^ k" "c div 2 ^ k" x] by simp
  have up: "x div 2 ^ j = x div 2 ^ i div 2 ^ (j - i)" for x :: nat
    using assms by (simp add: div_mult2_eq [symmetric] power_add [symmetric])
  show "a div 2 ^ j = b div 2 ^ j"
    if ne: "{a div 2 ^ i * 2 ^ i..<a div 2 ^ i * 2 ^ i + 2 ^ i} \<inter> {b div 2 ^ j * 2 ^ j..<b div 2 ^ j * 2 ^ j + 2 ^ j} \<noteq> {}"
  proof -
    obtain x where "x \<in> {a div 2 ^ i * 2 ^ i..<a div 2 ^ i * 2 ^ i + 2 ^ i}"
      "x \<in> {b div 2 ^ j * 2 ^ j..<b div 2 ^ j * 2 ^ j + 2 ^ j}" using ne by (rule nonempty_Int)
    then have "x div 2 ^ i = a div 2 ^ i" "x div 2 ^ j = b div 2 ^ j" by (simp_all only: blk)
    then show ?thesis by (metis up)
  qed
  assume "a div 2 ^ j = b div 2 ^ j"
  then have "a \<in> {a div 2 ^ i * 2 ^ i..<a div 2 ^ i * 2 ^ i + 2 ^ i} \<inter> {b div 2 ^ j * 2 ^ j..<b div 2 ^ j * 2 ^ j + 2 ^ j}"
    by (intro IntI) (simp_all only: blk)
  then show "{a div 2 ^ i * 2 ^ i..<a div 2 ^ i * 2 ^ i + 2 ^ i} \<inter> {b div 2 ^ j * 2 ^ j..<b div 2 ^ j * 2 ^ j + 2 ^ j} \<noteq> {}"
    by blast
qed

lemma overlaps4_iff:
  assumes "valid4 p" and "valid4 q"
  shows "overlaps4 p q \<longleftrightarrow> block p \<inter> block q \<noteq> {}"
proof -
  have half: "overlaps4 p q \<longleftrightarrow> block p \<inter> block q \<noteq> {}" if v: "valid4 p" "valid4 q" "p_bits q \<le> p_bits p" for p q
  proof -
    have m: "min (p_bits p) (p_bits q) = p_bits q" using v(3) by simp
    have "block p \<inter> block q \<noteq> {} \<longleftrightarrow> mask_addr (p_addr p) (p_bits q) = mask_addr (p_addr q) (p_bits q)"
      unfolding block_def block_start_def block_size_def mask_addr_eq_iff
      by (rule aligned_blocks) (use v(3) in simp)
    moreover have "mask_addr (p_addr p) 0 = mask_addr (p_addr q) 0"
      unfolding mask_addr_eq_iff
      using unsigned_less [of "p_addr p", where ?'a = nat] unsigned_less [of "p_addr q", where ?'a = nat] by simp
    ultimately show ?thesis unfolding overlaps4_def Let_def m by (cases "p_bits q = 0") auto
  qed
  have sym: "overlaps4 p q = overlaps4 q p" by (auto simp: overlaps4_def min.commute Let_def)
  show ?thesis
  proof (cases "p_bits q \<le> p_bits p")
    case True
    then show ?thesis by (rule half [OF assms])
  next
    case False
    then show ?thesis using half [OF assms(2,1)] sym by (simp add: Int_commute)
  qed
qed

lemma contains4_iff: "contains4 p a \<longleftrightarrow> unat a \<in> block p"
proof -
  let ?k = "32 - p_bits p"
  have "contains4 p a \<longleftrightarrow> drop_bit ?k (p_addr p) = drop_bit ?k a"
    unfolding contains4_def by (auto simp: bit_eq_iff bit_simps)
  also have "\<dots> \<longleftrightarrow> unat (drop_bit ?k (p_addr p)) = unat (drop_bit ?k a)" by (simp add: word_unat_eq_iff)
  also have "\<dots> \<longleftrightarrow> unat (p_addr p) div 2 ^ ?k = unat a div 2 ^ ?k"
  proof -
    have "unat (drop_bit ?k w) = unat w div 2 ^ ?k" for w :: addr4
    proof -
      have "take_bit LENGTH(32) (unat w) = unat w"
        using unsigned_less [of w, where ?'a = nat] by (simp add: take_bit_nat_eq_self)
      then show ?thesis unfolding unsigned_drop_bit_eq by (simp only: drop_bit_eq_div)
    qed
    then show ?thesis by simp
  qed
  also have "\<dots> \<longleftrightarrow> unat a \<in> block p"
    using in_block [of "2 ^ ?k" "unat (p_addr p) div 2 ^ ?k" "unat a"]
    by (auto simp: block_def block_start_def block_size_def)
  finally show ?thesis .
qed

section \<open>The text of addresses and prefixes\<close>

definition is_digit :: "char \<Rightarrow> bool" where
  "is_digit c \<longleftrightarrow> c \<in> set ''0123456789''"

definition digit_val :: "char \<Rightarrow> nat" where
  "digit_val c = of_char c - 48"

definition parse_dec :: "string \<Rightarrow> nat" where
  "parse_dec s = foldl (\<lambda>n c. n * 10 + digit_val c) 0 s"

fun split_on :: "char \<Rightarrow> string \<Rightarrow> string list" where
  "split_on c [] = [[]]"
| "split_on c (x # xs) = (if x = c then [] # split_on c xs
     else case split_on c xs of [] \<Rightarrow> [[x]] | y # ys \<Rightarrow> (x # y) # ys)"

text \<open>A decimal field without sign and without a leading zero, as \<^verbatim>\<open>netip\<close> reads one.\<close>

definition plain_dec :: "string \<Rightarrow> bool" where
  "plain_dec s \<longleftrightarrow> s \<noteq> [] \<and> list_all is_digit s \<and> (length s > 1 \<longrightarrow> hd s \<noteq> CHR ''0'')"

definition octets :: "addr4 \<Rightarrow> nat list" where
  "octets a = (let n = unat a in [n div 2 ^ 24, n div 2 ^ 16 mod 256, n div 256 mod 256, n mod 256])"

definition addr4_of :: "nat \<Rightarrow> nat \<Rightarrow> nat \<Rightarrow> nat \<Rightarrow> addr4" where
  "addr4_of a b c d = word_of_nat (((a * 256 + b) * 256 + c) * 256 + d)"

definition parse_addr4 :: "string \<Rightarrow> addr4 option" where
  "parse_addr4 s = (case split_on CHR ''.'' s of
      [a, b, c, d] \<Rightarrow> (if list_all (\<lambda>f. plain_dec f \<and> parse_dec f \<le> 255) [a, b, c, d]
         then Some (addr4_of (parse_dec a) (parse_dec b) (parse_dec c) (parse_dec d)) else None)
    | _ \<Rightarrow> None)"

definition parse_prefix4 :: "string \<Rightarrow> prefix4 option" where
  "parse_prefix4 s = (case split_on CHR ''/'' s of
      [a, b] \<Rightarrow> (case parse_addr4 a of
          None \<Rightarrow> None
        | Some w \<Rightarrow> if plain_dec b \<and> parse_dec b \<le> 32 then Some \<lparr>p_addr = w, p_bits = parse_dec b\<rparr> else None)
    | _ \<Rightarrow> None)"

definition show_addr4 :: "addr4 \<Rightarrow> string" where
  "show_addr4 a = (case octets a of [w, x, y, z] \<Rightarrow>
     show_nat w @ ''.'' @ show_nat x @ ''.'' @ show_nat y @ ''.'' @ show_nat z | _ \<Rightarrow> [])"

definition show_prefix4 :: "prefix4 \<Rightarrow> string" where
  "show_prefix4 p = show_addr4 (p_addr p) @ ''/'' @ show_nat (p_bits p)"

lemma digit_cases: "n < 10 \<Longrightarrow> n \<in> {0, 1, 2, 3, 4, 5, 6, 7, 8, 9 :: nat}"
  by auto

lemma digit_char_facts: "n < 10 \<Longrightarrow> is_digit (digit_char n) \<and> digit_val (digit_char n) = n \<and>
    (digit_char n = CHR ''0'' \<longleftrightarrow> n = 0)"
  using digit_cases [of n] by (auto simp: is_digit_def digit_char_def digit_val_def)

lemma digit_char_val: "is_digit c \<Longrightarrow> digit_val c < 10 \<and> digit_char (digit_val c) = c"
  by (auto simp: is_digit_def digit_char_def digit_val_def)

lemma parse_dec_snoc: "parse_dec (xs @ [c]) = parse_dec xs * 10 + digit_val c"
  by (simp add: parse_dec_def)

lemma show_nat_digits: "show_nat n \<noteq> [] \<and> list_all is_digit (show_nat n) \<and> parse_dec (show_nat n) = n \<and>
    (hd (show_nat n) = CHR ''0'' \<longrightarrow> n = 0)"
proof (induction n rule: show_nat.induct)
  case (1 n)
  show ?case
  proof (cases "n < 10")
    case True
    then show ?thesis using digit_char_facts [OF True] by (simp add: show_nat.simps [of n] parse_dec_def)
  next
    case False
    then have "n div 10 \<noteq> 0" by (simp add: div_eq_0_iff)
    then show ?thesis using False 1 digit_char_facts [of "n mod 10"]
      by (simp add: show_nat.simps [of n] parse_dec_snoc)
  qed
qed

lemma plain_show_nat: "plain_dec (show_nat n)"
  using show_nat_digits [of n] by (cases "n = 0") (auto simp: plain_dec_def show_nat.simps [of 0])

lemma parse_show_nat [simp]: "parse_dec (show_nat n) = n"
  using show_nat_digits by blast

lemma parse_dec_pos:
  assumes "plain_dec s" and "hd s \<noteq> CHR ''0''"
  shows "0 < parse_dec s"
  using assms
proof (induction s rule: rev_induct)
  case (snoc c xs)
  show ?case
  proof (cases xs)
    case Nil
    then show ?thesis using snoc.prems by (auto simp: plain_dec_def is_digit_def parse_dec_def digit_val_def)
  next
    case Cons
    then have "plain_dec xs" "hd xs \<noteq> CHR ''0''" using snoc.prems by (auto simp: plain_dec_def)
    then show ?thesis using snoc.IH by (simp add: parse_dec_snoc)
  qed
qed (simp add: plain_dec_def)

lemma show_parse_dec: "plain_dec s \<Longrightarrow> show_nat (parse_dec s) = s"
proof (induction s rule: rev_induct)
  case (snoc c xs)
  have c: "digit_val c < 10" "digit_char (digit_val c) = c"
    using snoc.prems digit_char_val by (auto simp: plain_dec_def)
  show ?case
  proof (cases xs)
    case Nil
    then show ?thesis using c by (simp add: parse_dec_def show_nat.simps [of "digit_val c"])
  next
    case Cons
    then have xs: "plain_dec xs" "hd xs \<noteq> CHR ''0''" using snoc.prems by (auto simp: plain_dec_def)
    then have "\<not> parse_dec xs * 10 + digit_val c < 10" using parse_dec_pos by fastforce
    then show ?thesis using c snoc.IH [OF xs(1)]
      by (simp add: parse_dec_snoc show_nat.simps [of "parse_dec xs * 10 + digit_val c"])
  qed
qed (simp add: plain_dec_def)

lemma split_on_sep: "c \<notin> set a \<Longrightarrow> split_on c (a @ c # r) = a # split_on c r"
  by (induction a) auto

lemma split_on_none: "c \<notin> set a \<Longrightarrow> split_on c a = [a]"
  by (induction a) auto

lemma split_on_nonempty [simp]: "split_on c s \<noteq> []"
  by (cases s) (auto split: list.splits)

text \<open>A split text is its parts with the separator between them.\<close>

lemma split_on_two: "split_on c s = a # b # ps \<Longrightarrow> \<exists>r. s = a @ c # r \<and> split_on c r = b # ps"
proof (induction s arbitrary: a)
  case (Cons x xs)
  show ?case
  proof (cases "x = c")
    case True
    then show ?thesis using Cons.prems by auto
  next
    case False
    then obtain a' where a': "a = x # a'" "split_on c xs = a' # b # ps"
      using Cons.prems by (auto split: list.splits)
    then show ?thesis using Cons.IH [OF a'(2)] by auto
  qed
qed simp

lemma split_on_one: "split_on c s = [a] \<Longrightarrow> s = a"
proof (induction s arbitrary: a)
  case (Cons x xs)
  obtain y ys where y: "split_on c xs = y # ys" using split_on_nonempty [of c xs] by (cases "split_on c xs") simp_all
  have ne: "x \<noteq> c"
  proof
    assume "x = c"
    then have "split_on c (x # xs) = [] # y # ys" by (simp add: y)
    then show False using Cons.prems by simp
  qed
  then have "split_on c (x # xs) = (x # y) # ys" by (simp add: y)
  then have "ys = []" "a = x # y" using Cons.prems by simp_all
  moreover have "xs = y" by (rule Cons.IH) (simp add: y \<open>ys = []\<close>)
  ultimately show ?case by simp
qed simp

lemma digits_no_sep: "list_all is_digit s \<Longrightarrow> CHR ''.'' \<notin> set s \<and> CHR ''/'' \<notin> set s"
proof -
  have "\<not> is_digit CHR ''.''" "\<not> is_digit CHR ''/''" by (simp_all add: is_digit_def)
  then show "list_all is_digit s \<Longrightarrow> ?thesis" by (auto simp only: list_all_iff)
qed

lemma show_nat_no_sep [simp]: "CHR ''.'' \<notin> set (show_nat n)" "CHR ''/'' \<notin> set (show_nat n)"
  using show_nat_digits [of n] digits_no_sep by blast+

lemma octets_small: "octets a = [w, x, y, z] \<Longrightarrow> w < 256 \<and> x < 256 \<and> y < 256 \<and> z < 256"
  using unsigned_less [of a, where ?'a = nat] by (auto simp: octets_def Let_def)

lemma addr4_of_octets: "octets a = [w, x, y, z] \<Longrightarrow> addr4_of w x y z = a"
proof -
  assume o: "octets a = [w, x, y, z]"
  let ?n = "unat a"
  have w: "w = ?n div 65536 div 256" and x: "x = ?n div 256 div 256 mod 256" and y: "y = ?n div 256 mod 256"
    and z: "z = ?n mod 256" using o by (simp_all add: octets_def Let_def div_mult2_eq [symmetric])
  have "?n div 65536 = ?n div 256 div 256" by (simp add: div_mult2_eq [symmetric])
  then have "w * 256 + x = ?n div 256 div 256" unfolding w x by (simp only: div_mult_mod_eq)
  then have "(w * 256 + x) * 256 + y = ?n div 256" unfolding y by (simp only: div_mult_mod_eq)
  then have "((w * 256 + x) * 256 + y) * 256 + z = ?n" unfolding z by (simp only: div_mult_mod_eq)
  then show ?thesis unfolding addr4_of_def by simp
qed

lemma octets_addr4_of:
  assumes "w < 256" and "x < 256" and "y < 256" and "z < 256"
  shows "octets (addr4_of w x y z) = [w, x, y, z]"
proof -
  let ?n = "((w * 256 + x) * 256 + y) * 256 + z"
  have "?n < 2 ^ 32" using assms by simp
  then have n: "unat (addr4_of w x y z) = ?n"
    unfolding addr4_of_def unsigned_of_nat by (simp add: take_bit_nat_eq_self)
  have dm: "(A * 256 + r) div 256 = A" "(A * 256 + r) mod 256 = r" if "r < 256" for A r :: nat using that by simp_all
  note q = dm [OF assms(4), of "(w * 256 + x) * 256 + y"]
  note q2 = dm [OF assms(3), of "w * 256 + x"]
  note q3 = dm [OF assms(2), of w]
  have "?n div 2 ^ 16 = ?n div 256 div 256" "?n div 2 ^ 24 = ?n div 256 div 256 div 256"
    by (simp_all add: div_mult2_eq [symmetric])
  then have "?n div 2 ^ 16 = w * 256 + x" "?n div 2 ^ 24 = w" by (simp_all only: q q2 q3)
  then show ?thesis unfolding octets_def Let_def n by (simp only: q q2 q3)
qed

lemma octets_four: "\<exists>w x y z. octets a = [w, x, y, z]"
  by (simp add: octets_def Let_def)

lemma parse_show_addr4: "parse_addr4 (show_addr4 a) = Some a"
proof -
  obtain w x y z where o: "octets a = [w, x, y, z]" using octets_four by blast
  have "split_on CHR ''.'' (show_addr4 a) = [show_nat w, show_nat x, show_nat y, show_nat z]"
    by (simp add: show_addr4_def o split_on_sep split_on_none)
  then show ?thesis
    using octets_small [OF o] addr4_of_octets [OF o] by (simp add: parse_addr4_def plain_show_nat)
qed

lemma show_parse_addr4: "parse_addr4 s = Some a \<Longrightarrow> show_addr4 a = s"
proof -
  assume p: "parse_addr4 s = Some a"
  obtain w x y z where sp: "split_on CHR ''.'' s = [w, x, y, z]"
    using p by (auto simp: parse_addr4_def split: list.splits)
  then have ok: "plain_dec w" "plain_dec x" "plain_dec y" "plain_dec z" "parse_dec w \<le> 255" "parse_dec x \<le> 255"
    "parse_dec y \<le> 255" "parse_dec z \<le> 255"
    and a: "a = addr4_of (parse_dec w) (parse_dec x) (parse_dec y) (parse_dec z)"
    using p by (auto simp: parse_addr4_def split: if_splits)
  have "octets a = [parse_dec w, parse_dec x, parse_dec y, parse_dec z]"
    unfolding a by (rule octets_addr4_of) (use ok in simp_all)
  moreover have "s = w @ ''.'' @ x @ ''.'' @ y @ ''.'' @ z"
  proof -
    obtain r where r: "s = w @ CHR ''.'' # r" "split_on CHR ''.'' r = [x, y, z]" using split_on_two [OF sp] by blast
    obtain r2 where r2: "r = x @ CHR ''.'' # r2" "split_on CHR ''.'' r2 = [y, z]" using split_on_two [OF r(2)] by blast
    obtain r3 where r3: "r2 = y @ CHR ''.'' # r3" "split_on CHR ''.'' r3 = [z]" using split_on_two [OF r2(2)] by blast
    show ?thesis using r(1) r2(1) r3(1) split_on_one [OF r3(2)] by simp
  qed
  ultimately show ?thesis by (simp add: show_addr4_def show_parse_dec ok)
qed

lemma show_addr4_no_slash: "CHR ''/'' \<notin> set (show_addr4 a)"
  using octets_four [of a] by (auto simp: show_addr4_def)

lemma parse_show_prefix4: "valid4 p \<Longrightarrow> parse_prefix4 (show_prefix4 p) = Some p"
  by (simp add: parse_prefix4_def show_prefix4_def split_on_sep [OF show_addr4_no_slash] split_on_none
      parse_show_addr4 plain_show_nat valid4_def)

lemma show_parse_prefix4: "parse_prefix4 s = Some p \<Longrightarrow> show_prefix4 p = s \<and> valid4 p"
proof -
  assume p: "parse_prefix4 s = Some p"
  obtain a b where sp: "split_on CHR ''/'' s = [a, b]" using p by (auto simp: parse_prefix4_def split: list.splits)
  then obtain w where w: "parse_addr4 a = Some w" "plain_dec b" "parse_dec b \<le> 32" "p = \<lparr>p_addr = w, p_bits = parse_dec b\<rparr>"
    using p by (auto simp: parse_prefix4_def split: option.splits if_splits)
  obtain r where "s = a @ CHR ''/'' # r" "split_on CHR ''/'' r = [b]" using split_on_two [OF sp] by blast
  then have "s = a @ ''/'' @ b" using split_on_one by simp
  then show ?thesis using w show_parse_addr4 [OF w(1)] by (simp add: show_prefix4_def show_parse_dec valid4_def)
qed

end
