(* ===== verification/Text.thy ===== *)
theory Text
  imports Netip
begin

text \<open>
  Go's text helpers the components share: prefixes and suffixes of a string, trimming,
  \<^verbatim>\<open>strings.Fields\<close> on UTF-8 text, lines as \<^verbatim>\<open>bufio.Scanner\<close> cuts them, and the character
  classes of the regular expressions. Strings are byte strings, one \<open>char\<close> a byte.
\<close>

section \<open>Prefixes and suffixes\<close>

definition has_prefix :: "string \<Rightarrow> string \<Rightarrow> bool" where
  "has_prefix p s \<longleftrightarrow> take (length p) s = p"

definition has_suffix :: "string \<Rightarrow> string \<Rightarrow> bool" where
  "has_suffix p s \<longleftrightarrow> length p \<le> length s \<and> drop (length s - length p) s = p"

definition trim_prefix :: "string \<Rightarrow> string \<Rightarrow> string" where
  "trim_prefix p s = (if has_prefix p s then drop (length p) s else s)"

definition cut_prefix :: "string \<Rightarrow> string \<Rightarrow> string option" where
  "cut_prefix p s = (if has_prefix p s then Some (drop (length p) s) else None)"

definition trim_set :: "string \<Rightarrow> string \<Rightarrow> string" where
  "trim_set cs s = rev (dropWhile (\<lambda>c. c \<in> set cs) (rev (dropWhile (\<lambda>c. c \<in> set cs) s)))"

lemma has_prefix_append: "has_prefix p s \<longleftrightarrow> (\<exists>r. s = p @ r)"
  unfolding has_prefix_def by (metis append_eq_conv_conj append_take_drop_id)

lemma has_prefix_self [simp]: "has_prefix p (p @ r)"
  by (simp add: has_prefix_def)

lemma has_suffix_append: "has_suffix p s \<longleftrightarrow> (\<exists>r. s = r @ p)"
  unfolding has_suffix_def by (metis append_eq_conv_conj append_take_drop_id diff_add_inverse2 le_add2 length_append)

lemma has_suffix_self [simp]: "has_suffix p (r @ p)"
  using has_suffix_append by blast

lemma cut_prefix_Some: "cut_prefix p s = Some r \<longleftrightarrow> s = p @ r"
  by (auto simp: cut_prefix_def has_prefix_append)

lemma trim_set_empty: "trim_set cs s = [] \<longleftrightarrow> set s \<subseteq> set cs"
proof -
  have "trim_set cs s = [] \<longleftrightarrow> (\<forall>c \<in> set (dropWhile (\<lambda>c. c \<in> set cs) s). c \<in> set cs)"
    by (simp add: trim_set_def dropWhile_eq_Nil_conv)
  also have "\<dots> \<longleftrightarrow> set s \<subseteq> set cs"
    by (induction s) auto
  finally show ?thesis .
qed

section \<open>Character classes\<close>

definition char_in :: "char \<Rightarrow> nat \<Rightarrow> nat \<Rightarrow> bool" where
  "char_in c lo hi \<longleftrightarrow> lo \<le> (of_char c :: nat) \<and> (of_char c :: nat) \<le> hi"

definition is_lower :: "char \<Rightarrow> bool" where
  "is_lower c \<longleftrightarrow> char_in c 97 122"

definition is_upper :: "char \<Rightarrow> bool" where
  "is_upper c \<longleftrightarrow> char_in c 65 90"

definition alnum :: "char \<Rightarrow> bool" where
  "alnum c \<longleftrightarrow> is_lower c \<or> is_upper c \<or> char_in c 48 57"

text \<open>\<^verbatim>\<open>strings.ToLower\<close> of an ASCII character.\<close>

definition lower :: "char \<Rightarrow> char" where
  "lower c = (if is_upper c then char_of ((of_char c :: nat) + 32) else c)"

definition hex_digits :: string where
  "hex_digits = ''0123456789abcdef''"

text \<open>The shape \<^verbatim>\<open>^[first][rest]{0,n}$\<close> of the names the program accepts.\<close>

definition name_shape :: "(char \<Rightarrow> bool) \<Rightarrow> (char \<Rightarrow> bool) \<Rightarrow> nat \<Rightarrow> string \<Rightarrow> bool" where
  "name_shape first rest n s \<longleftrightarrow> s \<noteq> [] \<and> first (hd s) \<and> list_all rest (tl s) \<and> length s \<le> Suc n"

section \<open>Words and lines\<close>

text \<open>The width in bytes of the white space (\<^verbatim>\<open>unicode.IsSpace\<close>, in UTF-8) a text starts with, or 0.\<close>

definition space_width :: "string \<Rightarrow> nat" where
  "space_width s = (case map of_char (take 3 s) :: nat list of
      [] \<Rightarrow> 0
    | a # r \<Rightarrow>
        if a \<in> {9, 10, 11, 12, 13, 32} then 1
        else (case r of
            [] \<Rightarrow> 0
          | b # r' \<Rightarrow>
              if a = 0xC2 \<and> b \<in> {0x85, 0xA0} then 2
              else (case r' of
                  [] \<Rightarrow> 0
                | c # _ \<Rightarrow>
                    if a = 0xE1 \<and> b = 0x9A \<and> c = 0x80 \<or>
                       a = 0xE2 \<and> b = 0x80 \<and> (0x80 \<le> c \<and> c \<le> 0x8A \<or> c \<in> {0xA8, 0xA9, 0xAF}) \<or>
                       a = 0xE2 \<and> b = 0x81 \<and> c = 0x9F \<or>
                       a = 0xE3 \<and> b = 0x80 \<and> c = 0x80
                    then 3 else 0)))"

text \<open>\<^verbatim>\<open>strings.Fields\<close>: \<open>w\<close> is the word being read.\<close>

function text_fields_from :: "string \<Rightarrow> string \<Rightarrow> string list" where
  "text_fields_from w s = (if s = [] then (if w = [] then [] else [w])
     else if space_width s > 0
       then (if w = [] then [] else [w]) @ text_fields_from [] (drop (space_width s) s)
       else text_fields_from (w @ [hd s]) (tl s))"
  by pat_completeness auto
termination by (relation "measure (\<lambda>(w, s). length s)") auto

declare text_fields_from.simps [simp del]

definition text_fields :: "string \<Rightarrow> string list" where
  "text_fields s = text_fields_from [] s"

text \<open>\<^verbatim>\<open>bufio.ScanLines\<close>: lines end at a newline, a final empty line is dropped, one \<^verbatim>\<open>\r\<close> is cut.\<close>

definition drop_cr :: "string \<Rightarrow> string" where
  "drop_cr l = (if l \<noteq> [] \<and> last l = CHR 13 then butlast l else l)"

definition scan_lines :: "string \<Rightarrow> string list" where
  "scan_lines s = (let ls = split_on CHR 10 s in map drop_cr (if last ls = [] then butlast ls else ls))"

section \<open>Decimal numerals of bounded length\<close>

lemma length_show_nat: "0 < k \<Longrightarrow> length (show_nat n) \<le> k \<longleftrightarrow> n < 10 ^ k"
proof (induction n arbitrary: k rule: show_nat.induct)
  case (1 n)
  show ?case
  proof (cases "n < 10")
    case True
    then have "n < 10 ^ k" using \<open>0 < k\<close> self_le_power [of "10 :: nat" k] by linarith
    then show ?thesis using True \<open>0 < k\<close> by (simp add: show_nat.simps [of n])
  next
    case False
    then have len: "length (show_nat n) = Suc (length (show_nat (n div 10)))" by (simp add: show_nat.simps [of n])
    have ne: "0 < length (show_nat (n div 10))" using show_nat_digits [of "n div 10"] by simp
    show ?thesis
    proof (cases "k = 1")
      case True
      have "\<not> length (show_nat n) \<le> 1" using ne len by linarith
      then show ?thesis using False True by simp
    next
      case k: False
      then obtain j where j: "k = Suc j" "0 < j" using \<open>0 < k\<close> by (cases k) auto
      have "n div 10 < 10 ^ j \<longleftrightarrow> n < 10 ^ k" unfolding j(1) power_Suc
        by (simp add: div_less_iff_less_mult mult.commute)
      then show ?thesis using 1(1) [OF False j(2)] len j(1) by simp
    qed
  qed
qed

end
