(* ===== verification/Allocation.thy ===== *)
theory Allocation
  imports Domain Text
begin

text \<open>
  The subnet allocator of \<^verbatim>\<open>internal/app/network/allocation.go\<close>: validation of the declared
  ranges and reservations, the occupied intervals as pairs of 64-bit words, their sorting
  and merging, the binary search for the first relevant one and the scan that jumps from
  interval to interval. The lemmas prove the scan against the blocks of addresses.
\<close>

section \<open>The configuration\<close>

record alloc_range =
  rg_cidr :: string
  rg_len :: int

record planned_alloc =
  pl_id :: string
  pl_cidr :: string

record alloc_config =
  ac_version :: int
  ac_ranges :: "alloc_range list"
  ac_planned :: "planned_alloc list"

definition default_allocation_config :: alloc_config where
  "default_allocation_config = \<lparr>ac_version = 1, ac_ranges =
     [\<lparr>rg_cidr = ''10.0.0.0/8'', rg_len = 24\<rparr>, \<lparr>rg_cidr = ''172.16.0.0/12'', rg_len = 24\<rparr>,
      \<lparr>rg_cidr = ''192.168.0.0/16'', rg_len = 24\<rparr>], ac_planned = []\<rparr>"

text \<open>\<^verbatim>\<open>allocationPrivatePrefix\<close>: an IPv6 text parses as well, but is refused as not IPv4.\<close>

definition private_prefix :: "string \<Rightarrow> prefix4 option" where
  "private_prefix raw = (if length raw > 18 then None
     else case parse_prefix4 raw of
       None \<Rightarrow> None
     | Some p \<Rightarrow>
         (let a = octets (p_addr p) in
          if p = masked p \<and> show_prefix4 p = raw \<and>
             (a ! 0 = 10 \<and> p_bits p \<ge> 8 \<or>
              a ! 0 = 172 \<and> a ! 1 \<ge> 16 \<and> a ! 1 \<le> 31 \<and> p_bits p \<ge> 12 \<or>
              a ! 0 = 192 \<and> a ! 1 = 168 \<and> p_bits p \<ge> 16)
          then Some p else None))"

definition id_char :: "char \<Rightarrow> bool" where
  "id_char ch \<longleftrightarrow> (let n = of_char ch :: nat in 65 \<le> n \<and> n \<le> 90 \<or> 97 \<le> n \<and> n \<le> 122 \<or> 48 \<le> n \<and> n \<le> 57)"

definition allocation_id :: "string \<Rightarrow> bool" where
  "allocation_id i \<longleftrightarrow> i \<noteq> [] \<and> length i \<le> 128 \<and> id_char (hd i) \<and>
     list_all (\<lambda>ch. id_char ch \<or> ch \<in> set ''_.:-'') (tl i)"

fun check_ranges :: "nat \<Rightarrow> alloc_range list \<Rightarrow> prefix4 list \<Rightarrow> go_error + unit" where
  "check_ranges i [] ranges = Inr ()"
| "check_ranges i (r # rs) ranges =
     (case private_prefix (rg_cidr r) of
        Some p \<Rightarrow>
          (if rg_len r < 8 \<or> rg_len r < int (p_bits p) \<or> rg_len r > 30
           then failr ''INVALID_INPUT'' (''allocation range '' @ show_nat i @
             '' requires a canonical RFC1918 pool and subnet prefix between the pool prefix and /30'')
           else if list_ex (overlaps4 p) ranges
           then failr ''INVALID_INPUT'' ''allocation search ranges must be disjoint''
           else check_ranges (Suc i) rs (ranges @ [p]))
      | None \<Rightarrow> failr ''INVALID_INPUT'' (''allocation range '' @ show_nat i @
          '' requires a canonical RFC1918 pool and subnet prefix between the pool prefix and /30''))"

fun check_planned :: "nat \<Rightarrow> planned_alloc list \<Rightarrow> string list \<Rightarrow> go_error + unit" where
  "check_planned i [] ids = Inr ()"
| "check_planned i (p # ps) ids =
     (if \<not> allocation_id (pl_id p) \<or> pl_id p \<in> set ids
      then failr ''INVALID_INPUT'' (''planned allocation '' @ show_nat i @
        '' requires a unique ID matching [A-Za-z0-9][A-Za-z0-9_.:-]{0,127}'')
      else if private_prefix (pl_cidr p) = None
      then failr ''INVALID_INPUT'' (''planned allocation '' @ show_nat i @ '' requires a canonical RFC1918 IPv4 prefix'')
      else check_planned (Suc i) ps (pl_id p # ids))"

definition validate_allocation_config :: "alloc_config \<Rightarrow> go_error + unit" where
  "validate_allocation_config c =
     (if ac_version c \<noteq> 1 \<or> length (ac_ranges c) < 1 \<or> length (ac_ranges c) > 16 \<or> length (ac_planned c) > 256
      then failr ''INVALID_INPUT'' ''allocation configuration requires version 1, 1..16 ranges and at most 256 planned reservations''
      else bindr (check_ranges 0 (ac_ranges c) []) (\<lambda>_. check_planned 0 (ac_planned c) []))"

section \<open>Intervals\<close>

type_synonym span = "64 word \<times> 64 word"

definition allocation_span :: "prefix4 \<Rightarrow> span" where
  "allocation_span p = (let start = ucast (p_addr (masked p)) in (start, start + push_bit (32 - p_bits p) 1))"

fun occupied_spans :: "nat \<Rightarrow> net_prefix list \<Rightarrow> go_error + span list" where
  "occupied_spans i [] = Inr []"
| "occupied_spans i (p # ps) = (case p of
      Invalid_prefix \<Rightarrow> failr ''INVALID_INPUT'' (''occupied prefix '' @ show_nat i @ '' is invalid or IPv4-mapped'')
    | Prefix4 q \<Rightarrow>
        (if \<not> valid4 q
         then failr ''INVALID_INPUT'' (''occupied prefix '' @ show_nat i @ '' is invalid or IPv4-mapped'')
         else bindr (occupied_spans (Suc i) ps) (\<lambda>ss. Inr (allocation_span q # ss)))
    | Prefix6 a b \<Rightarrow>
        (if b > 128 \<or> is_4in6 a
         then failr ''INVALID_INPUT'' (''occupied prefix '' @ show_nat i @ '' is invalid or IPv4-mapped'')
         else occupied_spans (Suc i) ps))"

fun merge_spans :: "span list \<Rightarrow> span list" where
  "merge_spans (m # s # ss) =
     (if fst s \<le> snd m
      then merge_spans ((if snd s > snd m then (fst m, snd s) else m) # ss)
      else m # merge_spans (s # ss))"
| "merge_spans ss = ss"

text \<open>\<^verbatim>\<open>sort.Search\<close>: the least index in \<open>[i, j)\<close> where a monotone predicate holds, or \<open>j\<close>.\<close>

function bsearch :: "nat \<Rightarrow> nat \<Rightarrow> (nat \<Rightarrow> bool) \<Rightarrow> nat" where
  "bsearch i j f = (if i < j then
     (let h = (i + j) div 2 in if f h then bsearch i h f else bsearch (Suc h) j f) else i)"
  by pat_completeness auto
termination by (relation "measure (\<lambda>(i, j, f). j - i)") auto

declare bsearch.simps [simp del]

definition align_up :: "64 word \<Rightarrow> 64 word \<Rightarrow> 64 word" where
  "align_up e sz = (e + sz - 1) AND NOT (sz - 1)"

fun scan :: "64 word \<Rightarrow> 64 word \<Rightarrow> 64 word \<Rightarrow> span list \<Rightarrow> 64 word" where
  "scan pool_end sz cursor [] = cursor"
| "scan pool_end sz cursor (busy # bs) =
     (if snd busy \<le> cursor then scan pool_end sz cursor bs
      else if fst busy \<ge> pool_end \<or> fst busy \<ge> cursor + sz then cursor
      else let nxt = align_up (snd busy) sz in
        if nxt + sz > pool_end then nxt else scan pool_end sz nxt bs)"

definition allocate_range :: "span list \<Rightarrow> prefix4 \<Rightarrow> nat \<Rightarrow> prefix4 option" where
  "allocate_range merged p len =
     (let pool = allocation_span p; sz = push_bit (32 - len) 1; start = fst pool;
          first = bsearch 0 (length merged) (\<lambda>i. snd (merged ! i) > start);
          cursor = scan (snd pool) sz start (drop first merged) in
      if cursor + sz \<le> snd pool then Some \<lparr>p_addr = ucast cursor, p_bits = len\<rparr> else None)"

fun first_range :: "span list \<Rightarrow> alloc_range list \<Rightarrow> prefix4 option" where
  "first_range merged [] = None"
| "first_range merged (r # rs) =
     (case allocate_range merged (the (parse_prefix4 (rg_cidr r))) (nat (rg_len r)) of
        Some q \<Rightarrow> Some q | None \<Rightarrow> first_range merged rs)"

text \<open>
  \<open>ctx\<close> is the state of the context: the code polls it between all its stages, with no effect
  to undo, so a cancellation that arrives later is the same outcome.
\<close>

definition allocate_configured :: "go_error option \<Rightarrow> alloc_config \<Rightarrow> net_prefix list \<Rightarrow> go_error + prefix4" where
  "allocate_configured ctx c occupied =
     (case ctx of Some e \<Rightarrow> Inl e | None \<Rightarrow>
       bindr (validate_allocation_config c) (\<lambda>_.
       bindr (checkr (length occupied \<le> 65536) (Domain_error (fail ''INVALID_INPUT'' ''occupied prefix limit is 65536''))) (\<lambda>_.
       bindr (occupied_spans 0 occupied) (\<lambda>occ.
         let spans = occ @ map (\<lambda>p. allocation_span (the (parse_prefix4 (pl_cidr p)))) (ac_planned c);
             merged = merge_spans (sort_key fst (sort_key snd spans)) in
         case first_range merged (ac_ranges c) of
           Some q \<Rightarrow> Inr q
         | None \<Rightarrow> failr ''CIDR_CONFLICT'' ''no non-overlapping private subnet available in the configured ranges''))))"

section \<open>Word arithmetic that does not wrap\<close>

lemma unat_add64: "unat a + unat b < 2 ^ 64 \<Longrightarrow> unat (a + b :: 64 word) = unat a + unat b"
  by (simp add: unat_word_ariths(1))

lemma unat_size: "k < 64 \<Longrightarrow> unat (push_bit k 1 :: 64 word) = 2 ^ k"
proof -
  assume k: "k < 64"
  have "unat (push_bit k 1 :: 64 word) = take_bit LENGTH(64) (push_bit k 1)" by (simp only: unsigned_push_bit_eq unsigned_1)
  also have "\<dots> = 2 ^ k" proof -
    have "(2 :: nat) ^ k < 2 ^ LENGTH(64)" using k by (intro power_strict_increasing) simp_all
    then show ?thesis unfolding push_bit_of_1 by (rule take_bit_nat_eq_self)
  qed
  finally show ?thesis .
qed

lemma unat_align_up:
  assumes k: "k < 32" and e: "unat e \<le> 2 ^ 32"
  shows "unat (align_up e (push_bit k 1)) = (unat e + (2 ^ k - 1)) div 2 ^ k * 2 ^ k"
proof -
  have m: "push_bit k 1 - 1 = (mask k :: 64 word)" by (simp add: mask_eq_exp_minus_1)
  then have "align_up e (push_bit k 1) = (e + mask k) AND NOT (mask k)"
    by (simp add: align_up_def add_diff_eq [symmetric] del: push_bit_of_1)
  also have "\<dots> = push_bit k (drop_bit k (e + mask k))" by (rule bit_word_eqI) (auto simp: bit_simps)
  finally have "unat (align_up e (push_bit k 1)) = unat (e + mask k) div 2 ^ k * 2 ^ k"
    by (simp only: unat_shift_back)
  moreover have "unat (mask k :: 64 word) = 2 ^ k - 1"
  proof -
    have s: "unat (push_bit k 1 :: 64 word) = 2 ^ k" using k by (intro unat_size) simp
    have "(1 :: 64 word) \<le> push_bit k 1" unfolding word_le_nat_alt s by simp
    from unat_sub [OF this] show ?thesis unfolding m s by simp
  qed
  moreover have "(2 :: nat) ^ k \<le> 2 ^ 32" using k by (intro power_increasing) simp_all
  ultimately show ?thesis using e by (simp add: unat_add64)
qed

lemma align_up_least:
  fixes e w x :: nat
  assumes "0 < w"
  shows "w dvd (e + (w - 1)) div w * w" and "e \<le> (e + (w - 1)) div w * w" and "(e + (w - 1)) div w * w < e + w"
    and "w dvd x \<Longrightarrow> e \<le> x \<Longrightarrow> (e + (w - 1)) div w * w \<le> x"
proof -
  show "w dvd (e + (w - 1)) div w * w" by simp
  have "e + (w - 1) < (e + (w - 1)) div w * w + w" 
    using div_mult_mod_eq [of "e + (w - 1)" w] mod_less_divisor [OF assms, of "e + (w - 1)"] by linarith
  then show "e \<le> (e + (w - 1)) div w * w" using assms by linarith
  have "(e + (w - 1)) div w * w \<le> e + (w - 1)" by (rule div_times_less_eq_dividend)
  then show "(e + (w - 1)) div w * w < e + w" using assms by linarith
  assume "w dvd x" "e \<le> x"
  then obtain q where q: "x = q * w" by (metis dvd_def mult.commute)
  have "e + (w - 1) < x + w" using \<open>e \<le> x\<close> assms by linarith
  then have "e + (w - 1) < Suc q * w" by (simp add: q)
  then have "(e + (w - 1)) div w < Suc q" by (metis div_less_iff_less_mult assms)
  then show "(e + (w - 1)) div w * w \<le> x" unfolding q by (intro mult_le_mono1) (simp only: less_Suc_eq_le)
qed

section \<open>The scan\<close>

text \<open>A block of width \<open>w\<close> at \<open>x\<close> meets an occupied interval.\<close>

definition hits :: "span list \<Rightarrow> nat \<Rightarrow> nat \<Rightarrow> bool" where
  "hits ss w x \<longleftrightarrow> (\<exists>s \<in> set ss. unat (fst s) < x + w \<and> x < unat (snd s))"

definition proper :: "span list \<Rightarrow> bool" where
  "proper ss \<longleftrightarrow> (\<forall>s \<in> set ss. unat (fst s) < unat (snd s) \<and> unat (snd s) \<le> 2 ^ 32)"

lemma scan_spec:
  assumes "proper ss" and "sorted (map fst ss)" and k: "k < 32" and "unat pe \<le> 2 ^ 32"
    and "unat c \<le> 2 ^ 33" and "2 ^ k dvd unat c"
  shows "2 ^ k dvd unat (scan pe (push_bit k 1) c ss) \<and> unat c \<le> unat (scan pe (push_bit k 1) c ss) \<and>
    unat (scan pe (push_bit k 1) c ss) \<le> 2 ^ 33 \<and>
    (\<forall>x. 2 ^ k dvd x \<and> unat c \<le> x \<and> x < unat (scan pe (push_bit k 1) c ss) \<longrightarrow> hits ss (2 ^ k) x) \<and>
    (unat (scan pe (push_bit k 1) c ss) + 2 ^ k \<le> unat pe \<longrightarrow> \<not> hits ss (2 ^ k) (unat (scan pe (push_bit k 1) c ss)))"
  using assms(1,2,5,6)
proof (induction ss arbitrary: c)
  case Nil
  then show ?case by (simp add: hits_def)
next
  case (Cons b bs)
  let ?w = "(2 :: nat) ^ k"
  have w: "?w \<le> 2 ^ 32" using k by (intro power_increasing) simp_all
  have b: "unat (fst b) < unat (snd b)" "unat (snd b) \<le> 2 ^ 32" and bs: "proper bs" using Cons.prems(1) by (auto simp: proper_def)
  have sorted: "sorted (map fst bs)" "\<forall>s \<in> set bs. fst b \<le> fst s" using Cons.prems(2) by auto
  have cw: "unat (c + push_bit k 1) = unat c + ?w"
    using unat_size [of k] k w Cons.prems(3) by (simp add: unat_add64 del: push_bit_of_1)
  show ?case
  proof (cases "snd b \<le> c")
    case True
    then have skip: "hits (b # bs) ?w x \<longleftrightarrow> hits bs ?w x" if "unat c \<le> x" for x
      using that by (auto simp: hits_def word_le_nat_alt)
    have eq: "scan pe (push_bit k 1) c (b # bs) = scan pe (push_bit k 1) c bs" using True by simp
    show ?thesis using Cons.IH [OF bs sorted(1) Cons.prems(3,4)] skip unfolding eq by auto
  next
    case out: False
    show ?thesis
    proof (cases "fst b \<ge> pe \<or> fst b \<ge> c + push_bit k 1")
      case True
      have eq: "scan pe (push_bit k 1) c (b # bs) = c" using out True by simp
      have "\<not> hits (b # bs) ?w (unat c)" if "unat c + ?w \<le> unat pe"
      proof -
        have "unat c + ?w \<le> unat (fst s)" if "s \<in> set (b # bs)" for s
        proof -
          have "fst b \<le> fst s" using that sorted(2) by auto
          moreover have "unat c + ?w \<le> unat (fst b)"
            using True \<open>unat c + ?w \<le> unat pe\<close> cw by (auto simp: word_le_nat_alt)
          ultimately show ?thesis by (simp add: word_le_nat_alt)
        qed
        then show ?thesis by (auto simp: hits_def not_less)
      qed
      then show ?thesis unfolding eq using Cons.prems(3,4) by auto
    next
      case False
      let ?n = "align_up (snd b) (push_bit k 1)"
      have n: "unat ?n = (unat (snd b) + (?w - 1)) div ?w * ?w" by (rule unat_align_up [OF k b(2)])
      have wp: "0 < ?w" by simp
      note up = align_up_least [OF wp, where e = "unat (snd b)", folded n]
      have cb: "unat c < unat (snd b)" "unat (fst b) < unat c + ?w"
        using out False cw by (auto simp: word_le_nat_alt)
      have hit: "hits (b # bs) ?w x" if "?w dvd x" "unat c \<le> x" "x < unat ?n" for x
      proof -
        have "x < unat (snd b)" using up(4) [OF that(1)] that(3) by linarith
        then show ?thesis using cb(2) that(2) by (auto simp: hits_def)
      qed
      have n33: "unat ?n \<le> 2 ^ 33" using up(3) b(2) w by simp
      have nw: "unat (?n + push_bit k 1) = unat ?n + ?w"
        using unat_size [of k] k w n33 by (simp add: unat_add64 del: push_bit_of_1)
      show ?thesis
      proof (cases "?n + push_bit k 1 > pe")
        case True
        have eq: "scan pe (push_bit k 1) c (b # bs) = ?n" using out False True by (simp add: Let_def)
        have "\<not> unat ?n + ?w \<le> unat pe" using True nw by (simp add: word_less_nat_alt)
        then show ?thesis unfolding eq using up(1,2) cb(1) n33 hit by auto
      next
        case go: False
        have eq: "scan pe (push_bit k 1) c (b # bs) = scan pe (push_bit k 1) ?n bs"
          using out False go by (simp add: Let_def)
        have skip: "hits (b # bs) ?w x \<longleftrightarrow> hits bs ?w x" if "unat ?n \<le> x" for x
          using that up(2) by (auto simp: hits_def)
        note IH = Cons.IH [OF bs sorted(1) n33 up(1)]
        have "hits (b # bs) ?w x" if "?w dvd x" "unat c \<le> x" "x < unat (scan pe (push_bit k 1) ?n bs)" for x
          using hit [OF that(1,2)] IH that skip by (cases "x < unat ?n") auto
        then show ?thesis unfolding eq using IH skip up(2) cb(1) by auto
      qed
    qed
  qed
qed

section \<open>Sorting, merging, searching\<close>

lemma merge_hits:
  assumes "fst m \<le> fst s" and "fst s \<le> snd m" and "0 < w"
  shows "hits ((if snd s > snd m then (fst m, snd s) else m) # ss) w x \<longleftrightarrow> hits (m # s # ss) w x"
  using assms by (auto simp: hits_def word_le_nat_alt word_less_nat_alt)

lemma merge_spans_spec:
  assumes "sorted (map fst ss)" and "proper ss"
  shows "proper (merge_spans ss) \<and> sorted (map fst (merge_spans ss)) \<and> sorted (map snd (merge_spans ss)) \<and>
    (\<forall>s \<in> set (merge_spans ss). ss \<noteq> [] \<and> fst (hd ss) \<le> fst s) \<and>
    (\<forall>w x. 0 < w \<longrightarrow> hits (merge_spans ss) w x = hits ss w x)"
  using assms
proof (induction ss rule: merge_spans.induct)
  case (1 m s ss)
  show ?case
  proof (cases "fst s \<le> snd m")
    case True
    let ?j = "if snd s > snd m then (fst m, snd s) else m"
    have ms: "fst m \<le> fst s" and rest: "\<forall>t \<in> set ss. fst m \<le> fst t" "sorted (map fst ss)"
      using 1(3) by auto
    have pm: "unat (fst m) < unat (snd m)" "unat (snd m) \<le> 2 ^ 32" "unat (snd s) \<le> 2 ^ 32" "proper ss"
      using 1(4) by (simp_all add: proper_def)
    have "sorted (map fst (?j # ss))" using rest by auto
    moreover have "proper (?j # ss)" using pm by (auto simp: proper_def word_less_nat_alt)
    ultimately have IH: "proper (merge_spans (?j # ss)) \<and> sorted (map fst (merge_spans (?j # ss))) \<and>
        sorted (map snd (merge_spans (?j # ss))) \<and> (\<forall>t \<in> set (merge_spans (?j # ss)). fst ?j \<le> fst t) \<and>
        (\<forall>w x. 0 < w \<longrightarrow> hits (merge_spans (?j # ss)) w x = hits (?j # ss) w x)"
      using 1(1) [OF True] by simp
    have eq: "merge_spans (m # s # ss) = merge_spans (?j # ss)" using True by simp
    have "fst ?j = fst m" by simp
    then show ?thesis using IH merge_hits [OF ms True] unfolding eq by simp
  next
    case False
    have eq: "merge_spans (m # s # ss) = m # merge_spans (s # ss)" using False by simp
    have s: "sorted (map fst (s # ss))" "proper (s # ss)" using 1(3,4) by (simp_all add: proper_def)
    from 1(2) [OF False s] have IH: "proper (merge_spans (s # ss)) \<and> sorted (map fst (merge_spans (s # ss))) \<and>
        sorted (map snd (merge_spans (s # ss))) \<and> (\<forall>t \<in> set (merge_spans (s # ss)). fst s \<le> fst t) \<and>
        (\<forall>w x. 0 < w \<longrightarrow> hits (merge_spans (s # ss)) w x = hits (s # ss) w x)" by simp
    have ms: "fst m \<le> fst s" using 1(3) by simp
    have pm: "unat (fst m) < unat (snd m) \<and> unat (snd m) \<le> 2 ^ 32" using 1(4) by (simp add: proper_def)
    have above: "snd m \<le> snd t \<and> fst m \<le> fst t" if "t \<in> set (merge_spans (s # ss))" for t
    proof -
      have "fst s \<le> fst t" "unat (fst t) < unat (snd t)" using IH that by (auto simp: proper_def)
      then show ?thesis using False ms by (auto simp: word_le_nat_alt)
    qed
    have "hits (m # merge_spans (s # ss)) w x = hits (m # s # ss) w x" if "0 < w" for w x
    proof -
      have split: "hits (m # us) w x \<longleftrightarrow> (unat (fst m) < x + w \<and> x < unat (snd m)) \<or> hits us w x" for us
        by (auto simp: hits_def)
      show ?thesis using IH that unfolding split by blast
    qed
    moreover have "proper (m # merge_spans (s # ss))" using IH pm by (simp add: proper_def)
    moreover have "sorted (map fst (m # merge_spans (s # ss)))" "sorted (map snd (m # merge_spans (s # ss)))"
      using IH above by simp_all
    ultimately show ?thesis using above unfolding eq by auto
  qed
qed (simp_all add: hits_def)

lemma bsearch_spec:
  assumes "i \<le> j" and "\<And>a b. a \<le> b \<Longrightarrow> b < j \<Longrightarrow> f a \<Longrightarrow> f b"
  shows "i \<le> bsearch i j f \<and> bsearch i j f \<le> j \<and> (\<forall>h. i \<le> h \<and> h < bsearch i j f \<longrightarrow> \<not> f h) \<and>
    (bsearch i j f < j \<longrightarrow> f (bsearch i j f))"
  using assms
proof (induction i j f rule: bsearch.induct)
  case (1 i j f)
  show ?case
  proof (cases "i < j")
    case True
    let ?h = "(i + j) div 2"
    have h: "i \<le> ?h" "?h < j" using True by auto
    show ?thesis
    proof (cases "f ?h")
      case up: True
      have eq: "bsearch i j f = bsearch i ?h f" using True up by (simp add: bsearch.simps [of i j] Let_def)
      have mono: "\<And>a b. a \<le> b \<Longrightarrow> b < ?h \<Longrightarrow> f a \<Longrightarrow> f b" using 1(4) h by (meson less_trans)
      have IH: "i \<le> bsearch i ?h f \<and> bsearch i ?h f \<le> ?h \<and> (\<forall>h. i \<le> h \<and> h < bsearch i ?h f \<longrightarrow> \<not> f h) \<and>
          (bsearch i ?h f < ?h \<longrightarrow> f (bsearch i ?h f))"
        by (rule 1(1) [OF True refl up h(1)]) (use mono in blast)
      have "f (bsearch i ?h f)" using IH up by (cases "bsearch i ?h f < ?h") auto
      then show ?thesis using IH h(2) unfolding eq by simp
    next
      case down: False
      have eq: "bsearch i j f = bsearch (Suc ?h) j f" using True down by (simp add: bsearch.simps [of i j] Let_def)
      have low: "\<not> f a" if "a \<le> ?h" for a using 1(4) [OF that h(2)] down by blast
      have sh: "Suc ?h \<le> j" using h by simp
      have IH: "Suc ?h \<le> bsearch (Suc ?h) j f \<and> bsearch (Suc ?h) j f \<le> j \<and>
          (\<forall>h. Suc ?h \<le> h \<and> h < bsearch (Suc ?h) j f \<longrightarrow> \<not> f h) \<and>
          (bsearch (Suc ?h) j f < j \<longrightarrow> f (bsearch (Suc ?h) j f))"
        by (rule 1(2) [OF True refl down sh]) (use 1(4) in blast)
      have "\<not> f a" if "i \<le> a" "a < bsearch (Suc ?h) j f" for a
      proof (cases "a \<le> ?h")
        case False
        then have "Suc ?h \<le> a" by simp
        then show ?thesis using IH that(2) by blast
      qed (rule low)
      moreover have "i \<le> bsearch (Suc ?h) j f" using IH h(1) by linarith
      ultimately show ?thesis using IH unfolding eq by blast
    qed
  next
    case False
    have "bsearch i j f = i" using False by (simp add: bsearch.simps [of i j])
    then show ?thesis using 1(3) False by auto
  qed
qed

section \<open>Spans and blocks\<close>

lemma block_bound:
  assumes "valid4 p"
  shows "block_start p + block_size p \<le> 2 ^ 32"
proof -
  have e: "(2 :: nat) ^ 32 = 2 ^ p_bits p * block_size p"
    using assms by (simp add: valid4_def block_size_def power_add [symmetric])
  have "unat (p_addr p) < 2 ^ p_bits p * block_size p" unfolding e [symmetric] using unsigned_less [of "p_addr p", where ?'a = nat] by simp
  then have "unat (p_addr p) div block_size p < 2 ^ p_bits p" by (simp add: div_less_iff_less_mult)
  then have "Suc (unat (p_addr p) div block_size p) * block_size p \<le> 2 ^ p_bits p * block_size p"
    by (intro mult_le_mono1) simp
  then show ?thesis unfolding e by (simp add: block_start_def)
qed

lemma span_block:
  assumes "valid4 p"
  shows "unat (fst (allocation_span p)) = block_start p" and "unat (snd (allocation_span p)) = block_start p + block_size p"
proof -
  have bits: "32 - p_bits p < 64" by simp
  have low: "block_start p < 2 ^ 64" using block_bound [OF assms] by simp
  show f: "unat (fst (allocation_span p)) = block_start p"
    using low by (simp add: allocation_span_def Let_def unsigned_ucast_eq unat_masked take_bit_nat_eq_self)
  have "unat (push_bit (32 - p_bits p) 1 :: 64 word) = block_size p"
    unfolding block_size_def by (rule unat_size [OF bits])
  then show "unat (snd (allocation_span p)) = block_start p + block_size p"
    using f block_bound [OF assms] by (simp add: allocation_span_def Let_def unat_add64 del: push_bit_of_1)
qed

lemma span_meets:
  assumes "valid4 p" and "valid4 q"
  shows "overlaps4 p q \<longleftrightarrow> unat (fst (allocation_span p)) < block_start q + block_size q \<and>
    block_start q < unat (snd (allocation_span p))"
  using block_size_pos [of p] block_size_pos [of q]
  unfolding overlaps4_iff [OF assms] span_block [OF assms(1)] block_def by auto

section \<open>One range\<close>

lemma allocate_range_spec:
  assumes v: "valid4 p" and len: "p_bits p \<le> len" "len \<le> 32" "0 < len"
    and ms: "proper ms" "sorted (map fst ms)" "sorted (map snd ms)"
  shows "case allocate_range ms p len of
      Some q \<Rightarrow> p_bits q = len \<and> block_start q = unat (p_addr q) \<and> block_start p \<le> block_start q \<and>
        block_start q + block_size q \<le> block_start p + block_size p \<and> \<not> hits ms (block_size q) (block_start q) \<and>
        (\<forall>x. 2 ^ (32 - len) dvd x \<and> block_start p \<le> x \<and> x < block_start q \<longrightarrow> hits ms (2 ^ (32 - len)) x)
    | None \<Rightarrow> \<forall>x. 2 ^ (32 - len) dvd x \<and> block_start p \<le> x \<and> x + 2 ^ (32 - len) \<le> block_start p + block_size p \<longrightarrow>
        hits ms (2 ^ (32 - len)) x"
proof -
  let ?k = "32 - len" and ?pool = "allocation_span p"
  let ?w = "(2 :: nat) ^ ?k" and ?sz = "push_bit ?k 1 :: 64 word"
  let ?f = "\<lambda>i. snd (ms ! i) > fst ?pool"
  let ?i = "bsearch 0 (length ms) ?f" and ?ds = "drop (bsearch 0 (length ms) (\<lambda>i. snd (ms ! i) > fst (allocation_span p))) ms"
  let ?c = "scan (snd ?pool) ?sz (fst ?pool) ?ds"
  note sp = span_block [OF v] and bound = block_bound [OF v]
  have k: "?k < 32" using len by simp
  have dvd: "?w dvd block_start p"
    using len by (simp add: block_start_def block_size_def le_imp_power_dvd dvd_mult)
  have mono: "?f b" if "a \<le> b" "b < length ms" "?f a" for a b
  proof -
    have "snd (ms ! a) \<le> snd (ms ! b)" using ms(3) that(1,2) by (simp add: sorted_iff_nth_mono)
    then show ?thesis using that(3) by (rule less_le_trans [rotated])
  qed
  have low: "snd (ms ! j) \<le> fst ?pool" if "j < ?i" for j
    using bsearch_spec [of 0 "length ms" ?f] mono that by (meson le0 not_less)
  have ds: "proper ?ds" "sorted (map fst ?ds)"
    using ms(1,2) by (auto simp: proper_def drop_map [symmetric] sorted_wrt_drop dest: in_set_dropD)
  have skip: "hits ms ?w x \<longleftrightarrow> hits ?ds ?w x" if "block_start p \<le> x" for x
  proof
    assume "hits ms ?w x"
    then obtain s where s: "s \<in> set ms" "unat (fst s) < x + ?w" "x < unat (snd s)" by (auto simp: hits_def)
    then obtain j where j: "j < length ms" "ms ! j = s" by (auto simp: in_set_conv_nth)
    have "\<not> j < ?i" using low [of j] j s(3) that sp(1) by (auto simp: word_le_nat_alt)
    then have "s \<in> set ?ds" using j by (auto simp: in_set_conv_nth intro!: exI [where x = "j - ?i"])
    then show "hits ?ds ?w x" using s(2,3) unfolding hits_def by blast
  qed (auto simp: hits_def dest: in_set_dropD)
  have "block_start p \<le> 2 ^ 33" "unat (snd ?pool) \<le> 2 ^ 32" using bound unfolding sp by simp_all
  then have S: "?w dvd unat ?c \<and> block_start p \<le> unat ?c \<and> unat ?c \<le> 2 ^ 33 \<and>
      (\<forall>x. ?w dvd x \<and> block_start p \<le> x \<and> x < unat ?c \<longrightarrow> hits ?ds ?w x) \<and>
      (unat ?c + ?w \<le> block_start p + block_size p \<longrightarrow> \<not> hits ?ds ?w (unat ?c))"
    using scan_spec [OF ds k, of "snd ?pool" "fst ?pool"] dvd unfolding sp by blast
  have cw: "unat (?c + ?sz) = unat ?c + ?w"
  proof -
    have "?w \<le> 2 ^ 32" using k by (intro power_increasing) simp_all
    then show ?thesis using S unat_size [of ?k] by (simp add: unat_add64 del: push_bit_of_1)
  qed
  have le: "?c + ?sz \<le> snd ?pool \<longleftrightarrow> unat ?c + ?w \<le> block_start p + block_size p"
    unfolding word_le_nat_alt cw sp ..
  show ?thesis
  proof (cases "?c + ?sz \<le> snd ?pool")
    case True
    let ?q = "\<lparr>p_addr = ucast ?c :: addr4, p_bits = len\<rparr>"
    have fit: "unat ?c + ?w \<le> block_start p + block_size p" using True le by blast
    have "unat ?c < 2 ^ 32" using fit bound zero_less_power [of "2 :: nat" ?k] by linarith
    then have q: "unat (p_addr ?q) = unat ?c" by (simp add: unsigned_ucast_eq take_bit_nat_eq_self)
    have bs: "block_size ?q = ?w" by (simp add: block_size_def)
    have "block_start ?q = unat ?c" using S unfolding block_start_def bs q by (simp add: dvd_div_mult_self)
    moreover have "allocate_range ms p len = Some ?q" using True by (simp add: allocate_range_def Let_def del: push_bit_of_1)
    ultimately show ?thesis using S skip fit q bs by (auto simp del: push_bit_of_1)
  next
    case False
    have out: "\<not> unat ?c + ?w \<le> block_start p + block_size p" using False le by blast
    have "allocate_range ms p len = None" using False by (simp add: allocate_range_def Let_def del: push_bit_of_1)
    moreover have "hits ms ?w x" if "?w dvd x" "block_start p \<le> x" "x + ?w \<le> block_start p + block_size p" for x
    proof -
      have "x < unat ?c" using that(3) out by linarith
      then show ?thesis using S skip that by blast
    qed
    ultimately show ?thesis by simp
  qed
qed

section \<open>The allocator\<close>

lemma private_prefix_Some:
  "private_prefix raw = Some p \<Longrightarrow> parse_prefix4 raw = Some p \<and> valid4 p \<and> masked p = p"
  using show_parse_prefix4 [of raw p] by (auto simp: private_prefix_def Let_def split: if_splits option.splits)

lemma check_ranges_Inr:
  "check_ranges i rs ps = Inr u \<Longrightarrow> r \<in> set rs \<Longrightarrow>
     \<exists>p. private_prefix (rg_cidr r) = Some p \<and> 8 \<le> rg_len r \<and> int (p_bits p) \<le> rg_len r \<and> rg_len r \<le> 30"
  by (induction i rs ps rule: check_ranges.induct) (auto split: option.splits if_splits)

lemma check_planned_Inr:
  "check_planned i ps ids = Inr u \<Longrightarrow> a \<in> set ps \<Longrightarrow> \<exists>p. private_prefix (pl_cidr a) = Some p"
  by (induction i ps ids rule: check_planned.induct) (auto split: if_splits)

lemma occupied_spans_Inr:
  "occupied_spans i ps = Inr ss \<Longrightarrow>
     (\<forall>p. Prefix4 p \<in> set ps \<longrightarrow> valid4 p) \<and> set ss = allocation_span ` {p. Prefix4 p \<in> set ps}"
proof (induction i ps arbitrary: ss rule: occupied_spans.induct)
  case (2 i p ps)
  then show ?case
  proof (cases p)
    case (Prefix4 q)
    then obtain ts where "occupied_spans (Suc i) ps = Inr ts" "ss = allocation_span q # ts" "valid4 q"
      using 2(3) by (auto split: if_splits)
    then show ?thesis using 2(1) Prefix4 by auto
  qed (auto split: if_splits)
qed simp

definition subnet_of :: "alloc_range \<Rightarrow> prefix4 \<Rightarrow> bool" where
  "subnet_of r q \<longleftrightarrow> (\<exists>p. private_prefix (rg_cidr r) = Some p \<and> int (p_bits q) = rg_len r \<and> masked q = q \<and>
     block q \<subseteq> block p)"

definition taken :: "alloc_config \<Rightarrow> net_prefix list \<Rightarrow> prefix4 \<Rightarrow> bool" where
  "taken c occupied q \<longleftrightarrow> (\<exists>p. Prefix4 p \<in> set occupied \<and> overlaps4 p q) \<or>
     (\<exists>a \<in> set (ac_planned c). \<exists>p. private_prefix (pl_cidr a) = Some p \<and> overlaps4 p q)"

lemma block_subset: "block q \<subseteq> block p \<longleftrightarrow> block_start p \<le> block_start q \<and>
    block_start q + block_size q \<le> block_start p + block_size p"
  using block_size_pos [of q] by (auto simp: block_def simp del: block_size_pos)

lemma masked_start: "masked q = q \<longleftrightarrow> unat (p_addr q) = block_start q"
proof
  assume "masked q = q"
  then show "unat (p_addr q) = block_start q" using unat_masked [of q] by simp
next
  assume a: "unat (p_addr q) = block_start q"
  have "p_addr (masked q) = p_addr q" using unat_masked [of q] a by (simp add: word_unat_eq_iff)
  then show "masked q = q" by (simp add: masked_def)
qed

lemma hits_sort [simp]: "hits (sort_key f ss) w x = hits ss w x"
  by (simp add: hits_def)

lemma first_range_cases:
  "case first_range ms rs of
     Some q \<Rightarrow> \<exists>i < length rs. allocate_range ms (the (parse_prefix4 (rg_cidr (rs ! i)))) (nat (rg_len (rs ! i))) = Some q \<and>
       (\<forall>k < i. allocate_range ms (the (parse_prefix4 (rg_cidr (rs ! k)))) (nat (rg_len (rs ! k))) = None)
   | None \<Rightarrow> \<forall>k < length rs. allocate_range ms (the (parse_prefix4 (rg_cidr (rs ! k)))) (nat (rg_len (rs ! k))) = None"
proof (induction rs)
  case (Cons r rs)
  show ?case
  proof (cases "allocate_range ms (the (parse_prefix4 (rg_cidr r))) (nat (rg_len r))")
    case (Some q)
    then show ?thesis by (auto intro: exI [where x = 0])
  next
    case None
    show ?thesis
    proof (cases "first_range ms rs")
      case r: None
      then show ?thesis using Cons None by (simp add: nth_Cons split: nat.splits)
    next
      case (Some q)
      then obtain i where "i < length rs"
        "allocate_range ms (the (parse_prefix4 (rg_cidr (rs ! i)))) (nat (rg_len (rs ! i))) = Some q"
        "\<forall>k < i. allocate_range ms (the (parse_prefix4 (rg_cidr (rs ! k)))) (nat (rg_len (rs ! k))) = None"
        using Cons by auto
      then show ?thesis using Some None
        by (auto intro!: exI [where x = "Suc i"] simp: nth_Cons split: nat.splits)
    qed
  qed
qed simp

text \<open>What the validated configuration and the merged intervals say about one range.\<close>

lemma range_outcome:
  assumes r: "private_prefix (rg_cidr r) = Some p" "8 \<le> rg_len r" "int (p_bits p) \<le> rg_len r" "rg_len r \<le> 30"
    and ms: "proper ms" "sorted (map fst ms)" "sorted (map snd ms)"
    and hits: "\<And>q. valid4 q \<Longrightarrow> hits ms (block_size q) (block_start q) \<longleftrightarrow> T q"
  shows "case allocate_range ms (the (parse_prefix4 (rg_cidr r))) (nat (rg_len r)) of
      Some q \<Rightarrow> subnet_of r q \<and> \<not> T q \<and> (\<forall>q'. subnet_of r q' \<and> p_addr q' < p_addr q \<longrightarrow> T q')
    | None \<Rightarrow> \<forall>q'. subnet_of r q' \<longrightarrow> T q'"
proof -
  note pp = private_prefix_Some [OF r(1)]
  have v: "valid4 p" and par: "the (parse_prefix4 (rg_cidr r)) = p" using pp by simp_all
  let ?l = "nat (rg_len r)"
  have l: "p_bits p \<le> ?l" "?l \<le> 32" "0 < ?l" using r by linarith+
  have sub: "subnet_of r q \<longleftrightarrow> p_bits q = ?l \<and> unat (p_addr q) = block_start q \<and> block_start p \<le> block_start q \<and>
      block_start q + block_size q \<le> block_start p + block_size p" for q
    using r(1,2) unfolding subnet_of_def masked_start by (auto simp: block_subset)
  have cand: "valid4 q \<and> block_size q = 2 ^ (32 - ?l) \<and> 2 ^ (32 - ?l) dvd block_start q" if "subnet_of r q" for q
    using that l(2) unfolding sub by (auto simp: valid4_def block_size_def block_start_def)
  note spec = allocate_range_spec [OF v l ms]
  show ?thesis
  proof (cases "allocate_range ms p ?l")
    case None
    have "T q'" if "subnet_of r q'" for q'
      using spec None cand [OF that] that hits [of q'] unfolding sub by auto
    then show ?thesis unfolding par None by simp
  next
    case (Some q)
    have q: "subnet_of r q" using spec Some unfolding sub by simp
    have "\<not> hits ms (block_size q) (block_start q)" using spec unfolding Some option.case by blast
    then have "\<not> T q" using hits [of q] cand [OF q] by blast
    moreover have "T q'" if "subnet_of r q'" "p_addr q' < p_addr q" for q'
    proof -
      have "block_start q' < block_start q" using that q unfolding sub by (simp add: word_less_nat_alt)
      then show ?thesis using spec Some cand [OF that(1)] that(1) hits [of q'] unfolding sub by auto
    qed
    ultimately show ?thesis using q unfolding par Some by simp
  qed
qed

lemma sorted_lexicographic: "sorted (map fst (sort_key fst (sort_key snd ss)))"
  by simp

lemma allocate_configured_spec:
  "case allocate_configured None c occupied of
     Inr q \<Rightarrow> \<exists>i < length (ac_ranges c). subnet_of (ac_ranges c ! i) q \<and> \<not> taken c occupied q \<and>
       (\<forall>q'. subnet_of (ac_ranges c ! i) q' \<and> p_addr q' < p_addr q \<longrightarrow> taken c occupied q') \<and>
       (\<forall>k < i. \<forall>q'. subnet_of (ac_ranges c ! k) q' \<longrightarrow> taken c occupied q')
   | Inl e \<Rightarrow> validate_allocation_config c = Inl e \<or> length occupied > 65536 \<or> occupied_spans 0 occupied = Inl e \<or>
       e = Domain_error (fail ''CIDR_CONFLICT'' ''no non-overlapping private subnet available in the configured ranges'') \<and>
       (\<forall>r \<in> set (ac_ranges c). \<forall>q'. subnet_of r q' \<longrightarrow> taken c occupied q')"
proof (cases "validate_allocation_config c = Inr () \<and> length occupied \<le> 65536 \<and> (\<exists>occ. occupied_spans 0 occupied = Inr occ)")
  case False
  then show ?thesis
    by (cases "validate_allocation_config c"; cases "length occupied \<le> 65536"; cases "occupied_spans 0 occupied")
      (auto simp: allocate_configured_def checkr_def)
next
  case True
  then obtain occ where val: "validate_allocation_config c = Inr ()" and n: "length occupied \<le> 65536"
    and occ: "occupied_spans 0 occupied = Inr occ" by blast
  have ranges: "check_ranges 0 (ac_ranges c) [] = Inr ()" and planned: "check_planned 0 (ac_planned c) [] = Inr ()"
    using val by (auto simp: validate_allocation_config_def split: if_splits)
  let ?spans = "occ @ map (\<lambda>p. allocation_span (the (parse_prefix4 (pl_cidr p)))) (ac_planned c)"
  let ?ms = "merge_spans (sort_key fst (sort_key snd ?spans))"
  note ov = occupied_spans_Inr [OF occ]
  define known where "known p \<longleftrightarrow> valid4 p \<and> (Prefix4 p \<in> set occupied \<or>
      (\<exists>a \<in> set (ac_planned c). private_prefix (pl_cidr a) = Some p))" for p
  have src: "s \<in> set ?spans \<longleftrightarrow> (\<exists>p. s = allocation_span p \<and> known p)" for s
    using ov check_planned_Inr [OF planned] private_prefix_Some unfolding known_def by (fastforce simp: image_iff)
  have "proper ?spans" unfolding proper_def
  proof
    fix s assume "s \<in> set ?spans"
    then obtain p where p: "s = allocation_span p" "valid4 p" using src unfolding known_def by blast
    show "unat (fst s) < unat (snd s) \<and> unat (snd s) \<le> 2 ^ 32"
      using block_bound [OF p(2)] block_size_pos [of p] unfolding p(1) span_block [OF p(2)] by simp
  qed
  then have "proper (sort_key fst (sort_key snd ?spans))" by (simp add: proper_def)
  note M = merge_spans_spec [OF sorted_lexicographic this]
  have hits: "hits ?ms (block_size q) (block_start q) \<longleftrightarrow> taken c occupied q" if q: "valid4 q" for q
  proof -
    have "hits ?ms (block_size q) (block_start q) \<longleftrightarrow> hits ?spans (block_size q) (block_start q)" using M by simp
    also have "\<dots> \<longleftrightarrow> (\<exists>p. known p \<and> unat (fst (allocation_span p)) < block_start q + block_size q \<and>
        block_start q < unat (snd (allocation_span p)))" (is "_ \<longleftrightarrow> (\<exists>p. known p \<and> ?m p)")
      unfolding hits_def Bex_def src by metis
    also have "\<dots> \<longleftrightarrow> (\<exists>p. known p \<and> overlaps4 p q)" 
    proof (rule ex_cong1)
      show "known p \<and> ?m p \<longleftrightarrow> known p \<and> overlaps4 p q" for p
        using span_meets [OF _ q, of p] unfolding known_def by blast
    qed
    also have "\<dots> \<longleftrightarrow> taken c occupied q" using ov private_prefix_Some unfolding taken_def known_def by blast
    finally show ?thesis .
  qed
  have out: "case allocate_range ?ms (the (parse_prefix4 (rg_cidr r))) (nat (rg_len r)) of
      Some q \<Rightarrow> subnet_of r q \<and> \<not> taken c occupied q \<and> (\<forall>q'. subnet_of r q' \<and> p_addr q' < p_addr q \<longrightarrow> taken c occupied q')
    | None \<Rightarrow> \<forall>q'. subnet_of r q' \<longrightarrow> taken c occupied q'" if mem: "r \<in> set (ac_ranges c)" for r
  proof -
    obtain p where "private_prefix (rg_cidr r) = Some p" "8 \<le> rg_len r" "int (p_bits p) \<le> rg_len r" "rg_len r \<le> 30"
      using check_ranges_Inr [OF ranges mem] by blast
    then show ?thesis by (rule range_outcome) (use M hits in blast)+
  qed
  have res: "allocate_configured None c occupied = (case first_range ?ms (ac_ranges c) of Some q \<Rightarrow> Inr q
      | None \<Rightarrow> failr ''CIDR_CONFLICT'' ''no non-overlapping private subnet available in the configured ranges'')"
    using val n occ by (simp add: allocate_configured_def Let_def checkr_def)
  show ?thesis
  proof (cases "first_range ?ms (ac_ranges c)")
    case None
    have "\<forall>r \<in> set (ac_ranges c). \<forall>q'. subnet_of r q' \<longrightarrow> taken c occupied q'"
    proof
      fix r assume r: "r \<in> set (ac_ranges c)"
      then obtain k where "k < length (ac_ranges c)" "r = ac_ranges c ! k" by (auto simp: in_set_conv_nth)
      then show "\<forall>q'. subnet_of r q' \<longrightarrow> taken c occupied q'"
        using first_range_cases [where ms = ?ms and rs = "ac_ranges c"] out [OF r] None by simp
    qed
    then show ?thesis unfolding res None by simp
  next
    case (Some q)
    then obtain i where i: "i < length (ac_ranges c)"
      "allocate_range ?ms (the (parse_prefix4 (rg_cidr (ac_ranges c ! i)))) (nat (rg_len (ac_ranges c ! i))) = Some q"
      "\<forall>k < i. allocate_range ?ms (the (parse_prefix4 (rg_cidr (ac_ranges c ! k)))) (nat (rg_len (ac_ranges c ! k))) = None"
      using first_range_cases [where ms = ?ms and rs = "ac_ranges c"] by auto
    have "\<forall>k < i. \<forall>q'. subnet_of (ac_ranges c ! k) q' \<longrightarrow> taken c occupied q'"
    proof (intro allI impI)
      fix k q' assume k: "k < i" and q': "subnet_of (ac_ranges c ! k) q'"
      have "k < length (ac_ranges c)" using k i(1) by simp
      from out [OF nth_mem [OF this]] show "taken c occupied q'" using i(3) k q' by simp
    qed
    then show ?thesis using out [OF nth_mem [OF i(1)]] i unfolding res Some by auto
  qed
qed

text \<open>
  C15. The subnet allocator returns the first free subnet and nothing else: a subnet of a
  declared range, aligned, disjoint from every occupied and every planned prefix, the
  lowest such one of its range, with every subnet of every earlier range taken; it reports
  a conflict only when every subnet of every range is taken. Its jumps over merged
  intervals in 64-bit words and its binary search skip nothing.
\<close>

theorem allocation_first_free:
  "case allocate_configured None c occupied of
     Inr q \<Rightarrow> \<exists>i < length (ac_ranges c). subnet_of (ac_ranges c ! i) q \<and> \<not> taken c occupied q \<and>
       (\<forall>q'. subnet_of (ac_ranges c ! i) q' \<and> p_addr q' < p_addr q \<longrightarrow> taken c occupied q') \<and>
       (\<forall>k < i. \<forall>q'. subnet_of (ac_ranges c ! k) q' \<longrightarrow> taken c occupied q')
   | Inl e \<Rightarrow> validate_allocation_config c = Inl e \<or> length occupied > 65536 \<or> occupied_spans 0 occupied = Inl e \<or>
       e = Domain_error (fail ''CIDR_CONFLICT'' ''no non-overlapping private subnet available in the configured ranges'') \<and>
       (\<forall>r \<in> set (ac_ranges c). \<forall>q'. subnet_of r q' \<longrightarrow> taken c occupied q')"
  by (rule allocate_configured_spec)

section \<open>A concrete allocation\<close>

lemmas net_eval = private_prefix_def parse_prefix4_def parse_addr4_def plain_dec_def parse_dec_def is_digit_def
  digit_val_def addr4_of_def octets_def show_prefix4_def show_addr4_def show_nat.simps digit_char_def
  masked_def mask_addr_def Let_def mask_eq_exp_minus_1 allocation_span_def

definition one_pool :: alloc_config where
  "one_pool = \<lparr>ac_version = 1, ac_ranges = [\<lparr>rg_cidr = ''10.0.0.0/8'', rg_len = 24\<rparr>], ac_planned = []\<rparr>"

lemma pool_prefix: "private_prefix ''10.0.0.0/8'' = Some \<lparr>p_addr = 167772160, p_bits = 8\<rparr>"
  by (simp add: net_eval)

lemma one_pool_allocates:
  "allocate_configured None one_pool [Prefix4 \<lparr>p_addr = 0x0A000000, p_bits = 24\<rparr>] =
     Inr \<lparr>p_addr = 0x0A000100, p_bits = 24\<rparr>"
proof -
  have b: "parse_prefix4 ''10.0.0.0/8'' = Some \<lparr>p_addr = 167772160, p_bits = 8\<rparr>"
    using private_prefix_Some [OF pool_prefix] by simp
  have s: "allocation_span \<lparr>p_addr = 0x0A000000, p_bits = 24\<rparr> = (0x0A000000, 0x0A000100)"
     "allocation_span \<lparr>p_addr = 0x0A000000, p_bits = 8\<rparr> = (0x0A000000, 0x0B000000)"
    by (simp_all add: allocation_span_def masked_def mask_addr_def Let_def mask_eq_exp_minus_1)
  show ?thesis
    by (simp add: allocate_configured_def validate_allocation_config_def one_pool_def checkr_def valid4_def allocate_range_def
      align_up_def Let_def pool_prefix b s bsearch.simps [of 0 "Suc 0"] bsearch.simps [of 0 0])
qed

theorem allocation_first_free_witness:
  "subnet_of (ac_ranges one_pool ! 0) \<lparr>p_addr = 0x0A000100, p_bits = 24\<rparr> \<and>
   \<not> taken one_pool [Prefix4 \<lparr>p_addr = 0x0A000000, p_bits = 24\<rparr>] \<lparr>p_addr = 0x0A000100, p_bits = 24\<rparr>"
  using allocation_first_free [of one_pool "[Prefix4 \<lparr>p_addr = 0x0A000000, p_bits = 24\<rparr>]", unfolded one_pool_allocates]
  by (auto simp: one_pool_def)

section \<open>The private pools\<close>

lemma div_coarser: "j \<le> i \<Longrightarrow> (x :: nat) div 2 ^ j = y div 2 ^ j \<Longrightarrow> x div 2 ^ i = y div 2 ^ i"
  by (metis div_mult2_eq le_add_diff_inverse power_add)

lemma in_own_block: "x \<in> block p \<longleftrightarrow> x div 2 ^ (32 - p_bits p) = unat (p_addr p) div 2 ^ (32 - p_bits p)"
  using in_block [of "2 ^ (32 - p_bits p)" "unat (p_addr p) div 2 ^ (32 - p_bits p)" x]
  by (simp add: block_def block_start_def block_size_def)

lemma within_pool:
  assumes "valid4 p" and "valid4 r"
  shows "block p \<subseteq> block r \<longleftrightarrow> p_bits r \<le> p_bits p \<and>
    unat (p_addr p) div 2 ^ (32 - p_bits r) = unat (p_addr r) div 2 ^ (32 - p_bits r)" (is "?l \<longleftrightarrow> ?r")
proof
  assume ?l
  then have "block_size p \<le> block_size r" unfolding block_subset by linarith
  then have "p_bits r \<le> p_bits p" using assms unfolding block_size_def valid4_def by simp
  moreover have "unat (p_addr p) \<in> block p" by (simp add: in_own_block)
  ultimately show ?r using \<open>?l\<close> in_own_block [of _ r] by blast
next
  assume r: ?r
  show ?l
  proof
    fix x assume "x \<in> block p"
    then have "x div 2 ^ (32 - p_bits p) = unat (p_addr p) div 2 ^ (32 - p_bits p)" by (simp add: in_own_block)
    moreover have "32 - p_bits p \<le> 32 - p_bits r" using r by (simp add: diff_le_mono2)
    ultimately have "x div 2 ^ (32 - p_bits r) = unat (p_addr p) div 2 ^ (32 - p_bits r)" by (metis div_coarser)
    then show "x \<in> block r" using r by (simp add: in_own_block)
  qed
qed

definition rfc1918 :: "prefix4 list" where
  "rfc1918 = [\<lparr>p_addr = 0x0A000000, p_bits = 8\<rparr>, \<lparr>p_addr = 0xAC100000, p_bits = 12\<rparr>, \<lparr>p_addr = 0xC0A80000, p_bits = 16\<rparr>]"

lemma octet_pools:
  fixes n :: nat
  shows "n div 16777216 = 172 \<and> 16 \<le> n div 65536 mod 256 \<and> n div 65536 mod 256 \<le> 31 \<longleftrightarrow> n div 1048576 = 2753"
    and "n div 16777216 = 192 \<and> n div 65536 mod 256 = 168 \<longleftrightarrow> n div 65536 = 49320"
proof -
  define m where "m = n div 65536"
  have a: "n div 16777216 = m div 256" "n div 1048576 = m div 16" by (simp_all add: m_def div_mult2_eq [symmetric])
  have e: "m = 256 * (m div 256) + m mod 256" by simp
  have l: "m mod 256 < 256" by simp
  have "m = 16 * (m div 16) + m mod 16" "m mod 16 < 16" by simp_all
  then have sixteen: "m div 16 = 2753 \<longleftrightarrow> 44048 \<le> m \<and> m \<le> 44063" by linarith
  show "n div 16777216 = 172 \<and> 16 \<le> n div 65536 mod 256 \<and> n div 65536 mod 256 \<le> 31 \<longleftrightarrow> n div 1048576 = 2753"
    unfolding a m_def [symmetric] sixteen
  proof
    assume "m div 256 = 172 \<and> 16 \<le> m mod 256 \<and> m mod 256 \<le> 31"
    then show "44048 \<le> m \<and> m \<le> 44063" using e by linarith
  next
    assume "44048 \<le> m \<and> m \<le> 44063"
    moreover from this have "m div 256 = 172" using e l by linarith
    ultimately show "m div 256 = 172 \<and> 16 \<le> m mod 256 \<and> m mod 256 \<le> 31" using e by linarith
  qed
  show "n div 16777216 = 192 \<and> n div 65536 mod 256 = 168 \<longleftrightarrow> n div 65536 = 49320"
    unfolding a m_def [symmetric]
  proof
    assume "m div 256 = 192 \<and> m mod 256 = 168"
    then show "m = 49320" using e by linarith
  qed simp
qed

lemma show_addr4_length: "length (show_addr4 a) \<le> 15"
proof -
  obtain w x y z where o: "octets a = [w, x, y, z]" using octets_four by blast
  have "length (show_nat n) \<le> 3" if "n < 256" for n using that length_show_nat [of 3 n] by simp
  then have "length (show_nat w) \<le> 3" "length (show_nat x) \<le> 3" "length (show_nat y) \<le> 3" "length (show_nat z) \<le> 3"
    using octets_small [OF o] by simp_all
  then show ?thesis by (simp add: show_addr4_def o)
qed

text \<open>
  The private pools and reservations are read canonically: a text is accepted exactly when
  it is the printed form of a masked prefix whose whole block lies in one of the three private
  ranges, and it denotes that prefix; no leading zero, sign or surplus character is accepted.
\<close>

theorem private_prefix_canonical:
  "private_prefix raw = Some p \<longleftrightarrow> raw = show_prefix4 p \<and> valid4 p \<and> masked p = p \<and> list_ex (\<lambda>r. block p \<subseteq> block r) rfc1918"
proof -
  let ?n = "unat (p_addr p)"
  have pools: "list_ex (\<lambda>r. block p \<subseteq> block r) rfc1918 \<longleftrightarrow>
      (octets (p_addr p) ! 0 = 10 \<and> p_bits p \<ge> 8 \<or>
       octets (p_addr p) ! 0 = 172 \<and> octets (p_addr p) ! 1 \<ge> 16 \<and> octets (p_addr p) ! 1 \<le> 31 \<and> p_bits p \<ge> 12 \<or>
       octets (p_addr p) ! 0 = 192 \<and> octets (p_addr p) ! 1 = 168 \<and> p_bits p \<ge> 16)" if "valid4 p"
    using that octet_pools [of ?n] by (auto simp: rfc1918_def within_pool valid4_def octets_def Let_def)
  have len: "length (show_prefix4 p) \<le> 18" if "valid4 p"
  proof -
    have "length (show_nat (p_bits p)) \<le> 2" using that length_show_nat [of 2 "p_bits p"] by (simp add: valid4_def)
    then show ?thesis using show_addr4_length [of "p_addr p"] by (simp add: show_prefix4_def)
  qed
  show ?thesis
  proof
    assume l: "private_prefix raw = Some p"
    then have "parse_prefix4 raw = Some p" "valid4 p" "masked p = p" using private_prefix_Some by blast+
    moreover from this have "raw = show_prefix4 p" using show_parse_prefix4 by blast
    ultimately show "raw = show_prefix4 p \<and> valid4 p \<and> masked p = p \<and> list_ex (\<lambda>r. block p \<subseteq> block r) rfc1918"
      using l pools by (auto simp: private_prefix_def Let_def split: if_splits)
  next
    assume r: "raw = show_prefix4 p \<and> valid4 p \<and> masked p = p \<and> list_ex (\<lambda>r. block p \<subseteq> block r) rfc1918"
    then show "private_prefix raw = Some p"
      using pools len parse_show_prefix4 [of p] by (simp add: private_prefix_def Let_def)
  qed
qed

end
