(* ===== verification/Version.thy ===== *)
theory Version
  imports Text
begin

text \<open>
  Product versions (\<^verbatim>\<open>internal/update/version.go\<close>): the pattern, parsing, printing, the order
  that puts a release after its betas, and the package versions. The lemmas show that parsing
  inverts printing and that on parsed versions the order is strict and total.
\<close>

datatype version = Version (v_major: int) (v_minor: int) (v_patch: int) (v_beta: int)

text \<open>One number of \<^verbatim>\<open>versionPattern\<close>: at most nine digits without a leading zero.\<close>

definition version_number :: "string \<Rightarrow> bool" where
  "version_number s \<longleftrightarrow> plain_dec s \<and> length s \<le> 9"

definition version_beta :: "string \<Rightarrow> bool" where
  "version_beta s \<longleftrightarrow> version_number s \<and> hd s \<noteq> CHR ''0''"

definition version_match :: "string \<Rightarrow> (string \<times> string \<times> string \<times> string) option" where
  "version_match s =
     (case split_on CHR ''-'' (trim_prefix ''v'' s) of
        b # r \<Rightarrow>
          (case split_on CHR ''.'' b of
             [x, y, z] \<Rightarrow>
               if list_all version_number [x, y, z] then
                 (case r of
                    [] \<Rightarrow> Some (x, y, z, [])
                  | [t] \<Rightarrow> (case cut_prefix ''beta.'' t of
                        Some n \<Rightarrow> if version_beta n then Some (x, y, z, n) else None
                      | None \<Rightarrow> None)
                  | _ \<Rightarrow> None)
               else None
           | _ \<Rightarrow> None)
      | [] \<Rightarrow> None)"

definition parse_version :: "string \<Rightarrow> version option" where
  "parse_version s = (case version_match s of
      None \<Rightarrow> None
    | Some (x, y, z, b) \<Rightarrow> Some (Version (int (parse_dec x)) (int (parse_dec y)) (int (parse_dec z))
        (if b \<noteq> [] then int (parse_dec b) else 0)))"

definition prerelease :: "version \<Rightarrow> bool" where
  "prerelease v \<longleftrightarrow> v_beta v > 0"

definition version_base :: "version \<Rightarrow> string" where
  "version_base v = show_int (v_major v) @ ''.'' @ show_int (v_minor v) @ ''.'' @ show_int (v_patch v)"

definition version_string :: "version \<Rightarrow> string" where
  "version_string v = (if prerelease v then version_base v @ ''-beta.'' @ show_int (v_beta v) else version_base v)"

definition beta_rank :: "version \<Rightarrow> int" where
  "beta_rank v = (if v_beta v = 0 then 2 ^ 63 - 1 else v_beta v)"

fun first_difference :: "int list \<Rightarrow> int option" where
  "first_difference [] = None"
| "first_difference (d # ds) = (if d \<noteq> 0 then Some d else first_difference ds)"

definition version_less :: "version \<Rightarrow> version \<Rightarrow> bool" where
  "version_less v w =
     (case first_difference [v_major v - v_major w, v_minor v - v_minor w, v_patch v - v_patch w] of
        Some d \<Rightarrow> d < 0
      | None \<Rightarrow> beta_rank v < beta_rank w)"

definition rpm_version :: "version \<Rightarrow> (string \<times> string) option" where
  "rpm_version v = (if \<not> prerelease v then None else Some (version_base v, ''0.beta.'' @ show_int (v_beta v)))"

definition deb_version :: "version \<Rightarrow> string option" where
  "deb_version v = (if \<not> prerelease v then None else Some (version_base v @ ''~beta.'' @ show_int (v_beta v)))"

section \<open>Parsing inverts printing\<close>

definition version_ok :: "version \<Rightarrow> bool" where
  "version_ok v \<longleftrightarrow> (\<forall>n \<in> {v_major v, v_minor v, v_patch v, v_beta v}. 0 \<le> n \<and> n < 10 ^ 9)"

lemma version_number_show: "version_number s \<longleftrightarrow> (\<exists>n < 10 ^ 9. s = show_nat n)"
proof
  assume s: "version_number s"
  then have e: "show_nat (parse_dec s) = s" using show_parse_dec by (auto simp: version_number_def)
  then have "parse_dec s < 10 ^ 9" using s length_show_nat [of 9 "parse_dec s"] by (simp add: version_number_def)
  then show "\<exists>n < 10 ^ 9. s = show_nat n" using e by metis
next
  assume "\<exists>n < 10 ^ 9. s = show_nat n"
  then show "version_number s" using plain_show_nat length_show_nat [of 9] by (auto simp: version_number_def)
qed

lemma version_number_int: "0 \<le> i \<Longrightarrow> i < 10 ^ 9 \<Longrightarrow> version_number (show_nat (nat i))"
  unfolding version_number_show by (rule exI [of _ "nat i"]) simp

lemma version_beta_show: "version_beta s \<longleftrightarrow> (\<exists>n. 0 < n \<and> n < 10 ^ 9 \<and> s = show_nat n)"
proof
  assume s: "version_beta s"
  then obtain n where n: "n < 10 ^ 9" "s = show_nat n" using version_number_show by (auto simp: version_beta_def)
  have "0 < parse_dec s" using s parse_dec_pos by (auto simp: version_beta_def version_number_def)
  then show "\<exists>n. 0 < n \<and> n < 10 ^ 9 \<and> s = show_nat n" using n by auto
next
  assume "\<exists>n. 0 < n \<and> n < 10 ^ 9 \<and> s = show_nat n"
  then show "version_beta s" using version_number_show show_nat_digits by (auto simp: version_beta_def)
qed

lemma show_nat_plain: "c \<in> set (show_nat n) \<Longrightarrow> is_digit c"
  using show_nat_digits [of n] by (auto simp: list_all_iff)

lemma not_digit: "\<not> is_digit CHR ''.''" "\<not> is_digit CHR ''-''" "\<not> is_digit CHR ''v''"
  by (simp_all add: is_digit_def)

lemma version_number_chars:
  "version_number s \<Longrightarrow> s \<noteq> [] \<and> CHR ''.'' \<notin> set s \<and> CHR ''-'' \<notin> set s \<and> CHR ''v'' \<notin> set s"
  using not_digit unfolding version_number_def plain_dec_def list_all_iff by blast

lemma split_three:
  "split_on c s = [x, y, z] \<longleftrightarrow> s = x @ c # y @ c # z \<and> c \<notin> set x \<and> c \<notin> set y \<and> c \<notin> set z"
proof
  assume l: "split_on c s = [x, y, z]"
  obtain r where r: "s = x @ c # r" "split_on c r = [y, z]" using split_on_two [OF l] by blast
  obtain q where q: "r = y @ c # q" "split_on c q = [z]" using split_on_two [OF r(2)] by blast
  have "c \<notin> set a" if "a \<in> set (split_on c t)" for a t
    using that by (induction t arbitrary: a) (auto split: list.splits if_splits)
  then show "s = x @ c # y @ c # z \<and> c \<notin> set x \<and> c \<notin> set y \<and> c \<notin> set z"
    using l r q split_on_one [OF q(2)] by (metis list.set_intros(1) list.set_intros(2))
next
  assume "s = x @ c # y @ c # z \<and> c \<notin> set x \<and> c \<notin> set y \<and> c \<notin> set z"
  then show "split_on c s = [x, y, z]" by (simp add: split_on_sep split_on_none)
qed

definition dotted :: "string \<Rightarrow> string \<Rightarrow> string \<Rightarrow> string" where
  "dotted x y z = x @ ''.'' @ y @ ''.'' @ z"

lemma version_match_iff:
  "version_match s = Some (x, y, z, n) \<longleftrightarrow> list_all version_number [x, y, z] \<and>
     (n = [] \<and> trim_prefix ''v'' s = dotted x y z \<or>
      version_beta n \<and> trim_prefix ''v'' s = dotted x y z @ ''-beta.'' @ n)" (is "?l \<longleftrightarrow> ?r")
proof
  assume ?l
  then obtain b r where b: "split_on CHR ''-'' (trim_prefix ''v'' s) = b # r"
    using split_on_nonempty by (cases "split_on CHR ''-'' (trim_prefix ''v'' s)") auto
  have xyz: "split_on CHR ''.'' b = [x, y, z] \<and> list_all version_number [x, y, z]"
    using \<open>?l\<close> b by (auto simp: version_match_def split: list.splits if_splits option.splits)
  then have d: "b = dotted x y z" by (simp add: split_three dotted_def)
  consider "r = []" "n = []" | t where "r = [t]" "t = ''beta.'' @ n" "version_beta n"
    using \<open>?l\<close> b by (fastforce simp: version_match_def cut_prefix_Some split: list.splits if_splits option.splits)
  then show ?r
  proof cases
    case 1
    then show ?thesis using xyz d b split_on_one by auto
  next
    case 2
    then have bt: "split_on CHR ''-'' (trim_prefix ''v'' s) = b # t # []" using b by simp
    then obtain q where q: "trim_prefix ''v'' s = b @ CHR ''-'' # q" "split_on CHR ''-'' q = [t]"
      using split_on_two [OF bt] by blast
    then show ?thesis using xyz d 2 split_on_one [OF q(2)] by simp
  qed
next
  assume r: ?r
  then have nums: "version_number x" "version_number y" "version_number z" by simp_all
  have dash: "CHR ''-'' \<notin> set (dotted x y z)"
    using nums by (simp add: dotted_def version_number_chars)
  have dots: "split_on CHR ''.'' (dotted x y z) = [x, y, z]"
    using nums by (simp add: dotted_def split_three version_number_chars)
  show ?l
  proof (cases "n = []")
    case True
    then have "trim_prefix ''v'' s = dotted x y z" using r by (auto simp: version_beta_def version_number_def plain_dec_def)
    then show ?thesis using True nums dots split_on_none [OF dash] by (simp add: version_match_def)
  next
    case False
    then have n: "version_beta n" "trim_prefix ''v'' s = dotted x y z @ CHR ''-'' # ''beta.'' @ n" using r by auto
    have "CHR ''-'' \<notin> set n" using n(1) by (simp add: version_beta_def version_number_chars)
    then have "split_on CHR ''-'' (trim_prefix ''v'' s) = [dotted x y z, ''beta.'' @ n]"
      unfolding n(2) by (simp add: split_on_sep [OF dash] split_on_none)
    moreover have "cut_prefix ''beta.'' (''beta.'' @ n) = Some n" using cut_prefix_Some by blast
    ultimately show ?thesis using n(1) nums dots by (simp add: version_match_def)
  qed
qed

lemma dotted_starts: "version_number x \<Longrightarrow> \<exists>c r. dotted x y z = c # r \<and> c \<noteq> CHR ''v''"
  by (cases x) (use version_number_chars in \<open>fastforce simp: dotted_def\<close>)+

lemma trim_v: "c \<noteq> CHR ''v'' \<Longrightarrow> trim_prefix ''v'' s = c # r \<longleftrightarrow> s = c # r \<or> s = ''v'' @ c # r"
  by (cases s) (auto simp: trim_prefix_def has_prefix_def)

lemma trim_dotted:
  assumes "version_number x"
  shows "trim_prefix ''v'' s = dotted x y z @ t \<longleftrightarrow> s = dotted x y z @ t \<or> s = ''v'' @ dotted x y z @ t"
proof -
  obtain c r where "dotted x y z = c # r" "c \<noteq> CHR ''v''" using dotted_starts [OF assms] by blast
  then show ?thesis using trim_v [of c s "r @ t"] by simp
qed

lemma parse_version_iff:
  "parse_version s = Some v \<longleftrightarrow> version_ok v \<and> (s = version_string v \<or> s = ''v'' @ version_string v)" (is "?l \<longleftrightarrow> ?r")
proof
  assume ?l
  then obtain x y z n where m: "version_match s = Some (x, y, z, n)"
    and v: "v = Version (int (parse_dec x)) (int (parse_dec y)) (int (parse_dec z)) (if n \<noteq> [] then int (parse_dec n) else 0)"
    by (auto simp: parse_version_def split: option.splits)
  note mm = m [unfolded version_match_iff]
  obtain a b c where abc: "x = show_nat a" "y = show_nat b" "z = show_nat c" "a < 10 ^ 9" "b < 10 ^ 9" "c < 10 ^ 9"
    using mm version_number_show by auto
  have base: "version_base v = dotted x y z" by (simp add: version_base_def v abc show_int_def dotted_def)
  show ?r
  proof (cases "n = []")
    case True
    then have "v_beta v = 0" by (simp add: v)
    then have "version_string v = dotted x y z @ []" by (simp add: version_string_def prerelease_def base)
    moreover have "trim_prefix ''v'' s = dotted x y z @ []" using mm True by (auto simp: version_beta_def version_number_def plain_dec_def)
    ultimately show ?thesis using trim_dotted [of x s y z "[]"] mm abc True v by (auto simp: version_ok_def)
  next
    case False
    then obtain k where k: "n = show_nat k" "0 < k" "k < 10 ^ 9" using mm version_beta_show by auto
    have "version_string v = dotted x y z @ ''-beta.'' @ n"
      using k False by (simp add: version_string_def prerelease_def base) (simp add: v show_int_def)
    moreover have "trim_prefix ''v'' s = dotted x y z @ ''-beta.'' @ n" using mm False by auto
    ultimately show ?thesis using trim_dotted [of x s y z "''-beta.'' @ n"] mm abc k False v by (auto simp: version_ok_def)
  qed
next
  assume r: ?r
  define x y z where xyz: "x = show_nat (nat (v_major v))" "y = show_nat (nat (v_minor v))" "z = show_nat (nat (v_patch v))"
  have ok: "0 \<le> v_major v" "0 \<le> v_minor v" "0 \<le> v_patch v" "0 \<le> v_beta v" "v_major v < 10 ^ 9" "v_minor v < 10 ^ 9"
    "v_patch v < 10 ^ 9" "v_beta v < 10 ^ 9" using r by (auto simp: version_ok_def)
  have nums: "list_all version_number [x, y, z]" unfolding xyz using ok version_number_int by simp
  have base: "version_base v = dotted x y z" using ok by (simp add: version_base_def xyz show_int_def dotted_def)
  show ?l
  proof (cases "prerelease v")
    case True
    define n where "n = show_nat (nat (v_beta v))"
    have n: "version_beta n" "n \<noteq> []" using ok(8) True show_nat_digits
      unfolding n_def version_beta_show prerelease_def by (auto intro!: exI [of _ "nat (v_beta v)"])
    have str: "version_string v = dotted x y z @ ''-beta.'' @ n"
      using True ok by (simp add: version_string_def base n_def show_int_def)
    then have "trim_prefix ''v'' s = dotted x y z @ ''-beta.'' @ n"
      using r nums trim_dotted [of x s y z "''-beta.'' @ n"] by simp
    then have "version_match s = Some (x, y, z, n)" using nums n version_match_iff by blast
    then show ?thesis using n(2) ok by (simp add: parse_version_def xyz n_def)
  next
    case False
    then have zero: "v_beta v = 0" using ok by (simp add: prerelease_def)
    have "trim_prefix ''v'' s = dotted x y z" using r nums trim_dotted [of x s y z "[]"] False
      by (simp add: version_string_def base)
    then have "version_match s = Some (x, y, z, [])" using nums version_match_iff by blast
    then show ?thesis using zero ok by (cases v) (simp add: parse_version_def xyz)
  qed
qed

section \<open>The order\<close>

definition version_rank :: "version \<Rightarrow> int \<times> int \<times> int \<times> int" where
  "version_rank v = (v_major v, v_minor v, v_patch v, beta_rank v)"

lemma version_less_rank: "version_less v w \<longleftrightarrow>
   (let (a, b, c, d) = version_rank v; (a', b', c', d') = version_rank w in
    a < a' \<or> a = a' \<and> (b < b' \<or> b = b' \<and> (c < c' \<or> c = c' \<and> d < d')))"
  by (auto simp: version_less_def version_rank_def)

lemma version_rank_inj: "version_ok v \<Longrightarrow> version_ok w \<Longrightarrow> version_rank v = version_rank w \<longleftrightarrow> v = w"
  by (cases v; cases w) (auto simp: version_rank_def version_ok_def beta_rank_def split: if_splits)

lemma version_less_irrefl [simp]: "\<not> version_less v v"
  by (simp add: version_less_rank Let_def split: prod.splits)

lemma version_less_trans: "version_less u v \<Longrightarrow> version_less v w \<Longrightarrow> version_less u w"
  by (auto simp: version_less_rank Let_def split: prod.splits)

lemma version_less_total: "version_ok v \<Longrightarrow> version_ok w \<Longrightarrow> version_less v w \<or> v = w \<or> version_less w v"
  using version_rank_inj [of v w] by (auto simp: version_less_rank Let_def split: prod.splits)

lemma parsed_ok: "parse_version s = Some v \<Longrightarrow> version_ok v"
  using parse_version_iff by blast

text \<open>
  C17. Product versions round-trip: a text is accepted exactly when it is the printed form of a
  version whose numbers have at most nine digits, with or without the leading \<open>v\<close>, and it
  then denotes that version; the pattern admits no other spelling.
\<close>

theorem version_round_trip:
  "parse_version s = Some v \<longleftrightarrow> version_ok v \<and> (s = version_string v \<or> s = ''v'' @ version_string v)"
  by (rule parse_version_iff)

end
