(* ===== verification/Update.thy ===== *)
theory Update
  imports Version
begin

text \<open>
  The self-updater of \<^verbatim>\<open>internal/update\<close>: the daily check with its cache (\<^verbatim>\<open>store.go\<close>), the
  choice of the newest release and the URL policy (\<^verbatim>\<open>check.go\<close>), and the download of packages
  (\<^verbatim>\<open>install.go\<close>), whose files must match the digest recorded by the host, the release's
  \<^verbatim>\<open>SHA256SUMS\<close>, the size listed and the package's own identity. The network, SHA-256, the
  package tools and the failures of the file system are the fields of \<open>update_env\<close>; instants
  are nanoseconds.
\<close>

section \<open>Data\<close>

record url =
  u_scheme :: string
  u_host :: string
  u_text :: string

record asset =
  as_name :: string
  as_url :: string
  as_size :: int
  as_digest :: string

record release =
  rel_version :: string
  rel_tag :: string
  rel_prerelease :: bool
  rel_page :: string
  rel_published :: int
  rel_assets :: "asset list"

record listed_release =
  li_tag :: string
  li_draft :: bool
  li_prerelease :: bool
  li_page :: string
  li_published :: int
  li_assets :: "asset list"

record check_result =
  cr_current :: string
  cr_latest :: "release option"
  cr_checked_at :: int
  cr_error :: string

record installed =
  in_format :: string
  in_helper :: bool

datatype update_error =
    Deadline_exceeded
  | Transport string
  | Bad_url string
  | Host_refused string
  | Too_many_redirects
  | Bad_status string string
  | Not_a_version string
  | Unreadable_list string
  | Asset_count string nat string string
  | Unsafe_asset string
  | Wrong_architecture
  | Sums_twice
  | Sums_missing string
  | Sums_too_large
  | Sums_mismatch
  | Bad_sums_line string
  | Line_too_long
  | No_recorded_digest string
  | Not_in_sums string string
  | Digests_disagree string
  | Bad_size string int
  | Size_differs string nat int
  | Hash_differs string
  | Download_failed string string
  | Manual_install version
  | Unknown_format string
  | Wrong_package string string string
  | Not_private string
  | Not_from_package string
  | Os_failed string

record reply =
  rp_status :: string
  rp_ok :: bool
  rp_body :: bytes
  rp_error :: "string option"

datatype answer = Moved url | Replied reply

record update_env =
  parse_url :: "string \<Rightarrow> string + url"
  request :: "url \<Rightarrow> update_error + answer"
  decode_list :: "bytes \<Rightarrow> string option \<Rightarrow> string + listed_release list"
  sha256_hex :: "bytes \<Rightarrow> string"
  runner :: "string list \<Rightarrow> string \<times> bool"
  goarch :: string
  mkdir_error :: "string \<Rightarrow> string option"
  private_dir :: "string \<Rightarrow> bool"
  open_error :: "string \<Rightarrow> string option"
  copy_error :: "string \<Rightarrow> string option"
  rename_error :: "string \<Rightarrow> string option"

section \<open>The network\<close>

definition allowed_url :: "url \<Rightarrow> update_error option" where
  "allowed_url u =
     (if u_scheme u = ''https'' \<and> (u_host u = ''api.github.com'' \<or> u_host u = ''github.com'' \<or>
          has_suffix ''.githubusercontent.com'' (u_host u))
      then None else Some (Host_refused (u_text u)))"

text \<open>\<^verbatim>\<open>http.Client.Do\<close> under the \<^verbatim>\<open>CheckRedirect\<close> of \<^verbatim>\<open>Default\<close>; \<open>via\<close> holds the requests already made.\<close>

function follow :: "(url \<Rightarrow> update_error + answer) \<Rightarrow> url list \<Rightarrow> url \<Rightarrow> update_error + reply" where
  "follow req via u =
     (case req u of
        Inl e \<Rightarrow> Inl e
      | Inr (Replied r) \<Rightarrow> Inr r
      | Inr (Moved u') \<Rightarrow>
          (if length (via @ [u]) \<ge> 5 then Inl Too_many_redirects
           else case allowed_url u' of Some e \<Rightarrow> Inl e | None \<Rightarrow> follow req (via @ [u]) u'))"
  by pat_completeness auto
termination by (relation "measure (\<lambda>(req, via, u). 5 - length via)") auto

declare follow.simps [simp del]

definition get_url :: "update_env \<Rightarrow> string \<Rightarrow> update_error + reply" where
  "get_url env raw =
     (case parse_url env raw of
        Inl e \<Rightarrow> Inl (Bad_url e)
      | Inr u \<Rightarrow>
          (case allowed_url u of
             Some e \<Rightarrow> Inl e
           | None \<Rightarrow> bindr (follow (request env) [] u) (\<lambda>r.
               if rp_ok r then Inr r else Inl (Bad_status (rp_status r) (u_text u)))))"

section \<open>The check\<close>

definition repository :: string where
  "repository = ''kwmx/virmill''"

definition release_of :: "listed_release \<Rightarrow> version \<Rightarrow> release" where
  "release_of r v = \<lparr>rel_version = version_string v, rel_tag = li_tag r, rel_prerelease = li_prerelease r,
     rel_page = li_page r, rel_published = li_published r, rel_assets = li_assets r\<rparr>"

fun newest :: "version \<Rightarrow> (release \<times> version) option \<Rightarrow> listed_release list \<Rightarrow> (release \<times> version) option" where
  "newest cur best [] = best"
| "newest cur best (r # rs) =
     (case parse_version (li_tag r) of
        None \<Rightarrow> newest cur best rs
      | Some v \<Rightarrow>
          if li_draft r \<or> prerelease v \<and> \<not> prerelease cur \<or> \<not> version_less cur v \<or>
             (case best of Some (_, b) \<Rightarrow> \<not> version_less b v | None \<Rightarrow> False)
          then newest cur best rs
          else newest cur (Some (release_of r v, v)) rs)"

definition check_update :: "update_env \<Rightarrow> int \<Rightarrow> string \<Rightarrow> check_result \<times> update_error option" where
  "check_update env clock current =
     (let res = \<lparr>cr_current = current, cr_latest = None, cr_checked_at = clock, cr_error = []\<rparr> in
      case parse_version current of
        None \<Rightarrow> (res, Some (Not_a_version current))
      | Some cur \<Rightarrow>
          (case get_url env (''https://api.github.com'' @ ''/repos/'' @ repository @ ''/releases?per_page=30'') of
             Inl e \<Rightarrow> (res, Some e)
           | Inr r \<Rightarrow>
               (case decode_list env (take (2 ^ 22) (rp_body r)) (rp_error r) of
                  Inl e \<Rightarrow> (res, Some (Unreadable_list e))
                | Inr rs \<Rightarrow> (res\<lparr>cr_latest := map_option fst (newest cur None rs)\<rparr>, None))))"

definition available :: "check_result \<Rightarrow> bool" where
  "available r \<longleftrightarrow> cr_latest r \<noteq> None"

section \<open>The cache of the check\<close>

definition second :: int where
  "second = 1000000000"

definition hours :: "int \<Rightarrow> int" where
  "hours n = n * 3600 * second"

text \<open>\<^verbatim>\<open>time.Time.Sub\<close> saturates at the ends of a 64-bit duration.\<close>

definition time_sub :: "int \<Rightarrow> int \<Rightarrow> int" where
  "time_sub a b = max (- (2 ^ 63)) (min (2 ^ 63 - 1) (a - b))"

definition due :: "check_result \<Rightarrow> bool \<Rightarrow> string \<Rightarrow> int \<Rightarrow> bool" where
  "due r ok current now =
     (let wait = (if cr_error r \<noteq> [] then hours 6 else hours 24) in
      \<not> ok \<or> cr_current r \<noteq> current \<or> time_sub now (cr_checked_at r) \<ge> wait \<or> cr_checked_at r > now + hours 1)"

definition explain :: "(update_error \<Rightarrow> string) \<Rightarrow> update_error \<Rightarrow> string" where
  "explain render e = (if e = Deadline_exceeded then ''GitHub did not answer in time'' else render e)"

definition no_result :: check_result where
  "no_result = \<lparr>cr_current = [], cr_latest = None, cr_checked_at = 0, cr_error = []\<rparr>"

text \<open>\<open>disk\<close> is the saved result; saving is best effort, as \<^verbatim>\<open>_ = p.Save(fresh)\<close> says.\<close>

definition check_if_due ::
  "update_env \<Rightarrow> (update_error \<Rightarrow> string) \<Rightarrow> check_result option \<Rightarrow> bool \<Rightarrow> int \<Rightarrow> string \<Rightarrow> int \<Rightarrow>
   check_result \<times> check_result option" where
  "check_if_due env render disk save_ok clock current now =
     (let ok = (disk \<noteq> None); cached = (case disk of Some r \<Rightarrow> r | None \<Rightarrow> no_result) in
      if \<not> due cached ok current now then (cached, disk)
      else
        let fresh = (case check_update env clock current of
              (r, None) \<Rightarrow> r
            | (_, Some e) \<Rightarrow> \<lparr>cr_current = current,
                cr_latest = (if ok \<and> cr_current cached = current then cr_latest cached else None),
                cr_checked_at = now, cr_error = explain render e\<rparr>)
        in (fresh, if save_ok then Some fresh else disk))"

definition checks_enabled :: "string \<Rightarrow> bool option option \<Rightarrow> bool" where
  "checks_enabled variable settings =
     (if variable \<in> {''0'', ''off'', ''false''} then False
      else if variable \<in> {''1'', ''on'', ''true''} then True
      else case settings of Some (Some b) \<Rightarrow> b | _ \<Rightarrow> True)"

section \<open>Packages\<close>

definition detect_install :: "update_env \<Rightarrow> string \<Rightarrow> update_error + installed" where
  "detect_install env binary =
     (let (out, failed) = runner env [''rpm'', ''-qf'', ''--queryformat'', ''%{NAME}'', binary] in
      if \<not> failed \<and> out = ''virmill''
      then Inr \<lparr>in_format = ''rpm'', in_helper = \<not> snd (runner env [''rpm'', ''-q'', ''virmill-host-helper''])\<rparr>
      else let (out, failed) = runner env [''dpkg-query'', ''-S'', binary] in
        if \<not> failed \<and> has_prefix ''virmill: '' out
        then Inr \<lparr>in_format = ''deb'', in_helper =
          fst (runner env [''dpkg-query'', ''-W'', ''-f=${Status}'', ''virmill-host-helper'']) = ''install ok installed''\<rparr>
        else Inl (Not_from_package binary))"

definition safe_name :: "string \<Rightarrow> bool" where
  "safe_name = name_shape alnum (\<lambda>c. alnum c \<or> c \<in> set ''._+~-'') 200"

definition asset_matches :: "string \<Rightarrow> string \<Rightarrow> string \<Rightarrow> bool" where
  "asset_matches name format n =
     (if format = ''rpm''
      then has_prefix (name @ ''-'') n \<and> has_suffix ''.x86_64.rpm'' n \<and>
        \<not> (name = ''virmill'' \<and> has_prefix ''virmill-host-helper'' n)
      else if format = ''deb'' then has_prefix (name @ ''_'') n \<and> has_suffix ''_amd64.deb'' n
      else False)"

definition package_asset :: "release \<Rightarrow> string \<Rightarrow> string \<Rightarrow> update_error + asset" where
  "package_asset r name format =
     (let found = filter (\<lambda>a. asset_matches name format (as_name a)) (rel_assets r) in
      case found of
        [a] \<Rightarrow> if safe_name (as_name a) then Inr a else Inl (Unsafe_asset (as_name a))
      | _ \<Rightarrow> Inl (Asset_count (rel_version r) (length found) format name))"

definition hex64 :: "string \<Rightarrow> bool" where
  "hex64 d \<longleftrightarrow> length d = 64 \<and> trim_set hex_digits d = []"

definition github_digest :: "asset \<Rightarrow> update_error + string" where
  "github_digest a = (case cut_prefix ''sha256:'' (as_digest a) of
      Some d \<Rightarrow> if hex64 d then Inr d else Inl (No_recorded_digest (as_name a))
    | None \<Rightarrow> Inl (No_recorded_digest (as_name a)))"

fun find_sums :: "asset option \<Rightarrow> asset list \<Rightarrow> update_error + asset option" where
  "find_sums found [] = Inr found"
| "find_sums found (a # as) =
     (if as_name a = ''SHA256SUMS''
      then (if found \<noteq> None then Inl Sums_twice else find_sums (Some a) as)
      else find_sums found as)"

type_synonym sums = "(string \<times> string) list"

text \<open>The map is an association list, the latest line of a name first.\<close>

fun parse_sums :: "string list \<Rightarrow> sums \<Rightarrow> update_error + sums" where
  "parse_sums [] m = Inr m"
| "parse_sums (l # ls) m =
     (let fs = text_fields l in
      if fs = [] then parse_sums ls m
      else let name = trim_prefix ''*'' (last fs) in
        if length fs \<noteq> 2 \<or> \<not> hex64 (hd fs) \<or> \<not> safe_name name then Inl (Bad_sums_line l)
        else parse_sums ls ((name, hd fs) # m))"

definition max_package :: int where
  "max_package = 536870912"

definition max_checksums :: nat where
  "max_checksums = 65536"

text \<open>
  A scanner gives up on a line that fills its buffer of 64 KiB: within the size limit, that is a
  full body without a newline.
\<close>

definition read_sums :: "bytes \<Rightarrow> update_error + sums" where
  "read_sums body =
     (if length body = max_checksums \<and> CHR 10 \<notin> set body then Inl Line_too_long
      else parse_sums (scan_lines body) [])"

definition checksums :: "update_env \<Rightarrow> release \<Rightarrow> update_error + sums" where
  "checksums env r =
     bindr (find_sums None (rel_assets r)) (\<lambda>found. case found of
       None \<Rightarrow> Inl (Sums_missing (rel_version r))
     | Some a \<Rightarrow>
         bindr (github_digest a) (\<lambda>recorded.
         bindr (get_url env (as_url a)) (\<lambda>rp.
           let body = take (Suc max_checksums) (rp_body rp) in
           if rp_error rp \<noteq> None \<and> length (rp_body rp) \<le> max_checksums then Inl (Transport (the (rp_error rp)))
           else if length body > max_checksums then Inl Sums_too_large
           else if sha256_hex env body \<noteq> recorded then Inl Sums_mismatch
           else read_sums body)))"

section \<open>Downloads\<close>

type_synonym file_store = "string \<rightharpoonup> bytes"

definition download :: "update_env \<Rightarrow> file_store \<Rightarrow> asset \<Rightarrow> string \<Rightarrow> string \<Rightarrow> file_store \<times> update_error option" where
  "download env fs a want path =
     (if as_size a \<le> 0 \<or> as_size a > max_package then (fs, Some (Bad_size (as_name a) (as_size a)))
      else case get_url env (as_url a) of
        Inl e \<Rightarrow> (fs, Some e)
      | Inr rp \<Rightarrow>
          (let part = path @ ''.part''; fs1 = fs(part := None) in
           case open_error env part of
             Some e \<Rightarrow> (fs1, Some (Os_failed e))
           | None \<Rightarrow>
               (let data = take (Suc (nat (as_size a))) (rp_body rp);
                    failed = (if rp_error rp \<noteq> None \<and> length (rp_body rp) \<le> nat (as_size a) then rp_error rp
                      else copy_error env part) in
                if failed \<noteq> None then (fs1, Some (Download_failed (as_name a) (the failed)))
                else if int (length data) \<noteq> as_size a then (fs1, Some (Size_differs (as_name a) (length data) (as_size a)))
                else if sha256_hex env data \<noteq> want then (fs1, Some (Hash_differs (as_name a)))
                else case rename_error env path of
                  Some e \<Rightarrow> (fs1, Some (Os_failed e))
                | None \<Rightarrow> (fs1(path \<mapsto> data), None))))"

definition package_query :: "string \<Rightarrow> string \<Rightarrow> string list" where
  "package_query format path =
     (if format = ''rpm''
      then [''rpm'', ''-qp'', ''--nosignature'', ''--queryformat'', ''%{NAME} %{VERSION} %{RELEASE} %{ARCH}'', path]
      else [''dpkg-deb'', ''--show'', ''--showformat=${Package} ${Version} ${Architecture}'', path])"

definition package_identity :: "string \<Rightarrow> string \<Rightarrow> version \<Rightarrow> string option" where
  "package_identity format name v =
     (if format = ''rpm''
      then map_option (\<lambda>(ver, r). name @ '' '' @ ver @ '' '' @ r @ '' x86_64'') (rpm_version v)
      else map_option (\<lambda>ver. name @ '' '' @ ver @ '' amd64'') (deb_version v))"

definition check_package :: "update_env \<Rightarrow> string \<Rightarrow> string \<Rightarrow> string \<Rightarrow> version \<Rightarrow> update_error option" where
  "check_package env format path name v =
     (if format \<notin> {''rpm'', ''deb''} then Some (Unknown_format format)
      else case package_identity format name v of
        None \<Rightarrow> Some (Manual_install v)
      | Some want \<Rightarrow>
          (let (out, failed) = runner env (package_query format path) in
           if failed \<or> out \<noteq> want then Some (Wrong_package path want out) else None))"

fun find_assets :: "release \<Rightarrow> string \<Rightarrow> string list \<Rightarrow> update_error + asset list" where
  "find_assets r format [] = Inr []"
| "find_assets r format (n # ns) =
     bindr (package_asset r n format) (\<lambda>a. bindr (find_assets r format ns) (\<lambda>as. Inr (a # as)))"

fun fetch_packages ::
  "update_env \<Rightarrow> sums \<Rightarrow> release \<Rightarrow> string \<Rightarrow> version \<Rightarrow> string \<Rightarrow> (string \<times> asset) list \<Rightarrow> file_store \<Rightarrow>
   file_store \<times> (update_error + string list)" where
  "fetch_packages env sums r format v dir [] fs = (fs, Inr [])"
| "fetch_packages env sums r format v dir ((name, a) # rest) fs =
     (case map_of sums (as_name a) of
        None \<Rightarrow> (fs, Inl (Not_in_sums (rel_version r) (as_name a)))
      | Some want \<Rightarrow>
          (case github_digest a of
             Inl e \<Rightarrow> (fs, Inl e)
           | Inr recorded \<Rightarrow>
               if recorded \<noteq> want then (fs, Inl (Digests_disagree (as_name a)))
               else let path = dir @ ''/'' @ as_name a in
                 (case download env fs a want path of
                    (fs1, Some e) \<Rightarrow> (fs1, Inl e)
                  | (fs1, None) \<Rightarrow>
                      (case check_package env format path name v of
                         Some e \<Rightarrow> (fs1(path := None), Inl e)
                       | None \<Rightarrow>
                           (case fetch_packages env sums r format v dir rest fs1 of
                              (fs2, Inl e) \<Rightarrow> (fs2, Inl e)
                            | (fs2, Inr fls) \<Rightarrow> (fs2, Inr (path # fls)))))))"

definition package_names :: "installed \<Rightarrow> string list" where
  "package_names i = ''virmill'' # (if in_helper i then [''virmill-host-helper''] else [])"

definition prepare :: "update_env \<Rightarrow> file_store \<Rightarrow> release \<Rightarrow> installed \<Rightarrow> string \<Rightarrow>
    file_store \<times> (update_error + string list)" where
  "prepare env fs r i cache =
     (case parse_version (rel_version r) of
        None \<Rightarrow> (fs, Inl (Not_a_version (rel_version r)))
      | Some v \<Rightarrow>
          if goarch env \<noteq> ''amd64'' then (fs, Inl Wrong_architecture)
          else (case bindr (find_assets r (in_format i) (package_names i)) (\<lambda>as.
                  bindr (checksums env r) (\<lambda>s. Inr (as, s))) of
              Inl e \<Rightarrow> (fs, Inl e)
            | Inr (as, s) \<Rightarrow>
                (let dir = cache @ ''/updates/'' @ version_string v in
                 case mkdir_error env dir of
                   Some e \<Rightarrow> (fs, Inl (Os_failed e))
                 | None \<Rightarrow>
                     if \<not> private_dir env dir then (fs, Inl (Not_private dir))
                     else fetch_packages env s r (in_format i) v dir (zip (package_names i) as) fs)))"

definition install_command :: "string \<Rightarrow> string list \<Rightarrow> string list" where
  "install_command format fls = [''sudo'', if format = ''deb'' then ''apt'' else ''dnf'', ''install''] @ fls"

end
