(* ===== verification/Update_Laws.thy ===== *)
theory Update_Laws
  imports Update
begin

text \<open>
  What the updater guarantees: the release offered is the greatest of the eligible ones, and a
  prepared file is exactly the bytes whose digest the host recorded and the release's list
  repeats, under the package identity of that version.
\<close>

section \<open>The greatest of a list under a strict order\<close>

locale strict_total =
  fixes less :: "'v \<Rightarrow> 'v \<Rightarrow> bool" and ok :: "'v \<Rightarrow> bool"
  assumes irrefl: "\<not> less v v"
    and trans: "less u v \<Longrightarrow> less v w \<Longrightarrow> less u w"
    and total: "ok v \<Longrightarrow> ok w \<Longrightarrow> less v w \<or> v = w \<or> less w v"
begin

lemma asym: "less v w \<Longrightarrow> \<not> less w v"
  using irrefl trans by blast

lemma below: "ok u \<Longrightarrow> ok v \<Longrightarrow> ok w \<Longrightarrow> \<not> less v u \<Longrightarrow> less v w \<Longrightarrow> less u w"
  using total trans by blast

lemma not_above: "ok u \<Longrightarrow> ok v \<Longrightarrow> ok w \<Longrightarrow> \<not> less v u \<Longrightarrow> \<not> less w v \<Longrightarrow> \<not> less w u"
  using below asym by blast

text \<open>\<open>i\<close> is the first greatest of the keyed values \<open>key 0, \<dots>, key (n - 1)\<close>.\<close>

definition first_greatest :: "(nat \<Rightarrow> 'v option) \<Rightarrow> nat \<Rightarrow> nat \<Rightarrow> 'v \<Rightarrow> bool" where
  "first_greatest key n i v \<longleftrightarrow> i < n \<and> key i = Some v \<and>
     (\<forall>k < n. \<forall>w. key k = Some w \<longrightarrow> (if k < i then less w v else \<not> less v w))"

lemma first_greatest_keep:
  assumes "first_greatest key n i v" and "\<And>w. key n = Some w \<Longrightarrow> \<not> less v w"
  shows "first_greatest key (Suc n) i v"
  using assms by (auto simp: first_greatest_def less_Suc_eq)

lemma first_greatest_raise:
  assumes best: "first_greatest key n i v" and new: "key n = Some w" "less v w"
    and ok: "\<And>k x. key k = Some x \<Longrightarrow> ok x"
  shows "first_greatest key (Suc n) n w"
  unfolding first_greatest_def
proof (intro conjI allI impI)
  fix k u assume k: "k < Suc n" "key k = Some u"
  show "if k < n then less u w else \<not> less w u"
  proof (cases "k < n")
    case True
    have kv: "key i = Some v" and "if k < i then less u v else \<not> less v u"
      using best k(2) True unfolding first_greatest_def by blast+
    then have "\<not> less v u" using asym by (cases "k < i") auto
    from below [OF ok [OF k(2)] ok [OF kv] ok [OF new(1)] this new(2)] show ?thesis using True by simp
  next
    case False
    then show ?thesis using k new irrefl by (simp add: less_Suc_eq)
  qed
qed (simp_all add: new)

lemma first_greatest_start:
  assumes "\<And>k. k < n \<Longrightarrow> key k = None" and "key n = Some w"
  shows "first_greatest key (Suc n) n w"
  using assms irrefl by (auto simp: first_greatest_def less_Suc_eq)

end

interpretation vorder: strict_total version_less version_ok
  by unfold_locales (simp, erule (1) version_less_trans, erule (1) version_less_total)

section \<open>The release offered\<close>

definition eligible :: "version \<Rightarrow> listed_release \<Rightarrow> version option" where
  "eligible cur r = (case parse_version (li_tag r) of
      Some v \<Rightarrow> if \<not> li_draft r \<and> (prerelease v \<longrightarrow> prerelease cur) \<and> version_less cur v then Some v else None
    | None \<Rightarrow> None)"

lemma eligible_ok: "eligible cur r = Some v \<Longrightarrow> version_ok v"
  using parsed_ok by (auto simp: eligible_def split: option.splits if_splits)

lemma newest_Cons: "newest cur best (r # rs) = (case eligible cur r of
    None \<Rightarrow> newest cur best rs
  | Some v \<Rightarrow> if (case best of Some (_, b) \<Rightarrow> \<not> version_less b v | None \<Rightarrow> False) then newest cur best rs
      else newest cur (Some (release_of r v, v)) rs)"
  by (auto simp: eligible_def split: option.splits)

definition best_so_far :: "version \<Rightarrow> listed_release list \<Rightarrow> nat \<Rightarrow> (release \<times> version) option \<Rightarrow> bool" where
  "best_so_far cur all n best \<longleftrightarrow> (case best of
      None \<Rightarrow> \<forall>k < n. eligible cur (all ! k) = None
    | Some (rel, v) \<Rightarrow> \<exists>i. rel = release_of (all ! i) v \<and>
        vorder.first_greatest (\<lambda>k. eligible cur (all ! k)) n i v)"

lemma best_so_far_step:
  assumes "best_so_far cur all n best"
  shows "best_so_far cur all (Suc n) (case eligible cur (all ! n) of
      None \<Rightarrow> best
    | Some v \<Rightarrow> if (case best of Some (_, b) \<Rightarrow> \<not> version_less b v | None \<Rightarrow> False) then best
        else Some (release_of (all ! n) v, v))"
proof (cases best)
  case None
  then show ?thesis
    using assms vorder.first_greatest_start [of n "\<lambda>k. eligible cur (all ! k)"]
    by (auto simp: best_so_far_def less_Suc_eq split: option.splits)
next
  case (Some rb)
  then obtain i where i: "fst rb = release_of (all ! i) (snd rb)"
    "vorder.first_greatest (\<lambda>k. eligible cur (all ! k)) n i (snd rb)"
    using assms by (cases rb) (auto simp: best_so_far_def)
  show ?thesis
  proof (cases "\<exists>w. eligible cur (all ! n) = Some w \<and> version_less (snd rb) w")
    case True
    then obtain w where w: "eligible cur (all ! n) = Some w" "version_less (snd rb) w" by blast
    then have "vorder.first_greatest (\<lambda>k. eligible cur (all ! k)) (Suc n) n w"
      using vorder.first_greatest_raise [OF i(2)] eligible_ok by blast
    then show ?thesis using w Some by (cases rb) (auto simp: best_so_far_def)
  next
    case False
    then have "vorder.first_greatest (\<lambda>k. eligible cur (all ! k)) (Suc n) i (snd rb)"
      using vorder.first_greatest_keep [OF i(2)] by blast
    then show ?thesis using False Some i(1) by (cases rb) (auto simp: best_so_far_def split: option.splits)
  qed
qed

lemma newest_best:
  "best_so_far cur all n best \<Longrightarrow> n \<le> length all \<Longrightarrow> best_so_far cur all (length all) (newest cur best (drop n all))"
proof (induction "length all - n" arbitrary: n best)
  case 0
  then show ?case by simp
next
  case (Suc m)
  then have n: "n < length all" by simp
  let ?b = "case eligible cur (all ! n) of None \<Rightarrow> best
    | Some v \<Rightarrow> if (case best of Some (_, b) \<Rightarrow> \<not> version_less b v | None \<Rightarrow> False) then best
        else Some (release_of (all ! n) v, v)"
  have "newest cur best (drop n all) = newest cur ?b (drop (Suc n) all)"
    using n by (simp add: Cons_nth_drop_Suc [symmetric] newest_Cons del: newest.simps split: option.splits)
  then show ?case using Suc.hyps(1) [of "Suc n" ?b] best_so_far_step [OF Suc.prems(1)] Suc.hyps(2) n by simp
qed

lemma newest_spec: "best_so_far cur rs (length rs) (newest cur None rs)"
  using newest_best [of cur rs 0 None] by (simp add: best_so_far_def)

definition published :: "update_env \<Rightarrow> update_error + listed_release list" where
  "published env = bindr (get_url env ''https://api.github.com/repos/kwmx/virmill/releases?per_page=30'')
     (\<lambda>r. case decode_list env (take (2 ^ 22) (rp_body r)) (rp_error r) of
        Inl e \<Rightarrow> Inl (Unreadable_list e) | Inr rs \<Rightarrow> Inr rs)"

lemma check_update_cases:
  "check_update env clock current = (res, err) \<longleftrightarrow>
     (case parse_version current of
        None \<Rightarrow> err = Some (Not_a_version current) \<and> res = \<lparr>cr_current = current, cr_latest = None, cr_checked_at = clock, cr_error = []\<rparr>
      | Some cur \<Rightarrow> (case published env of
          Inl e \<Rightarrow> err = Some e \<and> res = \<lparr>cr_current = current, cr_latest = None, cr_checked_at = clock, cr_error = []\<rparr>
        | Inr rs \<Rightarrow> err = None \<and> res = \<lparr>cr_current = current, cr_latest = map_option fst (newest cur None rs),
            cr_checked_at = clock, cr_error = []\<rparr>))"
  by (auto simp: check_update_def published_def repository_def Let_def split: option.splits sum.splits)

text \<open>
  A successful check offers the first greatest eligible release of the published list: a
  parsed, non-draft version above the running one, a beta only to users of a beta, with no
  eligible version above it; it offers none only when no release is eligible, and a failed
  check offers none.
\<close>

theorem check_offers_newest:
  "case check_update env clock current of
     (res, Some e) \<Rightarrow> cr_latest res = None
   | (res, None) \<Rightarrow> (\<exists>cur rs. parse_version current = Some cur \<and> published env = Inr rs \<and>
       (case cr_latest res of
          None \<Rightarrow> list_all (\<lambda>r. eligible cur r = None) rs
        | Some rel \<Rightarrow> (\<exists>i v. rel = release_of (rs ! i) v \<and>
            vorder.first_greatest (\<lambda>k. eligible cur (rs ! k)) (length rs) i v)))"
proof -
  obtain res err where r: "check_update env clock current = (res, err)" by fastforce
  note c = r [unfolded check_update_cases]
  show ?thesis
  proof (cases err)
    case (Some e)
    then show ?thesis using r c by (auto split: option.splits sum.splits)
  next
    case None
    then obtain cur rs where cur: "parse_version current = Some cur" and rs: "published env = Inr rs"
      and res: "cr_latest res = map_option fst (newest cur None rs)"
      using c by (auto split: option.splits sum.splits)
    have "case newest cur None rs of
        None \<Rightarrow> \<forall>k < length rs. eligible cur (rs ! k) = None
      | Some (rel, v) \<Rightarrow> \<exists>i. rel = release_of (rs ! i) v \<and>
          vorder.first_greatest (\<lambda>k. eligible cur (rs ! k)) (length rs) i v"
      using newest_spec [of cur rs] unfolding best_so_far_def .
    then have "case cr_latest res of
        None \<Rightarrow> list_all (\<lambda>r. eligible cur r = None) rs
      | Some rel \<Rightarrow> (\<exists>i v. rel = release_of (rs ! i) v \<and>
          vorder.first_greatest (\<lambda>k. eligible cur (rs ! k)) (length rs) i v)"
      unfolding res by (cases "newest cur None rs") (simp_all add: list_all_length split_beta, blast)
    then show ?thesis using r None cur rs by simp
  qed
qed

section \<open>Only authenticated packages are kept\<close>

definition authentic :: "update_env \<Rightarrow> release \<Rightarrow> string \<Rightarrow> string \<Rightarrow> asset \<Rightarrow> bytes \<Rightarrow> bool" where
  "authentic env r format name a data \<longleftrightarrow> a \<in> set (rel_assets r) \<and> asset_matches name format (as_name a) \<and> safe_name (as_name a) \<and>
     int (length data) = as_size a \<and> as_size a \<le> max_package \<and>
     as_digest a = ''sha256:'' @ sha256_hex env data \<and>
     (\<exists>s. checksums env r = Inr s \<and> map_of s (as_name a) = Some (sha256_hex env data))"

definition identified :: "update_env \<Rightarrow> release \<Rightarrow> string \<Rightarrow> string \<Rightarrow> string \<Rightarrow> bool" where
  "identified env r format name path \<longleftrightarrow>
     (\<exists>v want. parse_version (rel_version r) = Some v \<and> package_identity format name v = Some want \<and>
        runner env (package_query format path) = (want, False))"

lemma download_done:
  "download env fs a want path = (fs', None) \<Longrightarrow> \<exists>data. fs' path = Some data \<and> int (length data) = as_size a \<and>
     as_size a \<le> max_package \<and> sha256_hex env data = want"
  by (auto simp: download_def Let_def split: if_splits sum.splits option.splits)

lemma download_frame:
  "download env fs a want path = (fs', res) \<Longrightarrow> p \<noteq> path \<Longrightarrow> p \<noteq> path @ ''.part'' \<Longrightarrow> fs' p = fs p"
  by (auto simp: download_def Let_def split: if_splits sum.splits option.splits)

lemma download_failed:
  "download env fs a want path = (fs', Some e) \<Longrightarrow> fs' path = fs path"
  by (auto simp: download_def Let_def split: if_splits sum.splits option.splits)

lemma github_digest_Inr: "github_digest a = Inr d \<Longrightarrow> as_digest a = ''sha256:'' @ d"
  by (auto simp: github_digest_def cut_prefix_Some split: option.splits if_splits)

lemma package_asset_Inr:
  assumes "package_asset r name format = Inr a"
  shows "a \<in> set (rel_assets r) \<and> asset_matches name format (as_name a) \<and> safe_name (as_name a)"
proof -
  have "[a] = filter (\<lambda>a. asset_matches name format (as_name a)) (rel_assets r) \<and> safe_name (as_name a)"
    using assms by (auto simp: package_asset_def Let_def split: list.splits if_splits)
  moreover from this have "a \<in> set (filter (\<lambda>a. asset_matches name format (as_name a)) (rel_assets r))"
    by (metis list.set_intros(1))
  ultimately show ?thesis by simp
qed

lemma find_assets_Inr:
  "find_assets r format ns = Inr as \<Longrightarrow> list_all2 (\<lambda>n a. package_asset r n format = Inr a) ns as"
  by (induction ns arbitrary: as) auto

lemma fetch_Cons:
  assumes run: "fetch_packages env s r format v dir ((name, a) # rest) fs = (fs', res)"
  obtains (stop) e where "res = Inl e"
      "\<And>p. p \<noteq> dir @ ''/'' @ as_name a \<Longrightarrow> p \<noteq> (dir @ ''/'' @ as_name a) @ ''.part'' \<Longrightarrow> fs' p = fs p"
    | (go) fs1 w res1 where "map_of s (as_name a) = Some w" "github_digest a = Inr w"
      "download env fs a w (dir @ ''/'' @ as_name a) = (fs1, None)"
      "check_package env format (dir @ ''/'' @ as_name a) name v = None"
      "fetch_packages env s r format v dir rest fs1 = (fs', res1)"
      "res = (case res1 of Inl e \<Rightarrow> Inl e | Inr fls \<Rightarrow> Inr ((dir @ ''/'' @ as_name a) # fls))"
proof (cases "\<exists>w. map_of s (as_name a) = Some w \<and> github_digest a = Inr w")
  case False
  then show ?thesis using run stop by (fastforce split: option.splits sum.splits if_splits)
next
  case True
  then obtain w where w: "map_of s (as_name a) = Some w" "github_digest a = Inr w" by blast
  let ?path = "dir @ ''/'' @ as_name a"
  obtain fs1 err where d: "download env fs a w ?path = (fs1, err)" by fastforce
  note frame = download_frame [OF d]
  show ?thesis
  proof (cases err)
    case (Some e)
    then have "fs' = fs1" "res = Inl e" using run w d by (simp_all add: Let_def)
    then show ?thesis using stop frame by blast
  next
    case None
    show ?thesis
    proof (cases "check_package env format ?path name v")
      case (Some e)
      then have "fs' = fs1(?path := None)" "res = Inl e" using run w d None by (simp_all add: Let_def)
      then show ?thesis using stop frame by simp
    next
      case ok: None
      obtain fs2 res1 where r1: "fetch_packages env s r format v dir rest fs1 = (fs2, res1)" by fastforce
      have out: "fs' = fs2 \<and> res = (case res1 of Inl e \<Rightarrow> Inl e | Inr fls \<Rightarrow> Inr (?path # fls))"
        using run w d None ok r1 by (auto simp: Let_def split: sum.splits)
      then have "fs' = fs2" by simp
      show ?thesis by (rule go [OF w d [unfolded None] ok]) (use r1 out in simp_all)
    qed
  qed
qed

lemma fetch_frame:
  "fetch_packages env s r format v dir jobs fs = (fs', res) \<Longrightarrow>
     (\<And>n a. (n, a) \<in> set jobs \<Longrightarrow> p \<noteq> dir @ ''/'' @ as_name a \<and> p \<noteq> (dir @ ''/'' @ as_name a) @ ''.part'') \<Longrightarrow> fs' p = fs p"
proof (induction jobs arbitrary: fs res)
  case (Cons job rest)
  obtain name a where job: "job = (name, a)" by fastforce
  have p: "p \<noteq> dir @ ''/'' @ as_name a" "p \<noteq> (dir @ ''/'' @ as_name a) @ ''.part''"
    using Cons.prems(2) [of name a] unfolding job by simp_all
  from Cons.prems(1) [unfolded job] show ?case
  proof (cases rule: fetch_Cons)
    case (stop e)
    then show ?thesis using p by blast
  next
    case (go fs1 w res1)
    have "fs' p = fs1 p" using Cons.IH [OF go(5)] Cons.prems(2) by (meson list.set_intros(2))
    then show ?thesis using download_frame [OF go(3) p] by simp
  qed
qed simp

definition apart :: "asset list \<Rightarrow> bool" where
  "apart = sorted_wrt (\<lambda>a b. as_name a \<noteq> as_name b \<and> as_name a \<noteq> as_name b @ ''.part'')"

lemma check_package_None:
  "check_package env format path name v = None \<Longrightarrow>
     \<exists>want. package_identity format name v = Some want \<and> runner env (package_query format path) = (want, False)"
  by (cases "runner env (package_query format path)") (auto simp: check_package_def split: if_splits option.splits)

lemma fetch_done:
  "fetch_packages env s r format v dir jobs fs = (fs', Inr fls) \<Longrightarrow> apart (map snd jobs) \<Longrightarrow>
     list_all2 (\<lambda>(n, a) f. f = dir @ ''/'' @ as_name a \<and> check_package env format f n v = None \<and>
       (\<exists>data. fs' f = Some data \<and> int (length data) = as_size a \<and> as_size a \<le> max_package \<and>
          map_of s (as_name a) = Some (sha256_hex env data) \<and> github_digest a = Inr (sha256_hex env data))) jobs fls"
proof (induction jobs arbitrary: fs fls)
  case (Cons job rest)
  obtain name a where job: "job = (name, a)" by fastforce
  from Cons.prems(1) [unfolded job] show ?case
  proof (cases rule: fetch_Cons)
    case (go fs1 w res1)
    then obtain fls1 where r1: "res1 = Inr fls1" "fls = (dir @ ''/'' @ as_name a) # fls1" by (cases res1) simp_all
    let ?path = "dir @ ''/'' @ as_name a"
    obtain data where data: "fs1 ?path = Some data" "int (length data) = as_size a" "as_size a \<le> max_package"
      "sha256_hex env data = w" using download_done [OF go(3)] by blast
    have "fs' ?path = fs1 ?path"
    proof (rule fetch_frame [OF go(5)])
      fix n b assume "(n, b) \<in> set rest"
      then have "b \<in> set (map snd rest)" by force
      then show "?path \<noteq> dir @ ''/'' @ as_name b \<and> ?path \<noteq> (dir @ ''/'' @ as_name b) @ ''.part''"
        using Cons.prems(2) unfolding job apart_def by auto
    qed
    moreover have "apart (map snd rest)" using Cons.prems(2) by (simp add: apart_def job)
    ultimately show ?thesis using Cons.IH [OF go(5) [unfolded r1(1)]] data go(1,2,4) unfolding r1(2) job by simp
  qed simp
qed simp

lemma asset_matches_end:
  "asset_matches name format n \<Longrightarrow> has_suffix ''.x86_64.rpm'' n \<or> has_suffix ''_amd64.deb'' n"
  by (auto simp: asset_matches_def split: if_splits)

lemma not_part: "asset_matches name format n \<Longrightarrow> n \<noteq> m @ ''.part''"
  using asset_matches_end [of name format n] by (auto simp: has_suffix_append dest!: arg_cong [where f = last])

lemma two_names_differ:
  "asset_matches ''virmill'' format m \<Longrightarrow> asset_matches ''virmill-host-helper'' format n \<Longrightarrow> m \<noteq> n"
  by (auto simp: asset_matches_def has_prefix_append split: if_splits)

lemma prepared_apart:
  assumes "find_assets r format (package_names i) = Inr as"
  shows "apart as"
proof -
  have "list_all2 (\<lambda>n a. asset_matches n format (as_name a)) (package_names i) as"
    using find_assets_Inr [OF assms] by (rule list_all2_mono) (use package_asset_Inr in blast)
  then show ?thesis
    using two_names_differ not_part
    by (auto simp: package_names_def apart_def list_all2_Cons1 split: if_splits)
qed

lemma fetched_authentic:
  assumes v: "parse_version (rel_version r) = Some v"
    and as: "find_assets r (in_format i) (package_names i) = Inr as" and s: "checksums env r = Inr s"
    and f: "fetch_packages env s r (in_format i) v dir (zip (package_names i) as) fs = (fs', Inr fls)"
  shows "list_all2 (\<lambda>name f. \<exists>a data. fs' f = Some data \<and> authentic env r (in_format i) name a data \<and>
      identified env r (in_format i) name f) (package_names i) fls"
proof -
  have fa: "list_all2 (\<lambda>n a. package_asset r n (in_format i) = Inr a) (package_names i) as"
    by (rule find_assets_Inr [OF as])
  then have len: "length (package_names i) = length as" by (rule list_all2_lengthD)
  note fd = fetch_done [OF f]
  have "apart (map snd (zip (package_names i) as))" using prepared_apart [OF as] len by simp
  from fd [OF this] have ld: "length fls = length as" using len by (auto dest: list_all2_lengthD)
  show ?thesis
  proof (rule list_all2_all_nthI)
    show "length (package_names i) = length fls" using len ld by simp
    fix k assume k: "k < length (package_names i)"
    have pa: "package_asset r (package_names i ! k) (in_format i) = Inr (as ! k)"
      using list_all2_nthD [OF fa k] .
    have "k < length (zip (package_names i) as)" using k len by simp
    from list_all2_nthD [OF fd [OF \<open>apart _\<close>] this] obtain data where
      d: "check_package env (in_format i) (fls ! k) (package_names i ! k) v = None" "fs' (fls ! k) = Some data"
      "int (length data) = as_size (as ! k)" "as_size (as ! k) \<le> max_package"
      "map_of s (as_name (as ! k)) = Some (sha256_hex env data)" "github_digest (as ! k) = Inr (sha256_hex env data)"
      using k len by auto
    have "authentic env r (in_format i) (package_names i ! k) (as ! k) data"
      unfolding authentic_def using package_asset_Inr [OF pa] d(3,4,5) github_digest_Inr [OF d(6)] s by blast
    moreover have "identified env r (in_format i) (package_names i ! k) (fls ! k)"
      unfolding identified_def using v check_package_None [OF d(1)] by blast
    ultimately show "\<exists>a data. fs' (fls ! k) = Some data \<and>
        authentic env r (in_format i) (package_names i ! k) a data \<and>
        identified env r (in_format i) (package_names i ! k) (fls ! k)" using d(2) by blast
  qed
qed

text \<open>
  C19. Every file \<open>prepare\<close> hands to the package manager is authentic: it holds exactly the
  bytes whose SHA-256 the release host recorded and \<^verbatim>\<open>SHA256SUMS\<close> repeats, in the size listed
  and at most 512 MiB, belongs to a release file of the wanted package, and names itself as
  that package at that version; nothing outside the download folder changes.
\<close>

theorem prepare_authentic:
  "case prepare env fs r i cache of (fs', res) \<Rightarrow>
     (\<forall>p. has_prefix (cache @ ''/updates/'') p \<or> fs' p = fs p) \<and>
     (case res of
        Inl e \<Rightarrow> True
      | Inr fls \<Rightarrow> list_all2 (\<lambda>name f. \<exists>a data. fs' f = Some data \<and> authentic env r (in_format i) name a data \<and>
          identified env r (in_format i) name f) (package_names i) fls)"
proof (cases "\<exists>v as s. parse_version (rel_version r) = Some v \<and> goarch env = ''amd64'' \<and>
    find_assets r (in_format i) (package_names i) = Inr as \<and> checksums env r = Inr s")
  case False
  then have "fst (prepare env fs r i cache) = fs \<and> (\<exists>e. snd (prepare env fs r i cache) = Inl e)"
    unfolding prepare_def
    by (cases "find_assets r (in_format i) (package_names i)"; cases "checksums env r") (auto split: option.splits)
  then show ?thesis by (auto simp: split_beta)
next
  case True
  then obtain v as s where v: "parse_version (rel_version r) = Some v" and "goarch env = ''amd64''"
    and as: "find_assets r (in_format i) (package_names i) = Inr as" and s: "checksums env r = Inr s" by blast
  define dir where "dir = cache @ ''/updates/'' @ version_string v"
  obtain fs' res where f: "fetch_packages env s r (in_format i) v dir (zip (package_names i) as) fs = (fs', res)"
    by fastforce
  have prep: "prepare env fs r i cache = (if mkdir_error env dir \<noteq> None then (fs, Inl (Os_failed (the (mkdir_error env dir))))
      else if \<not> private_dir env dir then (fs, Inl (Not_private dir)) else (fs', res))"
    using v as s f \<open>goarch env = _\<close> by (auto simp: prepare_def dir_def split: option.splits)
  have "fs' p = fs p" if "\<not> has_prefix (cache @ ''/updates/'') p" for p
    by (rule fetch_frame [OF f]) (use that in \<open>auto simp: dir_def has_prefix_append\<close>)
  then have frame: "\<forall>p. has_prefix (cache @ ''/updates/'') p \<or> fs' p = fs p" by blast
  have "list_all2 (\<lambda>name f. \<exists>a data. fs' f = Some data \<and> authentic env r (in_format i) name a data \<and>
      identified env r (in_format i) name f) (package_names i) fls" if "res = Inr fls" for fls
    using fetched_authentic [OF v as s f [unfolded that]] .
  then show ?thesis unfolding prep using frame by (auto split: sum.splits)
qed

section \<open>A concrete download\<close>

definition demo_pkg where "demo_pkg = ''virmill-1.0.0-0.beta.2.x86_64.rpm''"
definition zeros where "zeros = replicate 64 CHR ''0''"
definition demo_release :: release where
  "demo_release = \<lparr>rel_version = ''1.0.0-beta.2'', rel_tag = ''v1.0.0-beta.2'', rel_prerelease = True, rel_page = [], rel_published = 0,
    rel_assets = [\<lparr>as_name = ''SHA256SUMS'', as_url = ''sums'', as_size = 99, as_digest = ''sha256:'' @ zeros\<rparr>,
      \<lparr>as_name = demo_pkg, as_url = ''pkg'', as_size = 3, as_digest = ''sha256:'' @ zeros\<rparr>]\<rparr>"
definition demo_list :: bytes where
  "demo_list = zeros @ ''  '' @ demo_pkg @ [CHR 10]"

definition demo_update_env :: update_env where
  "demo_update_env = \<lparr>parse_url = (\<lambda>s. Inr \<lparr>u_scheme = ''https'', u_host = ''github.com'', u_text = s\<rparr>),
    request = (\<lambda>u. Inr (Replied \<lparr>rp_status = ''200 OK'', rp_ok = True,
       rp_body = (if u_text u = ''pkg'' then ''abc'' else demo_list), rp_error = None\<rparr>)),
    decode_list = (\<lambda>b e. Inl ''unused''), sha256_hex = (\<lambda>b. zeros),
    runner = (\<lambda>args. (''virmill 1.0.0 0.beta.2 x86_64'', False)), goarch = ''amd64'',
    mkdir_error = (\<lambda>p. None), private_dir = (\<lambda>p. True), open_error = (\<lambda>p. None), copy_error = (\<lambda>p. None),
    rename_error = (\<lambda>p. None)\<rparr>"
lemmas number_eval = show_int_def show_nat.simps digit_char_def is_digit_def plain_dec_def parse_dec_def digit_val_def
 version_number_def version_beta_def
lemma zeros_text: "zeros = ''0000000000000000000000000000000000000000000000000000000000000000''"
  by (simp add: zeros_def numeral_eq_Suc)
lemma demo_version: "parse_version ''1.0.0-beta.2'' = Some (Version 1 0 0 2)"
  by (simp add: parse_version_iff version_ok_def version_string_def version_base_def prerelease_def number_eval)
lemma zeros_hex: "hex64 zeros" by (simp add: hex64_def zeros_text trim_set_def hex_digits_def)
lemma demo_digest: "github_digest \<lparr>as_name = n, as_url = u, as_size = k, as_digest = CHR ''s'' # CHR ''h'' # CHR ''a'' # CHR ''2'' # CHR ''5'' # CHR ''6'' # CHR '':'' # zeros\<rparr> = Inr zeros"
  by (simp add: github_digest_def cut_prefix_def has_prefix_def zeros_hex)
lemma demo_safe: "safe_name demo_pkg" by (simp add: safe_name_def name_shape_def demo_pkg_def alnum_def is_lower_def is_upper_def char_in_def)
lemma demo_sums: "read_sums demo_list = Inr [(demo_pkg, zeros)]"
proof -
  have lines: "scan_lines demo_list = [zeros @ ''  '' @ demo_pkg]"
    by (simp add: scan_lines_def demo_list_def zeros_text demo_pkg_def drop_cr_def)
  have words: "text_fields (zeros @ ''  '' @ demo_pkg) = [zeros, demo_pkg]"
    by (simp add: text_fields_def zeros_text demo_pkg_def text_fields_from.simps space_width_def)
  have "length demo_list \<noteq> max_checksums"
    by (simp add: demo_list_def zeros_def demo_pkg_def max_checksums_def)
  moreover have "trim_prefix ''*'' demo_pkg = demo_pkg" by (simp add: trim_prefix_def has_prefix_def demo_pkg_def)
  ultimately show ?thesis unfolding read_sums_def lines parse_sums.simps words
    by (simp add: zeros_hex demo_safe)
qed

lemma demo_get: "get_url demo_update_env u = Inr \<lparr>rp_status = ''200 OK'', rp_ok = True,
    rp_body = (if u = ''pkg'' then ''abc'' else demo_list), rp_error = None\<rparr>"
  by (simp add: get_url_def demo_update_env_def allowed_url_def follow.simps)

definition demo_asset :: asset where
  "demo_asset = \<lparr>as_name = demo_pkg, as_url = ''pkg'', as_size = 3, as_digest = ''sha256:'' @ zeros\<rparr>"

lemma demo_assets: "package_asset demo_release ''virmill'' ''rpm'' = Inr demo_asset"
  using demo_safe
  by (simp add: package_asset_def demo_release_def asset_matches_def has_prefix_def has_suffix_def demo_pkg_def demo_asset_def)

lemma demo_checksums: "checksums demo_update_env demo_release = Inr [(demo_pkg, zeros)]"
proof -
  have "length demo_list \<le> max_checksums"
    by (simp add: demo_list_def zeros_def demo_pkg_def max_checksums_def)
  moreover have "demo_pkg \<noteq> ''SHA256SUMS''" by (simp add: demo_pkg_def)
  moreover have "sha256_hex demo_update_env b = zeros" for b by (simp add: demo_update_env_def)
  ultimately show ?thesis
    by (simp add: checksums_def demo_release_def demo_digest demo_get demo_sums Let_def)
qed

lemma demo_prepare:
  "prepare demo_update_env Map.empty demo_release \<lparr>in_format = ''rpm'', in_helper = False\<rparr> ''/c'' =
     ([''/c/updates/1.0.0-beta.2/'' @ demo_pkg \<mapsto> ''abc''], Inr [''/c/updates/1.0.0-beta.2/'' @ demo_pkg])"
proof -
  have dir: "version_string (Version 1 0 0 2) = ''1.0.0-beta.2''"
    by (simp add: version_string_def version_base_def prerelease_def number_eval)
  have id: "package_identity ''rpm'' ''virmill'' (Version 1 0 0 2) = Some ''virmill 1.0.0 0.beta.2 x86_64''"
    by (simp add: package_identity_def rpm_version_def version_base_def prerelease_def number_eval)
  have checked: "check_package demo_update_env ''rpm'' f ''virmill'' (Version 1 0 0 2) = None" for f
    unfolding check_package_def id by (simp add: demo_update_env_def)
  have dl: "download demo_update_env Map.empty demo_asset zeros f = ([f \<mapsto> ''abc''], None)" for f
    unfolding download_def demo_get
    by (simp add: demo_asset_def demo_update_env_def max_package_def Let_def)
  have gd: "github_digest demo_asset = Inr zeros" by (simp add: demo_asset_def demo_digest)
  have rel: "rel_version demo_release = ''1.0.0-beta.2''" by (simp add: demo_release_def)
  have env: "goarch demo_update_env = ''amd64''" "mkdir_error demo_update_env d = None" "private_dir demo_update_env d" for d
    by (simp_all add: demo_update_env_def)
  show ?thesis
    unfolding prepare_def rel
    by (simp add: demo_version demo_assets demo_checksums env package_names_def dl gd checked dir Let_def)
      (simp add: demo_asset_def gd [unfolded demo_asset_def] dl [unfolded demo_asset_def] checked)
qed

theorem prepare_authentic_witness:
  "\<exists>a. authentic demo_update_env demo_release ''rpm'' ''virmill'' a ''abc''"
  using prepare_authentic [where env = demo_update_env and fs = Map.empty and r = demo_release and
    i = "\<lparr>in_format = ''rpm'', in_helper = False\<rparr>" and cache = "''/c''", unfolded demo_prepare] by (auto simp: package_names_def)

end
