(* ===== verification/Netip6.thy ===== *)
theory Netip6
  imports Text "HOL-Library.List_Lexorder" "HOL-Library.Char_ord"
begin

text \<open>
  IP addresses of both families as \<^verbatim>\<open>net/netip\<close> handles them: parsing of addresses (embedded
  IPv4, ellipsis, zones) and prefixes, masking, containment, overlap and the text of an
  address. IPv4 is \<open>Netip\<close>; the lemmas say that the general parser agrees with it.
\<close>

datatype addr = Addr4 addr4 | Addr6 "128 word" string

section \<open>Parsing\<close>

definition is_hex :: "char \<Rightarrow> bool" where
  "is_hex c \<longleftrightarrow> char_in c 48 57 \<or> char_in c 97 102 \<or> char_in c 65 70"

definition hex_val :: "char \<Rightarrow> nat" where
  "hex_val c = (let n = of_char c in if n \<le> 57 then n - 48 else if n \<le> 70 then n - 55 else n - 87)"

definition parse_hex :: "string \<Rightarrow> nat" where
  "parse_hex s = foldl (\<lambda>n c. n * 16 + hex_val c) 0 s"

text \<open>
  The loop of \<^verbatim>\<open>parseIPv6\<close>: \<open>gs\<close> are the 16-bit groups read so far, \<open>el\<close> the place of the
  ellipsis among them.
\<close>

function groups6 :: "string \<Rightarrow> nat list \<Rightarrow> nat option \<Rightarrow> (nat list \<times> nat option) option" where
  "groups6 s gs el =
     (if length gs \<ge> 8 then (if s = [] then Some (gs, el) else None)
      else let h = takeWhile is_hex s; r = dropWhile is_hex s; gs' = gs @ [parse_hex h] in
        if length h > 4 \<or> h = [] then None
        else if r = [] then Some (gs', el)
        else if hd r = CHR ''.'' then
          (if el = None \<and> length gs \<noteq> 6 then None
           else if length gs + 2 > 8 then None
           else case parse_addr4 s of
             None \<Rightarrow> None
           | Some a \<Rightarrow> Some (gs @ [unat a div 65536, unat a mod 65536], el))
        else if hd r \<noteq> CHR '':'' \<or> tl r = [] then None
        else if hd (tl r) = CHR '':'' then
          (if el \<noteq> None then None
           else if tl (tl r) = [] then Some (gs', Some (length gs'))
           else groups6 (tl (tl r)) gs' (Some (length gs')))
        else groups6 (tl r) gs' el)"
  by pat_completeness auto
termination by (relation "measure (\<lambda>(s, gs, el). 8 - length gs)") auto

declare groups6.simps [simp del]

definition expand_groups :: "nat list \<Rightarrow> nat option \<Rightarrow> nat list option" where
  "expand_groups gs el =
     (if length gs < 8
      then map_option (\<lambda>e. take e gs @ replicate (8 - length gs) 0 @ drop e gs) el
      else if el \<noteq> None then None else Some gs)"

definition addr6_of :: "nat list \<Rightarrow> 128 word" where
  "addr6_of gs = word_of_nat (foldl (\<lambda>n g. n * 65536 + g) 0 gs)"

definition parse_addr6 :: "string \<Rightarrow> addr option" where
  "parse_addr6 whole =
     (let s = takeWhile (\<lambda>c. c \<noteq> CHR ''%'') whole; z = dropWhile (\<lambda>c. c \<noteq> CHR ''%'') whole; zone = tl z;
          el = (if has_prefix ''::'' s then Some 0 else None); t = (if el = None then s else drop 2 s) in
      if z \<noteq> [] \<and> zone = [] then None
      else if el \<noteq> None \<and> t = [] then Some (Addr6 0 zone)
      else case groups6 t [] el of
        None \<Rightarrow> None
      | Some (gs, e) \<Rightarrow> map_option (\<lambda>full. Addr6 (addr6_of full) zone) (expand_groups gs e))"

definition parse_addr :: "string \<Rightarrow> addr option" where
  "parse_addr s = (case dropWhile (\<lambda>c. c \<notin> set ''.:%'') s of
      [] \<Rightarrow> None
    | c # _ \<Rightarrow> if c = CHR ''.'' then map_option Addr4 (parse_addr4 s)
               else if c = CHR '':'' then parse_addr6 s else None)"

definition after_last :: "char \<Rightarrow> string \<Rightarrow> string" where
  "after_last c s = rev (takeWhile (\<lambda>x. x \<noteq> c) (rev s))"

definition parse_prefix :: "string \<Rightarrow> net_prefix option" where
  "parse_prefix s =
     (if CHR ''/'' \<notin> set s then None
      else let bits = after_last CHR ''/'' s;
               a = take (length s - Suc (length bits)) s in
        case parse_addr a of
          None \<Rightarrow> None
        | Some (Addr4 w) \<Rightarrow>
            if plain_dec bits \<and> parse_dec bits \<le> 32 then Some (Prefix4 \<lparr>p_addr = w, p_bits = parse_dec bits\<rparr>) else None
        | Some (Addr6 w zone) \<Rightarrow>
            if zone = [] \<and> plain_dec bits \<and> parse_dec bits \<le> 128 then Some (Prefix6 w (parse_dec bits)) else None)"

section \<open>Masking, containment and overlap\<close>

definition mask6 :: "128 word \<Rightarrow> nat \<Rightarrow> 128 word" where
  "mask6 a b = a AND NOT (mask (128 - b))"

fun prefix_valid :: "net_prefix \<Rightarrow> bool" where
  "prefix_valid Invalid_prefix = False"
| "prefix_valid (Prefix4 p) = valid4 p"
| "prefix_valid (Prefix6 a b) = (b \<le> 128)"

fun prefix_bits :: "net_prefix \<Rightarrow> int" where
  "prefix_bits Invalid_prefix = -1"
| "prefix_bits (Prefix4 p) = int (p_bits p)"
| "prefix_bits (Prefix6 a b) = int b"

fun prefix_is4 :: "net_prefix \<Rightarrow> bool" where
  "prefix_is4 (Prefix4 p) = True"
| "prefix_is4 _ = False"

fun prefix_masked :: "net_prefix \<Rightarrow> net_prefix" where
  "prefix_masked Invalid_prefix = Invalid_prefix"
| "prefix_masked (Prefix4 p) = Prefix4 (masked p)"
| "prefix_masked (Prefix6 a b) = Prefix6 (mask6 a b) b"

fun prefix_contains :: "net_prefix \<Rightarrow> addr \<Rightarrow> bool" where
  "prefix_contains (Prefix4 p) (Addr4 a) = (valid4 p \<and> contains4 p a)"
| "prefix_contains (Prefix6 p b) (Addr6 a zone) = (b \<le> 128 \<and> zone = [] \<and> mask6 p b = mask6 a b)"
| "prefix_contains _ _ = False"

fun prefix_overlaps :: "net_prefix \<Rightarrow> net_prefix \<Rightarrow> bool" where
  "prefix_overlaps (Prefix4 p) (Prefix4 q) = (valid4 p \<and> valid4 q \<and> overlaps4 p q)"
| "prefix_overlaps (Prefix6 a m) (Prefix6 b n) =
     (m \<le> 128 \<and> n \<le> 128 \<and> mask6 a (min m n) = mask6 b (min m n))"
| "prefix_overlaps _ _ = False"

fun is_private :: "net_prefix \<Rightarrow> bool" where
  "is_private (Prefix4 p) = (let a = octets (p_addr p) in
     a ! 0 = 10 \<or> a ! 0 = 172 \<and> 16 \<le> a ! 1 \<and> a ! 1 \<le> 31 \<or> a ! 0 = 192 \<and> a ! 1 = 168)"
| "is_private (Prefix6 a b) = (drop_bit 121 a = 0x7E)"
| "is_private Invalid_prefix = False"

section \<open>The text of an address\<close>

definition hex_char :: "nat \<Rightarrow> char" where
  "hex_char n = ''0123456789abcdef'' ! n"

definition show_group :: "nat \<Rightarrow> string" where
  "show_group g =
     (if g \<ge> 4096 then [hex_char (g div 4096)] else []) @ (if g \<ge> 256 then [hex_char (g div 256 mod 16)] else []) @
     (if g \<ge> 16 then [hex_char (g div 16 mod 16)] else []) @ [hex_char (g mod 16)]"

definition groups_of :: "128 word \<Rightarrow> nat list" where
  "groups_of a = map (\<lambda>i. unat a div 2 ^ (16 * (7 - i)) mod 65536) [0..<8]"

definition zero_run :: "nat list \<Rightarrow> nat \<Rightarrow> nat" where
  "zero_run gs i = length (takeWhile (\<lambda>g. g = 0) (drop i gs))"

text \<open>The first longest run of at least two zero groups, as start and end; \<open>(255, 255)\<close> when there is none.\<close>

definition longest_zeros :: "nat list \<Rightarrow> nat \<times> nat" where
  "longest_zeros gs = foldl (\<lambda>(s, e) i. let l = zero_run gs i in
     if l \<ge> 2 \<and> l > e - s then (i, i + l) else (s, e)) (255, 255) [0..<8]"

fun show_groups :: "nat \<Rightarrow> string list \<Rightarrow> string" where
  "show_groups i [] = []"
| "show_groups i (g # gs) = (if i > 0 then '':'' else []) @ g @ show_groups (Suc i) gs"

definition show_addr6 :: "128 word \<Rightarrow> string" where
  "show_addr6 a =
     (let gs = groups_of a; (s, e) = longest_zeros gs; texts = map show_group gs in
      if is_4in6 a then ''::ffff:'' @ show_addr4 (ucast a)
      else if s = 255 then show_groups 0 texts
      else show_groups 0 (take s texts) @ ''::'' @ show_groups 0 (drop e texts))"

fun show_prefix :: "net_prefix \<Rightarrow> string" where
  "show_prefix Invalid_prefix = ''invalid Prefix''"
| "show_prefix (Prefix4 p) = (if valid4 p then show_prefix4 p else ''invalid Prefix'')"
| "show_prefix (Prefix6 a b) = (if b \<le> 128 then show_addr6 a @ ''/'' @ show_nat b else ''invalid Prefix'')"

lemma replicate_numeral: "replicate (numeral k) x = x # replicate (pred_numeral k) x"
  by (simp add: numeral_eq_Suc)

lemma parse_addr_examples:
  "parse_addr ''::'' = Some (Addr6 0 [])"
  "parse_addr ''fe80::1%eth0'' = Some (Addr6 0xFE800000000000000000000000000001 ''eth0'')"
  "parse_addr ''::ffff:10.0.0.1'' = Some (Addr6 0xFFFF0A000001 [])"
  "parse_addr ''1:2:3:4:5:6:7:8::'' = None"
  "parse_prefix ''2001:db8::/32'' = Some (Prefix6 0x20010DB8000000000000000000000000 32)"
  by (simp_all add: parse_addr_def parse_addr6_def parse_prefix_def groups6.simps has_prefix_def is_hex_def char_in_def hex_val_def
    parse_hex_def expand_groups_def addr6_of_def parse_addr4_def plain_dec_def is_digit_def parse_dec_def digit_val_def addr4_of_def Let_def
    replicate_numeral after_last_def)

section \<open>Containment and overlap agree\<close>

lemma mask6_mask6: "m \<le> n \<Longrightarrow> mask6 (mask6 a n) m = mask6 a m"
  by (rule bit_eqI) (auto simp: mask6_def bit_simps)

lemma mask_addr_twice: "m \<le> n \<Longrightarrow> mask_addr (mask_addr a n) m = mask_addr a m"
  by (rule bit_eqI) (auto simp: mask_addr_def bit_simps)

lemma mask_common:
  fixes m n :: nat
  assumes "\<And>m n a. m \<le> n \<Longrightarrow> f (f a n) m = f a m"
  shows "f p (min m n) = f q (min m n) \<longleftrightarrow> (\<exists>a. f p m = f a m \<and> f q n = f a n)" (is "?l \<longleftrightarrow> ?r")
proof
  assume ?l
  then show ?r by (cases "m \<le> n") (auto intro: exI [of _ q] exI [of _ p])
next
  assume ?r
  then obtain a where a: "f p m = f a m" "f q n = f a n" by blast
  have "f p (min m n) = f a (min m n)" using assms [of "min m n" m] a(1) by (metis min.cobounded1)
  moreover have "f q (min m n) = f a (min m n)" using assms [of "min m n" n] a(2) by (metis min.cobounded2)
  ultimately show ?l by simp
qed

lemma contains4_mask: "contains4 p a \<longleftrightarrow> mask_addr (p_addr p) (p_bits p) = mask_addr a (p_bits p)"
  using in_block [of "2 ^ (32 - p_bits p)" "unat (p_addr p) div 2 ^ (32 - p_bits p)" "unat a"]
  unfolding contains4_iff mask_addr_eq_iff block_def block_start_def block_size_def by auto

lemma mask_addr_0: "mask_addr a 0 = mask_addr b 0"
  unfolding mask_addr_eq_iff
  using unsigned_less [of a, where ?'a = nat] unsigned_less [of b, where ?'a = nat] by simp

lemma overlaps4_common: "overlaps4 p q \<longleftrightarrow> (\<exists>a. contains4 p a \<and> contains4 q a)"
proof -
  have "overlaps4 p q \<longleftrightarrow> mask_addr (p_addr p) (min (p_bits p) (p_bits q)) = mask_addr (p_addr q) (min (p_bits p) (p_bits q))"
    by (cases "min (p_bits p) (p_bits q) = 0") (auto simp: overlaps4_def Let_def mask_addr_0 [of "p_addr p" "p_addr q"])
  then show ?thesis
    unfolding contains4_mask using mask_common [of mask_addr, OF mask_addr_twice] by simp
qed

lemma ex_addr: "(\<exists>a. P a) \<longleftrightarrow> (\<exists>w. P (Addr4 w)) \<or> (\<exists>w z. P (Addr6 w z))"
  by (metis addr.exhaust)

lemma overlaps6_common:
  "mask6 a (min m n) = mask6 b (min m n) \<longleftrightarrow> (\<exists>c. mask6 a m = mask6 c m \<and> mask6 b n = mask6 c n)"
  by (rule mask_common [of mask6, OF mask6_mask6])

lemma prefix_overlaps_iff: "prefix_overlaps p q \<longleftrightarrow> (\<exists>a. prefix_contains p a \<and> prefix_contains q a)"
  by (cases p; cases q) (auto simp: ex_addr overlaps4_common overlaps6_common)

lemma prefix_overlaps_sym: "prefix_overlaps p q \<longleftrightarrow> prefix_overlaps q p"
  unfolding prefix_overlaps_iff by blast

section \<open>The IPv4 part of the general parser\<close>

lemma after_last_app: "c \<notin> set b \<Longrightarrow> after_last c (a @ c # b) = b"
  by (auto simp: after_last_def takeWhile_append)

lemma split_last:
  assumes "c \<in> set s"
  shows "s = take (length s - Suc (length (after_last c s))) s @ c # after_last c s \<and> c \<notin> set (after_last c s)"
proof -
  obtain a b where s: "s = a @ c # b" "c \<notin> set b" using split_list_last [OF assms] by blast
  have "after_last c s = b" unfolding s(1) by (rule after_last_app [OF s(2)])
  then show ?thesis using s by simp
qed

lemma drop_until: "\<forall>y \<in> set a. P y \<Longrightarrow> \<not> P x \<Longrightarrow> dropWhile P (a @ x # r) = x # r"
  by (induction a) simp_all

lemma parse_addr_dotted: "parse_addr4 s = Some w \<Longrightarrow> parse_addr s = Some (Addr4 w)"
proof -
  assume p: "parse_addr4 s = Some w"
  obtain a b c d where o: "octets w = [a, b, c, d]" using octets_four by blast
  then obtain r where s: "s = show_nat a @ CHR ''.'' # r"
    using show_parse_addr4 [OF p] by (auto simp: show_addr4_def)
  have "\<forall>y \<in> set (show_nat a). y \<notin> set ''.:%''"
  proof
    fix y assume "y \<in> set (show_nat a)"
    then have "is_digit y" using show_nat_digits [of a] unfolding list_all_iff by blast
    then show "y \<notin> set ''.:%''" by (auto simp: is_digit_def)
  qed
  then have "dropWhile (\<lambda>c. c \<notin> set ''.:%'') s = CHR ''.'' # r" unfolding s by (rule drop_until) simp
  then show ?thesis using p by (simp add: parse_addr_def)
qed

lemma parse_addr6_Addr4: "parse_addr6 s \<noteq> Some (Addr4 w)"
  unfolding parse_addr6_def Let_def by (simp split: option.splits)

lemma parse_addr_Addr4: "parse_addr s = Some (Addr4 w) \<longleftrightarrow> parse_addr4 s = Some w"
proof
  assume "parse_addr s = Some (Addr4 w)"
  then show "parse_addr4 s = Some w"
    using parse_addr6_Addr4 unfolding parse_addr_def by (auto split: list.splits if_splits)
qed (rule parse_addr_dotted)

lemma parse_prefix_Prefix4: "parse_prefix s = Some (Prefix4 p) \<longleftrightarrow> parse_prefix4 s = Some p" (is "?l \<longleftrightarrow> ?r")
proof
  assume ?l
  then have mem: "CHR ''/'' \<in> set s" by (simp add: parse_prefix_def split: if_splits)
  let ?b = "after_last CHR ''/'' s" and ?a = "take (length s - Suc (length (after_last CHR ''/'' s))) s"
  have pr: "parse_prefix s = (case parse_addr ?a of None \<Rightarrow> None
      | Some (Addr4 w) \<Rightarrow> if plain_dec ?b \<and> parse_dec ?b \<le> 32 then Some (Prefix4 \<lparr>p_addr = w, p_bits = parse_dec ?b\<rparr>) else None
      | Some (Addr6 w zone) \<Rightarrow> if zone = [] \<and> plain_dec ?b \<and> parse_dec ?b \<le> 128 then Some (Prefix6 w (parse_dec ?b)) else None)"
    using mem by (simp add: parse_prefix_def Let_def)
  obtain w where w: "parse_addr ?a = Some (Addr4 w)" "plain_dec ?b" "parse_dec ?b \<le> 32" "p = \<lparr>p_addr = w, p_bits = parse_dec ?b\<rparr>"
    using \<open>?l\<close> unfolding pr by (auto split: option.splits addr.splits if_splits)
  have w4: "parse_addr4 ?a = Some w" using w(1) parse_addr_Addr4 by blast
  have "CHR ''/'' \<notin> set ?a" using show_parse_addr4 [OF w4] show_addr4_no_slash by metis
  moreover have s: "s = ?a @ CHR ''/'' # ?b" "CHR ''/'' \<notin> set ?b" using split_last [OF mem] by blast+
  ultimately have "split_on CHR ''/'' s = [?a, ?b]" by (metis split_on_none split_on_sep)
  then show ?r using w w4 by (simp add: parse_prefix4_def)
next
  assume ?r
  then have s: "s = show_addr4 (p_addr p) @ CHR ''/'' # show_nat (p_bits p)" and v: "p_bits p \<le> 32"
    using show_parse_prefix4 by (fastforce simp: show_prefix4_def valid4_def)+
  have al: "after_last CHR ''/'' s = show_nat (p_bits p)" unfolding s by (rule after_last_app) simp
  have "parse_addr (show_addr4 (p_addr p)) = Some (Addr4 (p_addr p))"
    using parse_addr_dotted parse_show_addr4 by blast
  moreover have "take (length s - Suc (length (show_nat (p_bits p)))) s = show_addr4 (p_addr p)" unfolding s by simp
  ultimately show ?l
    using v plain_show_nat s al by (simp add: parse_prefix_def Let_def)
qed

end
