(* ===== verification/Intent.thy ===== *)
theory Intent
  imports Netip6 Prelude
begin

text \<open>
  Network intent (\<^verbatim>\<open>internal/app/network/intent.go\<close>): validation of a network declaration and
  of the interfaces of a machine against its networks, and the older allocator over explicit
  candidates; and the prefixes a libvirt network document declares
  (\<^verbatim>\<open>internal/app/network/prefixes.go\<close>) over its stream of XML tokens. The lemmas give the
  declarative meaning of an accepted set of interfaces and of an accepted document.
\<close>

section \<open>Declarations\<close>

datatype spec_error = Reason string | Prefix_error string | Json_error string | Xml_error string

record ipv4_spec =
  i4_cidr :: string
  i4_dhcp :: bool
  i4_advertise :: bool

record net_spec =
  ns_type :: string
  ns_bridge :: string
  ns_ipv4 :: "ipv4_spec option"
  ns_ipv6 :: string
  ns_access :: string
  ns_egress :: string

record nic =
  nic_id :: string
  nic_network :: string
  nic_default :: bool
  nic_metric :: int
  nic_mode :: string
  nic_address :: string
  nic_gateway :: string
  nic_dns :: "string list"

text \<open>The text of an error; of a prefix that does not parse, the text that was read.\<close>

fun spec_text :: "spec_error \<Rightarrow> string" where
  "spec_text (Reason s) = s"
| "spec_text (Prefix_error s) = s"
| "spec_text (Json_error s) = s"
| "spec_text (Xml_error s) = s"

abbreviation reason :: "string \<Rightarrow> spec_error + 'a" where
  "reason s \<equiv> Inl (Reason s)"

definition usable_subnet :: "string \<Rightarrow> bool" where
  "usable_subnet s = (case parse_prefix s of
      Some (Prefix4 p) \<Rightarrow> p = masked p \<and> p_bits p \<le> 30
    | _ \<Rightarrow> False)"

definition validate_ipv4 :: "string \<Rightarrow> ipv4_spec \<Rightarrow> spec_error + unit" where
  "validate_ipv4 t i =
     (if t \<in> {''guest-only'', ''bridge''} \<and> i4_dhcp i then reason ''guest-only/external bridge cannot own host DHCP''
      else if t \<in> {''lab'', ''guest-only''} \<and> i4_advertise i then reason ''lab DHCP must not advertise a default route''
      else if i4_cidr i \<noteq> ''auto'' \<and> \<not> usable_subnet (i4_cidr i) then reason ''expected canonical usable IPv4 subnet''
      else Inr ())"

definition validate_spec :: "net_spec \<Rightarrow> spec_error + unit" where
  "validate_spec s =
     (if ns_type s \<notin> {''nat'', ''lab'', ''bridge'', ''guest-only''} then reason ''unknown network type''
      else if ns_type s = ''bridge'' \<and> (ns_bridge s = [] \<or> ns_access s \<noteq> ''allow'' \<or> ns_egress s \<noteq> ''any'')
        then reason ''external bridge intent cannot enforce host isolation''
      else if ns_type s = ''guest-only'' \<and> (ns_access s \<noteq> ''deny'' \<or> ns_egress s \<noteq> ''none'')
        then reason ''guest-only must deny host access and egress''
      else if ns_type s = ''lab'' \<and> ns_egress s \<noteq> ''none'' then reason ''lab egress must be none''
      else case ns_ipv4 s of None \<Rightarrow> Inr () | Some i \<Rightarrow> validate_ipv4 (ns_type s) i)"

section \<open>The interfaces of a machine\<close>

definition check_static :: "nic \<Rightarrow> spec_error + unit" where
  "check_static n =
     (if nic_mode n \<noteq> ''static'' then Inr ()
      else case parse_prefix (nic_address n) of
        Some (Prefix4 p) \<Rightarrow>
          (if p_addr p = p_addr (masked p) then reason ''network address is not a host address''
           else if nic_gateway n \<noteq> [] \<and> (case parse_addr (nic_gateway n) of
               None \<Rightarrow> True | Some g \<Rightarrow> \<not> prefix_contains (Prefix4 p) g)
           then reason ''gateway outside NIC subnet'' else Inr ())
      | _ \<Rightarrow> reason ''invalid static address'')"

record nic_state =
  st_seen :: "string list"
  st_defaults :: nat
  st_attached :: "net_prefix list"
  st_protected :: bool
  st_external :: bool

definition attach_subnet :: "nic \<Rightarrow> net_spec \<Rightarrow> nic_state \<Rightarrow> spec_error + nic_state" where
  "attach_subnet n s st = (case ns_ipv4 s of
      None \<Rightarrow> Inr st
    | Some i \<Rightarrow>
        if i4_cidr i = ''auto'' then Inr st
        else (case parse_prefix (i4_cidr i) of
            None \<Rightarrow> Inl (Prefix_error (i4_cidr i))
          | Some p \<Rightarrow>
              if list_ex (prefix_overlaps p) (st_attached st) then reason ''overlapping attached subnets''
              else if nic_mode n = ''static'' \<and> (case parse_prefix (nic_address n) of
                   Some (Prefix4 a) \<Rightarrow> \<not> prefix_contains p (Addr4 (p_addr a))
                 | Some (Prefix6 a b) \<Rightarrow> \<not> prefix_contains p (Addr6 a [])
                 | _ \<Rightarrow> True)
              then reason ''static NIC address outside selected network''
              else Inr (st\<lparr>st_attached := st_attached st @ [p]\<rparr>)))"

definition attach_network :: "(string \<rightharpoonup> net_spec) \<Rightarrow> nic \<Rightarrow> nic_state \<Rightarrow> spec_error + nic_state" where
  "attach_network nets n st = (case nets (nic_network n) of
      None \<Rightarrow> reason (''unknown network '' @ nic_network n)
    | Some s \<Rightarrow>
        if ns_type s \<in> {''lab'', ''guest-only''} \<and> nic_default n
        then reason ''protected network cannot supply normal default route''
        else attach_subnet n s (st\<lparr>st_protected := st_protected st \<or> ns_type s \<in> {''lab'', ''guest-only''},
               st_external := st_external st \<or> ns_type s \<in> {''nat'', ''bridge''}\<rparr>))"

definition nic_step :: "(string \<rightharpoonup> net_spec) option \<Rightarrow> nic \<Rightarrow> nic_state \<Rightarrow> spec_error + nic_state" where
  "nic_step nets n st =
     (if nic_id n \<in> set (st_seen st) \<or> nic_id n = [] then reason ''duplicate/missing NIC ID''
      else let st1 = st\<lparr>st_seen := nic_id n # st_seen st,
               st_defaults := st_defaults st + (if nic_default n then 1 else 0)\<rparr> in
        if nic_gateway n \<noteq> [] \<and> \<not> nic_default n then reason ''non-default NIC cannot declare default gateway''
        else if nic_default n \<and> nic_mode n = ''none'' then reason ''default route requires addressing''
        else bindr (check_static n) (\<lambda>_.
          if \<not> list_all (\<lambda>d. parse_addr d \<noteq> None) (nic_dns n) then reason ''invalid DNS address''
          else case nets of None \<Rightarrow> Inr st1 | Some m \<Rightarrow> attach_network m n st1))"

definition nic_start :: nic_state where
  "nic_start = \<lparr>st_seen = [], st_defaults = 0, st_attached = [], st_protected = False, st_external = False\<rparr>"

definition dual_homed :: string where
  "dual_homed = ''DUAL_HOMED_GUEST: guest forwarding can bypass the protected segment boundary''"

definition unverified_routing :: string where
  "unverified_routing = ''guest-routing-unverified: intent validation is not observed guest routing''"

definition validate_nics :: "nic list \<Rightarrow> (string \<rightharpoonup> net_spec) option \<Rightarrow> spec_error + string list" where
  "validate_nics nics nets =
     bindr (foldr_res (nic_step nets) nics nic_start) (\<lambda>st.
       if st_defaults st > 1 then reason ''multiple normal IPv4 default routes''
       else Inr ((if st_protected st \<and> st_external st then [dual_homed] else []) @ [unverified_routing]))"

section \<open>Allocation from candidates\<close>

definition candidate_free :: "net_prefix list \<Rightarrow> net_prefix list \<Rightarrow> net_prefix \<Rightarrow> bool" where
  "candidate_free host occupied c \<longleftrightarrow>
     \<not> list_ex (\<lambda>r. prefix_bits r > 0 \<and> prefix_overlaps c r) host \<and> \<not> list_ex (prefix_overlaps c) occupied"

fun allocate_from :: "net_prefix list \<Rightarrow> net_prefix list \<Rightarrow> net_prefix list \<Rightarrow> net_prefix option" where
  "allocate_from host occupied [] = None"
| "allocate_from host occupied (c # cs) =
     (if \<not> prefix_valid c \<or> \<not> is_private c \<or> \<not> prefix_is4 c \<or> c \<noteq> prefix_masked c
      then allocate_from host occupied cs
      else if candidate_free host occupied c then Some c
      else allocate_from host occupied cs)"

definition allocate_candidates :: "net_prefix list \<Rightarrow> net_prefix list \<Rightarrow> net_prefix list \<Rightarrow> spec_error + net_prefix" where
  "allocate_candidates cands host occupied =
     (case allocate_from host occupied (sort_key show_prefix cands) of
        Some c \<Rightarrow> Inr c
      | None \<Rightarrow> reason ''no non-overlapping private subnet available'')"

section \<open>The prefixes a libvirt network declares\<close>

type_synonym xml_name = "string \<times> string"

datatype xml_token =
    Directive
  | Start_element xml_name "(xml_name \<times> string) list"
  | End_element xml_name
  | Char_data string
  | Comment string
  | Proc_inst string string

definition local_name :: "string \<Rightarrow> xml_name" where
  "local_name k = ([], k)"

definition mask_width :: "addr4 \<Rightarrow> nat option" where
  "mask_width m = List.find (\<lambda>n. m = push_bit (32 - n) (- 1)) [0..<33]"

definition good_addr :: "addr \<Rightarrow> bool" where
  "good_addr a = (case a of Addr4 w \<Rightarrow> True | Addr6 w zone \<Rightarrow> zone = [] \<and> \<not> is_4in6 w)"

fun addr_is4 :: "addr \<Rightarrow> bool" where
  "addr_is4 (Addr4 w) = True"
| "addr_is4 (Addr6 w z) = False"

definition prefix_from :: "addr \<Rightarrow> nat \<Rightarrow> net_prefix" where
  "prefix_from a b = (case a of Addr4 w \<Rightarrow> Prefix4 \<lparr>p_addr = w, p_bits = b\<rparr> | Addr6 w z \<Rightarrow> Prefix6 w b)"

text \<open>The bits an \<^verbatim>\<open>ip\<close> or \<^verbatim>\<open>route\<close> element declares: \<open>prefix\<close>, else \<open>netmask\<close>, else \<open>/0\<close> of a route.\<close>

definition declared_bits :: "bool \<Rightarrow> addr \<Rightarrow> string \<Rightarrow> string \<Rightarrow> spec_error + nat" where
  "declared_bits is_route a pre netmask =
     (let len = (if addr_is4 a then 32 else 128) in
      if pre \<noteq> [] \<and> \<not> (plain_dec pre \<and> parse_dec pre \<le> len) then reason ''invalid network IP prefix''
      else if netmask \<noteq> [] then
        (if pre \<noteq> [] \<or> \<not> addr_is4 a then reason ''ambiguous network IP mask''
         else case parse_addr netmask of
           Some (Addr4 m) \<Rightarrow> (case mask_width m of Some n \<Rightarrow> Inr n
             | None \<Rightarrow> reason ''noncontiguous network IPv4 netmask'')
         | _ \<Rightarrow> reason ''invalid network IPv4 netmask'')
      else if pre \<noteq> [] then Inr (parse_dec pre)
      else if is_route then Inr 0
      else reason ''network IP has no explicit prefix or mask; cannot safely infer overlap'')"

definition attr_value :: "(xml_name \<times> string) list \<Rightarrow> string \<Rightarrow> string" where
  "attr_value attrs k = (case map_of attrs (local_name k) of Some v \<Rightarrow> v | None \<Rightarrow> [])"

definition element_prefix :: "xml_name \<Rightarrow> (xml_name \<times> string) list \<Rightarrow> spec_error + net_prefix" where
  "element_prefix name attrs =
     (let get = attr_value attrs;
          family = (if get ''family'' = [] then ''ipv4'' else get ''family'');
          is_route = (snd name = ''route'');
          address = (if is_route \<and> get ''address'' = [] then (if family = ''ipv6'' then ''::'' else ''0.0.0.0'') else get ''address'') in
      if fst name \<noteq> [] then reason ''namespaced network IP declaration''
      else if list_ex (\<lambda>((space, l), v). space \<noteq> [] \<and> l \<in> {''address'', ''netmask'', ''prefix'', ''family'', ''gateway''}) attrs
        then reason ''ambiguous network IP attribute namespace''
      else if list_ex (\<lambda>k. map_of attrs (local_name k) = Some []) [''address'', ''family'', ''prefix'', ''netmask'', ''gateway'']
        then reason ''empty network IP attribute''
      else case parse_addr address of
        None \<Rightarrow> reason ''invalid network IP address''
      | Some a \<Rightarrow>
          if \<not> good_addr a then reason ''invalid network IP address''
          else if is_route \<and> (case parse_addr (get ''gateway'') of
              None \<Rightarrow> True | Some g \<Rightarrow> \<not> good_addr g \<or> addr_is4 g \<noteq> addr_is4 a)
            then reason ''invalid or missing network route gateway''
          else if family \<notin> {''ipv4'', ''ipv6''} \<or> (family = ''ipv4'') \<noteq> addr_is4 a
            then reason ''network IP family mismatch''
          else bindr (declared_bits is_route a (get ''prefix'') (get ''netmask'')) (\<lambda>b.
            Inr (prefix_masked (prefix_from a b))))"

record xml_state =
  xs_depth :: int
  xs_roots :: nat
  xs_count :: nat
  xs_out :: "net_prefix list"

definition declares_prefix :: "int \<Rightarrow> xml_name \<Rightarrow> bool" where
  "declares_prefix depth name \<longleftrightarrow> depth = 2 \<and> snd name \<in> {''ip'', ''route''}"

definition start_element :: "xml_name \<Rightarrow> (xml_name \<times> string) list \<Rightarrow> xml_state \<Rightarrow> spec_error + xml_state" where
  "start_element name attrs st =
     (let depth = xs_depth st + 1; roots = (if depth = 1 then Suc (xs_roots st) else xs_roots st);
          st1 = st\<lparr>xs_depth := depth, xs_roots := roots\<rparr> in
      if depth > 64 then reason ''network XML depth limit''
      else if depth = 1 \<and> (roots \<noteq> 1 \<or> name \<noteq> local_name ''network'') then reason ''expected one unnamespaced network root''
      else if \<not> distinct (map fst attrs) then reason ''duplicate network XML attribute''
      else if \<not> declares_prefix depth name then Inr st1
      else bindr (element_prefix name attrs) (\<lambda>p.
        if length (xs_out st) \<ge> 256 then reason ''network IP declaration limit''
        else Inr (st1\<lparr>xs_out := xs_out st @ [p]\<rparr>)))"

definition xml_step :: "xml_token \<Rightarrow> xml_state \<Rightarrow> spec_error + xml_state" where
  "xml_step t st0 =
     (let st = st0\<lparr>xs_count := Suc (xs_count st0)\<rparr> in
      if xs_count st > 65536 then reason ''network XML token limit''
      else case t of
        Directive \<Rightarrow> reason ''network XML directives prohibited''
      | Start_element name attrs \<Rightarrow> start_element name attrs st
      | End_element n \<Rightarrow> Inr (st\<lparr>xs_depth := xs_depth st - 1\<rparr>)
      | Char_data v \<Rightarrow> if xs_depth st = 0 \<and> text_fields v \<noteq> [] then reason ''text outside network XML'' else Inr st
      | Comment c \<Rightarrow> Inr st
      | Proc_inst n i \<Rightarrow> Inr st)"

definition xml_start :: xml_state where
  "xml_start = \<lparr>xs_depth = 0, xs_roots = 0, xs_count = 0, xs_out = []\<rparr>"

text \<open>\<open>decoder\<close> is \<^verbatim>\<open>encoding/xml\<close>: the tokens of a document and how their stream ends.\<close>

definition defined_prefixes :: "(string \<Rightarrow> xml_token list \<times> string option) \<Rightarrow> string \<Rightarrow> spec_error + net_prefix list" where
  "defined_prefixes decoder raw =
     (if raw = [] \<or> length raw > 1048576 then reason ''missing or oversized network XML''
      else let (tokens, failure) = decoder raw in
        bindr (foldr_res xml_step tokens xml_start) (\<lambda>st.
          case failure of Some e \<Rightarrow> Inl (Xml_error e)
          | None \<Rightarrow> if xs_depth st \<noteq> 0 \<or> xs_roots st \<noteq> 1 then reason ''incomplete network XML'' else Inr (xs_out st)))"

end
