(* ===== verification/Intent_Laws.thy ===== *)
theory Intent_Laws
  imports Intent
begin

text \<open>
  The declarative meaning of an accepted set of interfaces, of an accepted network document and
  of the candidate allocator.
\<close>

section \<open>Interfaces\<close>

definition static_ok :: "nic \<Rightarrow> bool" where
  "static_ok n \<longleftrightarrow> (nic_mode n = ''static'' \<longrightarrow>
     (\<exists>p. parse_prefix (nic_address n) = Some (Prefix4 p) \<and> p_addr p \<noteq> p_addr (masked p) \<and>
        (nic_gateway n \<noteq> [] \<longrightarrow> (\<exists>g. parse_addr (nic_gateway n) = Some g \<and> prefix_contains (Prefix4 p) g))))"

definition nic_ok :: "nic \<Rightarrow> bool" where
  "nic_ok n \<longleftrightarrow> nic_id n \<noteq> [] \<and> (nic_gateway n \<noteq> [] \<longrightarrow> nic_default n) \<and>
     (nic_default n \<longrightarrow> nic_mode n \<noteq> ''none'') \<and> static_ok n \<and> list_all (\<lambda>d. parse_addr d \<noteq> None) (nic_dns n)"

definition protected_net :: "net_spec \<Rightarrow> bool" where
  "protected_net s \<longleftrightarrow> ns_type s \<in> {''lab'', ''guest-only''}"

definition external_net :: "net_spec \<Rightarrow> bool" where
  "external_net s \<longleftrightarrow> ns_type s \<in> {''nat'', ''bridge''}"

definition fixed_cidr :: "net_spec \<Rightarrow> string option" where
  "fixed_cidr s = (case ns_ipv4 s of Some i \<Rightarrow> if i4_cidr i = ''auto'' then None else Some (i4_cidr i) | None \<Rightarrow> None)"

definition own_net :: "(string \<rightharpoonup> net_spec) \<Rightarrow> nic \<Rightarrow> (net_spec \<Rightarrow> bool) \<Rightarrow> bool" where
  "own_net m n P \<longleftrightarrow> (case m (nic_network n) of Some s \<Rightarrow> P s | None \<Rightarrow> False)"

definition own_subnet :: "(string \<rightharpoonup> net_spec) \<Rightarrow> nic \<Rightarrow> net_prefix option" where
  "own_subnet m n = Option.bind (Option.bind (m (nic_network n)) fixed_cidr) parse_prefix"

definition net_ok :: "(string \<rightharpoonup> net_spec) \<Rightarrow> nic \<Rightarrow> bool" where
  "net_ok m n \<longleftrightarrow> own_net m n (\<lambda>s. \<not> (protected_net s \<and> nic_default n) \<and>
     (fixed_cidr s \<noteq> None \<longrightarrow> (\<exists>p. own_subnet m n = Some p \<and> (nic_mode n = ''static'' \<longrightarrow>
        (\<exists>a. parse_prefix (nic_address n) = Some (Prefix4 a) \<and> prefix_contains p (Addr4 (p_addr a)))))))"

definition subnet_clear :: "(string \<rightharpoonup> net_spec) \<Rightarrow> nic \<Rightarrow> net_prefix list \<Rightarrow> bool" where
  "subnet_clear m n ps \<longleftrightarrow> (case own_subnet m n of Some p \<Rightarrow> \<not> list_ex (prefix_overlaps p) ps | None \<Rightarrow> True)"

definition after_nic :: "(string \<rightharpoonup> net_spec) \<Rightarrow> nic \<Rightarrow> nic_state \<Rightarrow> nic_state" where
  "after_nic m n st = \<lparr>st_seen = nic_id n # st_seen st, st_defaults = st_defaults st + (if nic_default n then 1 else 0),
     st_attached = st_attached st @ (case own_subnet m n of Some p \<Rightarrow> [p] | None \<Rightarrow> []),
     st_protected = (st_protected st \<or> own_net m n protected_net), st_external = (st_external st \<or> own_net m n external_net)\<rparr>"

lemma check_static_ok: "check_static n = Inr () \<longleftrightarrow> static_ok n"
  by (auto simp: check_static_def static_ok_def split: option.splits net_prefix.splits)

lemma attach_network_ok:
  assumes "static_ok n"
  shows "attach_network m n st = Inr st' \<longleftrightarrow> net_ok m n \<and>
     subnet_clear m n (st_attached st) \<and>
     st' = st\<lparr>st_protected := st_protected st \<or> own_net m n protected_net,
       st_external := st_external st \<or> own_net m n external_net,
       st_attached := st_attached st @ (case own_subnet m n of Some p \<Rightarrow> [p] | None \<Rightarrow> [])\<rparr>"
proof (cases "m (nic_network n)")
  case None
  then show ?thesis by (simp add: attach_network_def net_ok_def own_net_def)
next
  case s: (Some s)
  show ?thesis
  proof (cases "fixed_cidr s")
    case None
    then have "attach_subnet n s st1 = Inr st1" for st1
      by (auto simp: attach_subnet_def fixed_cidr_def split: option.splits if_splits)
    then show ?thesis using s None
      by (auto simp: attach_network_def net_ok_def own_net_def own_subnet_def subnet_clear_def protected_net_def external_net_def)
  next
    case (Some c)
    then obtain i where i: "ns_ipv4 s = Some i" "i4_cidr i = c" "c \<noteq> ''auto''"
      by (auto simp: fixed_cidr_def split: option.splits if_splits)
    show ?thesis
    proof (cases "parse_prefix c")
      case None
      then show ?thesis using s Some i
        by (auto simp: attach_network_def attach_subnet_def net_ok_def own_net_def own_subnet_def subnet_clear_def)
    next
      case p: (Some p)
      have st: "attach_subnet n s st1 = (if list_ex (prefix_overlaps p) (st_attached st1) then reason ''overlapping attached subnets''
          else if nic_mode n = ''static'' \<and> \<not> (\<exists>a. parse_prefix (nic_address n) = Some (Prefix4 a) \<and> prefix_contains p (Addr4 (p_addr a)))
            then reason ''static NIC address outside selected network''
          else Inr (st1\<lparr>st_attached := st_attached st1 @ [p]\<rparr>))" for st1
        using i p assms by (auto simp: attach_subnet_def static_ok_def)
      show ?thesis using s Some p
        by (auto simp: attach_network_def st net_ok_def own_net_def own_subnet_def subnet_clear_def protected_net_def external_net_def)
    qed
  qed
qed

lemma nic_step_ok:
  "nic_step (Some m) n st = Inr st' \<longleftrightarrow> nic_id n \<notin> set (st_seen st) \<and> nic_ok n \<and> net_ok m n \<and>
     subnet_clear m n (st_attached st) \<and>
     st' = after_nic m n st"
proof (cases "static_ok n")
  case True
  note att = attach_network_ok [OF True]
  have cs: "check_static n = Inr ()" using True check_static_ok by blast
  show ?thesis using True
    by (auto simp: nic_step_def nic_ok_def Let_def cs att after_nic_def)
next
  case False
  then have "\<exists>e. check_static n = Inl e" using check_static_ok by (cases "check_static n") auto
  then show ?thesis using False by (auto simp: nic_step_def nic_ok_def Let_def)
qed

definition attached :: "(string \<rightharpoonup> net_spec) \<Rightarrow> nic list \<Rightarrow> net_prefix list" where
  "attached m nics = concat (map (\<lambda>n. case own_subnet m n of Some p \<Rightarrow> [p] | None \<Rightarrow> []) nics)"

definition share_none :: "net_prefix \<Rightarrow> net_prefix \<Rightarrow> bool" where
  "share_none p q \<longleftrightarrow> (\<nexists>a. prefix_contains p a \<and> prefix_contains q a)"

lemma no_overlap: "\<not> list_ex (prefix_overlaps p) qs \<longleftrightarrow> list_all (\<lambda>q. share_none q p) qs"
  unfolding share_none_def prefix_overlaps_iff [symmetric] by (auto simp: list_ex_iff list_all_iff prefix_overlaps_sym)

lemma nics_fold:
  "foldr_res (nic_step (Some m)) nics st = Inr st' \<longleftrightarrow>
     distinct (map nic_id nics) \<and> set (map nic_id nics) \<inter> set (st_seen st) = {} \<and> list_all nic_ok nics \<and> list_all (net_ok m) nics \<and>
     sorted_wrt share_none (attached m nics) \<and> list_all (\<lambda>q. list_all (\<lambda>p. share_none q p) (attached m nics)) (st_attached st) \<and>
     st' = fold (after_nic m) nics st"
proof (induction nics arbitrary: st)
  case Nil
  then show ?case by (auto simp: attached_def list_all_iff)
next
  case (Cons n ns)
  have seen: "st_seen (after_nic m n st) = nic_id n # st_seen st"
    and att: "st_attached (after_nic m n st) = st_attached st @ (case own_subnet m n of Some p \<Rightarrow> [p] | None \<Rightarrow> [])"
    by (simp_all add: after_nic_def)
  have c: "attached m (n # ns) = (case own_subnet m n of Some p \<Rightarrow> [p] | None \<Rightarrow> []) @ attached m ns"
    by (simp add: attached_def)
  have pairs: "subnet_clear m n old \<and> sorted_wrt share_none (attached m ns) \<and>
      list_all (\<lambda>q. list_all (\<lambda>p. share_none q p) (attached m ns)) (old @ (case own_subnet m n of Some p \<Rightarrow> [p] | None \<Rightarrow> [])) \<longleftrightarrow>
      sorted_wrt share_none (attached m (n # ns)) \<and> list_all (\<lambda>q. list_all (\<lambda>p. share_none q p) (attached m (n # ns))) old" for old
  proof (cases "own_subnet m n")
    case None
    then show ?thesis by (auto simp: subnet_clear_def c)
  next
    case (Some p)
    have "list_all (\<lambda>q. list_all (\<lambda>p. share_none q p) (p # attached m ns)) old \<longleftrightarrow>
        list_all (\<lambda>q. share_none q p) old \<and> list_all (\<lambda>q. list_all (\<lambda>p. share_none q p) (attached m ns)) old"
      by (induction old) auto
    then show ?thesis unfolding subnet_clear_def c Some no_overlap option.case list_all_append
      by (auto simp: list_all_iff)
  qed
  have "foldr_res (nic_step (Some m)) (n # ns) st = Inr st' \<longleftrightarrow>
      nic_id n \<notin> set (st_seen st) \<and> nic_ok n \<and> net_ok m n \<and> subnet_clear m n (st_attached st) \<and>
      foldr_res (nic_step (Some m)) ns (after_nic m n st) = Inr st'"
    by (auto simp: nic_step_ok)
  also have "\<dots> \<longleftrightarrow> (distinct (map nic_id (n # ns)) \<and> set (map nic_id (n # ns)) \<inter> set (st_seen st) = {} \<and>
      list_all nic_ok (n # ns) \<and> list_all (net_ok m) (n # ns)) \<and> (subnet_clear m n (st_attached st) \<and>
      sorted_wrt share_none (attached m ns) \<and> list_all (\<lambda>q. list_all (\<lambda>p. share_none q p) (attached m ns))
        (st_attached st @ (case own_subnet m n of Some p \<Rightarrow> [p] | None \<Rightarrow> []))) \<and>
      st' = fold (after_nic m) (n # ns) st"
    unfolding Cons.IH seen att by auto
  also have "\<dots> \<longleftrightarrow> distinct (map nic_id (n # ns)) \<and> set (map nic_id (n # ns)) \<inter> set (st_seen st) = {} \<and>
      list_all nic_ok (n # ns) \<and> list_all (net_ok m) (n # ns) \<and> sorted_wrt share_none (attached m (n # ns)) \<and>
      list_all (\<lambda>q. list_all (\<lambda>p. share_none q p) (attached m (n # ns))) (st_attached st) \<and> st' = fold (after_nic m) (n # ns) st"
    unfolding pairs by blast
  finally show ?case .
qed

lemma fold_after_nic:
  "st_defaults (fold (after_nic m) nics st) = st_defaults st + length (filter nic_default nics)"
  "st_protected (fold (after_nic m) nics st) \<longleftrightarrow> st_protected st \<or> list_ex (\<lambda>n. own_net m n protected_net) nics"
  "st_external (fold (after_nic m) nics st) \<longleftrightarrow> st_external st \<or> list_ex (\<lambda>n. own_net m n external_net) nics"
  by (induction nics arbitrary: st) (auto simp: after_nic_def)

text \<open>
  C20. A set of interfaces is accepted for its networks exactly when their identities are
  distinct, at most one supplies a default route, each is well formed and admitted by its
  network, and no two attached subnets share an address; the warnings then say exactly whether
  the machine joins a protected segment to an external one.
\<close>

theorem nics_accepted:
  "validate_nics nics (Some m) = Inr ws \<longleftrightarrow>
     distinct (map nic_id nics) \<and> length (filter nic_default nics) \<le> 1 \<and> list_all nic_ok nics \<and> list_all (net_ok m) nics \<and>
     sorted_wrt (\<lambda>p q. \<nexists>a. prefix_contains p a \<and> prefix_contains q a) (attached m nics) \<and>
     ws = (if list_ex (\<lambda>n. own_net m n protected_net) nics \<and> list_ex (\<lambda>n. own_net m n external_net) nics
           then [dual_homed] else []) @ [unverified_routing]"
proof -
  define st where "st = fold (after_nic m) nics nic_start"
  define C where "C \<longleftrightarrow> distinct (map nic_id nics) \<and> list_all nic_ok nics \<and> list_all (net_ok m) nics \<and> sorted_wrt share_none (attached m nics)"
  have run: "foldr_res (nic_step (Some m)) nics nic_start = Inr s \<longleftrightarrow> C \<and> s = st" for s
    unfolding nics_fold C_def st_def by (simp add: nic_start_def)
  have "validate_nics nics (Some m) = Inr ws \<longleftrightarrow> C \<and> st_defaults st \<le> 1 \<and>
      ws = (if st_protected st \<and> st_external st then [dual_homed] else []) @ [unverified_routing]"
  proof (cases C)
    case True
    then have "foldr_res (nic_step (Some m)) nics nic_start = Inr st" using run by blast
    then show ?thesis using True unfolding validate_nics_def by auto
  next
    case False
    then obtain e where "foldr_res (nic_step (Some m)) nics nic_start = Inl e"
      using run by (cases "foldr_res (nic_step (Some m)) nics nic_start") blast+
    then show ?thesis using False by (simp add: validate_nics_def)
  qed
  then show ?thesis
    unfolding C_def st_def share_none_def [abs_def] by (simp add: fold_after_nic nic_start_def) blast
qed

section \<open>Declared prefixes\<close>

fun declarations :: "int \<Rightarrow> xml_token list \<Rightarrow> (xml_name \<times> (xml_name \<times> string) list) list" where
  "declarations d [] = []"
| "declarations d (Start_element n a # ts) =
     (if declares_prefix (d + 1) n then [(n, a)] else []) @ declarations (d + 1) ts"
| "declarations d (End_element n # ts) = declarations (d - 1) ts"
| "declarations d (_ # ts) = declarations d ts"

lemma xml_step_Inr:
  assumes "xml_step t st = Inr st'"
  shows "(\<forall>ts. \<exists>own. declarations (xs_depth st) (t # ts) = own @ declarations (xs_depth st') ts \<and>
      (\<exists>new. xs_out st' = xs_out st @ new \<and> list_all2 (\<lambda>(n, a) p. element_prefix n a = Inr p) own new)) \<and>
    (length (xs_out st) \<le> 256 \<longrightarrow> length (xs_out st') \<le> 256)"
proof (cases t)
  case (Start_element n a)
  then have s: "start_element n a (st\<lparr>xs_count := Suc (xs_count st)\<rparr>) = Inr st'"
    using assms by (auto simp: xml_step_def Let_def split: if_splits)
  show ?thesis
  proof (cases "declares_prefix (xs_depth st + 1) n")
    case True
    then obtain p where "element_prefix n a = Inr p" "xs_out st' = xs_out st @ [p]" "xs_depth st' = xs_depth st + 1"
      "length (xs_out st) < 256"
      using s by (auto simp: start_element_def Let_def split: if_splits)
    then show ?thesis using True Start_element by auto
  next
    case False
    then have "xs_out st' = xs_out st" "xs_depth st' = xs_depth st + 1"
      using s by (auto simp: start_element_def Let_def split: if_splits)
    then show ?thesis using False Start_element by auto
  qed
qed (use assms in \<open>auto simp: xml_step_def Let_def split: if_splits\<close>)

lemma xml_fold:
  "foldr_res xml_step ts st = Inr st' \<Longrightarrow> length (xs_out st) \<le> 256 \<Longrightarrow>
     \<exists>new. xs_out st' = xs_out st @ new \<and> length (xs_out st') \<le> 256 \<and>
       list_all2 (\<lambda>(n, a) p. element_prefix n a = Inr p) (declarations (xs_depth st) ts) new"
proof (induction ts arbitrary: st)
  case (Cons t ts)
  then obtain st1 where st1: "xml_step t st = Inr st1" "foldr_res xml_step ts st1 = Inr st'" by auto
  obtain own new where own: "declarations (xs_depth st) (t # ts) = own @ declarations (xs_depth st1) ts"
    "xs_out st1 = xs_out st @ new" "list_all2 (\<lambda>(n, a) p. element_prefix n a = Inr p) own new"
    and len: "length (xs_out st1) \<le> 256"
    using xml_step_Inr [OF st1(1)] Cons.prems(2) by blast
  obtain rest where "xs_out st' = xs_out st1 @ rest" "length (xs_out st') \<le> 256"
    "list_all2 (\<lambda>(n, a) p. element_prefix n a = Inr p) (declarations (xs_depth st1) ts) rest"
    using Cons.IH [OF st1(2) len] by blast
  then show ?case using own by (auto intro: list_all2_appendI)
qed simp

lemma mask_width_bound: "mask_width m = Some n \<Longrightarrow> n \<le> 32"
  by (auto simp: mask_width_def find_Some_iff)

lemma declared_bits_bound: "declared_bits r a pre m = Inr b \<Longrightarrow> b \<le> (if addr_is4 a then 32 else 128)"
  by (auto simp: declared_bits_def Let_def split: if_splits option.splits addr.splits dest: mask_width_bound)

lemma prefix_masked_idem: "prefix_masked (prefix_masked p) = prefix_masked p"
  by (cases p) (simp_all add: masked_def mask_addr_twice mask6_mask6)

lemma element_prefix_Inr:
  assumes "element_prefix n a = Inr p"
  shows "prefix_valid p \<and> prefix_masked p = p"
proof -
  obtain w r pre m b where b: "declared_bits r w pre m = Inr b" and p: "p = prefix_masked (prefix_from w b)"
    using assms unfolding element_prefix_def Let_def by (fastforce split: if_split_asm option.split_asm)
  have "prefix_valid (prefix_masked (prefix_from w b))"
    using declared_bits_bound [OF b] by (cases w) (simp_all add: prefix_from_def masked_def valid4_def)
  then show ?thesis unfolding p using prefix_masked_idem by blast
qed

text \<open>
  An accepted network document yields exactly one prefix for each address and static
  route declared directly below its root, in order: none is skipped or invented, each is a
  valid masked prefix, and there are at most 256.
\<close>

theorem declared_prefixes_complete:
  "case defined_prefixes decoder raw of
     Inl e \<Rightarrow> True
   | Inr out \<Rightarrow> list_all2 (\<lambda>(n, a) p. element_prefix n a = Inr p) (declarations 0 (fst (decoder raw))) out \<and>
       list_all (\<lambda>p. prefix_valid p \<and> prefix_masked p = p) out \<and> length out \<le> 256"
proof (cases "defined_prefixes decoder raw")
  case (Inr out)
  then obtain st where st: "foldr_res xml_step (fst (decoder raw)) xml_start = Inr st" "xs_out st = out"
    by (auto simp: defined_prefixes_def Let_def split: if_splits prod.splits option.splits)
  then have all: "list_all2 (\<lambda>(n, a) p. element_prefix n a = Inr p) (declarations 0 (fst (decoder raw))) out"
    and "length out \<le> 256"
    using xml_fold [OF st(1)] by (auto simp: xml_start_def)
  moreover have "list_all (\<lambda>p. prefix_valid p \<and> prefix_masked p = p) out"
    unfolding list_all_length
  proof (intro allI impI)
    fix k assume "k < length out"
    from list_all2_nthD2 [OF all this] obtain n a where "element_prefix n a = Inr (out ! k)" by (auto split: prod.splits)
    from element_prefix_Inr [OF this] show "prefix_valid (out ! k) \<and> prefix_masked (out ! k) = out ! k" by blast
  qed
  ultimately show ?thesis using Inr by simp
qed simp

end
