(* ===== verification/Network_Profile.thy ===== *)
theory Network_Profile
  imports Intent Domain
begin

text \<open>
  The managed network profiles: the definition and its policy family
  (\<^verbatim>\<open>internal/domain/network_creation.go\<close>), its validation, the libvirt document rendered for
  it (\<^verbatim>\<open>internal/backend/networkxml/network.go\<close>) and the predicate that decides whether an
  observed document is that declaration (\<^verbatim>\<open>internal/backend/networkxml/match.go\<close>).
\<close>

section \<open>Definitions of networks\<close>

record network_def =
  nd_uuid :: string
  nd_name :: string
  nd_bridge :: string
  nd_type :: string
  nd_cidr :: string
  nd_dhcp :: bool
  nd_advertise :: bool
  nd_ipv6 :: string
  nd_access :: string
  nd_egress :: string

definition policy_version :: "network_def \<Rightarrow> int" where
  "policy_version d =
     (if nd_type d \<in> {''nat'', ''lab''} \<and> nd_access d = ''allow'' then 1
      else if nd_type d \<in> {''nat'', ''lab''} \<and> nd_access d = ''services-only'' then 2
      else if nd_type d = ''guest-only'' \<and> nd_access d = ''deny'' then 2
      else 0)"

definition uuid_pattern :: "string \<Rightarrow> bool" where
  "uuid_pattern s \<longleftrightarrow> map length (split_on CHR ''-'' s) = [8, 4, 4, 4, 12] \<and>
     list_all (list_all lower_hex) (split_on CHR ''-'' s)"

definition without_dashes :: "string \<Rightarrow> string" where
  "without_dashes s = filter (\<lambda>c. c \<noteq> CHR ''-'') s"

definition bridge_name :: "string \<Rightarrow> string" where
  "bridge_name uuid = ''vm'' @ take 12 (without_dashes uuid)"

definition private_scopes :: "string list" where
  "private_scopes = [''10.0.0.0/8'', ''172.16.0.0/12'', ''192.168.0.0/16'']"

definition in_scope :: "prefix4 \<Rightarrow> string \<Rightarrow> bool" where
  "in_scope p scope = (case parse_prefix scope of
      Some (Prefix4 r) \<Rightarrow> p_bits r \<le> p_bits p \<and> prefix_contains (Prefix4 r) (Addr4 (p_addr p))
    | _ \<Rightarrow> False)"

definition check_subnet :: "string \<Rightarrow> go_error + unit" where
  "check_subnet cidr = (case parse_prefix cidr of
      Some (Prefix4 p) \<Rightarrow>
        (if p_bits p < 8 \<or> p_bits p > 30 \<or> p \<noteq> masked p \<or> show_prefix4 p \<noteq> cidr
         then failr ''INVALID_INPUT'' ''network IPv4 CIDR must be canonical and masked with prefix /8 through /30''
         else if \<not> list_ex (in_scope p) private_scopes
         then failr ''INVALID_INPUT'' ''network IPv4 CIDR must fit entirely in RFC 1918 private space''
         else Inr ())
    | _ \<Rightarrow> failr ''INVALID_INPUT'' ''network IPv4 CIDR must be canonical and masked with prefix /8 through /30'')"

definition check_profile :: "network_def \<Rightarrow> go_error + unit" where
  "check_profile d =
     (if nd_type d = ''nat'' then
        (if nd_egress d \<noteq> ''any'' \<or> nd_advertise d \<noteq> nd_dhcp d
         then failr ''UNSUPPORTED_CAPABILITY'' ''NAT requires egress any and advertises a default route exactly when DHCP is enabled''
         else Inr ())
      else if nd_type d = ''lab'' then
        (if nd_egress d \<noteq> ''none'' \<or> nd_advertise d
         then failr ''UNSUPPORTED_CAPABILITY'' ''lab requires egress none and no advertised DHCP default route''
         else Inr ())
      else if nd_type d = ''guest-only'' then
        (if nd_egress d \<noteq> ''none'' \<or> nd_dhcp d \<or> nd_advertise d
         then failr ''UNSUPPORTED_CAPABILITY'' ''guest-only requires egress none without managed DHCP/DNS or a default route''
         else Inr ())
      else failr ''UNSUPPORTED_CAPABILITY'' ''managed network creation supports only NAT, lab and guest-only profiles'')"

definition validate_network :: "network_def \<Rightarrow> go_error + unit" where
  "validate_network d =
     (if \<not> uuid_pattern (nd_uuid d) \<or> nd_uuid d = ''00000000-0000-0000-0000-000000000000''
      then failr ''INVALID_INPUT'' ''network UUID must be canonical lowercase and nonzero''
      else if nd_name d \<noteq> ''virmill-'' @ nd_uuid d \<or> nd_bridge d \<noteq> bridge_name (nd_uuid d)
      then failr ''INVALID_INPUT'' ''network name and bridge must match their reserved UUID''
      else bindr (if nd_cidr d \<noteq> [] \<or> nd_type d \<noteq> ''guest-only'' then check_subnet (nd_cidr d) else Inr ()) (\<lambda>_.
        if nd_ipv6 d \<noteq> ''disabled'' \<or> policy_version d = 0
        then failr ''UNSUPPORTED_CAPABILITY'' ''managed network creation requires explicit IPv6 disabled and a supported host-access profile''
        else check_profile d))"

section \<open>Rendering\<close>

definition host_addresses :: "prefix4 \<Rightarrow> addr4 \<times> addr4 \<times> addr4" where
  "host_addresses p = (let base = p_addr p in
     (base + 1, base + 2, base + push_bit (32 - p_bits p) 1 - 2))"

definition definition_json :: "network_def \<Rightarrow> json" where
  "definition_json d = JObj [(''uuid'', JStr (nd_uuid d)), (''name'', JStr (nd_name d)), (''bridge'', JStr (nd_bridge d)),
     (''type'', JStr (nd_type d)), (''ipv4CIDR'', JStr (nd_cidr d)), (''dhcpEnabled'', JBool (nd_dhcp d)),
     (''advertiseDefaultRoute'', JBool (nd_advertise d)), (''ipv6Mode'', JStr (nd_ipv6 d)),
     (''hostAccess'', JStr (nd_access d)), (''egress'', JStr (nd_egress d))]"

text \<open>\<open>hash\<close> is the hexadecimal SHA-256 of \<^verbatim>\<open>encoding/json\<close>'s bytes of a value.\<close>

definition intent_digest :: "(json \<Rightarrow> string) \<Rightarrow> network_def \<Rightarrow> string" where
  "intent_digest hash d = hash (JObj [(''apiVersion'', JStr api_version), (''version'', JNum (policy_version d)),
     (''definition'', definition_json d)])"

definition marker_namespace :: string where
  "marker_namespace = ''urn:virmill:v1''"

abbreviation newline :: string where
  "newline \<equiv> [CHR 10]"

definition render_head :: "(json \<Rightarrow> string) \<Rightarrow> network_def \<Rightarrow> string" where
  \<open>render_head hash d =
     ''<network ipv6="no">'' @ newline @ ''  <name>'' @ nd_name d @ ''</name>'' @ newline @ ''  <uuid>'' @ nd_uuid d @ ''</uuid>'' @ newline @
     ''  <metadata><virmill:networkCreation xmlns:virmill="'' @ marker_namespace @ ''" apiVersion="virmill/v1" version="'' @
       show_int (policy_version d) @ ''" intent="'' @ intent_digest hash d @ ''"/></metadata>'' @ newline @
     (if nd_type d = ''nat'' then ''  <forward mode="nat"><nat><port start="1024" end="65535"/></nat></forward>'' @ newline else []) @
     ''  <bridge name="'' @ nd_bridge d @ ''" zone="trusted" stp="on" delay="0"/>'' @ newline @
     (if policy_version d = 2 then ''  <dns enable="'' @ (if nd_dhcp d then ''yes'' else ''no'') @ ''"/>'' @ newline else [])\<close>

definition render_ip :: "network_def \<Rightarrow> prefix4 \<Rightarrow> string" where
  \<open>render_ip d p = (let (bridge, first, last) = host_addresses p in
     ''  <ip family="ipv4" address="'' @ show_addr4 bridge @ ''" prefix="'' @ show_nat (p_bits p) @ ''">'' @
     (if nd_dhcp d then newline @ ''    <dhcp><range start="'' @ show_addr4 first @ ''" end="'' @ show_addr4 last @ ''"/></dhcp>'' @ newline @ ''  ''
      else []) @
     ''</ip>'' @ newline @ ''</network>'' @ newline)\<close>

definition render_network :: "(json \<Rightarrow> string) \<Rightarrow> network_def \<Rightarrow> go_error + string" where
  "render_network hash d = bindr (validate_network d) (\<lambda>_.
     Inr (render_head hash d @
       (if nd_type d = ''guest-only'' then ''</network>'' @ newline
        else render_ip d (the (parse_prefix4 (nd_cidr d))))))"

section \<open>The tree of an observed document\<close>

datatype element = Element (el_name: xml_name) (el_attrs: "(xml_name \<times> string) list") (el_text: string) (el_children: "element list")

definition white :: "string \<Rightarrow> bool" where
  "white s \<longleftrightarrow> trim_set ('' '' @ [CHR 9, CHR 13, CHR 10]) s = []"

definition is_xmlns :: "xml_name \<Rightarrow> bool" where
  "is_xmlns n \<longleftrightarrow> fst n = ''xmlns'' \<or> n = local_name ''xmlns''"

definition bad_xmlns :: "xml_name \<Rightarrow> string \<Rightarrow> bool" where
  "bad_xmlns n v \<longleftrightarrow>
     fst n = ''xmlns'' \<and> (snd n \<in> {''xml'', ''xmlns''} \<or> v = [] \<or> CHR '':'' \<in> set (snd n)) \<or>
     v \<noteq> marker_namespace \<and> v \<noteq> []"

fun element_attrs :: "xml_name list \<Rightarrow> (xml_name \<times> string) list \<Rightarrow> spec_error + (xml_name \<times> string) list" where
  "element_attrs seen [] = Inr []"
| "element_attrs seen ((n, v) # as) =
     (if n \<in> set seen then reason ''duplicate XML attribute''
      else if is_xmlns n then
        (if bad_xmlns n v then reason ''unsupported XML namespace declaration'' else element_attrs (n # seen) as)
      else bindr (element_attrs (n # seen) as) (\<lambda>r. Inr ((n, v) # r)))"

text \<open>
  \<^verbatim>\<open>parse\<close>: the open elements are a stack, innermost first, each with the children already
  closed; the code links a child to its parent when it opens.
\<close>

record parse_state =
  ps_root :: "element option"
  ps_stack :: "element list"
  ps_opened :: bool
  ps_nodes :: nat

definition add_child :: "element \<Rightarrow> element \<Rightarrow> element" where
  "add_child c p = Element (el_name p) (el_attrs p) (el_text p) (el_children p @ [c])"

definition may_open :: "xml_name \<Rightarrow> parse_state \<Rightarrow> spec_error + unit" where
  "may_open n st = (case ps_stack st of
      [] \<Rightarrow> if ps_opened st then reason ''multiple XML roots'' else Inr ()
    | p # _ \<Rightarrow> if list_ex (\<lambda>c. el_name c = n) (el_children p) then reason ''duplicate XML element'' else Inr ())"

definition open_element :: "xml_name \<Rightarrow> (xml_name \<times> string) list \<Rightarrow> parse_state \<Rightarrow> spec_error + parse_state" where
  "open_element n attrs st =
     (if Suc (ps_nodes st) > 32 \<or> length (ps_stack st) \<ge> 8 \<or> length attrs > 16
      then reason ''XML structure exceeds the bounded declaration limit''
      else bindr (element_attrs [] attrs) (\<lambda>as. bindr (may_open n st) (\<lambda>_.
        Inr (st\<lparr>ps_nodes := Suc (ps_nodes st), ps_opened := True, ps_stack := Element n as [] [] # ps_stack st\<rparr>))))"

definition close_element :: "xml_name \<Rightarrow> parse_state \<Rightarrow> spec_error + parse_state" where
  "close_element n st = (case ps_stack st of
      [] \<Rightarrow> reason ''unbalanced XML''
    | e # es \<Rightarrow>
        if el_name e \<noteq> n then reason ''unbalanced XML''
        else (case es of
            [] \<Rightarrow> Inr (st\<lparr>ps_stack := [], ps_root := Some e\<rparr>)
          | p # ps \<Rightarrow> Inr (st\<lparr>ps_stack := add_child e p # ps\<rparr>)))"

definition add_text :: "string \<Rightarrow> parse_state \<Rightarrow> spec_error + parse_state" where
  "add_text t st = (case ps_stack st of
      [] \<Rightarrow> if white t then Inr st else reason ''text outside network XML''
    | e # es \<Rightarrow> Inr (st\<lparr>ps_stack := Element (el_name e) (el_attrs e) (el_text e @ t) (el_children e) # es\<rparr>))"

fun parse_token :: "xml_token \<Rightarrow> parse_state \<Rightarrow> spec_error + parse_state" where
  "parse_token (Start_element n as) st = open_element n as st"
| "parse_token (End_element n) st = close_element n st"
| "parse_token (Char_data t) st = add_text t st"
| "parse_token (Comment c) st = Inr st"
| "parse_token Directive st = reason ''unsupported XML directive''"
| "parse_token (Proc_inst n i) st = reason ''unsupported XML directive''"

definition parse_start :: parse_state where
  "parse_start = \<lparr>ps_root = None, ps_stack = [], ps_opened = False, ps_nodes = 0\<rparr>"

definition parse_element :: "(string \<Rightarrow> xml_token list \<times> string option) \<Rightarrow> string \<Rightarrow> spec_error + element" where
  "parse_element decoder raw =
     (if raw = [] \<or> length raw > 65536 then reason ''XML size is outside the bounded declaration limit''
      else let (tokens, failure) = decoder raw in
        bindr (foldr_res parse_token tokens parse_start) (\<lambda>st.
          if failure \<noteq> None then reason ''malformed XML''
          else case ps_root st of
            Some e \<Rightarrow> if ps_stack st = [] then Inr e else reason ''incomplete XML''
          | None \<Rightarrow> reason ''incomplete XML''))"

section \<open>Normalisation\<close>

definition drop_attr :: "string \<Rightarrow> (xml_name \<times> string) list \<Rightarrow> (xml_name \<times> string) list" where
  "drop_attr k as = filter (\<lambda>(n, v). n \<noteq> local_name k) as"

definition default_attr :: "string \<Rightarrow> string \<Rightarrow> (xml_name \<times> string) list \<Rightarrow> (xml_name \<times> string) list" where
  "default_attr k v as = (if map_of as (local_name k) = None then as @ [(local_name k, v)] else as)"

text \<open>A hardware address as \<^verbatim>\<open>net.ParseMAC\<close> accepts six bytes, in its lower-case colon form.\<close>

definition mac_separated :: "string \<Rightarrow> string list option" where
  "mac_separated v =
     (let by_colon = split_on CHR '':'' v; by_dash = split_on CHR ''-'' v; by_dot = split_on CHR ''.'' v in
      if map length by_colon = [2, 2, 2, 2, 2, 2] then Some by_colon
      else if map length by_dash = [2, 2, 2, 2, 2, 2] then Some by_dash
      else if map length by_dot = [4, 4, 4] then Some (concat (map (\<lambda>g. [take 2 g, drop 2 g]) by_dot))
      else None)"

definition parse_mac :: "string \<Rightarrow> nat list option" where
  "parse_mac v = (case mac_separated v of
      Some ps \<Rightarrow> if list_all (list_all is_hex) ps then Some (map parse_hex ps) else None
    | None \<Rightarrow> None)"

definition show_mac :: "nat list \<Rightarrow> string" where
  "show_mac bs = concat (map (\<lambda>i. (if i > 0 then '':'' else []) @ [hex_char (bs ! i div 16), hex_char (bs ! i mod 16)]) [0..<length bs])"

definition native_mac :: "string \<Rightarrow> bool" where
  "native_mac v = (case parse_mac v of
      Some bs \<Rightarrow> map lower v = show_mac bs \<and> even (hd bs) \<and> show_mac bs \<noteq> ''00:00:00:00:00:00''
    | None \<Rightarrow> False)"

definition ones_count :: "addr4 \<Rightarrow> nat" where
  "ones_count a = length (filter (bit a) [0..<32])"

definition normalize_mask :: "(xml_name \<times> string) list \<Rightarrow> spec_error + (xml_name \<times> string) list" where
  "normalize_mask as = (case map_of as (local_name ''netmask'') of
      None \<Rightarrow> Inr as
    | Some m \<Rightarrow>
        if map_of as (local_name ''prefix'') \<noteq> None then reason ''contradictory IP prefix and netmask''
        else (case parse_addr m of
            Some (Addr4 a) \<Rightarrow>
              if show_addr4 a \<noteq> m then reason ''invalid IPv4 netmask''
              else if a \<noteq> push_bit (32 - ones_count a) (- 1) then reason ''noncontiguous IPv4 netmask''
              else Inr (drop_attr ''netmask'' as @ [(local_name ''prefix'', show_nat (ones_count a))])
          | _ \<Rightarrow> reason ''invalid IPv4 netmask''))"

definition with_attrs :: "(xml_name \<times> string) list \<Rightarrow> element \<Rightarrow> element" where
  "with_attrs as e = Element (el_name e) as (el_text e) (el_children e)"

text \<open>One child of the root: \<open>None\<close> is a child that is not kept.\<close>

definition normalize_child :: "element \<Rightarrow> spec_error + element option" where
  "normalize_child c =
     (let k = snd (el_name c); as = el_attrs c in
      if fst (el_name c) \<noteq> [] then reason ''unsupported namespaced network element''
      else if k = ''bridge'' then
        (let as1 = default_attr ''delay'' ''0'' (default_attr ''stp'' ''on'' as) in
         Inr (Some (with_attrs (if map_of as1 (local_name ''macTableManager'') = Some ''kernel''
           then drop_attr ''macTableManager'' as1 else as1) c)))
      else if k = ''mac'' then
        (if length as \<noteq> 1 \<or> el_children c \<noteq> [] \<or> \<not> white (el_text c) then reason ''unsupported native MAC declaration''
         else if \<not> native_mac (attr_value as ''address'') then reason ''invalid native-assigned bridge MAC''
         else Inr None)
      else if k = ''forward'' then Inr (Some (with_attrs (default_attr ''mode'' ''nat'' as) c))
      else if k = ''ip'' then
        bindr (normalize_mask (default_attr ''family'' ''ipv4'' as)) (\<lambda>as1. Inr (Some (with_attrs as1 c)))
      else Inr (Some c))"

fun normalize_children :: "element list \<Rightarrow> spec_error + element list" where
  "normalize_children [] = Inr []"
| "normalize_children (c # cs) = bindr (normalize_child c) (\<lambda>k. bindr (normalize_children cs) (\<lambda>r.
     Inr (case k of Some e \<Rightarrow> e # r | None \<Rightarrow> r)))"

definition normalize_element :: "element \<Rightarrow> spec_error + element" where
  "normalize_element n =
     (if el_name n \<noteq> local_name ''network'' then reason ''expected an unnamespaced network root''
      else case map_of (el_attrs n) (local_name ''connections'') of
        Some v \<Rightarrow>
          if \<not> (plain_dec v \<and> parse_dec v < 2 ^ 32) then reason ''invalid live connections counter''
          else bindr (normalize_children (el_children n)) (\<lambda>cs.
            Inr (Element (el_name n) (let as = drop_attr ''connections'' (el_attrs n) in
              if map_of as (local_name ''ipv6'') = Some ''no'' then drop_attr ''ipv6'' as else as) (el_text n) cs))
      | None \<Rightarrow> bindr (normalize_children (el_children n)) (\<lambda>cs.
          Inr (Element (el_name n) (let as = el_attrs n in
            if map_of as (local_name ''ipv6'') = Some ''no'' then drop_attr ''ipv6'' as else as) (el_text n) cs)))"

section \<open>Comparison\<close>

definition find_child :: "xml_name \<Rightarrow> element list \<Rightarrow> element option" where
  "find_child n cs = List.find (\<lambda>c. el_name c = n) (rev cs)"

definition same_attrs :: "(xml_name \<times> string) list \<Rightarrow> (xml_name \<times> string) list \<Rightarrow> bool" where
  "same_attrs got want \<longleftrightarrow> length got = length want \<and> list_all (\<lambda>(k, v). map_of got k = Some v) want"

definition same_text :: "element \<Rightarrow> element \<Rightarrow> bool" where
  "same_text got want \<longleftrightarrow> (if el_name want \<in> {local_name ''name'', local_name ''uuid''}
     then el_text got = el_text want else white (el_text got))"

fun same_element :: "element \<Rightarrow> element \<Rightarrow> bool" where
  "same_element got (Element n as t cs) \<longleftrightarrow>
     el_name got = n \<and> length (el_attrs got) = length as \<and> length (el_children got) = length cs \<and>
     same_attrs (el_attrs got) as \<and> same_text got (Element n as t cs) \<and>
     list_all (\<lambda>w. case find_child (el_name w) (el_children got) of None \<Rightarrow> False | Some g \<Rightarrow> same_element g w) cs"

text \<open>
  The code appends to a refusal what the parser, the normaliser or the comparison says; for an
  attribute that depends on the iteration order of a map, so the message ends here before it.
\<close>

definition match_network :: "(string \<Rightarrow> xml_token list \<times> string option) \<Rightarrow> (json \<Rightarrow> string) \<Rightarrow> string \<Rightarrow> network_def \<Rightarrow>
    go_error + unit" where
  "match_network decoder hash observed d =
     bindr (render_network hash d) (\<lambda>text.
     case parse_element decoder text of
       Inl e \<Rightarrow> failr ''INTERNAL'' ''rendered network XML failed its structural predicate''
     | Inr want0 \<Rightarrow>
         (case bindr (parse_element decoder observed) (\<lambda>got0. bindr (normalize_element got0) (\<lambda>got.
             bindr (normalize_element want0) (\<lambda>want. Inr (got, want)))) of
            Inr (got, want) \<Rightarrow> if same_element got want then Inr ()
              else failr ''SOURCE_CHANGED'' ''network XML does not match reserved intent''
          | Inl e \<Rightarrow> failr ''SOURCE_CHANGED'' ''network XML does not match reserved intent''))"

end
