(* ===== verification/Network_Profile_Laws.thy ===== *)
theory Network_Profile_Laws
  imports Network_Profile
begin

text \<open>
  The addresses of a rendered profile are hosts of its subnet, and the comparison of an
  observed document with the profile is agreement of the two trees in both directions.
\<close>

section \<open>Addresses of the profile\<close>

lemma check_subnet_Inr:
  "check_subnet c = Inr u \<Longrightarrow> \<exists>p. parse_prefix4 c = Some p \<and> 8 \<le> p_bits p \<and> p_bits p \<le> 30 \<and> p = masked p \<and>
     list_ex (in_scope p) private_scopes"
  by (auto simp: check_subnet_def parse_prefix_Prefix4 split: option.splits net_prefix.splits if_splits)

lemma validate_subnet:
  "validate_network d = Inr () \<Longrightarrow> nd_type d \<noteq> ''guest-only'' \<Longrightarrow> \<exists>p. parse_prefix4 (nd_cidr d) = Some p \<and> 8 \<le> p_bits p \<and>
     p_bits p \<le> 30 \<and> p = masked p \<and> list_ex (in_scope p) private_scopes"
  using check_subnet_Inr by (auto simp: validate_network_def split: if_splits)

lemma block_end: "valid4 p \<Longrightarrow> block_start p + block_size p \<le> 2 ^ 32"
proof -
  assume v: "valid4 p"
  have "2 ^ 32 = block_size p * 2 ^ p_bits p"
    using v unfolding block_size_def valid4_def by (simp add: power_add [symmetric])
  moreover have "unat (p_addr p) < 2 ^ 32" using unsigned_less [of "p_addr p", where ?'a = nat] by simp
  ultimately have "unat (p_addr p) div block_size p < 2 ^ p_bits p"
    by (metis less_mult_imp_div_less mult.commute)
  then have "Suc (unat (p_addr p) div block_size p) * block_size p \<le> 2 ^ p_bits p * block_size p"
    by (intro mult_le_mono1) simp
  then show ?thesis unfolding block_start_def \<open>2 ^ 32 = _\<close> by (simp add: mult.commute)
qed

lemma host_addresses_bounds:
  assumes "p = masked p" and "8 \<le> p_bits p" and "p_bits p \<le> 30"
  shows "case host_addresses p of (b, f, l) \<Rightarrow> unat b = block_start p + 1 \<and> unat f = block_start p + 2 \<and>
    unat l = block_start p + block_size p - 2 \<and> unat f \<le> unat l"
proof -
  have a: "unat (p_addr p) = block_start p" using assms(1) unat_masked [of p] by metis
  have v: "valid4 p" using assms(3) by (simp add: valid4_def)
  have e: "block_start p + block_size p \<le> 2 ^ 32" by (rule block_end [OF v])
  have four: "4 \<le> block_size p"
    using power_increasing [of 2 "32 - p_bits p" "2 :: nat"] assms(3) unfolding block_size_def by simp
  have sz: "unat (push_bit (32 - p_bits p) 1 :: 32 word) = block_size p"
  proof -
    have "unat (push_bit (32 - p_bits p) 1 :: 32 word) = take_bit LENGTH(32) (push_bit (32 - p_bits p) 1)"
      by (simp only: unsigned_push_bit_eq unsigned_1)
    also have "\<dots> = 2 ^ (32 - p_bits p)"
    proof -
      have "(2 :: nat) ^ (32 - p_bits p) < 2 ^ LENGTH(32)" using assms(2) by (intro power_strict_increasing) simp_all
      then show ?thesis unfolding push_bit_of_1 by (rule take_bit_nat_eq_self)
    qed
    finally show ?thesis unfolding block_size_def .
  qed
  have add: "unat (x + y) = unat x + unat y" if "unat x + unat y < 2 ^ 32" for x y :: "32 word"
    using that by (simp add: unat_word_ariths)
  have b: "unat (p_addr p + 1) = block_start p + 1" using add [of "p_addr p" 1] e four a by simp
  have f: "unat (p_addr p + 2) = block_start p + 2" using add [of "p_addr p" 2] e four a by simp
  define s :: addr4 where "s = push_bit (32 - p_bits p) 1"
  have s: "unat s = block_size p" using sz by (simp only: s_def)
  then have "unat (s - 2) = block_size p - 2" using four by (subst unat_sub) (simp_all add: word_le_nat_alt)
  then have "unat (p_addr p + (s - 2)) = block_start p + block_size p - 2"
    using add [of "p_addr p" "s - 2"] e four a by simp
  then have l: "unat (p_addr p + s - 2) = block_start p + block_size p - 2" by (simp only: add_diff_eq)
  show ?thesis using b f l four unfolding host_addresses_def Let_def s_def by simp
qed

section \<open>Agreement of documents\<close>

fun well_formed :: "element \<Rightarrow> bool" where
  "well_formed (Element n as t cs) \<longleftrightarrow> distinct (map fst as) \<and> distinct (map el_name cs) \<and> list_all well_formed cs"

fun agree :: "element \<Rightarrow> element \<Rightarrow> bool" where
  "agree got (Element n as t cs) \<longleftrightarrow> el_name got = n \<and> set (el_attrs got) = set as \<and> same_text got (Element n as t cs) \<and>
     list_all (\<lambda>w. list_ex (\<lambda>g. agree g w) (el_children got)) cs \<and>
     list_all (\<lambda>g. list_ex (\<lambda>w. agree g w) cs) (el_children got)"

lemma agree_name: "agree g w \<Longrightarrow> el_name g = el_name w"
  by (cases w) simp

lemma same_name: "same_element g w \<Longrightarrow> el_name g = el_name w"
  by (cases w) simp

lemma find_child_Some:
  assumes "distinct (map el_name cs)"
  shows "find_child n cs = Some c \<longleftrightarrow> c \<in> set cs \<and> el_name c = n"
proof
  assume "find_child n cs = Some c"
  then show "c \<in> set cs \<and> el_name c = n" by (auto simp: find_child_def find_Some_iff rev_nth)
next
  assume c: "c \<in> set cs \<and> el_name c = n"
  then obtain d where d: "find_child n cs = Some d"
    by (cases "find_child n cs") (auto simp: find_child_def find_None_iff)
  then have "d \<in> set cs" "el_name d = n" by (auto simp: find_child_def find_Some_iff rev_nth)
  then have "d = c" using c assms by (auto simp: distinct_map inj_on_def)
  then show "find_child n cs = Some c" using d by simp
qed

lemma same_attrs_set:
  assumes "distinct (map fst got)" and "distinct (map fst want)"
  shows "same_attrs got want \<longleftrightarrow> set got = set want"
proof
  assume s: "same_attrs got want"
  then have sub: "set want \<subseteq> set got" using assms(1) by (auto simp: same_attrs_def list_all_iff)
  have "card (set want) = card (set got)" using s assms
    by (metis distinct_card distinct_map same_attrs_def)
  then show "set got = set want" using sub by (metis card_subset_eq List.finite_set)
next
  assume e: "set got = set want"
  then have "length got = length want" using assms by (metis distinct_card distinct_map)
  moreover have "map_of got k = Some v" if "(k, v) \<in> set want" for k v using that e assms(1) by simp
  ultimately show "same_attrs got want" by (auto simp: same_attrs_def list_all_iff)
qed

text \<open>Children with distinct names: matched one way and equal in number is matched both ways.\<close>

lemma children_agree:
  assumes got: "distinct (map el_name gs)" and want: "distinct (map el_name ws)"
  shows "(length gs = length ws \<and> list_all (\<lambda>w. case find_child (el_name w) gs of None \<Rightarrow> False | Some g \<Rightarrow> agree g w) ws) \<longleftrightarrow>
    list_all (\<lambda>w. list_ex (\<lambda>g. agree g w) gs) ws \<and> list_all (\<lambda>g. list_ex (\<lambda>w. agree g w) ws) gs" (is "?l \<longleftrightarrow> ?r")
proof
  assume l: ?l
  have one: "\<exists>g \<in> set gs. agree g w" if "w \<in> set ws" for w
    using l that find_child_Some [OF got] unfolding list_all_iff by (fastforce split: option.splits)
  have "el_name ` set ws \<subseteq> el_name ` set gs"
  proof (rule image_subsetI)
    fix w assume "w \<in> set ws"
    then obtain g where "g \<in> set gs" "agree g w" using one by blast
    then show "el_name w \<in> el_name ` set gs" using agree_name by (metis imageI)
  qed
  moreover have "card (el_name ` set ws) = card (el_name ` set gs)"
    using l distinct_card [OF got] distinct_card [OF want] by simp
  ultimately have names: "el_name ` set ws = el_name ` set gs" using card_subset_eq [of "el_name ` set gs"] by simp
  have "\<exists>w \<in> set ws. agree g w" if g: "g \<in> set gs" for g
  proof -
    obtain w where w: "w \<in> set ws" "el_name w = el_name g" using names g by (metis image_iff)
    obtain g' where g': "g' \<in> set gs" "agree g' w" using one [OF w(1)] by blast
    then have "el_name g' = el_name g" using agree_name w(2) by simp
    then have "g' = g" using got g g'(1) by (auto simp: distinct_map inj_on_def)
    then show ?thesis using w(1) g'(2) by blast
  qed
  then show ?r using one by (auto simp: list_all_iff list_ex_iff)
next
  assume r: ?r
  have "el_name ` set ws = el_name ` set gs"
  proof (intro subset_antisym subsetI)
    fix n assume "n \<in> el_name ` set ws"
    then obtain w where "w \<in> set ws" "n = el_name w" by blast
    moreover from this obtain g where "g \<in> set gs" "agree g w" using r unfolding list_all_iff list_ex_iff by blast
    ultimately show "n \<in> el_name ` set gs" using agree_name by (metis imageI)
  next
    fix n assume "n \<in> el_name ` set gs"
    then obtain g where "g \<in> set gs" "n = el_name g" by blast
    moreover from this obtain w where "w \<in> set ws" "agree g w" using r unfolding list_all_iff list_ex_iff by blast
    ultimately show "n \<in> el_name ` set ws" using agree_name by (metis imageI)
  qed
  then have "length gs = length ws" using got want by (metis distinct_card length_map set_map)
  moreover have "case find_child (el_name w) gs of None \<Rightarrow> False | Some g \<Rightarrow> agree g w" if w: "w \<in> set ws" for w
  proof -
    obtain g where g: "g \<in> set gs" "agree g w" using r w unfolding list_all_iff list_ex_iff by blast
    then have "find_child (el_name w) gs = Some g" using find_child_Some [OF got] agree_name by simp
    then show ?thesis using g(2) by simp
  qed
  ultimately show ?l by (simp add: list_all_iff)
qed

lemma same_element_agree: "well_formed got \<Longrightarrow> well_formed want \<Longrightarrow> same_element got want \<longleftrightarrow> agree got want"
proof (induction got want rule: same_element.induct)
  case (1 got n as t cs)
  obtain gn gas gt gcs where got: "got = Element gn gas gt gcs" by (cases got)
  have wf: "distinct (map fst gas)" "distinct (map el_name gcs)" "list_all well_formed gcs" "distinct (map fst as)"
    "distinct (map el_name cs)" "list_all well_formed cs" using "1.prems" got by simp_all
  have sub: "same_element g w \<longleftrightarrow> agree g w" if "w \<in> set cs" "find_child (el_name w) gcs = Some g" for g w
    using "1.IH" [OF that(1)] that wf find_child_Some [OF wf(2)] got by (auto simp: list_all_iff)
  have "list_all (\<lambda>w. case find_child (el_name w) gcs of None \<Rightarrow> False | Some g \<Rightarrow> same_element g w) cs \<longleftrightarrow>
      list_all (\<lambda>w. case find_child (el_name w) gcs of None \<Rightarrow> False | Some g \<Rightarrow> agree g w) cs"
    unfolding list_all_iff by (rule ball_cong [OF refl]) (use sub in \<open>simp split: option.split\<close>)
  moreover have "length gas = length as" if "set gas = set as" using that wf by (metis distinct_card distinct_map)
  ultimately show ?case
    using children_agree [OF wf(2,5)] same_attrs_set [OF wf(1,4)]
    unfolding got same_element.simps agree.simps element.sel by blast
qed

section \<open>Parsed and normalised trees are well formed\<close>

lemma element_attrs_distinct:
  "element_attrs seen as = Inr r \<Longrightarrow> distinct (map fst r) \<and> set (map fst r) \<inter> set seen = {}"
  by (induction seen as arbitrary: r rule: element_attrs.induct) (fastforce split: if_splits)+

fun fresh_names :: "element list \<Rightarrow> bool" where
  "fresh_names (e # p # ps) \<longleftrightarrow> el_name e \<notin> set (map el_name (el_children p)) \<and> fresh_names (p # ps)"
| "fresh_names _ \<longleftrightarrow> True"

definition parse_inv :: "parse_state \<Rightarrow> bool" where
  "parse_inv st \<longleftrightarrow> list_all well_formed (ps_stack st) \<and> fresh_names (ps_stack st) \<and>
     (\<forall>e. ps_root st = Some e \<longrightarrow> well_formed e)"

lemma fresh_names_tl: "fresh_names (e # es) \<Longrightarrow> fresh_names es"
  by (cases es) simp_all

lemma fresh_names_top: "el_name e = el_name e' \<Longrightarrow> fresh_names (e # es) \<longleftrightarrow> fresh_names (e' # es)"
  by (cases es) simp_all

lemma open_inv: "parse_inv st \<Longrightarrow> open_element n as st = Inr st' \<Longrightarrow> parse_inv st'"
  by (cases "ps_stack st")
    (auto simp: parse_inv_def open_element_def may_open_def list_ex_iff split: if_splits dest!: element_attrs_distinct)

lemma add_child_wf:
  "well_formed p \<Longrightarrow> well_formed e \<Longrightarrow> el_name e \<notin> set (map el_name (el_children p)) \<Longrightarrow> well_formed (add_child e p)"
  by (cases p) (auto simp: add_child_def)

lemma close_inv:
  assumes inv: "parse_inv st" and c: "close_element n st = Inr st'"
  shows "parse_inv st'"
proof -
  obtain e es where st: "ps_stack st = e # es" using c by (cases "ps_stack st") (auto simp: close_element_def)
  show ?thesis
  proof (cases es)
    case Nil
    then show ?thesis using inv c st by (auto simp: parse_inv_def close_element_def split: if_splits)
  next
    case (Cons p ps)
    then have st': "st' = st\<lparr>ps_stack := add_child e p # ps\<rparr>" using c st by (auto simp: close_element_def split: if_splits)
    have wf: "well_formed e" "well_formed p" "list_all well_formed ps" "el_name e \<notin> set (map el_name (el_children p))"
      "fresh_names (p # ps)" using inv st Cons by (auto simp: parse_inv_def)
    have "el_name (add_child e p) = el_name p" by (simp add: add_child_def)
    then have "fresh_names (add_child e p # ps)" using wf(5) fresh_names_top by metis
    then show ?thesis using inv add_child_wf [OF wf(2,1,4)] wf(3) unfolding parse_inv_def st' by simp
  qed
qed

lemma text_inv:
  assumes inv: "parse_inv st" and t: "add_text t st = Inr st'"
  shows "parse_inv st'"
proof (cases "ps_stack st")
  case Nil
  then show ?thesis using assms by (auto simp: add_text_def split: if_splits)
next
  case (Cons e es)
  let ?e = "Element (el_name e) (el_attrs e) (el_text e @ t) (el_children e)"
  have st': "st' = st\<lparr>ps_stack := ?e # es\<rparr>" using t Cons by (simp add: add_text_def)
  have "well_formed ?e = well_formed e" by (cases e) simp
  moreover have "fresh_names (?e # es) = fresh_names (e # es)" by (rule fresh_names_top) simp
  ultimately show ?thesis using inv Cons unfolding parse_inv_def st' by simp
qed

lemma token_inv: "parse_inv st \<Longrightarrow> parse_token t st = Inr st' \<Longrightarrow> parse_inv st'"
  by (cases t) (auto intro: open_inv close_inv text_inv)

lemma parse_element_wf: "parse_element decoder raw = Inr e \<Longrightarrow> well_formed e"
proof -
  assume p: "parse_element decoder raw = Inr e"
  then obtain st where st: "foldr_res parse_token (fst (decoder raw)) parse_start = Inr st" "ps_root st = Some e"
    by (auto simp: parse_element_def Let_def split: if_splits prod.splits option.splits)
  have "parse_inv parse_start" by (simp add: parse_inv_def parse_start_def)
  from foldr_res_invariant [where P = parse_inv, OF st(1) this] token_inv have "parse_inv st" by blast
  then show ?thesis using st(2) by (simp add: parse_inv_def)
qed

lemma drop_attr_distinct: "distinct (map fst as) \<Longrightarrow> distinct (map fst (drop_attr k as))"
  by (simp add: drop_attr_def distinct_map_filter)

lemma default_attr_distinct: "distinct (map fst as) \<Longrightarrow> distinct (map fst (default_attr k v as))"
  by (auto simp: default_attr_def map_of_eq_None_iff)

lemma normalize_mask_distinct:
  "normalize_mask as = Inr bs \<Longrightarrow> distinct (map fst as) \<Longrightarrow> distinct (map fst bs)"
  by (auto simp: normalize_mask_def drop_attr_def map_of_eq_None_iff distinct_map_filter image_iff
    split: option.splits if_splits addr.splits)

lemma with_attrs_wf: "well_formed e \<Longrightarrow> distinct (map fst as) \<Longrightarrow> well_formed (with_attrs as e)"
  by (cases e) (simp add: with_attrs_def)

lemma with_attrs_name [simp]: "el_name (with_attrs as e) = el_name e"
  by (simp add: with_attrs_def)

lemma normalize_child_wf:
  assumes "normalize_child c = Inr (Some e)" and "well_formed c"
  shows "well_formed e \<and> el_name e = el_name c"
proof -
  have d: "distinct (map fst (el_attrs c))" using assms(2) by (cases c) simp
  show ?thesis using assms d normalize_mask_distinct
    by (auto simp: normalize_child_def Let_def
      intro!: with_attrs_wf drop_attr_distinct default_attr_distinct split: if_splits)
qed

lemma normalize_children_wf:
  "normalize_children cs = Inr ds \<Longrightarrow> list_all well_formed cs \<Longrightarrow>
     list_all well_formed ds \<and> set (map el_name ds) \<subseteq> set (map el_name cs) \<and>
     (distinct (map el_name cs) \<longrightarrow> distinct (map el_name ds))"
proof (induction cs arbitrary: ds)
  case (Cons c cs)
  then obtain k r where k: "normalize_child c = Inr k" "normalize_children cs = Inr r"
    and ds: "ds = (case k of Some e \<Rightarrow> e # r | None \<Rightarrow> r)" by auto
  note IH = Cons.IH [OF k(2)]
  show ?case
  proof (cases k)
    case None
    then show ?thesis using IH ds Cons.prems(2) by auto
  next
    case (Some e)
    then have "well_formed e \<and> el_name e = el_name c" using normalize_child_wf k(1) Cons.prems(2) by simp
    then show ?thesis using IH ds Some Cons.prems(2) by auto
  qed
qed simp

lemma normalize_wf: "normalize_element e = Inr e' \<Longrightarrow> well_formed e \<Longrightarrow> well_formed e'"
  by (cases e) (auto simp: normalize_element_def Let_def split: if_splits option.splits
    intro!: drop_attr_distinct dest!: normalize_children_wf)

text \<open>
  C22. An observed network document is accepted for a definition exactly when the normalised
  trees of the document and of the profile rendered for it agree in both directions: every
  element and attribute of the profile is observed, and nothing is observed beyond it.
\<close>

theorem match_is_agreement:
  "match_network decoder hash observed d = Inr () \<longleftrightarrow>
     (\<exists>doc want0 got0 want got. render_network hash d = Inr doc \<and> parse_element decoder doc = Inr want0 \<and>
        parse_element decoder observed = Inr got0 \<and> normalize_element want0 = Inr want \<and>
        normalize_element got0 = Inr got \<and> agree got want)"
proof (cases "render_network hash d")
  case (Inl e)
  then show ?thesis by (simp add: match_network_def)
next
  case r: (Inr doc)
  show ?thesis
  proof (cases "parse_element decoder doc")
    case (Inl e)
    then show ?thesis using r by (simp add: match_network_def)
  next
    case w0: (Inr want0)
    show ?thesis
    proof (cases "bindr (parse_element decoder observed) (\<lambda>got0. bindr (normalize_element got0) (\<lambda>got.
        bindr (normalize_element want0) (\<lambda>want. Inr (got, want))))")
      case (Inl e)
      then have "match_network decoder hash observed d \<noteq> Inr ()" using r w0 by (simp add: match_network_def)
      moreover have "\<not> (parse_element decoder observed = Inr got0 \<and> normalize_element want0 = Inr want \<and> normalize_element got0 = Inr got)"
        for got0 want got using Inl by auto
      ultimately show ?thesis using r w0 by auto
    next
      case (Inr gw)
      then obtain got0 got want where t: "parse_element decoder observed = Inr got0" "normalize_element got0 = Inr got"
        "normalize_element want0 = Inr want" "gw = (got, want)" by auto
      have "agree got want \<longleftrightarrow> same_element got want"
        using t w0 parse_element_wf normalize_wf same_element_agree by blast
      then show ?thesis using r w0 t by (simp add: match_network_def)
    qed
  qed
qed

section \<open>What a rendered profile declares\<close>

text \<open>
  C23. A profile is rendered exactly when its definition is valid, and then declares either no
  address (guest-only) or, in the subnet of the definition, a bridge address and a lease range
  that are hosts: after the network address, the bridge first, the range not empty, before the
  broadcast address.
\<close>

theorem rendered_addresses:
  "case render_network hash d of
     Inl e \<Rightarrow> validate_network d = Inl e
   | Inr doc \<Rightarrow> validate_network d = Inr () \<and>
       (nd_type d = ''guest-only'' \<and> doc = render_head hash d @ ''</network>'' @ newline \<or>
        (\<exists>p. parse_prefix4 (nd_cidr d) = Some p \<and> doc = render_head hash d @ render_ip d p \<and>
           (case host_addresses p of (b, f, l) \<Rightarrow> block_start p < unat b \<and> unat b < unat f \<and> unat f \<le> unat l \<and>
              Suc (unat l) < block_start p + block_size p)))"
proof (cases "validate_network d")
  case (Inl e)
  then show ?thesis by (simp add: render_network_def)
next
  case v: (Inr u)
  then have v: "validate_network d = Inr ()" by simp
  show ?thesis
  proof (cases "nd_type d = ''guest-only''")
    case True
    then show ?thesis using v by (simp add: render_network_def)
  next
    case False
    then obtain p where p: "parse_prefix4 (nd_cidr d) = Some p" "8 \<le> p_bits p" "p_bits p \<le> 30" "p = masked p"
      using validate_subnet [OF v] by blast
    have four: "4 \<le> block_size p"
      using power_increasing [of 2 "32 - p_bits p" "2 :: nat"] p(3) unfolding block_size_def by simp
    have doc: "render_network hash d = Inr (render_head hash d @ render_ip d p)"
      using v False p(1) by (simp add: render_network_def)
    have "case host_addresses p of (b, f, l) \<Rightarrow> block_start p < unat b \<and> unat b < unat f \<and> unat f \<le> unat l \<and>
        Suc (unat l) < block_start p + block_size p"
      using host_addresses_bounds [OF p(4,2,3)] four by (auto split: prod.splits)
    then have "nd_type d = ''guest-only'' \<and> render_head hash d @ render_ip d p = render_head hash d @ ''</network>'' @ newline \<or>
        (\<exists>q. parse_prefix4 (nd_cidr d) = Some q \<and> render_head hash d @ render_ip d p = render_head hash d @ render_ip d q \<and>
          (case host_addresses q of (b, f, l) \<Rightarrow> block_start q < unat b \<and> unat b < unat f \<and> unat f \<le> unat l \<and>
            Suc (unat l) < block_start q + block_size q))"
      using p(1) by (intro disjI2 exI [of _ p] conjI refl)
    then show ?thesis unfolding doc sum.case using v by (rule conjI [rotated])
  qed
qed

end
