(* ===== verification/Network_Reservation.thy ===== *)
theory Network_Reservation
  imports Network_Profile Allocation Store
begin

text \<open>
  The recipe of a network creation and the reservation it leaves in the journal
  (\<^verbatim>\<open>internal/app/network_creation.go\<close>, \<^verbatim>\<open>internal/app/network_allocation.go\<close>): what makes a
  recipe acceptable, how a reservation is bound to the plan and the job that made it, and the
  list of all reservations. The strict JSON decoding of recipes and records is a parameter.
\<close>

section \<open>Recipes and records\<close>

record allocation_review =
  av_version :: int
  av_requested :: string
  av_config :: alloc_config
  av_digest :: string

record network_recipe =
  nr_version :: int
  nr_def :: network_def
  nr_metadata :: bytes
  nr_parent :: string
  nr_origin :: string
  nr_alloc :: "allocation_review option"

record network_record =
  nc_version :: int
  nc_connection :: string
  nc_job :: string
  nc_plan :: string
  nc_digest :: string
  nc_def :: network_def
  nc_metadata :: bytes

record network_env =
  ne_env :: env
  ne_recipe :: "bytes \<Rightarrow> network_recipe option"
  ne_record :: "bytes \<Rightarrow> network_record option"
  ne_marshal :: "network_record \<Rightarrow> bytes"
  ne_object :: "bytes \<Rightarrow> bool"
  ne_decoder :: "string \<Rightarrow> xml_token list \<times> string option"
  ne_hash :: "json \<Rightarrow> string"

definition record_kind :: string where
  "record_kind = ''network-creation-v1''"

definition system_uri :: string where
  "system_uri = ''qemu:///system''"

definition no_definition :: network_def where
  "no_definition = \<lparr>nd_uuid = [], nd_name = [], nd_bridge = [], nd_type = [], nd_cidr = [], nd_dhcp = False,
     nd_advertise = False, nd_ipv6 = [], nd_access = [], nd_egress = []\<rparr>"

definition no_record :: network_record where
  "no_record = \<lparr>nc_version = 0, nc_connection = [], nc_job = [], nc_plan = [], nc_digest = [],
     nc_def = no_definition, nc_metadata = []\<rparr>"

definition network_resources :: "string \<Rightarrow> network_def \<Rightarrow> string list" where
  "network_resources uri d = sort
     [key_string \<lparr>provider_id = ''libvirt'', connection_id = uri, key_kind = ''network'', key_uuid = nd_uuid d\<rparr>,
      key_string \<lparr>provider_id = ''libvirt'', connection_id = uri, key_kind = ''network-allocation'', key_uuid = ''host''\<rparr>]"

section \<open>The automatic selection\<close>

definition canonical_prefix :: "string \<Rightarrow> go_error + net_prefix" where
  "canonical_prefix s = (case parse_prefix s of
      Some p \<Rightarrow>
        if (case p of Prefix6 a b \<Rightarrow> is_4in6 a | _ \<Rightarrow> False) \<or> p \<noteq> prefix_masked p \<or> show_prefix p \<noteq> s
        then failr ''INVALID_INPUT'' ''expected canonical IPv4 or IPv6 CIDR'' else Inr p
    | None \<Rightarrow> failr ''INVALID_INPUT'' ''expected canonical IPv4 or IPv6 CIDR'')"

definition hex_digest :: "string \<Rightarrow> bool" where
  "hex_digest s \<longleftrightarrow> length s = 64 \<and> list_all lower_hex s"

fun selected_in :: "net_prefix \<Rightarrow> alloc_range \<Rightarrow> bool" where
  "selected_in (Prefix4 q) r = (int (p_bits q) = rg_len r \<and> (case parse_prefix (rg_cidr r) of
      Some pool \<Rightarrow> prefix_contains pool (Addr4 (p_addr q)) | None \<Rightarrow> False))"
| "selected_in (Prefix6 a b) r = (int b = rg_len r \<and> (case parse_prefix (rg_cidr r) of
      Some pool \<Rightarrow> prefix_contains pool (Addr6 a []) | None \<Rightarrow> False))"
| "selected_in Invalid_prefix r = False"

definition planned_meets :: "net_prefix \<Rightarrow> planned_alloc \<Rightarrow> bool" where
  "planned_meets q a = (case parse_prefix (pl_cidr a) of Some p \<Rightarrow> prefix_overlaps p q | None \<Rightarrow> False)"

definition validate_allocation :: "network_recipe \<Rightarrow> go_error + unit" where
  "validate_allocation r = (case nr_alloc r of
      None \<Rightarrow> Inr ()
    | Some a \<Rightarrow>
        if av_version a \<noteq> 1 \<or> av_requested a \<noteq> ''auto'' \<or> \<not> hex_digest (av_digest a) \<or>
           validate_allocation_config (av_config a) \<noteq> Inr ()
        then failr ''INVALID_INPUT'' ''invalid automatic subnet selection binding''
        else bindr (canonical_prefix (nd_cidr (nr_def r))) (\<lambda>q.
          if list_ex (selected_in q) (ac_ranges (av_config a)) \<and> \<not> list_ex (planned_meets q) (ac_planned (av_config a))
          then Inr ()
          else failr ''INVALID_INPUT'' ''selected subnet is outside its reviewed allocation settings''))"

section \<open>Parsing a recipe\<close>

definition recovery_shape :: "plan \<Rightarrow> network_recipe \<Rightarrow> bool" where
  "recovery_shape p r \<longleftrightarrow>
     plan_operation p = ''network.create'' \<and> nr_parent r = [] \<and> nr_origin r = [] \<or>
     plan_operation p = ''network.creation.resume'' \<and> nr_parent r \<noteq> [] \<and> nr_origin r \<noteq> []"

definition parse_network_recipe :: "network_env \<Rightarrow> plan \<Rightarrow> bytes \<Rightarrow> go_error + network_recipe" where
  "parse_network_recipe env p raw = (case ne_recipe env raw of
      None \<Rightarrow> failr ''INVALID_INPUT'' ''invalid managed network creation binding''
    | Some r \<Rightarrow>
        if nr_version r < 1 \<or> nr_version r \<noteq> policy_version (nr_def r) \<or> plan_connection p \<noteq> system_uri \<or>
           plan_resources p \<noteq> network_resources (plan_connection p) (nr_def r) \<or> plan_before p \<noteq> [] \<or>
           validate_network (nr_def r) \<noteq> Inr ()
        then failr ''INVALID_INPUT'' ''invalid managed network creation binding''
        else if \<not> recovery_shape p r then failr ''INVALID_INPUT'' ''invalid network recovery binding''
        else bindr (validate_allocation r) (\<lambda>_.
          if \<not> ne_object env (nr_metadata r) then failr ''INVALID_INPUT'' ''invalid network metadata'' else Inr r))"

section \<open>Reservations\<close>

text \<open>\<^verbatim>\<open>recordForRecipe\<close>: an absent reservation is the empty record.\<close>

definition record_for_recipe :: "network_env \<Rightarrow> db \<Rightarrow> plan \<Rightarrow> network_recipe \<Rightarrow> network_record tx" where
  "record_for_recipe env d p r = (case metadata_bytes record_kind (nd_uuid (nr_def r)) d of
      None \<Rightarrow> Inr no_record
    | Some raw \<Rightarrow>
        if raw = [] then Inr no_record
        else (case ne_record env raw of
          None \<Rightarrow> failr ''SOURCE_CHANGED'' ''network reservation differs from immutable recipe''
        | Some out \<Rightarrow>
            if nc_version out \<noteq> nr_version r \<or> nc_connection out \<noteq> plan_connection p \<or> nc_def out \<noteq> nr_def r \<or>
               nc_metadata out \<noteq> nr_metadata r
            then failr ''SOURCE_CHANGED'' ''network reservation differs from immutable recipe''
            else bindr (get_plan (nc_plan out) d) (\<lambda>(original, body).
              if plan_hash (ne_env env) original \<noteq> Inr (nc_digest out) \<or> nc_digest out \<noteq> plan_digest original
              then failr ''SOURCE_CHANGED'' ''original network plan integrity differs''
              else (case parse_network_recipe env original body of
                Inl e \<Rightarrow> failr ''SOURCE_CHANGED'' ''network reservation does not belong to original creation''
              | Inr recipe \<Rightarrow>
                  if nr_def recipe \<noteq> nr_def r \<or> nr_alloc recipe \<noteq> nr_alloc r \<or>
                     plan_operation original \<noteq> ''network.create'' \<or> plan_actor original \<noteq> plan_actor p
                  then failr ''SOURCE_CHANGED'' ''network reservation does not belong to original creation''
                  else if digest_raw (ne_env env) body \<noteq> Inr (plan_input_digest original)
                  then failr ''SOURCE_CHANGED'' ''original network input digest differs''
                  else (case get_job (nc_job out) d of
                    Inl e \<Rightarrow> failr ''SOURCE_CHANGED'' ''network reservation job binding differs''
                  | Inr j \<Rightarrow>
                      if job_id j \<noteq> nc_job out \<or> job_plan j \<noteq> nc_plan out
                      then failr ''SOURCE_CHANGED'' ''network reservation job binding differs''
                      else Inr out)))))"

definition record_intact :: "network_env \<Rightarrow> string \<Rightarrow> bytes \<Rightarrow> string list \<Rightarrow> network_record option" where
  "record_intact env i raw ids = (case ne_record env raw of
      None \<Rightarrow> None
    | Some rc \<Rightarrow>
        if nc_version rc < 1 \<or> nc_version rc \<noteq> policy_version (nc_def rc) \<or> nc_connection rc \<noteq> system_uri \<or>
           nc_job rc = [] \<or> nc_plan rc = [] \<or> length (nc_digest rc) \<noteq> 64 \<or> validate_network (nc_def rc) \<noteq> Inr () \<or>
           nd_uuid (nc_def rc) \<in> set ids \<or> i \<noteq> nd_uuid (nc_def rc)
        then None else Some rc)"

definition add_record :: "network_env \<Rightarrow> db \<Rightarrow> (string \<times> string) \<times> bytes \<Rightarrow> network_record list \<Rightarrow> network_record list tx" where
  "add_record env d entry rs =
     (if fst (fst entry) \<noteq> record_kind then Inr rs
      else if length rs \<ge> 4096 then failr ''INVALID_STATE'' ''network reservation limit''
      else case record_intact env (snd (fst entry)) (snd entry) (map (\<lambda>r. nd_uuid (nc_def r)) rs) of
        None \<Rightarrow> failr ''INVALID_STATE'' ''network reservation is corrupt; preserve allocations''
      | Some rc \<Rightarrow>
          bindr (get_plan (nc_plan rc) d) (\<lambda>(p, raw).
          bindr (parse_network_recipe env p raw) (\<lambda>recipe.
          case record_for_recipe env d p recipe of
            Inl e \<Rightarrow> failr ''SOURCE_CHANGED'' ''network reservation integrity differs; preserve allocations''
          | Inr verified \<Rightarrow>
              if nc_job verified = [] \<or> nc_def verified \<noteq> nc_def rc
              then failr ''SOURCE_CHANGED'' ''network reservation integrity differs; preserve allocations''
              else Inr (rs @ [rc]))))"

definition network_records :: "network_env \<Rightarrow> db \<Rightarrow> network_record list tx" where
  "network_records env d = foldr_res (add_record env d) (metadata_records d) []"

end
