(* ===== verification/Occupancy.thy ===== *)
theory Occupancy
  imports Network_Reservation
begin

text \<open>
  What already occupies address space (\<^verbatim>\<open>internal/app/host_inventory.go\<close>): reservations of the
  journal, planned allocations, the prefixes of the host's interfaces and routes, and every
  prefix declared by a libvirt network; the check of candidates against it, and the automatic
  choice of a subnet (\<^verbatim>\<open>internal/app/network_allocation.go\<close>). The polls of the context have no
  effect to undo and are one argument.
\<close>

section \<open>Observations\<close>

record cidr_input =
  ci_candidates :: "string list"
  ci_planned :: "planned_alloc list"

record conflict =
  cf_cidr :: string
  cf_source :: string
  cf_id :: string
  cf_index :: "32 word"
  cf_table :: "32 word"

record cidr_report =
  cd_candidates :: "(string \<times> conflict list) list"
  cd_digest :: string
  cd_ignored :: nat
  cd_warnings :: "string list"

record host_prefix =
  hp_cidr :: string
  hp_source :: string
  hp_index :: "32 word"
  hp_table :: "32 word"

record virtual_network =
  vn_uuid :: string
  vn_name :: string
  vn_active :: bool
  vn_persistent :: bool
  vn_autostart :: bool
  vn_live :: string
  vn_stored :: string

text \<open>
  The service as these functions see it: an optional journal, the optional observers of the
  host and of libvirt, the settings, and the digest of a list of conflicts (SHA-256 of its JSON).
\<close>

record service =
  sv_env :: network_env
  sv_db :: "db option"
  sv_host :: "(go_error + host_prefix list \<times> string list) option"
  sv_networks :: "(string \<Rightarrow> go_error + virtual_network list) option"
  sv_settings :: "(go_error + alloc_config) option"
  sv_digest :: "conflict list \<Rightarrow> string"

definition allocation_config :: "go_error option \<Rightarrow> service \<Rightarrow> go_error + alloc_config" where
  "allocation_config ctx s = (case ctx of Some e \<Rightarrow> Inl e | None \<Rightarrow>
     bindr (case sv_settings s of None \<Rightarrow> Inr default_allocation_config | Some r \<Rightarrow> r) (\<lambda>cfg.
       case validate_allocation_config cfg of
         Inl e \<Rightarrow> failr ''INVALID_INPUT'' (''invalid network allocation settings: '' @ error_text e)
       | Inr _ \<Rightarrow> Inr cfg))"

section \<open>Networks of other inventories\<close>

definition has_marker :: "network_env \<Rightarrow> string \<Rightarrow> bool" where
  "has_marker env raw = list_ex (\<lambda>t. case t of
      Start_element n as \<Rightarrow> n = (''urn:virmill:v1'', ''networkCreation'') | _ \<Rightarrow> False) (fst (ne_decoder env raw))"

definition matches :: "network_env \<Rightarrow> string \<Rightarrow> network_def \<Rightarrow> bool" where
  "matches env raw d \<longleftrightarrow> match_network (ne_decoder env) (ne_hash env) raw d = Inr ()"

definition foreign_profiles :: "network_def \<Rightarrow> network_def list" where
  "foreign_profiles d = concat (map (\<lambda>kind. concat (map (\<lambda>access. map (\<lambda>dhcp.
     d\<lparr>nd_type := kind, nd_egress := (if kind = ''nat'' then ''any'' else ''none''), nd_access := access, nd_dhcp := dhcp,
       nd_advertise := dhcp \<and> kind = ''nat''\<rparr>) [False, True]) [''allow'', ''services-only''])) [''nat'', ''lab''])"

definition matches_foreign :: "network_env \<Rightarrow> virtual_network \<Rightarrow> string \<Rightarrow> net_prefix list \<Rightarrow> planned_alloc list \<Rightarrow> bool" where
  "matches_foreign env n raw prefixes planned =
     (let bridge = ''vm'' @ without_dashes (vn_uuid n);
          d = \<lparr>nd_uuid = vn_uuid n, nd_name = vn_name n, nd_bridge = take 14 bridge, nd_type = ''guest-only'', nd_cidr = [],
               nd_dhcp = False, nd_advertise = False, nd_ipv6 = ''disabled'', nd_access = ''deny'', nd_egress = ''none''\<rparr>;
          listed = filter (\<lambda>a. pl_id a = vn_uuid n) planned in
      length bridge = 34 \<and>
      (matches env raw d \<or> list_ex (\<lambda>a. matches env raw (d\<lparr>nd_cidr := pl_cidr a\<rparr>)) listed \<or>
       (case prefixes of
          [p] \<Rightarrow> prefix_is4 p \<and> (let base = d\<lparr>nd_cidr := show_prefix p\<rparr> in list_ex (matches env raw) (foreign_profiles base))
        | _ \<Rightarrow> False)))"

section \<open>Occupancy\<close>

fun add_planned :: "planned_alloc list \<Rightarrow> string list \<Rightarrow> go_error + conflict list" where
  "add_planned [] ids = Inr []"
| "add_planned (a # as) ids =
     (if pl_id a \<in> set ids then failr ''INVALID_INPUT'' ''duplicate planned allocation ID''
      else bindr (canonical_prefix (pl_cidr a)) (\<lambda>_. bindr (add_planned as (pl_id a # ids)) (\<lambda>r.
        Inr (\<lparr>cf_cidr = pl_cidr a, cf_source = ''planned'', cf_id = pl_id a, cf_index = 0, cf_table = 0\<rparr> # r))))"

fun add_host :: "host_prefix list \<Rightarrow> go_error + conflict list \<times> nat" where
  "add_host [] = Inr ([], 0)"
| "add_host (h # hs) = (case canonical_prefix (hp_cidr h) of
      Inl e \<Rightarrow> failr ''INVALID_STATE'' ''invalid observed host prefix''
    | Inr p \<Rightarrow>
        if hp_source h \<noteq> ''address'' \<and> hp_source h \<noteq> ''route'' then failr ''INVALID_STATE'' ''unknown observed prefix source''
        else bindr (add_host hs) (\<lambda>(r, ignored).
          if hp_source h = ''route'' \<and> prefix_bits p = 0 then Inr (r, Suc ignored)
          else Inr (\<lparr>cf_cidr = hp_cidr h, cf_source = hp_source h, cf_id = [], cf_index = hp_index h, cf_table = hp_table h\<rparr> # r,
                 ignored)))"

definition layers :: "virtual_network \<Rightarrow> (string \<times> string) list" where
  "layers n = filter (\<lambda>(name, xml). xml \<noteq> []) [(''live'', vn_live n), (''persistent'', vn_stored n)]"

definition layer_conflicts ::
  "network_env \<Rightarrow> (string \<rightharpoonup> network_def) \<Rightarrow> planned_alloc list \<Rightarrow> virtual_network \<Rightarrow> string \<times> string \<Rightarrow> go_error + conflict list" where
  "layer_conflicts env known planned n layer =
     (case defined_prefixes (ne_decoder env) (snd layer) of
        Inl e \<Rightarrow> failr ''INVALID_STATE'' (''network '' @ vn_uuid n @ '' '' @ fst layer @ '': '' @ spec_text e)
      | Inr prefixes \<Rightarrow>
          bindr (case known (vn_uuid n) of
              Some d \<Rightarrow> match_network (ne_decoder env) (ne_hash env) (snd layer) d
            | None \<Rightarrow>
                if (has_prefix ''virmill-'' (vn_name n) \<or> has_marker env (snd layer)) \<and>
                   \<not> matches_foreign env n (snd layer) prefixes planned
                then failr ''UNRESOLVED_ALLOCATION'' (''managed network '' @ vn_uuid n @ '' has no exact observable or explicitly declared allocation; recover its owning inventory and declare its UUID/CIDR in planned settings'')
                else Inr ()) (\<lambda>_.
            Inr (map (\<lambda>p. \<lparr>cf_cidr = show_prefix p, cf_source = ''network-'' @ fst layer, cf_id = vn_uuid n, cf_index = 0, cf_table = 0\<rparr>)
              prefixes)))"

record network_scan =
  ws_bytes :: nat
  ws_out :: "conflict list"

definition scan_layer ::
  "network_env \<Rightarrow> (string \<rightharpoonup> network_def) \<Rightarrow> planned_alloc list \<Rightarrow> virtual_network \<Rightarrow> string \<times> string \<Rightarrow> network_scan \<Rightarrow>
   go_error + network_scan" where
  "scan_layer env known planned n layer st =
     (let total = ws_bytes st + length (snd layer) in
      if total > 16777216 then failr ''INVALID_STATE'' ''network XML observation limit''
      else bindr (layer_conflicts env known planned n layer) (\<lambda>cs.
        Inr \<lparr>ws_bytes = total, ws_out = ws_out st @ cs\<rparr>))"

definition incomplete_network :: "virtual_network \<Rightarrow> bool" where
  "incomplete_network n \<longleftrightarrow> \<not> vn_active n \<and> \<not> vn_persistent n \<or> vn_active n \<and> vn_live n = [] \<or>
     vn_persistent n \<and> vn_stored n = []"

fun scan_networks ::
  "network_env \<Rightarrow> (string \<rightharpoonup> network_def) \<Rightarrow> planned_alloc list \<Rightarrow> string \<Rightarrow> string list \<Rightarrow> virtual_network list \<Rightarrow>
   network_scan \<Rightarrow> go_error + network_scan" where
  "scan_networks env known planned exclude ids [] st = Inr st"
| "scan_networks env known planned exclude ids (n # ns) st =
     (if vn_uuid n = [] \<or> length (vn_uuid n) > 128 \<or> vn_uuid n \<in> set ids
      then failr ''INVALID_STATE'' ''missing or duplicate network identity''
      else if vn_uuid n = exclude then scan_networks env known planned exclude (vn_uuid n # ids) ns st
      else if incomplete_network n then failr ''INVALID_STATE'' ''network configuration observation incomplete''
      else bindr (foldr_res (scan_layer env known planned n) (layers n) st)
        (scan_networks env known planned exclude (vn_uuid n # ids) ns))"

definition reserved_conflicts :: "string \<Rightarrow> string \<Rightarrow> network_record list \<Rightarrow> conflict list" where
  "reserved_conflicts uri exclude rs =
     map (\<lambda>r. \<lparr>cf_cidr = nd_cidr (nc_def r), cf_source = ''application-reservation'', cf_id = nd_uuid (nc_def r),
            cf_index = 0, cf_table = 0\<rparr>)
       (filter (\<lambda>r. nc_connection r = uri \<and> nd_uuid (nc_def r) \<noteq> exclude \<and> nd_cidr (nc_def r) \<noteq> []) rs)"

definition known_networks :: "string \<Rightarrow> network_record list \<Rightarrow> string \<rightharpoonup> network_def" where
  "known_networks uri rs = map_of (rev (map (\<lambda>r. (nd_uuid (nc_def r), nc_def r)) (filter (\<lambda>r. nc_connection r = uri) rs)))"

definition sort_conflicts :: "conflict list \<Rightarrow> conflict list" where
  "sort_conflicts cs = sort_key cf_cidr (sort_key cf_source (sort_key cf_id (sort_key cf_index (sort_key cf_table cs))))"

definition observe_occupancy ::
  "go_error option \<Rightarrow> service \<Rightarrow> string \<Rightarrow> planned_alloc list \<Rightarrow> string \<Rightarrow> go_error + conflict list \<times> cidr_report" where
  "observe_occupancy ctx s uri planned exclude =
     bindr (case sv_db s of None \<Rightarrow> Inr [] | Some d \<Rightarrow> network_records (sv_env s) d) (\<lambda>rs.
     bindr (add_planned planned []) (\<lambda>plans.
     case sv_host s of
       None \<Rightarrow> failr ''UNSUPPORTED_CAPABILITY'' ''host prefix observation unavailable''
     | Some host \<Rightarrow>
       (case sv_networks s of
          None \<Rightarrow> failr ''UNSUPPORTED_CAPABILITY'' ''native network inventory unavailable''
        | Some list_networks \<Rightarrow>
          bindr host (\<lambda>(hps, warnings).
          if length hps > 65536 then failr ''INVALID_STATE'' ''host prefix observation limit''
          else bindr (add_host hps) (\<lambda>(hosts, ignored).
          bindr (list_networks uri) (\<lambda>ns.
          if length ns > 4096 then failr ''INVALID_STATE'' ''network observation limit''
          else case ctx of Some e \<Rightarrow> Inl e | None \<Rightarrow>
          bindr (scan_networks (sv_env s) (known_networks uri rs) planned exclude [] ns \<lparr>ws_bytes = 0, ws_out = []\<rparr>) (\<lambda>st.
          let occupied = reserved_conflicts uri exclude rs @ plans @ hosts @ ws_out st in
          if length occupied > 65536 then failr ''INVALID_STATE'' ''combined allocation observation limit''
          else let sorted = sort_conflicts occupied in
            Inr (sorted, \<lparr>cd_candidates = [], cd_digest = sv_digest s sorted, cd_ignored = ignored, cd_warnings = warnings\<rparr>))))))))"

section \<open>Checking candidates\<close>

record request =
  rq_connection :: string
  rq_id :: string
  rq_action :: string
  rq_path :: string
  rq_after :: int
  rq_apply :: bool
  rq_input :: json

definition overlaps_text :: "net_prefix \<Rightarrow> conflict \<Rightarrow> bool" where
  "overlaps_text p c = (case parse_prefix (cf_cidr c) of Some q \<Rightarrow> prefix_overlaps p q | None \<Rightarrow> False)"

fun canonical_all :: "string list \<Rightarrow> go_error + net_prefix list" where
  "canonical_all [] = Inr []"
| "canonical_all (c # cs) = bindr (canonical_prefix c) (\<lambda>p. bindr (canonical_all cs) (\<lambda>ps. Inr (p # ps)))"

definition cidr_notes :: "string list" where
  "cidr_notes = [''Read-only observation is not atomic and reserves no CIDR. Recheck immediately before any reviewed network change.'',
     ''All host route tables are considered, including inactive policy routes; only route /0 defaults are excluded. Configured network and planned /0 allocations still conflict.'',
     ''No packet routing, isolation, passthrough or guest behavior has been verified.'']"

text \<open>\<open>decode\<close> is the schema check and the strict decoding of the input.\<close>

definition check_cidrs ::
  "go_error option \<Rightarrow> service \<Rightarrow> (json \<Rightarrow> go_error + cidr_input) \<Rightarrow> request \<Rightarrow> string \<Rightarrow> go_error + cidr_report" where
  "check_cidrs ctx s decode r exclude = (case ctx of Some e \<Rightarrow> Inl e | None \<Rightarrow>
     if rq_connection r \<noteq> system_uri \<and> rq_connection r \<noteq> ''qemu:///session''
     then failr ''UNSUPPORTED_CAPABILITY'' ''CIDR observation requires an explicit local qemu connection''
     else if rq_id r \<noteq> [] \<or> rq_path r \<noteq> [] \<or> rq_action r \<noteq> [] \<or> rq_after r \<noteq> 0 \<or> rq_apply r
     then failr ''INVALID_INPUT'' ''CIDR check accepts only input and a local connection''
     else bindr (decode (rq_input r)) (\<lambda>inp.
       bindr (canonical_all (ci_candidates inp)) (\<lambda>candidates.
       bindr (allocation_config ctx s) (\<lambda>cfg.
       bindr (observe_occupancy ctx s (rq_connection r) (ci_planned inp @ ac_planned cfg) exclude) (\<lambda>(occupied, report).
         let items = map (\<lambda>(c, p). (c, filter (overlaps_text p) occupied)) (zip (ci_candidates inp) candidates) in
         if sum_list (map (\<lambda>i. length (snd i)) items) > 8192
         then failr ''INVALID_STATE'' ''CIDR conflict response limit; reduce the candidate set''
         else Inr (report\<lparr>cd_candidates := items, cd_warnings := cd_warnings report @ cidr_notes\<rparr>))))))"

definition allocate_network_cidr :: "go_error option \<Rightarrow> service \<Rightarrow> string \<Rightarrow> go_error + string \<times> allocation_review" where
  "allocate_network_cidr ctx s uri =
     bindr (allocation_config ctx s) (\<lambda>cfg.
     bindr (observe_occupancy ctx s uri (ac_planned cfg) []) (\<lambda>(occupied, report).
     bindr (canonical_all (map cf_cidr occupied)) (\<lambda>prefixes.
     bindr (allocate_configured ctx cfg prefixes) (\<lambda>chosen.
       Inr (show_prefix4 chosen, \<lparr>av_version = 1, av_requested = ''auto'', av_config = cfg, av_digest = cd_digest report\<rparr>)))))"

end
