(* ===== verification/Occupancy_Laws.thy ===== *)
theory Occupancy_Laws
  imports Occupancy
begin

text \<open>
  What the observation of occupied space guarantees: nothing observed is dropped, the report
  lists exactly the conflicts, and an automatically chosen subnet meets nothing observed and
  passes the validation of the recipe that records the choice.
\<close>

section \<open>Canonical texts\<close>

lemma canonical_prefix_Inr:
  "canonical_prefix s = Inr p \<Longrightarrow> parse_prefix s = Some p \<and> prefix_masked p = p \<and> show_prefix p = s"
  by (auto simp: canonical_prefix_def split: option.splits if_splits)

lemma canonical_all_Inr:
  "canonical_all cs = Inr ps \<Longrightarrow> list_all2 (\<lambda>c p. parse_prefix c = Some p) cs ps"
  by (induction cs arbitrary: ps) (auto dest: canonical_prefix_Inr)

lemma canonical_show4: "valid4 q \<Longrightarrow> masked q = q \<Longrightarrow> canonical_prefix (show_prefix4 q) = Inr (Prefix4 q)"
proof -
  assume q: "valid4 q" "masked q = q"
  then have "parse_prefix (show_prefix4 q) = Some (Prefix4 q)" using parse_show_prefix4 parse_prefix_Prefix4 by blast
  then show ?thesis using q by (simp add: canonical_prefix_def)
qed

lemma masked_contained: "block q \<subseteq> block p \<Longrightarrow> valid4 q \<Longrightarrow> masked q = q \<Longrightarrow> contains4 p (p_addr q)"
proof -
  assume sub: "block q \<subseteq> block p" and q: "valid4 q" "masked q = q"
  have "unat (p_addr q) = block_start q" using q(2) unat_masked [of q] by metis
  then have "unat (p_addr q) \<in> block q" using block_size_pos [of q] by (simp add: block_def)
  then show ?thesis using sub unfolding contains4_iff by blast
qed

lemma unit_sum: "(\<forall>e. x \<noteq> Inl e) \<longleftrightarrow> x = Inr ()"
  by (cases x) auto

section \<open>The automatic choice\<close>

lemma sort_conflicts_set [simp]: "set (sort_conflicts cs) = set cs"
  by (simp add: sort_conflicts_def)

lemma selected_subnet:
  assumes "subnet_of r q" and v: "valid4 q"
  shows "selected_in (Prefix4 q) r"
proof -
  obtain p where p: "private_prefix (rg_cidr r) = Some p" "int (p_bits q) = rg_len r" "masked q = q" "block q \<subseteq> block p"
    using assms(1) unfolding subnet_of_def by blast
  have "parse_prefix (rg_cidr r) = Some (Prefix4 p)" "valid4 p"
    using private_prefix_Some [OF p(1)] parse_prefix_Prefix4 by blast+
  then show ?thesis using p(2) masked_contained [OF p(4) v p(3)] by simp
qed

lemma planned_not_taken:
  assumes "\<not> taken c occ q" and "validate_allocation_config c = Inr ()"
  shows "\<not> list_ex (planned_meets (Prefix4 q)) (ac_planned c)"
proof
  assume "list_ex (planned_meets (Prefix4 q)) (ac_planned c)"
  then obtain a where a: "a \<in> set (ac_planned c)" "planned_meets (Prefix4 q) a" by (auto simp: list_ex_iff)
  have "check_planned 0 (ac_planned c) [] = Inr ()"
    using assms(2) by (auto simp: validate_allocation_config_def split: if_splits)
  then obtain p where p: "private_prefix (pl_cidr a) = Some p" using check_planned_Inr a(1) by blast
  then have "parse_prefix (pl_cidr a) = Some (Prefix4 p)" using private_prefix_Some parse_prefix_Prefix4 by blast
  then have "overlaps4 p q" using a(2) by (simp add: planned_meets_def)
  then show False using assms(1) a(1) p unfolding taken_def by blast
qed

lemma not_taken_apart:
  assumes pre: "canonical_all (map cf_cidr occ) = Inr prefixes" and free: "\<not> taken cfg prefixes q"
    and c: "c \<in> set occ" "parse_prefix (cf_cidr c) = Some p"
  shows "\<not> prefix_overlaps (Prefix4 q) p"
proof -
  obtain k where k: "k < length occ" "occ ! k = c" using c(1) by (auto simp: in_set_conv_nth)
  have l: "list_all2 (\<lambda>c p. parse_prefix c = Some p) (map cf_cidr occ) prefixes" by (rule canonical_all_Inr [OF pre])
  then have "parse_prefix (cf_cidr c) = Some (prefixes ! k)" using list_all2_nthD [OF l, of k] k by simp
  then have "p \<in> set prefixes" using c(2) k list_all2_lengthD [OF l] by simp
  then have none: "\<not> overlaps4 x q" if "p = Prefix4 x" for x using free that unfolding taken_def by blast
  show ?thesis
  proof
    assume "prefix_overlaps (Prefix4 q) p"
    then obtain x where x: "p = Prefix4 x" "overlaps4 q x" by (cases p) simp_all
    then have "overlaps4 x q" using overlaps4_common by blast
    then show False using none [OF x(1)] by blast
  qed
qed

text \<open>
  C24. A subnet chosen automatically shares no address with anything observed, reserved or
  planned, and the recipe that records the choice passes its own validation (given that the
  recorded digest is 64 lower-case hexadecimal digits).
\<close>

theorem automatic_subnet_sound:
  "case allocate_network_cidr ctx s uri of
     Inl e \<Rightarrow> True
   | Inr (cidr, review) \<Rightarrow>
       (\<exists>occ rep. observe_occupancy ctx s uri (ac_planned (av_config review)) [] = Inr (occ, rep) \<and>
          (\<nexists>c p q a. c \<in> set occ \<and> parse_prefix cidr = Some p \<and> parse_prefix (cf_cidr c) = Some q \<and>
             prefix_contains p a \<and> prefix_contains q a)) \<and>
       validate_allocation (r\<lparr>nr_alloc := Some review, nr_def := d\<lparr>nd_cidr := cidr\<rparr>\<rparr>) =
         (if hex_digest (av_digest review) then Inr ()
          else failr ''INVALID_INPUT'' ''invalid automatic subnet selection binding'')"
proof (cases "allocate_network_cidr ctx s uri")
  case (Inr res)
  then obtain cfg occ rep prefixes q where cfg: "allocation_config ctx s = Inr cfg"
    and obs: "observe_occupancy ctx s uri (ac_planned cfg) [] = Inr (occ, rep)"
    and pre: "canonical_all (map cf_cidr occ) = Inr prefixes" and q: "allocate_configured ctx cfg prefixes = Inr q"
    and res: "res = (show_prefix4 q, \<lparr>av_version = 1, av_requested = ''auto'', av_config = cfg, av_digest = cd_digest rep\<rparr>)"
    by (auto simp: allocate_network_cidr_def)
  have val: "validate_allocation_config cfg = Inr ()"
    using cfg unit_sum [of "validate_allocation_config cfg"] unit_sum
    by (auto simp: allocation_config_def split: option.splits sum.splits)
  have ctx: "ctx = None" using q by (cases ctx) (auto simp: allocate_configured_def)
  obtain i where i: "i < length (ac_ranges cfg)" "subnet_of (ac_ranges cfg ! i) q" "\<not> taken cfg prefixes q"
    using allocate_configured_spec [of cfg prefixes] q unfolding ctx by auto
  have "check_ranges 0 (ac_ranges cfg) [] = Inr ()"
    using val by (auto simp: validate_allocation_config_def split: if_splits)
  then have "rg_len (ac_ranges cfg ! i) \<le> 30" using check_ranges_Inr nth_mem [OF i(1)] by blast
  then have v: "valid4 q" "masked q = q" using i(2) unfolding subnet_of_def valid4_def by auto
  have text4: "parse_prefix (show_prefix4 q) = Some (Prefix4 q)"
    using parse_show_prefix4 [OF v(1)] parse_prefix_Prefix4 by blast
  have "\<not> prefix_overlaps (Prefix4 q) p" if c: "c \<in> set occ" "parse_prefix (cf_cidr c) = Some p" for c p
    by (rule not_taken_apart [OF pre i(3) c])
  then have apart: "\<nexists>c p q' a. c \<in> set occ \<and> parse_prefix (show_prefix4 q) = Some p \<and> parse_prefix (cf_cidr c) = Some q' \<and>
      prefix_contains p a \<and> prefix_contains q' a"
    using text4 prefix_overlaps_iff by fastforce
  have sel: "list_ex (selected_in (Prefix4 q)) (ac_ranges cfg)"
    using selected_subnet [OF i(2) v(1)] i(1) by (auto simp: list_ex_iff)
  have "validate_allocation (r\<lparr>nr_alloc := Some \<lparr>av_version = 1, av_requested = ''auto'', av_config = cfg, av_digest = x\<rparr>,
      nr_def := d\<lparr>nd_cidr := show_prefix4 q\<rparr>\<rparr>) = (if hex_digest x then Inr ()
      else failr ''INVALID_INPUT'' ''invalid automatic subnet selection binding'')" for x
    using val sel planned_not_taken [OF i(3) val] canonical_show4 [OF v] by (simp add: validate_allocation_def)
  then show ?thesis using Inr res obs apart by simp
qed simp

section \<open>Nothing observed is dropped\<close>

definition recorded :: "conflict list \<Rightarrow> string \<Rightarrow> bool" where
  "recorded occ cidr \<longleftrightarrow> cidr \<in> cf_cidr ` set occ"

definition layer_recorded :: "network_env \<Rightarrow> conflict list \<Rightarrow> string \<times> string \<Rightarrow> bool" where
  "layer_recorded env occ l \<longleftrightarrow> (case defined_prefixes (ne_decoder env) (snd l) of
      Inl e \<Rightarrow> False | Inr ps \<Rightarrow> list_all (\<lambda>p. recorded occ (show_prefix p)) ps)"

definition host_recorded :: "conflict list \<Rightarrow> host_prefix \<Rightarrow> bool" where
  "host_recorded occ h \<longleftrightarrow> recorded occ (hp_cidr h) \<or>
     hp_source h = ''route'' \<and> (\<exists>p. parse_prefix (hp_cidr h) = Some p \<and> prefix_bits p = 0)"

lemma recorded_mono: "recorded occ c \<Longrightarrow> set occ \<subseteq> set occ' \<Longrightarrow> recorded occ' c"
  by (auto simp: recorded_def)

lemma layer_recorded_mono: "layer_recorded env occ l \<Longrightarrow> set occ \<subseteq> set occ' \<Longrightarrow> layer_recorded env occ' l"
  by (auto simp: layer_recorded_def list_all_iff intro: recorded_mono split: sum.splits)

lemma add_planned_recorded: "add_planned as ids = Inr cs \<Longrightarrow> map cf_cidr cs = map pl_cidr as"
  by (induction as arbitrary: ids cs) (auto split: if_splits)

lemma host_recorded_mono: "host_recorded occ h \<Longrightarrow> set occ \<subseteq> set occ' \<Longrightarrow> host_recorded occ' h"
  by (auto simp: host_recorded_def intro: recorded_mono)

lemma add_host_recorded: "add_host hs = Inr (cs, n) \<Longrightarrow> list_all (host_recorded cs) hs"
proof (induction hs arbitrary: cs n)
  case (Cons h hs)
  then obtain p r m where p: "canonical_prefix (hp_cidr h) = Inr p" and r: "add_host hs = Inr (r, m)"
    and cs: "if hp_source h = ''route'' \<and> prefix_bits p = 0 then cs = r
      else cs = \<lparr>cf_cidr = hp_cidr h, cf_source = hp_source h, cf_id = [], cf_index = hp_index h, cf_table = hp_table h\<rparr> # r"
    by (auto split: sum.splits if_splits)
  have sub: "set r \<subseteq> set cs" using cs by (auto split: if_splits)
  have "host_recorded cs h" using cs canonical_prefix_Inr [OF p] by (auto simp: host_recorded_def recorded_def split: if_splits)
  then show ?case using Cons.IH [OF r] host_recorded_mono sub by (auto simp: list_all_iff)
qed simp

lemma scan_layer_recorded:
  assumes "scan_layer env known planned n l st = Inr st'"
  shows "set (ws_out st) \<subseteq> set (ws_out st') \<and> layer_recorded env (ws_out st') l"
proof -
  obtain cs where cs: "layer_conflicts env known planned n l = Inr cs" and out: "ws_out st' = ws_out st @ cs"
    using assms by (auto simp: scan_layer_def Let_def split: if_splits)
  obtain ps where ps: "defined_prefixes (ne_decoder env) (snd l) = Inr ps" and "map cf_cidr cs = map show_prefix ps"
    using cs by (auto simp: layer_conflicts_def split: sum.splits)
  then have "show_prefix p \<in> cf_cidr ` set cs" if "p \<in> set ps" for p using that by (metis image_eqI image_set)
  then show ?thesis using ps out by (auto simp: layer_recorded_def recorded_def list_all_iff)
qed

lemma scan_layers_recorded:
  "foldr_res (scan_layer env known planned n) ls st = Inr st' \<Longrightarrow>
     set (ws_out st) \<subseteq> set (ws_out st') \<and> list_all (layer_recorded env (ws_out st')) ls"
proof (induction ls arbitrary: st)
  case (Cons l ls)
  then obtain st1 where st1: "scan_layer env known planned n l st = Inr st1"
    "foldr_res (scan_layer env known planned n) ls st1 = Inr st'" by auto
  show ?case using scan_layer_recorded [OF st1(1)] Cons.IH [OF st1(2)]
      layer_recorded_mono [of env "ws_out st1" l "ws_out st'"] by auto
qed simp

definition network_recorded :: "network_env \<Rightarrow> string \<Rightarrow> conflict list \<Rightarrow> virtual_network \<Rightarrow> bool" where
  "network_recorded env exclude occ n \<longleftrightarrow> vn_uuid n = exclude \<or> list_all (layer_recorded env occ) (layers n)"

lemma scan_networks_recorded:
  "scan_networks env known planned exclude ids ns st = Inr st' \<Longrightarrow>
     set (ws_out st) \<subseteq> set (ws_out st') \<and> list_all (network_recorded env exclude (ws_out st')) ns"
proof (induction ns arbitrary: ids st)
  case (Cons n ns)
  show ?case
  proof (cases "vn_uuid n = exclude")
    case True
    then have "scan_networks env known planned exclude (vn_uuid n # ids) ns st = Inr st'"
      using Cons.prems by (auto split: if_splits)
    from Cons.IH [OF this] show ?thesis using True by (simp add: network_recorded_def)
  next
    case False
    then obtain st1 where st1: "foldr_res (scan_layer env known planned n) (layers n) st = Inr st1"
      "scan_networks env known planned exclude (vn_uuid n # ids) ns st1 = Inr st'"
      using Cons.prems by (auto split: if_splits)
    have "list_all (layer_recorded env (ws_out st')) (layers n)"
      using scan_layers_recorded [OF st1(1)] Cons.IH [OF st1(2)] layer_recorded_mono by (auto simp: list_all_iff)
    then show ?thesis using scan_layers_recorded [OF st1(1)] Cons.IH [OF st1(2)] by (auto simp: network_recorded_def)
  qed
qed simp

definition reservation_recorded :: "string \<Rightarrow> string \<Rightarrow> conflict list \<Rightarrow> network_record \<Rightarrow> bool" where
  "reservation_recorded uri exclude occ r \<longleftrightarrow> recorded occ (nd_cidr (nc_def r)) \<or> nd_cidr (nc_def r) = [] \<or>
     nd_uuid (nc_def r) = exclude \<or> nc_connection r \<in> - {uri}"

lemma reserved_recorded: "list_all (reservation_recorded uri exclude (reserved_conflicts uri exclude rs)) rs"
  by (auto simp: list_all_iff reservation_recorded_def recorded_def reserved_conflicts_def image_iff)

text \<open>
  C25. An observation of occupied space is complete: every reservation of the journal on that
  connection, every planned allocation, every host address and every host route but a default
  one, and every prefix declared by either layer of any other libvirt network is in it; a
  source that cannot be read makes the observation fail.
\<close>

theorem occupancy_complete:
  "case observe_occupancy ctx s uri planned exclude of
     Inl e \<Rightarrow> True
   | Inr (occ, rep) \<Rightarrow> (\<exists>rs hps ws listing ns.
       (case sv_db s of None \<Rightarrow> rs = [] | Some d \<Rightarrow> network_records (sv_env s) d = Inr rs) \<and>
       sv_host s = Some (Inr (hps, ws)) \<and> sv_networks s = Some listing \<and> listing uri = Inr ns \<and>
       list_all (reservation_recorded uri exclude occ) rs \<and> list_all (\<lambda>a. recorded occ (pl_cidr a)) planned \<and>
       list_all (host_recorded occ) hps \<and> list_all (network_recorded (sv_env s) exclude occ) ns)"
proof (cases "observe_occupancy ctx s uri planned exclude")
  case (Inr res)
  obtain h where h: "sv_host s = Some h" using Inr by (cases "sv_host s") (auto simp: observe_occupancy_def)
  obtain l where l: "sv_networks s = Some l" using Inr h by (cases "sv_networks s") (auto simp: observe_occupancy_def)
  have ctx: "ctx = None"
    using Inr h l by (cases ctx) (auto simp: observe_occupancy_def Let_def split: if_splits)
  obtain rs plans hps ws hosts ign listing ns st where
    rs: "(case sv_db s of None \<Rightarrow> Inr [] | Some d \<Rightarrow> network_records (sv_env s) d) = Inr rs"
    and plans: "add_planned planned [] = Inr plans" and host: "sv_host s = Some (Inr (hps, ws))"
    and hosts: "add_host hps = Inr (hosts, ign)" and net: "sv_networks s = Some listing" "listing uri = Inr ns"
    and st: "scan_networks (sv_env s) (known_networks uri rs) planned exclude [] ns \<lparr>ws_bytes = 0, ws_out = []\<rparr> = Inr st"
    and res: "fst res = sort_conflicts (reserved_conflicts uri exclude rs @ plans @ hosts @ ws_out st)"
    using Inr unfolding observe_occupancy_def h l ctx by (auto simp: Let_def split: if_splits)
  obtain occ rep where occ: "res = (occ, rep)" by fastforce
  have parts: "set (reserved_conflicts uri exclude rs) \<subseteq> set occ" "set plans \<subseteq> set occ" "set hosts \<subseteq> set occ"
    "set (ws_out st) \<subseteq> set occ" using res occ by auto
  have "list_all (reservation_recorded uri exclude occ) rs"
    using reserved_recorded [of uri exclude rs] recorded_mono [OF _ parts(1)]
    unfolding list_all_iff reservation_recorded_def by blast
  moreover have "recorded occ (pl_cidr a)" if "a \<in> set planned" for a
  proof -
    have "pl_cidr a \<in> set (map cf_cidr plans)" using add_planned_recorded [OF plans] that by simp
    then show ?thesis using parts(2) by (auto simp: recorded_def)
  qed
  moreover have "list_all (host_recorded occ) hps"
    using add_host_recorded [OF hosts] host_recorded_mono [OF _ parts(3)] by (auto simp: list_all_iff)
  moreover have "network_recorded (sv_env s) exclude occ n" if "n \<in> set ns" for n
    using scan_networks_recorded [OF st] that layer_recorded_mono [OF _ parts(4)]
    unfolding network_recorded_def list_all_iff by blast
  moreover have "case sv_db s of None \<Rightarrow> rs = [] | Some d \<Rightarrow> network_records (sv_env s) d = Inr rs"
    using rs by (auto split: option.splits)
  ultimately show ?thesis using Inr occ host net unfolding list_all_iff by auto
qed simp

text \<open>
  The report of a check lists the candidates in their order, each with exactly those
  entries of the observation that share an address with it.
\<close>

theorem cidr_report_exact:
  "case check_cidrs ctx s decode r exclude of
     Inl e \<Rightarrow> True
   | Inr rep \<Rightarrow> (\<exists>inp cfg occ rep0. decode (rq_input r) = Inr inp \<and> allocation_config ctx s = Inr cfg \<and>
       observe_occupancy ctx s (rq_connection r) (ci_planned inp @ ac_planned cfg) exclude = Inr (occ, rep0) \<and>
       map fst (cd_candidates rep) = ci_candidates inp \<and>
       list_all (\<lambda>(c, cs). \<exists>p. parse_prefix c = Some p \<and>
         cs = filter (\<lambda>o'. \<exists>q a. parse_prefix (cf_cidr o') = Some q \<and> prefix_contains p a \<and> prefix_contains q a) occ)
         (cd_candidates rep))"
proof (cases "check_cidrs ctx s decode r exclude")
  case (Inr rep)
  then obtain inp cs cfg occ rep0 where d: "decode (rq_input r) = Inr inp" and cs: "canonical_all (ci_candidates inp) = Inr cs"
    and cfg: "allocation_config ctx s = Inr cfg"
    and occ: "observe_occupancy ctx s (rq_connection r) (ci_planned inp @ ac_planned cfg) exclude = Inr (occ, rep0)"
    and rep: "cd_candidates rep = map (\<lambda>(c, p). (c, filter (overlaps_text p) occ)) (zip (ci_candidates inp) cs)"
    by (auto simp: check_cidrs_def Let_def split: option.splits if_splits)
  have l: "list_all2 (\<lambda>c p. parse_prefix c = Some p) (ci_candidates inp) cs" by (rule canonical_all_Inr [OF cs])
  have len: "length (ci_candidates inp) = length cs" by (rule list_all2_lengthD [OF l])
  have "overlaps_text p = (\<lambda>o'. \<exists>q a. parse_prefix (cf_cidr o') = Some q \<and> prefix_contains p a \<and> prefix_contains q a)" for p
    by (rule ext) (auto simp: overlaps_text_def prefix_overlaps_iff split: option.splits)
  then have "list_all (\<lambda>(c, cs). \<exists>p. parse_prefix c = Some p \<and>
      cs = filter (\<lambda>o'. \<exists>q a. parse_prefix (cf_cidr o') = Some q \<and> prefix_contains p a \<and> prefix_contains q a) occ) (cd_candidates rep)"
    using l unfolding rep list_all2_iff list_all_iff by auto
  moreover have "map fst (cd_candidates rep) = ci_candidates inp"
  proof -
    have "map fst (cd_candidates rep) = map fst (zip (ci_candidates inp) cs)" unfolding rep by (simp add: case_prod_beta comp_def)
    then show ?thesis using len by simp
  qed
  ultimately show ?thesis using Inr d cfg occ by auto
qed simp

end
