(* ===== verification/Network_Creation.thy ===== *)
theory Network_Creation
  imports Occupancy Store_Laws
begin

text \<open>
  The workflow that creates a managed network (\<^verbatim>\<open>networkCreationHandler\<close> and
  \<^verbatim>\<open>networkResumeHandler\<close> of \<^verbatim>\<open>internal/app/network_creation.go\<close>): its validation, the effects
  of its three steps on the journal and on the host, the observation that settles a step, and
  the binding of a recovery to its parent. \<open>'w\<close> is the host: libvirt's networks and the
  firewall, changed only through the provider and the privileged helper, which are parameters.
  The operation identity of the Go context is the argument \<open>op\<close>, its error \<open>ctx\<close>.
\<close>

section \<open>Steps, acknowledgements and resources of the plan\<close>

definition network_step :: "string \<Rightarrow> string \<Rightarrow> string \<Rightarrow> step" where
  "network_step i action predicate = \<lparr>step_id = i, step_action = action,
     step_preconditions = [''exact new network identity'', ''no conflicting host or reserved prefix'', ''exclusive network writer''],
     step_idempotency = ''non-repeatable'',
     step_compensation = ''Retain this network and its subnet reservation for reviewed recovery; never remove unrelated resources'',
     step_reconciliation = ''Observe the exact journal-bound network without replaying definition or activation'',
     step_completion = predicate\<rparr>"

definition network_steps :: "bool \<Rightarrow> network_def \<Rightarrow> step list" where
  "network_steps resume d =
     (if resume then [] else [network_step ''define'' ''network.define'' ''Exact persistent network exists and is inactive with autostart disabled'']) @
     (if policy_version d = 2 then
        [network_step ''firewall'' ''network.policy-filter'' ''Exact host-access and IPv6 rules are present in runtime and permanent configuration with verified host-input chain ordering'',
         network_step ''activate'' ''network.activate'' ''Exact persistent network is active with autostart disabled and protected policy rules present; packet and guest behavior remain unverified'']
      else
        [network_step ''firewall'' ''network.ipv6-filter'' ''Exact bridge IPv6 deny rules are present in firewalld runtime and permanent configuration'',
         network_step ''activate'' ''network.activate'' ''Exact persistent network is active with autostart disabled and IPv6 deny rules present; packet and guest behavior remain unverified''])"

definition network_acknowledgements :: "string list" where
  "network_acknowledgements = [''host-mutation'', ''network-host-access'', ''network-firewall'', ''exclusive-network-writer'']"

section \<open>The host\<close>

record 'w provider =
  np_check :: "'w \<Rightarrow> string \<Rightarrow> network_def \<Rightarrow> go_error option"
  np_define :: "'w \<Rightarrow> string \<Rightarrow> network_def \<Rightarrow> 'w \<times> go_error option"
  np_activate :: "'w \<Rightarrow> string \<Rightarrow> network_def \<Rightarrow> 'w \<times> go_error option"
  np_inspect :: "'w \<Rightarrow> string \<Rightarrow> network_def \<Rightarrow> virtual_network tx"

record 'w firewall =
  fw_check :: "'w \<Rightarrow> plan \<Rightarrow> network_def \<Rightarrow> go_error option"
  fw_apply :: "'w \<Rightarrow> plan \<Rightarrow> network_def \<Rightarrow> string \<Rightarrow> 'w \<times> go_error option"
  fw_observe :: "'w \<Rightarrow> plan \<Rightarrow> network_def \<Rightarrow> string \<Rightarrow> go_error option"

record 'w network_service =
  ns_env :: network_env
  ns_view :: "'w \<Rightarrow> db \<Rightarrow> service"
  ns_decode :: "json \<Rightarrow> go_error + cidr_input"
  ns_provider :: "'w provider option"
  ns_firewall :: "'w firewall option"

section \<open>The subnet is still free\<close>

definition cidr_request :: "string \<Rightarrow> string \<Rightarrow> request" where
  "cidr_request uri cidr = \<lparr>rq_connection = uri, rq_id = [], rq_action = [], rq_path = [], rq_after = 0, rq_apply = False,
     rq_input = JObj [(''candidates'', JArr [JStr cidr])]\<rparr>"

definition check_network_cidr ::
  "go_error option \<Rightarrow> 'w network_service \<Rightarrow> 'w \<Rightarrow> db \<Rightarrow> string \<Rightarrow> network_def \<Rightarrow> string \<Rightarrow> go_error + unit" where
  "check_network_cidr ctx s w d uri def exclude =
     (if nd_cidr def = [] \<and> nd_type def = ''guest-only''
      then bindr (network_records (ns_env s) d) (\<lambda>_. opt_err ctx)
      else bindr (check_cidrs ctx (ns_view s w d) (ns_decode s) (cidr_request uri (nd_cidr def)) exclude) (\<lambda>rep.
        case cd_candidates rep of
          [(c, cs)] \<Rightarrow>
            if cs \<noteq> [] then failr ''CIDR_CONFLICT'' (''subnet '' @ nd_cidr def @ '' conflicts with '' @ show_nat (length cs) @
              '' observed or reserved allocations; run network cidr check'')
            else opt_err ctx
        | _ \<Rightarrow> failr ''INVALID_STATE'' ''incomplete subnet observation''))"

section \<open>Recovery\<close>

definition check_parent :: "go_error option \<Rightarrow> db \<Rightarrow> string \<Rightarrow> plan \<Rightarrow> network_recipe \<Rightarrow> go_error + unit" where
  "check_parent ctx d op p r =
     bindr (get_job (nr_parent r) d) (\<lambda>j.
     bindr (get_plan (job_plan j) d) (\<lambda>(prior, _).
       if plan_actor prior \<noteq> plan_actor p \<or> plan_connection prior \<noteq> plan_connection p \<or> plan_resources prior \<noteq> plan_resources p
       then failr ''SOURCE_CHANGED'' ''recovery parent identity differs''
       else if op \<noteq> [] \<and> job_state j = Partial \<and> job_recovery_op j = op then opt_err ctx
       else if job_recovery_op j \<noteq> [] \<or> job_state j \<noteq> Recovery_required \<and> job_state j \<noteq> Interrupted
       then failr ''STALE_PLAN'' ''recovery parent is not unresolved''
       else opt_err ctx))"

definition recovery_parent_of :: "go_error option \<Rightarrow> network_env \<Rightarrow> db \<Rightarrow> plan \<Rightarrow> bytes \<Rightarrow> go_error + string" where
  "recovery_parent_of ctx env d p raw =
     bindr (parse_network_recipe env p raw) (\<lambda>r. bindr (check_parent ctx d [] p r) (\<lambda>_. Inr (nr_parent r)))"

section \<open>Validation\<close>

definition reservation_for_run ::
  "go_error option \<Rightarrow> 'w network_service \<Rightarrow> db \<Rightarrow> string \<Rightarrow> plan \<Rightarrow> network_recipe \<Rightarrow> network_record tx" where
  "reservation_for_run ctx s d op p r =
     bindr (record_for_recipe (ns_env s) d p r) (\<lambda>rc.
       if nr_parent r \<noteq> [] then
         (if nc_job rc = [] \<or> nc_job rc \<noteq> nr_origin r
          then failr ''SOURCE_CHANGED'' ''recovery has no exact original subnet reservation''
          else bindr (check_parent ctx d op p r) (\<lambda>_. Inr rc))
       else if nc_job rc \<noteq> [] \<and> (nc_job rc \<noteq> op \<or> nc_plan rc \<noteq> plan_id p \<or> nc_digest rc \<noteq> plan_digest p)
       then failr ''RESOURCE_BUSY'' ''network identity is already reserved''
       else Inr rc)"

definition validate_creation ::
  "go_error option \<Rightarrow> 'w network_service \<Rightarrow> 'w \<Rightarrow> db \<Rightarrow> string \<Rightarrow> plan \<Rightarrow> bytes \<Rightarrow> go_error + unit" where
  "validate_creation ctx s w d op p raw =
     bindr (parse_network_recipe (ns_env s) p raw) (\<lambda>r.
     case ns_provider s of
       None \<Rightarrow> failr ''UNSUPPORTED_CAPABILITY'' ''native network creation unavailable''
     | Some prov \<Rightarrow>
       (case ns_firewall s of
          None \<Rightarrow> failr ''UNSUPPORTED_CAPABILITY'' ''authenticated network policy helper unavailable''
        | Some fw \<Rightarrow>
          bindr (if plan_digest p \<noteq> [] then opt_err (fw_check fw w p (nr_def r)) else Inr ()) (\<lambda>_.
          bindr (reservation_for_run ctx s d op p r) (\<lambda>rc.
            if nc_job rc = [] then
              bindr (opt_err (np_check prov w (plan_connection p) (nr_def r))) (\<lambda>_.
              check_network_cidr ctx s w d (plan_connection p) (nr_def r) [])
            else bindr (np_inspect prov w (plan_connection p) (nr_def r)) (\<lambda>n.
              if vn_active n \<or> \<not> vn_persistent n \<or> vn_autostart n
              then failr ''STALE_PLAN'' ''activation requires the exact inactive persistent network with autostart disabled''
              else check_network_cidr ctx s w d (plan_connection p) (nr_def r) (nd_uuid (nr_def r)))))))"

section \<open>Execution\<close>

definition new_record :: "string \<Rightarrow> plan \<Rightarrow> network_recipe \<Rightarrow> network_record" where
  "new_record op p r = \<lparr>nc_version = nr_version r, nc_connection = plan_connection p, nc_job = op, nc_plan = plan_id p,
     nc_digest = plan_digest p, nc_def = nr_def r, nc_metadata = nr_metadata r\<rparr>"

definition define_guard ::
  "go_error option \<Rightarrow> 'w network_service \<Rightarrow> 'w provider \<Rightarrow> 'w \<Rightarrow> db \<Rightarrow> plan \<Rightarrow> network_recipe \<Rightarrow> go_error + unit" where
  "define_guard ctx s prov w d p r =
     (if nr_parent r \<noteq> [] then failr ''INVALID_INPUT'' ''recovery cannot redefine a network''
      else bindr (opt_err (np_check prov w (plan_connection p) (nr_def r))) (\<lambda>_.
        check_network_cidr ctx s w d (plan_connection p) (nr_def r) []))"

definition execute_define ::
  "go_error option \<Rightarrow> 'w network_service \<Rightarrow> 'w provider \<Rightarrow> 'w \<Rightarrow> db \<Rightarrow> string \<Rightarrow> plan \<Rightarrow> network_recipe \<Rightarrow> 'w \<times> db \<times> go_error option" where
  "execute_define ctx s prov w d op p r =
     (case bindr (define_guard ctx s prov w d p r) (\<lambda>_.
        compare_put record_kind (nd_uuid (nr_def r)) None (ne_marshal (ns_env s) (new_record op p r)) d) of
        Inl e \<Rightarrow> (w, d, Some e)
      | Inr d' \<Rightarrow>
          (case ctx of
             Some e \<Rightarrow> (w, d', Some e)
           | None \<Rightarrow> (let (w', err) = np_define prov w (plan_connection p) (nr_def r) in (w', d', err))))"

definition execute_network ::
  "go_error option \<Rightarrow> 'w network_service \<Rightarrow> 'w \<Rightarrow> db \<Rightarrow> string \<Rightarrow> plan \<Rightarrow> bytes \<Rightarrow> step \<Rightarrow> 'w \<times> db \<times> go_error option" where
  "execute_network ctx s w d op p raw st =
     (case parse_network_recipe (ns_env s) p raw of
        Inl e \<Rightarrow> (w, d, Some e)
      | Inr r \<Rightarrow>
        if op = [] then (w, d, Some (Domain_error (fail ''INVALID_INPUT'' ''network change requires durable job identity'')))
        else (case ns_provider s of
          None \<Rightarrow> (w, d, Some (Domain_error (fail ''UNSUPPORTED_CAPABILITY'' ''native network creation unavailable'')))
        | Some prov \<Rightarrow>
          if step_id st = ''define'' then execute_define ctx s prov w d op p r
          else if step_id st = ''firewall'' then
            (case bindr (validate_creation ctx s w d op p raw) (\<lambda>_. Inr (the (ns_firewall s))) of
               Inl e \<Rightarrow> (w, d, Some e)
             | Inr fw \<Rightarrow> (let (w', err) = fw_apply fw w p (nr_def r) op in (w', d, err)))
          else if step_id st = ''activate'' then
            (case bindr (validate_creation ctx s w d op p raw) (\<lambda>_.
                 opt_err (fw_observe (the (ns_firewall s)) w p (nr_def r) op)) of
               Inl e \<Rightarrow> (w, d, Some e)
             | Inr _ \<Rightarrow> (let (w', err) = np_activate prov w (plan_connection p) (nr_def r) in (w', d, err)))
          else (w, d, Some (Domain_error (fail ''INVALID_INPUT'' ''unknown network creation step'')))))"

section \<open>Observation\<close>

definition observe_filter :: "'w network_service \<Rightarrow> 'w \<Rightarrow> plan \<Rightarrow> network_recipe \<Rightarrow> string \<Rightarrow> go_error + unit" where
  "observe_filter s w p r op = (case ns_firewall s of
      None \<Rightarrow> failr ''UNSUPPORTED_CAPABILITY'' ''network filter observation unavailable''
    | Some fw \<Rightarrow> opt_err (fw_observe fw w p (nr_def r) op))"

definition reconcile_network ::
  "go_error option \<Rightarrow> 'w network_service \<Rightarrow> 'w \<Rightarrow> db \<Rightarrow> string \<Rightarrow> plan \<Rightarrow> bytes \<Rightarrow> step \<Rightarrow> bool tx" where
  "reconcile_network ctx s w d op p raw st =
     bindr (parse_network_recipe (ns_env s) p raw) (\<lambda>r.
     bindr (record_for_recipe (ns_env s) d p r) (\<lambda>rc.
     let origin = (if nr_origin r \<noteq> [] then nr_origin r else op) in
     if nc_job rc = [] \<or> nc_job rc \<noteq> origin
     then failr ''RECOVERY_REQUIRED'' ''exact network reservation is absent; no replay is permitted''
     else case ns_provider s of
       None \<Rightarrow> failr ''UNSUPPORTED_CAPABILITY'' ''native network inspection unavailable''
     | Some prov \<Rightarrow>
       bindr (np_inspect prov w (plan_connection p) (nr_def r)) (\<lambda>n.
       if \<not> vn_persistent n \<or> vn_autostart n then failr ''RECOVERY_REQUIRED'' ''network persistence or autostart differs''
       else bindr (opt_err ctx) (\<lambda>_.
         if step_id st = ''define'' then Inr (\<not> vn_active n)
         else if step_id st = ''firewall'' then
           (if vn_active n then failr ''RECOVERY_REQUIRED'' ''network activated before firewall step completed''
            else bindr (observe_filter s w p r op) (\<lambda>_. Inr True))
         else if step_id st = ''activate'' then bindr (observe_filter s w p r op) (\<lambda>_. Inr (vn_active n))
         else failr ''INVALID_INPUT'' ''unknown network reconciliation step''))))"

section \<open>Resuming\<close>

definition resume_recipe ::
  "network_env \<Rightarrow> db \<Rightarrow> request \<Rightarrow> go_error + network_recipe" where
  "resume_recipe env d r =
     (if rq_id r = [] \<or> rq_path r \<noteq> [] \<or> rq_input r \<noteq> JNull \<or> rq_apply r \<or> rq_after r \<noteq> 0 \<or> rq_action r \<noteq> ''resume'' \<or>
         rq_connection r \<noteq> system_uri
      then failr ''INVALID_INPUT'' ''network recovery requires an unresolved creation operation ID''
      else bindr (get_job (rq_id r) d) (\<lambda>j.
        bindr (get_plan (job_plan j) d) (\<lambda>(p, raw).
        bindr (parse_network_recipe env p raw) (\<lambda>old.
          if plan_hash (ne_env env) p \<noteq> Inr (plan_digest p)
          then failr ''SOURCE_CHANGED'' ''recovery parent plan digest differs''
          else if digest_raw (ne_env env) raw \<noteq> Inr (plan_input_digest p)
          then failr ''SOURCE_CHANGED'' ''recovery parent input digest differs''
          else Inr (old\<lparr>nr_origin := (if nr_origin old = [] then job_id j else nr_origin old), nr_parent := job_id j\<rparr>)))))"

end
