(* ===== verification/Network_Creation_Laws.thy ===== *)
theory Network_Creation_Laws
  imports Network_Creation Store_Laws
begin

text \<open>
  What the workflow guarantees: each effect on the host happens only behind its guards, a
  definition is attempted at most once for an identity, and a step is settled only by what is
  observed.
\<close>

definition reserved_by :: "'w network_service \<Rightarrow> db \<Rightarrow> string \<Rightarrow> plan \<Rightarrow> network_recipe \<Rightarrow> bool" where
  "reserved_by s d op p r \<longleftrightarrow> (\<exists>rc. record_for_recipe (ns_env s) d p r = Inr rc \<and>
     nc_job rc = (if nr_parent r \<noteq> [] then nr_origin r else op))"

definition observed_inactive :: "'w network_service \<Rightarrow> 'w \<Rightarrow> plan \<Rightarrow> network_recipe \<Rightarrow> bool" where
  "observed_inactive s w p r \<longleftrightarrow> (\<exists>prov n. ns_provider s = Some prov \<and> np_inspect prov w (plan_connection p) (nr_def r) = Inr n \<and>
     vn_persistent n \<and> \<not> vn_active n \<and> \<not> vn_autostart n)"

text \<open>What a passed validation has established before an effect on an existing or absent network.\<close>

definition ready :: "go_error option \<Rightarrow> 'w network_service \<Rightarrow> 'w \<Rightarrow> db \<Rightarrow> string \<Rightarrow> plan \<Rightarrow> network_recipe \<Rightarrow> bool" where
  "ready ctx s w d op p r \<longleftrightarrow>
     reserved_by s d op p r \<and> observed_inactive s w p r \<and>
       check_network_cidr ctx s w d (plan_connection p) (nr_def r) (nd_uuid (nr_def r)) = Inr () \<or>
     nr_parent r = [] \<and> (\<exists>rc prov. record_for_recipe (ns_env s) d p r = Inr rc \<and> nc_job rc = [] \<and> ns_provider s = Some prov \<and>
       np_check prov w (plan_connection p) (nr_def r) = None) \<and>
       check_network_cidr ctx s w d (plan_connection p) (nr_def r) [] = Inr ()"

lemma opt_err_Inr [simp]: "opt_err e = Inr u \<longleftrightarrow> e = None"
  by (cases e) (auto simp: opt_err_def)

lemma reservation_for_run_Inr:
  assumes "reservation_for_run ctx s d op p r = Inr rc"
  shows "record_for_recipe (ns_env s) d p r = Inr rc \<and>
    (nc_job rc = [] \<and> nr_parent r = [] \<or> nc_job rc = (if nr_parent r \<noteq> [] then nr_origin r else op))"
  using assms by (auto simp: reservation_for_run_def split: if_splits)

lemma validate_ready:
  assumes v: "validate_creation ctx s w d op p raw = Inr ()" and r: "parse_network_recipe (ns_env s) p raw = Inr r"
  shows "ready ctx s w d op p r \<and> (\<exists>fw. ns_firewall s = Some fw)"
proof -
  obtain prov where prov: "ns_provider s = Some prov" using v r by (cases "ns_provider s") (auto simp: validate_creation_def)
  obtain fw where fw: "ns_firewall s = Some fw" using v r prov by (cases "ns_firewall s") (auto simp: validate_creation_def)
  obtain rc where rc: "reservation_for_run ctx s d op p r = Inr rc"
    and rest: "if nc_job rc = [] then np_check prov w (plan_connection p) (nr_def r) = None \<and>
        check_network_cidr ctx s w d (plan_connection p) (nr_def r) [] = Inr ()
      else \<exists>n. np_inspect prov w (plan_connection p) (nr_def r) = Inr n \<and> \<not> vn_active n \<and> vn_persistent n \<and> \<not> vn_autostart n \<and>
        check_network_cidr ctx s w d (plan_connection p) (nr_def r) (nd_uuid (nr_def r)) = Inr ()"
    using v r prov fw by (auto simp: validate_creation_def split: if_splits)
  note rr = reservation_for_run_Inr [OF rc]
  show ?thesis
  proof (cases "nc_job rc = []")
    case True
    have "nr_parent r = []"
      using rc True by (auto simp: reservation_for_run_def split: if_splits)
    then show ?thesis using True rr rest prov fw unfolding ready_def by auto
  next
    case False
    then have "reserved_by s d op p r" using rr unfolding reserved_by_def by blast
    moreover have "observed_inactive s w p r" using False rest prov unfolding observed_inactive_def by auto
    ultimately show ?thesis using False rest fw unfolding ready_def by auto
  qed
qed

lemma execute_define_effects:
  assumes "execute_define ctx s prov w d op p r = (w', d', err)"
  shows "w' = w \<and> d' = d \<or>
    nr_parent r = [] \<and> np_check prov w (plan_connection p) (nr_def r) = None \<and>
    check_network_cidr ctx s w d (plan_connection p) (nr_def r) [] = Inr () \<and>
    metadata_bytes record_kind (nd_uuid (nr_def r)) d = None \<and>
    d' = put record_kind (nd_uuid (nr_def r)) (ne_marshal (ns_env s) (new_record op p r)) d \<and>
    (w' = w \<or> w' = fst (np_define prov w (plan_connection p) (nr_def r)))"
proof (cases "define_guard ctx s prov w d p r = Inr () \<and> metadata_bytes record_kind (nd_uuid (nr_def r)) d = None")
  case True
  then have "d' = put record_kind (nd_uuid (nr_def r)) (ne_marshal (ns_env s) (new_record op p r)) d"
    "w' = w \<or> w' = fst (np_define prov w (plan_connection p) (nr_def r))"
    using assms by (auto simp: execute_define_def compare_put_def compare_put_with_jobs_def reviewed_ok_def metadata_bytes_def
      split: option.splits prod.splits)
  moreover have "nr_parent r = []" "np_check prov w (plan_connection p) (nr_def r) = None"
    "check_network_cidr ctx s w d (plan_connection p) (nr_def r) [] = Inr ()"
    using True by (auto simp: define_guard_def split: if_splits)
  ultimately show ?thesis using True by auto
next
  case False
  then have "\<nexists>x. bindr (define_guard ctx s prov w d p r) (\<lambda>_.
      compare_put record_kind (nd_uuid (nr_def r)) None (ne_marshal (ns_env s) (new_record op p r)) d) = Inr x"
    by (auto simp: compare_put_Inr)
  then show ?thesis using assms by (auto simp: execute_define_def split: sum.splits)
qed

lemma execute_define_blocked:
  "metadata_bytes record_kind (nd_uuid (nr_def r)) d \<noteq> None \<Longrightarrow> fst (execute_define ctx s prov w d op p r) = w"
  using execute_define_effects [of ctx s prov w d op p r] by (metis prod_cases3 fst_conv)

lemma execute_ready_effects:
  assumes run: "execute_network ctx s w d op p raw st = (w', d', err)" and st: "step_id st \<noteq> ''define''"
    and r: "parse_network_recipe (ns_env s) p raw = Inr r" "ns_provider s = Some prov" "op \<noteq> []"
  shows "w' = w \<and> d' = d \<or> (\<exists>fw. ns_firewall s = Some fw \<and> d' = d \<and> ready ctx s w d op p r \<and>
    (step_id st = ''firewall'' \<and> w' = fst (fw_apply fw w p (nr_def r) op) \<or>
     step_id st = ''activate'' \<and> fw_observe fw w p (nr_def r) op = None \<and>
       w' = fst (np_activate prov w (plan_connection p) (nr_def r))))"
proof (cases "step_id st \<in> {''firewall'', ''activate''} \<and> validate_creation ctx s w d op p raw = Inr ()")
  case False
  then consider "step_id st \<notin> {''firewall'', ''activate''}" | e where "validate_creation ctx s w d op p raw = Inl e"
    by (cases "validate_creation ctx s w d op p raw") auto
  then have "w' = w \<and> d' = d"
  proof cases
    case 1
    then show ?thesis using run r st by (simp add: execute_network_def)
  next
    case 2
    then show ?thesis using run r st by (simp add: execute_network_def split: if_split_asm)
  qed
  then show ?thesis ..
next
  case True
  then have v: "validate_creation ctx s w d op p raw = Inr ()" by blast
  from validate_ready [OF this r(1)] obtain fw where fw: "ready ctx s w d op p r" "ns_firewall s = Some fw" by blast
  consider (fire) "step_id st = ''firewall''" | (act) "step_id st = ''activate''" using True by blast
  then show ?thesis
  proof cases
    case fire
    then have "w' = fst (fw_apply fw w p (nr_def r) op)" "d' = d"
      using run r v fw by (auto simp: execute_network_def split: prod.splits)
    then show ?thesis using fire fw by blast
  next
    case act
    have "w' = (if fw_observe fw w p (nr_def r) op = None then fst (np_activate prov w (plan_connection p) (nr_def r)) else w)"
      "d' = d" using run r act v fw by (auto simp: execute_network_def opt_err_def split: prod.splits option.splits)
    then show ?thesis using act fw by (cases "fw_observe fw w p (nr_def r) op") auto
  qed
qed

text \<open>
  C27. Every effect of the workflow is behind its guards. The host changes only through the
  provider's definition, after the subnet was found free and the reservation, absent before,
  is durable; through the firewall helper, on a reservation of this run and its inactive
  network (or none yet); or through activation, which also needs the filter rules observed.
  A recovery never defines, and nothing else changes host or journal.
\<close>

theorem network_effects_guarded:
  "case execute_network ctx s w d op p raw st of (w', d', err) \<Rightarrow>
     w' = w \<and> d' = d \<or>
     (\<exists>r prov. parse_network_recipe (ns_env s) p raw = Inr r \<and> ns_provider s = Some prov \<and> op \<noteq> [] \<and>
       (step_id st = ''define'' \<and> nr_parent r = [] \<and> np_check prov w (plan_connection p) (nr_def r) = None \<and>
          check_network_cidr ctx s w d (plan_connection p) (nr_def r) [] = Inr () \<and>
          metadata_bytes record_kind (nd_uuid (nr_def r)) d = None \<and>
          d' = put record_kind (nd_uuid (nr_def r)) (ne_marshal (ns_env s) (new_record op p r)) d \<and>
          (w' = w \<or> w' = fst (np_define prov w (plan_connection p) (nr_def r))) \<or>
        (\<exists>fw. ns_firewall s = Some fw \<and> d' = d \<and> ready ctx s w d op p r \<and>
          (step_id st = ''firewall'' \<and> w' = fst (fw_apply fw w p (nr_def r) op) \<or>
           step_id st = ''activate'' \<and> fw_observe fw w p (nr_def r) op = None \<and>
             w' = fst (np_activate prov w (plan_connection p) (nr_def r))))))"
proof (cases "\<exists>r prov. parse_network_recipe (ns_env s) p raw = Inr r \<and> ns_provider s = Some prov \<and> op \<noteq> []")
  case False
  then have "fst (execute_network ctx s w d op p raw st) = w \<and> fst (snd (execute_network ctx s w d op p raw st)) = d"
    by (auto simp: execute_network_def split: sum.splits option.splits)
  then show ?thesis by (auto simp: split_beta)
next
  case True
  then obtain r prov where r: "parse_network_recipe (ns_env s) p raw = Inr r" "ns_provider s = Some prov" "op \<noteq> []" by blast
  obtain w' d' err where run: "execute_network ctx s w d op p raw st = (w', d', err)" by (metis prod_cases3)
  show ?thesis
  proof (cases "step_id st = ''define''")
    case True
    then have "execute_define ctx s prov w d op p r = (w', d', err)" using run r by (simp add: execute_network_def)
    from execute_define_effects [OF this] show ?thesis using run r True by auto
  next
    case False
    from execute_ready_effects [OF run False r] show ?thesis using run r by auto
  qed
qed

text \<open>
  C28. An identity is defined at most once: when executing the definition step of a plan
  changes the host, no later execution of that step, whatever the host has become, changes it
  again, because the reservation it left refuses the second.
\<close>

theorem define_at_most_once:
  "fst (execute_network ctx s w d op p raw (network_step ''define'' a q)) = w \<or>
   (\<forall>ctx2 w2 op2. fst (execute_network ctx2 s w2 (fst (snd (execute_network ctx s w d op p raw (network_step ''define'' a q))))
      op2 p raw (network_step ''define'' a q)) = w2)"
proof (cases "\<exists>r prov. parse_network_recipe (ns_env s) p raw = Inr r \<and> ns_provider s = Some prov \<and> op \<noteq> []")
  case False
  then have "fst (execute_network ctx s w d op p raw st) = w" for st
    by (cases "parse_network_recipe (ns_env s) p raw"; cases "ns_provider s") (simp_all add: execute_network_def)
  then show ?thesis by simp
next
  case True
  then obtain r prov where r: "parse_network_recipe (ns_env s) p raw = Inr r" "ns_provider s = Some prov" "op \<noteq> []" by blast
  have ex: "execute_network c s v e x p raw (network_step ''define'' a q) =
      (if x = [] then (v, e, Some (Domain_error (fail ''INVALID_INPUT'' ''network change requires durable job identity'')))
       else execute_define c s prov v e x p r)" for c v e x
    using r by (simp add: execute_network_def network_step_def)
  obtain w' d' err where e: "execute_define ctx s prov w d op p r = (w', d', err)" by (metis prod_cases3)
  from execute_define_effects [OF e] consider "w' = w" | "metadata_bytes record_kind (nd_uuid (nr_def r)) d' \<noteq> None"
    by (auto simp: metadata_bytes_put)
  then show ?thesis
  proof cases
    case 1
    then show ?thesis using ex e r(3) by simp
  next
    case 2
    have "fst (execute_define c s prov v d' x p r) = v" for c v x by (rule execute_define_blocked [OF 2])
    then show ?thesis using ex e r(3) by simp
  qed
qed

text \<open>
  A step is settled as done only by observation: the reservation belongs to the run's
  origin, libvirt shows the exact network persistent and without autostart, it is active for
  activation and inactive before it, and after the definition the filter rules are in place.
\<close>

theorem settled_step_observed:
  "reconcile_network ctx s w d op p raw st = Inr True \<longleftrightarrow>
     (\<exists>r rc prov n. parse_network_recipe (ns_env s) p raw = Inr r \<and> record_for_recipe (ns_env s) d p r = Inr rc \<and>
        nc_job rc \<noteq> [] \<and> nc_job rc = (if nr_origin r \<noteq> [] then nr_origin r else op) \<and>
        ns_provider s = Some prov \<and> np_inspect prov w (plan_connection p) (nr_def r) = Inr n \<and>
        vn_persistent n \<and> \<not> vn_autostart n \<and> ctx = None \<and>
        (step_id st = ''define'' \<and> \<not> vn_active n \<or>
         step_id st = ''firewall'' \<and> \<not> vn_active n \<and> observe_filter s w p r op = Inr () \<or>
         step_id st = ''activate'' \<and> vn_active n \<and> observe_filter s w p r op = Inr ()))"
proof (cases "ns_provider s")
  case None
  then show ?thesis by (auto simp: reconcile_network_def Let_def split: if_splits)
next
  case (Some prov)
  show ?thesis
  proof (cases "parse_network_recipe (ns_env s) p raw")
    case (Inl e)
    then show ?thesis by (simp add: reconcile_network_def)
  next
    case r: (Inr r)
    show ?thesis
    proof (cases "record_for_recipe (ns_env s) d p r")
      case (Inl e)
      then show ?thesis using r by (simp add: reconcile_network_def)
    next
      case rc: (Inr rc)
      show ?thesis
        using Some r rc by (cases "np_inspect prov w (plan_connection p) (nr_def r)")
          (auto simp: reconcile_network_def Let_def)
    qed
  qed
qed

end
