(* ===== verification/Search.thy ===== *)
theory Search
  imports Prelude
begin

text \<open>
  Depth-first search in three colours, as the closures \<^verbatim>\<open>visit\<close> of
  \<^verbatim>\<open>internal/app/lab/validate.go\<close> and \<^verbatim>\<open>internal/app/storage/graph.go\<close> perform it. Nodes in
  colour 1 are the path from the root of the search to the node visited, because a visit that
  returns without error has recoloured its node; nodes in colour 2 are the finished ones in the
  order they finished. The search ends because the path only grows by known nodes off the path.
  The lemmas give the order of a successful search and the defect behind every refusal.
\<close>

section \<open>The search\<close>

lemma bindr_cong [fundef_cong]: "m = m' \<Longrightarrow> (\<And>a. m' = Inr a \<Longrightarrow> f a = f' a) \<Longrightarrow> bindr m f = bindr m' f'"
  by (cases m') auto

lemma fewer_unvisited:
  assumes "map_of g x = Some v" and "x \<notin> set path"
  shows "card (set (map fst g) - set (x # path)) < card (set (map fst g) - set path)"
proof (rule psubset_card_mono)
  have "x \<in> set (map fst g)" using assms(1) by (metis map_of_eq_None_iff option.distinct(1) set_map)
  then show "set (map fst g) - set (x # path) \<subset> set (map fst g) - set path" using assms(2) by auto
qed simp

function explore :: "('k \<Rightarrow> 'v \<Rightarrow> 'e + 'k list) \<Rightarrow> 'e \<Rightarrow> ('k \<Rightarrow> 'e) \<Rightarrow> ('k \<times> 'v) list \<Rightarrow> 'k list \<Rightarrow> 'k list \<Rightarrow> 'k list \<Rightarrow> 'e + 'k list" where
  "explore succs cyc unknown g path [] ord = Inr ord"
| "explore succs cyc unknown g path (x # xs) ord =
     (if x \<in> set path then Inl cyc
      else if x \<in> set ord then explore succs cyc unknown g path xs ord
      else case map_of g x of
          None \<Rightarrow> Inl (unknown x)
        | Some v \<Rightarrow> bindr (succs x v) (\<lambda>ys. bindr (explore succs cyc unknown g (x # path) ys ord) (\<lambda>ord'.
            explore succs cyc unknown g path xs (ord' @ [x]))))"
  by pat_completeness auto

termination
  by (relation "measures [\<lambda>(s, c, u, g, path, xs, ord). card (set (map fst g) - set path), \<lambda>(s, c, u, g, path, xs, ord). length xs]")
    (auto dest: fewer_unvisited simp del: set_map)

section \<open>Finished nodes\<close>

definition edges :: "('k \<Rightarrow> 'v \<Rightarrow> 'e + 'k list) \<Rightarrow> ('k \<times> 'v) list \<Rightarrow> ('k \<times> 'k) set" where
  "edges succs g = {(x, y). \<exists>v ys. map_of g x = Some v \<and> succs x v = Inr ys \<and> y \<in> set ys}"

definition resolved :: "('k \<Rightarrow> 'v \<Rightarrow> 'e + 'k list) \<Rightarrow> ('k \<times> 'v) list \<Rightarrow> 'k \<Rightarrow> 'k set \<Rightarrow> bool" where
  "resolved succs g x seen \<longleftrightarrow> (\<exists>v ys. map_of g x = Some v \<and> succs x v = Inr ys \<and> set ys \<subseteq> seen)"

text \<open>Every node comes after the nodes it leads to, and only once.\<close>

fun settled :: "('k \<Rightarrow> 'v \<Rightarrow> 'e + 'k list) \<Rightarrow> ('k \<times> 'v) list \<Rightarrow> 'k set \<Rightarrow> 'k list \<Rightarrow> bool" where
  "settled succs g seen [] \<longleftrightarrow> True"
| "settled succs g seen (x # xs) \<longleftrightarrow> x \<notin> seen \<and> resolved succs g x seen \<and> settled succs g (insert x seen) xs"

lemma settled_append: "settled succs g seen (xs @ ys) \<longleftrightarrow> settled succs g seen xs \<and> settled succs g (seen \<union> set xs) ys"
  by (induction xs arbitrary: seen) auto

lemma settled_snoc [simp]:
  "settled succs g {} (xs @ [x]) \<longleftrightarrow> settled succs g {} xs \<and> x \<notin> set xs \<and> resolved succs g x (set xs)"
  by (auto simp: settled_append)

lemma settled_distinct: "settled succs g {} xs \<Longrightarrow> distinct xs"
  by (induction xs rule: rev_induct) auto

lemma settled_known: "settled succs g {} xs \<Longrightarrow> set xs \<subseteq> set (map fst g)"
  by (induction xs rule: rev_induct) (auto simp: resolved_def dest: map_of_SomeD intro: rev_image_eqI)

lemma settled_resolved:
  "settled succs g {} xs \<Longrightarrow> x \<in> set xs \<Longrightarrow> map_of g x = Some v \<Longrightarrow> \<exists>ys. succs x v = Inr ys"
  by (induction xs rule: rev_induct) (auto simp: resolved_def)

definition position :: "'k list \<Rightarrow> 'k \<Rightarrow> nat" where
  "position xs x = length (takeWhile (\<lambda>z. z \<noteq> x) xs)"

lemma position_snoc:
  "z \<in> set xs \<Longrightarrow> position (xs @ [x]) z = position xs z" "x \<notin> set xs \<Longrightarrow> position (xs @ [x]) x = length xs"
  by (auto simp: position_def takeWhile_append)

lemma position_less: "z \<in> set xs \<Longrightarrow> position xs z < length xs"
  unfolding position_def by (induction xs) auto

lemma settled_edge:
  "settled succs g {} xs \<Longrightarrow> (x, y) \<in> edges succs g \<Longrightarrow> x \<in> set xs \<Longrightarrow> y \<in> set xs \<and> position xs y < position xs x"
proof (induction xs rule: rev_induct)
  case (snoc a xs)
  show ?case
  proof (cases "x \<in> set xs")
    case True
    then show ?thesis using snoc by (auto simp: position_snoc)
  next
    case False
    then have "x = a" using snoc.prems(3) by simp
    moreover from this have "y \<in> set xs" using snoc.prems(1,2) by (auto simp: edges_def resolved_def)
    ultimately show ?thesis using False by (simp add: position_snoc position_less)
  qed
qed simp

lemma settled_acyclic:
  assumes "settled succs g {} xs" and "set (map fst g) \<subseteq> set xs"
  shows "acyclic (edges succs g)"
proof (rule acyclicI_order)
  fix x y assume e: "(x, y) \<in> edges succs g"
  then have "x \<in> set (map fst g)" by (auto simp: edges_def dest: map_of_SomeD intro: rev_image_eqI)
  then show "position xs y < position xs x" using settled_edge [OF assms(1) e] assms(2) by auto
qed

section \<open>Correctness of the search\<close>

lemma explore_settles:
  "explore succs cyc unknown g path xs ord = Inr ord' \<Longrightarrow> settled succs g {} ord \<Longrightarrow> set path \<inter> set ord = {} \<Longrightarrow>
   settled succs g {} ord' \<and> set path \<inter> set ord' = {} \<and> set ord \<subseteq> set ord' \<and> set xs \<subseteq> set ord'"
proof (induction succs cyc unknown g path xs ord arbitrary: ord' rule: explore.induct)
  case (2 succs cyc unknown g path x xs ord)
  have off: "x \<notin> set path" using "2.prems"(1) by (auto split: if_splits)
  show ?case
  proof (cases "x \<in> set ord")
    case True
    then show ?thesis using "2.IH"(1) [OF off True] "2.prems" off by auto
  next
    case False
    obtain v ys o1 where v: "map_of g x = Some v" and ys: "succs x v = Inr ys"
      and o1: "explore succs cyc unknown g (x # path) ys ord = Inr o1"
      and rest: "explore succs cyc unknown g path xs (o1 @ [x]) = Inr ord'"
      using "2.prems"(1) off False by (auto split: option.splits)
    have a: "settled succs g {} o1 \<and> set (x # path) \<inter> set o1 = {} \<and> set ord \<subseteq> set o1 \<and> set ys \<subseteq> set o1"
      using "2.IH"(2) [OF off False v ys o1] "2.prems"(2,3) False by simp
    then have "settled succs g {} (o1 @ [x])" using v ys by (auto simp: resolved_def)
    then have "settled succs g {} ord' \<and> set path \<inter> set ord' = {} \<and> set (o1 @ [x]) \<subseteq> set ord' \<and> set xs \<subseteq> set ord'"
      using "2.IH"(3) [OF off False v ys o1 rest] a off by auto
    then show ?thesis using a by auto
  qed
qed auto

text \<open>A refusal has a reason: a cycle, a node that is not known, or one whose successors are refused.\<close>

definition defect :: "('k \<Rightarrow> 'v \<Rightarrow> 'e + 'k list) \<Rightarrow> 'e \<Rightarrow> ('k \<Rightarrow> 'e) \<Rightarrow> ('k \<times> 'v) list \<Rightarrow> 'k set \<Rightarrow> 'e \<Rightarrow> bool" where
  "defect succs cyc unknown g start e \<longleftrightarrow>
     e = cyc \<and> (\<exists>x. (x, x) \<in> (edges succs g)\<^sup>+) \<or>
     (\<exists>s \<in> start. \<exists>x. (s, x) \<in> (edges succs g)\<^sup>* \<and>
        (map_of g x = None \<and> e = unknown x \<or> (\<exists>v. map_of g x = Some v \<and> succs x v = Inl e)))"

lemma defect_mono: "defect succs cyc unknown g a e \<Longrightarrow> a \<subseteq> b \<Longrightarrow> defect succs cyc unknown g b e"
  unfolding defect_def by blast

lemma defect_step:
  assumes "defect succs cyc unknown g (set ys) e" and "map_of g x = Some v" and "succs x v = Inr ys"
  shows "defect succs cyc unknown g {x} e"
proof -
  have "(x, y) \<in> edges succs g" if "y \<in> set ys" for y using assms(2,3) that by (auto simp: edges_def)
  then have "(x, z) \<in> (edges succs g)\<^sup>*" if "y \<in> set ys" "(y, z) \<in> (edges succs g)\<^sup>*" for y z
    using that by (meson converse_rtrancl_into_rtrancl)
  then show ?thesis using assms(1) unfolding defect_def by blast
qed

lemma explore_refusal:
  "explore succs cyc unknown g path xs ord = Inl e \<Longrightarrow> (\<And>p x. p \<in> set path \<Longrightarrow> x \<in> set xs \<Longrightarrow> (p, x) \<in> (edges succs g)\<^sup>+) \<Longrightarrow>
   defect succs cyc unknown g (set xs) e"
proof (induction succs cyc unknown g path xs ord rule: explore.induct)
  case (2 succs cyc unknown g path x xs ord)
  show ?case
  proof (cases "x \<in> set path \<or> x \<in> set ord")
    case True
    show ?thesis
    proof (cases "x \<in> set path")
      case True
      then have "e = cyc" "(x, x) \<in> (edges succs g)\<^sup>+" using "2.prems" by auto
      then show ?thesis unfolding defect_def by blast
    next
      case False
      then have "defect succs cyc unknown g (set xs) e" using "2.IH"(1) "2.prems" True by auto
      then show ?thesis by (rule defect_mono) auto
    qed
  next
    case False
    then have off: "x \<notin> set path" "x \<notin> set ord" by auto
    show ?thesis
    proof (cases "map_of g x")
      case None
      then show ?thesis using "2.prems"(1) off unfolding defect_def by auto
    next
      case v: (Some v)
      show ?thesis
      proof (cases "succs x v")
        case (Inl e')
        then show ?thesis using "2.prems"(1) off v unfolding defect_def by auto
      next
        case ys: (Inr ys)
        show ?thesis
        proof (cases "explore succs cyc unknown g (x # path) ys ord")
          case (Inl e')
          then have "e' = e" using "2.prems"(1) off v ys by simp
          have edge: "(x, y) \<in> edges succs g" if "y \<in> set ys" for y using v ys that by (auto simp: edges_def)
          have "(p, y) \<in> (edges succs g)\<^sup>+" if "p \<in> set (x # path)" "y \<in> set ys" for p y
          proof (cases "p = x")
            case False
            then have "(p, x) \<in> (edges succs g)\<^sup>+" using "2.prems"(2) that(1) by simp
            then show ?thesis using edge [OF that(2)] by (rule trancl_into_trancl)
          qed (use edge [OF that(2)] in auto)
          then have "defect succs cyc unknown g (set ys) e" using "2.IH"(2) [OF off v ys] Inl \<open>e' = e\<close> by blast
          from defect_step [OF this v ys] show ?thesis by (rule defect_mono) simp
        next
          case (Inr o1)
          then have "explore succs cyc unknown g path xs (o1 @ [x]) = Inl e" using "2.prems"(1) off v ys by simp
          then have "defect succs cyc unknown g (set xs) e" using "2.IH"(3) [OF off v ys Inr] "2.prems"(2) by simp
          then show ?thesis by (rule defect_mono) auto
        qed
      qed
    qed
  qed
qed simp

text \<open>From all nodes: success is acyclicity over resolvable nodes.\<close>

lemma explore_all:
  assumes roots: "set roots = set (map fst g)" and d: "distinct (map fst g)"
    and sane: "\<And>x v e. (x, v) \<in> set g \<Longrightarrow> succs x v = Inl e \<Longrightarrow> False"
  shows "(\<exists>ord. explore succs cyc unknown g [] roots [] = Inr ord) \<longleftrightarrow>
    (\<forall>(x, y) \<in> edges succs g. y \<in> set (map fst g)) \<and> acyclic (edges succs g)" (is "?l \<longleftrightarrow> ?r")
proof
  assume ?l
  then obtain ord where "explore succs cyc unknown g [] roots [] = Inr ord" by blast
  from explore_settles [OF this] have s: "settled succs g {} ord" "set (map fst g) \<subseteq> set ord" using roots by auto
  moreover have "y \<in> set (map fst g)" if e: "(x, y) \<in> edges succs g" for x y
  proof -
    have "x \<in> set (map fst g)" using e by (auto simp: edges_def dest: map_of_SomeD intro: rev_image_eqI)
    then have "y \<in> set ord" using settled_edge [OF s(1) e] s(2) by auto
    then show ?thesis using settled_known [OF s(1)] by blast
  qed
  ultimately show ?r using settled_acyclic by blast
next
  assume r: ?r
  have stay: "y \<in> set (map fst g)" if "(x, y) \<in> (edges succs g)\<^sup>*" "x \<in> set (map fst g)" for x y
    using that r by (induction rule: rtrancl_induct) auto
  have "\<not> defect succs cyc unknown g (set roots) e" for e
  proof
    assume "defect succs cyc unknown g (set roots) e"
    then obtain s x where x: "s \<in> set roots" "(s, x) \<in> (edges succs g)\<^sup>*"
      "map_of g x = None \<or> (\<exists>v. map_of g x = Some v \<and> succs x v = Inl e)"
      using r unfolding defect_def acyclic_def by blast
    then have "x \<in> set (map fst g)" using stay roots by blast
    then have "map_of g x \<noteq> None" by (simp add: map_of_eq_None_iff)
    then show False using x(3) sane by (auto dest: map_of_SomeD)
  qed
  then show ?l using explore_refusal [of succs cyc unknown g "[]" roots "[]"]
    by (cases "explore succs cyc unknown g [] roots []") auto
qed

end
