(* ===== verification/Lab.thy ===== *)
theory Lab
  imports Search Intent_Laws
begin

text \<open>
  Labs (\<^verbatim>\<open>internal/app/lab/validate.go\<close>): networks and machines declared together, validated
  against each other, and the order in which the machines start. The last part gives the
  declarative meaning of an accepted lab and of its order.
\<close>

section \<open>Declarations\<close>

record lab_network =
  ln_id :: string
  ln_spec :: "net_spec option"

record lab_vm =
  lv_secure :: bool
  lv_mode :: string
  lv_disks :: "string list"
  lv_nics :: "nic list"
  lv_source :: string
  lv_template :: string

record lab_machine =
  lm_id :: string
  lm_vm :: lab_vm
  lm_depends :: "string list"

record lab =
  lab_networks :: "lab_network list"
  lab_machines :: "lab_machine list"

record lab_report =
  lr_valid :: bool
  lr_order :: "string list"
  lr_warnings :: "string list"
  lr_preflight :: string

section \<open>Networks\<close>

record lab_nets =
  ls_nets :: "(string \<times> net_spec) list"
  ls_prefixes :: "net_prefix list"
  ls_warnings :: "string list"

definition external_spec :: net_spec where
  "external_spec = \<lparr>ns_type = ''bridge'', ns_bridge = [], ns_ipv4 = None, ns_ipv6 = [], ns_access = [], ns_egress = []\<rparr>"

definition spec_prefix :: "net_spec \<Rightarrow> net_prefix option" where
  "spec_prefix s = (case ns_ipv4 s of
      Some i \<Rightarrow> if i4_cidr i \<noteq> ''auto''
        then Some (case parse_prefix (i4_cidr i) of Some p \<Rightarrow> p | None \<Rightarrow> Invalid_prefix) else None
    | None \<Rightarrow> None)"

definition add_network :: "lab_network \<Rightarrow> lab_nets \<Rightarrow> spec_error + lab_nets" where
  "add_network n st =
     (if map_of (ls_nets st) (ln_id n) \<noteq> None then reason ''duplicate network ID''
      else case ln_spec n of
        None \<Rightarrow> Inr (st\<lparr>ls_nets := ls_nets st @ [(ln_id n, external_spec)], ls_warnings := ls_warnings st @
          [''External network '' @ ln_id n @ '' requires host resolution; preserved during teardown'']\<rparr>)
      | Some s \<Rightarrow> bindr (validate_spec s) (\<lambda>_.
          let st1 = st\<lparr>ls_nets := ls_nets st @ [(ln_id n, s)]\<rparr> in
          case spec_prefix s of
            None \<Rightarrow> Inr st1
          | Some p \<Rightarrow>
              if list_ex (prefix_overlaps p) (ls_prefixes st) then reason ''overlapping lab networks''
              else Inr (st1\<lparr>ls_prefixes := ls_prefixes st @ [p]\<rparr>)))"

definition no_nets :: lab_nets where
  "no_nets = \<lparr>ls_nets = [], ls_prefixes = [], ls_warnings = []\<rparr>"

section \<open>Machines\<close>

definition validate_vm :: "lab_vm \<Rightarrow> (string \<rightharpoonup> net_spec) \<Rightarrow> spec_error + string list" where
  "validate_vm v nets =
     (if lv_secure v \<and> lv_mode v \<noteq> ''uefi'' then reason ''Secure Boot requires UEFI''
      else if \<not> distinct (lv_disks v) then reason ''duplicate disk ID''
      else validate_nics (lv_nics v) (Some nets))"

record lab_graph =
  lg_graph :: "(string \<times> string list) list"
  lg_warnings :: "string list"

definition add_machine :: "(string \<rightharpoonup> net_spec) \<Rightarrow> lab_machine \<Rightarrow> lab_graph \<Rightarrow> spec_error + lab_graph" where
  "add_machine nets m st =
     (if map_of (lg_graph st) (lm_id m) \<noteq> None then reason ''duplicate machine ID''
      else bindr (validate_vm (lm_vm m) nets) (\<lambda>ws.
        Inr \<lparr>lg_graph = lg_graph st @ [(lm_id m, lm_depends m)],
          lg_warnings = lg_warnings st @ ws @ (if lv_source (lm_vm m) = ''template''
            then [''Template '' @ lv_template (lm_vm m) @ '' requires immutable host resolution''] else [])\<rparr>))"

section \<open>The order\<close>

definition dependencies :: "string \<Rightarrow> string list \<Rightarrow> spec_error + string list" where
  "dependencies i deps = Inr (sort deps)"

definition lab_order :: "(string \<times> string list) list \<Rightarrow> spec_error + string list" where
  "lab_order graph = explore dependencies (Reason ''dependency cycle'') (\<lambda>i. Reason (''unknown dependency '' @ i)) graph
     [] (sort (map fst graph)) []"

text \<open>\<open>decode\<close> is \<^verbatim>\<open>json.Unmarshal\<close> into the declaration.\<close>

definition validate_lab :: "(bytes \<Rightarrow> string + lab) \<Rightarrow> bytes \<Rightarrow> spec_error + lab_report" where
  "validate_lab decode raw = (case decode raw of
      Inl e \<Rightarrow> Inl (Json_error e)
    | Inr d \<Rightarrow>
        bindr (foldr_res add_network (lab_networks d) no_nets) (\<lambda>nets.
        bindr (foldr_res (add_machine (map_of (ls_nets nets))) (lab_machines d) \<lparr>lg_graph = [], lg_warnings = ls_warnings nets\<rparr>) (\<lambda>g.
        bindr (lab_order (lg_graph g)) (\<lambda>order.
          Inr \<lparr>lr_valid = True, lr_order = order, lr_warnings = lg_warnings g, lr_preflight = ''not-run''\<rparr>))))"

section \<open>What an accepted lab is\<close>

definition net_entry :: "lab_network \<Rightarrow> string \<times> net_spec" where
  "net_entry n = (ln_id n, case ln_spec n of Some s \<Rightarrow> s | None \<Rightarrow> external_spec)"

definition declared_subnets :: "lab_network list \<Rightarrow> net_prefix list" where
  "declared_subnets ns = List.map_filter (\<lambda>n. Option.bind (ln_spec n) spec_prefix) ns"

definition network_declared_ok :: "lab_network \<Rightarrow> bool" where
  "network_declared_ok n \<longleftrightarrow> (case ln_spec n of None \<Rightarrow> True | Some s \<Rightarrow> validate_spec s = Inr ())"

definition machine_ok :: "(string \<rightharpoonup> net_spec) \<Rightarrow> lab_machine \<Rightarrow> bool" where
  "machine_ok nets m \<longleftrightarrow> (\<exists>ws. validate_vm (lm_vm m) nets = Inr ws)"

definition depends_on :: "lab_machine list \<Rightarrow> (string \<times> string) set" where
  "depends_on ms = {(a, b). \<exists>m \<in> set ms. lm_id m = a \<and> b \<in> set (lm_depends m)}"

definition startable :: "lab \<Rightarrow> bool" where
  "startable d \<longleftrightarrow>
     distinct (map ln_id (lab_networks d)) \<and> list_all network_declared_ok (lab_networks d) \<and>
     sorted_wrt share_none (declared_subnets (lab_networks d)) \<and>
     distinct (map lm_id (lab_machines d)) \<and> list_all (machine_ok (map_of (map net_entry (lab_networks d)))) (lab_machines d) \<and>
     snd ` depends_on (lab_machines d) \<subseteq> lm_id ` set (lab_machines d) \<and> acyclic (depends_on (lab_machines d))"

lemma map_of_None_notin: "map_of xs k = None \<longleftrightarrow> k \<notin> set (map fst xs)"
  by (simp add: map_of_eq_None_iff)

lemma fst_net_entry [simp]: "fst (net_entry n) = ln_id n"
  by (simp add: net_entry_def)

definition after_net :: "lab_network \<Rightarrow> lab_nets \<Rightarrow> lab_nets" where
  "after_net n st = \<lparr>ls_nets = ls_nets st @ [net_entry n], ls_prefixes = ls_prefixes st @ declared_subnets [n],
     ls_warnings = ls_warnings st @ (if ln_spec n = None
       then [''External network '' @ ln_id n @ '' requires host resolution; preserved during teardown''] else [])\<rparr>"

lemma declared_one: "declared_subnets [n] = (case Option.bind (ln_spec n) spec_prefix of Some p \<Rightarrow> [p] | None \<Rightarrow> [])"
  by (simp add: declared_subnets_def List.map_filter_simps split: option.splits)

lemma declared_cons: "declared_subnets (n # ns) = declared_subnets [n] @ declared_subnets ns"
  by (simp add: declared_subnets_def List.map_filter_simps split: option.splits)

lemma add_network_Inr:
  "add_network n st = Inr st' \<longleftrightarrow>
     ln_id n \<notin> set (map fst (ls_nets st)) \<and> network_declared_ok n \<and>
     list_all (\<lambda>q. list_all (share_none q) (declared_subnets [n])) (ls_prefixes st) \<and> st' = after_net n st"
proof (cases "ln_spec n")
  case None
  then show ?thesis
    by (auto simp: add_network_def map_of_None_notin network_declared_ok_def declared_one after_net_def net_entry_def list_all_iff)
next
  case (Some s)
  show ?thesis
  proof (cases "spec_prefix s")
    case None
    then show ?thesis using Some
      by (auto simp: add_network_def map_of_None_notin network_declared_ok_def declared_one after_net_def net_entry_def list_all_iff)
  next
    case p: (Some p)
    have "\<not> list_ex (prefix_overlaps p) (ls_prefixes st) \<longleftrightarrow> list_all (\<lambda>q. list_all (share_none q) (declared_subnets [n])) (ls_prefixes st)"
      unfolding no_overlap by (simp add: declared_one Some p)
    then show ?thesis using Some p
      by (auto simp: add_network_def map_of_None_notin network_declared_ok_def declared_one after_net_def net_entry_def)
  qed
qed

lemma networks_fold:
  "foldr_res add_network ns st = Inr st' \<longleftrightarrow>
     distinct (map ln_id ns) \<and> set (map ln_id ns) \<inter> set (map fst (ls_nets st)) = {} \<and> list_all network_declared_ok ns \<and>
     sorted_wrt share_none (declared_subnets ns) \<and> list_all (\<lambda>q. list_all (share_none q) (declared_subnets ns)) (ls_prefixes st) \<and>
     st' = fold after_net ns st"
proof (induction ns arbitrary: st)
  case Nil
  then show ?case by (auto simp: declared_subnets_def List.map_filter_simps list_all_iff)
next
  case (Cons n ns)
  have pairs: "list_all (\<lambda>q. list_all (share_none q) (declared_subnets [n])) old \<and> sorted_wrt share_none (declared_subnets ns) \<and>
      list_all (\<lambda>q. list_all (share_none q) (declared_subnets ns)) (old @ declared_subnets [n]) \<longleftrightarrow>
      sorted_wrt share_none (declared_subnets (n # ns)) \<and> list_all (\<lambda>q. list_all (share_none q) (declared_subnets (n # ns))) old" for old
    unfolding declared_cons [of n ns] by (auto simp: declared_one sorted_wrt_append list_all_iff split: option.splits)
  have "foldr_res add_network (n # ns) st = Inr st' \<longleftrightarrow> ln_id n \<notin> set (map fst (ls_nets st)) \<and> network_declared_ok n \<and>
      list_all (\<lambda>q. list_all (share_none q) (declared_subnets [n])) (ls_prefixes st) \<and>
      foldr_res add_network ns (after_net n st) = Inr st'"
    by (auto simp: add_network_Inr)
  also have "\<dots> \<longleftrightarrow> distinct (map ln_id (n # ns)) \<and> set (map ln_id (n # ns)) \<inter> set (map fst (ls_nets st)) = {} \<and>
      list_all network_declared_ok (n # ns) \<and> st' = fold after_net (n # ns) st \<and>
      (list_all (\<lambda>q. list_all (share_none q) (declared_subnets [n])) (ls_prefixes st) \<and> sorted_wrt share_none (declared_subnets ns) \<and>
       list_all (\<lambda>q. list_all (share_none q) (declared_subnets ns)) (ls_prefixes st @ declared_subnets [n]))"
    unfolding Cons.IH by (auto simp: after_net_def)
  finally show ?case unfolding pairs by blast
qed

lemma nets_fold: "ls_nets (fold after_net ns st) = ls_nets st @ map net_entry ns"
  by (induction ns arbitrary: st) (simp_all add: after_net_def)

definition graph_entry :: "lab_machine \<Rightarrow> string \<times> string list" where
  "graph_entry m = (lm_id m, lm_depends m)"

lemma fst_graph_entry [simp]: "fst (graph_entry m) = lm_id m"
  by (simp add: graph_entry_def)

lemma add_machine_Inr:
  "add_machine nets m st = Inr st' \<Longrightarrow> lm_id m \<notin> set (map fst (lg_graph st)) \<and> machine_ok nets m \<and>
     lg_graph st' = lg_graph st @ [graph_entry m]"
  by (auto simp: add_machine_def machine_ok_def graph_entry_def map_of_None_notin simp del: set_map split: if_splits)

lemma add_machine_ok:
  "lm_id m \<notin> set (map fst (lg_graph st)) \<Longrightarrow> machine_ok nets m \<Longrightarrow> \<exists>st'. add_machine nets m st = Inr st'"
  by (auto simp: add_machine_def machine_ok_def map_of_None_notin simp del: set_map)

lemma machines_fold:
  "foldr_res (add_machine nets) ms st = Inr st' \<Longrightarrow>
     distinct (map lm_id ms) \<and> set (map lm_id ms) \<inter> set (map fst (lg_graph st)) = {} \<and> list_all (machine_ok nets) ms \<and>
     lg_graph st' = lg_graph st @ map graph_entry ms"
proof (induction ms arbitrary: st)
  case (Cons m ms)
  then obtain s1 where s1: "add_machine nets m st = Inr s1" "foldr_res (add_machine nets) ms s1 = Inr st'" by auto
  from Cons.IH [OF s1(2)] add_machine_Inr [OF s1(1)] show ?case by auto
qed simp

lemma machines_fold_ok:
  "distinct (map lm_id ms) \<Longrightarrow> set (map lm_id ms) \<inter> set (map fst (lg_graph st)) = {} \<Longrightarrow> list_all (machine_ok nets) ms \<Longrightarrow>
     \<exists>st'. foldr_res (add_machine nets) ms st = Inr st'"
proof (induction ms arbitrary: st)
  case (Cons m ms)
  obtain s1 where s1: "add_machine nets m st = Inr s1" using add_machine_ok [of m st nets] Cons.prems by auto
  have "\<exists>st'. foldr_res (add_machine nets) ms s1 = Inr st'"
    by (rule Cons.IH) (use Cons.prems add_machine_Inr [OF s1] in auto)
  then show ?case using s1 by auto
qed simp

lemma graph_edges:
  assumes "distinct (map lm_id ms)"
  shows "edges dependencies (map graph_entry ms) = depends_on ms"
proof -
  have "distinct (map fst (map graph_entry ms))" using assms by (simp add: comp_def)
  then have "map_of (map graph_entry ms) a = Some v \<longleftrightarrow> (\<exists>m \<in> set ms. lm_id m = a \<and> lm_depends m = v)" for a v
    by (auto simp: map_of_eq_Some_iff graph_entry_def image_iff)
  then show ?thesis by (auto simp: edges_def depends_on_def dependencies_def)
qed

lemma lab_order_iff:
  assumes "distinct (map lm_id ms)"
  shows "(\<exists>ord. lab_order (map graph_entry ms) = Inr ord) \<longleftrightarrow>
    snd ` depends_on ms \<subseteq> lm_id ` set ms \<and> acyclic (depends_on ms)"
proof -
  have f: "map fst (map graph_entry ms) = map lm_id ms" by simp
  have "(\<exists>ord. lab_order (map graph_entry ms) = Inr ord) \<longleftrightarrow>
      (\<forall>(x, y) \<in> edges dependencies (map graph_entry ms). y \<in> set (map lm_id ms)) \<and> acyclic (edges dependencies (map graph_entry ms))"
    unfolding lab_order_def f [symmetric]
    by (rule explore_all) (use assms in \<open>simp_all add: f comp_def dependencies_def del: map_map\<close>)
  then show ?thesis unfolding graph_edges [OF assms] by (auto simp: image_subset_iff split_beta)
qed

text \<open>Before \<open>b\<close> in a start order: at a smaller position.\<close>

definition starts_before :: "string list \<Rightarrow> string \<Rightarrow> string \<Rightarrow> bool" where
  "starts_before ord b a \<longleftrightarrow> position ord b < position ord a"

lemma lab_order_sorted:
  assumes "distinct (map lm_id ms)" and "lab_order (map graph_entry ms) = Inr ord"
  shows "distinct ord" and "set ord = lm_id ` set ms" and "list_all (\<lambda>m. list_all (\<lambda>b. starts_before ord b (lm_id m)) (lm_depends m)) ms"
proof -
  from explore_settles [OF assms(2) [unfolded lab_order_def]]
  have s: "settled dependencies (map graph_entry ms) {} ord" "lm_id ` set ms \<subseteq> set ord" by (auto simp: comp_def)
  show "distinct ord" by (rule settled_distinct [OF s(1)])
  show all: "set ord = lm_id ` set ms" using settled_known [OF s(1)] s(2) by auto
  show "list_all (\<lambda>m. list_all (\<lambda>b. starts_before ord b (lm_id m)) (lm_depends m)) ms"
    unfolding list_all_iff
  proof (intro ballI)
    fix m b assume m: "m \<in> set ms" "b \<in> set (lm_depends m)"
    then have "(lm_id m, b) \<in> edges dependencies (map graph_entry ms)" unfolding graph_edges [OF assms(1)] depends_on_def by blast
    then show "starts_before ord b (lm_id m)"
      using settled_edge [OF s(1)] all m(1) unfolding starts_before_def by blast
  qed
qed

section \<open>Accepted labs\<close>

text \<open>
  C30. A lab is accepted exactly when it is declaratively startable: network and machine identities
  are distinct, every declaration is accepted on its own, no two declared subnets share an address,
  every machine depends only on machines of the lab and no machine depends on itself through others.
  The order reported then lists every machine once, each after everything it depends on.
\<close>

theorem lab_accepted:
  "case decode raw of
     Inl e \<Rightarrow> validate_lab decode raw = Inl (Json_error e)
   | Inr d \<Rightarrow> (case validate_lab decode raw of
       Inl e \<Rightarrow> \<not> startable d
     | Inr rep \<Rightarrow> startable d \<and> lr_valid rep \<and> distinct (lr_order rep) \<and> set (lr_order rep) = lm_id ` set (lab_machines d) \<and>
         list_all (\<lambda>m. list_all (\<lambda>b. starts_before (lr_order rep) b (lm_id m)) (lm_depends m)) (lab_machines d))"
proof (cases "decode raw")
  case (Inr d)
  let ?N = "fold after_net (lab_networks d) no_nets" and ?M = "map graph_entry (lab_machines d)"
  let ?g0 = "\<lparr>lg_graph = [], lg_warnings = ls_warnings ?N\<rparr>"
  define nets where "nets = map_of (map net_entry (lab_networks d))"
  have ne: "map_of (ls_nets ?N) = nets" by (simp add: nets_fold nets_def no_nets_def)
  have net: "foldr_res add_network (lab_networks d) no_nets = Inr st \<longleftrightarrow> distinct (map ln_id (lab_networks d)) \<and>
      list_all network_declared_ok (lab_networks d) \<and> sorted_wrt share_none (declared_subnets (lab_networks d)) \<and> st = ?N" for st
    unfolding networks_fold by (auto simp: no_nets_def)
  show ?thesis
  proof (cases "validate_lab decode raw")
    case (Inl e)
    have "\<not> startable d"
    proof
      assume s: "startable d"
      then have n: "foldr_res add_network (lab_networks d) no_nets = Inr ?N" unfolding net startable_def by blast
      obtain g where g: "foldr_res (add_machine nets) (lab_machines d) ?g0 = Inr g"
        using machines_fold_ok [of "lab_machines d" ?g0 nets] s unfolding startable_def nets_def by auto
      then have "lg_graph g = ?M" using machines_fold [OF g] by simp
      moreover obtain ord where "lab_order ?M = Inr ord" using lab_order_iff [of "lab_machines d"] s unfolding startable_def by blast
      ultimately show False using Inl Inr n g by (simp add: validate_lab_def ne)
    qed
    then show ?thesis using Inr Inl by simp
  next
    case rep: (Inr rep)
    then obtain st g where n: "foldr_res add_network (lab_networks d) no_nets = Inr st"
      and g: "foldr_res (add_machine (map_of (ls_nets st))) (lab_machines d) \<lparr>lg_graph = [], lg_warnings = ls_warnings st\<rparr> = Inr g"
      and o: "lab_order (lg_graph g) = Inr (lr_order rep)" and v: "lr_valid rep"
      using Inr by (auto simp: validate_lab_def)
    have st: "st = ?N" using n unfolding net by blast
    note m = machines_fold [OF g]
    then have d: "distinct (map lm_id (lab_machines d))" and gm: "lg_graph g = ?M" by simp_all
    note so = lab_order_sorted [OF d o [unfolded gm]]
    have "startable d" using n m lab_order_iff [OF d] o gm unfolding net startable_def st ne nets_def by auto
    then show ?thesis using Inr rep v so by simp
  qed
qed (simp add: validate_lab_def)

end
