(* ===== verification/Volumes.thy ===== *)
theory Volumes
  imports Search "HOL-Library.List_Lexorder" "HOL-Library.Char_ord"
begin

text \<open>
  The graph of storage volumes and their backing files (\<^verbatim>\<open>internal/app/storage/graph.go\<close>): its
  validation by a coloured search and the volumes garbage collection may remove. Go iterates over
  the map of volumes in an unspecified order, which is the argument \<open>order\<close>.
\<close>

section \<open>Volumes\<close>

record volume =
  vo_id :: string
  vo_parent :: string
  vo_immutable :: bool
  vo_ownership :: string
  vo_references :: "string list"
  vo_uncertain :: bool

type_synonym graph = "(string \<times> volume) list"

definition backing :: "graph \<Rightarrow> string \<Rightarrow> volume \<Rightarrow> string + string list" where
  "backing g i v =
     (if i \<noteq> vo_id v then Inl ''volume identity mismatch''
      else if vo_parent v = [] then Inr []
      else case map_of g (vo_parent v) of
          Some p \<Rightarrow> if vo_immutable p then Inr [vo_parent v] else Inl ''backing parent must be known and immutable''
        | None \<Rightarrow> Inl ''backing parent must be known and immutable'')"

definition unknown_backing :: "string \<Rightarrow> string" where
  "unknown_backing i = ''unknown backing object '' @ i"

definition validate_volumes :: "string list \<Rightarrow> graph \<Rightarrow> string + unit" where
  "validate_volumes order g =
     bindr (explore (backing g) ''backing cycle'' unknown_backing g [] order []) (\<lambda>_. Inr ())"

definition referenced :: "graph \<Rightarrow> string \<Rightarrow> bool" where
  "referenced g i \<longleftrightarrow> list_ex (\<lambda>(k, v). vo_parent v \<noteq> [] \<and> vo_parent v = i \<or> vo_references v \<noteq> [] \<and> vo_id v = i) g"

definition deletion_candidates :: "string list \<Rightarrow> graph \<Rightarrow> string + string list" where
  "deletion_candidates order g =
     bindr (validate_volumes order g) (\<lambda>_.
       if list_ex (\<lambda>(k, v). vo_uncertain v) g then Inl ''uncertain graph blocks all garbage collection''
       else Inr (sort (map fst (filter (\<lambda>(i, v). \<not> referenced g i \<and> vo_ownership v = ''managed'') g))))"

section \<open>Valid graphs\<close>

definition parent_of :: "graph \<Rightarrow> (string \<times> string) set" where
  "parent_of g = {(i, vo_parent v) | i v. map_of g i = Some v \<and> vo_parent v \<noteq> []}"

definition volume_ok :: "graph \<Rightarrow> string \<times> volume \<Rightarrow> bool" where
  "volume_ok g r \<longleftrightarrow> fst r = vo_id (snd r) \<and> (vo_parent (snd r) = [] \<or>
     (case map_of g (vo_parent (snd r)) of Some p \<Rightarrow> vo_immutable p | None \<Rightarrow> False))"

definition sound_graph :: "graph \<Rightarrow> bool" where
  "sound_graph g \<longleftrightarrow> list_all (volume_ok g) g \<and> acyclic (parent_of g)"

lemma backing_ok: "(\<exists>ys. backing g i v = Inr ys) \<longleftrightarrow> volume_ok g (i, v)"
  by (auto simp: backing_def volume_ok_def split: option.splits if_splits)

lemma backing_Inr: "backing g i v = Inr ys \<Longrightarrow> ys = (if vo_parent v = [] then [] else [vo_parent v])"
  by (auto simp: backing_def split: option.splits if_splits)

lemma backing_edges: "list_all (volume_ok g) g \<Longrightarrow> edges (backing g) g = parent_of g"
proof -
  assume a: "list_all (volume_ok g) g"
  have b: "backing g x v = Inr (if vo_parent v = [] then [] else [vo_parent v])" if "map_of g x = Some v" for x v
    using a map_of_SomeD [OF that] backing_ok [of g x v] backing_Inr [of g x v] by (auto simp: list_all_iff)
  have "(x, y) \<in> edges (backing g) g \<longleftrightarrow> (x, y) \<in> parent_of g" for x y
    by (cases "map_of g x") (auto simp: edges_def parent_of_def b)
  then show ?thesis by auto
qed

lemma parents_known: "list_all (volume_ok g) g \<Longrightarrow> (x, y) \<in> parent_of g \<Longrightarrow> y \<in> set (map fst g)"
proof -
  assume a: "list_all (volume_ok g) g" and "(x, y) \<in> parent_of g"
  then obtain v where v: "map_of g x = Some v" "vo_parent v = y" "y \<noteq> []" by (auto simp: parent_of_def)
  have "volume_ok g (x, v)" using a map_of_SomeD [OF v(1)] by (auto simp: list_all_iff)
  then have "map_of g y \<noteq> None" using v by (auto simp: volume_ok_def split: option.splits)
  then show ?thesis by (simp add: map_of_eq_None_iff)
qed

lemma volumes_valid_iff:
  assumes "distinct (map fst g)" and "set order = set (map fst g)"
  shows "validate_volumes order g = Inr () \<longleftrightarrow> sound_graph g"
proof (cases "list_all (volume_ok g) g")
  case True
  have "(\<exists>ord. explore (backing g) ''backing cycle'' unknown_backing g [] order [] = Inr ord) \<longleftrightarrow>
      (\<forall>(x, y) \<in> edges (backing g) g. y \<in> set (map fst g)) \<and> acyclic (edges (backing g) g)"
  proof (rule explore_all [OF assms(2,1)])
    fix x v e assume "(x, v) \<in> set g" "backing g x v = Inl e"
    then show False using True backing_ok [of g x v] by (auto simp: list_all_iff)
  qed
  moreover have "\<forall>(x, y) \<in> parent_of g. y \<in> set (map fst g)" using parents_known [OF True] by blast
  ultimately show ?thesis using True unfolding backing_edges [OF True] sound_graph_def validate_volumes_def by simp
next
  case False
  then obtain x v where x: "(x, v) \<in> set g" "\<not> volume_ok g (x, v)" by (auto simp: list_all_iff)
  have "validate_volumes order g \<noteq> Inr ()"
  proof
    assume "validate_volumes order g = Inr ()"
    then obtain ord where "explore (backing g) ''backing cycle'' unknown_backing g [] order [] = Inr ord"
      by (auto simp: validate_volumes_def)
    from explore_settles [OF this] have s: "settled (backing g) g {} ord" "set order \<subseteq> set ord" by auto
    have "x \<in> set ord" using s(2) x(1) assms(2) by force
    moreover have m: "map_of g x = Some v" using x(1) assms(1) by simp
    ultimately have "\<exists>ys. backing g x v = Inr ys" using settled_resolved [OF s(1)] by blast
    then show False using x(2) backing_ok by blast
  qed
  then show ?thesis using False by (simp add: sound_graph_def)
qed

section \<open>Garbage collection\<close>

definition collect :: "string list \<Rightarrow> graph \<Rightarrow> graph" where
  "collect cs g = filter (\<lambda>(i, v). i \<notin> set cs) g"

lemma map_of_collect: "map_of (collect cs g) i = (if i \<in> set cs then None else map_of g i)"
  unfolding collect_def by (induction g) auto

lemma collect_sound:
  assumes s: "sound_graph g" and free: "\<And>c. c \<in> set cs \<Longrightarrow> \<not> referenced g c"
  shows "sound_graph (collect cs g)"
proof -
  have sub: "parent_of (collect cs g) \<subseteq> parent_of g" by (auto simp: parent_of_def map_of_collect split: if_splits)
  have "acyclic (parent_of (collect cs g))" by (rule acyclic_subset [OF _ sub]) (use s in \<open>simp add: sound_graph_def\<close>)
  moreover have "volume_ok (collect cs g) r" if r: "r \<in> set (collect cs g)" for r
  proof -
    have "r \<in> set g" using r by (auto simp: collect_def)
    then have ok: "volume_ok g r" using s by (auto simp: sound_graph_def list_all_iff)
    have "vo_parent (snd r) \<notin> set cs" if "vo_parent (snd r) \<noteq> []"
      using free \<open>r \<in> set g\<close> that by (force simp: referenced_def list_ex_iff)
    then show ?thesis using ok by (auto simp: volume_ok_def map_of_collect)
  qed
  ultimately show ?thesis by (simp add: sound_graph_def list_all_iff)
qed

text \<open>
  C31. Over a map of volumes, whatever order it is iterated in, validation accepts exactly the
  graphs in which every volume is stored under its identity, every parent is known and immutable and
  no volume backs itself; garbage collection then names only managed volumes that no volume is based
  on and nothing references, refuses while any volume is uncertain, and removing what it names
  leaves a graph that is valid again.
\<close>

theorem collection_safe:
  assumes "distinct (map fst g)" and "set order = set (map fst g)"
  shows "(validate_volumes order g = Inr () \<longleftrightarrow> sound_graph g) \<and>
    (case deletion_candidates order g of
       Inl e \<Rightarrow> \<not> sound_graph g \<or> list_ex (\<lambda>(i, v). vo_uncertain v) g
     | Inr cs \<Rightarrow> sound_graph g \<and> \<not> list_ex (\<lambda>(i, v). vo_uncertain v) g \<and> sorted cs \<and>
         (\<forall>i. i \<in> set cs \<longleftrightarrow> (\<exists>v. map_of g i = Some v \<and> vo_ownership v = ''managed'' \<and> \<not> referenced g i)) \<and>
         validate_volumes (map fst (collect cs g)) (collect cs g) = Inr ())"
proof (cases "deletion_candidates order g")
  case (Inl e)
  then show ?thesis using volumes_valid_iff [OF assms]
    by (cases "validate_volumes order g") (auto simp: deletion_candidates_def split: if_splits)
next
  case (Inr cs)
  then have v: "validate_volumes order g = Inr ()" and u: "\<not> list_ex (\<lambda>(i, v). vo_uncertain v) g"
    and cs: "cs = sort (map fst (filter (\<lambda>(i, v). \<not> referenced g i \<and> vo_ownership v = ''managed'') g))"
    by (auto simp: deletion_candidates_def split: if_splits)
  have s: "sound_graph g" using volumes_valid_iff [OF assms] v by simp
  have mem: "i \<in> set cs \<longleftrightarrow> (\<exists>v. map_of g i = Some v \<and> vo_ownership v = ''managed'' \<and> \<not> referenced g i)" for i
    unfolding cs using assms(1) by (force simp: map_of_eq_Some_iff)
  have "sound_graph (collect cs g)" by (rule collect_sound [OF s]) (use mem in blast)
  moreover have "distinct (map fst (collect cs g))" using assms(1) unfolding collect_def by (rule distinct_map_filter)
  ultimately have "validate_volumes (map fst (collect cs g)) (collect cs g) = Inr ()" using volumes_valid_iff by blast
  then show ?thesis using Inr v s u mem cs by simp
qed

definition demo_volumes :: graph where
  "demo_volumes =
     [(''base'', \<lparr>vo_id = ''base'', vo_parent = [], vo_immutable = True, vo_ownership = ''managed'', vo_references = [], vo_uncertain = False\<rparr>),
      (''disk'', \<lparr>vo_id = ''disk'', vo_parent = ''base'', vo_immutable = False, vo_ownership = ''managed'', vo_references = [''vm''], vo_uncertain = False\<rparr>),
      (''old'', \<lparr>vo_id = ''old'', vo_parent = ''base'', vo_immutable = False, vo_ownership = ''managed'', vo_references = [], vo_uncertain = False\<rparr>)]"

lemma demo_candidates: "deletion_candidates [''disk'', ''old'', ''base''] demo_volumes = Inr [''old'']"
  by (simp add: deletion_candidates_def validate_volumes_def demo_volumes_def backing_def referenced_def unknown_backing_def)

theorem collection_safe_witness:
  "sound_graph demo_volumes \<and> validate_volumes [''base'', ''disk''] (collect [''old''] demo_volumes) = Inr ()"
proof -
  have "distinct (map fst demo_volumes)" "set [''disk'', ''old'', ''base''] = set (map fst demo_volumes)"
    by (simp_all add: demo_volumes_def insert_commute)
  from collection_safe [OF this] demo_candidates
  have "sound_graph demo_volumes" "validate_volumes (map fst (collect [''old''] demo_volumes)) (collect [''old''] demo_volumes) = Inr ()"
    by simp_all
  then show ?thesis by (simp add: collect_def demo_volumes_def)
qed

end
