(* ===== verification/Unicode_Text.thy ===== *)
theory Unicode_Text
  imports Text
begin

text \<open>
  Go's view of a byte string as UTF-8 and as a slash-separated path: the runes of a valid text
  (\<^verbatim>\<open>unicode/utf8\<close>), the control and format characters (\<^verbatim>\<open>unicode.IsControl\<close> and the
  category Cf), texts without surrounding white space, and \<^verbatim>\<open>path.Clean\<close>.
\<close>

section \<open>Runes\<close>

definition cont :: "nat \<Rightarrow> bool" where
  "cont b \<longleftrightarrow> 0x80 \<le> b \<and> b \<le> 0xBF"

text \<open>The second byte of a three or four byte sequence: no overlong forms, surrogates or values past U+10FFFF.\<close>

definition second3 :: "nat \<Rightarrow> nat \<Rightarrow> bool" where
  "second3 a b \<longleftrightarrow> cont b \<and> (a = 0xE0 \<longrightarrow> 0xA0 \<le> b) \<and> (a = 0xED \<longrightarrow> b \<le> 0x9F)"

definition second4 :: "nat \<Rightarrow> nat \<Rightarrow> bool" where
  "second4 a b \<longleftrightarrow> cont b \<and> (a = 0xF0 \<longrightarrow> 0x90 \<le> b) \<and> (a = 0xF4 \<longrightarrow> b \<le> 0x8F)"

fun utf8 :: "nat list \<Rightarrow> nat list option" where
  "utf8 [] = Some []"
| "utf8 (a # r) =
     (if a < 0x80 then map_option ((#) a) (utf8 r)
      else case r of [] \<Rightarrow> None | b # r2 \<Rightarrow>
        if 0xC2 \<le> a \<and> a \<le> 0xDF \<and> cont b then map_option ((#) ((a - 0xC0) * 64 + (b - 0x80))) (utf8 r2)
        else case r2 of [] \<Rightarrow> None | c # r3 \<Rightarrow>
          if 0xE0 \<le> a \<and> a \<le> 0xEF \<and> second3 a b \<and> cont c
          then map_option ((#) ((a - 0xE0) * 4096 + (b - 0x80) * 64 + (c - 0x80))) (utf8 r3)
          else case r3 of [] \<Rightarrow> None | d # r4 \<Rightarrow>
            if 0xF0 \<le> a \<and> a \<le> 0xF4 \<and> second4 a b \<and> cont c \<and> cont d
            then map_option ((#) ((a - 0xF0) * 262144 + (b - 0x80) * 4096 + (c - 0x80) * 64 + (d - 0x80))) (utf8 r4)
            else None)"

text \<open>A \<^verbatim>\<open>range\<close> loop over any byte string: a byte that starts no valid sequence is U+FFFD.\<close>

fun range_runes :: "nat list \<Rightarrow> nat list" where
  "range_runes [] = []"
| "range_runes (a # r) =
     (if a < 0x80 then a # range_runes r
      else case r of [] \<Rightarrow> 0xFFFD # range_runes r | b # r2 \<Rightarrow>
        if 0xC2 \<le> a \<and> a \<le> 0xDF \<and> cont b then ((a - 0xC0) * 64 + (b - 0x80)) # range_runes r2
        else case r2 of [] \<Rightarrow> 0xFFFD # range_runes r | c # r3 \<Rightarrow>
          if 0xE0 \<le> a \<and> a \<le> 0xEF \<and> second3 a b \<and> cont c
          then ((a - 0xE0) * 4096 + (b - 0x80) * 64 + (c - 0x80)) # range_runes r3
          else case r3 of [] \<Rightarrow> 0xFFFD # range_runes r | d # r4 \<Rightarrow>
            if 0xF0 \<le> a \<and> a \<le> 0xF4 \<and> second4 a b \<and> cont c \<and> cont d
            then ((a - 0xF0) * 262144 + (b - 0x80) * 4096 + (c - 0x80) * 64 + (d - 0x80)) # range_runes r4
            else 0xFFFD # range_runes r)"

definition all_runes :: "(nat \<Rightarrow> bool) \<Rightarrow> string \<Rightarrow> bool" where
  "all_runes P s \<longleftrightarrow> list_all P (range_runes (map of_char s))"

definition runes :: "string \<Rightarrow> nat list option" where
  "runes s = utf8 (map of_char s)"

definition is_control :: "nat \<Rightarrow> bool" where
  "is_control r \<longleftrightarrow> r < 0x20 \<or> 0x7F \<le> r \<and> r \<le> 0x9F"

definition format_ranges :: "(nat \<times> nat) list" where
  "format_ranges = [(0xAD, 0xAD), (0x600, 0x605), (0x61C, 0x61C), (0x6DD, 0x6DD), (0x70F, 0x70F), (0x890, 0x891), (0x8E2, 0x8E2),
     (0x180E, 0x180E), (0x200B, 0x200F), (0x202A, 0x202E), (0x2060, 0x2064), (0x2066, 0x206F), (0xFEFF, 0xFEFF), (0xFFF9, 0xFFFB),
     (0x110BD, 0x110BD), (0x110CD, 0x110CD), (0x13430, 0x1343F), (0x1BCA0, 0x1BCA3), (0x1D173, 0x1D17A), (0xE0001, 0xE0001),
     (0xE0020, 0xE007F)]"

definition is_format :: "nat \<Rightarrow> bool" where
  "is_format r \<longleftrightarrow> list_ex (\<lambda>(lo, hi). lo \<le> r \<and> r \<le> hi) format_ranges"

text \<open>Valid UTF-8 whose runes all satisfy a test.\<close>

definition runes_ok :: "(nat \<Rightarrow> bool) \<Rightarrow> string \<Rightarrow> bool" where
  "runes_ok P s \<longleftrightarrow> (case runes s of None \<Rightarrow> False | Some rs \<Rightarrow> list_all P rs)"

definition printable :: "nat \<Rightarrow> bool" where
  "printable r \<longleftrightarrow> \<not> is_control r \<and> \<not> is_format r"

text \<open>\<^verbatim>\<open>strings.TrimSpace(s) == s\<close> of a valid text: it neither starts nor ends with white space.\<close>

definition trimmed :: "string \<Rightarrow> bool" where
  "trimmed s \<longleftrightarrow> space_width s = 0 \<and>
     list_all (\<lambda>k. length s < k \<or> space_width (drop (length s - k) s) \<noteq> k) [1, 2, 3]"

lemma utf8_ascii: "list_all (\<lambda>b. b < 0x80) bs \<Longrightarrow> utf8 bs = Some bs"
  by (induction bs) auto

lemma runes_ok_ascii:
  assumes "list_all (\<lambda>c. (of_char c :: nat) < 0x80 \<and> P (of_char c)) s"
  shows "runes_ok P s"
proof -
  have "utf8 (map of_char s) = Some (map of_char s)" by (rule utf8_ascii) (use assms in \<open>auto simp: list_all_iff\<close>)
  then show ?thesis using assms by (auto simp: runes_ok_def runes_def list_all_iff)
qed

lemma all_runes_ascii:
  assumes "list_all (\<lambda>c. (of_char c :: nat) < 0x80 \<and> P (of_char c)) s"
  shows "all_runes P s"
proof -
  have "list_all (\<lambda>b. b < 0x80) bs \<Longrightarrow> range_runes bs = bs" for bs by (induction bs) auto
  from this [of "map of_char s"] show ?thesis using assms by (auto simp: all_runes_def list_all_iff)
qed

section \<open>Paths\<close>

fun join_path :: "string list \<Rightarrow> string" where
  "join_path [] = []"
| "join_path [s] = s"
| "join_path (s # t # ts) = s @ CHR ''/'' # join_path (t # ts)"

text \<open>One component of a path; \<open>out\<close> holds the components kept, innermost first.\<close>

definition clean_step :: "bool \<Rightarrow> string list \<Rightarrow> string \<Rightarrow> string list" where
  "clean_step rooted out s =
     (if s = [] \<or> s = ''.'' then out
      else if s \<noteq> ''..'' then s # out
      else case out of
          [] \<Rightarrow> if rooted then [] else [''..'']
        | t # ts \<Rightarrow> if t = ''..'' then ''..'' # out else ts)"

definition path_clean :: "string \<Rightarrow> string" where
  "path_clean s =
     (let rooted = (s \<noteq> [] \<and> hd s = CHR ''/''); out = foldl (clean_step rooted) [] (split_on CHR ''/'' s);
          body = join_path (rev out) in
      if rooted then CHR ''/'' # body else if body = [] then ''.'' else body)"

definition path_absolute :: "string \<Rightarrow> bool" where
  "path_absolute s \<longleftrightarrow> s \<noteq> [] \<and> hd s = CHR ''/''"

text \<open>\<^verbatim>\<open>filepath.IsLocal\<close>, \<^verbatim>\<open>Base\<close> and \<^verbatim>\<open>Join\<close> on Linux.\<close>

definition path_local :: "string \<Rightarrow> bool" where
  "path_local s \<longleftrightarrow> s \<noteq> [] \<and> \<not> path_absolute s \<and>
     (let q = (if list_ex (\<lambda>c. c = ''.'' \<or> c = ''..'') (split_on CHR ''/'' s) then path_clean s else s) in
      q \<noteq> ''..'' \<and> \<not> has_prefix ''../'' q)"

definition path_base :: "string \<Rightarrow> string" where
  "path_base s = (if s = [] then ''.'' else
     let t = rev (dropWhile (\<lambda>c. c = CHR ''/'') (rev s)) in if t = [] then ''/'' else last (split_on CHR ''/'' t))"

definition path_join :: "string \<Rightarrow> string \<Rightarrow> string" where
  "path_join a b = (if a = [] \<and> b = [] then [] else if a = [] then path_clean b else path_clean (a @ ''/'' @ b))"

section \<open>Text for display\<close>

text \<open>\<^verbatim>\<open>strings.Builder.WriteRune\<close> of a rune a \<^verbatim>\<open>range\<close> loop yields.\<close>

definition put_rune :: "nat \<Rightarrow> nat list" where
  "put_rune r =
     (if r < 0x80 then [r]
      else if r < 0x800 then [0xC0 + r div 64, 0x80 + r mod 64]
      else if r < 0x10000 then [0xE0 + r div 4096, 0x80 + r div 64 mod 64, 0x80 + r mod 64]
      else [0xF0 + r div 262144, 0x80 + r div 4096 mod 64, 0x80 + r div 64 mod 64, 0x80 + r mod 64])"

text \<open>
  \<^verbatim>\<open>SafeText\<close>: controls, format characters and escape sequences are left out. The states of
  the scan are those of the code: 0 outside, 1 after ESC, 2 in a CSI, 3 in an OSC, 4 after ESC in an OSC.
\<close>

fun safe_runes :: "nat \<Rightarrow> nat list \<Rightarrow> nat list" where
  "safe_runes e [] = []"
| "safe_runes e (r # rs) =
     (if e = 1 then safe_runes (if r = 0x5B then 2 else if r = 0x5D then 3 else 0) rs
      else if e = 2 then safe_runes (if 0x40 \<le> r \<and> r \<le> 0x7E then 0 else 2) rs
      else if e = 3 then safe_runes (if r = 7 then 0 else if r = 27 then 4 else 3) rs
      else if e = 4 then safe_runes (if r = 0x5C then 0 else 3) rs
      else if r = 27 then safe_runes 1 rs
      else if r = 10 \<or> r = 9 \<or> printable r then r # safe_runes 0 rs
      else safe_runes 0 rs)"

definition safe_display :: "string \<Rightarrow> string" where
  "safe_display s = map char_of (concat (map put_rune (safe_runes 0 (range_runes (map of_char s)))))"

end
