(* ===== verification/Guest_Recipe.thy ===== *)
theory Guest_Recipe
  imports Unicode_Text Netip6 Store
begin

text \<open>
  Guest recipes (\<^verbatim>\<open>internal/guestsetup/recipe.go\<close>, \<^verbatim>\<open>tools.go\<close>, \<^verbatim>\<open>service.go\<close>): the recipe and
  its validation, the built-in recipes that alone may use sudo, the frozen input of a plan and its
  binding to the plan, and the revalidation of the machine and the SSH tool before every stage.
  Strict JSON decoding, the journal's encoder and the digests are fields of \<open>guest\<close>, the host is
  reached through \<open>transport\<close> and the provider.
\<close>

section \<open>Recipes\<close>

record recipe =
  re_api :: string
  re_kind :: string
  re_name :: string
  re_version :: string
  re_profile :: string
  re_privilege :: string
  re_transport :: string
  re_idempotent :: bool
  re_timeout :: int
  re_check :: string
  re_apply :: string
  re_verify :: string
  re_reboot :: string

definition invalid :: "string \<Rightarrow> go_error + 'a" where
  "invalid msg = failr ''INVALID_INPUT'' (''guest recipe: '' @ msg)"

definition digest_pattern :: "string \<Rightarrow> bool" where
  "digest_pattern s \<longleftrightarrow> length s = 64 \<and> list_all lower_hex s"

definition canonical_uuid :: "string \<Rightarrow> bool" where
  "canonical_uuid s \<longleftrightarrow> map length (split_on CHR ''-'' s) = [8, 4, 4, 4, 12] \<and> list_all (list_all lower_hex) (split_on CHR ''-'' s)"

definition valid_uuid :: "string \<Rightarrow> bool" where
  "valid_uuid s \<longleftrightarrow> canonical_uuid s \<and> s \<noteq> ''00000000-0000-0000-0000-000000000000''"

definition recipe_name :: "string \<Rightarrow> bool" where
  "recipe_name s \<longleftrightarrow> name_shape is_lower (\<lambda>c. is_lower c \<or> is_digit c \<or> c = CHR ''-'') 62 s"

definition recipe_version :: "string \<Rightarrow> bool" where
  "recipe_version s \<longleftrightarrow> length (split_on CHR ''.'' s) = 3 \<and> list_all (\<lambda>p. p \<noteq> [] \<and> list_all is_digit p) (split_on CHR ''.'' s)"

definition safe_text :: "string \<Rightarrow> nat \<Rightarrow> bool \<Rightarrow> bool" where
  "safe_text s limit multiline \<longleftrightarrow> length s \<le> limit \<and>
     runes_ok (\<lambda>r. \<not> is_format r \<and> (is_control r \<longrightarrow> multiline \<and> r \<in> {10, 13, 9})) s"

section \<open>The built-in tools\<close>

definition quote :: string where
  "quote = [CHR 39]"

definition script_lines :: "string list \<Rightarrow> string" where
  "script_lines ls = concat (map (\<lambda>l. l @ [CHR 10]) ls)"

definition tools_profiles :: "string list" where
  "tools_profiles = [''linux-auto'', ''debian'', ''ubuntu'', ''fedora'']"

definition tools_guard :: "string \<Rightarrow> string" where
  \<open>tools_guard profile =
     script_lines [''set -eu'', ''PATH=/usr/sbin:/usr/bin:/sbin:/bin'', ''export PATH'', ''ID='',
       ''test -r /etc/os-release || exit 20'', ''. /etc/os-release'',
       ''case "${ID:-}" in debian|ubuntu|fedora) ;; *) exit 20 ;; esac''] @
     (if profile = ''linux-auto'' then []
      else script_lines [''test "$ID" = '' @ quote @ profile @ quote @ '' || exit 20'']) @
     script_lines [''test -d /run/systemd/system && test -x /usr/bin/systemctl || exit 21'',
       ''test -c /dev/virtio-ports/org.qemu.guest_agent.0 || exit 22'']\<close>

definition tools_packages :: "bool \<Rightarrow> string list" where
  "tools_packages desktop = ''qemu-guest-agent'' # (if desktop then [''spice-vdagent''] else [])"

definition package_words :: "bool \<Rightarrow> string" where
  "package_words desktop = ''qemu-guest-agent'' @ (if desktop then '' spice-vdagent'' else [])"

definition tools_query :: "bool \<Rightarrow> string" where
  \<open>tools_query desktop =
     script_lines ([''packages_installed() {'', ''  case "$ID" in'', ''    debian|ubuntu)''] @
       map (\<lambda>p. ''      test "$(/usr/bin/dpkg-query -W -f='' @ quote @ ''${Status}'' @ quote @ '' '' @ p @ '' 2>/dev/null)" = '' @
         quote @ ''install ok installed'' @ quote @ '' || return 1'') (tools_packages desktop) @
       [''      ;;'', ''    fedora) /usr/bin/rpm -q '' @ package_words desktop @ '' >/dev/null 2>&1 || return 1 ;;'', ''  esac'', ''}''])\<close>

definition tools_verify :: string where
  "tools_verify = ''packages_installed && /usr/bin/systemctl is-active --quiet qemu-guest-agent.service''"

definition tools_install :: "bool \<Rightarrow> string" where
  \<open>tools_install desktop =
     script_lines [''test -x /usr/bin/sudo && /usr/bin/sudo -n /usr/bin/true || exit 23'', ''if ! packages_installed; then'',
       ''  case "$ID" in'', ''    debian|ubuntu)'',
       ''      /usr/bin/sudo -n /usr/bin/env DEBIAN_FRONTEND=noninteractive /usr/bin/apt-get -q update || exit 24'',
       ''      /usr/bin/sudo -n /usr/bin/env DEBIAN_FRONTEND=noninteractive /usr/bin/apt-get -y --no-upgrade --no-remove install '' @
         package_words desktop @ '' || exit 24'',
       ''      ;;'', ''    fedora) /usr/bin/sudo -n /usr/bin/dnf -y install '' @ package_words desktop @ '' || exit 24 ;;'', ''  esac'', ''fi'',
       ''/usr/bin/sudo -n /usr/bin/systemctl start qemu-guest-agent.service || exit 25'']\<close>

definition builtin_tools :: "string \<Rightarrow> bool \<Rightarrow> recipe option" where
  "builtin_tools profile desktop =
     (if profile \<notin> set tools_profiles then None
      else let guard = tools_guard profile; query = tools_query desktop in
        Some \<lparr>re_api = api_version, re_kind = ''GuestRecipe'',
          re_name = ''virmill-guest-tools-'' @ profile @ (if desktop then ''-desktop'' else []), re_version = ''1.0.0'',
          re_profile = ''linux-posix'', re_privilege = ''sudo'', re_transport = ''ssh'', re_idempotent = True, re_timeout = 300,
          re_check = guard @ query @ ''if '' @ tools_verify @ ''; then exit 0; fi'' @ [CHR 10] @ ''exit 3'' @ [CHR 10],
          re_apply = guard @ query @ tools_install desktop,
          re_verify = guard @ query @ tools_verify @ '' || exit 25'' @ [CHR 10], re_reboot = ''never''\<rparr>)"

definition is_builtin :: "recipe \<Rightarrow> bool" where
  "is_builtin r \<longleftrightarrow> list_ex (\<lambda>profile. list_ex (\<lambda>desktop. builtin_tools profile desktop = Some r) [False, True]) tools_profiles"

definition tools_failure :: "int \<Rightarrow> go_error" where
  "tools_failure exit = Domain_error (fail ''GUEST_RECIPE_FAILED''
     (if exit = 20 then ''guest distribution does not match; choose Debian, Ubuntu or Fedora, or install tools manually inside this guest''
      else if exit = 21 then ''guest tools require a running systemd guest; install and manage tools manually on this guest''
      else if exit = 22 then ''guest agent channel is missing; configure org.qemu.guest_agent.0 for this VM before installing guest tools''
      else if exit = 23 then ''guest passwordless sudo is unavailable; configure sudo for the selected guest SSH user or install tools manually inside the guest''
      else if exit = 24 then ''guest package installation failed; check guest network, repositories, package locks and free space; packages may have changed''
      else if exit = 25 then ''guest tools verification failed; check qemu-guest-agent.service and the guest agent channel; installed packages are retained''
      else ''guest tools stage failed; review the guest's package and service logs before creating another plan''))"

section \<open>Validation of a recipe\<close>

text \<open>\<open>encoded\<close> is the length of the recipe's JSON.\<close>

definition script_ok :: "string \<Rightarrow> bool" where
  "script_ok s \<longleftrightarrow> text_fields s \<noteq> [] \<and> safe_text s 65536 True"

definition validate_recipe :: "(recipe \<Rightarrow> nat) \<Rightarrow> recipe \<Rightarrow> go_error + unit" where
  "validate_recipe encoded r =
     (if re_api r \<noteq> api_version \<or> re_kind r \<noteq> ''GuestRecipe'' then invalid ''virmill/v1 GuestRecipe required''
      else if \<not> recipe_name (re_name r) \<or> length (re_version r) > 64 \<or> \<not> recipe_version (re_version r)
        then invalid ''bounded lowercase recipe name and MAJOR.MINOR.PATCH version required''
      else if re_profile r \<noteq> ''linux-posix'' \<or> re_transport r \<noteq> ''ssh'' \<or> re_reboot r \<noteq> ''never''
        then failr ''UNSUPPORTED_CAPABILITY'' ''guest recipe requires linux-posix, SSH and no reboot''
      else if re_privilege r \<noteq> ''non-root'' \<and> (re_privilege r \<noteq> ''sudo'' \<or> \<not> is_builtin r)
        then failr ''UNSUPPORTED_CAPABILITY'' ''guest sudo is allowed only for exact built-in guest tools recipes''
      else if re_privilege r = ''non-root'' \<and> is_builtin (r\<lparr>re_privilege := ''sudo''\<rparr>)
        then invalid ''built-in guest tools require an explicit sudo privilege declaration''
      else if re_timeout r < 1 \<or> re_timeout r > 300 then invalid ''timeoutSeconds must be 1..300''
      else if \<not> list_all script_ok [re_check r, re_apply r, re_verify r]
        then invalid ''each script must contain bounded UTF-8 text without unsafe control characters''
      else if encoded r > 262144 then invalid ''encoded recipe exceeds the document limit''
      else Inr ())"

section \<open>The frozen input of a plan\<close>

record ssh_target =
  sh_address :: string
  sh_port :: "16 word"
  sh_user :: string
  sh_identity :: string
  sh_known :: string
  sh_identity_hash :: string
  sh_known_hash :: string

record ssh_tool =
  st_path :: string
  st_hash :: string
  st_version :: string

record frozen_input =
  fi_version :: int
  fi_resource :: resource_key
  fi_fingerprint :: string
  fi_tools :: string
  fi_recipe :: recipe
  fi_recipe_hash :: string
  fi_scripts :: "(string \<times> string) list"
  fi_target :: ssh_target
  fi_arguments :: "string list"
  fi_tool :: ssh_tool

record guest_vm =
  gv_key :: resource_key
  gv_name :: string
  gv_state :: string
  gv_ownership :: string
  gv_persistent :: string
  gv_live :: string
  gv_fingerprint :: string
  gv_autostart :: bool
  gv_tags :: "string list option"
  gv_saved :: bool

definition stage_names :: "string list" where
  "stage_names = [''readiness'', ''check'', ''apply'', ''verify'']"

definition readiness :: string where
  "readiness = ''id -u'' @ [CHR 10]"

definition script :: "recipe \<Rightarrow> string \<Rightarrow> string" where
  "script r name =
     (if name = ''readiness'' then readiness
      else if name = ''check'' then re_check r
      else if name = ''apply'' then re_apply r
      else if name = ''verify'' then re_verify r
      else [])"

text \<open>A Go map of digests is the list of its entries in key order.\<close>

definition script_digests :: "env \<Rightarrow> recipe \<Rightarrow> (string \<times> string) list" where
  "script_digests env r = map (\<lambda>name. (name, env_sha256 env (script r name))) [''apply'', ''check'', ''readiness'', ''verify'']"

definition guest_resources :: "resource_key \<Rightarrow> string list" where
  "guest_resources k = sort [key_string k, ''guest-setup:'' @ key_string k]"

definition acknowledgements :: "recipe \<Rightarrow> string list" where
  "acknowledgements r = [''guest-execution'', ''guest-host-key-binding'',
     if re_privilege r = ''sudo'' then ''guest-admin-package-install'' else ''non-root-guest-setup''] @
     (if re_idempotent r then [] else [''non-idempotent-recipe''])"

definition guest_steps :: "step list" where
  "guest_steps = map (\<lambda>name. \<lparr>step_id = name, step_action = ''guest recipe '' @ name,
     step_preconditions = [''exact approved running VM and SSH target''], step_idempotency = ''never replay an existing stage intent'',
     step_compensation = ''retain uncertain guest effect'',
     step_reconciliation = ''verify durable stage receipt only; never reconnect to rerun'',
     step_completion = ''bound stage receipt confirms the declared exit policy''\<rparr>) stage_names"

definition valid_arguments :: "string list \<Rightarrow> bool" where
  "valid_arguments args \<longleftrightarrow> length args \<le> 64 \<and> list_all (\<lambda>a. safe_text a 4096 False) args \<and> sum_list (map length args) \<le> 16384"

fun show_addr :: "addr \<Rightarrow> string" where
  "show_addr (Addr4 a) = show_addr4 a"
| "show_addr (Addr6 a z) = show_addr6 a @ (if z = [] then [] else CHR ''%'' # z)"

text \<open>\<^verbatim>\<open>IsGlobalUnicast\<close> and not \<^verbatim>\<open>IsLoopback\<close>, without a zone or an IPv4-mapped form.\<close>

fun routable :: "addr \<Rightarrow> bool" where
  "routable (Addr4 a) \<longleftrightarrow> a \<noteq> 0 \<and> a \<noteq> 0xFFFFFFFF \<and> drop_bit 24 a \<noteq> 127 \<and> drop_bit 28 a \<noteq> 14 \<and> drop_bit 16 a \<noteq> 0xA9FE"
| "routable (Addr6 a z) \<longleftrightarrow> z = [] \<and> \<not> is_4in6 a \<and> a \<noteq> 0 \<and> a \<noteq> 1 \<and> drop_bit 120 a \<noteq> 0xFF \<and> drop_bit 118 a \<noteq> 0x3FA"

definition ssh_user :: "string \<Rightarrow> bool" where
  "ssh_user s \<longleftrightarrow> name_shape (\<lambda>c. is_upper c \<or> is_lower c \<or> c = CHR ''_'') (\<lambda>c. alnum c \<or> c \<in> set ''_.-'') 31 s"

definition is_root :: "string \<Rightarrow> bool" where
  "is_root s \<longleftrightarrow> length s = 4 \<and> list_all2 (\<lambda>a b. a = b \<or> is_upper a \<and> (of_char a :: nat) + 32 = of_char b) s ''root''"

definition clean_file :: "string \<Rightarrow> bool" where
  "clean_file p \<longleftrightarrow> path_absolute p \<and> path_clean p = p \<and> safe_text p 4096 False"

definition valid_target :: "ssh_target \<Rightarrow> bool \<Rightarrow> bool" where
  "valid_target t require_hashes \<longleftrightarrow>
     (case parse_addr (sh_address t) of None \<Rightarrow> False | Some a \<Rightarrow> routable a \<and> show_addr a = sh_address t) \<and>
     sh_port t \<noteq> 0 \<and> ssh_user (sh_user t) \<and> \<not> is_root (sh_user t) \<and> clean_file (sh_identity t) \<and> clean_file (sh_known t) \<and>
     (require_hashes \<longrightarrow> digest_pattern (sh_identity_hash t) \<and> digest_pattern (sh_known_hash t))"

definition recipe_json :: "recipe \<Rightarrow> json" where
  "recipe_json r = JObj [(''apiVersion'', JStr (re_api r)), (''kind'', JStr (re_kind r)),
     (''metadata'', JObj [(''name'', JStr (re_name r)), (''version'', JStr (re_version r))]),
     (''spec'', JObj [(''profile'', JStr (re_profile r)), (''privilege'', JStr (re_privilege r)),
        (''transport'', JStr (re_transport r)), (''idempotent'', JBool (re_idempotent r)), (''timeoutSeconds'', JNum (re_timeout r)),
        (''check'', JStr (re_check r)), (''apply'', JStr (re_apply r)), (''verify'', JStr (re_verify r)),
        (''reboot'', JStr (re_reboot r))])]"

definition target_json :: "ssh_target \<Rightarrow> json" where
  "target_json t = JObj [(''address'', JStr (sh_address t)), (''port'', JNum (uint (sh_port t))), (''user'', JStr (sh_user t)),
     (''identityFile'', JStr (sh_identity t)), (''knownHostsFile'', JStr (sh_known t)),
     (''identitySHA256'', JStr (sh_identity_hash t)), (''knownHostsSHA256'', JStr (sh_known_hash t))]"

definition local_uri :: "string \<Rightarrow> bool" where
  "local_uri uri \<longleftrightarrow> uri = ''qemu:///system'' \<or> uri = ''qemu:///session''"

text \<open>
  What the service uses of the library: the digests, strict decoding of the two documents it
  reads (a value whose canonical form is the document's), its encoder, the size of a recipe's JSON.
\<close>

record ('w, 'r) guest =
  gu_env :: env
  gu_input :: "bytes \<Rightarrow> frozen_input option"
  gu_record :: "bytes \<Rightarrow> 'r option"
  gu_marshal :: "'r \<Rightarrow> bytes"
  gu_encoded :: "recipe \<Rightarrow> nat"
  gu_live :: "string \<Rightarrow> go_error + string"
  gu_journal :: bool
  gu_get :: "('w \<Rightarrow> string \<Rightarrow> string \<Rightarrow> go_error + guest_vm) option"

definition input_identity :: "plan \<Rightarrow> frozen_input \<Rightarrow> bool" where
  "input_identity p i \<longleftrightarrow> fi_version i \<in> {1, 2} \<and> valid_uuid (key_uuid (fi_resource i)) \<and>
     fi_resource i = \<lparr>provider_id = ''libvirt'', connection_id = plan_connection p, key_kind = ''vm'', key_uuid = key_uuid (fi_resource i)\<rparr> \<and>
     local_uri (plan_connection p) \<and> plan_actor p \<noteq> 0 \<and> plan_operation p = ''guest.recipe.run'' \<and> digest_pattern (fi_fingerprint i)"

definition input_content :: "env \<Rightarrow> frozen_input \<Rightarrow> bool" where
  "input_content env i \<longleftrightarrow> digest env (recipe_json (fi_recipe i)) = Inr (fi_recipe_hash i) \<and>
     fi_scripts i = script_digests env (fi_recipe i) \<and> valid_arguments (fi_arguments i) \<and> valid_target (fi_target i) True \<and>
     st_path (fi_tool i) = ''/usr/bin/ssh'' \<and> digest_pattern (st_hash (fi_tool i)) \<and> st_version (fi_tool i) \<noteq> [] \<and>
     safe_text (st_version (fi_tool i)) 512 False"

definition input_bound :: "env \<Rightarrow> plan \<Rightarrow> bytes \<Rightarrow> frozen_input \<Rightarrow> bool" where
  "input_bound env p raw i \<longleftrightarrow> digest_raw env raw = Inr (plan_input_digest p) \<and> plan_resources p = guest_resources (fi_resource i) \<and>
     plan_before p = [(key_string (fi_resource i), fi_fingerprint i)] \<and> plan_steps p = guest_steps \<and>
     plan_acks p = acknowledgements (fi_recipe i)"

definition decode_input :: "('w, 'r) guest \<Rightarrow> plan \<Rightarrow> bytes \<Rightarrow> go_error + frozen_input" where
  "decode_input g p raw =
     (if length raw > 1048576 then invalid ''stored recipe input exceeds its bound''
      else case gu_input g raw of
        None \<Rightarrow> invalid ''malformed or unknown JSON fields''
      | Some i \<Rightarrow>
          if \<not> input_identity p i then invalid ''stored recipe identity is invalid''
          else if fi_version i = 1 \<and> fi_tools i \<noteq> [] \<or> fi_version i = 2 \<and> (\<not> is_builtin (fi_recipe i) \<or> \<not> digest_pattern (fi_tools i))
            then invalid ''stored guest tools comparison contract is invalid''
          else bindr (validate_recipe (gu_encoded g) (fi_recipe i)) (\<lambda>_.
            if \<not> input_content (gu_env g) i then failr ''SOURCE_CHANGED'' ''stored recipe content or SSH identity differs''
            else if \<not> input_bound (gu_env g) p raw i then failr ''SOURCE_CHANGED'' ''stored recipe plan binding differs''
            else Inr i))"

section \<open>Revalidation\<close>

definition safe_codes :: "string list" where
  "safe_codes = [''PERMISSION_DENIED'', ''UNSUPPORTED_CAPABILITY'', ''SOURCE_CHANGED'', ''RESOURCE_BUSY'', ''RECOVERY_REQUIRED'',
     ''INVALID_INPUT'', ''INVALID_STATE'', ''GUEST_TRANSPORT_FAILED'']"

fun is_context :: "string \<Rightarrow> go_error \<Rightarrow> bool" where
  "is_context m (Context_error s) \<longleftrightarrow> s = m"
| "is_context m (Not_done e) \<longleftrightarrow> is_context m e"
| "is_context m _ \<longleftrightarrow> False"

definition safe_failure :: "go_error \<Rightarrow> string \<Rightarrow> go_error" where
  "safe_failure e msg =
     (if is_context ''context canceled'' e then Context_error ''context canceled''
      else if is_context ''context deadline exceeded'' e then Context_error ''context deadline exceeded''
      else case errors_as_domain e of
        Some d \<Rightarrow> Domain_error (fail (if err_code d \<in> set safe_codes then err_code d else ''OPERATION_FAILED'') msg)
      | None \<Rightarrow> Domain_error (fail ''OPERATION_FAILED'' msg))"

definition withheld :: "go_error + 'a \<Rightarrow> string \<Rightarrow> go_error + 'a" where
  "withheld r msg = (case r of Inl e \<Rightarrow> Inl (safe_failure e msg) | Inr x \<Rightarrow> Inr x)"

definition poll :: "go_error option \<Rightarrow> go_error + unit" where
  "poll ctx = (case ctx of Some e \<Rightarrow> Inl e | None \<Rightarrow> Inr ())"

definition boundary :: "go_error option \<Rightarrow> string \<Rightarrow> db \<Rightarrow> go_error + unit" where
  "boundary ctx op d =
     bindr (poll ctx) (\<lambda>_.
       if op = [] then Inr ()
       else bindr (withheld (get_job op d) ''guest recipe job observation failed'') (\<lambda>j.
         if job_cancel j \<and> job_state j \<noteq> Recovery_required \<and> job_state j \<noteq> Interrupted
         then failr ''RECOVERY_REQUIRED'' ''guest recipe canceled; retain stage intents and receipts for explicit reconciliation''
         else Inr ()))"

record ssh_script =
  sp_tool :: string
  sp_content :: bytes
  sp_arguments :: "string list"
  sp_timeout :: int

record ssh_result =
  sr_exit :: int
  sr_stdout :: bytes
  sr_stderr :: bytes

text \<open>The transport: its run returns the result, and the error of the child context when it ended.\<close>

record 'w transport =
  tr_identity :: "'w \<Rightarrow> go_error + ssh_tool"
  tr_inspect :: "'w \<Rightarrow> ssh_target \<Rightarrow> go_error + string \<times> string"
  tr_run :: "'w \<Rightarrow> ssh_target \<Rightarrow> ssh_script \<Rightarrow> 'w \<times> (go_error + ssh_result) \<times> go_error option"

definition validate_vm_state :: "guest_vm \<Rightarrow> resource_key \<Rightarrow> go_error + unit" where
  "validate_vm_state v k =
     (if gv_key v \<noteq> k \<or> gv_persistent v = [] \<or> gv_state v \<noteq> ''running'' \<or> gv_saved v \<or> \<not> digest_pattern (gv_fingerprint v)
      then failr ''INVALID_STATE'' ''guest recipe requires the exact persistent running VM without managed-save state''
      else Inr ())"

definition key_json :: "resource_key \<Rightarrow> json" where
  "key_json k = JObj [(''providerID'', JStr (provider_id k)), (''connectionID'', JStr (connection_id k)),
     (''kind'', JStr (key_kind k)), (''resourceUUID'', JStr (key_uuid k))]"

definition vm_json :: "guest_vm \<Rightarrow> json" where
  "vm_json v = JObj ([(''key'', key_json (gv_key v)), (''name'', JStr (gv_name v)), (''state'', JStr (gv_state v)),
     (''ownership'', JStr (gv_ownership v)), (''persistentXML'', JStr (gv_persistent v))] @
     (if gv_live v = [] then [] else [(''liveXML'', JStr (gv_live v))]) @
     [(''fingerprint'', JStr (gv_fingerprint v)), (''autostart'', JBool (gv_autostart v)),
      (''tags'', case gv_tags v of None \<Rightarrow> JNull | Some ts \<Rightarrow> JArr (map JStr ts)), (''hasManagedSave'', JBool (gv_saved v))])"

definition tools_fingerprint :: "('w, 'r) guest \<Rightarrow> guest_vm \<Rightarrow> go_error + string" where
  "tools_fingerprint g v = bindr (gu_live g (gv_live v)) (\<lambda>live.
     digest (gu_env g) (vm_json (v\<lparr>gv_live := live, gv_fingerprint := []\<rparr>)))"

definition observed_fingerprint :: "('w, 'r) guest \<Rightarrow> frozen_input \<Rightarrow> guest_vm \<Rightarrow> go_error + bool" where
  "observed_fingerprint g i v =
     (if fi_version i = 2 then bindr (tools_fingerprint g v) (\<lambda>f. Inr (f = fi_tools i)) else Inr (gv_fingerprint v = fi_fingerprint i))"

definition validate_guest ::
  "('w, 'r) guest \<Rightarrow> 'w transport option \<Rightarrow> go_error option \<Rightarrow> 'w \<Rightarrow> db \<Rightarrow> string \<Rightarrow> plan \<Rightarrow> bytes \<Rightarrow> go_error + unit" where
  "validate_guest g tr ctx w d op p raw =
     bindr (poll ctx) (\<lambda>_. case (gu_journal g, gu_get g, tr) of
       (True, Some look, Some t) \<Rightarrow>
         bindr (decode_input g p raw) (\<lambda>i.
         bindr (boundary ctx op d) (\<lambda>_.
         bindr (withheld (look w (plan_connection p) (key_uuid (fi_resource i))) ''native VM revalidation failed; details withheld'') (\<lambda>v.
         bindr (validate_vm_state v (fi_resource i)) (\<lambda>_.
         bindr (observed_fingerprint g i v) (\<lambda>unchanged.
         if \<not> unchanged then failr ''SOURCE_CHANGED'' ''VM changed after guest recipe review''
         else bindr (withheld (tr_identity t w) ''SSH executable revalidation failed'') (\<lambda>tool.
           if tool \<noteq> fi_tool i then failr ''SOURCE_CHANGED'' ''SSH executable changed after review''
           else bindr (withheld (tr_inspect t w (fi_target i)) ''SSH target files changed or became unavailable'') (\<lambda>hashes.
             if hashes \<noteq> (sh_identity_hash (fi_target i), sh_known_hash (fi_target i))
             then failr ''SOURCE_CHANGED'' ''SSH target files changed after review''
             else boundary ctx op d)))))))
     | _ \<Rightarrow> failr ''UNSUPPORTED_CAPABILITY'' ''guest recipe provider, journal and SSH transport are required'')"

end
