(* ===== verification/Guest_Stages.thy ===== *)
theory Guest_Stages
  imports Guest_Recipe
begin

text \<open>
  The stages of a guest recipe (\<^verbatim>\<open>internal/guestsetup/stages.go\<close>): a stage writes its intent to the
  journal, runs its script over SSH once, and writes the receipt; the journal's rows of a job are
  read back and checked against the plan before anything runs. An intent without a receipt is an
  effect that may or may not have happened and is never repeated.
\<close>

section \<open>Intents and receipts\<close>

text \<open>An instant in nanoseconds since Go's zero time, and the offset of its zone.\<close>

record go_time =
  tm_instant :: int
  tm_offset :: int

record stage_intent =
  ti_version :: int
  ti_operation :: string
  ti_plan :: string
  ti_plan_digest :: string
  ti_input_digest :: string
  ti_resource :: resource_key
  ti_stage :: string
  ti_script :: string
  ti_arguments :: string
  ti_target :: string
  ti_ssh :: string
  ti_run :: bool
  ti_created :: go_time

record stage_receipt =
  rc_transport :: bool
  rc_exit :: "int option"
  rc_out_bytes :: nat
  rc_err_bytes :: nat
  rc_out :: string
  rc_err :: string
  rc_uid :: "nat option"
  rc_outcome :: string
  rc_finished :: go_time

record stage_record =
  sg_intent :: stage_intent
  sg_receipt :: "stage_receipt option"

record stage_result =
  ss_stage :: string
  ss_intent :: "stage_intent option"
  ss_receipt :: "stage_receipt option"
  ss_complete :: bool
  ss_unknown :: bool

definition stage_kind :: string where
  "stage_kind = ''guest-recipe-stage-v1''"

definition stage_key :: "string \<Rightarrow> string \<Rightarrow> string" where
  "stage_key op name = op @ '':'' @ name"

definition stage_number :: "string \<Rightarrow> nat option" where
  "stage_number name = List.find (\<lambda>i. stage_names ! i = name) [0..<length stage_names]"

definition guest_job :: "string \<Rightarrow> db \<Rightarrow> plan \<Rightarrow> go_error + job" where
  "guest_job op d p =
     (if \<not> valid_uuid op then failr ''RECOVERY_REQUIRED'' ''guest recipe execution requires an accepted job identity''
      else bindr (withheld (get_job op d) ''guest recipe job unavailable'') (\<lambda>j.
        if job_plan j \<noteq> plan_id p then failr ''SOURCE_CHANGED'' ''guest recipe job and plan differ'' else Inr j))"

text \<open>A digest that fails is the empty text.\<close>

definition digest_or_empty :: "env \<Rightarrow> json \<Rightarrow> string" where
  "digest_or_empty env v = (case digest env v of Inr s \<Rightarrow> s | Inl e \<Rightarrow> [])"

definition stage_arguments :: "frozen_input \<Rightarrow> string \<Rightarrow> string list" where
  "stage_arguments i name = (if name = ''readiness'' then [] else fi_arguments i)"

definition intent :: "env \<Rightarrow> plan \<Rightarrow> frozen_input \<Rightarrow> string \<Rightarrow> string \<Rightarrow> bool \<Rightarrow> go_time \<Rightarrow> stage_intent" where
  "intent env p i op name run created = \<lparr>ti_version = 1, ti_operation = op, ti_plan = plan_id p, ti_plan_digest = plan_digest p,
     ti_input_digest = plan_input_digest p, ti_resource = fi_resource i, ti_stage = name,
     ti_script = (case map_of (fi_scripts i) name of Some s \<Rightarrow> s | None \<Rightarrow> []),
     ti_arguments = digest_or_empty env (JArr (map JStr (stage_arguments i name))),
     ti_target = digest_or_empty env (target_json (fi_target i)), ti_ssh = st_hash (fi_tool i), ti_run = run, ti_created = created\<rparr>"

definition utc :: "go_time \<Rightarrow> bool" where
  "utc t \<longleftrightarrow> tm_instant t \<noteq> 0 \<and> tm_offset t = 0"

definition completed :: "string \<Rightarrow> stage_receipt option \<Rightarrow> bool" where
  "completed name r = (case r of None \<Rightarrow> False | Some r \<Rightarrow>
     if name = ''readiness'' then rc_outcome r = ''ready''
     else if name = ''check'' then rc_outcome r \<in> {''already-configured'', ''needs-apply''}
     else if name = ''apply'' then rc_outcome r \<in> {''applied'', ''skip-apply''}
     else if name = ''verify'' then rc_outcome r = ''verified''
     else False)"

definition skipped_receipt :: "env \<Rightarrow> string \<Rightarrow> stage_receipt \<Rightarrow> bool" where
  "skipped_receipt env name r \<longleftrightarrow> name = ''apply'' \<and> rc_outcome r = ''skip-apply'' \<and> \<not> rc_transport r \<and> rc_exit r = None \<and>
     rc_uid r = None \<and> rc_out_bytes r = 0 \<and> rc_err_bytes r = 0 \<and> rc_out r = env_sha256 env [] \<and> rc_err r = env_sha256 env []"

definition uid_text :: "nat \<Rightarrow> string" where
  "uid_text n = show_nat n @ [CHR 10]"

text \<open>The outcome a run receipt must carry, or \<open>None\<close> when its other members contradict each other.\<close>

definition expected_outcome :: "env \<Rightarrow> string \<Rightarrow> int \<Rightarrow> stage_receipt \<Rightarrow> string option" where
  "expected_outcome env name code r =
     (if name = ''readiness'' then
        (case rc_uid r of
           None \<Rightarrow> Some ''failed''
         | Some u \<Rightarrow>
             if code \<noteq> 0 \<or> u = 0 \<or> u > 2 ^ 32 - 1 \<or> rc_out_bytes r \<noteq> length (uid_text u) \<or>
                rc_out r \<noteq> env_sha256 env (uid_text u) \<or> rc_err_bytes r \<noteq> 0
             then None else Some ''ready'')
      else if rc_uid r \<noteq> None then None
      else if name = ''check'' then Some (if code = 0 then ''already-configured'' else if code = 3 then ''needs-apply'' else ''failed'')
      else if name = ''apply'' then Some (if code = 0 then ''applied'' else ''failed'')
      else if name = ''verify'' then Some (if code = 0 then ''verified'' else ''failed'')
      else None)"

definition valid_receipt :: "env \<Rightarrow> string \<Rightarrow> bool \<Rightarrow> stage_receipt option \<Rightarrow> bool" where
  "valid_receipt env name run ro = (case ro of None \<Rightarrow> True | Some r \<Rightarrow>
     utc (rc_finished r) \<and> digest_pattern (rc_out r) \<and> digest_pattern (rc_err r) \<and> rc_out_bytes r \<le> 1048576 \<and> rc_err_bytes r \<le> 1048576 \<and>
     (if \<not> run then skipped_receipt env name r
      else (case rc_exit r of
          None \<Rightarrow> False
        | Some code \<Rightarrow> rc_transport r \<and> 0 \<le> code \<and> code \<le> 254 \<and>
            (rc_out_bytes r = 0 \<longrightarrow> rc_out r = env_sha256 env []) \<and> (rc_err_bytes r = 0 \<longrightarrow> rc_err r = env_sha256 env []) \<and>
            expected_outcome env name code r = Some (rc_outcome r))))"

section \<open>Reading the journal\<close>

definition record_matches :: "env \<Rightarrow> plan \<Rightarrow> frozen_input \<Rightarrow> job \<Rightarrow> string \<Rightarrow> bool \<Rightarrow> stage_record \<Rightarrow> bool" where
  "record_matches env p i j name run rc \<longleftrightarrow>
     sg_intent rc = intent env p i (job_id j) name run (ti_created (sg_intent rc)) \<and> utc (ti_created (sg_intent rc)) \<and>
     job_created j \<le> tm_instant (ti_created (sg_intent rc)) \<and> valid_receipt env name run (sg_receipt rc) \<and>
     (case sg_receipt rc of None \<Rightarrow> True | Some r \<Rightarrow> tm_instant (ti_created (sg_intent rc)) \<le> tm_instant (rc_finished r))"

definition outcome_of :: "stage_result \<Rightarrow> string" where
  "outcome_of s = (case ss_receipt s of Some r \<Rightarrow> rc_outcome r | None \<Rightarrow> [])"

definition runs :: "string \<Rightarrow> stage_result list \<Rightarrow> bool" where
  "runs name rows \<longleftrightarrow> \<not> (name = ''apply'' \<and> outcome_of (rows ! 1) = ''already-configured'')"

definition read_stage ::
  "('w, stage_record) guest \<Rightarrow> db \<Rightarrow> plan \<Rightarrow> frozen_input \<Rightarrow> job \<Rightarrow> string \<Rightarrow> bool \<times> stage_result list \<Rightarrow> go_error + bool \<times> stage_result list" where
  "read_stage g d p i j name st =
     (let (prior, rows) = st in
      case metadata_bytes stage_kind (stage_key (job_id j) name) d of
        None \<Rightarrow> Inr (False, rows @ [\<lparr>ss_stage = name, ss_intent = None, ss_receipt = None, ss_complete = False, ss_unknown = False\<rparr>])
      | Some data \<Rightarrow>
          if \<not> prior then failr ''RECOVERY_REQUIRED'' ''later guest stage intent exists without completed prerequisite receipts''
          else if length data > 16384 then failr ''RECOVERY_REQUIRED'' ''guest stage record exceeds bound''
          else (case gu_record g data of
              None \<Rightarrow> failr ''RECOVERY_REQUIRED'' ''guest stage record is malformed''
            | Some rc \<Rightarrow>
                if \<not> record_matches (gu_env g) p i j name (runs name rows) rc
                then failr ''RECOVERY_REQUIRED'' ''guest stage receipt differs from its durable intent''
                else let c = completed name (sg_receipt rc) in
                  Inr (c, rows @ [\<lparr>ss_stage = name, ss_intent = Some (sg_intent rc), ss_receipt = sg_receipt rc, ss_complete = c,
                    ss_unknown = runs name rows \<and> sg_receipt rc = None\<rparr>])))"

definition stages :: "('w, stage_record) guest \<Rightarrow> go_error option \<Rightarrow> db \<Rightarrow> plan \<Rightarrow> frozen_input \<Rightarrow> job \<Rightarrow> go_error + stage_result list" where
  "stages g ctx d p i j = bindr (poll ctx) (\<lambda>_. bindr (foldr_res (read_stage g d p i j) stage_names (True, [])) (\<lambda>(c, rows). Inr rows))"

section \<open>Running a stage\<close>

text \<open>The user identity \<^verbatim>\<open>id -u\<close> printed, when it is a canonical one that is not root.\<close>

definition received_uid :: "ssh_result \<Rightarrow> nat option" where
  "received_uid r =
     (let t = sr_stdout r in
      if sr_exit r = 0 \<and> sr_stderr r = [] \<and> length t > 1 \<and> last t = CHR 10 \<and> plain_dec (butlast t) \<and>
         0 < parse_dec (butlast t) \<and> parse_dec (butlast t) < 2 ^ 32
      then Some (parse_dec (butlast t)) else None)"

definition received :: "env \<Rightarrow> string \<Rightarrow> ssh_result \<Rightarrow> go_time \<Rightarrow> stage_receipt" where
  "received env name r now =
     (let base = \<lparr>rc_transport = True, rc_exit = Some (sr_exit r), rc_out_bytes = length (sr_stdout r),
          rc_err_bytes = length (sr_stderr r), rc_out = env_sha256 env (sr_stdout r), rc_err = env_sha256 env (sr_stderr r),
          rc_uid = None, rc_outcome = ''failed'', rc_finished = now\<rparr> in
      if name = ''readiness'' then
        (case received_uid r of Some u \<Rightarrow> base\<lparr>rc_uid := Some u, rc_outcome := ''ready''\<rparr> | None \<Rightarrow> base)
      else if name = ''check'' then
        (if sr_exit r = 0 then base\<lparr>rc_outcome := ''already-configured''\<rparr>
         else if sr_exit r = 3 then base\<lparr>rc_outcome := ''needs-apply''\<rparr> else base)
      else if name = ''apply'' \<and> sr_exit r = 0 then base\<lparr>rc_outcome := ''applied''\<rparr>
      else if name = ''verify'' \<and> sr_exit r = 0 then base\<lparr>rc_outcome := ''verified''\<rparr>
      else base)"

definition skip_receipt :: "env \<Rightarrow> go_time \<Rightarrow> stage_receipt" where
  "skip_receipt env now = \<lparr>rc_transport = False, rc_exit = None, rc_out_bytes = 0, rc_err_bytes = 0, rc_out = env_sha256 env [],
     rc_err = env_sha256 env [], rc_uid = None, rc_outcome = ''skip-apply'', rc_finished = now\<rparr>"

definition stage_timeout :: "frozen_input \<Rightarrow> string \<Rightarrow> int" where
  "stage_timeout i name = (if name = ''readiness'' \<and> re_timeout (fi_recipe i) > 10 then 10 else re_timeout (fi_recipe i))"

definition stage_script :: "frozen_input \<Rightarrow> string \<Rightarrow> ssh_script" where
  "stage_script i name = \<lparr>sp_tool = st_hash (fi_tool i), sp_content = script (fi_recipe i) name,
     sp_arguments = stage_arguments i name, sp_timeout = stage_timeout i name\<rparr>"

definition run_failure :: "frozen_input \<Rightarrow> go_error \<Rightarrow> go_error" where
  "run_failure i e = safe_failure e
     (if re_privilege (fi_recipe i) = ''sudo''
      then ''guest tools completion is unknown; check Jobs and the guest before trying another installation; remote changes may continue''
      else ''SSH stage completion is unknown; output and diagnostics withheld'')"

text \<open>One run over SSH: the host after it, and the receipt or the failure that leaves none.\<close>

definition run_script ::
  "'w transport \<Rightarrow> env \<Rightarrow> 'w \<Rightarrow> frozen_input \<Rightarrow> string \<Rightarrow> go_time \<Rightarrow> 'w \<times> (go_error + stage_receipt)" where
  "run_script t env w i name now =
     (let (w', res, child) = tr_run t w (fi_target i) (stage_script i name) in
      (w', case res of
         Inl e \<Rightarrow> Inl (run_failure i e)
       | Inr r \<Rightarrow>
           (case child of
              Some e \<Rightarrow> Inl e
            | None \<Rightarrow>
                if sr_exit r < 0 \<or> sr_exit r > 254 \<or> length (sr_stdout r) > 1048576 \<or> length (sr_stderr r) > 1048576
                then failr ''RECOVERY_REQUIRED'' ''SSH stage returned an unsupported completion record''
                else Inr (received env name r now))))"

definition stage_failure :: "frozen_input \<Rightarrow> string \<Rightarrow> stage_receipt \<Rightarrow> go_error" where
  "stage_failure i name r = (case rc_exit r of
      Some code \<Rightarrow>
        if re_privilege (fi_recipe i) = ''sudo'' \<and> name \<noteq> ''readiness'' then tools_failure code
        else Domain_error (fail ''GUEST_RECIPE_FAILED'' ''guest recipe stage failed its declared exit or non-root readiness policy; output withheld'')
    | None \<Rightarrow> Domain_error (fail ''GUEST_RECIPE_FAILED'' ''guest recipe stage failed its declared exit or non-root readiness policy; output withheld''))"

text \<open>
  The context and the journal as the k-th call of \<^verbatim>\<open>boundary\<close> finds them are \<open>polls k\<close>: a cancel
  request of another client may be committed between two of them.
\<close>

type_synonym polls = "nat \<Rightarrow> go_error option \<times> db"

definition boundary_at :: "polls \<Rightarrow> nat \<Rightarrow> string \<Rightarrow> go_error + unit" where
  "boundary_at polls k op = boundary (fst (polls k)) op (snd (polls k))"

definition at_stage :: "plan \<Rightarrow> job \<Rightarrow> step \<Rightarrow> string \<Rightarrow> go_error + nat" where
  "at_stage p j st msg = (case stage_number (step_id st) of
      None \<Rightarrow> invalid msg
    | Some k \<Rightarrow> if st \<noteq> plan_steps p ! k \<or> job_step j \<noteq> int k then invalid msg else Inr k)"

text \<open>Everything \<^verbatim>\<open>Execute\<close> checks before the intent: the input, whether the script runs.\<close>

definition stage_ready ::
  "('w, stage_record) guest \<Rightarrow> 'w transport option \<Rightarrow> polls \<Rightarrow> 'w \<Rightarrow> db \<Rightarrow> string \<Rightarrow> plan \<Rightarrow> bytes \<Rightarrow> step \<Rightarrow> go_error + frozen_input \<times> bool" where
  "stage_ready g tr polls w d op p raw st =
     bindr (validate_guest g tr (fst (polls 0)) w d op p raw) (\<lambda>_.
     bindr (decode_input g p raw) (\<lambda>i.
     bindr (guest_job op d p) (\<lambda>j.
     bindr (at_stage p j st ''unexpected guest recipe execution stage'') (\<lambda>k.
     bindr (stages g (fst (polls 0)) d p i j) (\<lambda>rows.
       if \<not> list_all ss_complete (take k rows)
       then failr ''RECOVERY_REQUIRED'' ''guest stage prerequisite receipt is incomplete''
       else if ss_intent (rows ! k) \<noteq> None
       then failr ''RECOVERY_REQUIRED'' ''guest stage already has durable intent; never rerun it''
       else bindr (boundary_at polls 1 op) (\<lambda>_. Inr (i, runs (step_id st) rows)))))))"

definition publish_receipt ::
  "('w, stage_record) guest \<Rightarrow> polls \<Rightarrow> db \<Rightarrow> string \<Rightarrow> string \<Rightarrow> frozen_input \<Rightarrow> bytes \<Rightarrow> stage_record \<Rightarrow> stage_receipt \<Rightarrow> db \<times> go_error option" where
  "publish_receipt g polls d op name i previous rc receipt =
     (case withheld (compare_put stage_kind (stage_key op name) (Some previous) (gu_marshal g (rc\<lparr>sg_receipt := Some receipt\<rparr>)) d)
         ''guest stage receipt publication failed; retain its original intent'' of
        Inl e \<Rightarrow> (d, Some e)
      | Inr d' \<Rightarrow> (d', case boundary_at polls 3 op of
            Inl e \<Rightarrow> Some e
          | Inr _ \<Rightarrow> if completed name (Some receipt) then None else Some (stage_failure i name receipt)))"

definition perform_stage ::
  "('w, stage_record) guest \<Rightarrow> 'w transport \<Rightarrow> polls \<Rightarrow> 'w \<Rightarrow> db \<Rightarrow> string \<Rightarrow> string \<Rightarrow> frozen_input \<Rightarrow> bool \<Rightarrow> bytes \<Rightarrow> stage_record \<Rightarrow> go_time \<Rightarrow>
   'w \<times> db \<times> go_error option" where
  "perform_stage g t polls w d op name i run previous rc finished =
     (if \<not> run then (w, publish_receipt g polls d op name i previous rc (skip_receipt (gu_env g) finished))
      else (case boundary_at polls 2 op of
          Inl e \<Rightarrow> (w, d, Some e)
        | Inr _ \<Rightarrow> (case run_script t (gu_env g) w i name finished of
              (w', Inl e) \<Rightarrow> (w', d, Some e)
            | (w', Inr receipt) \<Rightarrow> (w', publish_receipt g polls d op name i previous rc receipt))))"

definition execute_stage ::
  "('w, stage_record) guest \<Rightarrow> 'w transport option \<Rightarrow> polls \<Rightarrow> 'w \<Rightarrow> db \<Rightarrow> string \<Rightarrow> plan \<Rightarrow> bytes \<Rightarrow> step \<Rightarrow> go_time \<Rightarrow> go_time \<Rightarrow>
   'w \<times> db \<times> go_error option" where
  "execute_stage g tr polls w d op p raw st created finished =
     (case stage_ready g tr polls w d op p raw st of
        Inl e \<Rightarrow> (w, d, Some e)
      | Inr (i, run) \<Rightarrow>
          let name = step_id st; rc = \<lparr>sg_intent = intent (gu_env g) p i op name run created, sg_receipt = None\<rparr>;
              body = gu_marshal g rc in
          (case withheld (compare_put stage_kind (stage_key op name) None body d) ''guest stage intent was not exclusively committed'' of
             Inl e \<Rightarrow> (w, d, Some e)
           | Inr d1 \<Rightarrow>
               (case metadata_bytes stage_kind (stage_key op name) d1 of
                  None \<Rightarrow> (w, d1, Some (Domain_error (fail ''RECOVERY_REQUIRED'' ''guest stage intent readback differs; do not execute SSH'')))
                | Some previous \<Rightarrow>
                    if gu_record g previous \<noteq> Some rc
                    then (w, d1, Some (Domain_error (fail ''RECOVERY_REQUIRED'' ''guest stage intent readback differs; do not execute SSH'')))
                    else perform_stage g (the tr) polls w d1 op name i run previous rc finished)))"

section \<open>Reconciliation and result\<close>

definition reconcile_stage ::
  "('w, stage_record) guest \<Rightarrow> polls \<Rightarrow> db \<Rightarrow> string \<Rightarrow> plan \<Rightarrow> bytes \<Rightarrow> step \<Rightarrow> go_error + bool" where
  "reconcile_stage g polls d op p raw st =
     bindr (boundary_at polls 0 op) (\<lambda>_.
     bindr (decode_input g p raw) (\<lambda>i.
     bindr (guest_job op d p) (\<lambda>j.
     bindr (at_stage p j st ''unexpected guest recipe reconciliation stage'') (\<lambda>k.
     bindr (stages g (fst (polls 0)) d p i j) (\<lambda>rows.
       if \<not> list_all ss_complete (take (Suc k) rows)
       then failr ''RECOVERY_REQUIRED'' ''guest stage lacks a successful bound receipt; reconciliation never reruns SSH''
       else bindr (boundary_at polls 1 op) (\<lambda>_. Inr True))))))"

record guest_result =
  gr_operation :: string
  gr_plan :: string
  gr_state :: job_state
  gr_resource :: resource_key
  gr_recipe :: string
  gr_scripts :: "(string \<times> string) list"
  gr_stages :: "stage_result list"
  gr_complete :: bool

text \<open>\<^verbatim>\<open>Result\<close> after its check of the request: operation, actor and connection of the caller.\<close>

definition guest_outcome ::
  "('w, stage_record) guest \<Rightarrow> go_error option \<Rightarrow> db \<Rightarrow> 32 word \<Rightarrow> string \<Rightarrow> string \<Rightarrow> go_error + guest_result" where
  "guest_outcome g ctx d uid connection op =
     bindr (poll ctx) (\<lambda>_.
     if \<not> valid_uuid op then invalid ''result accepts only an operation UUID''
     else if \<not> gu_journal g then failr ''UNSUPPORTED_CAPABILITY'' ''guest recipe journal unavailable''
     else bindr (withheld (get_job op d) ''guest recipe job unavailable'') (\<lambda>j.
     bindr (withheld (get_plan (job_plan j) d) ''guest recipe plan unavailable'') (\<lambda>(p, raw).
     if uid = 0 \<or> plan_actor p \<noteq> uid \<or> connection \<noteq> plan_connection p
     then failr ''PERMISSION_DENIED'' ''guest recipe belongs to another actor or connection''
     else if plan_hash (gu_env g) p \<noteq> Inr (plan_digest p) then failr ''SOURCE_CHANGED'' ''guest recipe plan digest differs''
     else bindr (decode_input g p raw) (\<lambda>i.
     bindr (stages g ctx d p i j) (\<lambda>rows.
       let complete = (job_state j = Succeeded \<and> list_all ss_complete rows) in
       if job_state j = Succeeded \<and> \<not> complete
       then failr ''RECOVERY_REQUIRED'' ''successful guest job lacks complete stage receipts''
       else Inr \<lparr>gr_operation = job_id j, gr_plan = plan_id p, gr_state = job_state j, gr_resource = fi_resource i,
         gr_recipe = fi_recipe_hash i, gr_scripts = fi_scripts i, gr_stages = rows, gr_complete = complete\<rparr>)))))"

end
