(* ===== verification/Guest_Laws.thy ===== *)
theory Guest_Laws
  imports Guest_Stages Store_Laws
begin

text \<open>
  What holds of guest recipes: the rows of a job's stages are a completed prefix followed by at most
  one unfinished stage, a stage reaches the guest only when it is due and leaves its intent behind,
  and a receipt the coordinator wrote is one it reads back.
\<close>

section \<open>The rows of a job\<close>

text \<open>A row of the result and the record of the journal it stands for.\<close>

definition row_bound :: "('w, stage_record) guest \<Rightarrow> db \<Rightarrow> plan \<Rightarrow> frozen_input \<Rightarrow> job \<Rightarrow> stage_result \<Rightarrow> bool" where
  "row_bound g d p i j r \<longleftrightarrow>
     (case metadata_bytes stage_kind (stage_key (job_id j) (ss_stage r)) d of
        None \<Rightarrow> ss_intent r = None \<and> ss_receipt r = None \<and> \<not> ss_complete r
      | Some data \<Rightarrow> (\<exists>rc run. gu_record g data = Some rc \<and> record_matches (gu_env g) p i j (ss_stage r) run rc \<and>
          ss_intent r = Some (sg_intent rc) \<and> ss_receipt r = sg_receipt rc \<and> ss_complete r = completed (ss_stage r) (sg_receipt rc)))"

definition prefix_rows :: "nat \<Rightarrow> stage_result list \<Rightarrow> bool" where
  "prefix_rows n rows \<longleftrightarrow> list_all ss_complete (take n rows) \<and> list_all (\<lambda>r. \<not> ss_complete r) (drop n rows) \<and>
     list_all (\<lambda>r. ss_intent r = None) (drop (Suc n) rows)"

definition rows_inv :: "('w, stage_record) guest \<Rightarrow> db \<Rightarrow> plan \<Rightarrow> frozen_input \<Rightarrow> job \<Rightarrow> bool \<times> stage_result list \<Rightarrow> bool" where
  "rows_inv g d p i j st \<longleftrightarrow> list_all (row_bound g d p i j) (snd st) \<and>
     (\<exists>n \<le> length (snd st). prefix_rows n (snd st) \<and> (fst st \<longleftrightarrow> n = length (snd st)))"

lemma rows_inv_step:
  assumes r: "read_stage g d p i j name st = Inr st'" and inv: "rows_inv g d p i j st"
  shows "rows_inv g d p i j st' \<and> map ss_stage (snd st') = map ss_stage (snd st) @ [name]"
proof -
  obtain prior rows where st: "st = (prior, rows)" by (cases st)
  obtain n where n: "n \<le> length rows" "prefix_rows n rows" "prior \<longleftrightarrow> n = length rows"
    and b: "list_all (row_bound g d p i j) rows"
    using inv by (auto simp: rows_inv_def st)
  show ?thesis
  proof (cases "metadata_bytes stage_kind (stage_key (job_id j) name) d")
    case None
    define row where "row = \<lparr>ss_stage = name, ss_intent = None, ss_receipt = None, ss_complete = False, ss_unknown = False\<rparr>"
    have st': "st' = (False, rows @ [row])" using r None by (simp add: read_stage_def st row_def)
    have "row_bound g d p i j row" by (simp add: row_bound_def row_def None)
    moreover have "prefix_rows n (rows @ [row])" using n by (auto simp: prefix_rows_def row_def)
    moreover have "n \<noteq> length (rows @ [row])" "n \<le> length (rows @ [row])" using n(1) by simp_all
    ultimately have "rows_inv g d p i j st'" using b unfolding rows_inv_def st' by (intro conjI exI [of _ n]) simp_all
    then show ?thesis by (simp add: st' st row_def)
  next
    case (Some data)
    then obtain rc where p: prior and rc: "gu_record g data = Some rc" "record_matches (gu_env g) p i j name (runs name rows) rc"
      using r by (auto simp: read_stage_def st split: if_splits option.splits)
    define row where "row = \<lparr>ss_stage = name, ss_intent = Some (sg_intent rc), ss_receipt = sg_receipt rc,
      ss_complete = completed name (sg_receipt rc), ss_unknown = runs name rows \<and> sg_receipt rc = None\<rparr>"
    have st': "st' = (completed name (sg_receipt rc), rows @ [row])"
      using r Some p rc by (simp add: read_stage_def st row_def Let_def split: if_splits)
    have "row_bound g d p i j row" using Some rc by (auto simp: row_bound_def row_def)
    moreover have "prefix_rows (if ss_complete row then Suc n else n) (rows @ [row])"
      using n p by (auto simp: prefix_rows_def)
    moreover have "ss_complete row \<longleftrightarrow> (if ss_complete row then Suc n else n) = length (rows @ [row])" using n(3) p by auto
    moreover have "ss_complete row = completed name (sg_receipt rc)" "ss_stage row = name" by (simp_all add: row_def)
    moreover have "(if ss_complete row then Suc n else n) \<le> length (rows @ [row])" using n(1) by auto
    ultimately have "rows_inv g d p i j st'" using b unfolding rows_inv_def st'
      by (intro conjI exI [of _ "if ss_complete row then Suc n else n"]) simp_all
    then show ?thesis by (simp add: st' st row_def)
  qed
qed

lemma rows_fold:
  "foldr_res (read_stage g d p i j) names st = Inr st' \<Longrightarrow> rows_inv g d p i j st \<Longrightarrow>
     rows_inv g d p i j st' \<and> map ss_stage (snd st') = map ss_stage (snd st) @ names"
proof (induction names arbitrary: st)
  case (Cons name names)
  then obtain s1 where s1: "read_stage g d p i j name st = Inr s1" "foldr_res (read_stage g d p i j) names s1 = Inr st'" by auto
  from rows_inv_step [OF s1(1) Cons.prems(2)] Cons.IH [OF s1(2)] show ?case by simp
qed simp

lemma stages_rows:
  assumes "stages g ctx d p i j = Inr rows"
  shows "map ss_stage rows = stage_names" and "list_all (row_bound g d p i j) rows" and "\<exists>n. prefix_rows n rows"
proof -
  obtain c where f: "foldr_res (read_stage g d p i j) stage_names (True, []) = Inr (c, rows)"
    using assms by (auto simp: stages_def)
  have "rows_inv g d p i j (True, [])" by (simp add: rows_inv_def prefix_rows_def)
  from rows_fold [OF f this] show "map ss_stage rows = stage_names" "list_all (row_bound g d p i j) rows"
    "\<exists>n. prefix_rows n rows"
    by (auto simp: rows_inv_def)
qed

text \<open>
  C32. The rows of a job that are accepted from the journal are, in the order of the stages, a prefix
  of completed stages, then at most one stage with an intent and no completing receipt, then stages
  without any trace; every row is the decoded record of the journal, bound to the plan, the input,
  the machine and the script of its stage.
\<close>

theorem journal_stages_ordered:
  "case stages g ctx d p i j of
     Inl e \<Rightarrow> True
   | Inr rows \<Rightarrow> map ss_stage rows = stage_names \<and> (\<exists>n. prefix_rows n rows) \<and> list_all (row_bound g d p i j) rows"
  by (cases "stages g ctx d p i j") (simp_all add: stages_rows)

section \<open>Effects of a stage\<close>

text \<open>A stage is due: it is the job's current one, its prerequisites have receipts and it has no intent.\<close>

definition due :: "('w, stage_record) guest \<Rightarrow> go_error option \<Rightarrow> db \<Rightarrow> string \<Rightarrow> plan \<Rightarrow> bytes \<Rightarrow> step \<Rightarrow> frozen_input \<Rightarrow> bool \<Rightarrow> bool" where
  "due g ctx d op p raw st i run \<longleftrightarrow>
     (\<exists>j k rows. decode_input g p raw = Inr i \<and> guest_job op d p = Inr j \<and> stage_number (step_id st) = Some k \<and>
        st = plan_steps p ! k \<and> job_step j = int k \<and> stages g ctx d p i j = Inr rows \<and>
        list_all ss_complete (take k rows) \<and> ss_intent (rows ! k) = None \<and> run = runs (step_id st) rows)"

lemma validate_guest_transport: "validate_guest g tr ctx w d op p raw = Inr () \<Longrightarrow> \<exists>t. tr = Some t"
  by (auto simp: validate_guest_def split: option.splits bool.splits)

lemma invalid_Inr [simp]: "invalid m \<noteq> Inr x" "Inr x \<noteq> invalid m"
  by (simp_all add: invalid_def)

lemma stage_ready_Inr:
  assumes "stage_ready g tr polls w d op p raw st = Inr (i, run)"
  shows "due g (fst (polls 0)) d op p raw st i run" and "\<exists>t. tr = Some t"
    and "validate_guest g tr (fst (polls 0)) w d op p raw = Inr ()" and "boundary_at polls 1 op = Inr ()"
proof -
  obtain j k rows where v: "validate_guest g tr (fst (polls 0)) w d op p raw = Inr ()"
    and i: "decode_input g p raw = Inr i" and j: "guest_job op d p = Inr j"
    and k: "at_stage p j st ''unexpected guest recipe execution stage'' = Inr k"
    and rows: "stages g (fst (polls 0)) d p i j = Inr rows" and c: "list_all ss_complete (take k rows)"
    and n: "ss_intent (rows ! k) = None" and run: "run = runs (step_id st) rows" and b: "boundary_at polls 1 op = Inr ()"
    using assms by (auto simp: stage_ready_def split: if_splits)
  show "validate_guest g tr (fst (polls 0)) w d op p raw = Inr ()" "boundary_at polls 1 op = Inr ()" by (rule v, rule b)
  show "\<exists>t. tr = Some t" by (rule validate_guest_transport [OF v])
  have "stage_number (step_id st) = Some k \<and> st = plan_steps p ! k \<and> job_step j = int k"
    using k by (auto simp: at_stage_def split: option.splits if_splits)
  then show "due g (fst (polls 0)) d op p raw st i run" using i j rows c n run unfolding due_def by blast
qed

lemma publish_receipt_db:
  "fst (publish_receipt g polls d op name i previous rc r) = d \<or>
   fst (publish_receipt g polls d op name i previous rc r) = put stage_kind (stage_key op name) (gu_marshal g (rc\<lparr>sg_receipt := Some r\<rparr>)) d"
  by (auto simp: publish_receipt_def withheld_def compare_put_Inr split: sum.splits)

text \<open>What a run of \<^verbatim>\<open>Execute\<close> leaves: the journal's row of the stage, the host after at most one script.\<close>

definition stage_trace :: "('w, stage_record) guest \<Rightarrow> 'w transport \<Rightarrow> 'w \<Rightarrow> db \<Rightarrow> string \<Rightarrow> string \<Rightarrow> frozen_input \<Rightarrow> bool \<Rightarrow> stage_intent \<Rightarrow> 'w \<Rightarrow> db \<Rightarrow> bool" where
  "stage_trace g t w d op name i run intended w' d' \<longleftrightarrow>
     (\<exists>ro. d' = put stage_kind (stage_key op name) (gu_marshal g \<lparr>sg_intent = intended, sg_receipt = ro\<rparr>) d) \<and>
     (w' = w \<or> run \<and> w' = fst (tr_run t w (fi_target i) (stage_script i name)))"

lemma run_script_world: "fst (run_script t env w i name now) = fst (tr_run t w (fi_target i) (stage_script i name))"
  by (simp add: run_script_def split: prod.splits)

lemma perform_stage_trace:
  assumes d1: "d1 = put stage_kind (stage_key op name) (gu_marshal g \<lparr>sg_intent = t0, sg_receipt = None\<rparr>) d"
    and run: "perform_stage g t polls w d1 op name i run previous \<lparr>sg_intent = t0, sg_receipt = None\<rparr> finished = (w', d', err)"
  shows "stage_trace g t w d op name i run t0 w' d'"
proof -
  let ?rc = "\<lparr>sg_intent = t0, sg_receipt = None\<rparr>"
  have pub: "\<exists>ro. fst (publish_receipt g polls d1 op name i previous ?rc r) =
      put stage_kind (stage_key op name) (gu_marshal g \<lparr>sg_intent = t0, sg_receipt = ro\<rparr>) d" for r
    using publish_receipt_db [of g polls d1 op name i previous ?rc r] by (auto simp: d1 put_put)
  show ?thesis
  proof (cases run)
    case False
    then show ?thesis using run pub [of "skip_receipt (gu_env g) finished"]
      by (auto simp: perform_stage_def stage_trace_def)
  next
    case True
    show ?thesis
    proof (cases "boundary_at polls 2 op")
      case (Inl e)
      then show ?thesis using run True d1 by (auto simp: perform_stage_def stage_trace_def)
    next
      case (Inr u)
      obtain w1 res where s: "run_script t (gu_env g) w i name finished = (w1, res)" by fastforce
      have w1: "w1 = fst (tr_run t w (fi_target i) (stage_script i name))"
        using run_script_world [of t "gu_env g" w i name finished] s by simp
      show ?thesis
      proof (cases res)
        case (Inl e)
        then show ?thesis using run True Inr s w1 d1 by (auto simp: perform_stage_def stage_trace_def)
      next
        case r: (Inr receipt)
        then show ?thesis using run True Inr s w1 pub [of receipt] by (auto simp: perform_stage_def stage_trace_def)
      qed
    qed
  qed
qed

lemma execute_stage_effects:
  assumes "execute_stage g tr polls w d op p raw st created finished = (w', d', err)"
  shows "w' = w \<and> d' = d \<or>
    (\<exists>t i run. tr = Some t \<and> due g (fst (polls 0)) d op p raw st i run \<and>
       metadata_bytes stage_kind (stage_key op (step_id st)) d = None \<and>
       stage_trace g t w d op (step_id st) i run (intent (gu_env g) p i op (step_id st) run created) w' d')"
proof (cases "stage_ready g tr polls w d op p raw st")
  case (Inl e)
  then show ?thesis using assms by (simp add: execute_stage_def)
next
  case (Inr res)
  obtain i run where ir: "res = (i, run)" by fastforce
  note ready = stage_ready_Inr [OF Inr [unfolded ir]]
  obtain t where t: "tr = Some t" using ready(2) by blast
  note du = ready(1)
  let ?t0 = "intent (gu_env g) p i op (step_id st) run created" and ?k = "stage_key op (step_id st)"
  let ?body = "gu_marshal g \<lparr>sg_intent = ?t0, sg_receipt = None\<rparr>"
  show ?thesis
  proof (cases "compare_put stage_kind ?k None ?body d")
    case (Inl e)
    then show ?thesis using assms Inr ir by (simp add: execute_stage_def Let_def withheld_def)
  next
    case d1: (Inr d1)
    then have m: "metadata_bytes stage_kind ?k d = None" and d1p: "d1 = put stage_kind ?k ?body d" by (simp_all add: compare_put_Inr)
    have "stage_trace g t w d op (step_id st) i run ?t0 w' d'"
    proof (cases "gu_record g ?body = Some \<lparr>sg_intent = ?t0, sg_receipt = None\<rparr>")
      case True
      then have "perform_stage g t polls w d1 op (step_id st) i run ?body \<lparr>sg_intent = ?t0, sg_receipt = None\<rparr> finished = (w', d', err)"
        using assms Inr ir d1 t by (simp add: execute_stage_def Let_def withheld_def d1p metadata_bytes_put)
      then show ?thesis by (rule perform_stage_trace [OF d1p])
    next
      case False
      then have "w' = w" "d' = d1" using assms Inr ir d1 by (auto simp: execute_stage_def Let_def withheld_def d1p metadata_bytes_put)
      then show ?thesis using d1p by (auto simp: stage_trace_def)
    qed
    then show ?thesis using t du m by blast
  qed
qed

text \<open>
  C33. Execution either changes nothing, or it ran a stage that was due: the current stage of the
  accepted job, behind completed receipts of all earlier stages and without an intent of its own.
  It then leaves exactly the stage's row in the journal, holding its intent, and has changed the
  guest at most by one run of the frozen script on the frozen target; while that row exists no later
  execution of the stage, in whatever state the host is, changes anything.
\<close>

theorem stage_effects_guarded:
  "(case execute_stage g tr polls w d op p raw st created finished of (w', d', err) \<Rightarrow>
      w' = w \<and> d' = d \<or>
      (\<exists>t i run. tr = Some t \<and> due g (fst (polls 0)) d op p raw st i run \<and>
         metadata_bytes stage_kind (stage_key op (step_id st)) d = None \<and>
         metadata_bytes stage_kind (stage_key op (step_id st)) d' \<noteq> None \<and>
         stage_trace g t w d op (step_id st) i run (intent (gu_env g) p i op (step_id st) run created) w' d')) \<and>
   (metadata_bytes stage_kind (stage_key op (step_id st)) d = None \<or>
    (case execute_stage g tr polls w d op p raw st created finished of (w', d', err) \<Rightarrow> w' = w \<and> d' = d))"
proof -
  obtain w' d' err where e: "execute_stage g tr polls w d op p raw st created finished = (w', d', err)" by (metis prod_cases3)
  have "metadata_bytes stage_kind (stage_key op (step_id st)) d' \<noteq> None"
    if "stage_trace g t w d op (step_id st) i run t0 w' d'" for t i run t0
    using that by (auto simp: stage_trace_def metadata_bytes_put)
  then show ?thesis using execute_stage_effects [OF e] e by auto
qed

section \<open>Receipts\<close>

lemma received_uid_text:
  assumes "received_uid r = Some u"
  shows "sr_exit r = 0 \<and> sr_stderr r = [] \<and> sr_stdout r = uid_text u \<and> 0 < u \<and> u \<le> 2 ^ 32 - 1"
proof -
  have a: "sr_exit r = 0" "sr_stderr r = []" "length (sr_stdout r) > 1" "last (sr_stdout r) = CHR 10" "plain_dec (butlast (sr_stdout r))"
    "0 < u" "u < 2 ^ 32" "u = parse_dec (butlast (sr_stdout r))"
    using assms by (auto simp: received_uid_def Let_def split: if_splits)
  have "sr_stdout r \<noteq> []" using a(3) by auto
  then have "sr_stdout r = butlast (sr_stdout r) @ [CHR 10]" using a(4) by (metis append_butlast_last_id)
  then show ?thesis using a by (simp add: uid_text_def show_parse_dec)
qed

lemma received_members:
  "rc_transport (received env name r now)" "rc_exit (received env name r now) = Some (sr_exit r)"
  "rc_out_bytes (received env name r now) = length (sr_stdout r)" "rc_err_bytes (received env name r now) = length (sr_stderr r)"
  "rc_out (received env name r now) = env_sha256 env (sr_stdout r)" "rc_err (received env name r now) = env_sha256 env (sr_stderr r)"
  "rc_finished (received env name r now) = now"
  "rc_uid (received env name r now) = (if name = ''readiness'' then received_uid r else None)"
  by (simp_all add: received_def Let_def split: option.splits)

lemma received_outcome:
  assumes "name \<in> set stage_names"
  shows "expected_outcome env name (sr_exit r) (received env name r now) = Some (rc_outcome (received env name r now))"
proof -
  consider (ready) u where "name = ''readiness''" "received_uid r = Some u" | (no_uid) "name = ''readiness''" "received_uid r = None"
    | (check) "name = ''check''" | (apply_stage) "name = ''apply''" | (verify) "name = ''verify''"
    using assms by (cases "received_uid r") (auto simp: stage_names_def)
  then show ?thesis
  proof cases
    case ready
    have "rc_outcome (received env name r now) = ''ready''" by (simp add: received_def ready)
    then show ?thesis using received_uid_text [OF ready(2)] by (simp add: expected_outcome_def received_members ready)
  next
    case no_uid
    then show ?thesis by (simp add: expected_outcome_def received_members) (simp add: received_def)
  next
    case check
    then show ?thesis by (simp add: expected_outcome_def received_members) (simp add: received_def)
  next
    case apply_stage
    then show ?thesis by (simp add: expected_outcome_def received_members) (simp add: received_def)
  next
    case verify
    then show ?thesis by (simp add: expected_outcome_def received_members) (simp add: received_def)
  qed
qed

text \<open>
  The receipt written for a finished run is one that reading the journal back accepts, exactly
  when the run is one the coordinator records: a known stage, a wire time, exit status and output
  within bounds. It completes the stage exactly when the stage's declared exit policy is met: a
  user identity other than root, a check that reports configured or not, an apply and a verify
  that succeed.
\<close>

theorem receipts_readable:
  "(valid_receipt env name True (Some (received env name r now)) \<longleftrightarrow>
      name \<in> set stage_names \<and> utc now \<and> digest_pattern (env_sha256 env (sr_stdout r)) \<and> digest_pattern (env_sha256 env (sr_stderr r)) \<and>
      0 \<le> sr_exit r \<and> sr_exit r \<le> 254 \<and> length (sr_stdout r) \<le> 1048576 \<and> length (sr_stderr r) \<le> 1048576) \<and>
   (completed name (Some (received env name r now)) \<longleftrightarrow>
      name = ''readiness'' \<and> received_uid r \<noteq> None \<or> name = ''check'' \<and> sr_exit r \<in> {0, 3} \<or>
      name \<in> {''apply'', ''verify''} \<and> sr_exit r = 0)"
proof
  have unknown: "expected_outcome env name (sr_exit r) (received env name r now) = None" if "name \<notin> set stage_names"
    using that by (auto simp: expected_outcome_def received_members stage_names_def)
  show "valid_receipt env name True (Some (received env name r now)) \<longleftrightarrow>
      name \<in> set stage_names \<and> utc now \<and> digest_pattern (env_sha256 env (sr_stdout r)) \<and> digest_pattern (env_sha256 env (sr_stderr r)) \<and>
      0 \<le> sr_exit r \<and> sr_exit r \<le> 254 \<and> length (sr_stdout r) \<le> 1048576 \<and> length (sr_stderr r) \<le> 1048576"
    by (cases "name \<in> set stage_names") (auto simp: valid_receipt_def received_members received_outcome unknown)
  show "completed name (Some (received env name r now)) \<longleftrightarrow>
      name = ''readiness'' \<and> received_uid r \<noteq> None \<or> name = ''check'' \<and> sr_exit r \<in> {0, 3} \<or>
      name \<in> {''apply'', ''verify''} \<and> sr_exit r = 0"
    by (auto simp: completed_def received_def Let_def split: option.splits)
qed

end
