(* ===== verification/Guest_Liveness.thy ===== *)
theory Guest_Liveness
  imports Guest_Laws
begin

text \<open>
  Progress of guest recipes: a stage that is ready and whose script meets its exit policy is executed
  without an error, the row it leaves is one the journal's reader accepts, the next reconciliation
  confirms it without running anything, and the rows then allow the stage after it.
\<close>

section \<open>The rows after a stage was written\<close>

definition empty_row :: "string \<Rightarrow> stage_result" where
  "empty_row name = \<lparr>ss_stage = name, ss_intent = None, ss_receipt = None, ss_complete = False, ss_unknown = False\<rparr>"

lemma read_untouched:
  "metadata_bytes stage_kind (stage_key (job_id j) m) d = None \<Longrightarrow> read_stage g d p i j m (c, rows) = Inr (False, rows @ [empty_row m])"
  by (simp add: read_stage_def empty_row_def)

lemma metadata_bytes_put_other: "(k, i) \<noteq> (k', i') \<Longrightarrow> metadata_bytes k' i' (put k i b d) = metadata_bytes k' i' d"
  by (auto simp: metadata_bytes_def put_def table_simps)

lemma get_job_put [simp]: "get_job i (put k key b d) = get_job i d"
  by (simp add: get_job_def put_def)

lemma guest_job_put [simp]: "guest_job op (put k key b d) p = guest_job op d p"
  by (simp add: guest_job_def)

lemma boundary_put [simp]: "boundary ctx op (put k key b d) = boundary ctx op d"
  by (simp add: boundary_def)

lemma fold_other_rows:
  assumes "job_id j = op" and "name \<notin> set names"
  shows "foldr_res (read_stage g (put stage_kind (stage_key op name) b d) p i j) names st = foldr_res (read_stage g d p i j) names st"
  using assms(2)
proof (induction names arbitrary: st)
  case (Cons m names)
  then have ih: "foldr_res (read_stage g (put stage_kind (stage_key op name) b d) p i j) names = foldr_res (read_stage g d p i j) names"
    by auto
  have "metadata_bytes stage_kind (stage_key op m) (put stage_kind (stage_key op name) b d) = metadata_bytes stage_kind (stage_key op m) d"
    using Cons.prems by (intro metadata_bytes_put_other) (auto simp: stage_key_def)
  then have "read_stage g (put stage_kind (stage_key op name) b d) p i j m = read_stage g d p i j m"
    using assms(1) by (simp add: read_stage_def fun_eq_iff)
  then show ?case by (simp add: ih)
qed simp

text \<open>Behind a stage that is not complete only untouched stages are accepted.\<close>

lemma fold_unstarted:
  assumes "foldr_res (read_stage g d p i j) names (False, rows) = Inr st'"
  shows "list_all (\<lambda>m. metadata_bytes stage_kind (stage_key (job_id j) m) d = None) names"
  using assms
proof (induction names arbitrary: rows)
  case (Cons m names)
  show ?case
  proof (cases "metadata_bytes stage_kind (stage_key (job_id j) m) d")
    case None
    then have "foldr_res (read_stage g d p i j) names (False, rows @ [empty_row m]) = Inr st'"
      using Cons.prems by (simp add: read_untouched)
    from Cons.IH [OF this] None show ?thesis by simp
  next
    case (Some data)
    then show ?thesis using Cons.prems by (simp add: read_stage_def)
  qed
qed simp

lemma fold_untouched:
  "list_all (\<lambda>m. metadata_bytes stage_kind (stage_key (job_id j) m) d = None) names \<Longrightarrow>
     \<exists>c'. foldr_res (read_stage g d p i j) names (c, rows) = Inr (c', rows @ map empty_row names)"
proof (induction names arbitrary: c rows)
  case (Cons m names)
  then have m: "read_stage g d p i j m (c, rows) = Inr (False, rows @ [empty_row m])"
    by (simp add: read_untouched)
  from Cons.IH [of False "rows @ [empty_row m]"] Cons.prems show ?case by (auto simp: m)
qed simp

text \<open>The rows of accepted stages before the one that is due, and nothing from it on.\<close>

lemma due_rows:
  assumes s: "stages g ctx d p i j = Inr rows" and k: "k < length stage_names"
    and c: "list_all ss_complete (take k rows)" and n: "ss_intent (rows ! k) = None"
  shows "foldr_res (read_stage g d p i j) (take k stage_names) (True, []) = Inr (True, take k rows)"
    and "list_all (\<lambda>m. metadata_bytes stage_kind (stage_key (job_id j) m) d = None) (drop k stage_names)"
proof -
  let ?f = "foldr_res (read_stage g d p i j)" and ?a = "take k stage_names" and ?b = "drop (Suc k) stage_names" and ?m = "stage_names ! k"
  have split: "stage_names = ?a @ ?m # ?b" using k by (rule id_take_nth_drop)
  obtain c' where "?f (?a @ ?m # ?b) (True, []) = Inr (c', rows)"
    using s split by (auto simp: stages_def)
  then obtain c1 rows1 where a: "?f ?a (True, []) = Inr (c1, rows1)" and b: "?f (?m # ?b) (c1, rows1) = Inr (c', rows)"
    by (auto simp: foldr_res_append)
  have inv: "rows_inv g d p i j (True, [])" by (simp add: rows_inv_def prefix_rows_def)
  note r1 = rows_fold [OF a inv]
  have len1: "length rows1 = k" using r1 k by (metis append_Nil length_map length_take min.absorb4 snd_conv map_is_Nil_conv)
  have pre: "\<exists>ys. rows = rows1 @ ys"
  proof -
    have "\<exists>ys. snd st' = snd st0 @ ys" if "?f names st0 = Inr st'" for names st0 st'
      using that
    proof (induction names arbitrary: st0)
      case (Cons q names)
      then obtain s1 where s1: "read_stage g d p i j q st0 = Inr s1" "?f names s1 = Inr st'" by auto
      have "\<exists>y. snd s1 = snd st0 @ [y]"
        using s1(1) by (cases st0) (auto simp: read_stage_def Let_def split: option.splits if_splits)
      then show ?case using Cons.IH [OF s1(2)] by auto
    qed simp
    from this [OF b] show ?thesis by simp
  qed
  then have rows1: "rows1 = take k rows" using len1 by auto
  obtain q where q: "q \<le> length rows1" "prefix_rows q rows1" "c1 \<longleftrightarrow> q = length rows1" using r1 by (auto simp: rows_inv_def)
  have "c1"
  proof (rule ccontr)
    assume "\<not> c1"
    then have "q < length rows1" using q by simp
    then obtain x where "x \<in> set (drop q rows1)" by (metis drop_eq_Nil2 hd_in_set not_le)
    then show False using q(2) c by (auto simp: prefix_rows_def rows1 list_all_iff dest: in_set_dropD)
  qed
  then show "?f ?a (True, []) = Inr (True, take k rows)" using a rows1 by simp
  have row: "row_bound g d p i j (rows ! k)" and name: "ss_stage (rows ! k) = ?m"
    using stages_rows(1,2) [OF s] k
    by (auto simp: list_all_length) (metis length_map, metis length_map nth_map)
  have none: "metadata_bytes stage_kind (stage_key (job_id j) ?m) d = None"
    using row n by (auto simp: row_bound_def name split: option.splits)
  then have "?f ?b (False, rows1 @ [empty_row ?m]) = Inr (c', rows)"
    using b by (simp add: read_untouched)
  from fold_unstarted [OF this] none show "list_all (\<lambda>m. metadata_bytes stage_kind (stage_key (job_id j) m) d = None) (drop k stage_names)"
    using k by (simp add: Cons_nth_drop_Suc [symmetric])
qed

lemma stage_names_distinct: "distinct stage_names"
  by (simp add: stage_names_def)

text \<open>A complete record written for the due stage becomes its row, and the rest stays untouched.\<close>

lemma stages_written:
  assumes s: "stages g ctx d p i j = Inr rows" and k: "k < length stage_names" and job: "job_id j = op"
    and c: "list_all ss_complete (take k rows)" and n: "ss_intent (rows ! k) = None"
    and rec: "gu_record g data = Some rc" "length data \<le> 16384"
      "record_matches (gu_env g) p i j (stage_names ! k) (runs (stage_names ! k) rows) rc" "completed (stage_names ! k) (sg_receipt rc)"
    and d': "d' = put stage_kind (stage_key op (stage_names ! k)) data d"
  shows "\<exists>row. ss_complete row \<and> stages g None d' p i j = Inr (take k rows @ row # map empty_row (drop (Suc k) stage_names))"
proof -
  let ?f = "foldr_res (read_stage g d' p i j)" and ?m = "stage_names ! k"
  note due = due_rows [OF s k c n]
  have split: "stage_names = take k stage_names @ ?m # drop (Suc k) stage_names" using k by (rule id_take_nth_drop)
  then have nin: "?m \<notin> set (take k stage_names)" "?m \<notin> set (drop (Suc k) stage_names)"
    using stage_names_distinct by (metis distinct_append not_distinct_conv_prefix id_take_nth_drop append.assoc disjoint_iff list.set_intros(1), metis distinct.simps(2) distinct_append)
  have a: "?f (take k stage_names) (True, []) = Inr (True, take k rows)"
    using due(1) by (simp add: d' fold_other_rows [OF job nin(1)])
  have len: "length rows = length stage_names" using stages_rows(1) [OF s] by (metis length_map)
  have same: "runs ?m (take k rows) = runs ?m rows"
  proof (cases "?m = ''apply''")
    case True
    then have "k = 2" using k by (auto simp: stage_names_def less_Suc_eq numeral_eq_Suc)
    then show ?thesis by (simp add: runs_def)
  qed (simp add: runs_def)
  define row where "row = \<lparr>ss_stage = ?m, ss_intent = Some (sg_intent rc), ss_receipt = sg_receipt rc, ss_complete = True,
    ss_unknown = runs ?m rows \<and> sg_receipt rc = None\<rparr>"
  have m: "read_stage g d' p i j ?m (True, take k rows) = Inr (True, take k rows @ [row])"
    using rec job by (simp add: read_stage_def d' metadata_bytes_put same row_def)
  have "list_all (\<lambda>m. metadata_bytes stage_kind (stage_key (job_id j) m) d = None) (drop (Suc k) stage_names)"
    using due(2) k by (simp add: Cons_nth_drop_Suc [symmetric])
  from fold_untouched [OF this, of g p i True "take k rows @ [row]"] obtain c' where
    "foldr_res (read_stage g d p i j) (drop (Suc k) stage_names) (True, take k rows @ [row]) =
      Inr (c', (take k rows @ [row]) @ map empty_row (drop (Suc k) stage_names))" by blast
  then have b: "?f (drop (Suc k) stage_names) (True, take k rows @ [row]) =
      Inr (c', (take k rows @ [row]) @ map empty_row (drop (Suc k) stage_names))"
    by (simp add: d' fold_other_rows [OF job nin(2)])
  have "?f stage_names (True, []) = Inr (c', (take k rows @ [row]) @ map empty_row (drop (Suc k) stage_names))"
    by (subst split) (simp add: foldr_res_append a m b)
  then have "stages g None d' p i j = Inr (take k rows @ row # map empty_row (drop (Suc k) stage_names))"
    by (simp add: stages_def poll_def)
  then show ?thesis by (intro exI [of _ row]) (simp add: row_def)
qed

section \<open>A ready stage completes\<close>

text \<open>The receipt a run of a stage produces, when it produces one.\<close>

definition run_receipt :: "'w transport \<Rightarrow> env \<Rightarrow> 'w \<Rightarrow> frozen_input \<Rightarrow> string \<Rightarrow> bool \<Rightarrow> go_time \<Rightarrow> stage_receipt option" where
  "run_receipt t env w i name run finished =
     (if \<not> run then Some (skip_receipt env finished)
      else case run_script t env w i name finished of (w', Inr r) \<Rightarrow> Some r | _ \<Rightarrow> None)"

definition readable_record :: "('w, stage_record) guest \<Rightarrow> stage_record \<Rightarrow> bool" where
  "readable_record g rc \<longleftrightarrow> gu_record g (gu_marshal g rc) = Some rc \<and> length (gu_marshal g rc) \<le> 16384"

lemma run_receipt_valid:
  assumes r: "run_receipt t env w i name run finished = Some receipt" and name: "name \<in> set stage_names" and u: "utc finished"
    and sha: "\<forall>b. digest_pattern (env_sha256 env b)" and apply_only: "run \<or> name = ''apply''"
  shows "valid_receipt env name run (Some receipt)" and "rc_finished receipt = finished"
proof -
  have "valid_receipt env name run (Some receipt) \<and> rc_finished receipt = finished"
  proof (cases run)
    case False
    then have "receipt = skip_receipt env finished" using r by (simp add: run_receipt_def)
    then show ?thesis using False apply_only u sha by (simp add: valid_receipt_def skipped_receipt_def skip_receipt_def)
  next
    case True
    then obtain w' where s: "run_script t env w i name finished = (w', Inr receipt)"
      using r by (auto simp: run_receipt_def split: prod.splits sum.splits)
    obtain res where "receipt = received env name res finished" "0 \<le> sr_exit res" "sr_exit res \<le> 254"
      "length (sr_stdout res) \<le> 1048576" "length (sr_stderr res) \<le> 1048576"
      using s by (auto simp: run_script_def split: prod.splits sum.splits option.splits if_splits)
    then show ?thesis using True name u sha by (simp add: valid_receipt_def received_members received_outcome)
  qed
  then show "valid_receipt env name run (Some receipt)" "rc_finished receipt = finished" by simp_all
qed

text \<open>What a ready stage commits: the intent, then the receipt in its place.\<close>

lemma ready_stage_executes:
  assumes ready: "stage_ready g (Some t) polls w d op p raw st = Inr (i, run)" and op: "job_id j = op" "get_job op d = Inr j"
    and b: "boundary_at polls 2 op = Inr ()" "boundary_at polls 3 op = Inr ()"
    and r: "run_receipt t (gu_env g) w i (step_id st) run finished = Some receipt" and c: "completed (step_id st) (Some receipt)"
    and rc: "rc = \<lparr>sg_intent = intent (gu_env g) p i op (step_id st) run created, sg_receipt = None\<rparr>" "readable_record g rc"
  shows "\<exists>w'. execute_stage g (Some t) polls w d op p raw st created finished =
    (w', put stage_kind (stage_key op (step_id st)) (gu_marshal g (rc\<lparr>sg_receipt := Some receipt\<rparr>)) d, None)"
proof -
  let ?key = "stage_key op (step_id st)" and ?body = "gu_marshal g rc"
  obtain j' k rows where j': "guest_job op d p = Inr j'" and k: "stage_number (step_id st) = Some k" and s: "stages g (fst (polls 0)) d p i j' = Inr rows"
    and rk: "list_all ss_complete (take k rows)" "ss_intent (rows ! k) = None"
    using stage_ready_Inr(1) [OF ready] unfolding due_def by blast
  have "j' = j" using j' op(2) by (simp add: guest_job_def withheld_def split: if_splits)
  have kn: "k < length stage_names" "stage_names ! k = step_id st"
    using k by (auto simp: stage_number_def find_Some_iff)
  have none: "metadata_bytes stage_kind ?key d = None"
    using due_rows(2) [OF s kn(1) rk] kn op(1) \<open>j' = j\<close> by (simp add: Cons_nth_drop_Suc [symmetric])
  let ?d1 = "put stage_kind ?key ?body d"
  have put1: "compare_put stage_kind ?key None ?body d = Inr ?d1" by (simp add: compare_put_Inr none)
  have put2: "compare_put stage_kind ?key (Some ?body) (gu_marshal g (rc\<lparr>sg_receipt := Some receipt\<rparr>)) ?d1 =
      Inr (put stage_kind ?key (gu_marshal g (rc\<lparr>sg_receipt := Some receipt\<rparr>)) d)"
    by (simp add: compare_put_Inr metadata_bytes_put put_put)
  have pub: "publish_receipt g polls ?d1 op (step_id st) i ?body rc receipt =
      (put stage_kind ?key (gu_marshal g (rc\<lparr>sg_receipt := Some receipt\<rparr>)) d, None)"
    by (simp add: publish_receipt_def put2 withheld_def b c)
  have "\<exists>w'. perform_stage g t polls w ?d1 op (step_id st) i run ?body rc finished =
      (w', put stage_kind ?key (gu_marshal g (rc\<lparr>sg_receipt := Some receipt\<rparr>)) d, None)"
    using r pub b(1) by (auto simp: perform_stage_def run_receipt_def split: prod.splits sum.splits if_splits)
  moreover have "execute_stage g (Some t) polls w d op p raw st created finished = perform_stage g t polls w ?d1 op (step_id st) i run ?body rc finished"
    using rc(2) by (simp add: execute_stage_def ready Let_def rc(1) [symmetric] put1 withheld_def metadata_bytes_put readable_record_def)
  ultimately show ?thesis by simp
qed

lemma validate_guest_boundary:
  assumes "validate_guest g tr ctx w d op p raw = Inr ()"
  shows "boundary None op d = Inr ()"
proof -
  have "poll ctx = Inr ()" and b: "boundary ctx op d = Inr ()"
    using assms by (auto simp: validate_guest_def split: option.splits bool.splits)
  then have "ctx = None" by (cases ctx) (simp_all add: poll_def)
  with b show ?thesis by simp
qed

lemma runs_apply: "runs name rows \<or> name = ''apply''"
  by (simp add: runs_def)

text \<open>
  C40. A stage that is ready, whose script meets its declared exit policy and which nobody cancels
  is executed without an error, and it stays confirmed: reconciliation against the journal it left
  answers yes without running anything, whatever the host does, and the rows read back are complete
  up to and including it and untouched behind it, so that the next stage can become due.
\<close>

theorem ready_stage_completes:
  assumes ready: "stage_ready g (Some t) polls w d op p raw st = Inr (i, run)"
    and receipt: "run_receipt t (gu_env g) w i (step_id st) run finished = Some receipt" "completed (step_id st) (Some receipt)"
    and boundaries: "boundary_at polls 2 op = Inr ()" "boundary_at polls 3 op = Inr ()"
    and job: "get_job op d = Inr j" "job_id j = op"
    and clock: "utc created" "utc finished" "job_created j \<le> tm_instant created" "tm_instant created \<le> tm_instant finished"
    and sha: "\<forall>b. digest_pattern (env_sha256 (gu_env g) b)"
    and codec: "\<forall>ro \<in> {None, Some receipt}. readable_record g \<lparr>sg_intent = intent (gu_env g) p i op (step_id st) run created, sg_receipt = ro\<rparr>"
  shows "\<exists>w' d' rows k. execute_stage g (Some t) polls w d op p raw st created finished = (w', d', None) \<and>
    reconcile_stage g (\<lambda>_. (None, d')) d' op p raw st = Inr True \<and>
    stage_number (step_id st) = Some k \<and> stages g None d' p i j = Inr rows \<and> prefix_rows (Suc k) rows"
proof -
  obtain j' k rows where i: "decode_input g p raw = Inr i" and j': "guest_job op d p = Inr j'" and k: "stage_number (step_id st) = Some k"
    and st: "st = plan_steps p ! k" "job_step j' = int k" and s: "stages g (fst (polls 0)) d p i j' = Inr rows"
    and rk: "list_all ss_complete (take k rows)" "ss_intent (rows ! k) = None" and run: "run = runs (step_id st) rows"
    using stage_ready_Inr(1) [OF ready] unfolding due_def by blast
  have jj: "j' = j" using j' job(1) by (simp add: guest_job_def withheld_def split: if_splits)
  have kn: "k < length stage_names" "stage_names ! k = step_id st" using k by (auto simp: stage_number_def find_Some_iff)
  define rc where "rc = \<lparr>sg_intent = intent (gu_env g) p i op (step_id st) run created, sg_receipt = None\<rparr>"
  let ?rc = "rc\<lparr>sg_receipt := Some receipt\<rparr>"
  define d' where "d' = put stage_kind (stage_key op (step_id st)) (gu_marshal g ?rc) d"
  have readable: "readable_record g rc" "readable_record g ?rc" using codec by (simp_all add: rc_def)
  obtain w' where ex: "execute_stage g (Some t) polls w d op p raw st created finished = (w', d', None)"
    using ready_stage_executes [OF ready job(2,1) boundaries receipt rc_def readable(1)] by (auto simp: d'_def)
  have name: "step_id st \<in> set stage_names" using kn nth_mem by metis
  note valid = run_receipt_valid [OF receipt(1) name clock(2) sha]
  have matches: "record_matches (gu_env g) p i j (step_id st) run ?rc"
    using valid runs_apply [of "step_id st" rows] run clock job(2) by (simp add: record_matches_def rc_def intent_def)
  obtain row where row: "ss_complete row"
    and rows': "stages g None d' p i j = Inr (take k rows @ row # map empty_row (drop (Suc k) stage_names))"
    using stages_written [OF s [unfolded jj] kn(1) job(2) rk, of "gu_marshal g ?rc" ?rc] readable(2) matches receipt(2) run kn(2)
    by (auto simp: readable_record_def d'_def rc_def)
  have len: "length rows = length stage_names" using stages_rows(1) [OF s] by (metis length_map)
  have prefix: "prefix_rows (Suc k) (take k rows @ row # map empty_row (drop (Suc k) stage_names))"
    using rk(1) row kn(1) len by (auto simp: prefix_rows_def list_all_iff empty_row_def dest!: in_set_dropD)
  have "boundary None op d = Inr ()"
    by (rule validate_guest_boundary [OF stage_ready_Inr(3) [OF ready]])
  then have "reconcile_stage g (\<lambda>_. (None, d')) d' op p raw st = Inr True"
    using i j' jj k st rows' rk(1) row len kn(1) by (simp add: reconcile_stage_def boundary_at_def d'_def at_stage_def min_def)
  then show ?thesis using ex k rows' prefix by blast
qed

section \<open>A machine at which the hypotheses hold\<close>

text \<open>A plan for the machine at 10.0.0.2, its job at the first stage, and a transport that answers \<^verbatim>\<open>id -u\<close>.\<close>

definition plain_char :: "char \<Rightarrow> bool" where
  "plain_char c \<longleftrightarrow> (of_char c :: nat) \<ge> 0x20 \<and> (of_char c :: nat) < 0x7F"

lemma ascii_not_format: "r < 0x7F \<Longrightarrow> \<not> is_format r"
  by (simp add: is_format_def format_ranges_def)

lemma safe_text_plain: "list_all plain_char s \<Longrightarrow> length s \<le> limit \<Longrightarrow> safe_text s limit m"
  unfolding safe_text_def by (rule conjI, assumption, rule runes_ok_ascii) (fastforce simp: plain_char_def is_control_def ascii_not_format list_all_iff)

definition hash64 :: string where "hash64 = replicate 64 CHR ''0''"

lemma hash64_pattern [simp]: "digest_pattern hash64"
  by (simp add: digest_pattern_def hash64_def lower_hex_def list_all_iff is_digit_def)

definition guest_demo_recipe :: recipe where
  "guest_demo_recipe = \<lparr>re_api = api_version, re_kind = ''GuestRecipe'', re_name = ''web'', re_version = ''1.0.0'', re_profile = ''linux-posix'',
     re_privilege = ''non-root'', re_transport = ''ssh'', re_idempotent = True, re_timeout = 60, re_check = ''a'',
     re_apply = ''b'', re_verify = ''c'', re_reboot = ''never''\<rparr>"

lemma guest_demo_not_builtin: "\<not> is_builtin (guest_demo_recipe\<lparr>re_privilege := p\<rparr>)"
  by (auto simp: is_builtin_def builtin_tools_def guest_demo_recipe_def Let_def tools_profiles_def)

lemma guest_demo_recipe_valid: "validate_recipe (\<lambda>_. 100) guest_demo_recipe = Inr ()"
  using guest_demo_not_builtin [of "''sudo''"] guest_demo_not_builtin [of "re_privilege guest_demo_recipe"]
  by (simp add: validate_recipe_def guest_demo_recipe_def script_ok_def safe_text_plain plain_char_def recipe_name_def name_shape_def recipe_version_def
     is_lower_def is_digit_def char_in_def text_fields_def text_fields_from.simps space_width_def)

definition guest_env :: env where
  "guest_env = \<lparr>env_canon = \<lambda>v. Inr ''json'', env_canon_raw = Inr, env_unmarshal = \<lambda>b. Inr JNull, env_sha256 = \<lambda>b. hash64, env_rfc3339 = \<lambda>_. ''t''\<rparr>"

definition guest_demo_uuid :: string where "guest_demo_uuid = ''11111111-1111-1111-1111-111111111111''"

definition guest_demo_key :: resource_key where
  "guest_demo_key = \<lparr>provider_id = ''libvirt'', connection_id = ''qemu:///system'', key_kind = ''vm'', key_uuid = guest_demo_uuid\<rparr>"

definition guest_demo_target :: ssh_target where
  "guest_demo_target = \<lparr>sh_address = ''10.0.0.2'', sh_port = 22, sh_user = ''ops'', sh_identity = ''/k'', sh_known = ''/h'', sh_identity_hash = hash64, sh_known_hash = hash64\<rparr>"

definition guest_demo_tool :: ssh_tool where "guest_demo_tool = \<lparr>st_path = ''/usr/bin/ssh'', st_hash = hash64, st_version = ''9''\<rparr>"

definition guest_demo_input :: frozen_input where
  "guest_demo_input = \<lparr>fi_version = 1, fi_resource = guest_demo_key, fi_fingerprint = hash64, fi_tools = [], fi_recipe = guest_demo_recipe, fi_recipe_hash = hash64,
     fi_scripts = script_digests guest_env guest_demo_recipe, fi_target = guest_demo_target, fi_arguments = [], fi_tool = guest_demo_tool\<rparr>"

definition guest_demo_vm :: guest_vm where
  "guest_demo_vm = \<lparr>gv_key = guest_demo_key, gv_name = ''web'', gv_state = ''running'', gv_ownership = [], gv_persistent = ''<domain/>'', gv_live = [],
     gv_fingerprint = hash64, gv_autostart = False, gv_tags = None, gv_saved = False\<rparr>"

lemma guest_demo_address_shown: "show_addr4 0x0A000002 = ''10.0.0.2''"
  by (simp add: show_addr4_def octets_def Let_def show_nat.simps digit_char_def)

lemma guest_demo_address: "parse_addr ''10.0.0.2'' = Some (Addr4 0x0A000002)"
  using parse_show_addr4 [of "0x0A000002"] by (simp add: parse_addr_def guest_demo_address_shown)

lemma guest_demo_route: "routable (Addr4 0x0A000002)"
  by (simp add: drop_bit_eq_div)

lemma guest_demo_target_valid: "valid_target guest_demo_target True"
  using guest_demo_route by (simp add: valid_target_def guest_demo_target_def guest_demo_address guest_demo_address_shown ssh_user_def name_shape_def is_root_def clean_file_def
     safe_text_plain plain_char_def path_absolute_def path_clean_def clean_step_def is_lower_def is_upper_def alnum_def char_in_def)

lemma guest_demo_uuid_valid: "valid_uuid guest_demo_uuid"
  by (simp add: valid_uuid_def canonical_uuid_def guest_demo_uuid_def lower_hex_def is_digit_def char_in_def)

definition guest_plan :: plan where
  "guest_plan = \<lparr>plan_api = api_version, plan_id = ''p'', plan_created = 0, plan_expires = 10, plan_actor = 7, plan_connection = ''qemu:///system'',
     plan_operation = ''guest.recipe.run'', plan_resources = guest_resources guest_demo_key, plan_input_digest = hash64, plan_digest = ''d'',
     plan_before = [(key_string guest_demo_key, hash64)], plan_grants = [], plan_acks = acknowledgements guest_demo_recipe, plan_risks = [],
     plan_steps = guest_steps, plan_estimates = \<lparr>additional_bytes = 0, requires_downtime = False, est_notes = []\<rparr>, plan_review = []\<rparr>"

definition guest_demo_job :: job where
  "guest_demo_job = \<lparr>job_id = guest_demo_uuid, job_plan = ''p'', job_state = Running, job_step = 0, job_created = 1, job_error = None, job_cancel = False,
     job_recovery_of = [], job_recovery_op = []\<rparr>"

definition guest_db :: db where
  "guest_db = empty_db\<lparr>db_jobs := [(guest_demo_uuid, guest_demo_job)]\<rparr>"

text \<open>The host counts the scripts it has run.\<close>

definition guest_demo_transport :: "nat transport" where
  "guest_demo_transport = \<lparr>tr_identity = \<lambda>w. Inr guest_demo_tool, tr_inspect = \<lambda>w t. Inr (hash64, hash64),
     tr_run = \<lambda>w t s. (Suc w, Inr \<lparr>sr_exit = 0, sr_stdout = uid_text 7, sr_stderr = []\<rparr>, None)\<rparr>"

definition guest_demo_receipt :: stage_receipt where
  "guest_demo_receipt = \<lparr>rc_transport = True, rc_exit = Some 0, rc_out_bytes = 2, rc_err_bytes = 0, rc_out = hash64, rc_err = hash64, rc_uid = Some 7,
     rc_outcome = ''ready'', rc_finished = \<lparr>tm_instant = 3, tm_offset = 0\<rparr>\<rparr>"

definition guest_demo_intent :: stage_intent where
  "guest_demo_intent = intent guest_env guest_plan guest_demo_input guest_demo_uuid ''readiness'' True \<lparr>tm_instant = 2, tm_offset = 0\<rparr>"

definition guest_demo :: "(nat, stage_record) guest" where
  "guest_demo = \<lparr>gu_env = guest_env, gu_input = \<lambda>b. Some guest_demo_input,
     gu_record = \<lambda>b. Some \<lparr>sg_intent = guest_demo_intent, sg_receipt = if b = ''intent'' then None else Some guest_demo_receipt\<rparr>,
     gu_marshal = \<lambda>rc. if sg_receipt rc = None then ''intent'' else ''receipt'',
     gu_encoded = \<lambda>_. 100, gu_live = Inr, gu_journal = True, gu_get = Some (\<lambda>w c u. Inr guest_demo_vm)\<rparr>"

definition guest_demo_polls :: polls where "guest_demo_polls = (\<lambda>_. (None, guest_db))"

lemma guest_demo_decoded: "decode_input guest_demo guest_plan ''input'' = Inr guest_demo_input"
  using guest_demo_uuid_valid guest_demo_target_valid guest_demo_recipe_valid
  by (simp add: decode_input_def guest_demo_def guest_demo_input_def input_identity_def guest_plan_def guest_demo_key_def local_uri_def input_content_def
    digest_def guest_env_def valid_arguments_def guest_demo_tool_def safe_text_plain plain_char_def input_bound_def digest_raw_def)

lemma guest_demo_lookup: "get_job guest_demo_uuid guest_db = Inr guest_demo_job"
  by (simp add: get_job_def guest_db_def)

lemma guest_demo_boundary: "boundary None guest_demo_uuid guest_db = Inr ()"
  by (simp add: boundary_def poll_def guest_demo_lookup withheld_def guest_demo_job_def)

lemma guest_demo_validated: "validate_guest guest_demo (Some guest_demo_transport) None w guest_db guest_demo_uuid guest_plan raw = Inr ()"
  if "raw = ''input''"
proof -
  have "gu_journal guest_demo" "gu_get guest_demo = Some (\<lambda>w c u. Inr guest_demo_vm)" by (simp_all add: guest_demo_def)
  moreover have "validate_vm_state guest_demo_vm (fi_resource guest_demo_input) = Inr ()"
    by (simp add: validate_vm_state_def guest_demo_vm_def guest_demo_input_def)
  moreover have "observed_fingerprint guest_demo guest_demo_input guest_demo_vm = Inr True"
    by (simp add: observed_fingerprint_def guest_demo_vm_def guest_demo_input_def)
  moreover have "tr_identity guest_demo_transport w = Inr (fi_tool guest_demo_input)"
    "tr_inspect guest_demo_transport w (fi_target guest_demo_input) = Inr (sh_identity_hash (fi_target guest_demo_input), sh_known_hash (fi_target guest_demo_input))"
    by (simp_all add: guest_demo_transport_def guest_demo_input_def guest_demo_target_def)
  ultimately show ?thesis by (simp add: that validate_guest_def poll_def guest_demo_decoded guest_demo_boundary withheld_def)
qed

lemma guest_demo_stages: "stages guest_demo None guest_db guest_plan guest_demo_input guest_demo_job = Inr (map empty_row stage_names)"
  by (simp add: stages_def poll_def read_stage_def metadata_bytes_def guest_db_def empty_db_def stage_names_def empty_row_def)

lemma guest_demo_first:
  "job_plan guest_demo_job = plan_id guest_plan" "at_stage guest_plan guest_demo_job (guest_steps ! 0) msg = Inr 0"
  "step_id (guest_steps ! 0) = ''readiness''"
  by (simp_all add: guest_demo_job_def guest_plan_def at_stage_def guest_steps_def stage_number_def stage_names_def)

lemma guest_demo_stage_ready:
  "stage_ready guest_demo (Some guest_demo_transport) guest_demo_polls 0 guest_db guest_demo_uuid guest_plan ''input'' (guest_steps ! 0) = Inr (guest_demo_input, True)"
  by (simp add: stage_ready_def guest_demo_polls_def guest_demo_validated guest_demo_decoded boundary_at_def guest_demo_boundary guest_job_def guest_demo_uuid_valid guest_demo_lookup withheld_def
      guest_demo_first guest_demo_stages empty_row_def stage_names_def runs_def)

lemma guest_demo_run_receipt:
  "run_receipt guest_demo_transport guest_env 0 guest_demo_input ''readiness'' True \<lparr>tm_instant = 3, tm_offset = 0\<rparr> = Some guest_demo_receipt"
  by (simp add: run_receipt_def run_script_def guest_demo_transport_def received_def received_uid_def uid_text_def show_nat.simps digit_char_def
    plain_dec_def parse_dec_def is_digit_def digit_val_def char_in_def guest_env_def guest_demo_receipt_def Let_def)

theorem ready_stage_completes_witness:
  "\<exists>w' d' rows k. execute_stage guest_demo (Some guest_demo_transport) guest_demo_polls 0 guest_db guest_demo_uuid guest_plan ''input'' (guest_steps ! 0)
      \<lparr>tm_instant = 2, tm_offset = 0\<rparr> \<lparr>tm_instant = 3, tm_offset = 0\<rparr> = (w', d', None) \<and>
    reconcile_stage guest_demo (\<lambda>_. (None, d')) d' guest_demo_uuid guest_plan ''input'' (guest_steps ! 0) = Inr True \<and>
    stage_number (step_id (guest_steps ! 0)) = Some k \<and> stages guest_demo None d' guest_plan guest_demo_input guest_demo_job = Inr rows \<and>
    prefix_rows (Suc k) rows"
proof (rule ready_stage_completes [where receipt = guest_demo_receipt])
  have st: "step_id (guest_steps ! 0) = ''readiness''" by (simp add: guest_steps_def stage_names_def)
  have env: "gu_env guest_demo = guest_env" by (simp add: guest_demo_def)
  show "stage_ready guest_demo (Some guest_demo_transport) guest_demo_polls 0 guest_db guest_demo_uuid guest_plan ''input'' (guest_steps ! 0) = Inr (guest_demo_input, True)"
    by (rule guest_demo_stage_ready)
  show "run_receipt guest_demo_transport (gu_env guest_demo) 0 guest_demo_input (step_id (guest_steps ! 0)) True \<lparr>tm_instant = 3, tm_offset = 0\<rparr> = Some guest_demo_receipt"
    unfolding st env by (rule guest_demo_run_receipt)
  show "completed (step_id (guest_steps ! 0)) (Some guest_demo_receipt)" by (simp add: st completed_def guest_demo_receipt_def)
  show "boundary_at guest_demo_polls 2 guest_demo_uuid = Inr ()" "boundary_at guest_demo_polls 3 guest_demo_uuid = Inr ()"
    by (simp_all add: boundary_at_def guest_demo_polls_def guest_demo_boundary)
  show "get_job guest_demo_uuid guest_db = Inr guest_demo_job" by (rule guest_demo_lookup)
  show "\<forall>b. digest_pattern (env_sha256 (gu_env guest_demo) b)" by (simp add: env guest_env_def)
  show "\<forall>ro\<in>{None, Some guest_demo_receipt}. readable_record guest_demo
      \<lparr>sg_intent = intent (gu_env guest_demo) guest_plan guest_demo_input guest_demo_uuid (step_id (guest_steps ! 0)) True \<lparr>tm_instant = 2, tm_offset = 0\<rparr>, sg_receipt = ro\<rparr>"
    unfolding st env by (simp add: readable_record_def guest_demo_def guest_demo_intent_def)
qed (simp_all add: guest_demo_job_def utc_def)

end
