(* ===== verification/Calendar.thy ===== *)
theory Calendar
  imports Main
begin

text \<open>
  The proleptic Gregorian calendar as Go's \<^verbatim>\<open>time\<close> computes it: days are numbered from
  1 January of year 1 (day 0, a Monday), \<open>go_date\<close> is \<^verbatim>\<open>time.Date\<close> with its normalisation of
  months and days out of range, and \<open>civil\<close> reads year, month and day of a day number.
  \<open>civil_day_number\<close> and \<open>day_number_civil\<close> are the round trips; the calendar repeats, weekdays
  included, after 400 years.
\<close>

section \<open>Years and months\<close>

definition leap :: "int \<Rightarrow> bool" where
  "leap y \<longleftrightarrow> y mod 4 = 0 \<and> (y mod 100 \<noteq> 0 \<or> y mod 400 = 0)"

definition year_len :: "int \<Rightarrow> int" where
  "year_len y = (if leap y then 366 else 365)"

definition month_len :: "int \<Rightarrow> nat \<Rightarrow> int" where
  "month_len y m = (if m = 2 then (if leap y then 29 else 28) else if m \<in> {4, 6, 9, 11} then 30 else 31)"

text \<open>The days before a year, and before a month within its year.\<close>

definition year_start :: "int \<Rightarrow> int" where
  "year_start y = 365 * (y - 1) + (y - 1) div 4 - (y - 1) div 100 + (y - 1) div 400"

fun month_start :: "int \<Rightarrow> nat \<Rightarrow> int" where
  "month_start y 0 = 0"
| "month_start y (Suc 0) = 0"
| "month_start y (Suc m) = month_start y m + month_len y m"

definition day_number :: "int \<Rightarrow> nat \<Rightarrow> int \<Rightarrow> int" where
  "day_number y m d = year_start y + month_start y m + d - 1"

definition valid_date :: "int \<Rightarrow> nat \<Rightarrow> int \<Rightarrow> bool" where
  "valid_date y m d \<longleftrightarrow> 1 \<le> m \<and> m \<le> 12 \<and> 1 \<le> d \<and> d \<le> month_len y m"

definition weekday :: "int \<Rightarrow> nat" where
  "weekday n = nat ((n + 1) mod 7)"

text \<open>\<^verbatim>\<open>time.Date\<close>: months past December run into later years, days past the month into later months.\<close>

definition go_date :: "int \<Rightarrow> int \<Rightarrow> int \<Rightarrow> int" where
  "go_date y m d = day_number (y + (m - 1) div 12) (Suc (nat ((m - 1) mod 12))) d"

section \<open>Reading a day number\<close>

lemma year_len_pos: "0 < year_len y"
  by (simp add: year_len_def)

function year_from :: "int \<Rightarrow> int \<Rightarrow> int \<times> int" where
  "year_from y r = (if r < year_len y then (y, r) else year_from (y + 1) (r - year_len y))"
  by pat_completeness auto
termination by (relation "measure (\<lambda>(y, r). nat r)") (auto simp: year_len_def split: if_splits)

declare year_from.simps [simp del]

function month_from :: "int \<Rightarrow> nat \<Rightarrow> int \<Rightarrow> nat \<times> int" where
  "month_from y m r = (if m \<ge> 12 \<or> r < month_len y m then (m, r) else month_from y (Suc m) (r - month_len y m))"
  by pat_completeness auto
termination by (relation "measure (\<lambda>(y, m, r). 12 - m)") auto

declare month_from.simps [simp del]

definition civil :: "int \<Rightarrow> int \<times> nat \<times> int" where
  "civil n = (let (y, r) = year_from 1 (n mod 146097); (m, d) = month_from y 1 r in (400 * (n div 146097) + y, m, d + 1))"

text \<open>Nanoseconds in a minute and in a day.\<close>

definition minute_ns :: int where
  "minute_ns = 60000000000"

definition day_ns :: int where
  "day_ns = 1440 * minute_ns"

section \<open>Laws\<close>

lemma div_next:
  fixes y k :: int
  assumes "0 < k"
  shows "y div k = (y - 1) div k + (if y mod k = 0 then 1 else 0)"
proof (cases "y mod k = 0")
  case True
  then have "y - 1 = k * (y div k - 1) + (k - 1)" using mult_div_mod_eq [of k y] by (simp add: algebra_simps)
  then have "(y - 1) div k = y div k - 1" by (rule int_div_pos_eq) (use assms in auto)
  then show ?thesis using True by simp
next
  case False
  have m: "0 \<le> y mod k" "y mod k < k" using assms by simp_all
  have "y - 1 = k * (y div k) + (y mod k - 1)" using mult_div_mod_eq [of k y] by (simp add: algebra_simps)
  then have "(y - 1) div k = y div k" by (rule int_div_pos_eq) (use m False in auto)
  then show ?thesis using False by simp
qed

lemma year_start_next: "year_start (y + 1) = year_start y + year_len y"
proof -
  have c: "y mod 400 = 0 \<Longrightarrow> y mod 100 = 0" "y mod 100 = 0 \<Longrightarrow> y mod 4 = 0"
    unfolding mod_eq_0_iff_dvd by (erule dvd_trans [rotated], simp)+
  have "year_start (y + 1) = 365 * y + y div 4 - y div 100 + y div 400" by (simp add: year_start_def)
  also have "\<dots> = year_start y + 365 + (if y mod 4 = 0 then 1 else 0) - (if y mod 100 = 0 then 1 else 0) + (if y mod 400 = 0 then 1 else 0)"
    unfolding div_next [of 4 y, simplified] div_next [of 100 y, simplified] div_next [of 400 y, simplified] year_start_def by simp
  also have "\<dots> = year_start y + year_len y"
    using c by (cases "y mod 400 = 0"; cases "y mod 100 = 0"; cases "y mod 4 = 0") (simp_all add: year_len_def leap_def)
  finally show ?thesis .
qed

lemma year_start_mono: "y \<le> z \<Longrightarrow> year_start y \<le> year_start z"
proof (induction "nat (z - y)" arbitrary: z)
  case (Suc k)
  then have "year_start y \<le> year_start (z - 1)" by simp
  then show ?case using year_start_next [of "z - 1"] year_len_pos [of "z - 1"] by simp
qed simp

lemma year_unique:
  assumes "year_start y + r = year_start z + s" "0 \<le> r" "r < year_len y" "0 \<le> s" "s < year_len z"
  shows "y = z \<and> r = s"
proof -
  have False if "y < z"
  proof -
    have "year_start (y + 1) \<le> year_start z" by (rule year_start_mono) (use that in simp)
    then show False using year_start_next [of y] assms by linarith
  qed
  moreover have False if "z < y"
  proof -
    have "year_start (z + 1) \<le> year_start y" by (rule year_start_mono) (use that in simp)
    then show False using year_start_next [of z] assms by linarith
  qed
  ultimately have "y = z" by force
  then show ?thesis using assms(1) by simp
qed

lemma year_from_start:
  "0 \<le> r \<Longrightarrow> (case year_from y r of (z, s) \<Rightarrow> year_start z + s = year_start y + r \<and> 0 \<le> s \<and> s < year_len z)"
proof (induction y r rule: year_from.induct)
  case (1 y r)
  then show ?case by (cases "r < year_len y") (simp_all add: year_from.simps [of y r] year_start_next)
qed

lemma month_start_Suc: "1 \<le> m \<Longrightarrow> month_start y (Suc m) = month_start y m + month_len y m"
  by (cases m) simp_all

lemma month_len_pos: "28 \<le> month_len y m"
  by (simp add: month_len_def)

lemma month_start_year: "month_start y 13 = year_len y"
  by (simp add: eval_nat_numeral month_len_def year_len_def)

lemma month_start_mono: "1 \<le> m \<Longrightarrow> m \<le> n \<Longrightarrow> month_start y m \<le> month_start y n"
proof (induction n)
  case (Suc n)
  then show ?case using month_start_Suc [of n y] month_len_pos [of y n] by (cases "m = Suc n") auto
qed simp

lemma month_from_start:
  "1 \<le> m \<Longrightarrow> m \<le> 12 \<Longrightarrow> 0 \<le> r \<Longrightarrow> month_start y m + r < year_len y \<Longrightarrow>
   (case month_from y m r of (n, s) \<Rightarrow> month_start y n + s = month_start y m + r \<and> valid_date y n (s + 1))"
proof (induction y m r rule: month_from.induct)
  case (1 y m r)
  show ?case
  proof (cases "m \<ge> 12 \<or> r < month_len y m")
    case True
    have "r < month_len y m" if "m = 12" using "1.prems" that month_start_Suc [of 12 y] month_start_year [of y] by simp
    then show ?thesis using True "1.prems" by (auto simp: month_from.simps [of y m r] valid_date_def)
  next
    case False
    then show ?thesis using 1 month_start_Suc [of m y] by (simp add: month_from.simps [of y m r])
  qed
qed

lemma month_unique:
  assumes "month_start y m + r = month_start y n + s" "valid_date y m (r + 1)" "valid_date y n (s + 1)"
  shows "m = n \<and> r = s"
proof -
  have "\<not> m < n" using month_start_mono [of "Suc m" n y] month_start_Suc [of m y] assms by (auto simp: valid_date_def)
  moreover have "\<not> n < m" using month_start_mono [of "Suc n" m y] month_start_Suc [of n y] assms by (auto simp: valid_date_def)
  ultimately show ?thesis using assms(1) by simp
qed

lemma valid_in_year: "valid_date y m d \<Longrightarrow> 0 \<le> month_start y m + d - 1 \<and> month_start y m + d - 1 < year_len y"
  using month_start_mono [of 1 m y] month_start_mono [of "Suc m" 13 y] month_start_Suc [of m y] month_start_year [of y]
  by (auto simp: valid_date_def)

text \<open>The calendar repeats after 400 years.\<close>

lemma leap_period: "leap (400 * k + y) = leap y"
proof -
  have "400 * k + y = y + 4 * (100 * k)" "400 * k + y = y + 100 * (4 * k)" "400 * k + y = y + 400 * k" by simp_all
  then have "(400 * k + y) mod 4 = y mod 4" "(400 * k + y) mod 100 = y mod 100" "(400 * k + y) mod 400 = y mod 400"
    by (metis mod_mult_self2)+
  then show ?thesis by (simp add: leap_def)
qed

lemma month_len_period: "month_len (400 * k + y) m = month_len y m"
  by (simp add: month_len_def leap_period)

lemma month_start_period: "month_start (400 * k + y) m = month_start y m"
  by (induction y m rule: month_start.induct) (simp_all add: month_len_period)

lemma year_start_period: "year_start (400 * k + y) = 146097 * k + year_start y"
proof -
  have "400 * k + y - 1 = (y - 1) + 4 * (100 * k)" "400 * k + y - 1 = (y - 1) + 100 * (4 * k)"
    "400 * k + y - 1 = (y - 1) + 400 * k" by simp_all
  then have "(400 * k + y - 1) div 4 = (y - 1) div 4 + 100 * k" "(400 * k + y - 1) div 100 = (y - 1) div 100 + 4 * k"
    "(400 * k + y - 1) div 400 = (y - 1) div 400 + k"
    by (simp_all only: div_mult_self2 zero_neq_numeral [symmetric] not_False_eq_True add.commute)
  moreover have "365 * (400 * k + y - 1) = 146000 * k + 365 * (y - 1)" by simp
  ultimately show ?thesis unfolding year_start_def by linarith
qed

lemma valid_period: "valid_date (400 * k + y) m d = valid_date y m d"
  by (simp add: valid_date_def month_len_period)

lemma day_number_period: "day_number (400 * k + y) m d = 146097 * k + day_number y m d"
  by (simp add: day_number_def year_start_period month_start_period)

lemma weekday_period: "weekday (146097 * k + n) = weekday n"
proof -
  have "146097 * k + n + 1 = n + 1 + 7 * (20871 * k)" by simp
  then show ?thesis by (simp only: weekday_def mod_mult_self2)
qed

theorem day_number_civil: "case civil n of (y, m, d) \<Rightarrow> day_number y m d = n \<and> valid_date y m d"
proof -
  obtain y r where y: "year_from 1 (n mod 146097) = (y, r)" by fastforce
  then have yr: "year_start y + r = n mod 146097" "0 \<le> r" "r < year_len y"
    using year_from_start [of "n mod 146097" 1] by (auto simp: year_start_def)
  obtain m d where m: "month_from y 1 r = (m, d)" by fastforce
  then have md: "month_start y m + d = r" "valid_date y m (d + 1)" using month_from_start [of 1 r y] yr by auto
  then show ?thesis using y m yr(1)
    by (simp add: civil_def day_number_period valid_period) (simp add: day_number_def)
qed

theorem civil_day_number:
  assumes "valid_date y m d"
  shows "civil (day_number y m d) = (y, m, d)"
proof -
  obtain z n e where c: "civil (day_number y m d) = (z, n, e)" by (metis prod_cases3)
  then have z: "day_number z n e = day_number y m d" "valid_date z n e" using day_number_civil [of "day_number y m d"] by auto
  have "z = y \<and> month_start z n + e - 1 = month_start y m + d - 1"
    by (rule year_unique) (use z(1) valid_in_year [OF z(2)] valid_in_year [OF assms] in \<open>auto simp: day_number_def\<close>)
  then show ?thesis using c z(2) assms month_unique [of y n "e - 1" m "d - 1"] by (auto simp: algebra_simps)
qed

text \<open>Day 0 of the following month is the last day of a month.\<close>

lemma last_of_month:
  assumes "1 \<le> m" "m \<le> 12"
  shows "civil (go_date y (int m + 1) 0) = (y, m, month_len y m)"
proof -
  have "go_date y (int m + 1) 0 = day_number y m (month_len y m)"
  proof (cases "m = 12")
    case True
    then show ?thesis using month_start_Suc [of 12 y] month_start_year [of y]
      by (simp add: go_date_def day_number_def year_start_next)
  next
    case False
    then have "int m div 12 = 0" "int m mod 12 = int m" using assms by auto
    then show ?thesis using assms month_start_Suc [of m y] by (simp add: go_date_def day_number_def)
  qed
  moreover have "valid_date y m (month_len y m)" using assms month_len_pos [of y m] by (auto simp: valid_date_def)
  ultimately show ?thesis by (simp add: civil_day_number)
qed

lemma go_date_valid: "valid_date y m d \<Longrightarrow> go_date y (int m) d = day_number y m d"
proof -
  assume "valid_date y m d"
  then have "(int m - 1) div 12 = 0" "(int m - 1) mod 12 = int m - 1" "Suc (nat (int m - 1)) = m" by (auto simp: valid_date_def)
  then show ?thesis by (simp add: go_date_def)
qed

end
