(* ===== verification/Policy.thy ===== *)
theory Policy
  imports Unicode_Text Domain Calendar
begin

text \<open>
  Backup policies (\<^verbatim>\<open>app/protection/policy.go\<close>): the declaration and its checks, the five
  fields of a cron expression as bit sets, whether any calendar date can match, and the bounded
  preview of the next runs in a named time zone. An instant is its number of nanoseconds since
  1 January of year 1 in UTC. Strict decoding of the document and the time zone database are
  parameters (\<open>policy_env\<close>); a loop that may not end is a \<open>partial_function\<close>.
\<close>

section \<open>Declarations\<close>

record policy_schedule =
  sc_cron :: string
  sc_zone :: string
  sc_missed :: string

record policy_selector =
  sl_vms :: "string list"
  sl_tags :: "string list"

record policy_capture =
  ca_mode :: string
  ca_consistency :: string
  ca_shutdown :: bool
  ca_unavailable :: string

record policy_retention =
  rt_daily :: nat
  rt_weekly :: nat
  rt_monthly :: nat
  rt_pins :: bool

record policy_verification =
  ve_capture :: bool
  ve_restore :: string

record policy_declaration =
  pd_name :: string
  pd_repository :: string
  pd_selector :: policy_selector
  pd_schedule :: policy_schedule
  pd_capture :: policy_capture
  pd_retention :: policy_retention
  pd_verification :: policy_verification

record policy_report =
  pr_api :: string
  pr_valid :: bool
  pr_scope :: string
  pr_policy :: policy_declaration
  pr_after :: "int option"
  pr_runs :: "int list"
  pr_preflight :: string
  pr_installed :: bool
  pr_captured :: bool
  pr_recovered :: bool

text \<open>A time zone: the offset in seconds in force at an instant, and the instant its rule ends (0 for none).\<close>

record zone =
  zn_offset :: "int \<Rightarrow> int"
  zn_end :: "int \<Rightarrow> int"

record 'v policy_env =
  po_document :: "bytes \<Rightarrow> string + 'v"
  po_kind :: "'v \<Rightarrow> string option"
  po_decode :: "'v \<Rightarrow> policy_declaration option"
  po_zone :: "string \<Rightarrow> zone option"

abbreviation policy_invalid :: "string \<Rightarrow> go_error + 'a" where
  "policy_invalid m \<equiv> failr ''INVALID_INPUT'' m"

section \<open>One field of a cron expression\<close>

record policy_field =
  pf_bits :: "64 word"
  pf_star :: bool

definition field_has :: "policy_field \<Rightarrow> nat \<Rightarrow> bool" where
  "field_has f v \<longleftrightarrow> and (pf_bits f) (push_bit v 1) \<noteq> 0"

definition same_name :: "string \<Rightarrow> string \<Rightarrow> bool" where
  "same_name v n \<longleftrightarrow> map lower v = map lower n"

definition parse_number :: "nat \<Rightarrow> nat \<Rightarrow> string list \<Rightarrow> string \<Rightarrow> string + nat" where
  "parse_number lo hi names v = (case find (\<lambda>i. same_name v (names ! i)) [0..<length names] of
      Some i \<Rightarrow> Inr (lo + i)
    | None \<Rightarrow>
        if v = [] then Inl ''empty number''
        else if \<not> list_all is_digit v then Inl ''unsupported number or name''
        else if parse_dec v < lo \<or> parse_dec v > hi then Inl (''value outside '' @ show_nat lo @ ''..'' @ show_nat hi)
        else Inr (parse_dec v))"

definition parse_step :: "string list \<Rightarrow> string + nat" where
  "parse_step pieces = (case pieces of
      [_, s] \<Rightarrow> (if s = [] \<or> \<not> list_all is_digit s \<or> parse_dec s > 2 ^ 63 - 1 \<or> parse_dec s < 1
         then Inl ''step must be a positive decimal integer'' else Inr (parse_dec s))
    | _ \<Rightarrow> Inr 1)"

definition parse_range :: "nat \<Rightarrow> nat \<Rightarrow> string list \<Rightarrow> string list \<Rightarrow> string + nat \<times> nat" where
  "parse_range lo hi names pieces = (case split_on CHR ''-'' (hd pieces) of
      [x] \<Rightarrow> bindr (parse_number lo hi names x) (\<lambda>a. Inr (a, if length pieces = 1 then a else hi))
    | [x, y] \<Rightarrow> bindr (parse_number lo hi names x) (\<lambda>a.
        case parse_number lo hi names y of
          Inr b \<Rightarrow> if b < a then Inl ''invalid or descending range'' else Inr (a, b)
        | Inl _ \<Rightarrow> Inl ''invalid or descending range'')
    | _ \<Rightarrow> Inl ''invalid range'')"

text \<open>A term: first and last value, step, and whether it is a wildcard.\<close>

definition parse_term :: "nat \<Rightarrow> nat \<Rightarrow> string list \<Rightarrow> string \<Rightarrow> string + nat \<times> nat \<times> nat \<times> bool" where
  "parse_term lo hi names term = (let pieces = split_on CHR ''/'' term in
     if length pieces > 2 \<or> hd pieces = [] then Inl ''invalid range/step''
     else bindr (parse_step pieces) (\<lambda>s.
       if hd pieces = ''*'' then Inr (lo, hi, s, True)
       else bindr (parse_range lo hi names pieces) (\<lambda>(a, b). Inr (a, b, s, False))))"

text \<open>The loop that sets a bit for every step up to the last value; a step of 0 is refused before it.\<close>

function mark :: "nat \<Rightarrow> nat \<Rightarrow> nat \<Rightarrow> 64 word \<Rightarrow> 64 word" where
  "mark s hi v bits = (let bits' = or bits (push_bit v 1) in
     if int s > int hi - int v \<or> s = 0 then bits' else mark s hi (v + s) bits')"
  by pat_completeness auto
termination by (relation "measure (\<lambda>(s, hi, v, bits). hi - v)") auto

declare mark.simps [simp del]

definition add_term :: "nat \<Rightarrow> nat \<Rightarrow> string list \<Rightarrow> string \<Rightarrow> policy_field \<Rightarrow> string + policy_field" where
  "add_term lo hi names term f =
     bindr (parse_term lo hi names term) (\<lambda>(a, b, s, star).
       Inr \<lparr>pf_bits = mark s b a (pf_bits f), pf_star = (star \<or> pf_star f)\<rparr>)"

definition parse_field :: "nat \<Rightarrow> nat \<Rightarrow> string list \<Rightarrow> string \<Rightarrow> string + policy_field" where
  "parse_field lo hi names s = (let terms = split_on CHR '','' s in
     if length terms > 64 then Inl ''too many list items''
     else foldr_res (add_term lo hi names) terms \<lparr>pf_bits = 0, pf_star = False\<rparr>)"

section \<open>Cron expressions\<close>

record policy_cron =
  pc_minute :: policy_field
  pc_hour :: policy_field
  pc_day :: policy_field
  pc_month :: policy_field
  pc_weekday :: policy_field
  pc_zone :: zone

definition month_names :: "string list" where
  "month_names = [''JAN'', ''FEB'', ''MAR'', ''APR'', ''MAY'', ''JUN'', ''JUL'', ''AUG'', ''SEP'', ''OCT'', ''NOV'', ''DEC'']"

definition weekday_names :: "string list" where
  "weekday_names = [''SUN'', ''MON'', ''TUE'', ''WED'', ''THU'', ''FRI'', ''SAT'']"

definition zone_name :: "string \<Rightarrow> bool" where
  "zone_name z \<longleftrightarrow> z \<noteq> [] \<and> z \<noteq> ''Local'' \<and> z \<noteq> ''localtime'' \<and> z \<noteq> ''posixrules'' \<and> length z \<le> 256 \<and>
     trimmed z \<and> \<not> path_absolute z \<and> path_clean z = z \<and> CHR 92 \<notin> set z"

definition cron_text :: "string \<Rightarrow> bool" where
  "cron_text s \<longleftrightarrow> list_all (\<lambda>c. (of_char c :: nat) = 9 \<or> char_in c 32 126) s"

definition cron_field :: "nat \<Rightarrow> string + policy_field \<Rightarrow> go_error + policy_field" where
  "cron_field i r = (case r of Inl m \<Rightarrow> policy_invalid (''cron field '' @ show_nat i @ '': '' @ m) | Inr f \<Rightarrow> Inr f)"

definition parse_cron :: "'v policy_env \<Rightarrow> policy_schedule \<Rightarrow> go_error + policy_cron" where
  "parse_cron env s =
     (if \<not> zone_name (sc_zone s)
      then policy_invalid ''explicit named timezone required; host-local and path aliases are not accepted''
      else if \<not> all_runes printable (sc_zone s) then policy_invalid ''timezone contains control or formatting characters''
      else case po_zone env (sc_zone s) of
        None \<Rightarrow> policy_invalid (''named timezone cannot be resolved: '' @ sc_zone s)
      | Some z \<Rightarrow>
          if sc_cron s = [] \<or> length (sc_cron s) > 512 then policy_invalid ''cron must contain at most 512 bytes''
          else if \<not> cron_text (sc_cron s) then policy_invalid ''cron accepts ASCII syntax with space/tab separators only''
          else (case text_fields (sc_cron s) of
            [mi, ho, da, mo, wd] \<Rightarrow>
              bindr (cron_field 1 (parse_field 0 59 [] mi)) (\<lambda>mi'.
              bindr (cron_field 2 (parse_field 0 23 [] ho)) (\<lambda>ho'.
              bindr (cron_field 3 (parse_field 1 31 [] da)) (\<lambda>da'.
              bindr (cron_field 4 (parse_field 1 12 month_names mo)) (\<lambda>mo'.
              bindr (cron_field 5 (parse_field 0 6 weekday_names wd)) (\<lambda>wd'.
                Inr \<lparr>pc_minute = mi', pc_hour = ho', pc_day = da', pc_month = mo', pc_weekday = wd', pc_zone = z\<rparr>)))))
          | _ \<Rightarrow> policy_invalid ''cron requires exactly five fields: minute hour day-of-month month day-of-week''))"

text \<open>Restricted days of month and of week are alternatives; with a wildcard in either both must match.\<close>

definition day_matches :: "policy_cron \<Rightarrow> nat \<Rightarrow> nat \<Rightarrow> bool" where
  "day_matches c d w \<longleftrightarrow> (let dom = field_has (pc_day c) d; dow = field_has (pc_weekday c) w in
     if pf_star (pc_day c) \<or> pf_star (pc_weekday c) then dom \<and> dow else dom \<or> dow)"

definition month_days :: "int \<Rightarrow> nat \<Rightarrow> nat" where
  "month_days y m = (case civil (go_date y (int m + 1) 0) of (_, _, d) \<Rightarrow> nat d)"

definition calendar_possible :: "policy_cron \<Rightarrow> bool" where
  "calendar_possible c \<longleftrightarrow>
     list_ex (\<lambda>y. list_ex (\<lambda>m. field_has (pc_month c) m \<and>
       list_ex (\<lambda>d. day_matches c d (weekday (go_date (int y) (int m) (int d)))) [1..<Suc (month_days (int y) m)])
       [1..<13]) [2000..<2400]"

section \<open>Validation\<close>

definition check_item :: "string \<Rightarrow> string list \<Rightarrow> go_error + string list" where
  "check_item item seen =
     (if \<not> trimmed item \<or> item = [] then policy_invalid ''backup policy selector contains an empty or surrounding-whitespace value''
      else if \<not> all_runes printable item then policy_invalid ''backup policy selector contains control or formatting characters''
      else if item \<in> set seen then policy_invalid ''backup policy selector contains a duplicate value''
      else Inr (item # seen))"

definition validate_selection :: "policy_selector \<Rightarrow> go_error + string list" where
  "validate_selection s = (let items = (if sl_vms s = [] then sl_tags s else sl_vms s) in
     if length items > 4096 then policy_invalid ''backup policy selector exceeds 4096 entries''
     else foldr_res check_item items [])"

definition parse_policy :: "'v policy_env \<Rightarrow> bytes \<Rightarrow> go_error + policy_report \<times> policy_cron" where
  "parse_policy env raw = (case po_document env raw of
      Inl m \<Rightarrow> policy_invalid m
    | Inr v \<Rightarrow>
        if po_kind env v \<noteq> Some ''BackupPolicy'' then policy_invalid ''BackupPolicy document required''
        else case po_decode env v of
          None \<Rightarrow> policy_invalid ''backup policy values exceed supported integer or field bounds''
        | Some d \<Rightarrow>
            if list_ex (\<lambda>k. k > 2 ^ 53 - 1) [rt_daily (pd_retention d), rt_weekly (pd_retention d), rt_monthly (pd_retention d)]
            then policy_invalid ''retention count exceeds the exact JSON integer range''
            else bindr (validate_selection (pd_selector d)) (\<lambda>_.
              bindr (parse_cron env (pd_schedule d)) (\<lambda>c.
              if \<not> calendar_possible c then policy_invalid ''cron has no possible Gregorian calendar date''
              else Inr (\<lparr>pr_api = api_version, pr_valid = True, pr_scope = ''declaration'', pr_policy = d, pr_after = None,
                pr_runs = [], pr_preflight = ''not-run'', pr_installed = False, pr_captured = False, pr_recovered = False\<rparr>, c))))"

definition validate_policy :: "'v policy_env \<Rightarrow> bytes \<Rightarrow> go_error + policy_report" where
  "validate_policy env raw = bindr (parse_policy env raw) (\<lambda>(r, _). Inr r)"

section \<open>Preview\<close>

text \<open>The wall clock of a zone at an instant, and how far it is into its minute.\<close>

definition wall :: "zone \<Rightarrow> int \<Rightarrow> int" where
  "wall z t = t + zn_offset z t * 1000000000"

definition elapsed :: "zone \<Rightarrow> int \<Rightarrow> int" where
  "elapsed z t = wall z t mod minute_ns"

partial_function (option) minute_from :: "zone \<Rightarrow> int \<Rightarrow> int option" where
  "minute_from z t =
     (if elapsed z t = 0 then Some t
      else let nxt = t + (minute_ns - elapsed z t); b = zn_end z t in
        if b \<noteq> 0 \<and> t < b \<and> b < nxt then minute_from z b else Some nxt)"

definition next_minute :: "zone \<Rightarrow> int \<Rightarrow> int option" where
  "next_minute z after = minute_from z (after + 1)"

definition cron_matches :: "policy_cron \<Rightarrow> int \<Rightarrow> bool" where
  "cron_matches c t \<longleftrightarrow> (let w = wall (pc_zone c) t in case civil (w div day_ns) of (_, m, d) \<Rightarrow>
     field_has (pc_month c) m \<and> day_matches c (nat d) (weekday (w div day_ns)) \<and>
     field_has (pc_hour c) (nat (w div (60 * minute_ns) mod 24)) \<and> field_has (pc_minute c) (nat (w div minute_ns mod 60)))"

text \<open>
  The loop of the preview: \<open>k\<close> counts the instants, \<open>n\<close> the polls of the context, which is asked
  every 1024 instants and before success is returned.
\<close>

partial_function (option) preview_loop ::
  "policy_cron \<Rightarrow> (nat \<Rightarrow> go_error option) \<Rightarrow> int \<Rightarrow> nat \<Rightarrow> nat \<Rightarrow> nat \<Rightarrow> int list \<Rightarrow> int \<Rightarrow> (go_error + int list) option" where
  "preview_loop c polls deadline count k n runs t =
     (if t > deadline then Some (policy_invalid ''requested occurrence preview exceeds the bounded eight-year horizon'')
      else if k mod 1024 = 0 \<and> polls n \<noteq> None then Some (Inl (the (polls n)))
      else let n' = (if k mod 1024 = 0 then Suc n else n); hit = cron_matches c t; runs' = (if hit then runs @ [t] else runs) in
        if hit \<and> length runs' = count
        then Some (case polls n' of Some e \<Rightarrow> Inl e | None \<Rightarrow> Inr runs')
        else Option.bind (next_minute (pc_zone c) t) (preview_loop c polls deadline count (Suc k) n' runs'))"

definition preview_deadline :: "int \<Rightarrow> int" where
  "preview_deadline after = (case civil (after div day_ns) of (y, m, d) \<Rightarrow>
     go_date (y + 8) (int m) d * day_ns + after mod day_ns)"

definition preview_policy ::
  "'v policy_env \<Rightarrow> (nat \<Rightarrow> go_error option) \<Rightarrow> bytes \<Rightarrow> int \<Rightarrow> int \<Rightarrow> (go_error + policy_report) option" where
  "preview_policy env polls raw after count =
     (case polls 0 of Some e \<Rightarrow> Some (Inl e) | None \<Rightarrow>
        if count < 1 \<or> count > 32 \<or> after = 0 \<or> fst (civil (after div day_ns)) < 1 \<or> fst (civil (after div day_ns)) > 9991
        then Some (policy_invalid ''preview requires 1..32 occurrences and a nonzero instant in years 1..9991'')
        else case parse_policy env raw of
          Inl e \<Rightarrow> Some (Inl e)
        | Inr (r, c) \<Rightarrow> Option.bind (next_minute (pc_zone c) after) (\<lambda>t.
            map_option (\<lambda>res. bindr res (\<lambda>runs. Inr (r\<lparr>pr_runs := runs, pr_after := Some after\<rparr>)))
              (preview_loop c polls (preview_deadline after) (nat count) 0 1 [] t)))"

end
