(* ===== verification/Policy_Laws.thy ===== *)
theory Policy_Laws
  imports Policy
begin

text \<open>
  What backup policies promise: a cron field is the union of the sets its terms denote, a
  schedule is refused exactly when no date of the calendar can match it, and the preview is the
  first instants after the given one at which a minute that matches begins.
\<close>

section \<open>Bit sets\<close>

lemma field_has_bit: "v < 64 \<Longrightarrow> field_has f v \<longleftrightarrow> bit (pf_bits f) v"
  by (simp add: field_has_def and_exp_eq_0_iff_not_bit)

lemma bit_mark:
  "1 \<le> s \<Longrightarrow> v \<le> b \<Longrightarrow> b < 64 \<Longrightarrow> bit (mark s b v w) n \<longleftrightarrow> bit w n \<or> (\<exists>k. n = v + k * s \<and> n \<le> b)"
proof (induction s b v w rule: mark.induct)
  case (1 s b v w)
  have one: "bit (or w (push_bit v 1)) n \<longleftrightarrow> bit w n \<or> n = v"
    using "1.prems" by (auto simp: bit_or_iff bit_exp_iff)
  show ?case
  proof (cases "int s > int b - int v \<or> s = 0")
    case True
    then have "b < v + s" using "1.prems" by linarith
    then have "k = 0" if "v + k * s \<le> b" for k using that by (cases k) simp_all
    then have "(\<exists>k. n = v + k * s \<and> n \<le> b) \<longleftrightarrow> n = v" using "1.prems" by (metis add.right_neutral mult_0)
    then show ?thesis using one True by (simp add: mark.simps [of s b v w])
  next
    case False
    then have "v + s \<le> b" by linarith
    then have "bit (mark s b v w) n \<longleftrightarrow> (bit w n \<or> n = v) \<or> (\<exists>k. n = v + s + k * s \<and> n \<le> b)"
      using 1 False one by (simp add: mark.simps [of s b v w])
    also have "\<dots> \<longleftrightarrow> bit w n \<or> (\<exists>k. n = v + k * s \<and> n \<le> b)"
    proof -
      have "(\<exists>k. n = v + k * s \<and> n \<le> b) \<longleftrightarrow> n = v \<and> v \<le> b \<or> (\<exists>k. n = v + s + k * s \<and> n \<le> b)"
        by (metis (no_types, lifting) add.assoc add.right_neutral mult_0 mult_Suc not0_implies_Suc)
      then show ?thesis using "1.prems" by blast
    qed
    finally show ?thesis .
  qed
qed

section \<open>The grammar of a cron field\<close>

definition number_is :: "nat \<Rightarrow> nat \<Rightarrow> string list \<Rightarrow> string \<Rightarrow> nat \<Rightarrow> bool" where
  "number_is lo hi names x a \<longleftrightarrow>
     (\<exists>i < length names. same_name x (names ! i) \<and> a = lo + i) \<or>
     x \<noteq> [] \<and> list_all is_digit x \<and> lo \<le> a \<and> a \<le> hi \<and> a = parse_dec x"

definition step_is :: "string \<Rightarrow> nat \<Rightarrow> bool" where
  "step_is x s \<longleftrightarrow> x \<noteq> [] \<and> list_all is_digit x \<and> s = parse_dec x \<and> 1 \<le> s \<and> s < 2 ^ 63"

text \<open>The text of a range, its first and last value; \<open>point\<close> marks a single number.\<close>

inductive base_is :: "nat \<Rightarrow> nat \<Rightarrow> string list \<Rightarrow> string \<Rightarrow> nat \<Rightarrow> nat \<Rightarrow> bool \<Rightarrow> bool" for lo hi names where
  any: "base_is lo hi names ''*'' lo hi False"
| point: "number_is lo hi names x a \<Longrightarrow> base_is lo hi names x a hi True"
| range: "number_is lo hi names x a \<Longrightarrow> number_is lo hi names y b \<Longrightarrow> a \<le> b \<Longrightarrow>
    base_is lo hi names (x @ CHR ''-'' # y) a b False"

inductive term_is :: "nat \<Rightarrow> nat \<Rightarrow> string list \<Rightarrow> string \<Rightarrow> nat \<Rightarrow> nat \<Rightarrow> nat \<Rightarrow> bool" for lo hi names where
  plain: "base_is lo hi names r a b point \<Longrightarrow> term_is lo hi names r a (if point then a else b) 1"
| stepped: "base_is lo hi names r a b point \<Longrightarrow> step_is s n \<Longrightarrow> term_is lo hi names (r @ CHR ''/'' # s) a b n"

text \<open>The names of a field are distinct texts of letters within its bounds.\<close>

definition names_ok :: "nat \<Rightarrow> nat \<Rightarrow> string list \<Rightarrow> bool" where
  "names_ok lo hi names \<longleftrightarrow> lo \<le> hi \<and> hi < 64 \<and> lo + length names \<le> Suc hi \<and> distinct (map (map lower) names) \<and>
     list_all (\<lambda>x. x \<noteq> [] \<and> list_all is_lower (map lower x)) names"

definition cron_fields :: "(nat \<times> nat \<times> string list) list" where
  "cron_fields = [(0, 59, []), (0, 23, []), (1, 31, []), (1, 12, month_names), (0, 6, weekday_names)]"

lemma cron_fields_ok: "list_all (\<lambda>(lo, hi, names). names_ok lo hi names) cron_fields"
  by (simp add: cron_fields_def names_ok_def month_names_def weekday_names_def lower_def is_lower_def is_upper_def char_in_def)

lemma digit_lower: "is_digit c \<Longrightarrow> lower c = c \<and> \<not> is_lower c"
  by (auto simp: is_digit_def lower_def is_upper_def is_lower_def char_in_def)


lemma same_name_split: "same_name x n \<Longrightarrow> list_all is_lower (map lower n) \<Longrightarrow> c \<in> set x \<Longrightarrow> is_lower (lower c)"
  unfolding same_name_def by (metis list_all_iff image_eqI list.set_map)

lemma number_text:
  assumes "names_ok lo hi names" "number_is lo hi names x a"
  shows "x \<noteq> [] \<and> CHR ''-'' \<notin> set x \<and> CHR ''/'' \<notin> set x \<and> CHR '','' \<notin> set x \<and> x \<noteq> ''*'' \<and> a \<le> hi"
proof -
  have sep: "\<not> is_lower (lower CHR ''-'')" "\<not> is_lower (lower CHR ''/'')" "\<not> is_lower (lower CHR '','')" "\<not> is_lower (lower CHR ''*'')"
    by (simp_all add: lower_def is_lower_def is_upper_def char_in_def)
  from assms(2) consider (name) i where "i < length names" "same_name x (names ! i)" "a = lo + i"
    | (digits) "x \<noteq> []" "list_all is_digit x" "a \<le> hi" unfolding number_is_def by blast
  then show ?thesis
  proof cases
    case name
    then have n: "names ! i \<noteq> []" "list_all is_lower (map lower (names ! i))" using assms(1) by (auto simp: names_ok_def list_all_length)
    then have c: "c \<in> set x \<Longrightarrow> is_lower (lower c)" for c using same_name_split [OF name(2)] by blast
    then have "CHR ''-'' \<notin> set x" "CHR ''/'' \<notin> set x" "CHR '','' \<notin> set x" "CHR ''*'' \<notin> set x" using sep by blast+
    moreover have "x \<noteq> []" using name(2) n(1) by (auto simp: same_name_def)
    ultimately show ?thesis using name assms(1) by (auto simp: names_ok_def)
  next
    case digits
    then have "c \<in> set x \<Longrightarrow> is_digit c" for c by (simp add: list_all_iff)
    moreover have "\<not> is_digit CHR ''-''" "\<not> is_digit CHR ''/''" "\<not> is_digit CHR '',''" "\<not> is_digit CHR ''*''"
      by (simp_all add: is_digit_def)
    ultimately have "CHR ''-'' \<notin> set x" "CHR ''/'' \<notin> set x" "CHR '','' \<notin> set x" "CHR ''*'' \<notin> set x" by blast+
    then show ?thesis using digits by auto
  qed
qed

lemma parse_number_iff:
  assumes "names_ok lo hi names"
  shows "parse_number lo hi names x = Inr a \<longleftrightarrow> number_is lo hi names x a"
proof (cases "find (\<lambda>i. same_name x (names ! i)) [0..<length names]")
  case None
  then have "\<not> same_name x (names ! i)" if "i < length names" for i using that by (auto simp: find_None_iff)
  then show ?thesis using None by (auto simp: parse_number_def number_is_def)
next
  case (Some i)
  then have i: "i < length names" "same_name x (names ! i)" by (auto simp: find_Some_iff)
  then have n: "names ! i \<noteq> []" "list_all is_lower (map lower (names ! i))" using assms by (auto simp: names_ok_def list_all_length)
  then obtain c where c: "c \<in> set x" using i(2) by (cases x) (auto simp: same_name_def)
  then have "is_lower (lower c)" using same_name_split [OF i(2) n(2)] by blast
  then have nd: "\<not> list_all is_digit x" using c digit_lower by (metis list_all_iff)
  have uniq: "j = i" if "j < length names" "same_name x (names ! j)" for j
  proof -
    have "map (map lower) names ! j = map (map lower) names ! i" using that i by (simp add: same_name_def)
    then show ?thesis using that(1) i(1) assms by (simp add: names_ok_def nth_eq_iff_index_eq del: nth_map)
  qed
  have "parse_number lo hi names x = Inr (lo + i)" using Some by (simp add: parse_number_def)
  moreover have "number_is lo hi names x a \<longleftrightarrow> a = lo + i" unfolding number_is_def using i nd uniq by blast
  ultimately show ?thesis by auto
qed

lemma split_on_single: "split_on c s = [a] \<longleftrightarrow> s = a \<and> c \<notin> set a"
proof
  assume "split_on c s = [a]"
  then show "s = a \<and> c \<notin> set a"
    by (induction s arbitrary: a) (auto split: if_splits list.splits)
qed (simp add: split_on_none)

lemma split_on_pair: "split_on c s = [a, b] \<longleftrightarrow> s = a @ c # b \<and> c \<notin> set a \<and> c \<notin> set b"
proof
  assume h: "split_on c s = [a, b]"
  then obtain r where r: "s = a @ c # r" "split_on c r = [b]" using split_on_two by blast
  then have b: "r = b" "c \<notin> set b" by (simp_all add: split_on_single)
  have "c \<notin> set a" using h
  proof (induction s arbitrary: a)
    case (Cons x xs)
    then show ?case by (auto split: if_splits list.splits)
  qed simp
  then show "s = a @ c # b \<and> c \<notin> set a \<and> c \<notin> set b" using r b by simp
qed (simp add: split_on_sep split_on_none)


lemma base_parsed:
  assumes ok: "names_ok lo hi names" and b: "base_is lo hi names r a b point"
  shows "r \<noteq> [] \<and> CHR ''/'' \<notin> set r \<and> CHR '','' \<notin> set r \<and> a \<le> hi \<and> b \<le> hi \<and>
    (if r = ''*'' then a = lo \<and> b = hi \<and> \<not> point
     else parse_range lo hi names (r # q) = Inr (a, if point \<and> q = [] then a else b))"
  using b
proof cases
  case any
  then show ?thesis using ok by (simp add: names_ok_def)
next
  case point
  then show ?thesis using number_text [OF ok point(3)] parse_number_iff [OF ok]
    by (auto simp: parse_range_def split_on_none)
next
  case (range x y)
  note t = number_text [OF ok range(3)] number_text [OF ok range(4)]
  then have "split_on CHR ''-'' r = [x, y]" using range(1) by (simp add: split_on_pair)
  then have "parse_range lo hi names (r # q) = Inr (a, b)"
    using range(3,4,5) by (simp add: parse_range_def parse_number_iff [OF ok, symmetric])
  moreover have "r \<noteq> ''*''" using t range(1) by (cases x) auto
  ultimately show ?thesis using t range(1,2,3,4) by auto
qed

lemma parsed_base:
  assumes ok: "names_ok lo hi names" and p: "parse_range lo hi names (r # q) = Inr (a, b)"
  shows "\<exists>b' point. base_is lo hi names r a b' point \<and> b = (if point \<and> q = [] then a else b')"
proof -
  consider (one) x where "split_on CHR ''-'' r = [x]" | (two) x y where "split_on CHR ''-'' r = [x, y]"
    | (more) x y z zs where "split_on CHR ''-'' r = x # y # z # zs" by (metis list.exhaust split_on_nonempty)
  then show ?thesis
  proof cases
    case one
    then have r: "r = x" by (simp only: split_on_single)
    then have "number_is lo hi names r a" "b = (if q = [] then a else hi)"
      using p one by (auto simp: parse_range_def parse_number_iff [OF ok])
    then show ?thesis by (intro exI [of _ hi] exI [of _ True]) (simp add: base_is.point)
  next
    case two
    then have "r = x @ CHR ''-'' # y" by (simp only: split_on_pair)
    moreover have "parse_number lo hi names x = Inr a \<and> parse_number lo hi names y = Inr b \<and> a \<le> b"
      using p two by (cases "parse_number lo hi names x"; cases "parse_number lo hi names y")
        (auto simp: parse_range_def split: if_splits)
    then have "number_is lo hi names x a" "number_is lo hi names y b" "a \<le> b" by (simp_all add: parse_number_iff [OF ok])
    ultimately show ?thesis by (intro exI [of _ b] exI [of _ False]) (simp add: base_is.range)
  next
    case more
    then show ?thesis using p by (simp add: parse_range_def)
  qed
qed

text \<open>Reading a term succeeds exactly on the terms of the grammar, with their values.\<close>

lemma parse_term_iff:
  assumes ok: "names_ok lo hi names"
  shows "parse_term lo hi names t = Inr (a, b, s, star) \<longleftrightarrow>
    term_is lo hi names t a b s \<and> star = (hd (split_on CHR ''/'' t) = ''*'')"
proof
  assume p: "parse_term lo hi names t = Inr (a, b, s, star)"
  consider (one) r where "split_on CHR ''/'' t = [r]" | (two) r n where "split_on CHR ''/'' t = [r, n]"
    | (more) x y z zs where "split_on CHR ''/'' t = x # y # z # zs" by (metis list.exhaust split_on_nonempty)
  then show "term_is lo hi names t a b s \<and> star = (hd (split_on CHR ''/'' t) = ''*'')"
  proof cases
    case one
    then have t: "t = r" by (simp only: split_on_single)
    show ?thesis
    proof (cases "r = ''*''")
      case True
      then have "(a, b, s, star) = (lo, hi, 1, True)" using p one by (simp add: Let_def parse_term_def parse_step_def)
      then show ?thesis using t True one term_is.plain [OF base_is.any] by simp
    next
      case False
      then have "parse_range lo hi names [r] = Inr (a, b)" "s = 1" "\<not> star"
        using p one by (auto simp: Let_def parse_term_def parse_step_def split: if_splits)
      then show ?thesis using parsed_base [OF ok] one t False term_is.plain by fastforce
    qed
  next
    case two
    then have t: "t = r @ CHR ''/'' # n" by (simp only: split_on_pair)
    have n: "step_is n s"
      using p two by (auto simp: Let_def parse_term_def parse_step_def step_is_def split: if_splits)
    show ?thesis
    proof (cases "r = ''*''")
      case True
      then have "(a, b, star) = (lo, hi, True)" using p two by (auto simp: Let_def parse_term_def)
      then show ?thesis using t True two term_is.stepped [OF base_is.any n] by simp
    next
      case False
      then have "parse_range lo hi names [r, n] = Inr (a, b)" "\<not> star" using p two by (auto simp: Let_def parse_term_def split: if_splits)
      then show ?thesis using parsed_base [OF ok] two t n False term_is.stepped by fastforce
    qed
  next
    case more
    then show ?thesis using p by (simp add: Let_def parse_term_def)
  qed
next
  assume h: "term_is lo hi names t a b s \<and> star = (hd (split_on CHR ''/'' t) = ''*'')"
  then have "term_is lo hi names t a b s" by blast
  then show "parse_term lo hi names t = Inr (a, b, s, star)"
  proof cases
    case (plain c point)
    then show ?thesis using h base_parsed [OF ok plain(3), of "[]"]
      by (auto simp: Let_def parse_term_def parse_step_def split_on_none split: if_splits)
  next
    case (stepped r point n)
    then have "CHR ''/'' \<notin> set n" by (auto simp: step_is_def list_all_iff is_digit_def)
    then have "split_on CHR ''/'' t = [r, n]" using stepped base_parsed [OF ok stepped(2)] by (simp add: split_on_pair)
    then show ?thesis using h stepped base_parsed [OF ok stepped(2), of "[n]"]
      by (auto simp: Let_def parse_term_def parse_step_def step_is_def split: if_splits)
  qed
qed

text \<open>The values a term denotes.\<close>

definition term_has :: "nat \<Rightarrow> nat \<Rightarrow> string list \<Rightarrow> nat \<Rightarrow> string \<Rightarrow> bool" where
  "term_has lo hi names v t \<longleftrightarrow> (\<exists>a b s k. term_is lo hi names t a b s \<and> v = a + k * s \<and> v \<le> b)"

definition term_ok :: "nat \<Rightarrow> nat \<Rightarrow> string list \<Rightarrow> string \<Rightarrow> bool" where
  "term_ok lo hi names t \<longleftrightarrow> (\<exists>a b s. term_is lo hi names t a b s)"

definition wildcard :: "string \<Rightarrow> bool" where
  "wildcard t \<longleftrightarrow> hd (split_on CHR ''/'' t) = ''*''"

lemma base_order:
  assumes ok: "names_ok lo hi names" and b: "base_is lo hi names r a b point"
  shows "a \<le> b \<and> b \<le> hi"
  using b
proof cases
  case any
  then show ?thesis using ok by (simp add: names_ok_def)
next
  case point
  then show ?thesis using number_text [OF ok point(3)] by simp
next
  case (range x y)
  then show ?thesis using number_text [OF ok range(4)] by simp
qed

lemma term_bounds:
  assumes ok: "names_ok lo hi names" and t: "term_is lo hi names t a b s"
  shows "1 \<le> s \<and> a \<le> b \<and> b < 64"
proof -
  have hi: "hi < 64" using ok by (simp add: names_ok_def)
  from t show ?thesis
  proof cases
    case (plain c point)
    then show ?thesis using base_order [OF ok plain(3)] hi by auto
  next
    case (stepped r point n)
    then show ?thesis using base_order [OF ok stepped(2)] hi by (simp add: step_is_def)
  qed
qed

lemma add_term_has:
  assumes ok: "names_ok lo hi names"
  shows "case add_term lo hi names t f of
      Inl e \<Rightarrow> \<not> term_ok lo hi names t
    | Inr g \<Rightarrow> term_ok lo hi names t \<and> pf_star g = (wildcard t \<or> pf_star f) \<and>
        (\<forall>v. bit (pf_bits g) v = (bit (pf_bits f) v \<or> term_has lo hi names v t))"
proof (cases "parse_term lo hi names t")
  case (Inl e)
  then have "\<not> term_is lo hi names t a b s" for a b s
    using parse_term_iff [OF ok, of t a b s "wildcard t"] by (auto simp: wildcard_def)
  then show ?thesis using Inl by (auto simp: add_term_def term_ok_def)
next
  case (Inr x)
  obtain a b s star where x: "x = (a, b, s, star)" by (metis prod_cases4)
  then have t: "term_is lo hi names t a b s" "star = wildcard t"
    using Inr parse_term_iff [OF ok] by (auto simp: wildcard_def)
  have u: "c = a \<and> d = b \<and> q = s" if "term_is lo hi names t c d q" for c d q
    using that Inr x parse_term_iff [OF ok, of t c d q "wildcard t"] by (simp add: wildcard_def)
  have "bit (mark s b a (pf_bits f)) v \<longleftrightarrow> bit (pf_bits f) v \<or> (\<exists>k. v = a + k * s \<and> v \<le> b)" for v
    by (rule bit_mark) (use term_bounds [OF ok t(1)] in auto)
  moreover have "term_has lo hi names v t \<longleftrightarrow> (\<exists>k. v = a + k * s \<and> v \<le> b)" for v
    unfolding term_has_def using t(1) u by blast
  ultimately show ?thesis using Inr x t by (auto simp: add_term_def term_ok_def)
qed

lemma add_terms_has:
  assumes ok: "names_ok lo hi names"
  shows "case foldr_res (add_term lo hi names) ts f of
      Inl e \<Rightarrow> \<not> list_all (term_ok lo hi names) ts
    | Inr g \<Rightarrow> list_all (term_ok lo hi names) ts \<and> pf_star g = (list_ex wildcard ts \<or> pf_star f) \<and>
        (\<forall>v. bit (pf_bits g) v = (bit (pf_bits f) v \<or> list_ex (term_has lo hi names v) ts))"
proof (induction ts arbitrary: f)
  case (Cons t ts)
  note a = add_term_has [OF ok, of t f]
  show ?case
  proof (cases "add_term lo hi names t f")
    case (Inr g)
    then show ?thesis using a Cons.IH [of g] by (auto split: sum.splits)
  qed (use a in simp)
qed simp

lemma term_has_bound: "names_ok lo hi names \<Longrightarrow> term_has lo hi names v t \<Longrightarrow> v < 64"
  unfolding term_has_def using term_bounds by fastforce

lemma field_has_off: "64 \<le> v \<Longrightarrow> \<not> field_has f v"
proof -
  assume "64 \<le> v"
  then have "push_bit v (1 :: 64 word) = 0" by (intro bit_word_eqI) (simp add: bit_exp_iff)
  then show ?thesis by (simp only: field_has_def) simp
qed

text \<open>
  C35. A field of a schedule is accepted exactly when it lists at most 64 terms of the cron
  grammar (a wildcard, a number or name within bounds, or an ascending range, each with an
  optional positive step). The set it stands for is then the union of the values its terms
  denote, nothing else, and it counts as a wildcard exactly when some term starts from one.
\<close>

theorem cron_field_sets:
  "list_all (\<lambda>(lo, hi, names). \<forall>s.
     case parse_field lo hi names s of
       Inl e \<Rightarrow> \<not> (length (split_on CHR '','' s) \<le> 64 \<and> list_all (term_ok lo hi names) (split_on CHR '','' s))
     | Inr f \<Rightarrow> length (split_on CHR '','' s) \<le> 64 \<and> list_all (term_ok lo hi names) (split_on CHR '','' s) \<and>
         pf_star f = list_ex wildcard (split_on CHR '','' s) \<and>
         (\<forall>v. field_has f v = list_ex (term_has lo hi names v) (split_on CHR '','' s))) cron_fields"
proof -
  have "case parse_field lo hi names s of
       Inl e \<Rightarrow> \<not> (length (split_on CHR '','' s) \<le> 64 \<and> list_all (term_ok lo hi names) (split_on CHR '','' s))
     | Inr f \<Rightarrow> length (split_on CHR '','' s) \<le> 64 \<and> list_all (term_ok lo hi names) (split_on CHR '','' s) \<and>
         pf_star f = list_ex wildcard (split_on CHR '','' s) \<and>
         (\<forall>v. field_has f v = list_ex (term_has lo hi names v) (split_on CHR '','' s))"
    if ok: "names_ok lo hi names" for lo hi names s
  proof -
    have "field_has f v = list_ex (term_has lo hi names v) (split_on CHR '','' s)"
      if "\<forall>v. bit (pf_bits f) v = list_ex (term_has lo hi names v) (split_on CHR '','' s)" for f v
      using that field_has_bit [of v f] field_has_off [of v f] term_has_bound [OF ok, of v] by (cases "v < 64") (auto simp: list_ex_iff)
    then show ?thesis
      using add_terms_has [OF ok, of "split_on CHR '','' s" "\<lparr>pf_bits = 0, pf_star = False\<rparr>"]
      by (auto simp: parse_field_def Let_def split: sum.splits)
  qed
  then show ?thesis using cron_fields_ok by (auto simp: list_all_iff)
qed

section \<open>The calendar\<close>

lemma month_days: "1 \<le> m \<Longrightarrow> m \<le> 12 \<Longrightarrow> month_days y m = nat (month_len y m)"
  by (simp add: month_days_def last_of_month)

text \<open>
  C36. A schedule is refused as impossible exactly when no date of the Gregorian calendar, in any
  year, falls on one of its months and days: the 400 years searched stand for all.
\<close>

theorem calendar_search_complete:
  "calendar_possible c \<longleftrightarrow> (\<exists>y m d. valid_date y m d \<and> field_has (pc_month c) m \<and>
     day_matches c (nat d) (weekday (day_number y m d)))"
proof
  assume "calendar_possible c"
  then obtain y m d where y: "m \<in> {1..<13}" "field_has (pc_month c) m" "d \<in> {1..<Suc (month_days (int y) m)}"
    "day_matches c d (weekday (go_date (int y) (int m) (int d)))" unfolding calendar_possible_def list_ex_iff set_upt by blast
  then have "valid_date (int y) m (int d)" by (auto simp: valid_date_def month_days)
  then show "\<exists>y m d. valid_date y m d \<and> field_has (pc_month c) m \<and> day_matches c (nat d) (weekday (day_number y m d))"
    using y go_date_valid [of "int y" m "int d"] by (metis nat_int)
next
  assume "\<exists>y m d. valid_date y m d \<and> field_has (pc_month c) m \<and> day_matches c (nat d) (weekday (day_number y m d))"
  then obtain y m d where d: "valid_date y m d" "field_has (pc_month c) m" "day_matches c (nat d) (weekday (day_number y m d))" by blast
  define z where "z = nat (2000 + y mod 400)"
  have z: "z \<in> {2000..<2400}" "int z = 2000 + y mod 400" by (auto simp: z_def)
  have "y = 400 * (y div 400 - 5) + int z" using z(2) mult_div_mod_eq [of 400 y] by (simp add: algebra_simps)
  then obtain k where y: "y = 400 * k + int z" by blast
  have v: "valid_date (int z) m d" "weekday (day_number (int z) m d) = weekday (day_number y m d)"
    using d(1) unfolding y by (simp_all only: valid_period day_number_period weekday_period)
  then have m: "m \<in> set [1..<13]" "nat d \<in> set [1..<Suc (month_days (int z) m)]" "int (nat d) = d"
    by (auto simp: valid_date_def month_days)
  let ?P = "\<lambda>y m d. day_matches c d (weekday (go_date (int y) (int m) (int d)))"
  have "?P z m (nat d)" unfolding m(3) go_date_valid [OF v(1)] v(2) by (rule d(3))
  then have "list_ex (?P z m) [1..<Suc (month_days (int z) m)]" unfolding list_ex_iff using m(2) by blast
  then have "list_ex (\<lambda>m. field_has (pc_month c) m \<and> list_ex (?P z m) [1..<Suc (month_days (int z) m)]) [1..<13]"
    unfolding list_ex_iff [of _ "[1..<13]"] using m(1) d(2)
    by (intro bexI [of _ m] conjI)
  moreover have "z \<in> set [2000..<2400]" unfolding set_upt by (rule z(1))
  ultimately show "calendar_possible c" unfolding calendar_possible_def list_ex_iff [of _ "[2000..<2400]"] by blast
qed

section \<open>The preview\<close>

text \<open>
  What the preview relies on of a time zone: until the end of the rule in force the offset does not
  change, and a rule that ends is followed by one that lasts at least a minute. Offsets are whole
  seconds; they need not be whole minutes.
\<close>

definition zone_rules :: "zone \<Rightarrow> bool" where
  "zone_rules z \<longleftrightarrow> (\<forall>t. (zn_end z t \<noteq> 0 \<longrightarrow> t < zn_end z t \<and>
       (zn_end z (zn_end z t) = 0 \<or> zn_end z t + minute_ns \<le> zn_end z (zn_end z t))) \<and>
     (\<forall>u. t \<le> u \<and> (zn_end z t = 0 \<or> u < zn_end z t) \<longrightarrow> zn_offset z u = zn_offset z t))"

lemma zone_rulesD:
  assumes "zone_rules z"
  shows "zn_end z t \<noteq> 0 \<Longrightarrow> t < zn_end z t"
    and "zn_end z t \<noteq> 0 \<Longrightarrow> zn_end z (zn_end z t) = 0 \<or> zn_end z t + minute_ns \<le> zn_end z (zn_end z t)"
    and "t \<le> u \<Longrightarrow> zn_end z t = 0 \<or> u < zn_end z t \<Longrightarrow> zn_offset z u = zn_offset z t"
  using assms unfolding zone_rules_def by blast+

text \<open>
  The instants the search stops at, from an instant on: a minute of the zone's clock begins there, or
  the clock that was in force up to there has just run out a minute (which is the same thing unless
  a rule ends there).
\<close>

definition runs_out :: "zone \<Rightarrow> int \<Rightarrow> bool" where
  "runs_out z v \<longleftrightarrow> (v + zn_offset z (v - 1) * 1000000000) mod minute_ns = 0"

definition stops :: "zone \<Rightarrow> int \<Rightarrow> int \<Rightarrow> bool" where
  "stops z s v \<longleftrightarrow> s \<le> v \<and> (elapsed z v = 0 \<or> s < v \<and> runs_out z v)"

definition first_stop :: "zone \<Rightarrow> int \<Rightarrow> int \<Rightarrow> bool" where
  "first_stop z s v \<longleftrightarrow> stops z s v \<and> (\<forall>u. stops z s u \<longrightarrow> v \<le> u)"

text \<open>Within one rule the clock runs on.\<close>

lemma elapsed_within:
  assumes "zone_rules z" and "t \<le> u" and "zn_end z t = 0 \<or> u < zn_end z t"
  shows "elapsed z u = (elapsed z t + (u - t)) mod minute_ns"
proof -
  have "zn_offset z u = zn_offset z t" by (rule zone_rulesD(3) [OF assms])
  then have "wall z u = wall z t + (u - t)" by (simp add: wall_def)
  then show ?thesis by (simp add: elapsed_def mod_add_left_eq)
qed

lemma runs_out_within:
  assumes "zone_rules z" and "t < u" and "zn_end z t = 0 \<or> u \<le> zn_end z t"
  shows "runs_out z u \<longleftrightarrow> (elapsed z t + (u - t)) mod minute_ns = 0"
proof -
  have "zn_offset z (u - 1) = zn_offset z t" using zone_rulesD(3) [OF assms(1), of t "u - 1"] assms(2,3) by auto
  then have eq: "u + zn_offset z (u - 1) * 1000000000 = wall z t + (u - t)" by (simp add: wall_def)
  show ?thesis unfolding runs_out_def eq by (simp add: elapsed_def mod_add_left_eq)
qed

lemma elapsed_bounds: "0 \<le> elapsed z t" "elapsed z t < minute_ns"
  by (simp_all add: elapsed_def minute_ns_def)

lemma not_whole: "0 < a \<Longrightarrow> 0 \<le> d \<Longrightarrow> a + d < minute_ns \<Longrightarrow> (a + d) mod minute_ns \<noteq> 0"
  by simp

lemma quiet_within:
  assumes z: "zone_rules z" and e: "elapsed z t \<noteq> 0" and u: "t \<le> u" "u < t + (minute_ns - elapsed z t)"
    and b: "zn_end z t = 0 \<or> u < zn_end z t"
  shows "\<not> stops z t u"
proof -
  have "0 < elapsed z t" using e elapsed_bounds(1) [of z t] by linarith
  then have n: "(elapsed z t + (u - t)) mod minute_ns \<noteq> 0" using u by (intro not_whole) simp_all
  then have "elapsed z u \<noteq> 0" using elapsed_within [OF z u(1) b] by simp
  moreover have "\<not> runs_out z u" if "t < u"
    using runs_out_within [OF z that] b n by auto
  ultimately show ?thesis by (auto simp: stops_def)
qed

text \<open>Where no rule ends before the minute does, the search goes to the end of the minute.\<close>

lemma one_hop:
  assumes z: "zone_rules z" and e: "elapsed z t \<noteq> 0" and b: "zn_end z t = 0 \<or> t + (minute_ns - elapsed z t) \<le> zn_end z t"
  shows "minute_from z t = Some (t + (minute_ns - elapsed z t)) \<and> first_stop z t (t + (minute_ns - elapsed z t))"
proof -
  let ?n = "t + (minute_ns - elapsed z t)"
  have t: "t < ?n" using elapsed_bounds(2) [of z t] by simp
  have "runs_out z ?n" using runs_out_within [OF z t] b by simp
  then have s: "stops z t ?n" using t by (simp add: stops_def)
  have "?n \<le> u" if "stops z t u" for u
  proof (rule ccontr)
    assume "\<not> ?n \<le> u"
    then show False using quiet_within [OF z e, of u] b that by (auto simp: stops_def)
  qed
  then have "first_stop z t ?n" using s by (simp add: first_stop_def)
  then show ?thesis using e b by (auto simp: minute_from.simps [of z t] Let_def)
qed

lemma minute_from_first:
  assumes z: "zone_rules z"
  shows "\<exists>v. minute_from z t = Some v \<and> first_stop z t v"
proof -
  consider "elapsed z t = 0" | "elapsed z t \<noteq> 0" "zn_end z t = 0 \<or> t + (minute_ns - elapsed z t) \<le> zn_end z t"
    | "elapsed z t \<noteq> 0" "zn_end z t \<noteq> 0" "zn_end z t < t + (minute_ns - elapsed z t)" by linarith
  then show ?thesis
  proof cases
    case 1
    then show ?thesis by (simp add: minute_from.simps [of z t] first_stop_def stops_def)
  next
    case 2
    then show ?thesis using one_hop [OF z] by blast
  next
    case 3
    let ?b = "zn_end z t"
    have tb: "t < ?b" by (rule zone_rulesD(1) [OF z 3(2)])
    have jump: "minute_from z t = minute_from z ?b" using 3 tb by (simp add: minute_from.simps [of z t] Let_def)
    obtain v where v: "minute_from z ?b = Some v" "first_stop z ?b v"
    proof (cases "elapsed z ?b = 0")
      case True
      then show thesis using that [of ?b] by (simp add: minute_from.simps [of z ?b] first_stop_def stops_def)
    next
      case False
      have "zn_end z ?b = 0 \<or> ?b + (minute_ns - elapsed z ?b) \<le> zn_end z ?b"
        using zone_rulesD(2) [OF z 3(2)] elapsed_bounds(1) [of z ?b] by linarith
      then show thesis using one_hop [OF z False] that by blast
    qed
    have pos: "0 < elapsed z t" using 3(1) elapsed_bounds(1) [of z t] by linarith
    have "(elapsed z t + (?b - t)) mod minute_ns \<noteq> 0" using pos tb 3(3) by (intro not_whole) simp_all
    then have "\<not> runs_out z ?b" using runs_out_within [OF z tb] by simp
    then have same: "stops z t u \<longleftrightarrow> stops z ?b u" if "?b \<le> u" for u
      using that tb by (cases "u = ?b") (auto simp: stops_def)
    have "\<not> stops z t u" if "u < ?b" for u
      using quiet_within [OF z 3(1), of u] 3(3) that by (auto simp: stops_def)
    then have "first_stop z t v" using v(2) same unfolding first_stop_def
      by (metis linorder_not_le stops_def)
    then show ?thesis using jump v(1) by simp
  qed
qed

lemma next_minute_first: "zone_rules z \<Longrightarrow> \<exists>v. next_minute z t = Some v \<and> first_stop z (t + 1) v"
  unfolding next_minute_def by (rule minute_from_first)

text \<open>A search that goes on from one stop finds all the others.\<close>

lemma stop_seconds: "stops z s v \<Longrightarrow> 1000000000 dvd v"
proof -
  have sec: "1000000000 dvd v" if "(v + x * 1000000000) mod minute_ns = 0" for x
  proof -
    have "minute_ns dvd v + x * 1000000000" using that by (rule dvd_eq_mod_eq_0 [THEN iffD2])
    moreover have "(1000000000 :: int) dvd minute_ns" by (simp add: minute_ns_def)
    ultimately have "1000000000 dvd v + x * 1000000000" by (rule dvd_trans [rotated])
    then show ?thesis by (simp only: dvd_add_left_iff dvd_triv_right)
  qed
  assume "stops z s v"
  then have "(v + zn_offset z v * 1000000000) mod minute_ns = 0 \<or> (v + zn_offset z (v - 1) * 1000000000) mod minute_ns = 0"
    unfolding stops_def elapsed_def wall_def runs_out_def by blast
  then show ?thesis by (elim disjE) (erule sec)+
qed

lemma stops_on:
  assumes t: "stops z s t" and u: "t < u"
  shows "stops z s u \<longleftrightarrow> stops z (t + 1) u"
proof
  assume su: "stops z s u"
  have "\<not> (1000000000 :: int) dvd t + 1" using stop_seconds [OF t] dvd_add_right_iff [of 1000000000 t 1] by simp
  then have "u \<noteq> t + 1" using stop_seconds [OF su] by blast
  then show "stops z (t + 1) u" using su u by (auto simp: stops_def)
next
  assume "stops z (t + 1) u"
  then show "stops z s u" using t u by (auto simp: stops_def)
qed

text \<open>In a zone of whole minutes these are the beginnings of the minutes of UTC.\<close>

lemma whole_minute_stops:
  assumes "\<And>t. zn_offset z t mod 60 = 0"
  shows "stops z s v \<longleftrightarrow> s \<le> v \<and> v mod minute_ns = 0"
proof -
  have "(v + zn_offset z t * 1000000000) mod minute_ns = v mod minute_ns" for t
  proof -
    obtain k where "zn_offset z t = 60 * k" using assms [of t] by blast
    then have "v + zn_offset z t * 1000000000 = v + k * minute_ns" by (simp add: minute_ns_def)
    then show ?thesis by simp
  qed
  then show ?thesis by (auto simp: stops_def runs_out_def elapsed_def wall_def)
qed

text \<open>The instants after another at which the search stops and which the schedule names.\<close>

definition run_at :: "policy_cron \<Rightarrow> int \<Rightarrow> int \<Rightarrow> bool" where
  "run_at c after t \<longleftrightarrow> stops (pc_zone c) (after + 1) t \<and> cron_matches c t"

definition horizon_error :: go_error where
  "horizon_error = Domain_error (fail ''INVALID_INPUT'' ''requested occurrence preview exceeds the bounded eight-year horizon'')"

definition previewed :: "policy_cron \<Rightarrow> (nat \<Rightarrow> go_error option) \<Rightarrow> int \<Rightarrow> int \<Rightarrow> nat \<Rightarrow> go_error + int list \<Rightarrow> bool" where
  "previewed c polls after deadline count r = (case r of
     Inl e \<Rightarrow> (\<exists>i. polls i = Some e) \<or> e = horizon_error \<and> card {t. run_at c after t \<and> t \<le> deadline} < count
   | Inr ts \<Rightarrow> length ts = count \<and> sorted_wrt (<) ts \<and> last ts \<le> deadline \<and> set ts = {t. run_at c after t \<and> t \<le> last ts})"

lemma preview_loop_runs:
  assumes z: "zone_rules (pc_zone c)" and t: "stops (pc_zone c) (after + 1) t"
    and runs: "sorted_wrt (<) runs" "set runs = {u. run_at c after u \<and> u < t}" "length runs < count"
  shows "\<exists>r. preview_loop c polls deadline count k n runs t = Some r \<and> previewed c polls after deadline count r"
  using t runs
proof (induction "nat (deadline + 1 - t)" arbitrary: k n runs t rule: less_induct)
  case less
  note simps = preview_loop.simps [of c polls deadline count k n runs t]
  obtain v where v: "next_minute (pc_zone c) t = Some v" "stops (pc_zone c) (t + 1) v" "\<And>u. stops (pc_zone c) (t + 1) u \<Longrightarrow> v \<le> u"
    using next_minute_first [OF z, of t] unfolding first_stop_def by blast
  show ?case
  proof (cases "t > deadline")
    case True
    have "card {u. run_at c after u \<and> u \<le> deadline} \<le> card (set runs)"
    proof (rule card_mono)
      show "{u. run_at c after u \<and> u \<le> deadline} \<subseteq> set runs" unfolding less.prems(3) using True by auto
    qed simp
    then have "card {u. run_at c after u \<and> u \<le> deadline} < count" using card_length [of runs] less.prems(4) by linarith
    then show ?thesis using True simps by (simp add: previewed_def horizon_error_def)
  next
    case small: False
    show ?thesis
    proof (cases "k mod 1024 = 0 \<and> polls n \<noteq> None")
      case True
      then show ?thesis using small simps by (auto simp: previewed_def)
    next
      case False
      define n' where "n' = (if k mod 1024 = 0 then Suc n else n)"
      define runs' where "runs' = (if cron_matches c t then runs @ [t] else runs)"
      have hit: "run_at c after t = cron_matches c t" using less.prems(1) by (simp add: run_at_def)
      have "set runs' = {u. run_at c after u \<and> u < t} \<union> (if cron_matches c t then {t} else {})"
        unfolding runs'_def less.prems(3) [symmetric] by simp
      also have "\<dots> = {u. run_at c after u \<and> u \<le> t}" unfolding hit [symmetric] by (auto simp: order_le_less)
      finally have set: "set runs' = {u. run_at c after u \<and> u \<le> t}" .
      have "\<forall>u \<in> set runs. u < t" unfolding less.prems(3) by blast
      then have srt: "sorted_wrt (<) runs'" using less.prems(2) by (simp add: runs'_def sorted_wrt_append)
      have st: "preview_loop c polls deadline count k n runs t = (if cron_matches c t \<and> length runs' = count
          then Some (case polls n' of Some e \<Rightarrow> Inl e | None \<Rightarrow> Inr runs')
          else preview_loop c polls deadline count (Suc k) n' runs' v)"
        unfolding simps if_not_P [OF small] if_not_P [OF False] Let_def n'_def [symmetric] runs'_def [symmetric]
        by (simp add: v(1))
      show ?thesis
      proof (cases "cron_matches c t \<and> length runs' = count")
        case True
        then have "preview_loop c polls deadline count k n runs t = Some (case polls n' of Some e \<Rightarrow> Inl e | None \<Rightarrow> Inr runs')"
          using st by simp
        moreover have "length runs' = count" "last runs' = t" using True by (blast, simp add: runs'_def)
        ultimately show ?thesis using set srt small by (cases "polls n'") (auto simp: previewed_def)
      next
        case more: False
        have up: "t < v" using v(2) by (simp add: stops_def)
        have "u \<le> t \<longleftrightarrow> u < v" if "stops (pc_zone c) (after + 1) u" for u
          using stops_on [OF less.prems(1), of u] that v(3) [of u] up by (cases "u \<le> t") auto
        then have ext: "run_at c after u \<and> u \<le> t \<longleftrightarrow> run_at c after u \<and> u < v" for u
          unfolding run_at_def by auto
        have "\<exists>r. preview_loop c polls deadline count (Suc k) n' runs' v = Some r \<and> previewed c polls after deadline count r"
        proof (rule less.hyps [OF _ _ srt])
          show "nat (deadline + 1 - v) < nat (deadline + 1 - t)" using up small by linarith
          show "stops (pc_zone c) (after + 1) v" using stops_on [OF less.prems(1) up] v(2) by simp
          show "length runs' < count" using more less.prems(4) by (auto simp: runs'_def split: if_splits)
          show "set runs' = {u. run_at c after u \<and> u < v}" unfolding set ext ..
        qed
        then show ?thesis using st more by simp
      qed
    qed
  qed
qed

definition preview_bounds :: "int \<Rightarrow> int \<Rightarrow> bool" where
  "preview_bounds after count \<longleftrightarrow> 1 \<le> count \<and> count \<le> 32 \<and> after \<noteq> 0 \<and>
     1 \<le> fst (civil (after div day_ns)) \<and> fst (civil (after div day_ns)) \<le> 9991"

text \<open>
  C37. A preview of a policy whose zone keeps the rules above always returns. The instants of an accepted
  preview are, in order, the first ones after the given instant at which the zone's clock begins a
  minute, or the clock in force so far runs one out, and which the schedule names: as many as asked
  for and none past the horizon of eight years. It is refused only for a request out of bounds, a
  refused policy, a context that ended, or when fewer such instants exist up to the horizon.
\<close>

theorem preview_first_runs:
  assumes zone: "\<forall>r c. parse_policy env raw = Inr (r, c) \<longrightarrow> zone_rules (pc_zone c)"
  shows "\<exists>res. preview_policy env polls raw after count = Some res \<and> (case res of
      Inl e \<Rightarrow> (\<exists>i. polls i = Some e) \<or> parse_policy env raw = Inl e \<or> \<not> preview_bounds after count \<or>
        (\<exists>r c. parse_policy env raw = Inr (r, c) \<and> e = horizon_error \<and>
          card {t. run_at c after t \<and> t \<le> preview_deadline after} < nat count)
    | Inr rep \<Rightarrow> preview_bounds after count \<and> (\<exists>r c. parse_policy env raw = Inr (r, c) \<and>
        rep = r\<lparr>pr_runs := pr_runs rep, pr_after := Some after\<rparr> \<and>
        length (pr_runs rep) = nat count \<and> sorted_wrt (<) (pr_runs rep) \<and> last (pr_runs rep) \<le> preview_deadline after \<and>
        set (pr_runs rep) = {t. run_at c after t \<and> t \<le> last (pr_runs rep)}))"
proof (cases "polls 0 = None \<and> preview_bounds after count \<and> (\<exists>r c. parse_policy env raw = Inr (r, c))")
  case False
  have b: "(count < 1 \<or> count > 32 \<or> after = 0 \<or> fst (civil (after div day_ns)) < 1 \<or> fst (civil (after div day_ns)) > 9991) =
      (\<not> preview_bounds after count)" by (auto simp: preview_bounds_def)
  from False consider e where "polls 0 = Some e" | "polls 0 = None" "\<not> preview_bounds after count"
    | e where "polls 0 = None" "preview_bounds after count" "parse_policy env raw = Inl e"
    by (metis not_Some_eq prod.exhaust sum.exhaust)
  then show ?thesis unfolding preview_policy_def b by cases auto
next
  case True
  then obtain r c where p: "polls 0 = None" "preview_bounds after count" "parse_policy env raw = Inr (r, c)" by blast
  have z: "zone_rules (pc_zone c)" using zone p(3) by blast
  obtain t where nx: "next_minute (pc_zone c) after = Some t" and t: "stops (pc_zone c) (after + 1) t"
    and least: "\<And>u. stops (pc_zone c) (after + 1) u \<Longrightarrow> t \<le> u"
    using next_minute_first [OF z, of after] unfolding first_stop_def by blast
  have "\<not> (run_at c after u \<and> u < t)" for u using least [of u] by (auto simp: run_at_def)
  then have "set [] = {u. run_at c after u \<and> u < t}" by simp
  from preview_loop_runs [OF z t _ this, of "nat count" polls "preview_deadline after" 0 1] p(2)
  obtain res where res: "preview_loop c polls (preview_deadline after) (nat count) 0 1 [] t = Some res"
    "previewed c polls after (preview_deadline after) (nat count) res" by (auto simp: preview_bounds_def)
  have "preview_policy env polls raw after count = Some (bindr res (\<lambda>runs. Inr (r\<lparr>pr_runs := runs, pr_after := Some after\<rparr>)))"
    using p res(1) by (auto simp: preview_policy_def preview_bounds_def nx)
  then show ?thesis using p(2,3) res(2) by (cases res) (auto simp: previewed_def)
qed

text \<open>
  Monrovia, whose clock was 43 minutes 8 seconds behind UTC, from March 1919 44 minutes 30 seconds, and
  keeps UTC since 7 January 1972. The last change fell on the end of a minute of the old clock and
  inside one of the new: the search stops there, although no minute begins.
\<close>

definition monrovia_1919 :: int where
  "monrovia_1919 = 700593 * day_ns + 2588000000000"

definition monrovia_1972 :: int where
  "monrovia_1972 = 719898 * day_ns + 2670000000000"

definition monrovia :: zone where
  "monrovia = \<lparr>zn_offset = (\<lambda>t. if t < monrovia_1919 then - 2588 else if t < monrovia_1972 then - 2670 else 0),
     zn_end = (\<lambda>t. if t < monrovia_1919 then monrovia_1919 else if t < monrovia_1972 then monrovia_1972 else 0)\<rparr>"

lemma monrovia_rules: "zone_rules monrovia"
  by (auto simp: zone_rules_def monrovia_def monrovia_1919_def monrovia_1972_def day_ns_def minute_ns_def)

lemma minute_may_start_late:
  "next_minute monrovia (monrovia_1972 - 2) = Some monrovia_1972 \<and> elapsed monrovia monrovia_1972 = 30000000000"
  by (simp add: next_minute_def minute_from.simps elapsed_def wall_def monrovia_def monrovia_1919_def monrovia_1972_def day_ns_def minute_ns_def)

section \<open>Every minute in Monrovia\<close>

definition each_minute :: policy_schedule where
  "each_minute = \<lparr>sc_cron = ''* * * * *'', sc_zone = ''Africa/Monrovia'', sc_missed = ''skip''\<rparr>"

definition demo_policy :: policy_declaration where
  "demo_policy = \<lparr>pd_name = ''nightly'', pd_repository = ''vault'', pd_selector = \<lparr>sl_vms = [''web''], sl_tags = []\<rparr>,
     pd_schedule = each_minute, pd_capture = \<lparr>ca_mode = ''cold'', ca_consistency = ''cold-complete'', ca_shutdown = False, ca_unavailable = ''fail''\<rparr>,
     pd_retention = \<lparr>rt_daily = 7, rt_weekly = 4, rt_monthly = 12, rt_pins = True\<rparr>,
     pd_verification = \<lparr>ve_capture = True, ve_restore = ''never''\<rparr>\<rparr>"

definition demo_policies :: "unit policy_env" where
  "demo_policies = \<lparr>po_document = (\<lambda>_. Inr ()), po_kind = (\<lambda>_. Some ''BackupPolicy''), po_decode = (\<lambda>_. Some demo_policy),
     po_zone = (\<lambda>n. if n = ''Africa/Monrovia'' then Some monrovia else None)\<rparr>"

definition each_value :: "64 word \<Rightarrow> policy_field" where
  "each_value bits = \<lparr>pf_bits = bits, pf_star = True\<rparr>"

definition each_cron :: policy_cron where
  "each_cron = \<lparr>pc_minute = each_value 1152921504606846975, pc_hour = each_value 16777215, pc_day = each_value 4294967294,
     pc_month = each_value 8190, pc_weekday = each_value 127, pc_zone = monrovia\<rparr>"

lemmas ascii_simps = printable_def is_control_def is_format_def format_ranges_def

lemmas field_parsers = parse_field_def add_term_def parse_term_def parse_step_def parse_range_def parse_number_def is_digit_def
  parse_dec_def digit_val_def mark.simps each_value_def Let_def

lemma each_fields:
  "text_fields ''* * * * *'' = [''*'', ''*'', ''*'', ''*'', ''*'']"
  "parse_field 0 59 [] ''*'' = Inr (each_value 1152921504606846975)" "parse_field 0 23 [] ''*'' = Inr (each_value 16777215)"
  "parse_field 1 31 [] ''*'' = Inr (each_value 4294967294)"
  "parse_field 1 12 month_names ''*'' = Inr (each_value 8190)"
  "parse_field 0 6 weekday_names ''*'' = Inr (each_value 127)"
  by (simp_all add: text_fields_def text_fields_from.simps space_width_def field_parsers)

lemma each_parsed: "parse_cron demo_policies each_minute = Inr each_cron"
proof -
  have "zone_name ''Africa/Monrovia''"
    by (simp add: zone_name_def trimmed_def space_width_def path_absolute_def path_clean_def clean_step_def Let_def)
  moreover have "all_runes printable ''Africa/Monrovia''" by (rule all_runes_ascii) (simp add: ascii_simps)
  moreover have "cron_text ''* * * * *''" by (simp add: cron_text_def char_in_def)
  ultimately show ?thesis
    by (simp add: parse_cron_def each_minute_def demo_policies_def each_fields each_fields(2-5) [unfolded One_nat_def] cron_field_def each_cron_def)
qed

lemma each_possible: "calendar_possible each_cron"
proof -
  have "field_has (pc_month each_cron) 1" "day_matches each_cron 1 (weekday (go_date (int 2000) (int 1) (int 1)))"
    by code_simp+
  moreover have "1 \<in> {1..<Suc (month_days (int 2000) 1)}" by code_simp
  moreover have "(1 :: nat) \<in> {1..<13}" "(2000 :: nat) \<in> {2000..<2400}" by simp_all
  ultimately show ?thesis unfolding calendar_possible_def list_ex_iff set_upt by blast
qed

lemma demo_policy_parsed: "\<exists>r. parse_policy demo_policies raw = Inr (r, each_cron)"
proof -
  have "trimmed ''web''" by (simp add: trimmed_def space_width_def)
  moreover have "all_runes printable ''web''" by (rule all_runes_ascii) (simp add: ascii_simps)
  ultimately have "validate_selection (pd_selector demo_policy) = Inr [''web'']"
    by (simp add: validate_selection_def demo_policy_def check_item_def)
  moreover have "parse_cron demo_policies (pd_schedule demo_policy) = Inr each_cron"
    using each_parsed by (simp add: demo_policy_def)
  ultimately show ?thesis using each_possible
    by (simp add: parse_policy_def demo_policies_def) (simp add: demo_policy_def)
qed

text \<open>The first of January 1970, previewed from a second after midnight UTC: half a minute in, and again a minute later.\<close>

definition epoch :: "int \<Rightarrow> int" where
  "epoch d = 719162 * day_ns + d"

abbreviation second_one :: int where
  "second_one \<equiv> epoch 1000000000"

lemma epoch_date: "civil 719162 = (1970, 1, 1)" "0 \<le> d \<Longrightarrow> d < day_ns \<Longrightarrow> epoch d div day_ns = 719162"
proof -
  have "day_number 1970 1 1 = 719162" "valid_date 1970 1 1" by (simp_all add: day_number_def year_start_def valid_date_def month_len_def)
  then show "civil 719162 = (1970, 1, 1)" using civil_day_number by metis
  show "0 \<le> d \<Longrightarrow> d < day_ns \<Longrightarrow> epoch d div day_ns = 719162" by (simp add: epoch_def day_ns_def minute_ns_def)
qed

lemma epoch_wall: "0 < d \<Longrightarrow> d \<le> 90000000000 \<Longrightarrow> zn_offset monrovia (epoch d) = - 2670 \<and> zn_offset monrovia (epoch d - 1) = - 2670"
  by (simp add: monrovia_def epoch_def monrovia_1919_def monrovia_1972_def day_ns_def minute_ns_def)

lemma epoch_stops:
  assumes "1000000000 < d" and "d \<le> 90000000000"
  shows "stops monrovia (second_one + 1) (epoch d) \<longleftrightarrow> d = 30000000000 \<or> d = 90000000000"
proof -
  have "epoch d + - 2670 * 1000000000 = (d - 30000000000) + minute_ns * (719162 * 1440 - 44)" by (simp add: epoch_def day_ns_def minute_ns_def)
  then have m: "(epoch d + - 2670 * 1000000000) mod minute_ns = (d - 30000000000) mod minute_ns" by (metis mod_mult_self2)
  have "stops monrovia (second_one + 1) (epoch d) \<longleftrightarrow> (d - 30000000000) mod minute_ns = 0"
    using assms epoch_wall [of d] unfolding stops_def elapsed_def wall_def runs_out_def
    by (simp only: m) (auto simp: epoch_def)
  also have "\<dots> \<longleftrightarrow> d = 30000000000 \<or> d = 90000000000"
  proof
    assume z: "(d - 30000000000) mod minute_ns = 0"
    then obtain k where k: "d - 30000000000 = minute_ns * k" by (auto simp: mod_eq_0_iff_dvd dvd_def)
    then have "- 1 < k" "k < 2" using assms by (auto simp: minute_ns_def)
    then have "k = 0 \<or> k = 1" by arith
    then show "d = 30000000000 \<or> d = 90000000000" using k by (auto simp: minute_ns_def)
  qed (auto simp: minute_ns_def)
  finally show ?thesis .
qed

text \<open>On the wall it is 16 and 17 minutes past 23 o'clock on the last day of 1969.\<close>

lemma year_end: "civil 719161 = (1969, 12, 31)"
proof -
  have "month_start 1969 12 = 334" by (simp add: eval_nat_numeral month_len_def leap_def)
  then have "day_number 1969 12 31 = 719161" "valid_date 1969 12 31"
    by (simp_all add: day_number_def year_start_def valid_date_def month_len_def)
  then show ?thesis using civil_day_number by metis
qed

lemma each_fields_hold:
  "field_has (pc_month each_cron) 12" "field_has (pc_hour each_cron) 23" "field_has (pc_minute each_cron) 16"
  "field_has (pc_minute each_cron) 17" "day_matches each_cron 31 (weekday 719161)"
  by code_simp+

lemma matches_last_evening:
  assumes "wall monrovia t = minute_ns * (1035593220 + int m)" and "m < 60" and "field_has (pc_minute each_cron) m"
  shows "cron_matches each_cron t"
proof -
  let ?w = "wall monrovia t" and ?k = "1035593220 + int m"
  have zone: "pc_zone each_cron = monrovia" by (simp add: each_cron_def)
  have p: "minute_ns \<noteq> 0" by (simp add: minute_ns_def)
  have "?w div minute_ns = ?k" using p by (simp add: assms(1))
  moreover have "?w div (minute_ns * 60) = ?k div 60" "?w div (minute_ns * 1440) = ?k div 1440"
    unfolding assms(1) by (rule div_mult_mult1 [OF p])+
  ultimately have d: "?w div minute_ns = ?k" "?w div (60 * minute_ns) = ?k div 60" "?w div day_ns = ?k div 1440"
    by (simp_all add: day_ns_def mult.commute)
  have k: "?k = 60 * 17259887 + int m" "?k = 1440 * 719161 + (1380 + int m)" by simp_all
  have "?k mod 60 = int m mod 60" unfolding k(1) by (rule mod_mult_self4)
  then have "?k mod 60 = int m" "?k div 60 = 17259887" using assms(2) by simp_all
  moreover have "?k div 1440 = 719161" using assms(2) unfolding k(2) by simp
  ultimately have "?w div day_ns = 719161" "nat (?w div (60 * minute_ns) mod 24) = 23" "nat (?w div minute_ns mod 60) = m"
    unfolding d by simp_all
  then show ?thesis using assms(3) each_fields_hold year_end by (simp add: cron_matches_def zone)
qed

lemma epoch_runs: "run_at each_cron second_one (epoch 30000000000)" "run_at each_cron second_one (epoch 90000000000)"
proof -
  have zone: "pc_zone each_cron = monrovia" by (simp add: each_cron_def)
  have "wall monrovia (epoch 30000000000) = minute_ns * (1035593220 + int 16)"
    "wall monrovia (epoch 90000000000) = minute_ns * (1035593220 + int 17)"
    by (simp_all add: wall_def epoch_wall) (simp_all add: epoch_def day_ns_def minute_ns_def)
  from this [THEN matches_last_evening] show "run_at each_cron second_one (epoch 30000000000)" "run_at each_cron second_one (epoch 90000000000)"
    using each_fields_hold(3,4) epoch_stops by (simp_all add: run_at_def zone)
qed

lemma preview_bounds_demo: "preview_bounds second_one 2"
proof -
  have "second_one div day_ns = 719162" by (rule epoch_date(2)) (simp_all add: day_ns_def minute_ns_def)
  moreover have "second_one \<noteq> 0" by (simp add: epoch_def day_ns_def minute_ns_def)
  ultimately show ?thesis by (simp add: preview_bounds_def epoch_date)
qed

lemma epoch_deadline: "epoch 90000000000 \<le> preview_deadline second_one"
proof -
  have "go_date 1978 1 1 = 722084" by (simp add: go_date_def day_number_def year_start_def)
  moreover have "second_one div day_ns = 719162" by (rule epoch_date(2)) (simp_all add: day_ns_def minute_ns_def)
  ultimately show ?thesis
    by (simp add: preview_deadline_def epoch_date) (simp add: epoch_def day_ns_def minute_ns_def)
qed

lemma only_two_runs:
  assumes "set ts = {t. run_at each_cron second_one t \<and> t \<le> last ts}" and "length ts = 2" and "sorted_wrt (<) ts"
  shows "ts = [epoch 30000000000, epoch 90000000000]"
proof -
  obtain x y where ts: "ts = [x, y]" "x < y" using assms(2,3) by (cases ts; cases "tl ts") auto
  have runs: "run_at each_cron second_one t \<and> t \<le> y \<longleftrightarrow> t = x \<or> t = y" for t using assms(1) ts(1) by auto
  have early: "t = epoch 30000000000" if "run_at each_cron second_one t" "t < epoch 90000000000" for t
  proof -
    define d where "d = t - epoch 0"
    have t: "t = epoch d" by (simp add: d_def epoch_def)
    have s: "stops monrovia (second_one + 1) (epoch d)" using that(1) unfolding t run_at_def by (simp add: each_cron_def)
    then have "1000000000 < d" "d < 90000000000" using that(2) unfolding t by (simp_all add: stops_def epoch_def)
    then show ?thesis using epoch_stops [of d] s t by simp
  qed
  have late: "epoch 90000000000 \<le> y"
  proof (rule ccontr)
    assume "\<not> epoch 90000000000 \<le> y"
    then show False using early [of x] early [of y] runs [of x] runs [of y] ts(2) by auto
  qed
  have less: "epoch 30000000000 < epoch 90000000000" by (simp add: epoch_def)
  have "epoch 30000000000 = x \<or> epoch 30000000000 = y" "epoch 90000000000 = x \<or> epoch 90000000000 = y"
    using runs [of "epoch 30000000000"] runs [of "epoch 90000000000"] epoch_runs late less by auto
  then show ?thesis using ts late less by auto
qed

theorem preview_first_runs_witness:
  "\<exists>rep. preview_policy demo_policies (\<lambda>_. None) [] second_one 2 = Some (Inr rep) \<and>
     pr_runs rep = [epoch 30000000000, epoch 90000000000]"
proof -
  obtain r where r: "parse_policy demo_policies [] = Inr (r, each_cron)" using demo_policy_parsed by blast
  have zone: "\<forall>q c. parse_policy demo_policies [] = Inr (q, c) \<longrightarrow> zone_rules (pc_zone c)"
    using r monrovia_rules by (auto simp: each_cron_def)
  note spec = preview_first_runs [OF zone, of "\<lambda>_. None" second_one 2]
  then obtain res where res: "preview_policy demo_policies (\<lambda>_. None) [] second_one 2 = Some res" by blast
  have spec: "case res of Inl e \<Rightarrow> card {t. run_at each_cron second_one t \<and> t \<le> preview_deadline second_one} < 2
      | Inr rep \<Rightarrow> length (pr_runs rep) = 2 \<and> sorted_wrt (<) (pr_runs rep) \<and>
          set (pr_runs rep) = {t. run_at each_cron second_one t \<and> t \<le> last (pr_runs rep)}"
    using spec unfolding res by (cases res) (use r preview_bounds_demo in simp_all)
  have "card {epoch 30000000000, epoch 90000000000} \<le> card {t. run_at each_cron second_one t \<and> t \<le> preview_deadline second_one}"
  proof (rule card_mono)
    show "finite {t. run_at each_cron second_one t \<and> t \<le> preview_deadline second_one}"
      by (rule finite_subset [of _ "{second_one .. preview_deadline second_one}"]) (auto simp: run_at_def stops_def)
    show "{epoch 30000000000, epoch 90000000000} \<subseteq> {t. run_at each_cron second_one t \<and> t \<le> preview_deadline second_one}"
      using epoch_runs epoch_deadline by (auto simp: epoch_def)
  qed
  then have "\<not> card {t. run_at each_cron second_one t \<and> t \<le> preview_deadline second_one} < 2" by (simp add: epoch_def)
  then show ?thesis using res spec only_two_runs by (cases res) auto
qed

end
