(* ===== verification/Recovery.thy ===== *)
theory Recovery
  imports Unicode_Text Domain Calendar
begin

text \<open>
  Recovery manifests of stopped machines (\<^verbatim>\<open>app/protection/capture_manifest.go\<close> and
  \<^verbatim>\<open>capture_manifest_validation.go\<close>): the declaration of a captured set of files, the layout of
  the source it claims to cover, and the validation of both. A Go slice that may be nil is an
  optional list. \<^verbatim>\<open>strings.ToLower\<close> of a path, which needs the Unicode tables, is the parameter
  \<open>fold_case\<close>; strict JSON decoding and the schema are not modelled.
\<close>

section \<open>The source\<close>

record storage_source =
  ss_type :: string
  ss_format :: string
  ss_file :: string
  ss_pool :: string
  ss_volume :: string

record disk_source =
  ds_target :: string
  ds_device :: string
  ds_read_only :: bool
  ds_empty :: bool
  ds_bus :: string
  ds_source :: storage_source
  ds_backing :: "storage_source list option"

record dependency =
  de_kind :: string
  de_target :: string

record nvram =
  nv_path :: string
  nv_format :: string
  nv_template :: string
  nv_template_format :: string

record tpm =
  tp_model :: string
  tp_version :: string
  tp_source_type :: string
  tp_source_path :: string
  tp_persistent :: string
  tp_profile :: string
  tp_profile_source :: string
  tp_remove :: string
  tp_secret :: string

record firmware =
  fi_loader :: string
  fi_loader_type :: string
  fi_read_only :: string
  fi_secure :: string
  fi_loader_format :: string
  fi_stateless :: string
  fi_nvram :: "nvram option"

record state_layout =
  sy_vm :: string
  sy_firmware :: firmware
  sy_tpm :: "tpm option"
  sy_secrets :: "string list option"

record source_layout =
  so_state :: state_layout
  so_architecture :: string
  so_machine :: string
  so_disks :: "disk_source list option"
  so_external :: "dependency list option"

section \<open>The manifest\<close>

record capture_member =
  cm_id :: string
  cm_kind :: string
  cm_path :: string
  cm_sha :: string
  cm_size :: "64 word"

record captured_disk =
  cd_target :: string
  cd_member :: string
  cd_format :: string
  cd_independent :: bool

record captured_tpm =
  ct_name :: string
  ct_member :: string

record captured_secret =
  cs_uuid :: string
  cs_member :: string
  cs_external :: bool

text \<open>An instant in nanoseconds since 1 January of year 1 in UTC, and the offset it is shown in.\<close>

record capture_time =
  cy_instant :: int
  cy_offset :: int

record capture_manifest =
  ma_inventory :: string
  ma_api :: string
  ma_kind :: string
  ma_version :: int
  ma_id :: string
  ma_operation :: string
  ma_source_vm :: resource_key
  ma_started :: capture_time
  ma_finished :: capture_time
  ma_fingerprint :: string
  ma_source :: source_layout
  ma_before :: string
  ma_after :: string
  ma_saved :: bool
  ma_versions :: "(string \<times> string) list"
  ma_members :: "capture_member list option"
  ma_disks :: "captured_disk list option"
  ma_persistent :: string
  ma_effective :: string
  ma_firmware :: string
  ma_nvram :: string
  ma_tpm :: "captured_tpm list option"
  ma_secrets :: "captured_secret list option"
  ma_independent :: bool

abbreviation items :: "'a list option \<Rightarrow> 'a list" where
  "items x \<equiv> (case x of None \<Rightarrow> [] | Some l \<Rightarrow> l)"

abbreviation capture_invalid :: "string \<Rightarrow> go_error + 'a" where
  "capture_invalid m \<equiv> failr ''INVALID_INPUT'' m"

abbreviation incomplete :: "string \<Rightarrow> go_error + 'a" where
  "incomplete m \<equiv> failr ''INCOMPLETE_BACKUP'' m"

section \<open>Scalars\<close>

definition hex_char :: "char \<Rightarrow> bool" where
  "hex_char c \<longleftrightarrow> c \<in> set ''0123456789abcdefABCDEF''"

definition capture_uuid :: "string \<Rightarrow> bool" where
  "capture_uuid s \<longleftrightarrow> length s = 36 \<and> s ! 8 = CHR ''-'' \<and> s ! 13 = CHR ''-'' \<and> s ! 18 = CHR ''-'' \<and> s ! 23 = CHR ''-'' \<and>
     map lower s = s \<and> s \<noteq> ''00000000-0000-0000-0000-000000000000'' \<and>
     list_all hex_char (take 8 s @ take 4 (drop 9 s) @ take 4 (drop 14 s) @ take 4 (drop 19 s) @ drop 24 s)"

definition capture_digest :: "string \<Rightarrow> bool" where
  "capture_digest s \<longleftrightarrow> length s = 64 \<and> map lower s = s \<and> list_all hex_char s"

definition capture_time_ok :: "capture_time \<Rightarrow> bool" where
  "capture_time_ok t \<longleftrightarrow> (let y = fst (civil ((cy_instant t + cy_offset t * 1000000000) div day_ns)) in
     cy_instant t \<noteq> 0 \<and> 1 \<le> y \<and> y \<le> 9999 \<and> cy_offset t = 0)"

definition capture_scalar :: "nat \<Rightarrow> string \<Rightarrow> bool" where
  "capture_scalar limit s \<longleftrightarrow> s \<noteq> [] \<and> length s \<le> limit \<and> trimmed s \<and> runes_ok printable s"

abbreviation manifest_text :: "string \<Rightarrow> bool" where
  "manifest_text s \<equiv> capture_scalar 256 s"

definition capture_identifier :: "nat \<Rightarrow> string \<Rightarrow> bool" where
  "capture_identifier limit s \<longleftrightarrow> capture_scalar limit s \<and> list_all (\<lambda>c. alnum c \<or> c \<in> set ''_.:-'') s"

definition capture_profile :: "string \<Rightarrow> bool" where
  "capture_profile s \<longleftrightarrow> s = [] \<or> capture_identifier 256 s \<and> CHR ''_'' \<notin> set s"

definition capture_absolute :: "string \<Rightarrow> bool" where
  "capture_absolute s \<longleftrightarrow> capture_scalar 4096 s \<and> s \<noteq> ''/'' \<and> path_absolute s \<and> path_clean s = s"

definition trim_slash :: "string \<Rightarrow> string" where
  "trim_slash s = (if s \<noteq> [] \<and> last s = CHR ''/'' then butlast s else s)"

definition safe_path :: "string \<Rightarrow> bool" where
  "safe_path s \<longleftrightarrow> s \<noteq> [] \<and> length s \<le> 1024 \<and> CHR 92 \<notin> set s \<and> CHR '':'' \<notin> set s \<and> CHR 0x00 \<notin> set s \<and> \<not> path_absolute s \<and>
     runes_ok printable s \<and> path_clean s = trim_slash s \<and> path_clean s \<notin> {''.'', ''..''} \<and> \<not> has_prefix ''../'' (path_clean s) \<and>
     count_list (path_clean s) CHR ''/'' < 32"

definition capture_relative :: "string \<Rightarrow> bool" where
  "capture_relative s \<longleftrightarrow> safe_path s \<and> last s \<noteq> CHR ''/'' \<and> trimmed s"

definition dependency_target :: "string \<Rightarrow> bool" where
  "dependency_target s \<longleftrightarrow> capture_scalar 1024 s \<and> \<not> path_absolute s \<and> path_clean s = s \<and> s \<noteq> ''.'' \<and> s \<noteq> ''..'' \<and>
     \<not> has_prefix ''../'' s \<and> list_all (\<lambda>c. alnum c \<or> c \<in> set ''_.:-/[]'') s"

text \<open>\<^verbatim>\<open>captureDiskTarget\<close>: a disk name of a known family, or an NVMe name with its numbers.\<close>

definition disk_target :: "string \<Rightarrow> bool" where
  "disk_target s \<longleftrightarrow>
     list_ex (\<lambda>f. case cut_prefix f (trim_prefix ''ioemu:'' s) of
         None \<Rightarrow> False | Some r \<Rightarrow> r \<noteq> [] \<and> list_all (\<lambda>c. alnum c \<or> c = CHR ''_'') r)
       [''fd'', ''hd'', ''sd'', ''vd'', ''xvd'', ''ubd''] \<or>
     (case cut_prefix ''nvme'' s of
        None \<Rightarrow> False
      | Some r \<Rightarrow> (case split_on CHR ''n'' r of
          [a, b] \<Rightarrow> list_all (\<lambda>d. d \<noteq> [] \<and> list_all is_digit d) (a # split_on CHR ''p'' b) \<and> length (split_on CHR ''p'' b) \<le> 2
        | _ \<Rightarrow> False))"

text \<open>\<^verbatim>\<open>captureAddPath\<close>: no path twice, and none inside another.\<close>

definition add_path :: "(string \<Rightarrow> string) \<Rightarrow> string list \<Rightarrow> string \<Rightarrow> string list option" where
  "add_path fold_case paths name = (let key = fold_case name in
     if key \<in> set paths \<or> list_ex (\<lambda>p. has_prefix (p @ ''/'') key \<or> has_prefix (key @ ''/'') p) paths
     then None else Some (key # paths))"

section \<open>Validation of the source\<close>

definition storage_kinds :: "string list" where
  "storage_kinds = [''block'', ''network'', ''dir'', ''nvme'', ''vhostuser'', ''vhostvdpa'', ''ctl'']"

definition opaque_kind :: "string \<Rightarrow> string" where
  "opaque_kind t = (if t \<in> set storage_kinds then ''storage-'' @ t else ''storage-unsupported'')"

definition validate_storage :: "storage_source \<Rightarrow> bool \<Rightarrow> string \<Rightarrow> dependency list \<Rightarrow> go_error + unit" where
  "validate_storage s vacant location external =
     (if \<not> capture_identifier 64 (ss_type s) \<or> ss_format s \<noteq> [] \<and> \<not> capture_identifier 64 (ss_format s)
      then capture_invalid ''invalid source storage type or format''
      else if vacant then
        (if ss_file s \<noteq> [] \<or> ss_pool s \<noteq> [] \<or> ss_volume s \<noteq> []
         then capture_invalid ''empty removable source contains storage identity'' else Inr ())
      else if ss_type s = ''file'' then
        (if \<not> capture_absolute (ss_file s) \<or> ss_pool s \<noteq> [] \<or> ss_volume s \<noteq> []
         then capture_invalid ''file source requires one canonical absolute identity'' else Inr ())
      else if ss_type s = ''volume'' then
        (if ss_file s \<noteq> [] \<or> \<not> capture_identifier 256 (ss_pool s) \<or> \<not> capture_identifier 256 (ss_volume s) \<or>
            ss_pool s \<in> {''.'', ''..''} \<or> ss_volume s \<in> {''.'', ''..''}
         then capture_invalid ''volume source requires one pool and volume identity'' else Inr ())
      else if ss_file s \<noteq> [] \<or> ss_pool s \<noteq> [] \<or> ss_volume s \<noteq> [] \<or>
          \<lparr>de_kind = opaque_kind (ss_type s), de_target = location\<rparr> \<notin> set external
        then capture_invalid ''opaque storage requires its exact unresolved external dependency'' else Inr ())"

definition add_dependency :: "dependency \<Rightarrow> dependency list \<Rightarrow> go_error + dependency list" where
  "add_dependency d seen =
     (if \<not> capture_identifier 64 (de_kind d) \<or> \<not> dependency_target (de_target d) \<or> d \<in> set seen
      then capture_invalid ''invalid or duplicate external dependency'' else Inr (d # seen))"

text \<open>The chain of a disk: each source at its location, no identity twice; \<open>i\<close> is the place in the chain.\<close>

definition chain_location :: "string \<Rightarrow> nat \<Rightarrow> string" where
  "chain_location target i = (if i = 0 then target else target @ ''/backing['' @ show_nat i @ '']'')"

definition identified_source :: "storage_source \<Rightarrow> bool" where
  "identified_source s \<longleftrightarrow> ss_file s \<noteq> [] \<or> ss_pool s \<noteq> []"

fun check_chain :: "disk_source \<Rightarrow> dependency list \<Rightarrow> nat \<Rightarrow> storage_source list \<Rightarrow> storage_source list \<Rightarrow> go_error + unit" where
  "check_chain d external i [] seen = Inr ()"
| "check_chain d external i (s # ss) seen =
     bindr (validate_storage s (ds_empty d \<and> i = 0) (chain_location (ds_target d) i) external) (\<lambda>_.
       let s' = s\<lparr>ss_format := []\<rparr> in
       if identified_source s' then
         (if s' \<in> set seen then capture_invalid ''repeated source identity in backing chain''
          else check_chain d external (Suc i) ss (s' # seen))
       else check_chain d external (Suc i) ss seen)"

definition disk_shape :: "disk_source \<Rightarrow> string list \<Rightarrow> bool" where
  "disk_shape d targets \<longleftrightarrow> length (ds_target d) \<le> 128 \<and> disk_target (ds_target d) \<and>
     trim_prefix ''ioemu:'' (ds_target d) \<notin> set targets \<and> ds_device d \<in> {''disk'', ''lun'', ''cdrom'', ''floppy''} \<and>
     ds_bus d \<in> {'''', ''ide'', ''fdc'', ''scsi'', ''virtio'', ''xen'', ''usb'', ''uml'', ''sata'', ''sd'', ''nvme''} \<and>
     length (items (ds_backing d)) \<le> 16"

definition disk_contradiction :: "disk_source \<Rightarrow> bool" where
  "disk_contradiction d \<longleftrightarrow>
     ds_empty d \<and> (ds_device d \<noteq> ''cdrom'' \<and> ds_device d \<noteq> ''floppy'' \<or> items (ds_backing d) \<noteq> []) \<or>
     ds_device d = ''cdrom'' \<and> \<not> ds_read_only d \<or>
     ds_device d = ''lun'' \<and> ss_type (ds_source d) \<notin> {''block'', ''network'', ''volume''}"

definition check_disk :: "dependency list \<Rightarrow> disk_source \<Rightarrow> string list \<times> nat \<Rightarrow> go_error + string list \<times> nat" where
  "check_disk external d st = (case st of (targets, entries) \<Rightarrow>
     if ds_backing d = None then capture_invalid ''source backing inventory must be an explicit array''
     else if \<not> disk_shape d targets then capture_invalid ''invalid or duplicate source disk target, device or bus''
     else let entries' = entries + 1 + length (items (ds_backing d)) in
       if entries' > 1024 \<or> disk_contradiction d then capture_invalid ''contradictory source disk or backing inventory''
       else bindr (check_chain d external 0 (ds_source d # items (ds_backing d)) []) (\<lambda>_.
         Inr (trim_prefix ''ioemu:'' (ds_target d) # targets, entries')))"

definition optional_in :: "string list \<Rightarrow> string \<Rightarrow> bool" where
  "optional_in vs s \<longleftrightarrow> s = [] \<or> s \<in> set vs"

definition loader_ok :: "firmware \<Rightarrow> bool" where
  "loader_ok f \<longleftrightarrow>
     (fi_loader f = [] \<longrightarrow> fi_loader_type f = [] \<and> fi_loader_format f = [] \<and> fi_read_only f = [] \<and> fi_secure f = [] \<and>
       fi_stateless f = []) \<and>
     (fi_loader f \<noteq> [] \<longrightarrow> capture_absolute (fi_loader f)) \<and> optional_in [''rom'', ''pflash''] (fi_loader_type f) \<and>
     optional_in [''raw'', ''qcow2''] (fi_loader_format f) \<and> optional_in [''yes'', ''no''] (fi_read_only f) \<and>
     optional_in [''yes'', ''no''] (fi_secure f) \<and> optional_in [''yes'', ''no''] (fi_stateless f)"

definition nvram_ok :: "firmware \<Rightarrow> nvram \<Rightarrow> bool" where
  "nvram_ok f n \<longleftrightarrow> fi_stateless f \<noteq> ''yes'' \<and> (nv_path n \<noteq> [] \<longrightarrow> capture_absolute (nv_path n)) \<and>
     (nv_template n \<noteq> [] \<longrightarrow> capture_absolute (nv_template n)) \<and> optional_in [''raw'', ''qcow2''] (nv_format n) \<and>
     optional_in [''raw'', ''qcow2''] (nv_template_format n) \<and> (nv_template n = [] \<longrightarrow> nv_template_format n = [])"

definition tpm_ok :: "tpm \<Rightarrow> bool" where
  "tpm_ok t \<longleftrightarrow> optional_in [''tpm-tis'', ''tpm-crb'', ''tpm-spapr''] (tp_model t) \<and> optional_in [''1.2'', ''2.0''] (tp_version t) \<and>
     optional_in [''yes'', ''no''] (tp_persistent t) \<and> \<not> (tp_model t = ''tpm-crb'' \<and> tp_version t = ''1.2'') \<and>
     optional_in [''file'', ''dir''] (tp_source_type t) \<and> (tp_source_type t = []) = (tp_source_path t = []) \<and>
     (tp_source_path t \<noteq> [] \<longrightarrow> capture_absolute (tp_source_path t)) \<and> capture_profile (tp_profile t) \<and>
     capture_profile (tp_profile_source t) \<and> optional_in [''check'', ''fips-host''] (tp_remove t) \<and>
     \<not> (tp_version t = ''1.2'' \<and> (tp_profile t \<noteq> [] \<or> tp_profile_source t \<noteq> [] \<or> tp_remove t \<noteq> [])) \<and>
     (tp_secret t \<noteq> [] \<longrightarrow> capture_uuid (tp_secret t))"

definition add_secret :: "string \<Rightarrow> string list \<Rightarrow> go_error + string list" where
  "add_secret i seen = (if \<not> capture_uuid i \<or> i \<in> set seen then capture_invalid ''invalid or duplicate source secret UUID''
     else Inr (i # seen))"

definition validate_source :: "source_layout \<Rightarrow> go_error + unit" where
  "validate_source s = (let disks = items (so_disks s); external = items (so_external s); state = so_state s in
     if so_disks s = None \<or> so_external s = None \<or> sy_secrets state = None
     then capture_invalid ''source collections must be explicit arrays, including empty arrays''
     else if \<not> capture_identifier 256 (so_architecture s) \<or> \<not> capture_identifier 256 (so_machine s) \<or> length disks > 256 \<or>
         length external > 1024 \<or> length (items (sy_secrets state)) > 256
     then capture_invalid ''invalid or excessive source inventory''
     else bindr (foldr_res add_dependency external []) (\<lambda>_.
       bindr (foldr_res (check_disk external) disks ([], 0)) (\<lambda>_.
       if \<not> loader_ok (sy_firmware state) then capture_invalid ''invalid or unresolved source loader identity''
       else if (case fi_nvram (sy_firmware state) of None \<Rightarrow> False | Some n \<Rightarrow> \<not> nvram_ok (sy_firmware state) n)
       then capture_invalid ''invalid source NVRAM declaration''
       else if (case sy_tpm state of None \<Rightarrow> False | Some t \<Rightarrow> \<not> tpm_ok t) then capture_invalid ''invalid source TPM declaration''
       else bindr (foldr_res add_secret (items (sy_secrets state)) []) (\<lambda>_. Inr ()))))"

section \<open>Members\<close>

definition member_kinds :: "string list" where
  "member_kinds = [''disk'', ''media'', ''persistent-xml'', ''effective-xml'', ''firmware-code'', ''nvram'', ''tpm'', ''secret'',
     ''auxiliary-inventory'']"

definition member_limit :: "64 word" where
  "member_limit = push_bit 40 16"

definition total_limit :: "64 word" where
  "total_limit = push_bit 40 64"

record member_state =
  ms_members :: "(string \<times> capture_member) list"
  ms_paths :: "string list"
  ms_total :: "64 word"

definition member_shape :: "capture_member \<Rightarrow> member_state \<Rightarrow> bool" where
  "member_shape m st \<longleftrightarrow> manifest_text (cm_id m) \<and> map_of (ms_members st) (cm_id m) = None \<and> capture_relative (cm_path m) \<and>
     capture_digest (cm_sha m) \<and> \<not> sint (cm_size m) < 0 \<and> \<not> (cm_size m = 0 \<and> cm_kind m \<noteq> ''tpm'') \<and>
     \<not> sint (cm_size m) > sint member_limit \<and> \<not> sint (cm_size m) > sint (total_limit - ms_total st)"

definition add_member :: "(string \<Rightarrow> string) \<Rightarrow> capture_member \<Rightarrow> member_state \<Rightarrow> go_error + member_state" where
  "add_member fold_case m st =
     (if \<not> member_shape m st then capture_invalid ''invalid, duplicate or excessive capture member''
      else if cm_kind m \<notin> set member_kinds then capture_invalid ''unknown capture member kind''
      else case add_path fold_case (ms_paths st) (cm_path m) of
        None \<Rightarrow> capture_invalid ''capture member paths conflict''
      | Some ps \<Rightarrow> Inr \<lparr>ms_members = (cm_id m, m) # ms_members st, ms_paths = ps, ms_total = ms_total st + cm_size m\<rparr>)"

text \<open>The closure \<^verbatim>\<open>reference\<close>: a member takes the one role its kind allows; \<open>used\<close> holds the members taken.\<close>

definition reference :: "(string \<times> capture_member) list \<Rightarrow> string \<Rightarrow> string \<Rightarrow> string list \<Rightarrow> go_error + string list" where
  "reference members i kind used = (case map_of members i of
      None \<Rightarrow> incomplete ''declared capture member is missing''
    | Some m \<Rightarrow>
        if i \<in> set used \<or> cm_kind m \<noteq> kind
        then capture_invalid ''capture member has a conflicting role or duplicate reference'' else Inr (i # used))"

definition optional_role :: "(string \<times> capture_member) list \<Rightarrow> bool \<times> string \<times> string \<Rightarrow> string list \<Rightarrow> go_error + string list" where
  "optional_role members r used = (case r of (present, i, kind) \<Rightarrow>
     if present then reference members i kind used
     else if i \<noteq> [] then capture_invalid ''capture artifact contradicts the declared source'' else Inr used)"

definition optional_roles :: "capture_manifest \<Rightarrow> (bool \<times> string \<times> string) list" where
  "optional_roles m = (let state = so_state (ma_source m); fw = sy_firmware state in
     [(fi_loader fw \<noteq> [], ma_firmware m, ''firmware-code''), (fi_nvram fw \<noteq> None, ma_nvram m, ''nvram''),
      (fi_nvram fw \<noteq> None \<or> sy_tpm state \<noteq> None, ma_inventory m, ''auxiliary-inventory'')])"

section \<open>Disks, TPM state and secrets\<close>

definition source_targets :: "disk_source list \<Rightarrow> (string \<times> disk_source) list" where
  "source_targets disks = foldl (\<lambda>t d. if ds_empty d then t else row_upsert (ds_target d) d t) [] disks"

definition disk_kind :: "disk_source \<Rightarrow> string" where
  "disk_kind d = (if ds_device d = ''cdrom'' \<or> ds_device d = ''floppy'' then ''media'' else ''disk'')"

definition capture_disk :: "(string \<times> capture_member) list \<Rightarrow> captured_disk \<Rightarrow>
    (string \<times> disk_source) list \<times> string list \<Rightarrow> go_error + (string \<times> disk_source) list \<times> string list" where
  "capture_disk members c st = (case st of (pending, used) \<Rightarrow>
     case map_of pending (cd_target c) of
       Some d \<Rightarrow>
         if \<not> cd_independent c \<or> cd_format c \<notin> {''raw'', ''qcow2''}
         then capture_invalid ''captured disks require unique nonempty source targets and independent raw or qcow2 output''
         else bindr (reference members (cd_member c) (disk_kind d) used) (\<lambda>u.
           Inr (filter (\<lambda>(t, _). t \<noteq> cd_target c) pending, u))
     | None \<Rightarrow> capture_invalid ''captured disks require unique nonempty source targets and independent raw or qcow2 output'')"

definition capture_tpm :: "(string \<Rightarrow> string) \<Rightarrow> (string \<times> capture_member) list \<Rightarrow> captured_tpm \<Rightarrow>
    string list \<times> string list \<Rightarrow> go_error + string list \<times> string list" where
  "capture_tpm fold_case members f st = (case st of (names, used) \<Rightarrow>
     case (if capture_relative (ct_name f) then add_path fold_case names (ct_name f) else None) of
       None \<Rightarrow> capture_invalid ''invalid or conflicting TPM member name''
     | Some ns \<Rightarrow> bindr (reference members (ct_member f) ''tpm'' used) (\<lambda>u. Inr (ns, u)))"

definition source_secrets :: "state_layout \<Rightarrow> string list" where
  "source_secrets s = remdups (items (sy_secrets s) @
     (case sy_tpm s of Some t \<Rightarrow> (if tp_secret t \<noteq> [] then [tp_secret t] else []) | None \<Rightarrow> []))"

definition capture_secret :: "(string \<times> capture_member) list \<Rightarrow> bool \<Rightarrow> captured_secret \<Rightarrow>
    string list \<times> string list \<Rightarrow> go_error + string list \<times> string list" where
  "capture_secret members independent c st = (case st of (pending, used) \<Rightarrow>
     if \<not> capture_uuid (cs_uuid c) \<or> cs_uuid c \<notin> set pending \<or> cs_external c = (cs_member c \<noteq> [])
     then capture_invalid ''each source secret requires exactly one included or external disposition''
     else let rest = filter (\<lambda>i. i \<noteq> cs_uuid c) pending in
       if cs_external c then
         (if independent then capture_invalid ''external secrets forbid independent recovery'' else Inr (rest, used))
       else bindr (reference members (cs_member c) ''secret'' used) (\<lambda>u. Inr (rest, u)))"

section \<open>Validation of the manifest\<close>

definition identities_ok :: "capture_manifest \<Rightarrow> bool" where
  "identities_ok m \<longleftrightarrow> capture_uuid (ma_id m) \<and> capture_uuid (ma_operation m) \<and> capture_uuid (key_uuid (ma_source_vm m)) \<and>
     provider_id (ma_source_vm m) = ''libvirt'' \<and> key_kind (ma_source_vm m) = ''vm'' \<and>
     connection_id (ma_source_vm m) \<in> {''qemu:///system'', ''qemu:///session''} \<and>
     sy_vm (so_state (ma_source m)) = key_uuid (ma_source_vm m)"

definition times_ok :: "capture_manifest \<Rightarrow> bool" where
  "times_ok m \<longleftrightarrow> capture_time_ok (ma_started m) \<and> capture_time_ok (ma_finished m) \<and>
     \<not> cy_instant (ma_finished m) < cy_instant (ma_started m) \<and> ma_before m = ''stopped'' \<and> ma_after m = ''stopped'' \<and>
     \<not> ma_saved m \<and> capture_digest (ma_fingerprint m)"

definition version_of :: "capture_manifest \<Rightarrow> string \<Rightarrow> string" where
  "version_of m name = (case map_of (ma_versions m) name of None \<Rightarrow> [] | Some v \<Rightarrow> v)"

definition versions_ok :: "capture_manifest \<Rightarrow> bool" where
  "versions_ok m \<longleftrightarrow> length (ma_versions m) \<le> 32 \<and> manifest_text (version_of m ''libvirt'') \<and>
     manifest_text (version_of m ''qemu'') \<and> (sy_tpm (so_state (ma_source m)) \<noteq> None \<longrightarrow> manifest_text (version_of m ''swtpm''))"

definition capture_header :: "capture_manifest \<Rightarrow> go_error + unit" where
  "capture_header m =
     (if ma_api m \<noteq> api_version \<or> ma_kind m \<noteq> ''ColdRecoveryPoint'' \<or> ma_version m \<noteq> 1
      then capture_invalid ''unsupported cold recovery manifest version or kind''
      else if ma_members m = None \<or> ma_disks m = None \<or> ma_tpm m = None \<or> ma_secrets m = None
      then capture_invalid ''capture collections must be explicit arrays, including empty arrays''
      else if \<not> identities_ok m then capture_invalid ''canonical recovery identities and one local libvirt source VM required''
      else if \<not> times_ok m then capture_invalid ''ordered UTC capture times, stopped source and valid fingerprint required''
      else if \<not> versions_ok m then capture_invalid ''bounded native versions required for the declared source''
      else if \<not> list_all (\<lambda>(n, v). capture_identifier 64 n \<and> manifest_text v) (ma_versions m)
      then capture_invalid ''invalid native version identifier or value''
      else bindr (validate_source (ma_source m)) (\<lambda>_.
        if items (so_external (ma_source m)) \<noteq> [] \<and> ma_independent m
        then capture_invalid ''unresolved source dependencies forbid independent recovery''
        else if items (ma_members m) = [] \<or> length (items (ma_members m)) > 256 \<or> length (items (ma_disks m)) > 256 \<or>
            length (items (ma_tpm m)) > 256 \<or> length (items (ma_secrets m)) > 256
        then capture_invalid ''capture member or mapping count outside bounds'' else Inr ()))"

definition capture_roles :: "(string \<Rightarrow> string) \<Rightarrow> capture_manifest \<Rightarrow> (string \<times> capture_member) list \<Rightarrow> go_error + string list" where
  "capture_roles fold_case m members = (let state = so_state (ma_source m) in
     bindr (reference members (ma_persistent m) ''persistent-xml'' []) (\<lambda>u1.
     bindr (if ma_effective m \<noteq> ma_persistent m then reference members (ma_effective m) ''effective-xml'' u1 else Inr u1) (\<lambda>u2.
     bindr (foldr_res (optional_role members) (optional_roles m) u2) (\<lambda>u3.
     bindr (foldr_res (capture_disk members) (items (ma_disks m)) (source_targets (items (so_disks (ma_source m))), u3)) (\<lambda>(pending, u4).
     if pending \<noteq> [] then incomplete ''nonempty source disk has no captured member''
     else if (sy_tpm state \<noteq> None) \<noteq> (items (ma_tpm m) \<noteq> []) then incomplete ''TPM members contradict the declared source''
     else bindr (foldr_res (capture_tpm fold_case members) (items (ma_tpm m)) ([], u4)) (\<lambda>(_, u5).
     if length (source_secrets state) > 256 then capture_invalid ''secret reference count exceeds bound''
     else bindr (foldr_res (capture_secret members (ma_independent m)) (items (ma_secrets m)) (source_secrets state, u5)) (\<lambda>(rest, u6).
     if rest \<noteq> [] then incomplete ''source secret has no capture disposition''
     else Inr u6)))))))"

definition validate_capture :: "(string \<Rightarrow> string) \<Rightarrow> capture_manifest \<Rightarrow> go_error + unit" where
  "validate_capture fold_case m =
     bindr (capture_header m) (\<lambda>_.
     bindr (foldr_res (add_member fold_case) (items (ma_members m)) \<lparr>ms_members = [], ms_paths = [], ms_total = 0\<rparr>) (\<lambda>st.
     bindr (capture_roles fold_case m (ms_members st)) (\<lambda>used.
     if length used \<noteq> length (ms_members st) then capture_invalid ''every capture member must have exactly one declared role''
     else Inr ())))"

end
