(* ===== verification/Recovery_Laws.thy ===== *)
theory Recovery_Laws
  imports Recovery "HOL-Library.Multiset"
begin

text \<open>
  What an accepted manifest guarantees, and that nothing else is asked of it: every loop of the
  validation is characterised by what it accepts, and together they say that the members and the
  roles of the declaration correspond one to one (\<open>manifest_accepted\<close>).
\<close>

section \<open>Roles\<close>

definition role_ok :: "(string \<times> capture_member) list \<Rightarrow> string \<times> string \<Rightarrow> bool" where
  "role_ok members r \<longleftrightarrow> (case map_of members (fst r) of None \<Rightarrow> False | Some m \<Rightarrow> cm_kind m = snd r)"

definition take_roles :: "(string \<times> capture_member) list \<Rightarrow> (string \<times> string) list \<Rightarrow> string list \<Rightarrow> go_error + string list" where
  "take_roles members = foldr_res (\<lambda>(i, k). reference members i k)"

lemma reference_Inr: "reference members i k used = Inr u \<longleftrightarrow> role_ok members (i, k) \<and> i \<notin> set used \<and> u = i # used"
  by (auto simp: reference_def role_ok_def split: option.splits)

lemma take_roles_simps:
  "take_roles members [] used = Inr used"
  "take_roles members ((i, k) # rs) used = bindr (reference members i k used) (take_roles members rs)"
  by (simp_all add: take_roles_def)

lemma take_roles_append: "take_roles members (xs @ ys) used = bindr (take_roles members xs used) (take_roles members ys)"
  by (simp add: take_roles_def foldr_res_append)

lemma take_roles_Inr:
  "take_roles members rs used = Inr u \<longleftrightarrow>
     list_all (role_ok members) rs \<and> distinct (map fst rs) \<and> set (map fst rs) \<inter> set used = {} \<and> u = rev (map fst rs) @ used"
proof (induction rs arbitrary: used)
  case (Cons r rs)
  obtain i k where r: "r = (i, k)" by fastforce
  show ?case unfolding r take_roles_simps by (auto simp: reference_Inr Cons.IH)
qed (auto simp: take_roles_simps)

section \<open>The loops\<close>

lemma optional_roles_Inr:
  "foldr_res (optional_role members) rs used = Inr u \<longleftrightarrow>
     list_all (\<lambda>(p, i, k). p \<or> i = []) rs \<and> take_roles members (map snd (filter fst rs)) used = Inr u"
proof (induction rs arbitrary: used)
  case (Cons r rs)
  obtain p i k where r: "r = (p, i, k)" by (metis prod_cases3)
  have "optional_role members (p, i, k) used = (if p then reference members i k used
      else if i \<noteq> [] then capture_invalid ''capture artifact contradicts the declared source'' else Inr used)"
    by (simp add: optional_role_def)
  then show ?case unfolding r by (cases p) (auto simp: take_roles_simps Cons.IH)
qed (simp add: take_roles_simps)

definition disk_role :: "(string \<times> disk_source) list \<Rightarrow> captured_disk \<Rightarrow> string \<times> string" where
  "disk_role sources c = (cd_member c, disk_kind (the (map_of sources (cd_target c))))"

definition disk_ok :: "captured_disk \<Rightarrow> bool" where
  "disk_ok c \<longleftrightarrow> cd_independent c \<and> cd_format c \<in> {''raw'', ''qcow2''}"

lemma all_apart: "list_all (\<lambda>x. P x \<and> f x \<noteq> k) xs \<longleftrightarrow> list_all P xs \<and> k \<notin> f ` set xs"
  by (auto simp: list_all_iff)

lemma map_of_remove: "map_of (filter (\<lambda>(t, _). t \<noteq> k) xs) j = (if j = k then None else map_of xs j)"
  by (induction xs) auto

lemma capture_disks_Inr:
  "foldr_res (capture_disk members) cs (pending, used) = Inr (rest, u) \<longleftrightarrow>
     list_all (\<lambda>c. disk_ok c \<and> cd_target c \<in> fst ` set pending) cs \<and> distinct (map cd_target cs) \<and>
     rest = filter (\<lambda>(t, _). t \<notin> cd_target ` set cs) pending \<and> take_roles members (map (disk_role pending) cs) used = Inr u"
proof (induction cs arbitrary: pending used)
  case (Cons c cs)
  define left where "left = filter (\<lambda>(t, _). t \<noteq> cd_target c) pending"
  have keep: "map (disk_role left) cs = map (disk_role pending) cs" if "cd_target c \<notin> cd_target ` set cs"
  proof (rule map_cong [OF refl])
    fix x assume "x \<in> set cs"
    then have "cd_target x \<noteq> cd_target c" using that by (metis image_eqI)
    then show "disk_role left x = disk_role pending x" by (simp add: disk_role_def left_def map_of_remove)
  qed
  have dom: "(x \<in> fst ` set left) = (x \<in> fst ` set pending \<and> x \<noteq> cd_target c)" for x unfolding left_def by force
  have filt: "filter (\<lambda>(t, _). t \<notin> cd_target ` set cs) left = filter (\<lambda>(t, _). t \<notin> cd_target ` set (c # cs)) pending"
    unfolding left_def filter_filter by (rule filter_cong) auto
  let ?refused = "capture_invalid ''captured disks require unique nonempty source targets and independent raw or qcow2 output''
    :: go_error + (string \<times> disk_source) list \<times> string list"
  have step: "capture_disk members c (pending, used) = (case map_of pending (cd_target c) of None \<Rightarrow> ?refused
      | Some d \<Rightarrow> if disk_ok c then bindr (reference members (cd_member c) (disk_kind d) used) (\<lambda>u. Inr (left, u)) else ?refused)"
    by (auto simp: capture_disk_def disk_ok_def left_def split: option.splits)
  show ?case
  proof (cases "map_of pending (cd_target c)")
    case None
    then have "capture_disk members c (pending, used) = ?refused" using step by simp
    then show ?thesis using None by (auto simp: map_of_eq_None_iff)
  next
    case (Some d)
    then have d: "cd_target c \<in> fst ` set pending" by (metis domI dom_map_of_conv_image_fst)
    have "foldr_res (capture_disk members) (c # cs) (pending, used) = Inr (rest, u) \<longleftrightarrow>
        disk_ok c \<and> (\<exists>v. reference members (cd_member c) (disk_kind d) used = Inr v \<and>
          foldr_res (capture_disk members) cs (left, v) = Inr (rest, u))"
      using step Some by auto
    also have "\<dots> \<longleftrightarrow> list_all (\<lambda>c. disk_ok c \<and> cd_target c \<in> fst ` set pending) (c # cs) \<and> distinct (map cd_target (c # cs)) \<and>
        rest = filter (\<lambda>(t, _). t \<notin> cd_target ` set (c # cs)) pending \<and>
        (\<exists>v. reference members (cd_member c) (disk_kind d) used = Inr v \<and> take_roles members (map (disk_role pending) cs) v = Inr u)"
      unfolding Cons.IH filt dom conj_assoc [symmetric] all_apart using keep d
      by (cases "cd_target c \<in> cd_target ` set cs") (auto simp del: map_eq_conv)
    moreover have "disk_role pending c = (cd_member c, disk_kind d)" using Some by (simp add: disk_role_def)
    ultimately show ?thesis by (simp add: take_roles_simps)
  qed
qed (auto simp: take_roles_simps)

definition paths_apart :: "string list \<Rightarrow> bool" where
  "paths_apart ks \<longleftrightarrow> distinct ks \<and> list_all (\<lambda>p. list_all (\<lambda>q. \<not> has_prefix (p @ ''/'') q) ks) ks"

lemma no_self_prefix: "\<not> has_prefix (k @ ''/'') k"
  by (auto simp: has_prefix_append)

lemma add_path_Some:
  "paths_apart ps \<Longrightarrow> add_path fc ps n = Some qs \<longleftrightarrow> qs = fc n # ps \<and> paths_apart (fc n # ps)"
  by (auto simp: add_path_def Let_def paths_apart_def list_all_iff list_ex_iff no_self_prefix split: if_splits)

lemma add_path_apart:
  "paths_apart ps \<Longrightarrow> add_path fc ps n = (if paths_apart (fc n # ps) then Some (fc n # ps) else None)"
  using add_path_Some [of ps fc n] by (cases "add_path fc ps n") auto

lemma paths_apart_append: "paths_apart (xs @ ys) \<Longrightarrow> paths_apart ys"
  by (auto simp: paths_apart_def list_all_iff)

lemma capture_tpms_Inr:
  "paths_apart names \<Longrightarrow> (\<exists>ns. foldr_res (capture_tpm fc members) fs (names, used) = Inr (ns, u)) \<longleftrightarrow>
     list_all (\<lambda>f. capture_relative (ct_name f)) fs \<and> paths_apart (rev (map (\<lambda>f. fc (ct_name f)) fs) @ names) \<and>
     take_roles members (map (\<lambda>f. (ct_member f, ''tpm'')) fs) used = Inr u"
proof (induction fs arbitrary: names used)
  case (Cons f fs)
  have step: "capture_tpm fc members f (names, used) = (if capture_relative (ct_name f) \<and> paths_apart (fc (ct_name f) # names)
      then bindr (reference members (ct_member f) ''tpm'' used) (\<lambda>u. Inr (fc (ct_name f) # names, u))
      else capture_invalid ''invalid or conflicting TPM member name'')"
    by (simp add: capture_tpm_def add_path_apart [OF Cons.prems])
  show ?case
  proof (cases "capture_relative (ct_name f) \<and> paths_apart (fc (ct_name f) # names)")
    case True
    then have "(\<exists>ns. foldr_res (capture_tpm fc members) (f # fs) (names, used) = Inr (ns, u)) \<longleftrightarrow>
        (\<exists>v. reference members (ct_member f) ''tpm'' used = Inr v \<and>
          (\<exists>ns. foldr_res (capture_tpm fc members) fs (fc (ct_name f) # names, v) = Inr (ns, u)))"
      using step by auto
    also have "\<dots> \<longleftrightarrow> (\<exists>v. reference members (ct_member f) ''tpm'' used = Inr v \<and>
        list_all (\<lambda>f. capture_relative (ct_name f)) fs \<and>
        paths_apart (rev (map (\<lambda>f. fc (ct_name f)) fs) @ fc (ct_name f) # names) \<and>
        take_roles members (map (\<lambda>f. (ct_member f, ''tpm'')) fs) v = Inr u)"
      using Cons.IH [of "fc (ct_name f) # names"] True by simp
    finally show ?thesis using True by (auto simp: take_roles_simps)
  next
    case False
    then have "\<not> (capture_relative (ct_name f) \<and> paths_apart (rev (map (\<lambda>f. fc (ct_name f)) fs) @ fc (ct_name f) # names))"
      using paths_apart_append by blast
    then show ?thesis using step False by auto
  qed
qed (simp add: take_roles_simps)

definition included :: "captured_secret list \<Rightarrow> (string \<times> string) list" where
  "included cs = map (\<lambda>c. (cs_member c, ''secret'')) (filter (\<lambda>c. \<not> cs_external c) cs)"

definition secret_ok :: "bool \<Rightarrow> captured_secret \<Rightarrow> bool" where
  "secret_ok independent c \<longleftrightarrow> capture_uuid (cs_uuid c) \<and> cs_external c = (cs_member c = []) \<and> \<not> (independent \<and> cs_external c)"

lemma capture_secrets_Inr:
  "foldr_res (capture_secret members independent) cs (pending, used) = Inr (rest, u) \<longleftrightarrow>
     list_all (\<lambda>c. secret_ok independent c \<and> cs_uuid c \<in> set pending) cs \<and> distinct (map cs_uuid cs) \<and>
     rest = filter (\<lambda>i. i \<notin> cs_uuid ` set cs) pending \<and> take_roles members (included cs) used = Inr u"
proof (induction cs arbitrary: pending used)
  case (Cons c cs)
  define left where "left = filter (\<lambda>i. i \<noteq> cs_uuid c) pending"
  have filt: "filter (\<lambda>i. i \<notin> cs_uuid ` set cs) left = filter (\<lambda>i. i \<notin> cs_uuid ` set (c # cs)) pending"
    unfolding left_def filter_filter by (rule filter_cong) auto
  have dom: "x \<in> set left \<longleftrightarrow> x \<in> set pending \<and> x \<noteq> cs_uuid c" for x by (auto simp: left_def)
  have "foldr_res (capture_secret members independent) (c # cs) (pending, used) = Inr (rest, u) \<longleftrightarrow>
      secret_ok independent c \<and> cs_uuid c \<in> set pending \<and>
      (if cs_external c then foldr_res (capture_secret members independent) cs (left, used) = Inr (rest, u)
       else \<exists>v. reference members (cs_member c) ''secret'' used = Inr v \<and>
         foldr_res (capture_secret members independent) cs (left, v) = Inr (rest, u))"
    by (auto simp: capture_secret_def secret_ok_def Let_def left_def [symmetric])
  also have "\<dots> \<longleftrightarrow> list_all (\<lambda>c. secret_ok independent c \<and> cs_uuid c \<in> set pending) (c # cs) \<and> distinct (map cs_uuid (c # cs)) \<and>
      rest = filter (\<lambda>i. i \<notin> cs_uuid ` set (c # cs)) pending \<and>
      (if cs_external c then take_roles members (included cs) used = Inr u
       else \<exists>v. reference members (cs_member c) ''secret'' used = Inr v \<and> take_roles members (included cs) v = Inr u)"
    unfolding Cons.IH filt dom conj_assoc [symmetric] all_apart by auto
  finally show ?case by (simp add: included_def take_roles_simps)
qed (auto simp: take_roles_simps included_def)

section \<open>Sizes\<close>

definition tib :: int where
  "tib = 2 ^ 40"

lemma sint_small: "- (2 ^ 63) \<le> t \<Longrightarrow> t < 2 ^ 63 \<Longrightarrow> sint (word_of_int t :: 64 word) = t"
  by (simp add: sint_sbintrunc' signed_take_bit_int_eq_self)

lemma size_limits: "sint member_limit = 16 * tib" "sint total_limit = 64 * tib"
  by (simp_all add: member_limit_def total_limit_def tib_def)

lemma size_fits:
  assumes "0 \<le> sint t" "sint t \<le> 64 * tib"
  shows "sint (total_limit - t) = 64 * tib - sint t"
proof -
  have "total_limit - t = word_of_int (64 * tib - sint t)" by (simp add: total_limit_def tib_def)
  then show ?thesis using assms by (simp only:) (rule sint_small, simp_all add: tib_def)
qed

lemma size_adds:
  fixes s t :: "64 word"
  assumes "0 \<le> sint t" "0 \<le> sint s" "sint t + sint s \<le> 64 * tib"
  shows "sint (t + s) = sint t + sint s"
proof -
  have "t + s = word_of_int (sint t + sint s)" by simp
  then show ?thesis using assms by (simp only:) (rule sint_small, simp_all add: tib_def)
qed


section \<open>Members\<close>

text \<open>A member by itself, and a list of them together.\<close>

definition member_ok :: "capture_member \<Rightarrow> bool" where
  "member_ok m \<longleftrightarrow> manifest_text (cm_id m) \<and> capture_relative (cm_path m) \<and> capture_digest (cm_sha m) \<and>
     0 \<le> sint (cm_size m) \<and> sint (cm_size m) \<le> 16 * tib \<and> (if cm_kind m = ''tpm'' then True else cm_size m \<noteq> 0) \<and>
     cm_kind m \<in> set member_kinds"

definition total_size :: "capture_member list \<Rightarrow> int" where
  "total_size ms = sum_list (map (\<lambda>m. sint (cm_size m)) ms)"

definition members_ok :: "(string \<Rightarrow> string) \<Rightarrow> capture_member list \<Rightarrow> bool" where
  "members_ok fc ms \<longleftrightarrow> list_all member_ok ms \<and> distinct (map cm_id ms) \<and> paths_apart (rev (map (\<lambda>m. fc (cm_path m)) ms)) \<and>
     total_size ms \<le> 64 * tib"

lemma total_size_pos: "list_all member_ok ms \<Longrightarrow> 0 \<le> total_size ms"
  by (induction ms) (auto simp: total_size_def member_ok_def)

lemma add_member_Inr:
  assumes "paths_apart (ms_paths st)" "0 \<le> sint (ms_total st)" "sint (ms_total st) \<le> 64 * tib"
  shows "add_member fc m st = Inr st' \<longleftrightarrow> member_ok m \<and> cm_id m \<notin> fst ` set (ms_members st) \<and>
    paths_apart (fc (cm_path m) # ms_paths st) \<and> sint (ms_total st) + sint (cm_size m) \<le> 64 * tib \<and>
    st' = \<lparr>ms_members = (cm_id m, m) # ms_members st, ms_paths = fc (cm_path m) # ms_paths st, ms_total = ms_total st + cm_size m\<rparr>"
proof -
  have "map_of (ms_members st) (cm_id m) = None \<longleftrightarrow> cm_id m \<notin> fst ` set (ms_members st)" by (simp add: map_of_eq_None_iff)
  then have "member_shape m st \<and> cm_kind m \<in> set member_kinds \<longleftrightarrow> member_ok m \<and> cm_id m \<notin> fst ` set (ms_members st) \<and>
      sint (ms_total st) + sint (cm_size m) \<le> 64 * tib"
    unfolding member_shape_def member_ok_def size_limits size_fits [OF assms(2,3)] by auto
  then show ?thesis by (auto simp: add_member_def add_path_apart [OF assms(1)])
qed

lemma add_members_Inr:
  "paths_apart (ms_paths st) \<Longrightarrow> 0 \<le> sint (ms_total st) \<Longrightarrow> sint (ms_total st) \<le> 64 * tib \<Longrightarrow>
   foldr_res (add_member fc) ms st = Inr st' \<longleftrightarrow>
     list_all member_ok ms \<and> distinct (map cm_id ms) \<and> cm_id ` set ms \<inter> fst ` set (ms_members st) = {} \<and>
     paths_apart (rev (map (\<lambda>m. fc (cm_path m)) ms) @ ms_paths st) \<and> sint (ms_total st) + total_size ms \<le> 64 * tib \<and>
     st' = \<lparr>ms_members = rev (map (\<lambda>m. (cm_id m, m)) ms) @ ms_members st, ms_paths = rev (map (\<lambda>m. fc (cm_path m)) ms) @ ms_paths st,
       ms_total = foldl (\<lambda>t m. t + cm_size m) (ms_total st) ms\<rparr>"
proof (induction ms arbitrary: st)
  case Nil
  then show ?case by (cases st) (auto simp: total_size_def)
next
  case (Cons m ms)
  let ?st = "\<lparr>ms_members = (cm_id m, m) # ms_members st, ms_paths = fc (cm_path m) # ms_paths st, ms_total = ms_total st + cm_size m\<rparr>"
  have "foldr_res (add_member fc) (m # ms) st = Inr st' \<longleftrightarrow>
      (member_ok m \<and> cm_id m \<notin> fst ` set (ms_members st) \<and> paths_apart (fc (cm_path m) # ms_paths st) \<and>
       sint (ms_total st) + sint (cm_size m) \<le> 64 * tib) \<and> foldr_res (add_member fc) ms ?st = Inr st'"
    using add_member_Inr [OF Cons.prems, of fc m] by auto
  also have "\<dots> \<longleftrightarrow> list_all member_ok (m # ms) \<and> distinct (map cm_id (m # ms)) \<and>
      cm_id ` set (m # ms) \<inter> fst ` set (ms_members st) = {} \<and>
      paths_apart (rev (map (\<lambda>m. fc (cm_path m)) (m # ms)) @ ms_paths st) \<and> sint (ms_total st) + total_size (m # ms) \<le> 64 * tib \<and>
      st' = \<lparr>ms_members = rev (map (\<lambda>m. (cm_id m, m)) (m # ms)) @ ms_members st,
        ms_paths = rev (map (\<lambda>m. fc (cm_path m)) (m # ms)) @ ms_paths st, ms_total = foldl (\<lambda>t m. t + cm_size m) (ms_total st) (m # ms)\<rparr>"
  proof (cases "member_ok m \<and> paths_apart (fc (cm_path m) # ms_paths st) \<and> sint (ms_total st) + sint (cm_size m) \<le> 64 * tib")
    case True
    have "0 \<le> sint (cm_size m)" using True by (simp add: member_ok_def)
    then have "sint (ms_total st + cm_size m) = sint (ms_total st) + sint (cm_size m)"
      using size_adds [of "ms_total st" "cm_size m"] Cons.prems(2) True by simp
    then show ?thesis using Cons.IH [of ?st] True Cons.prems(2) \<open>0 \<le> sint (cm_size m)\<close>
      by (auto simp: total_size_def)
  next
    case False
    have "\<not> (list_all member_ok ms \<and> member_ok m \<and> paths_apart (rev (map (\<lambda>m. fc (cm_path m)) ms) @ fc (cm_path m) # ms_paths st) \<and>
        sint (ms_total st) + total_size (m # ms) \<le> 64 * tib)"
      using False paths_apart_append total_size_pos [of ms] by (fastforce simp: total_size_def)
    then show ?thesis using False by auto
  qed
  finally show ?case .
qed

section \<open>The whole declaration\<close>

lemma same_elements:
  assumes "distinct ys"
  shows "distinct xs \<and> set xs \<subseteq> set ys \<and> length xs = length ys \<longleftrightarrow> mset xs = mset ys"
proof
  assume h: "distinct xs \<and> set xs \<subseteq> set ys \<and> length xs = length ys"
  then have "card (set xs) = card (set ys)" using assms by (simp add: distinct_card)
  then have "set xs = set ys" using h card_subset_eq [of "set ys" "set xs"] by simp
  then show "mset xs = mset ys" using h assms set_eq_iff_mset_eq_distinct by blast
next
  assume "mset xs = mset ys"
  then show "distinct xs \<and> set xs \<subseteq> set ys \<and> length xs = length ys"
    using assms by (metis mset_eq_imp_distinct_iff mset_eq_length mset_eq_setD order_refl)
qed

lemma covering:
  assumes "distinct ys"
  shows "list_all (\<lambda>x. x \<in> set ys) xs \<and> distinct xs \<and> filter (\<lambda>y. y \<notin> set xs) ys = [] \<longleftrightarrow> mset xs = mset ys"
proof -
  have "list_all (\<lambda>x. x \<in> set ys) xs \<and> distinct xs \<and> filter (\<lambda>y. y \<notin> set xs) ys = [] \<longleftrightarrow> distinct xs \<and> set xs = set ys"
    by (auto simp: list_all_iff filter_empty_conv)
  also have "\<dots> \<longleftrightarrow> mset xs = mset ys"
    using assms by (metis mset_eq_imp_distinct_iff mset_eq_setD set_eq_iff_mset_eq_distinct)
  finally show ?thesis .
qed

lemma check_disks_targets:
  "foldr_res (check_disk ext) ds (ts, n) = Inr (ts', n') \<Longrightarrow> distinct (map (\<lambda>d. trim_prefix ''ioemu:'' (ds_target d)) ds)
     \<and> (\<forall>d \<in> set ds. trim_prefix ''ioemu:'' (ds_target d) \<notin> set ts)"
proof (induction ds arbitrary: ts n)
  case (Cons d ds)
  then obtain t k where s: "check_disk ext d (ts, n) = Inr (t, k)" "foldr_res (check_disk ext) ds (t, k) = Inr (ts', n')" by auto
  then have "trim_prefix ''ioemu:'' (ds_target d) \<notin> set ts" "t = trim_prefix ''ioemu:'' (ds_target d) # ts"
    by (auto simp: check_disk_def disk_shape_def Let_def split: if_splits)
  then show ?case using Cons.IH [OF s(2)] by auto
qed simp

lemma source_distinct: "validate_source s = Inr () \<Longrightarrow> distinct (map ds_target (items (so_disks s)))"
proof -
  assume "validate_source s = Inr ()"
  then obtain ts n where "foldr_res (check_disk (items (so_external s))) (items (so_disks s)) ([], 0) = Inr (ts, n)"
    by (auto simp: validate_source_def Let_def split: if_splits)
  then have "distinct (map (trim_prefix ''ioemu:'') (map ds_target (items (so_disks s))))"
    using check_disks_targets by (fastforce simp: comp_def)
  then show ?thesis by (rule distinct_map [THEN iffD1, THEN conjunct1])
qed

lemma source_targets_rows:
  "distinct (map fst t @ map ds_target ds) \<Longrightarrow>
   foldl (\<lambda>t d. if ds_empty d then t else row_upsert (ds_target d) d t) t ds =
     t @ map (\<lambda>d. (ds_target d, d)) (filter (\<lambda>d. \<not> ds_empty d) ds)"
proof (induction ds arbitrary: t)
  case (Cons d ds)
  then have "map_of t (ds_target d) = None" by (auto simp: map_of_eq_None_iff)
  then have "row_upsert (ds_target d) d t = t @ [(ds_target d, d)]" by (simp add: row_upsert_def)
  then show ?case using Cons.IH [of t] Cons.IH [of "t @ [(ds_target d, d)]"] Cons.prems by auto
qed simp

lemma source_targets_eq:
  "distinct (map ds_target ds) \<Longrightarrow> source_targets ds = map (\<lambda>d. (ds_target d, d)) (filter (\<lambda>d. \<not> ds_empty d) ds)"
  using source_targets_rows [of "[]" ds] by (simp add: source_targets_def)

text \<open>The roles a manifest declares, in the order they are taken.\<close>

definition manifest_roles :: "capture_manifest \<Rightarrow> (string \<times> string) list" where
  "manifest_roles m =
     (ma_persistent m, ''persistent-xml'') #
     (if ma_effective m \<noteq> ma_persistent m then [(ma_effective m, ''effective-xml'')] else []) @
     map snd (filter fst (optional_roles m)) @
     map (disk_role (source_targets (items (so_disks (ma_source m))))) (items (ma_disks m)) @
     map (\<lambda>f. (ct_member f, ''tpm'')) (items (ma_tpm m)) @ included (items (ma_secrets m))"

definition disks_covered :: "capture_manifest \<Rightarrow> bool" where
  "disks_covered m \<longleftrightarrow> list_all disk_ok (items (ma_disks m)) \<and>
     mset (map cd_target (items (ma_disks m))) = mset (map ds_target (filter (\<lambda>d. \<not> ds_empty d) (items (so_disks (ma_source m)))))"

definition tpm_covered :: "(string \<Rightarrow> string) \<Rightarrow> capture_manifest \<Rightarrow> bool" where
  "tpm_covered fc m \<longleftrightarrow> (sy_tpm (so_state (ma_source m)) \<noteq> None) = (items (ma_tpm m) \<noteq> []) \<and>
     list_all (\<lambda>f. capture_relative (ct_name f)) (items (ma_tpm m)) \<and> paths_apart (rev (map (\<lambda>f. fc (ct_name f)) (items (ma_tpm m))))"

definition secrets_covered :: "capture_manifest \<Rightarrow> bool" where
  "secrets_covered m \<longleftrightarrow> list_all (secret_ok (ma_independent m)) (items (ma_secrets m)) \<and>
     length (source_secrets (so_state (ma_source m))) \<le> 256 \<and>
     mset (map cs_uuid (items (ma_secrets m))) = mset (source_secrets (so_state (ma_source m)))"

definition absent_artifacts :: "capture_manifest \<Rightarrow> bool" where
  "absent_artifacts m \<longleftrightarrow> list_all (\<lambda>(present, i, k). present \<or> i = []) (optional_roles m)"

lemma disks_loop:
  assumes d: "distinct (map ds_target ds)"
  shows "foldr_res (capture_disk members) cs (source_targets ds, u) = Inr ([], v) \<longleftrightarrow>
    (list_all disk_ok cs \<and> mset (map cd_target cs) = mset (map ds_target (filter (\<lambda>d. \<not> ds_empty d) ds))) \<and>
    take_roles members (map (disk_role (source_targets ds)) cs) u = Inr v"
proof -
  let ?ts = "map ds_target (filter (\<lambda>d. \<not> ds_empty d) ds)"
  have dist: "distinct ?ts" using d by (metis distinct_map_filter)
  have s: "source_targets ds = map (\<lambda>d. (ds_target d, d)) (filter (\<lambda>d. \<not> ds_empty d) ds)" by (rule source_targets_eq [OF d])
  have dom: "fst ` set (source_targets ds) = set ?ts" unfolding s by (simp add: image_image)
  have rest: "[] = filter (\<lambda>(t, _). t \<notin> cd_target ` set cs) (source_targets ds) \<longleftrightarrow> filter (\<lambda>t. t \<notin> set (map cd_target cs)) ?ts = []"
    unfolding s by (auto simp: filter_empty_conv filter_map comp_def eq_commute [of "[]"])
  show ?thesis unfolding capture_disks_Inr dom rest covering [OF dist, symmetric] by (auto simp: list_all_iff)
qed

lemma secrets_loop:
  assumes "distinct ss"
  shows "foldr_res (capture_secret members independent) cs (ss, u) = Inr ([], v) \<longleftrightarrow>
    (list_all (secret_ok independent) cs \<and> mset (map cs_uuid cs) = mset ss) \<and> take_roles members (included cs) u = Inr v"
proof -
  have rest: "[] = filter (\<lambda>i. i \<notin> cs_uuid ` set cs) ss \<longleftrightarrow> filter (\<lambda>i. i \<notin> set (map cs_uuid cs)) ss = []" by auto
  show ?thesis unfolding capture_secrets_Inr rest covering [OF assms, symmetric] by (auto simp: list_all_iff)
qed

lemma capture_roles_Inr:
  assumes d: "distinct (map ds_target (items (so_disks (ma_source m))))"
  shows "capture_roles fc m members = Inr u \<longleftrightarrow> absent_artifacts m \<and> disks_covered m \<and> tpm_covered fc m \<and> secrets_covered m \<and>
    take_roles members (manifest_roles m) [] = Inr u"
proof -
  have "distinct (source_secrets (so_state (ma_source m)))" by (simp add: source_secrets_def)
  note secrets = secrets_loop [OF this] and disks = disks_loop [OF d]
  have effective: "(if ma_effective m \<noteq> ma_persistent m then reference members (ma_effective m) ''effective-xml'' u1 else Inr u1) =
      take_roles members (if ma_effective m \<noteq> ma_persistent m then [(ma_effective m, ''effective-xml'')] else []) u1" for u1
    by (cases "reference members (ma_effective m) ''effective-xml'' u1") (auto simp: take_roles_simps)
  have tpms: "(\<exists>ns. foldr_res (capture_tpm fc members) (items (ma_tpm m)) ([], v) = Inr (ns, w)) \<longleftrightarrow>
      list_all (\<lambda>f. capture_relative (ct_name f)) (items (ma_tpm m)) \<and>
      paths_apart (rev (map (\<lambda>f. fc (ct_name f)) (items (ma_tpm m)))) \<and>
      take_roles members (map (\<lambda>f. (ct_member f, ''tpm'')) (items (ma_tpm m))) v = Inr w" for v w
    using capture_tpms_Inr [of "[]" fc members "items (ma_tpm m)" v w] by (simp add: paths_apart_def)
  have "capture_roles fc m members = Inr u \<longleftrightarrow> (\<exists>u1 u2 u3 u4 u5.
      reference members (ma_persistent m) ''persistent-xml'' [] = Inr u1 \<and>
      take_roles members (if ma_effective m \<noteq> ma_persistent m then [(ma_effective m, ''effective-xml'')] else []) u1 = Inr u2 \<and>
      foldr_res (optional_role members) (optional_roles m) u2 = Inr u3 \<and>
      foldr_res (capture_disk members) (items (ma_disks m)) (source_targets (items (so_disks (ma_source m))), u3) = Inr ([], u4) \<and>
      (sy_tpm (so_state (ma_source m)) \<noteq> None) = (items (ma_tpm m) \<noteq> []) \<and>
      (\<exists>ns. foldr_res (capture_tpm fc members) (items (ma_tpm m)) ([], u4) = Inr (ns, u5)) \<and>
      length (source_secrets (so_state (ma_source m))) \<le> 256 \<and>
      foldr_res (capture_secret members (ma_independent m)) (items (ma_secrets m)) (source_secrets (so_state (ma_source m)), u5) = Inr ([], u))"
    unfolding capture_roles_def Let_def effective by (auto split: if_splits)
  also have "\<dots> \<longleftrightarrow> absent_artifacts m \<and> disks_covered m \<and> tpm_covered fc m \<and> secrets_covered m \<and>
      take_roles members (manifest_roles m) [] = Inr u"
    unfolding optional_roles_Inr disks tpms secrets absent_artifacts_def disks_covered_def tpm_covered_def secrets_covered_def
      manifest_roles_def take_roles_simps take_roles_append by auto
  finally show ?thesis .
qed

lemma role_ok_rev:
  assumes "distinct (map cm_id ms)"
  shows "role_ok (rev (map (\<lambda>m. (cm_id m, m)) ms)) r \<longleftrightarrow> (\<exists>m \<in> set ms. cm_id m = fst r \<and> cm_kind m = snd r)"
proof -
  have d: "distinct (map fst (rev (map (\<lambda>m. (cm_id m, m)) ms)))" using assms by (simp add: rev_map [symmetric] comp_def)
  have row: "map_of (rev (map (\<lambda>m. (cm_id m, m)) ms)) i = Some m \<longleftrightarrow> m \<in> set ms \<and> cm_id m = i" for i m
    using map_of_eq_Some_iff [OF d, of i m] by auto
  have "role_ok (rev (map (\<lambda>m. (cm_id m, m)) ms)) r \<longleftrightarrow>
      (\<exists>m. map_of (rev (map (\<lambda>m. (cm_id m, m)) ms)) (fst r) = Some m \<and> cm_kind m = snd r)"
    by (simp add: role_ok_def split: option.splits)
  then show ?thesis unfolding row by blast
qed

text \<open>
  C38. A recovery manifest is accepted exactly when its header and source layout are valid; its members
  are well formed, with distinct identities, paths of which none repeats or contains another after case
  folding, and at most 64 TiB in all (a bound on the true sum, so the 64-bit total never wraps); each
  nonempty disk of the source is captured once and independently, each secret of the source is disposed
  of once and none externally when recovery is claimed to be independent, TPM files are present exactly
  for a TPM; and the members correspond one to one to the roles the declaration gives out, each of the
  kind its role asks for.
\<close>

theorem manifest_accepted:
  "validate_capture fc m = Inr () \<longleftrightarrow>
     capture_header m = Inr () \<and> members_ok fc (items (ma_members m)) \<and>
     absent_artifacts m \<and> disks_covered m \<and> tpm_covered fc m \<and> secrets_covered m \<and>
     mset (map fst (manifest_roles m)) = mset (map cm_id (items (ma_members m))) \<and>
     list_all (\<lambda>(i, kind). \<exists>mb \<in> set (items (ma_members m)). cm_id mb = i \<and> cm_kind mb = kind) (manifest_roles m)"
proof (cases "capture_header m = Inr () \<and> members_ok fc (items (ma_members m))")
  case False
  have zero: "foldr_res (add_member fc) (items (ma_members m)) \<lparr>ms_members = [], ms_paths = [], ms_total = 0\<rparr> = Inr st \<Longrightarrow>
      members_ok fc (items (ma_members m))" for st
    using add_members_Inr [of "\<lparr>ms_members = [], ms_paths = [], ms_total = 0\<rparr>" fc "items (ma_members m)" st]
    by (simp add: paths_apart_def tib_def members_ok_def)
  then show ?thesis using False by (auto simp: validate_capture_def)
next
  case True
  let ?ms = "items (ma_members m)"
  let ?rows = "rev (map (\<lambda>m. (cm_id m, m)) ?ms)"
  have ok: "members_ok fc ?ms" and ids: "distinct (map cm_id ?ms)" using True by (auto simp: members_ok_def)
  obtain st where st: "foldr_res (add_member fc) ?ms \<lparr>ms_members = [], ms_paths = [], ms_total = 0\<rparr> = Inr st" "ms_members st = ?rows"
    using add_members_Inr [of "\<lparr>ms_members = [], ms_paths = [], ms_total = 0\<rparr>" fc ?ms] ok
    by (simp add: paths_apart_def tib_def members_ok_def)
  have "validate_source (ma_source m) = Inr ()"
    using True by (auto simp: capture_header_def split: if_splits)
  note roles = capture_roles_Inr [OF source_distinct [OF this], of fc ?rows]
  have "validate_capture fc m = Inr () \<longleftrightarrow> (\<exists>u. capture_roles fc m ?rows = Inr u \<and> length u = length ?ms)"
    using True st by (auto simp: validate_capture_def split: if_splits)
  also have "\<dots> \<longleftrightarrow> absent_artifacts m \<and> disks_covered m \<and> tpm_covered fc m \<and> secrets_covered m \<and>
      list_all (role_ok ?rows) (manifest_roles m) \<and> distinct (map fst (manifest_roles m)) \<and>
      length (map fst (manifest_roles m)) = length (map cm_id ?ms)"
    unfolding roles take_roles_Inr by auto
  also have "\<dots> \<longleftrightarrow> absent_artifacts m \<and> disks_covered m \<and> tpm_covered fc m \<and> secrets_covered m \<and>
      list_all (role_ok ?rows) (manifest_roles m) \<and> mset (map fst (manifest_roles m)) = mset (map cm_id ?ms)"
  proof -
    have "set (map fst (manifest_roles m)) \<subseteq> set (map cm_id ?ms)" if "list_all (role_ok ?rows) (manifest_roles m)"
    proof
      fix i assume "i \<in> set (map fst (manifest_roles m))"
      then obtain r where "r \<in> set (manifest_roles m)" "i = fst r" by auto
      then have "role_ok ?rows r" using that unfolding list_all_iff by blast
      then obtain mb where mb: "mb \<in> set ?ms" "cm_id mb = i" unfolding role_ok_rev [OF ids] \<open>i = fst r\<close> by blast
      have "cm_id mb \<in> cm_id ` set ?ms" by (rule imageI) (rule mb(1))
      then show "i \<in> set (map cm_id ?ms)" unfolding mb(2) set_map .
    qed
    then show ?thesis using same_elements [OF ids, of "map fst (manifest_roles m)"] by blast
  qed
  finally have all: "validate_capture fc m = Inr () \<longleftrightarrow> absent_artifacts m \<and> disks_covered m \<and> tpm_covered fc m \<and>
      secrets_covered m \<and> list_all (role_ok ?rows) (manifest_roles m) \<and> mset (map fst (manifest_roles m)) = mset (map cm_id ?ms)" .
  have rows: "role_ok ?rows = (\<lambda>(i, kind). \<exists>mb \<in> set ?ms. cm_id mb = i \<and> cm_kind mb = kind)"
    by (rule ext) (simp only: role_ok_rev [OF ids] split_beta)
  show ?thesis unfolding all rows using True by blast
qed

end
