(* ===== verification/File_Access.thy ===== *)
theory File_Access
  imports Domain
begin

unbundle bit_operations_syntax

text \<open>
  Read access to one managed file (\<^verbatim>\<open>backend/fileaccess\<close>): the binary form of a POSIX
  access list, its canonical shape, the access check, and the derivation of a list that lets one
  more user read. Permissions and tags are 16-bit words, identities 32-bit words, as in the code.
\<close>

section \<open>Entries\<close>

record acl_entry =
  en_tag :: "16 word"
  en_perms :: "16 word"
  en_id :: "32 word"

abbreviation user_object :: "16 word" where "user_object \<equiv> 1"
abbreviation named_user :: "16 word" where "named_user \<equiv> 2"
abbreviation group_object :: "16 word" where "group_object \<equiv> 4"
abbreviation named_group :: "16 word" where "named_group \<equiv> 8"
abbreviation mask_entry :: "16 word" where "mask_entry \<equiv> 16"
abbreviation other_entry :: "16 word" where "other_entry \<equiv> 32"

definition undefined_id :: "32 word" where
  "undefined_id = NOT 0"

section \<open>The binary form\<close>

text \<open>Little-endian words of two and four bytes.\<close>

definition put16 :: "16 word \<Rightarrow> bytes" where
  "put16 w = map (\<lambda>i. char_of (unat (drop_bit (8 * i) w))) [0, 1]"

definition put32 :: "32 word \<Rightarrow> bytes" where
  "put32 w = map (\<lambda>i. char_of (unat (drop_bit (8 * i) w))) [0, 1, 2, 3]"

definition get16 :: "bytes \<Rightarrow> 16 word" where
  "get16 b = word_of_nat (of_char (b ! 0) + 256 * of_char (b ! 1))"

definition get32 :: "bytes \<Rightarrow> 32 word" where
  "get32 b = word_of_nat (of_char (b ! 0) + 256 * (of_char (b ! 1) + 256 * (of_char (b ! 2) + 256 * of_char (b ! 3))))"

definition put_entry :: "acl_entry \<Rightarrow> bytes" where
  "put_entry e = put16 (en_tag e) @ put16 (en_perms e) @ put32 (en_id e)"

definition get_entry :: "bytes \<Rightarrow> acl_entry" where
  "get_entry b = \<lparr>en_tag = get16 b, en_perms = get16 (drop 2 b), en_id = get32 (drop 4 b)\<rparr>"

definition encode_acl :: "acl_entry list \<Rightarrow> bytes" where
  "encode_acl es = put32 2 @ concat (map put_entry es)"

text \<open>Entries are read in order; \<open>seen\<close> holds those accepted.\<close>

definition count_tag :: "16 word \<Rightarrow> acl_entry list \<Rightarrow> nat" where
  "count_tag t es = length (filter (\<lambda>e. en_tag e = t) es)"

definition last_tag :: "acl_entry list \<Rightarrow> 16 word" where
  "last_tag seen = (if seen = [] then 0 else en_tag (last seen))"

definition last_id :: "acl_entry list \<Rightarrow> 32 word" where
  "last_id seen = (if seen = [] then 0 else en_id (last seen))"

definition check_entry :: "acl_entry \<Rightarrow> acl_entry list \<Rightarrow> string + acl_entry list" where
  "check_entry e seen =
     (if en_perms e AND NOT 7 \<noteq> 0 then Inl ''invalid ACL permission bits''
      else bindr
        (if en_tag e \<in> {user_object, group_object, mask_entry, other_entry} then
           (if en_id e \<noteq> undefined_id \<or> count_tag (en_tag e) seen \<noteq> 0 then Inl ''duplicate or identified ACL base entry'' else Inr ())
         else if en_tag e \<in> {named_user, named_group} then
           (if en_id e = undefined_id \<or> en_tag e = last_tag seen \<and> en_id e \<le> last_id seen
            then Inl ''invalid or duplicate named ACL ID'' else Inr ())
         else Inl ''unknown ACL tag'') (\<lambda>_.
        if en_tag e < last_tag seen then Inl ''noncanonical ACL order'' else Inr (seen @ [e])))"

definition complete_acl :: "acl_entry list \<Rightarrow> bool" where
  "complete_acl es \<longleftrightarrow> count_tag user_object es = 1 \<and> count_tag group_object es = 1 \<and> count_tag other_entry es = 1 \<and>
     (count_tag named_user es > 0 \<or> count_tag named_group es > 0 \<longrightarrow> count_tag mask_entry es = 1)"

definition acl_entries :: "bytes \<Rightarrow> acl_entry list" where
  "acl_entries raw = map (\<lambda>i. get_entry (take 8 (drop (4 + 8 * i) raw))) [0..<(length raw - 4) div 8]"

definition decode_acl :: "bytes \<Rightarrow> string + acl_entry list" where
  "decode_acl raw =
     (if length raw < 4 \<or> (length raw - 4) mod 8 \<noteq> 0 \<or> length raw > 4 + 8 * 128 \<or> get32 (take 4 raw) \<noteq> 2
      then Inl ''unsupported POSIX access ACL encoding''
      else bindr (foldr_res check_entry (acl_entries raw) []) (\<lambda>es.
        if \<not> complete_acl es then Inl ''incomplete POSIX access ACL'' else Inr es))"

section \<open>The access check\<close>

definition mask_of :: "acl_entry list \<Rightarrow> 16 word" where
  "mask_of es = foldl (\<lambda>m e. if en_tag e = mask_entry then en_perms e else m) 7 es"

definition other_of :: "acl_entry list \<Rightarrow> 16 word" where
  "other_of es = foldl (\<lambda>m e. if en_tag e = other_entry then en_perms e else m) 0 es"

definition covers :: "16 word \<Rightarrow> 16 word \<Rightarrow> bool" where
  "covers perms requested \<longleftrightarrow> perms AND requested = requested"

definition group_entry :: "32 word \<Rightarrow> 32 word set \<Rightarrow> acl_entry \<Rightarrow> bool" where
  "group_entry grp groups e \<longleftrightarrow> en_tag e = group_object \<and> grp \<in> groups \<or> en_tag e = named_group \<and> en_id e \<in> groups"

definition allowed :: "acl_entry list \<Rightarrow> 32 word \<Rightarrow> 32 word \<Rightarrow> 32 word \<Rightarrow> 32 word set \<Rightarrow> 16 word \<Rightarrow> bool" where
  "allowed es owner grp actor groups requested \<longleftrightarrow> requested = 0 \<or>
     (case find (\<lambda>e. en_tag e = user_object \<and> actor = owner \<or> en_tag e = named_user \<and> en_id e = actor) es of
        Some e \<Rightarrow> (if en_tag e = user_object then covers (en_perms e) requested
          else covers (en_perms e AND mask_of es) requested)
      | None \<Rightarrow>
          list_ex (\<lambda>e. group_entry grp groups e \<and> covers (en_perms e AND mask_of es) requested) es \<or>
          \<not> list_ex (group_entry grp groups) es \<and> covers (other_of es) requested)"

section \<open>Granting read\<close>

text \<open>The three permission bits of a class in a file mode.\<close>

definition mode_bits :: "nat \<Rightarrow> 32 word \<Rightarrow> 16 word" where
  "mode_bits shift mode = ucast (drop_bit shift mode) AND 7"

definition base_acl :: "32 word \<Rightarrow> acl_entry list" where
  "base_acl mode = [\<lparr>en_tag = user_object, en_perms = mode_bits 6 mode, en_id = undefined_id\<rparr>,
     \<lparr>en_tag = group_object, en_perms = mode_bits 3 mode, en_id = undefined_id\<rparr>,
     \<lparr>en_tag = other_entry, en_perms = mode_bits 0 mode, en_id = undefined_id\<rparr>]"

definition starting_acl :: "bytes \<Rightarrow> 32 word \<Rightarrow> string + acl_entry list" where
  "starting_acl raw mode = (if raw = [] then Inr (base_acl mode) else decode_acl raw)"

definition mode_error :: "32 word \<Rightarrow> acl_entry \<Rightarrow> string option" where
  "mode_error mode e =
     (if en_tag e = user_object \<and> en_perms e \<noteq> mode_bits 6 mode then Some ''ACL owner differs from file mode''
      else if en_tag e = other_entry \<and> en_perms e \<noteq> mode_bits 0 mode then Some ''ACL other differs from file mode''
      else if en_tag e = mask_entry \<and> en_perms e \<noteq> mode_bits 3 mode then Some ''ACL mask differs from file mode''
      else None)"

definition has_mask :: "acl_entry list \<Rightarrow> bool" where
  "has_mask es \<longleftrightarrow> list_ex (\<lambda>e. en_tag e = mask_entry) es"

definition check_mode :: "32 word \<Rightarrow> acl_entry list \<Rightarrow> string + unit" where
  "check_mode mode es = (case filter (\<lambda>e. mode_error mode e \<noteq> None) es of
      e # _ \<Rightarrow> Inl (the (mode_error mode e))
    | [] \<Rightarrow> if \<not> has_mask es \<and> list_ex (\<lambda>e. en_tag e = group_object \<and> en_perms e \<noteq> mode_bits 3 mode) es
        then Inl ''ACL group differs from file mode'' else Inr ())"

definition prior_rights :: "acl_entry list \<Rightarrow> 32 word \<Rightarrow> 32 word \<Rightarrow> 32 word \<Rightarrow> 32 word set \<Rightarrow> 16 word" where
  "prior_rights es owner grp actor groups =
     foldl (\<lambda>prior p. if allowed es owner grp actor groups p then prior OR p else prior) 0 [1, 2, 4]"

definition update_entry :: "16 word \<Rightarrow> 16 word \<Rightarrow> 32 word \<Rightarrow> 16 word \<Rightarrow> acl_entry \<Rightarrow> acl_entry" where
  "update_entry old_mask new_mask actor wanted e = e\<lparr>en_perms :=
     (if en_tag e = named_user \<and> en_id e = actor then wanted
      else if en_tag e = mask_entry then new_mask
      else if en_tag e \<in> {named_user, group_object, named_group} then en_perms e AND old_mask
      else en_perms e)\<rparr>"

definition entry_key :: "acl_entry \<Rightarrow> nat" where
  "entry_key e = unat (en_tag e) * 2 ^ 32 + unat (en_id e)"

definition granted_entries :: "acl_entry list \<Rightarrow> 16 word \<Rightarrow> 32 word \<Rightarrow> 16 word \<Rightarrow> acl_entry list" where
  "granted_entries es old_mask actor wanted = (let new_mask = old_mask OR wanted in
     map (update_entry old_mask new_mask actor wanted) es @
     (if list_ex (\<lambda>e. en_tag e = named_user \<and> en_id e = actor) es then []
      else [\<lparr>en_tag = named_user, en_perms = wanted, en_id = actor\<rparr>]) @
     (if has_mask es then [] else [\<lparr>en_tag = mask_entry, en_perms = new_mask, en_id = undefined_id\<rparr>]))"

definition grant_read :: "bytes \<Rightarrow> 32 word \<Rightarrow> 32 word \<Rightarrow> 32 word \<Rightarrow> 32 word \<Rightarrow> 32 word list \<Rightarrow> string + bytes" where
  "grant_read raw mode owner grp actor groups =
     (if actor = 0 \<or> actor = undefined_id \<or> actor = owner
      then Inl ''read grant needs a non-root actor different from the file owner''
      else if mode AND 0xE00 \<noteq> 0 then Inl ''special permission bits need a separate access policy''
      else bindr (starting_acl raw mode) (\<lambda>es.
        bindr (check_mode mode es) (\<lambda>_.
        if length groups > 4096 then Inl ''actor group inventory exceeds bound''
        else if undefined_id \<in> set groups then Inl ''invalid actor group''
        else let prior = prior_rights es owner grp actor (set groups) in
          if (prior AND 3 = 3) \<noteq> allowed es owner grp actor (set groups) 3
          then Inl ''actor group rights cannot be preserved by one named read entry''
          else let gs = granted_entries es (mode_bits 3 mode) actor (prior OR 4) in
            if length gs > 128 then Inl ''ACL exceeds 128 entries''
            else let out = encode_acl (sort_key entry_key gs) in
              bindr (decode_acl out) (\<lambda>_. Inr out))))"

section \<open>The state of a file\<close>

record file_identity =
  id_generation :: string
  id_size :: "64 word"
  id_modified :: string
  id_changed :: string
  id_links :: "32 word"
  id_mode :: "16 word"

record access_state =
  as_file :: file_identity
  as_uid :: "32 word"
  as_gid :: "32 word"
  as_acl :: bytes

text \<open>The access list of a state is its bytes; that its text is their canonical hexadecimal form is not modelled.\<close>

definition acl_bytes :: "access_state \<Rightarrow> string + bytes" where
  "acl_bytes s = (if length (as_acl s) > 4 + 8 * 128 then Inl ''ACL exceeds bound''
     else if as_acl s = [] then Inr [] else bindr (decode_acl (as_acl s)) (\<lambda>_. Inr (as_acl s)))"

definition desired_read :: "access_state \<Rightarrow> 32 word \<Rightarrow> 32 word list \<Rightarrow> string + bytes" where
  "desired_read s actor groups = bindr (acl_bytes s) (\<lambda>raw.
     grant_read raw (ucast (id_mode (as_file s))) (as_uid s) (as_gid s) actor groups)"

definition restore_acl :: "access_state \<Rightarrow> string + bytes" where
  "restore_acl s = bindr (acl_bytes s) (\<lambda>raw.
     Inr (if raw \<noteq> [] then raw else encode_acl (base_acl (ucast (id_mode (as_file s))))))"

definition wanted_mode :: "acl_entry list \<Rightarrow> 16 word \<Rightarrow> 16 word" where
  "wanted_mode es mode = foldl (\<lambda>m e.
     if en_tag e = user_object then m OR push_bit 6 (en_perms e)
     else if en_tag e = group_object then (if has_mask es then m else m OR push_bit 3 (en_perms e))
     else if en_tag e = mask_entry then m OR push_bit 3 (en_perms e)
     else if en_tag e = other_entry then m OR en_perms e else m) (mode AND NOT 0x1FF) es"

definition matches_access :: "access_state \<Rightarrow> access_state \<Rightarrow> bytes \<Rightarrow> bool" where
  "matches_access current original desired \<longleftrightarrow> (case (decode_acl desired, acl_bytes current) of
     (Inr es, Inr raw) \<Rightarrow>
       (if length es = 3 then raw = [] \<or> raw = desired else raw = desired) \<and>
       id_generation (as_file current) = id_generation (as_file original) \<and> id_size (as_file current) = id_size (as_file original) \<and>
       id_modified (as_file current) = id_modified (as_file original) \<and>
       id_mode (as_file current) = wanted_mode es (id_mode (as_file original)) \<and>
       as_uid current = as_uid original \<and> as_gid current = as_gid original
   | _ \<Rightarrow> False)"

end
