(* ===== verification/Helper.thy ===== *)
theory Helper
  imports Network_Profile Recovery File_Access
begin

text \<open>
  What the privileged helper accepts (\<^verbatim>\<open>internal/helper/authorization.go\<close>, \<^verbatim>\<open>network.go\<close>,
  \<^verbatim>\<open>auxiliary.go\<close>): a signed request for one operation, the administrator's policy, and the
  checks of a request against the policy, the kernel's peer and the clock. The canonical bytes that
  are signed, the digest of a binding and the Ed25519 check are fields of \<open>helper_env\<close>.
\<close>

section \<open>Requests and policy\<close>

record volume_mapping =
  mv_vm :: string
  mv_vm_print :: string
  mv_target :: string
  mv_pool :: string
  mv_pool_print :: string
  mv_name :: string
  mv_key :: string
  mv_path :: string

record access_request =
  xa_mapping :: volume_mapping
  xa_relative :: string
  xa_before :: bytes
  xa_groups :: "32 word list"
  xa_original :: string

record aux_file =
  xf_generation :: string
  xf_size :: "64 word"
  xf_modified :: string
  xf_changed :: string
  xf_links :: "32 word"
  xf_mode :: "16 word"
  xf_uid :: "32 word"
  xf_gid :: "32 word"
  xf_acl :: string
  xf_selinux :: string

record aux_root =
  xr_id :: string
  xr_path :: string
  xr_state :: aux_file

record aux_directory =
  xd_path :: string
  xd_state :: aux_file

record aux_member =
  xm_id :: string
  xm_kind :: string
  xm_path :: string
  xm_state :: aux_file

text \<open>A nil slice is \<open>None\<close>.\<close>

record aux_inventory =
  xi_version :: int
  xi_resource :: resource_key
  xi_print :: string
  xi_layout :: state_layout
  xi_root :: aux_root
  xi_directories :: "aux_directory list option"
  xi_members :: "aux_member list option"
  xi_total :: "64 word"
  xi_lock :: "aux_member option"

record aux_request =
  xq_version :: int
  xq_print :: string
  xq_expected :: "aux_inventory option"

record network_request =
  xn_version :: int
  xn_def :: network_def

record helper_request =
  hq_api :: string
  hq_actor :: "32 word"
  hq_operation :: string
  hq_resource :: string
  hq_root :: string
  hq_plan :: string
  hq_job :: string
  hq_expires :: int
  hq_key :: string
  hq_signature :: string
  hq_mode :: string
  hq_access :: "access_request option"
  hq_aux :: "aux_request option"
  hq_network :: "network_request option"

record network_permission =
  np_actor :: "32 word"
  np_key :: string
  np_resource :: string

record aux_permission =
  xp_actor :: "32 word"
  xp_key :: string
  xp_resource :: string
  xp_root :: string
  xp_uid :: "32 word"
  xp_gid :: "32 word"
  xp_bytes :: "64 word"
  xp_members :: "32 word"
  xp_capture :: bool

text \<open>A key missing in a Go map reads as the empty text.\<close>

record helper_policy =
  py_api :: string
  py_keys :: "string \<Rightarrow> string"
  py_roots :: "string \<Rightarrow> string"
  py_actors :: "32 word list"
  py_aux :: "aux_permission list"
  py_networks :: "network_permission list"
  py_protected :: "network_permission list"

record helper_env =
  he_canonical :: "helper_request \<Rightarrow> go_error + bytes"
  he_verify :: "bytes \<Rightarrow> bytes \<Rightarrow> bytes \<Rightarrow> bool"
  he_aux_binding :: "32 word \<times> string \<times> string \<times> string \<times> string \<times> string \<times> string \<times> aux_request option \<Rightarrow> go_error + string"
  he_access_binding :: "32 word \<times> string \<times> string \<times> string \<times> string \<times> string \<times> string \<times> access_request option \<Rightarrow> go_error + string"
  he_state :: "bytes \<Rightarrow> access_state option"

abbreviation plain :: "string \<Rightarrow> go_error + 'a" where
  "plain msg \<equiv> Inl (Plain msg)"

section \<open>Identities, digests and paths\<close>

definition hex_value :: "char \<Rightarrow> nat" where
  "hex_value c = (let n = of_char c in if n < 58 then n - 48 else if n < 71 then n - 55 else n - 87)"

text \<open>\<^verbatim>\<open>hex.DecodeString\<close>.\<close>

fun hex_pairs :: "string \<Rightarrow> bytes option" where
  "hex_pairs [] = Some []"
| "hex_pairs [c] = None"
| "hex_pairs (a # b # r) = (if hex_char a \<and> hex_char b
     then map_option ((#) (char_of (16 * hex_value a + hex_value b))) (hex_pairs r) else None)"

definition aux_id :: "string \<Rightarrow> bool" where
  "aux_id s \<longleftrightarrow> uuid_pattern s \<and> s \<noteq> ''00000000-0000-0000-0000-000000000000''"

definition aux_digest :: "string \<Rightarrow> bool" where
  "aux_digest s \<longleftrightarrow> length s = 64 \<and> list_all lower_hex s"

definition aux_absolute :: "string \<Rightarrow> bool" where
  "aux_absolute s \<longleftrightarrow> s \<noteq> ''/'' \<and> length s \<le> 4096 \<and> path_absolute s \<and> path_clean s = s \<and> CHR 92 \<notin> set s \<and> runes_ok printable s"

section \<open>Authority over networks\<close>

definition network_operation :: "int \<Rightarrow> string" where
  "network_operation v = (if v = 1 then ''network.ipv6-filter'' else if v = 2 then ''network.policy-filter'' else [])"

definition apply_modes :: "string list" where
  "apply_modes = [''check'', ''apply'', ''observe'']"

definition exact_network :: "helper_request \<Rightarrow> network_request \<Rightarrow> bool" where
  "exact_network r n \<longleftrightarrow> network_operation (xn_version n) \<noteq> [] \<and> hq_operation r = network_operation (xn_version n) \<and>
     policy_version (xn_def n) = xn_version n \<and> hq_access r = None \<and> hq_aux r = None \<and> hq_root r = [] \<and>
     hq_mode r \<in> set apply_modes \<and> nd_uuid (xn_def n) = hq_resource r \<and> validate_network (xn_def n) = Inr ()"

definition network_grants :: "helper_policy \<Rightarrow> int \<Rightarrow> network_permission list" where
  "network_grants p v = (if v = 2 then py_protected p else py_networks p)"

definition authorize_network :: "helper_request \<Rightarrow> helper_policy \<Rightarrow> go_error + unit" where
  "authorize_network r p = (case hq_network r of
      None \<Rightarrow> plain ''exact typed network policy request required''
    | Some n \<Rightarrow>
        if \<not> exact_network r n then plain ''exact typed network policy request required''
        else if \<not> list_ex (\<lambda>g. np_actor g = hq_actor r \<and> np_key g = hq_key r \<and> np_resource g = hq_resource r) (network_grants p (xn_version n))
        then plain ''network policy requires explicit administrator approval for this policy family, actor, key and network UUID''
        else Inr ())"

section \<open>Authority over auxiliary state\<close>

definition max_members :: "32 word" where
  "max_members = 128"

definition max_payload :: "64 word" where
  "max_payload = 255 * 2 ^ 20"

definition selects :: "helper_request \<Rightarrow> aux_permission \<Rightarrow> bool" where
  "selects r g \<longleftrightarrow> xp_actor g = hq_actor r \<and> xp_key g = hq_key r \<and> xp_resource g = hq_resource r \<and> xp_root g = hq_root r"

definition bounded_permission :: "aux_permission \<Rightarrow> bool" where
  "bounded_permission g \<longleftrightarrow> xp_actor g \<noteq> 0 \<and> xp_uid g \<noteq> undefined_id \<and> xp_gid g \<noteq> undefined_id \<and> xp_bytes g \<noteq> 0 \<and>
     xp_bytes g \<le> max_payload \<and> xp_members g \<noteq> 0 \<and> xp_members g \<le> max_members \<and> aux_id (xp_resource g)"

definition aux_policy :: "helper_request \<Rightarrow> helper_policy \<Rightarrow> go_error + aux_permission" where
  "aux_policy r p =
     (if length (py_aux p) > 1024 then plain ''auxiliary permission inventory exceeds bound''
      else case filter (selects r) (py_aux p) of
        [g] \<Rightarrow>
          if \<not> bounded_permission g \<or> \<not> aux_absolute (py_roots p (hq_root r))
          then plain ''one explicit bounded VM/key/actor/root auxiliary permission required''
          else if hq_mode r \<noteq> ''inspect'' \<and> \<not> xp_capture g then plain ''administrator has not authorized auxiliary capture''
          else Inr g
      | _ \<Rightarrow> plain ''one explicit bounded VM/key/actor/root auxiliary permission required'')"

definition vm_key :: "string \<Rightarrow> resource_key" where
  "vm_key u = \<lparr>provider_id = ''libvirt'', connection_id = ''qemu:///system'', key_kind = ''vm'', key_uuid = u\<rparr>"

definition exact_inventory :: "helper_request \<Rightarrow> helper_policy \<Rightarrow> aux_request \<Rightarrow> aux_inventory \<Rightarrow> bool" where
  "exact_inventory r p q i \<longleftrightarrow> xi_version i = 1 \<and> xi_resource i = vm_key (hq_resource r) \<and> xi_print i = xq_print q \<and>
     sy_vm (xi_layout i) = hq_resource r \<and> xr_id (xi_root i) = hq_root r \<and> xr_path (xi_root i) = py_roots p (hq_root r) \<and>
     xi_members i \<noteq> None \<and> xi_directories i \<noteq> None"

definition aux_mode :: "helper_request \<Rightarrow> helper_policy \<Rightarrow> aux_request \<Rightarrow> go_error + unit" where
  "aux_mode r p q =
     (if hq_mode r = ''inspect'' then
        (if xq_expected q \<noteq> None then plain ''inspection cannot carry caller-selected source metadata'' else Inr ())
      else if hq_mode r \<in> {''capture'', ''observe''} then
        (case xq_expected q of
           None \<Rightarrow> plain ''capture requires the exact native inventory and approved root mapping''
         | Some i \<Rightarrow> if exact_inventory r p q i then Inr () else plain ''capture requires the exact native inventory and approved root mapping'')
      else plain ''explicit auxiliary inspect/capture/observe mode required'')"

text \<open>The sizes of the members are added up within the bound, so that the sum cannot wrap around.\<close>

fun add_sizes :: "64 word \<Rightarrow> aux_member list \<Rightarrow> 64 word \<Rightarrow> 64 word option" where
  "add_sizes bound [] sum_so_far = Some sum_so_far"
| "add_sizes bound (m # ms) sum_so_far =
     (if xf_size (xm_state m) > bound - sum_so_far then None
      else add_sizes bound ms (sum_so_far + xf_size (xm_state m)))"

definition inventory_bounds :: "aux_permission \<Rightarrow> aux_inventory \<Rightarrow> go_error + unit" where
  "inventory_bounds g i =
     (if items (xi_members i) = [] \<or> length (items (xi_members i)) > unat (xp_members g) \<or> length (items (xi_directories i)) > 128 \<or>
         xi_total i > xp_bytes g
      then plain ''auxiliary inventory exceeds administrator bounds''
      else case add_sizes (xp_bytes g) (items (xi_members i)) 0 of
        None \<Rightarrow> plain ''auxiliary member sizes exceed administrator bound''
      | Some n \<Rightarrow> if n \<noteq> xi_total i then plain ''auxiliary declared total differs from complete member sizes'' else Inr ())"

definition authorize_aux :: "helper_request \<Rightarrow> helper_policy \<Rightarrow> go_error + unit" where
  "authorize_aux r p = (case hq_aux r of
      None \<Rightarrow> plain ''versioned native auxiliary identity and fingerprint required''
    | Some q \<Rightarrow>
        if hq_access r \<noteq> None \<or> xq_version q \<noteq> 1 \<or> \<not> aux_id (hq_resource r) \<or> \<not> aux_digest (xq_print q)
        then plain ''versioned native auxiliary identity and fingerprint required''
        else bindr (aux_mode r p q) (\<lambda>_. bindr (aux_policy r p) (\<lambda>g.
          case xq_expected q of None \<Rightarrow> Inr () | Some i \<Rightarrow> inventory_bounds g i)))"

section \<open>Authority over volumes\<close>

fun ascending :: "32 word list \<Rightarrow> bool" where
  "ascending (a # b # r) \<longleftrightarrow> a < b \<and> ascending (b # r)"
| "ascending _ \<longleftrightarrow> True"

definition authorize_access :: "helper_request \<Rightarrow> go_error + unit" where
  "authorize_access r = (case hq_access r of
      None \<Rightarrow> plain ''typed access request and explicit mode required''
    | Some a \<Rightarrow>
        if hq_network r \<noteq> None \<or> hq_aux r \<noteq> None \<or> hq_mode r \<notin> set apply_modes
        then plain ''typed access request and explicit mode required''
        else if mv_vm (xa_mapping a) \<noteq> hq_resource r \<or> \<not> helper_uuid (mv_pool (xa_mapping a)) then plain ''native VM/pool identity differs''
        else if hq_operation r = ''storage.grant-read'' \<and> xa_original a \<noteq> [] then plain ''grant cannot reference another grant''
        else if hq_operation r = ''storage.revoke-read'' \<and> (\<not> helper_uuid (xa_original a) \<or> xa_original a = hq_job r)
        then plain ''revoke requires a distinct original grant job''
        else if xa_groups a = [] \<or> length (xa_groups a) > 4096 then plain ''bounded actual peer groups required''
        else if undefined_id \<in> set (xa_groups a) \<or> \<not> ascending (xa_groups a) then plain ''canonical peer group inventory required''
        else Inr ())"

section \<open>The whole check\<close>

definition signed_bytes :: "helper_env \<Rightarrow> helper_request \<Rightarrow> go_error + bytes" where
  "signed_bytes env r = he_canonical env (r\<lparr>hq_signature := []\<rparr>)"

definition network_operations :: "string list" where
  "network_operations = [''network.ipv6-filter'', ''network.policy-filter'']"

definition authorize_operation :: "helper_request \<Rightarrow> helper_policy \<Rightarrow> go_error + unit" where
  "authorize_operation r p =
     (if hq_operation r \<in> set network_operations then authorize_network r p
      else if hq_operation r = ''state.auxiliary'' then
        (if hq_network r \<noteq> None then plain ''auxiliary operation cannot carry network authority'' else authorize_aux r p)
      else if hq_operation r = ''storage.prepare-directory'' then
        (if hq_mode r \<noteq> [] \<or> hq_access r \<noteq> None \<or> hq_aux r \<noteq> None \<or> hq_network r \<noteq> None
         then plain ''legacy directory operation cannot carry access authority'' else Inr ())
      else if hq_operation r \<in> {''storage.grant-read'', ''storage.revoke-read''} then authorize_access r
      else plain ''helper operation not implemented or allowlisted'')"

text \<open>Fifteen minutes in nanoseconds.\<close>

definition grant_limit :: int where
  "grant_limit = 15 * 60 * 1000000000"

definition check_signature :: "helper_env \<Rightarrow> helper_request \<Rightarrow> helper_policy \<Rightarrow> go_error + unit" where
  "check_signature env r p = (case hex_pairs (py_keys p (hq_key r)) of
      None \<Rightarrow> plain ''untrusted grant signing key''
    | Some pub \<Rightarrow>
        if length pub \<noteq> 32 then plain ''untrusted grant signing key''
        else (case hex_pairs (hq_signature r) of
            None \<Rightarrow> plain ''encoding/hex: invalid signature text''
          | Some sig \<Rightarrow> bindr (signed_bytes env r) (\<lambda>b.
              if \<not> he_verify env pub b sig then plain ''grant signature invalid'' else Inr ())))"

definition authorize_request :: "helper_env \<Rightarrow> 32 word \<Rightarrow> helper_request \<Rightarrow> helper_policy \<Rightarrow> int \<Rightarrow> go_error + unit" where
  "authorize_request env peer r p now =
     (if hq_api r \<noteq> ''virmill/v1'' \<or> py_api p \<noteq> ''virmill/v1'' then plain ''unsupported helper contract''
      else if hq_actor r \<noteq> peer \<or> peer = 0 then plain ''grant actor differs from kernel peer''
      else if peer \<notin> set (py_actors p) then plain ''peer not allowed by administrator policy''
      else bindr (authorize_operation r p) (\<lambda>_.
        if \<not> (hq_operation r = ''state.auxiliary'' \<and> aux_id (hq_resource r)) \<and> \<not> helper_uuid (hq_resource r) \<or> \<not> helper_uuid (hq_job r)
        then plain ''resource/job must be stable UUIDs''
        else if (case hex_pairs (hq_plan r) of None \<Rightarrow> True | Some b \<Rightarrow> length b \<noteq> 32) then plain ''invalid plan digest''
        else if \<not> now < hq_expires r \<or> hq_expires r - now > grant_limit then plain ''grant expired or duration exceeds limit''
        else if hq_operation r \<notin> set network_operations \<and> py_roots p (hq_root r) = [] then plain ''unapproved storage root''
        else check_signature env r p))"

section \<open>The binding of an auxiliary operation and its inspection\<close>

definition aux_binding :: "helper_env \<Rightarrow> helper_request \<Rightarrow> go_error + string" where
  "aux_binding env r = he_aux_binding env (hq_actor r, hq_operation r, hq_resource r, hq_root r, hq_plan r, hq_job r, hq_key r, hq_aux r)"

record aux_artifact =
  xt_format :: string
  xt_size :: "64 word"
  xt_sha256 :: string
  xt_inventory :: string
  xt_members :: "(string \<times> string) list"

record aux_response =
  xs_version :: int
  xs_job :: string
  xs_binding :: string
  xs_stage :: string
  xs_inventory :: "aux_inventory option"
  xs_artifact :: "aux_artifact option"

definition inspection_invalid :: "go_error + 'a" where
  "inspection_invalid = failr ''RECOVERY_REQUIRED'' ''helper inventory does not prove the requested metadata observation''"

definition inspected_inventory :: "helper_request \<Rightarrow> aux_request \<Rightarrow> aux_inventory \<Rightarrow> bool" where
  "inspected_inventory r q i \<longleftrightarrow> xi_version i = 1 \<and> xi_resource i = vm_key (hq_resource r) \<and> xi_print i = xq_print q \<and>
     sy_vm (xi_layout i) = hq_resource r \<and> xr_id (xi_root i) = hq_root r \<and> aux_absolute (xr_path (xi_root i)) \<and>
     xi_directories i \<noteq> None \<and> xi_members i \<noteq> None \<and> length (items (xi_directories i)) \<le> 128 \<and> items (xi_members i) \<noteq> [] \<and>
     length (items (xi_members i)) \<le> 128 \<and> xi_total i \<le> max_payload"

definition validate_inspection :: "helper_env \<Rightarrow> helper_request \<Rightarrow> aux_response option \<Rightarrow> go_error + unit" where
  "validate_inspection env r response = (case (hq_aux r, response) of
      (Some q, Some s) \<Rightarrow>
        if hq_operation r \<noteq> ''state.auxiliary'' \<or> hq_mode r \<noteq> ''inspect'' \<or> hq_access r \<noteq> None \<or> xq_version q \<noteq> 1 \<or> xq_expected q \<noteq> None
        then inspection_invalid
        else bindr (aux_binding env r) (\<lambda>binding. (case xs_inventory s of
            None \<Rightarrow> inspection_invalid
          | Some i \<Rightarrow>
              if xs_version s \<noteq> 1 \<or> xs_job s \<noteq> hq_job r \<or> xs_binding s \<noteq> binding \<or> xs_stage s \<noteq> ''inspected'' \<or> xs_artifact s \<noteq> None \<or>
                 \<not> inspected_inventory r q i
              then inspection_invalid
              else if add_sizes max_payload (items (xi_members i)) 0 \<noteq> Some (xi_total i) then inspection_invalid else Inr ()))
    | _ \<Rightarrow> inspection_invalid)"

end
