(* ===== verification/Helper_Access.thy ===== *)
theory Helper_Access
  imports Helper
begin

text \<open>
  The helper's change of one access list (\<^verbatim>\<open>internal/helper/access_linux.go\<close>, and \<^verbatim>\<open>SetACL\<close> of
  \<^verbatim>\<open>backend/fileaccess/file_linux.go\<close>): a grant of read access derived from the reviewed state,
  its revocation from the root-owned records of the grant, the intent published before the one
  write, and the observation of a job whose outcome is unknown. The system calls and the native
  observer are \<open>access_calls\<close>; everything else that happens to the file meanwhile is its \<open>drift\<close>.
\<close>

section \<open>Records of the journal\<close>

record access_result =
  zr_version :: int
  zr_job :: string
  zr_binding :: string
  zr_complete :: bool
  zr_state :: access_state
  zr_acl :: bytes

record access_intent =
  zi_version :: int
  zi_binding :: string
  zi_request :: helper_request
  zi_acl :: bytes

text \<open>
  A record file is its decoded content or the error reading it. Access lists are bytes; that
  their text is canonical hexadecimal belongs to the decoding.
\<close>

type_synonym 'a record_files = "string \<rightharpoonup> (go_error + 'a)"

record access_world =
  aw_file :: access_state
  aw_intents :: "access_intent record_files"
  aw_results :: "access_result record_files"

text \<open>Publication is exclusive; it may fail before, while, or after the file is written.\<close>

datatype publication = Refused go_error | Torn go_error | Unsynced go_error | Durable

definition publish :: "publication \<Rightarrow> string \<Rightarrow> 'a \<Rightarrow> 'a record_files \<Rightarrow> 'a record_files \<times> go_error option" where
  "publish out name value m =
     (if m name \<noteq> None then (m, Some (Plain ''file exists''))
      else case out of
        Refused e \<Rightarrow> (m, Some e)
      | Torn e \<Rightarrow> (m(name \<mapsto> Inl (Plain ''unexpected end of JSON input'')), Some e)
      | Unsynced e \<Rightarrow> (m(name \<mapsto> Inr value), Some e)
      | Durable \<Rightarrow> (m(name \<mapsto> Inr value), None))"

definition read_record :: "'a record_files \<Rightarrow> string \<Rightarrow> go_error + 'a" where
  "read_record m name = (case m name of None \<Rightarrow> plain ''file does not exist'' | Some x \<Rightarrow> x)"

record access_calls =
  ac_journal :: "go_error option"
  ac_native :: "nat \<Rightarrow> go_error + volume_mapping"
  ac_open :: "go_error option"
  ac_snap :: "nat \<Rightarrow> go_error option"
  ac_path :: "nat \<Rightarrow> go_error + access_state"
  ac_ctx :: "go_error option"
  ac_drift :: "nat \<Rightarrow> access_state \<Rightarrow> access_state"
  ac_set :: "go_error option"
  ac_kernel :: "access_state \<Rightarrow> bytes \<Rightarrow> access_state"
  ac_sync :: "go_error option"
  ac_intent :: publication
  ac_result :: publication

definition ok_or :: "go_error option \<Rightarrow> go_error + unit" where
  "ok_or e = (case e of None \<Rightarrow> Inr () | Some x \<Rightarrow> Inl x)"

section \<open>The selected file\<close>

text \<open>\<^verbatim>\<open>managedName\<close>: the machine a managed volume is named after.\<close>

definition volume_suffix :: "string \<Rightarrow> bool" where
  "volume_suffix s \<longleftrightarrow> list_ex (\<lambda>(kind, extension).
     length s = length kind + 3 + length extension \<and> take (length kind) s = kind \<and>
     list_all is_digit (take 3 (drop (length kind) s)) \<and> drop (length kind + 3) s = extension)
     [(''disk-'', ''.qcow2''), (''media-'', ''.iso'')]"

definition managed_volume :: "string \<Rightarrow> string option" where
  "managed_volume s = (case cut_prefix ''virmill-'' s of
      None \<Rightarrow> None
    | Some r \<Rightarrow> if length r > 36 \<and> list_all (\<lambda>c. lower_hex c \<or> c = CHR ''-'') (take 36 r) \<and> r ! 36 = CHR ''-'' \<and> volume_suffix (drop 37 r)
        then Some (take 36 r) else None)"

definition access_path :: "helper_request \<Rightarrow> helper_policy \<Rightarrow> go_error + string" where
  "access_path r p = (case hq_access r of
      None \<Rightarrow> plain ''typed access request required''
    | Some a \<Rightarrow>
        let root = py_roots p (hq_root r); m = xa_mapping a in
        if \<not> path_absolute root \<or> path_clean root \<noteq> root \<or> root = ''/'' \<or> xa_relative a = ''.'' \<or> \<not> path_local (xa_relative a) \<or>
           path_clean (xa_relative a) \<noteq> xa_relative a
        then plain ''canonical approved root and relative volume path required''
        else if managed_volume (mv_name m) \<noteq> Some (hq_resource r) \<or> path_base (xa_relative a) \<noteq> mv_name m \<or>
           path_join root (xa_relative a) \<noteq> mv_path m
        then plain ''selected path is not the exact Virmill VM volume''
        else if mv_key m = [] \<or> mv_target m = [] \<or> length (mv_target m) > 32 \<or> length (mv_path m) > 4096
        then plain ''bounded native volume identity required''
        else if \<not> aux_digest (mv_vm_print m) \<or> \<not> aux_digest (mv_pool_print m) then plain ''exact native fingerprints required''
        else Inr root)"

section \<open>What is bound and reviewed\<close>

definition access_binding :: "helper_env \<Rightarrow> helper_request \<Rightarrow> go_error + string" where
  "access_binding env r =
     he_access_binding env (hq_actor r, hq_operation r, hq_resource r, hq_root r, hq_plan r, hq_job r, hq_key r, hq_access r)"

definition access_before :: "helper_env \<Rightarrow> helper_request \<Rightarrow> go_error + access_state" where
  "access_before env r = (case hq_access r of
      None \<Rightarrow> plain ''typed access request required''
    | Some a \<Rightarrow> (case he_state env (xa_before a) of None \<Rightarrow> plain ''invalid JSON'' | Some s \<Rightarrow> Inr s))"

definition native_check :: "access_calls \<Rightarrow> nat \<Rightarrow> access_request \<Rightarrow> go_error + unit" where
  "native_check c k a = bindr (ac_native c k) (\<lambda>m.
     if m \<noteq> xa_mapping a then failr ''STALE_PLAN'' ''native stopped VM or managed volume mapping changed'' else Inr ())"

definition verify_path :: "access_calls \<Rightarrow> nat \<Rightarrow> access_state \<Rightarrow> go_error + unit" where
  "verify_path c k expected = bindr (ac_path c k) (\<lambda>s.
     if s \<noteq> expected then failr ''RECOVERY_REQUIRED'' ''volume path no longer resolves to the observed metadata generation'' else Inr ())"

definition lift_error :: "string + 'a \<Rightarrow> go_error + 'a" where
  "lift_error x = (case x of Inl m \<Rightarrow> Inl (Plain m) | Inr a \<Rightarrow> Inr a)"

section \<open>The access list to write\<close>

definition granted_read :: "access_state \<Rightarrow> helper_request \<Rightarrow> access_request \<Rightarrow> go_error + bytes" where
  "granted_read before r a = lift_error (desired_read before (hq_actor r) (xa_groups a))"

text \<open>The original grant, as its root-owned intent records it, is of the same volume and actor.\<close>

definition same_grant :: "helper_request \<Rightarrow> access_request \<Rightarrow> access_intent \<Rightarrow> string \<Rightarrow> bool" where
  "same_grant r a original binding \<longleftrightarrow> (let o' = zi_request original in
     zi_version original = 1 \<and> zi_binding original = binding \<and> hq_operation o' = ''storage.grant-read'' \<and> hq_mode o' = ''apply'' \<and>
     hq_job o' = xa_original a \<and> hq_actor o' = hq_actor r \<and> hq_root o' = hq_root r \<and> hq_resource o' = hq_resource r \<and>
     (case hq_access o' of None \<Rightarrow> False | Some b \<Rightarrow> xa_mapping b = xa_mapping a \<and> xa_relative b = xa_relative a))"

definition revoked_acl :: "helper_env \<Rightarrow> access_world \<Rightarrow> access_state \<Rightarrow> helper_request \<Rightarrow> access_request \<Rightarrow> go_error + bytes" where
  "revoked_acl env w before r a =
     bindr (read_record (aw_intents w) (xa_original a)) (\<lambda>original.
     bindr (access_binding env (zi_request original)) (\<lambda>binding.
     if \<not> same_grant r a original binding then plain ''original root-owned grant identity differs''
     else bindr (read_record (aw_results w) (hq_job (zi_request original))) (\<lambda>result.
       if zr_version result \<noteq> 1 \<or> \<not> zr_complete result \<or> zr_binding result \<noteq> binding \<or> zr_job result \<noteq> hq_job (zi_request original)
       then failr ''STALE_PLAN'' ''successful grant proof or exact granted metadata changed; refuse inferred restoration''
       else bindr (access_before env (zi_request original)) (\<lambda>old.
         bindr (granted_read old (zi_request original) (the (hq_access (zi_request original)))) (\<lambda>desired.
           if desired \<noteq> zi_acl original \<or> zr_acl result \<noteq> zi_acl original \<or> \<not> matches_access (zr_state result) old desired \<or>
              \<not> matches_access before old desired
           then plain ''original grant metadata is inconsistent''
           else lift_error (restore_acl old))))))"

definition wanted_acl :: "helper_env \<Rightarrow> access_world \<Rightarrow> access_state \<Rightarrow> helper_request \<Rightarrow> access_request \<Rightarrow> go_error + bytes" where
  "wanted_acl env w before r a =
     (if hq_operation r = ''storage.grant-read'' then granted_read before r a
      else if hq_operation r \<noteq> ''storage.revoke-read'' then plain ''access action not allowlisted''
      else revoked_acl env w before r a)"

section \<open>The write\<close>

text \<open>\<^verbatim>\<open>SetACL\<close> on the held descriptor: the file as it is now, after the write, after what came then.\<close>

definition set_acl :: "access_calls \<Rightarrow> access_state \<Rightarrow> access_state \<Rightarrow> bytes \<Rightarrow> access_state \<times> (go_error + access_state)" where
  "set_acl c file expected raw = (case decode_acl raw of
      Inl m \<Rightarrow> (file, plain m)
    | Inr es \<Rightarrow> (case ac_snap c 1 of
        Some e \<Rightarrow> (file, Inl e)
      | None \<Rightarrow>
          if file \<noteq> expected then (file, failr ''STALE_PLAN'' ''managed-file access metadata changed before effect'')
          else (case ac_set c of
            Some e \<Rightarrow> (file, Inl e)
          | None \<Rightarrow>
              let written = ac_kernel c file raw in
              (case ac_sync c of
                 Some e \<Rightarrow> (written, Inl e)
               | None \<Rightarrow>
                   let after = ac_drift c 1 written in
                   (case ac_snap c 2 of
                      Some e \<Rightarrow> (after, Inl e)
                    | None \<Rightarrow>
                        if id_generation (as_file after) \<noteq> id_generation (as_file expected) \<or> id_size (as_file after) \<noteq> id_size (as_file expected) \<or>
                           id_modified (as_file after) \<noteq> id_modified (as_file expected) \<or> as_uid after \<noteq> as_uid expected \<or>
                           as_gid after \<noteq> as_gid expected
                        then (after, failr ''RECOVERY_REQUIRED'' ''file content identity or ownership changed during ACL mutation'')
                        else (after, Inr after))))))"

definition completed_result :: "helper_request \<Rightarrow> string \<Rightarrow> access_state \<Rightarrow> bytes \<Rightarrow> access_result" where
  "completed_result r binding s acl = \<lparr>zr_version = 1, zr_job = hq_job r, zr_binding = binding, zr_complete = True, zr_state = s, zr_acl = acl\<rparr>"

definition publish_result :: "access_calls \<Rightarrow> access_world \<Rightarrow> helper_request \<Rightarrow> access_result \<Rightarrow> access_world \<times> (go_error + access_result)" where
  "publish_result c w r result = (case publish (ac_result c) (hq_job r) result (aw_results w) of
      (m, e) \<Rightarrow> (w\<lparr>aw_results := m\<rparr>, case e of None \<Rightarrow> Inr result | Some x \<Rightarrow> Inl x))"

definition apply_access ::
  "access_calls \<Rightarrow> access_world \<Rightarrow> helper_request \<Rightarrow> access_request \<Rightarrow> access_state \<Rightarrow> string \<Rightarrow> bytes \<Rightarrow> access_world \<times> (go_error + access_result)" where
  "apply_access c w r a before binding desired =
     (case publish (ac_intent c) (hq_job r) \<lparr>zi_version = 1, zi_binding = binding, zi_request = r, zi_acl = desired\<rparr> (aw_intents w) of
        (m, Some e) \<Rightarrow> (w\<lparr>aw_intents := m\<rparr>, Inl e)
      | (m, None) \<Rightarrow> (case set_acl c (ac_drift c 0 (aw_file w)) before desired of
          (file, res) \<Rightarrow>
            let w1 = w\<lparr>aw_intents := m, aw_file := file\<rparr> in
            (case bindr res (\<lambda>after.
                 if \<not> matches_access after before desired then failr ''RECOVERY_REQUIRED'' ''helper access postcondition differs''
                 else bindr (native_check c 2 a) (\<lambda>_. bindr (verify_path c 1 after) (\<lambda>_. Inr after))) of
               Inl e \<Rightarrow> (w1, Inl e)
             | Inr after \<Rightarrow> publish_result c w1 r (completed_result r binding after desired))))"

text \<open>The observation of a job: nothing is written but a completion record that is missing.\<close>

definition observe_access ::
  "helper_env \<Rightarrow> access_calls \<Rightarrow> access_world \<Rightarrow> helper_request \<Rightarrow> access_request \<Rightarrow> access_state \<Rightarrow> string \<Rightarrow> access_world \<times> (go_error + access_result)" where
  "observe_access env c w r a before binding =
     (case bindr (read_record (aw_intents w) (hq_job r)) (\<lambda>saved.
        bindr (access_binding env (zi_request saved)) (\<lambda>saved_binding.
        if zi_version saved \<noteq> 1 \<or> zi_binding saved \<noteq> binding \<or> saved_binding \<noteq> binding \<or> hq_mode (zi_request saved) \<noteq> ''apply''
        then plain ''durable helper intent differs from accepted operation''
        else if \<not> matches_access (aw_file w) before (zi_acl saved)
        then failr ''RECOVERY_REQUIRED'' ''intended access state not observed; no mutation replayed''
        else bindr (native_check c 1 a) (\<lambda>_. bindr (verify_path c 0 (aw_file w)) (\<lambda>_. Inr (zi_acl saved))))) of
        Inl e \<Rightarrow> (w, Inl e)
      | Inr desired \<Rightarrow>
          let result = completed_result r binding (aw_file w) desired in
          (case aw_results w (hq_job r) of
             None \<Rightarrow> publish_result c w r result
           | Some (Inl e) \<Rightarrow> (w, Inl e)
           | Some (Inr saved) \<Rightarrow>
               if saved \<noteq> result then (w, failr ''RECOVERY_REQUIRED'' ''completed helper receipt differs from current metadata'')
               else (w, Inr result)))"

section \<open>One request\<close>

definition access_opened ::
  "helper_env \<Rightarrow> access_calls \<Rightarrow> helper_request \<Rightarrow> access_request \<Rightarrow> helper_policy \<Rightarrow> go_error + access_state \<times> string" where
  "access_opened env c r a p =
     bindr (ok_or (ac_journal c)) (\<lambda>_. bindr (access_path r p) (\<lambda>_. bindr (access_before env r) (\<lambda>before.
     bindr (access_binding env r) (\<lambda>binding. bindr (native_check c 0 a) (\<lambda>_. bindr (ok_or (ac_open c)) (\<lambda>_.
     bindr (ok_or (ac_snap c 0)) (\<lambda>_. Inr (before, binding))))))))"

definition execute_access ::
  "helper_env \<Rightarrow> access_calls \<Rightarrow> access_world \<Rightarrow> helper_request \<Rightarrow> helper_policy \<Rightarrow> 32 word list \<Rightarrow> access_world \<times> (go_error + access_result)" where
  "execute_access env c w r p groups = (case hq_access r of
      None \<Rightarrow> (w, plain ''signed groups differ from kernel socket peer credentials'')
    | Some a \<Rightarrow>
        if groups \<noteq> xa_groups a then (w, plain ''signed groups differ from kernel socket peer credentials'')
        else (case access_opened env c r a p of
          Inl e \<Rightarrow> (w, Inl e)
        | Inr (before, binding) \<Rightarrow>
            if hq_mode r = ''observe'' then observe_access env c w r a before binding
            else if aw_file w \<noteq> before then (w, failr ''STALE_PLAN'' ''access metadata changed since review'')
            else (case bindr (wanted_acl env w before r a) (\<lambda>desired. bindr (native_check c 1 a) (\<lambda>_.
                     bindr (verify_path c 0 (aw_file w)) (\<lambda>_. Inr desired))) of
                Inl e \<Rightarrow> (w, Inl e)
              | Inr desired \<Rightarrow>
                  if hq_mode r = ''check''
                  then (w, Inr ((completed_result r binding (aw_file w) desired)\<lparr>zr_complete := False\<rparr>))
                  else if hq_mode r \<noteq> ''apply'' then (w, plain ''explicit helper mode required'')
                  else (case ac_ctx c of
                    Some e \<Rightarrow> (w, Inl e)
                  | None \<Rightarrow> apply_access c w r a before binding desired))))"

end
