(* ===== verification/File_Access_Laws.thy ===== *)
theory File_Access_Laws
  imports File_Access "HOL-Library.Multiset"
begin

text \<open>
  What a read grant does: the list written decodes to the entries computed, the actor gains read
  and keeps what it had, and no access check of anyone else changes.
\<close>

section \<open>The binary form\<close>

lemma length_put [simp]: "length (put16 w) = 2" "length (put32 v) = 4" "length (put_entry e) = 8"
  by (simp_all add: put16_def put32_def put_entry_def)

lemma byte_of: "(of_char (char_of (n :: nat)) :: nat) = n mod 256"
  by simp

lemma get16_put16: "get16 (put16 w @ r) = w"
proof -
  have "unat w mod 256 + 256 * (unat (drop_bit 8 w) mod 256) = unat w"
  proof -
    have "unat (drop_bit 8 w) = unat w div 256" by (simp add: drop_bit_eq_div unat_div)
    moreover have "unat w div 256 < 256" using unsigned_less [of w] by (simp add: div_less_iff_less_mult)
    ultimately show ?thesis by simp
  qed
  then have "get16 (put16 w @ r) = word_of_nat (unat w)" unfolding get16_def put16_def by simp
  then show ?thesis by simp
qed

lemma get32_put32: "get32 (put32 w @ r) = w"
proof -
  let ?n = "unat w"
  have d: "unat (drop_bit 8 w) = ?n div 256" "unat (drop_bit 16 w) = ?n div 256 div 256" "unat (drop_bit 24 w) = ?n div 256 div 256 div 256"
    by (simp_all add: drop_bit_eq_div unat_div div_mult2_eq [symmetric])
  have "?n < 256 * (256 * (256 * 256))" using unsigned_less [of w] by simp
  then have "?n div 256 div 256 div 256 < 256" by (simp add: div_less_iff_less_mult div_mult2_eq [symmetric])
  then have "?n mod 256 + 256 * (?n div 256 mod 256 + 256 * (?n div 256 div 256 mod 256 + 256 * (?n div 256 div 256 div 256 mod 256))) = ?n"
    by simp
  then have "get32 (put32 w @ r) = word_of_nat (unat w)" unfolding get32_def put32_def by (simp add: d numeral_3_eq_3 numeral_2_eq_2)
  then show ?thesis by simp
qed

lemma get_put_entry: "get_entry (put_entry e) = e"
proof -
  have "drop 2 (put16 (en_tag e) @ put16 (en_perms e) @ put32 (en_id e)) = put16 (en_perms e) @ put32 (en_id e)"
    "drop 4 (put16 (en_tag e) @ put16 (en_perms e) @ put32 (en_id e)) = put32 (en_id e) @ []"
    by (simp_all add: drop_append)
  then show ?thesis unfolding get_entry_def put_entry_def by (simp only: get16_put16 get32_put32) simp
qed

lemma chunk: "i < length es \<Longrightarrow> take 8 (drop (8 * i) (concat (map put_entry es))) = put_entry (es ! i)"
proof (induction es arbitrary: i)
  case (Cons e es)
  then show ?case by (cases i) (simp_all add: drop_append)
qed simp

lemma length_encode: "length (encode_acl es) = 4 + 8 * length es"
  by (induction es) (simp_all add: encode_acl_def)

text \<open>Decoding what was encoded reads back the entries; only their shape is checked.\<close>

lemma acl_entries_encode: "acl_entries (encode_acl es) = es"
proof (rule nth_equalityI)
  show "length (acl_entries (encode_acl es)) = length es" by (simp add: acl_entries_def length_encode)
  fix i assume "i < length (acl_entries (encode_acl es))"
  then have i: "i < length es" by (simp add: acl_entries_def length_encode)
  have "drop (4 + 8 * i) (encode_acl es) = drop (8 * i) (concat (map put_entry es))"
    by (simp add: encode_acl_def drop_append)
  then show "acl_entries (encode_acl es) ! i = es ! i"
    using i chunk [OF i] by (simp add: acl_entries_def length_encode get_put_entry)
qed

lemma checked_entries: "foldr_res check_entry es seen = Inr t \<Longrightarrow> t = seen @ es"
proof (induction es arbitrary: seen)
  case (Cons e es)
  then obtain s where s: "check_entry e seen = Inr s" "foldr_res check_entry es s = Inr t" by auto
  then have "s = seen @ [e]" by (auto simp: check_entry_def split: if_splits)
  then show ?case using Cons.IH [OF s(2)] by simp
qed simp

lemma decode_encode: "decode_acl (encode_acl es) = Inr t \<Longrightarrow> t = es"
  by (auto simp: decode_acl_def acl_entries_encode split: if_splits dest: checked_entries)

section \<open>Canonical lists\<close>

text \<open>What the loop of the decoder enforces.\<close>

definition entry_ok :: "acl_entry \<Rightarrow> bool" where
  "entry_ok e \<longleftrightarrow> en_perms e AND NOT 7 = 0 \<and>
     (en_tag e \<in> {user_object, group_object, mask_entry, other_entry} \<and> en_id e = undefined_id \<or>
      en_tag e \<in> {named_user, named_group} \<and> en_id e \<noteq> undefined_id)"

definition canonical :: "acl_entry list \<Rightarrow> bool" where
  "canonical es \<longleftrightarrow> list_all entry_ok es \<and> sorted_wrt (\<lambda>a b. en_tag a < en_tag b \<or> en_tag a = en_tag b \<and> en_id a < en_id b) es"

definition key_less :: "acl_entry \<Rightarrow> acl_entry \<Rightarrow> bool" where
  "key_less a b \<longleftrightarrow> en_tag a < en_tag b \<or> en_tag a = en_tag b \<and> en_id a < en_id b"

lemma canonical_snoc:
  assumes c: "canonical seen" and s: "check_entry e seen = Inr t"
  shows "canonical (seen @ [e])"
proof -
  have ok: "entry_ok e" and order: "last_tag seen \<le> en_tag e"
    and base: "en_tag e \<in> {user_object, group_object, mask_entry, other_entry} \<Longrightarrow> count_tag (en_tag e) seen = 0"
    and named: "en_tag e \<in> {named_user, named_group} \<Longrightarrow> en_tag e = last_tag seen \<Longrightarrow> last_id seen < en_id e"
    using s by (auto simp: check_entry_def entry_ok_def split: if_splits)
  have "key_less a e" if a: "a \<in> set seen" for a
  proof -
    obtain ys b where seen: "seen = ys @ [b]" using a by (cases seen rule: rev_cases) auto
    have ab: "a = b \<or> key_less a b" using a c by (auto simp: seen canonical_def key_less_def sorted_wrt_append)
    have be: "en_tag b < en_tag e \<or> en_tag b = en_tag e \<and> en_id b < en_id e"
    proof (cases "en_tag b = en_tag e")
      case True
      then have "count_tag (en_tag e) seen \<noteq> 0" by (simp add: seen count_tag_def)
      then have "en_tag e \<notin> {user_object, group_object, mask_entry, other_entry}" using base by (metis (no_types))
      then have "en_tag e \<in> {named_user, named_group}" using ok unfolding entry_ok_def by blast
      moreover have t: "en_tag e = last_tag seen" using True by (simp add: seen last_tag_def)
      ultimately have "last_id seen < en_id e" by (rule named)
      then show ?thesis using True by (simp add: seen last_id_def)
    qed (use order in \<open>auto simp: seen last_tag_def\<close>)
    show ?thesis using ab be by (auto simp: key_less_def)
  qed
  then show ?thesis using c ok by (auto simp: canonical_def sorted_wrt_append key_less_def)
qed

lemma canonical_checked: "canonical seen \<Longrightarrow> foldr_res check_entry es seen = Inr t \<Longrightarrow> canonical (seen @ es)"
proof (induction es arbitrary: seen)
  case (Cons e es)
  then obtain s where s: "check_entry e seen = Inr s" "foldr_res check_entry es s = Inr t" by auto
  have "s = seen @ [e]" using s(1) by (auto simp: check_entry_def split: if_splits)
  then show ?case using Cons.IH [of s] canonical_snoc [OF Cons.prems(1) s(1)] s(2) by simp
qed simp

definition acl_ok :: "acl_entry list \<Rightarrow> bool" where
  "acl_ok es \<longleftrightarrow> canonical es \<and> complete_acl es"

lemma decode_ok: "decode_acl raw = Inr es \<Longrightarrow> acl_ok es"
  using canonical_checked [of "[]"] checked_entries [of _ "[]"]
  by (fastforce simp: decode_acl_def acl_ok_def canonical_def split: if_splits)

lemma mode_bits_small: "mode_bits n m AND NOT 7 = 0"
  by (simp add: mode_bits_def bit_eq_iff bit_simps)

lemma base_ok: "acl_ok (base_acl mode)"
  by (simp add: acl_ok_def canonical_def complete_acl_def count_tag_def base_acl_def entry_ok_def mode_bits_small [simplified])

lemma starting_ok: "starting_acl raw mode = Inr es \<Longrightarrow> acl_ok es"
  using decode_ok base_ok by (auto simp: starting_acl_def split: if_splits)

text \<open>Tag and identity determine an entry; the owner's entry comes first.\<close>

lemma canonical_unique:
  assumes "canonical es" "a \<in> set es" "b \<in> set es" "en_tag a = en_tag b" "en_id a = en_id b"
  shows "a = b"
proof -
  obtain i j where "i < length es" "j < length es" "a = es ! i" "b = es ! j" using assms(2,3) by (metis in_set_conv_nth)
  moreover have "\<not> i < j" if "i < length es" "j < length es" "en_tag (es ! i) = en_tag (es ! j)" "en_id (es ! i) = en_id (es ! j)" for i j
  proof
    assume "i < j"
    then have "key_less (es ! i) (es ! j)"
      using sorted_wrt_nth_less [OF conjunct2 [OF assms(1) [unfolded canonical_def]] _ that(2)] unfolding key_less_def by blast
    then show False using that by (simp add: key_less_def)
  qed
  ultimately show ?thesis using assms(4,5) by (metis linorder_neqE_nat)
qed

lemma base_unique:
  assumes "canonical es" "a \<in> set es" "b \<in> set es" "en_tag a = en_tag b" "en_tag a \<in> {user_object, group_object, mask_entry, other_entry}"
  shows "a = b"
proof (rule canonical_unique [OF assms(1-4)])
  have "entry_ok a" "entry_ok b" using assms(1-3) by (auto simp: canonical_def list_all_iff)
  then show "en_id a = en_id b" using assms(4,5) by (auto simp: entry_ok_def)
qed

lemma count_tag_pos: "0 < count_tag t es \<longleftrightarrow> (\<exists>e \<in> set es. en_tag e = t)"
  by (auto simp: count_tag_def filter_empty_conv)

lemma owner_first: "acl_ok es \<Longrightarrow> \<exists>a r. es = a # r \<and> en_tag a = user_object"
proof -
  assume ok: "acl_ok es"
  then obtain e where e: "e \<in> set es" "en_tag e = user_object" using count_tag_pos [of user_object es] by (auto simp: acl_ok_def complete_acl_def)
  then obtain a r where es: "es = a # r" by (cases es) auto
  have "a = e \<or> en_tag a < 1 \<or> en_tag a = 1" using ok e es by (auto simp: acl_ok_def canonical_def)
  moreover have "entry_ok a" using ok es by (simp add: acl_ok_def canonical_def)
  ultimately show ?thesis using e(2) es by (auto simp: entry_ok_def)
qed

lemma fold_tag_none: "\<forall>e \<in> set es. en_tag e \<noteq> t \<Longrightarrow> foldl (\<lambda>m e. if en_tag e = t then en_perms e else m) d es = d"
  by (induction es arbitrary: d) auto

lemma fold_tag_one:
  "e \<in> set es \<Longrightarrow> en_tag e = t \<Longrightarrow> \<forall>e' \<in> set es. en_tag e' = t \<longrightarrow> e' = e \<Longrightarrow>
   foldl (\<lambda>m e. if en_tag e = t then en_perms e else m) d es = en_perms e"
proof (induction es arbitrary: d)
  case (Cons a es)
  show ?case
  proof (cases "e \<in> set es")
    case True
    then show ?thesis using Cons.IH [OF True Cons.prems(2)] Cons.prems(3) by simp
  next
    case False
    then have "e = a" "\<forall>e \<in> set es. en_tag e \<noteq> t" using Cons.prems by auto
    then show ?thesis using Cons.prems(2) fold_tag_none by simp
  qed
qed simp

lemma mask_of_one: "canonical es \<Longrightarrow> e \<in> set es \<Longrightarrow> en_tag e = mask_entry \<Longrightarrow> mask_of es = en_perms e"
  unfolding mask_of_def by (rule fold_tag_one) (auto intro: base_unique)

lemma mask_of_none: "\<not> has_mask es \<Longrightarrow> mask_of es = 7"
  unfolding mask_of_def by (rule fold_tag_none) (auto simp: has_mask_def list_ex_iff)

lemma other_of_one: "canonical es \<Longrightarrow> e \<in> set es \<Longrightarrow> en_tag e = other_entry \<Longrightarrow> other_of es = en_perms e"
  unfolding other_of_def by (rule fold_tag_one) (auto intro: base_unique)

section \<open>The access check on canonical lists\<close>

text \<open>The check asks, in this order: owner, named user, groups, others; the order of entries no longer matters.\<close>

lemma allowed_cases:
  assumes ok: "acl_ok es" and r: "r \<noteq> 0"
  shows "allowed es owner grp u groups r \<longleftrightarrow>
    (if u = owner then \<exists>e \<in> set es. en_tag e = user_object \<and> covers (en_perms e) r
     else if \<exists>e \<in> set es. en_tag e = named_user \<and> en_id e = u
     then \<exists>e \<in> set es. en_tag e = named_user \<and> en_id e = u \<and> covers (en_perms e AND mask_of es) r
     else (\<exists>e \<in> set es. group_entry grp groups e \<and> covers (en_perms e AND mask_of es) r) \<or>
       (\<forall>e \<in> set es. \<not> group_entry grp groups e) \<and> covers (other_of es) r)"
proof -
  obtain a rest where es: "es = a # rest" "en_tag a = user_object" using owner_first [OF ok] by blast
  have c: "canonical es" using ok by (simp add: acl_ok_def)
  show ?thesis
  proof (cases "u = owner")
    case True
    have "(\<exists>e \<in> set es. en_tag e = user_object \<and> covers (en_perms e) r) \<longleftrightarrow> covers (en_perms a) r"
      using base_unique [OF c] es by (metis insertCI list.set_intros(1))
    then show ?thesis using True es r by (simp add: allowed_def)
  next
    case False
    let ?P = "\<lambda>e. en_tag e = named_user \<and> en_id e = u"
    have P: "(\<lambda>e. en_tag e = user_object \<and> u = owner \<or> ?P e) = ?P" using False by auto
    have uniq: "x \<in> set es \<Longrightarrow> y \<in> set es \<Longrightarrow> ?P x \<Longrightarrow> ?P y \<Longrightarrow> x = y" for x y
      using canonical_unique [OF c] by auto
    show ?thesis
    proof (cases "find ?P es")
      case None
      then have no: "\<not> (\<exists>e \<in> set es. ?P e)" by (auto simp: find_None_iff)
      show ?thesis unfolding allowed_def P None if_not_P [OF False] if_not_P [OF no] list_ex_iff using r by auto
    next
      case (Some e)
      then have e: "e \<in> set es" "?P e" unfolding find_Some_iff by (metis nth_mem, blast)
      then have ex: "\<exists>x \<in> set es. ?P x" by blast
      have "(\<exists>x \<in> set es. en_tag x = named_user \<and> en_id x = u \<and> covers (en_perms x AND mask_of es) r) \<longleftrightarrow>
          covers (en_perms e AND mask_of es) r" using e uniq by metis
      then show ?thesis unfolding allowed_def P Some if_not_P [OF False] if_P [OF ex] using r e by simp
    qed
  qed
qed

lemma covers_trans: "covers p r \<Longrightarrow> covers r q \<Longrightarrow> covers p q"
  unfolding covers_def by (metis and.assoc)

lemma covers_zero [simp]: "covers p 0"
  by (simp add: covers_def)

lemma covers_bits: "covers p r \<longleftrightarrow> (\<forall>n. bit r n \<longrightarrow> bit p n)"
  unfolding covers_def by (metis bit_and_iff bit_word_eqI)

lemma allowed_mono: "allowed es owner grp u groups r \<Longrightarrow> covers r q \<Longrightarrow> allowed es owner grp u groups q"
proof -
  assume a: "allowed es owner grp u groups r" and q: "covers r q"
  show ?thesis
  proof (cases "q = 0 \<or> r = 0")
    case True
    then show ?thesis using q by (auto simp: allowed_def covers_def)
  next
    case False
    have "covers p r \<Longrightarrow> covers p q" for p using covers_trans [OF _ q] .
    then have "list_ex (\<lambda>e. group_entry grp groups e \<and> covers (en_perms e AND mask_of es) r) es \<Longrightarrow>
        list_ex (\<lambda>e. group_entry grp groups e \<and> covers (en_perms e AND mask_of es) q) es"
      unfolding list_ex_iff by blast
    then show ?thesis using a False \<open>\<And>p. covers p r \<Longrightarrow> covers p q\<close>
      unfolding allowed_def by (cases "find (\<lambda>e. en_tag e = user_object \<and> u = owner \<or> en_tag e = named_user \<and> en_id e = u) es") auto
  qed
qed

section \<open>What a grant changes\<close>

lemma prior_bit:
  "bit (prior_rights es owner grp actor groups) n \<longleftrightarrow> n < 3 \<and> allowed es owner grp actor groups (push_bit n 1)"
proof -
  let ?a = "allowed es owner grp actor groups"
  have "prior_rights es owner grp actor groups = (if ?a 1 then 1 else 0) OR (if ?a 2 then 2 else 0) OR (if ?a 4 then 4 else 0)"
    by (simp add: prior_rights_def)
  moreover have "bit (1 :: 16 word) n \<longleftrightarrow> n = 0" "bit (2 :: 16 word) n \<longleftrightarrow> n = 1" "bit (4 :: 16 word) n \<longleftrightarrow> n = 2"
    using bit_exp_iff [of 0 n, where 'a = "16 word"] bit_exp_iff [of 1 n, where 'a = "16 word"] bit_exp_iff [of 2 n, where 'a = "16 word"]
    by auto
  ultimately have "bit (prior_rights es owner grp actor groups) n \<longleftrightarrow> n = 0 \<and> ?a 1 \<or> n = 1 \<and> ?a 2 \<or> n = 2 \<and> ?a 4"
    by (simp add: bit_or_iff)
  moreover have "n < 3 \<longleftrightarrow> n = 0 \<or> n = 1 \<or> n = 2" by auto
  ultimately show ?thesis by auto
qed

lemma small_bits: "p AND NOT 7 = 0 \<Longrightarrow> bit p n \<Longrightarrow> n < 3" for p :: "16 word"
proof -
  assume p: "p AND NOT 7 = 0" "bit p n"
  have "(7 :: 16 word) = mask 3" by (simp add: mask_eq_exp_minus_1)
  then have "p AND NOT (mask 3) = 0" using p(1) by simp
  then have "\<not> bit (p AND NOT (mask 3)) n" by (simp only: bit_0_eq bot_apply bot_bool_def not_False_eq_True)
  moreover have "n < 16" using bit_imp_le_length [OF p(2)] by simp
  ultimately show ?thesis using p(2) by (simp only: bit_and_iff bit_not_iff bit_mask_iff possible_bit_word) auto
qed

lemma small_perms: "acl_ok es \<Longrightarrow> e \<in> set es \<Longrightarrow> covers (en_perms e) r \<Longrightarrow> bit r n \<Longrightarrow> n < 3"
  by (rule small_bits [of "en_perms e"]) (auto simp: acl_ok_def canonical_def list_all_iff entry_ok_def covers_bits)

lemma allowed_small: "acl_ok es \<Longrightarrow> allowed es owner grp u groups r \<Longrightarrow> bit r n \<Longrightarrow> n < 3"
proof -
  assume ok: "acl_ok es" and a: "allowed es owner grp u groups r" and b: "bit r n"
  then have r: "r \<noteq> 0" by auto
  have c: "canonical es" using ok by (simp add: acl_ok_def)
  obtain d where d: "d \<in> set es" "en_tag d = other_entry"
    using ok count_tag_pos [of other_entry es] by (auto simp: acl_ok_def complete_acl_def)
  have "\<exists>e \<in> set es. covers (en_perms e) r"
    using a d other_of_one [OF c d] unfolding allowed_cases [OF ok r]
    by (auto split: if_splits simp: covers_bits bit_and_iff)
  then show "n < 3" using small_perms [OF ok _ _ b] by blast
qed

text \<open>Every request granted before is within the rights found bit by bit.\<close>

lemma allowed_prior: "acl_ok es \<Longrightarrow> allowed es owner grp u groups r \<Longrightarrow> covers (prior_rights es owner grp u groups) r"
proof -
  assume ok: "acl_ok es" and a: "allowed es owner grp u groups r"
  have "bit (prior_rights es owner grp u groups) n" if n: "bit r n" for n
  proof -
    have "covers r (push_bit n 1)" using n by (auto simp: covers_bits bit_exp_iff)
    then show ?thesis unfolding prior_bit using allowed_small [OF ok a n] allowed_mono [OF a] by blast
  qed
  then show ?thesis by (simp add: covers_bits)
qed

text \<open>The setting of a grant: an access list that fits the file mode, and the list derived from it.\<close>

definition grants :: "acl_entry list \<Rightarrow> acl_entry list \<Rightarrow> 32 word \<Rightarrow> 32 word \<Rightarrow> 16 word \<Rightarrow> bool" where
  "grants es es' mode actor wanted \<longleftrightarrow> acl_ok es \<and> acl_ok es' \<and> check_mode mode es = Inr () \<and>
     set es' = set (granted_entries es (mode_bits 3 mode) actor wanted)"

lemma group_mask:
  assumes g: "grants es es' mode actor wanted" and e: "e \<in> set es" "en_tag e \<in> {named_user, group_object, named_group}"
  shows "en_perms e AND mask_of es = en_perms e AND mode_bits 3 mode"
proof -
  have ok: "canonical es" "complete_acl es" using g by (auto simp: grants_def acl_ok_def)
  have none: "mode_error mode x = None" if "x \<in> set es" for x
    using g that by (auto simp: grants_def check_mode_def filter_empty_conv split: list.splits)
  show ?thesis
  proof (cases "has_mask es")
    case True
    then obtain m where m: "m \<in> set es" "en_tag m = mask_entry" by (auto simp: has_mask_def list_ex_iff)
    then have "en_perms m = mode_bits 3 mode" using none [OF m(1)] by (auto simp: mode_error_def split: if_splits)
    then show ?thesis using mask_of_one [OF ok(1) m] by simp
  next
    case False
    then have "count_tag mask_entry es = 0" by (auto simp: has_mask_def list_ex_iff count_tag_def filter_empty_conv)
    then have "en_tag e = group_object" using ok(2) e count_tag_pos [of _ es] unfolding complete_acl_def by auto
    then have "en_perms e = mode_bits 3 mode"
      using g False e by (auto simp: grants_def check_mode_def list_ex_iff split: list.splits if_splits)
    moreover have "mode_bits 3 mode AND 7 = mode_bits 3 mode" by (simp add: mode_bits_def)
    ultimately show ?thesis using mask_of_none [OF False] by simp
  qed
qed

lemma granted_ex:
  assumes g: "grants es es' mode actor wanted"
    and new: "\<And>e. en_tag e = named_user \<and> en_id e = actor \<or> en_tag e = mask_entry \<Longrightarrow> \<not> Q e"
  shows "(\<exists>e \<in> set es'. Q e) \<longleftrightarrow> (\<exists>e \<in> set es. Q (update_entry (mode_bits 3 mode) (mode_bits 3 mode OR wanted) actor wanted e))"
proof -
  have "set es' = update_entry (mode_bits 3 mode) (mode_bits 3 mode OR wanted) actor wanted ` set es \<union>
      (if list_ex (\<lambda>e. en_tag e = named_user \<and> en_id e = actor) es then {}
       else {\<lparr>en_tag = named_user, en_perms = wanted, en_id = actor\<rparr>}) \<union>
      (if has_mask es then {} else {\<lparr>en_tag = mask_entry, en_perms = mode_bits 3 mode OR wanted, en_id = undefined_id\<rparr>})"
    using g by (simp add: grants_def granted_entries_def Let_def)
  then show ?thesis using new by (auto split: if_splits)
qed

lemma granted_mask: "grants es es' mode actor wanted \<Longrightarrow> mask_of es' = mode_bits 3 mode OR wanted"
proof -
  assume g: "grants es es' mode actor wanted"
  have "\<exists>e \<in> set es'. en_tag e = mask_entry \<and> en_perms e = mode_bits 3 mode OR wanted"
  proof (cases "has_mask es")
    case True
    then obtain m where "m \<in> set es" "en_tag m = mask_entry" by (auto simp: has_mask_def list_ex_iff)
    then show ?thesis using g
      by (auto simp: grants_def granted_entries_def Let_def update_entry_def intro!: bexI [of _ m])
  next
    case False
    then show ?thesis using g by (simp add: grants_def granted_entries_def Let_def)
  qed
  then show ?thesis using mask_of_one g by (auto simp: grants_def acl_ok_def)
qed

lemma granted_other: "grants es es' mode actor wanted \<Longrightarrow> other_of es' = other_of es"
proof -
  assume g: "grants es es' mode actor wanted"
  then obtain d where d: "d \<in> set es" "en_tag d = other_entry"
    using count_tag_pos [of other_entry es] by (auto simp: grants_def acl_ok_def complete_acl_def)
  have "(\<exists>e \<in> set es'. en_tag e = other_entry \<and> en_perms e = en_perms d) \<longleftrightarrow>
      (\<exists>e \<in> set es. en_tag (update_entry (mode_bits 3 mode) (mode_bits 3 mode OR wanted) actor wanted e) = other_entry \<and>
        en_perms (update_entry (mode_bits 3 mode) (mode_bits 3 mode OR wanted) actor wanted e) = en_perms d)"
    by (rule granted_ex [OF g]) auto
  moreover have "update_entry (mode_bits 3 mode) (mode_bits 3 mode OR wanted) actor wanted d = d" using d(2) by (simp add: update_entry_def)
  ultimately obtain e where "e \<in> set es'" "en_tag e = other_entry" "en_perms e = en_perms d" using d by metis
  then show ?thesis using g d other_of_one by (simp add: grants_def acl_ok_def)
qed

lemma masked_twice: "(p AND m) AND (m OR w) = p AND m" for p m w :: "16 word"
  by (rule bit_word_eqI) (auto simp: bit_and_iff bit_or_iff)

text \<open>Nobody else's rights change.\<close>

lemma granted_elsewhere:
  assumes g: "grants es es' mode actor wanted" and u: "u \<noteq> actor"
  shows "allowed es' owner grp u groups r = allowed es owner grp u groups r"
proof (cases "r = 0")
  case False
  define upd where "upd = update_entry (mode_bits 3 mode) (mode_bits 3 mode OR wanted) actor wanted"
  have ok: "acl_ok es" "acl_ok es'" using g by (auto simp: grants_def)
  have same [simp]: "en_tag (upd e) = en_tag e" "en_id (upd e) = en_id e" "group_entry grp groups (upd e) = group_entry grp groups e" for e
    by (simp_all add: upd_def update_entry_def group_entry_def)
  have perms: "en_perms (upd e) AND (mode_bits 3 mode OR wanted) = en_perms e AND mask_of es"
    if "e \<in> set es" "en_tag e = named_user \<and> en_id e = u \<or> group_entry grp groups e" for e
  proof -
    have "en_tag e \<in> {named_user, group_object, named_group}" "\<not> (en_tag e = named_user \<and> en_id e = actor)"
      using that u by (auto simp: group_entry_def)
    then show ?thesis using group_mask [OF g that(1)] by (auto simp: upd_def update_entry_def masked_twice)
  qed
  have keep: "en_perms (upd e) = en_perms e" if "en_tag e = user_object" for e using that by (simp add: upd_def update_entry_def)
  note ex = granted_ex [OF g, folded upd_def]
  have owner: "(\<exists>e \<in> set es'. en_tag e = user_object \<and> covers (en_perms e) r) \<longleftrightarrow>
      (\<exists>e \<in> set es. en_tag e = user_object \<and> covers (en_perms e) r)"
    by (subst ex) (use keep in auto)
  have named: "(\<exists>e \<in> set es'. en_tag e = named_user \<and> en_id e = u) \<longleftrightarrow> (\<exists>e \<in> set es. en_tag e = named_user \<and> en_id e = u)"
    by (subst ex) (use u in auto)
  have named_perms: "(\<exists>e \<in> set es'. en_tag e = named_user \<and> en_id e = u \<and> covers (en_perms e AND (mode_bits 3 mode OR wanted)) r) \<longleftrightarrow>
      (\<exists>e \<in> set es. en_tag e = named_user \<and> en_id e = u \<and> covers (en_perms e AND mask_of es) r)"
    by (subst ex) (use u perms in auto)
  have group: "(\<exists>e \<in> set es'. group_entry grp groups e) \<longleftrightarrow> (\<exists>e \<in> set es. group_entry grp groups e)"
    by (subst ex) (auto simp: group_entry_def)
  have group_perms: "(\<exists>e \<in> set es'. group_entry grp groups e \<and> covers (en_perms e AND (mode_bits 3 mode OR wanted)) r) \<longleftrightarrow>
      (\<exists>e \<in> set es. group_entry grp groups e \<and> covers (en_perms e AND mask_of es) r)"
    by (subst ex) (use perms in \<open>auto simp: group_entry_def\<close>)
  have no_group: "(\<forall>e \<in> set es'. \<not> group_entry grp groups e) \<longleftrightarrow> (\<forall>e \<in> set es. \<not> group_entry grp groups e)" using group by blast
  show ?thesis
    unfolding allowed_cases [OF ok(1) False] allowed_cases [OF ok(2) False] granted_mask [OF g] granted_other [OF g]
      owner named named_perms group_perms no_group ..
qed (simp add: allowed_def)

text \<open>The actor has exactly the rights wanted.\<close>

lemma granted_actor:
  assumes g: "grants es es' mode actor wanted" and u: "actor \<noteq> owner"
  shows "allowed es' owner grp actor groups r \<longleftrightarrow> covers wanted r"
proof (cases "r = 0")
  case False
  have ok: "acl_ok es'" using g by (simp add: grants_def)
  have "\<exists>e \<in> set es'. en_tag e = named_user \<and> en_id e = actor \<and> en_perms e = wanted"
  proof (cases "list_ex (\<lambda>e. en_tag e = named_user \<and> en_id e = actor) es")
    case True
    then obtain e where "e \<in> set es" "en_tag e = named_user" "en_id e = actor" by (auto simp: list_ex_iff)
    then show ?thesis using g by (auto simp: grants_def granted_entries_def Let_def update_entry_def intro!: bexI [of _ e])
  next
    case no: False
    then show ?thesis using g by (simp add: grants_def granted_entries_def Let_def)
  qed
  then obtain e where e: "e \<in> set es'" "en_tag e = named_user" "en_id e = actor" "en_perms e = wanted" by blast
  have uniq: "x = e" if "x \<in> set es'" "en_tag x = named_user" "en_id x = actor" for x
    using canonical_unique [of es' x e] ok that e by (simp add: acl_ok_def)
  have some: "\<exists>x \<in> set es'. en_tag x = named_user \<and> en_id x = actor" using e by blast
  have "(\<exists>x \<in> set es'. en_tag x = named_user \<and> en_id x = actor \<and> covers (en_perms x AND mask_of es') r) \<longleftrightarrow>
      covers (wanted AND mask_of es') r" using e uniq by metis
  moreover have "wanted AND (mode_bits 3 mode OR wanted) = wanted" by (rule bit_word_eqI) (auto simp: bit_and_iff bit_or_iff)
  ultimately show ?thesis unfolding allowed_cases [OF ok False] if_not_P [OF u] if_P [OF some] granted_mask [OF g] by simp
qed (simp add: allowed_def)

lemma covers_read: "covers (p OR 4) (r AND 3) \<longleftrightarrow> covers p (r AND 3)" for p r :: "16 word"
proof -
  have "\<not> bit (4 :: 16 word) n" if "bit (r AND 3) n" for n
  proof -
    have "(r AND 3) AND NOT (mask 2) = 0" by (simp add: mask_eq_exp_minus_1 bit_eq_iff bit_simps)
    then have "n < 2" using that by (metis bit_and_iff bit_not_iff bit_mask_iff bit_0_eq bot_apply bot_bool_def bit_imp_possible_bit)
    then show ?thesis using bit_exp_iff [of 2 n, where 'a = "16 word"] by auto
  qed
  then show ?thesis by (auto simp: covers_bits bit_or_iff)
qed

lemma low_bits: "r AND 3 = 0 \<or> r AND 3 = 1 \<or> r AND 3 = 2 \<or> r AND 3 = 3" for r :: "16 word"
proof -
  have "r AND 3 = r mod 4"
    using take_bit_eq_mask [of 2 r] take_bit_eq_mod [of 2 r] by (simp add: mask_eq_exp_minus_1)
  then have "uint (r AND 3) = uint r mod 4" by (simp add: uint_mod)
  moreover have "k mod 4 = 0 \<or> k mod 4 = 1 \<or> k mod 4 = 2 \<or> k mod 4 = 3" for k :: int by presburger
  ultimately have "uint (r AND 3) = 0 \<or> uint (r AND 3) = 1 \<or> uint (r AND 3) = 2 \<or> uint (r AND 3) = 3" by metis
  then show ?thesis by (simp add: word_uint_eq_iff)
qed

text \<open>The rights found bit by bit agree with the check on every request without read.\<close>

lemma prior_without_read:
  assumes ok: "acl_ok es" and both: "(prior_rights es owner grp u groups AND 3 = 3) = allowed es owner grp u groups 3"
  shows "covers (prior_rights es owner grp u groups) (r AND 3) \<longleftrightarrow> allowed es owner grp u groups (r AND 3)"
proof
  assume c: "covers (prior_rights es owner grp u groups) (r AND 3)"
  have bits: "bit (1 :: 16 word) 0" "bit (2 :: 16 word) 1"
    using bit_exp_iff [of 0 0, where 'a = "16 word"] bit_exp_iff [of 1 1, where 'a = "16 word"] by auto
  consider "r AND 3 = 0" | "r AND 3 = 1" | "r AND 3 = 2" | "r AND 3 = 3" using low_bits [of r] by blast
  then show "allowed es owner grp u groups (r AND 3)"
  proof cases
    case 1
    then show ?thesis by (simp add: allowed_def)
  next
    case 2
    then have "bit (prior_rights es owner grp u groups) 0" using c bits(1) unfolding covers_bits by metis
    then show ?thesis using 2 by (simp add: prior_bit)
  next
    case 3
    then have "bit (prior_rights es owner grp u groups) 1" using c bits(2) unfolding covers_bits by metis
    then show ?thesis using 3 by (simp add: prior_bit)
  next
    case 4
    then show ?thesis using c both by (simp add: covers_def)
  qed
qed (rule allowed_prior [OF ok])

text \<open>
  C39. When a read grant is derived, the list it yields is a canonical access list under which the actor
  may read, keeps every right it had, and gains no request that does not include read; and for every
  other user, whatever its groups, and every request, the access check answers as it did before.
\<close>

theorem read_grant_exact:
  "case grant_read raw mode owner grp actor groups of
     Inl e \<Rightarrow> True
   | Inr out \<Rightarrow> \<exists>es es'. starting_acl raw mode = Inr es \<and> decode_acl out = Inr es' \<and> out = encode_acl es' \<and>
       allowed es' owner grp actor (set groups) 4 \<and>
       (\<forall>r. allowed es owner grp actor (set groups) r \<le> allowed es' owner grp actor (set groups) r) \<and>
       (\<forall>r. allowed es' owner grp actor (set groups) (r AND 3) = allowed es owner grp actor (set groups) (r AND 3)) \<and>
       (\<forall>u gs r. u = actor \<or> allowed es' owner grp u gs r = allowed es owner grp u gs r)"
proof (cases "grant_read raw mode owner grp actor groups")
  case (Inr out)
  then obtain es where es: "starting_acl raw mode = Inr es" "check_mode mode es = Inr ()" "actor \<noteq> owner"
    and both: "(prior_rights es owner grp actor (set groups) AND 3 = 3) = allowed es owner grp actor (set groups) 3"
    and out: "out = encode_acl (sort_key entry_key (granted_entries es (mode_bits 3 mode) actor (prior_rights es owner grp actor (set groups) OR 4)))"
    and dec: "\<exists>es'. decode_acl out = Inr es'"
    by (auto simp: grant_read_def Let_def split: if_splits)
  define wanted where "wanted = prior_rights es owner grp actor (set groups) OR 4"
  obtain es' where es': "decode_acl out = Inr es'" using dec by blast
  then have eq: "es' = sort_key entry_key (granted_entries es (mode_bits 3 mode) actor wanted)"
    using decode_encode out unfolding wanted_def by blast
  have g: "grants es es' mode actor wanted"
    using starting_ok [OF es(1)] decode_ok [OF es'] es(2) by (simp add: grants_def eq)
  have act: "allowed es' owner grp actor (set groups) r = covers wanted r" for r by (rule granted_actor [OF g es(3)])
  have outeq: "out = encode_acl es'" using out unfolding eq wanted_def .
  have "allowed es' owner grp actor (set groups) 4" unfolding act wanted_def by (auto simp: covers_bits bit_or_iff)
  moreover have "allowed es owner grp actor (set groups) r \<le> allowed es' owner grp actor (set groups) r" for r
    using allowed_prior [OF starting_ok [OF es(1)], of owner grp actor "set groups" r]
    unfolding act wanted_def by (auto simp: covers_bits bit_or_iff)
  moreover have "allowed es' owner grp actor (set groups) (r AND 3) = allowed es owner grp actor (set groups) (r AND 3)" for r
    unfolding act wanted_def covers_read by (rule prior_without_read [OF starting_ok [OF es(1)] both])
  ultimately show ?thesis unfolding Inr sum.case using es(1) es' outeq granted_elsewhere [OF g] by blast
qed simp

end
