(* ===== verification/Helper_Undo.thy ===== *)
theory Helper_Undo
  imports Helper_Laws
begin

text \<open>
  What a revocation restores: the file mode that goes with an access list, and that the list a
  completed revocation leaves means what the file's list meant before the grant it names.
\<close>

section \<open>The mode that goes with a list\<close>

definition mode_part :: "bool \<Rightarrow> acl_entry \<Rightarrow> 16 word" where
  "mode_part has e =
     (if en_tag e = user_object then push_bit 6 (en_perms e)
      else if en_tag e = group_object then (if has then 0 else push_bit 3 (en_perms e))
      else if en_tag e = mask_entry then push_bit 3 (en_perms e)
      else if en_tag e = other_entry then en_perms e else 0)"

lemma fold_parts: "bit (foldl (\<lambda>m e. m OR f e) m es) n \<longleftrightarrow> bit m n \<or> (\<exists>e \<in> set es. bit (f e) n)" for m :: "16 word"
  by (induction es arbitrary: m) (auto simp: bit_or_iff)

lemma wanted_parts: "wanted_mode es m = foldl (\<lambda>m e. m OR mode_part (has_mask es) e) (m AND NOT 0x1FF) es"
proof -
  have "(\<lambda>m e. if en_tag e = user_object then m OR push_bit 6 (en_perms e)
     else if en_tag e = group_object then (if has_mask es then m else m OR push_bit 3 (en_perms e))
     else if en_tag e = mask_entry then m OR push_bit 3 (en_perms e)
     else if en_tag e = other_entry then m OR en_perms e else m) = (\<lambda>m e. m OR mode_part (has_mask es) e)"
    by (intro ext) (simp add: mode_part_def)
  then show ?thesis unfolding wanted_mode_def by (rule arg_cong)
qed

lemma bit_wanted: "bit (wanted_mode es m) n \<longleftrightarrow> bit (m AND NOT 0x1FF) n \<or> (\<exists>e \<in> set es. bit (mode_part (has_mask es) e) n)"
  unfolding wanted_parts by (rule fold_parts)

lemma nine_bits: "bit (0x1FF :: 16 word) n \<longleftrightarrow> n < 9"
proof -
  have "(0x1FF :: 16 word) = mask 9" by (simp add: mask_eq_exp_minus_1)
  then show ?thesis by (simp only: bit_mask_iff) (auto simp: possible_bit_word)
qed

lemma three_bits: "bit (7 :: 16 word) n \<longleftrightarrow> n < 3"
proof -
  have "(7 :: 16 word) = mask 3" by (simp add: mask_eq_exp_minus_1)
  then show ?thesis by (simp only: bit_mask_iff) (auto simp: possible_bit_word)
qed

lemma bit_mode_bits: "s \<le> 6 \<Longrightarrow> bit (mode_bits s (ucast m)) k \<longleftrightarrow> k < 3 \<and> bit m (s + k)" for m :: "16 word"
  unfolding mode_bits_def bit_and_iff three_bits
  by (auto simp: bit_unsigned_iff bit_drop_bit_eq possible_bit_word dest: bit_imp_le_length)

lemma bit_high: "bit (m AND NOT 0x1FF) n \<longleftrightarrow> bit m n \<and> \<not> n < 9" for m :: "16 word"
  unfolding bit_and_iff bit_not_iff nine_bits by (auto simp: possible_bit_word dest: bit_imp_le_length)

lemma perms_small: "acl_ok es \<Longrightarrow> e \<in> set es \<Longrightarrow> bit (en_perms e) n \<Longrightarrow> n < 3"
  by (rule small_bits [of "en_perms e"]) (auto simp: acl_ok_def canonical_def list_all_iff entry_ok_def)

lemma part_low: "acl_ok es \<Longrightarrow> e \<in> set es \<Longrightarrow> bit (mode_part has e) n \<Longrightarrow> n < 9"
  by (auto simp: mode_part_def bit_push_bit_iff dest!: perms_small split: if_split_asm)

lemma wanted_high: "acl_ok es \<Longrightarrow> wanted_mode es m AND NOT 0x1FF = m AND NOT 0x1FF"
  by (rule bit_word_eqI) (auto simp only: bit_high bit_wanted dest: part_low)

lemma wanted_twice: "acl_ok es \<Longrightarrow> wanted_mode es' (wanted_mode es m) = wanted_mode es' m"
  using wanted_high [of es m] by (simp only: wanted_mode_def [of es' "wanted_mode es m"] wanted_mode_def [of es' m])

lemma check_mode_entries:
  assumes "check_mode mode es = Inr ()" "e \<in> set es"
  shows "mode_error mode e = None" "\<not> has_mask es \<Longrightarrow> en_tag e = group_object \<Longrightarrow> en_perms e = mode_bits 3 mode"
proof -
  have "filter (\<lambda>e. mode_error mode e \<noteq> None) es = []" using assms(1) unfolding check_mode_def by (auto split: list.split_asm)
  then show "mode_error mode e = None" using assms(2) by (auto simp: filter_empty_conv)
  show "en_perms e = mode_bits 3 mode" if "\<not> has_mask es" "en_tag e = group_object"
    using assms that unfolding check_mode_def by (auto simp: list_ex_iff split: list.split_asm if_split_asm)
qed

lemma mode_kept:
  assumes ok: "acl_ok es" and c: "check_mode (ucast m) es = Inr ()"
  shows "wanted_mode es m = m"
proof (rule bit_word_eqI)
  fix n assume n: "n < LENGTH(16)"
  note err = check_mode_entries(1) [OF c] note grp = check_mode_entries(2) [OF c]
  have user: "en_perms e = mode_bits 6 (ucast m)" if "e \<in> set es" "en_tag e = user_object" for e
    using err [OF that(1)] that(2) by (auto simp: mode_error_def split: if_split_asm)
  have other: "en_perms e = mode_bits 0 (ucast m)" if "e \<in> set es" "en_tag e = other_entry" for e
    using err [OF that(1)] that(2) by (auto simp: mode_error_def split: if_split_asm)
  have mask_perms: "en_perms e = mode_bits 3 (ucast m)" if "e \<in> set es" "en_tag e = mask_entry" for e
    using err [OF that(1)] that(2) by (auto simp: mode_error_def split: if_split_asm)
  have part: "bit m n" if "e \<in> set es" "bit (mode_part (has_mask es) e) n" for e
    using that user [OF that(1)] other [OF that(1)] mask_perms [OF that(1)] grp [OF that(1)]
    by (auto simp: mode_part_def bit_push_bit_iff bit_mode_bits split: if_split_asm)
  have tags: "\<exists>e \<in> set es. en_tag e = user_object" "\<exists>e \<in> set es. en_tag e = group_object" "\<exists>e \<in> set es. en_tag e = other_entry"
    using ok by (simp_all add: acl_ok_def complete_acl_def flip: count_tag_pos)
  have mid: "\<exists>e \<in> set es. mode_part (has_mask es) e = push_bit 3 (mode_bits 3 (ucast m))"
  proof (cases "has_mask es")
    case True
    then obtain e where "e \<in> set es" "en_tag e = mask_entry" by (auto simp: has_mask_def list_ex_iff)
    then show ?thesis using mask_perms by (intro bexI [of _ e]) (auto simp: mode_part_def)
  next
    case False
    obtain e where "e \<in> set es" "en_tag e = group_object" using tags(2) by blast
    then show ?thesis using grp False by (intro bexI [of _ e]) (auto simp: mode_part_def)
  qed
  have low: "\<exists>e \<in> set es. bit (mode_part (has_mask es) e) n" if b: "bit m n" "n < 9"
  proof -
    consider "n < 3" | "3 \<le> n" "n < 6" | "6 \<le> n" by linarith
    then show ?thesis
    proof cases
      case 1
      obtain e where "e \<in> set es" "en_tag e = other_entry" using tags(3) by blast
      then show ?thesis using other 1 b by (intro bexI [of _ e]) (auto simp: mode_part_def bit_mode_bits)
    next
      case 2
      obtain e where "e \<in> set es" "mode_part (has_mask es) e = push_bit 3 (mode_bits 3 (ucast m))" using mid by blast
      then show ?thesis using 2 b n by (intro bexI [of _ e]) (auto simp: bit_push_bit_iff bit_mode_bits possible_bit_word)
    next
      case 3
      obtain e where "e \<in> set es" "en_tag e = user_object" using tags(1) by blast
      then show ?thesis using user 3 b n by (intro bexI [of _ e]) (auto simp: mode_part_def bit_push_bit_iff bit_mode_bits possible_bit_word)
    qed
  qed
  show "bit (wanted_mode es m) n \<longleftrightarrow> bit m n"
    unfolding bit_wanted bit_high using part low by blast
qed

section \<open>The list that is restored\<close>

text \<open>Two states grant the same access to the same file.\<close>

definition same_access :: "access_state \<Rightarrow> access_state \<Rightarrow> bool" where
  "same_access s t \<longleftrightarrow>
     id_generation (as_file s) = id_generation (as_file t) \<and> id_size (as_file s) = id_size (as_file t) \<and>
     id_modified (as_file s) = id_modified (as_file t) \<and> id_mode (as_file s) = id_mode (as_file t) \<and>
     as_uid s = as_uid t \<and> as_gid s = as_gid t \<and>
     starting_acl (as_acl s) (ucast (id_mode (as_file s))) = starting_acl (as_acl t) (ucast (id_mode (as_file t)))"

lemma three_is_base:
  assumes ok: "acl_ok es" and c: "check_mode mode es = Inr ()" and len: "length es = 3"
  shows "es = base_acl mode"
proof -
  obtain a b d where es: "es = [a, b, d]" using len by (auto simp: numeral_3_eq_3 length_Suc_conv)
  have tags: "count_tag user_object es = 1" "count_tag group_object es = 1" "count_tag other_entry es = 1"
    using ok by (simp_all add: acl_ok_def complete_acl_def)
  have a: "en_tag a = user_object" using owner_first [OF ok] by (auto simp: es)
  then have "en_tag b = group_object \<and> en_tag d = other_entry \<or> en_tag b = other_entry \<and> en_tag d = group_object"
    using tags(2,3) unfolding es count_tag_def by (simp split: if_split_asm)
  moreover have "\<not> (en_tag b = other_entry \<and> en_tag d = group_object)" using ok by (auto simp: acl_ok_def canonical_def es)
  ultimately have t: "en_tag a = user_object" "en_tag b = group_object" "en_tag d = other_entry" using a by blast+
  have ids: "en_id e = undefined_id" if "e \<in> set es" "en_tag e \<in> {user_object, group_object, other_entry}" for e
  proof -
    have "entry_ok e" using ok that(1) by (simp add: acl_ok_def canonical_def list_all_iff)
    then show ?thesis using that(2) by (auto simp: entry_ok_def)
  qed
  have no_mask: "\<not> has_mask es" by (simp add: has_mask_def es t)
  note err = check_mode_entries(1) [OF c] note grp = check_mode_entries(2) [OF c _ no_mask]
  have "en_perms a = mode_bits 6 mode" using err [of a] by (simp add: es t mode_error_def split: if_split_asm)
  moreover have "en_perms d = mode_bits 0 mode" using err [of d] by (simp add: es t mode_error_def split: if_split_asm)
  moreover have "en_perms b = mode_bits 3 mode" using grp [of b] by (simp add: es t)
  ultimately show ?thesis using ids [of a] ids [of b] ids [of d] t
    by (cases a; cases b; cases d) (simp add: es base_acl_def)
qed

lemma grant_starts: "grant_read raw mode owner grp actor groups = Inr d \<Longrightarrow>
    \<exists>es. starting_acl raw mode = Inr es \<and> check_mode mode es = Inr ()"
  by (auto simp: grant_read_def Let_def split: if_split_asm)

lemma acl_bytes_raw: "acl_bytes s = Inr raw \<Longrightarrow> raw = as_acl s"
  by (auto simp: acl_bytes_def split: if_split_asm)

lemma decode_nil [simp]: "decode_acl [] = Inl ''unsupported POSIX access ACL encoding''"
  by (simp add: decode_acl_def)

lemma restored_list: "restore_acl s = Inr acl \<Longrightarrow> decode_acl acl = Inr es \<Longrightarrow>
    starting_acl (as_acl s) (ucast (id_mode (as_file s))) = Inr es"
  by (auto simp: restore_acl_def starting_acl_def dest!: acl_bytes_raw decode_encode split: if_split_asm)

lemma access_restored:
  assumes r: "restore_acl old = Inr acl" and d: "desired_read old actor groups = Inr desired"
    and m: "matches_access now old desired" and after: "matches_access s now acl"
  shows "same_access s old"
proof -
  define M :: "32 word" where "M = ucast (id_mode (as_file old))"
  obtain ed where ed: "decode_acl desired = Inr ed" and now: "id_mode (as_file now) = wanted_mode ed (id_mode (as_file old))"
    using m by (auto simp: matches_access_def split: sum.split_asm prod.split_asm)
  obtain es where es: "decode_acl acl = Inr es" and mode: "id_mode (as_file s) = wanted_mode es (id_mode (as_file now))"
    and raw: "as_acl s = acl \<or> length es = 3 \<and> as_acl s = []"
    using after by (auto simp: matches_access_def dest: acl_bytes_raw split: sum.split_asm prod.split_asm if_split_asm)
  have start: "starting_acl (as_acl old) M = Inr es" unfolding M_def by (rule restored_list [OF r es])
  obtain b where "acl_bytes old = Inr b" "grant_read b M (as_uid old) (as_gid old) actor groups = Inr desired"
    using d by (auto simp: desired_read_def M_def)
  then have c: "check_mode M es = Inr ()" using grant_starts start acl_bytes_raw by fastforce
  have ok: "acl_ok es" by (rule decode_ok [OF es])
  have same: "id_mode (as_file s) = id_mode (as_file old)"
    using mode now wanted_twice [OF decode_ok [OF ed]] mode_kept [OF ok c [unfolded M_def]] by simp
  have "acl \<noteq> []" using es by (auto simp: decode_acl_def)
  then have "starting_acl (as_acl s) M = Inr es"
    using raw three_is_base [OF ok c] es by (auto simp: starting_acl_def)
  then show ?thesis using m after same start
    by (auto simp: same_access_def M_def matches_access_def split: sum.split_asm prod.split_asm)
qed

section \<open>A grant and its revocation\<close>

lemma lift_error_Inr [simp]: "lift_error x = Inr y \<longleftrightarrow> x = Inr y"
  by (simp add: lift_error_def split: sum.split)

lemma revoked_from:
  assumes "revoked_acl env w now r a = Inr acl"
  shows "\<exists>i old actor groups desired. aw_intents w (xa_original a) = Some (Inr i) \<and> access_before env (zi_request i) = Inr old \<and>
    desired_read old actor groups = Inr desired \<and> matches_access now old desired \<and> restore_acl old = Inr acl"
proof -
  obtain i where i: "read_record (aw_intents w) (xa_original a) = Inr i" using assms by (auto simp: revoked_acl_def)
  then have "aw_intents w (xa_original a) = Some (Inr i)" by (auto simp: read_record_def split: option.split_asm)
  moreover obtain old desired where "access_before env (zi_request i) = Inr old"
      "granted_read old (zi_request i) (the (hq_access (zi_request i))) = Inr desired" "matches_access now old desired" "restore_acl old = Inr acl"
    using assms i by (auto simp: revoked_acl_def split: if_split_asm)
  ultimately show ?thesis unfolding granted_read_def lift_error_Inr by blast
qed

lemma applied_run:
  assumes run: "execute_access env c w r p groups = (w', Inr z)" and m: "hq_mode r = ''apply''"
  shows "\<exists>a binding acl. hq_access r = Some a \<and> access_before env r = Inr (aw_file w) \<and> wanted_acl env w (aw_file w) r a = Inr acl \<and>
    aw_intents w' (hq_job r) = Some (Inr (own_intent r binding acl)) \<and> zr_state z = aw_file w' \<and> matches_access (aw_file w') (aw_file w) acl"
  using run
proof (cases rule: execute_access_cases)
  case (applied a before binding acl)
  then show ?thesis using apply_access_ok [of c w r a before binding acl w' z] opened_bound [of env c r a p before binding]
    by (auto simp: completed_result_def)
qed (use m in auto)

end
