(* ===== verification/Helper_Demo.thy ===== *)
theory Helper_Demo
  imports Helper_Undo
begin

text \<open>
  One volume, one grant and its revocation, executed: the concrete inputs at which the properties of
  the privileged helper are applied.
\<close>

section \<open>The file, the requests and the kernel\<close>

definition demo_file :: access_state where
  "demo_file = \<lparr>as_file = \<lparr>id_generation = ''g1'', id_size = 4096, id_modified = ''m1'', id_changed = ''c1'', id_links = 1, id_mode = 0x81A0\<rparr>,
     as_uid = 64055, as_gid = 108, as_acl = []\<rparr>"

definition demo_mapping :: volume_mapping where
  "demo_mapping = \<lparr>mv_vm = ''4a7c0f52-9d1e-4b8f-8a3b-1c2d3e4f5a6b'', mv_vm_print = replicate 64 CHR ''a'', mv_target = ''vda'',
     mv_pool = ''7b1d2c3e-4f5a-4b6c-9d7e-8f9a0b1c2d3e'', mv_pool_print = replicate 64 CHR ''b'',
     mv_name = ''virmill-4a7c0f52-9d1e-4b8f-8a3b-1c2d3e4f5a6b-disk-000.qcow2'', mv_key = ''key'',
     mv_path = ''/pool/virmill-4a7c0f52-9d1e-4b8f-8a3b-1c2d3e4f5a6b-disk-000.qcow2''\<rparr>"

definition demo_access :: "string \<Rightarrow> string \<Rightarrow> access_request" where
  "demo_access reviewed original = \<lparr>xa_mapping = demo_mapping, xa_relative = mv_name demo_mapping, xa_before = reviewed,
     xa_groups = [1000], xa_original = original\<rparr>"

definition demo_request :: "string \<Rightarrow> string \<Rightarrow> access_request \<Rightarrow> helper_request" where
  "demo_request operation job access = \<lparr>hq_api = ''virmill/v1'', hq_actor = 1000, hq_operation = operation, hq_resource = mv_vm demo_mapping,
     hq_root = ''pool'', hq_plan = [], hq_job = job, hq_expires = 0, hq_key = ''k'', hq_signature = [], hq_mode = ''apply'',
     hq_access = Some access, hq_aux = None, hq_network = None\<rparr>"

definition demo_policy :: helper_policy where
  "demo_policy = \<lparr>py_api = ''virmill/v1'', py_keys = (\<lambda>_. []), py_roots = (\<lambda>_. ''/pool''), py_actors = [1000], py_aux = [],
     py_networks = [], py_protected = []\<rparr>"

text \<open>The kernel keeps the mode and the list together and stores a list of three entries as the mode alone.\<close>

definition demo_kernel :: "access_state \<Rightarrow> bytes \<Rightarrow> access_state" where
  "demo_kernel s acl = (case decode_acl acl of
      Inl _ \<Rightarrow> s
    | Inr es \<Rightarrow> s\<lparr>as_file := (as_file s)\<lparr>id_mode := wanted_mode es (id_mode (as_file s)), id_changed := ''c2''\<rparr>,
        as_acl := if length es = 3 then [] else acl\<rparr>)"

definition demo_calls :: "access_state \<Rightarrow> access_calls" where
  "demo_calls after = \<lparr>ac_journal = None, ac_native = (\<lambda>_. Inr demo_mapping), ac_open = None, ac_snap = (\<lambda>_. None),
     ac_path = (\<lambda>k. Inr after), ac_ctx = None, ac_drift = (\<lambda>_ s. s), ac_set = None, ac_kernel = demo_kernel, ac_sync = None,
     ac_intent = Durable, ac_result = Durable\<rparr>"
lemma decode_encoded: "length es \<le> 128 \<Longrightarrow> decode_acl (encode_acl es) =
    bindr (foldr_res check_entry es []) (\<lambda>es. if \<not> complete_acl es then Inl ''incomplete POSIX access ACL'' else Inr es)"
proof -
  assume "length es \<le> 128"
  moreover have "get32 (take 4 (encode_acl es)) = 2" using get32_put32 [of 2 "[]"] by (simp add: encode_acl_def)
  ultimately show ?thesis by (simp add: decode_acl_def length_encode acl_entries_encode)
qed

definition demo_granted :: "acl_entry list" where
  "demo_granted = [\<lparr>en_tag = user_object, en_perms = 6, en_id = undefined_id\<rparr>, \<lparr>en_tag = named_user, en_perms = 4, en_id = 1000\<rparr>,
     \<lparr>en_tag = group_object, en_perms = 4, en_id = undefined_id\<rparr>, \<lparr>en_tag = mask_entry, en_perms = 4, en_id = undefined_id\<rparr>,
     \<lparr>en_tag = other_entry, en_perms = 0, en_id = undefined_id\<rparr>]"

lemma demo_base: "base_acl 0x81A0 = [\<lparr>en_tag = user_object, en_perms = 6, en_id = undefined_id\<rparr>,
     \<lparr>en_tag = group_object, en_perms = 4, en_id = undefined_id\<rparr>, \<lparr>en_tag = other_entry, en_perms = 0, en_id = undefined_id\<rparr>]"
  by (simp add: base_acl_def mode_bits_def)

lemma demo_decoded: "decode_acl (encode_acl demo_granted) = Inr demo_granted"
  by (simp add: decode_encoded demo_granted_def check_entry_def complete_acl_def count_tag_def last_tag_def last_id_def undefined_id_def)

lemma demo_base_decoded: "decode_acl (encode_acl (base_acl 0x81A0)) = Inr (base_acl 0x81A0)"
  by (simp add: decode_encoded demo_base check_entry_def complete_acl_def count_tag_def last_tag_def last_id_def undefined_id_def)

lemma demo_prior: "prior_rights (base_acl 0x81A0) 64055 108 1000 {1000} = 0"
  by (simp add: demo_base prior_rights_def allowed_def covers_def group_entry_def other_of_def)

lemma demo_entries: "sort_key entry_key (granted_entries (base_acl 0x81A0) 4 1000 4) = demo_granted"
  by (simp add: demo_base granted_entries_def update_entry_def has_mask_def demo_granted_def entry_key_def undefined_id_def unsigned_minus_1_eq_mask mask_eq_exp_minus_1)

lemma demo_checked: "check_mode 0x81A0 (base_acl 0x81A0) = Inr ()"
  by (simp add: demo_base check_mode_def mode_error_def mode_bits_def has_mask_def)

lemma demo_not_allowed: "\<not> allowed (base_acl 0x81A0) 64055 108 1000 {1000} 3"
  by (simp add: demo_base allowed_def covers_def group_entry_def other_of_def)

lemma demo_bits: "mode_bits 3 0x81A0 = 4"
  by (simp add: mode_bits_def)

lemma demo_desired: "desired_read demo_file 1000 [1000] = Inr (encode_acl demo_granted)"
proof -
  have "length (granted_entries (base_acl 0x81A0) 4 1000 4) = length demo_granted" using arg_cong [OF demo_entries, of length] by simp
  then show ?thesis
    by (simp add: desired_read_def acl_bytes_def demo_file_def grant_read_def starting_acl_def demo_checked demo_prior demo_not_allowed
        demo_bits demo_entries demo_decoded undefined_id_def demo_granted_def [THEN arg_cong, of length])
qed

lemma demo_restore: "restore_acl demo_file = Inr (encode_acl (base_acl 0x81A0))"
  by (simp add: restore_acl_def acl_bytes_def demo_file_def)
definition demo_env :: helper_env where
  "demo_env = \<lparr>he_canonical = (\<lambda>_. Inr []), he_verify = (\<lambda>_ _ _. False), he_aux_binding = (\<lambda>_. Inr []),
     he_access_binding = (\<lambda>(_, _, _, _, _, job, _, _). Inr job),
     he_state = (\<lambda>b. Some (if b = ''before'' then demo_file else demo_kernel demo_file (encode_acl demo_granted)))\<rparr>"

definition demo_grant :: helper_request where
  "demo_grant = demo_request ''storage.grant-read'' ''job-1'' (demo_access ''before'' [])"

definition demo_revoke :: helper_request where
  "demo_revoke = demo_request ''storage.revoke-read'' ''job-2'' (demo_access ''granted'' ''job-1'')"

definition demo_granted_file :: access_state where
  "demo_granted_file = demo_file\<lparr>as_file := (as_file demo_file)\<lparr>id_changed := ''c2''\<rparr>, as_acl := encode_acl demo_granted\<rparr>"

definition demo_revoked_file :: access_state where
  "demo_revoked_file = demo_file\<lparr>as_file := (as_file demo_file)\<lparr>id_changed := ''c2''\<rparr>\<rparr>"

definition demo_after_grant :: access_world where
  "demo_after_grant = \<lparr>aw_file = demo_granted_file,
     aw_intents = [''job-1'' \<mapsto> Inr (own_intent demo_grant ''job-1'' (encode_acl demo_granted))],
     aw_results = [''job-1'' \<mapsto> Inr (completed_result demo_grant ''job-1'' demo_granted_file (encode_acl demo_granted))]\<rparr>"

lemma demo_modes: "wanted_mode demo_granted 0x81A0 = 0x81A0" "wanted_mode (base_acl 0x81A0) 0x81A0 = 0x81A0"
  by (simp_all add: wanted_mode_def demo_granted_def demo_base has_mask_def)

lemma demo_kernel_grant: "demo_kernel demo_file (encode_acl demo_granted) = demo_granted_file"
  by (simp add: demo_kernel_def demo_decoded demo_granted_file_def demo_file_def demo_modes)
     (simp add: demo_granted_def)

lemma demo_kernel_revoke: "demo_kernel demo_granted_file (encode_acl (base_acl 0x81A0)) = demo_revoked_file"
  by (simp add: demo_kernel_def demo_base_decoded demo_granted_file_def demo_revoked_file_def demo_file_def demo_modes)
     (simp add: demo_base)

lemma demo_lengths: "length (encode_acl demo_granted) = 44" "encode_acl demo_granted \<noteq> []" "length demo_granted = 5" "length (base_acl m) = 3"
  using length_encode [of demo_granted] by (auto simp: demo_granted_def base_acl_def)

lemma demo_matches: "matches_access demo_granted_file demo_file (encode_acl demo_granted)"
  "matches_access demo_revoked_file demo_granted_file (encode_acl (base_acl 0x81A0))"
  by (simp_all add: matches_access_def demo_decoded demo_base_decoded acl_bytes_def demo_granted_file_def demo_revoked_file_def demo_file_def
      demo_lengths demo_modes)

lemma demo_path: "access_path demo_grant demo_policy = Inr ''/pool''" "access_path demo_revoke demo_policy = Inr ''/pool''"
  by code_simp+
lemma demo_requests [simp]: "hq_mode demo_grant = ''apply''" "hq_mode demo_revoke = ''apply''" "hq_job demo_grant = ''job-1''"
  "hq_job demo_revoke = ''job-2''" "hq_operation demo_revoke = ''storage.revoke-read''" "hq_operation demo_grant = ''storage.grant-read''"
  "hq_actor demo_grant = 1000" "hq_root demo_revoke = hq_root demo_grant" "hq_actor demo_revoke = 1000" "hq_resource demo_revoke = hq_resource demo_grant"
  "hq_access demo_grant = Some (demo_access ''before'' [])" "hq_access demo_revoke = Some (demo_access ''granted'' ''job-1'')"
  by (simp_all add: demo_grant_def demo_revoke_def demo_request_def)

lemma demo_accesses [simp]: "xa_groups (demo_access b i) = [1000]" "xa_mapping (demo_access b i) = demo_mapping"
  "xa_relative (demo_access b i) = mv_name demo_mapping" "xa_before (demo_access b i) = b" "xa_original (demo_access b i) = i"
  by (simp_all add: demo_access_def)

lemma demo_called [simp]: "ac_journal (demo_calls s) = None" "ac_native (demo_calls s) k = Inr demo_mapping" "ac_open (demo_calls s) = None"
  "ac_snap (demo_calls s) k = None" "ac_ctx (demo_calls s) = None" "ac_drift (demo_calls s) k t = t" "ac_set (demo_calls s) = None"
  "ac_kernel (demo_calls s) = demo_kernel" "ac_sync (demo_calls s) = None" "ac_intent (demo_calls s) = Durable" "ac_result (demo_calls s) = Durable"
  by (simp_all add: demo_calls_def)

lemma demo_binding [simp]: "access_binding demo_env r = Inr (hq_job r)"
  by (simp add: access_binding_def demo_env_def)

lemma demo_native [simp]: "native_check (demo_calls s) k (demo_access b i) = Inr ()"
  by (simp add: native_check_def)

lemma demo_same_identity [simp]: "id_generation (as_file demo_granted_file) = id_generation (as_file demo_file)"
  "id_size (as_file demo_granted_file) = id_size (as_file demo_file)" "id_modified (as_file demo_granted_file) = id_modified (as_file demo_file)"
  "as_uid demo_granted_file = as_uid demo_file" "as_gid demo_granted_file = as_gid demo_file"
  "id_generation (as_file demo_revoked_file) = id_generation (as_file demo_file)"
  "id_size (as_file demo_revoked_file) = id_size (as_file demo_file)" "id_modified (as_file demo_revoked_file) = id_modified (as_file demo_file)"
  "as_uid demo_revoked_file = as_uid demo_file" "as_gid demo_revoked_file = as_gid demo_file"
  by (simp_all add: demo_granted_file_def demo_revoked_file_def)

text \<open>The path is looked up before the write and after it.\<close>

definition demo_run :: "access_state \<Rightarrow> access_state \<Rightarrow> access_calls" where
  "demo_run before after = (demo_calls after)\<lparr>ac_path := (\<lambda>k. Inr (if k = 0 then before else after))\<rparr>"

lemma demo_run_calls [simp]: "ac_journal (demo_run s t) = None" "ac_open (demo_run s t) = None"
  "ac_snap (demo_run s t) k = None" "ac_ctx (demo_run s t) = None" "ac_drift (demo_run s t) k u = u" "ac_set (demo_run s t) = None"
  "ac_kernel (demo_run s t) = demo_kernel" "ac_sync (demo_run s t) = None" "ac_intent (demo_run s t) = Durable" "ac_result (demo_run s t) = Durable"
  "native_check (demo_run s t) k (demo_access b i) = Inr ()" "verify_path (demo_run s t) 0 s = Inr ()" "verify_path (demo_run s t) (Suc 0) t = Inr ()"
  by (simp_all add: demo_run_def native_check_def verify_path_def)

lemma demo_before: "access_before demo_env demo_grant = Inr demo_file" "access_before demo_env demo_revoke = Inr demo_granted_file"
  by (simp_all add: access_before_def demo_env_def demo_kernel_grant)

lemma demo_grant_run:
  "execute_access demo_env (demo_run demo_file demo_granted_file) \<lparr>aw_file = demo_file, aw_intents = Map.empty, aw_results = Map.empty\<rparr>
     demo_grant demo_policy [1000] =
   (demo_after_grant, Inr (completed_result demo_grant ''job-1'' demo_granted_file (encode_acl demo_granted)))"
  by (simp add: execute_access_def access_opened_def ok_or_def demo_path demo_before wanted_acl_def granted_read_def demo_desired lift_error_def
      apply_access_def publish_def set_acl_def demo_decoded demo_kernel_grant demo_matches publish_result_def demo_after_grant_def own_intent_def
      completed_result_def)

definition demo_after_revoke :: access_world where
  "demo_after_revoke = \<lparr>aw_file = demo_revoked_file,
     aw_intents = (aw_intents demo_after_grant)(''job-2'' \<mapsto> Inr (own_intent demo_revoke ''job-2'' (encode_acl (base_acl 0x81A0)))),
     aw_results = (aw_results demo_after_grant)(''job-2'' \<mapsto> Inr (completed_result demo_revoke ''job-2'' demo_revoked_file (encode_acl (base_acl 0x81A0))))\<rparr>"

lemma demo_revoke_acl: "wanted_acl demo_env demo_after_grant demo_granted_file demo_revoke (demo_access ''granted'' ''job-1'') = Inr (encode_acl (base_acl 0x81A0))"
  by (simp add: wanted_acl_def revoked_acl_def read_record_def demo_after_grant_def own_intent_def same_grant_def completed_result_def demo_before
      granted_read_def demo_desired lift_error_def demo_matches demo_restore Let_def)

lemma demo_revoke_run:
  "execute_access demo_env (demo_run demo_granted_file demo_revoked_file) demo_after_grant demo_revoke demo_policy [1000] =
   (demo_after_revoke, Inr (completed_result demo_revoke ''job-2'' demo_revoked_file (encode_acl (base_acl 0x81A0))))"
proof -
  have "aw_file demo_after_grant = demo_granted_file" "aw_intents demo_after_grant ''job-2'' = None" "aw_results demo_after_grant ''job-2'' = None"
    by (simp_all add: demo_after_grant_def)
  then show ?thesis
    by (simp add: execute_access_def access_opened_def ok_or_def demo_path demo_before demo_revoke_acl apply_access_def publish_def set_acl_def
        demo_base_decoded demo_kernel_revoke demo_matches publish_result_def demo_after_revoke_def own_intent_def completed_result_def)
qed

section \<open>A signed request\<close>

definition signed_request :: helper_request where
  "signed_request = demo_grant\<lparr>hq_job := ''5d2e8c1a-0b3f-4c6d-8e9f-a1b2c3d4e5f6'', hq_plan := replicate 64 CHR ''0'', hq_expires := 60\<rparr>"

definition signing_policy :: helper_policy where
  "signing_policy = demo_policy\<lparr>py_keys := (\<lambda>_. replicate 64 CHR ''0'')\<rparr>"

definition signing_env :: helper_env where
  "signing_env = demo_env\<lparr>he_verify := (\<lambda>pub b _. pub = replicate 32 (char_of (0 :: nat)) \<and> b = [])\<rparr>"

end
