(* ===== verification/Helper_Authority.thy ===== *)
theory Helper_Authority
  imports Helper
begin

text \<open>
  What an authorised request of the privileged helper is entitled to, stated without the order of the
  checks: the grants of the policy that cover it and the sizes of an inventory as numbers.
\<close>

section \<open>Sizes\<close>

definition sizes :: "aux_member list \<Rightarrow> nat" where
  "sizes ms = sum_list (map (\<lambda>m. unat (xf_size (xm_state m))) ms)"

lemma add_sizes_exact: "s \<le> bound \<Longrightarrow> add_sizes bound ms s = Some n \<longleftrightarrow> unat s + sizes ms \<le> unat bound \<and> unat n = unat s + sizes ms"
proof (induction ms arbitrary: s)
  case Nil
  then show ?case by (auto simp: sizes_def word_le_nat_alt word_unat_eq_iff)
next
  case (Cons m ms)
  define x where "x = xf_size (xm_state m)"
  have room: "unat (bound - s) = unat bound - unat s" using Cons.prems by (rule unat_sub)
  show ?case
  proof (cases "x > bound - s")
    case True
    then have "\<not> unat s + (unat x + sizes ms) \<le> unat bound" using room by (simp add: word_less_nat_alt)
    then show ?thesis using True by (simp add: sizes_def x_def)
  next
    case False
    then have le: "unat s + unat x \<le> unat bound" using room Cons.prems by (simp add: word_less_nat_alt word_le_nat_alt)
    then have "unat s + unat x < 2 ^ LENGTH(64)" using unsigned_less [of bound] by (rule le_less_trans)
    then have plus: "unat (s + x) = unat s + unat x" by (simp add: unat_word_ariths)
    then have "s + x \<le> bound" using le by (simp add: word_le_nat_alt)
    from Cons.IH [OF this] show ?thesis using False plus by (simp add: x_def sizes_def add.assoc)
  qed
qed

lemma ascending_sorted: "ascending xs \<longleftrightarrow> sorted_wrt (<) xs"
  by (induction xs rule: ascending.induct) (auto dest: less_trans)

section \<open>Entitlement\<close>

definition network_entitled :: "helper_request \<Rightarrow> helper_policy \<Rightarrow> bool" where
  "network_entitled r p \<longleftrightarrow> (\<exists>n. hq_network r = Some n \<and> exact_network r n \<and>
     \<lparr>np_actor = hq_actor r, np_key = hq_key r, np_resource = hq_resource r\<rparr> \<in> set (network_grants p (xn_version n)))"

definition inventory_within :: "aux_permission \<Rightarrow> aux_inventory \<Rightarrow> bool" where
  "inventory_within g i \<longleftrightarrow> 0 < length (items (xi_members i)) \<and> length (items (xi_members i)) \<le> unat (xp_members g) \<and>
     length (items (xi_directories i)) \<le> 128 \<and> sizes (items (xi_members i)) = unat (xi_total i) \<and>
     sizes (items (xi_members i)) \<le> unat (xp_bytes g)"

definition aux_entitled :: "helper_request \<Rightarrow> helper_policy \<Rightarrow> bool" where
  "aux_entitled r p \<longleftrightarrow> (\<exists>q g. hq_aux r = Some q \<and> xq_version q = 1 \<and> aux_digest (xq_print q) \<and> aux_id (hq_resource r) \<and>
     filter (selects r) (py_aux p) = [g] \<and> bounded_permission g \<and> aux_absolute (py_roots p (hq_root r)) \<and>
     (case xq_expected q of
        None \<Rightarrow> hq_mode r = ''inspect''
      | Some i \<Rightarrow> (hq_mode r = ''capture'' \<or> hq_mode r = ''observe'') \<and> xp_capture g \<and> exact_inventory r p q i \<and> inventory_within g i))"

definition access_entitled :: "helper_request \<Rightarrow> helper_policy \<Rightarrow> bool" where
  "access_entitled r p \<longleftrightarrow> (\<exists>a. hq_access r = Some a \<and> hq_mode r \<in> set apply_modes \<and> mv_vm (xa_mapping a) = hq_resource r \<and>
     helper_uuid (mv_pool (xa_mapping a)) \<and> py_roots p (hq_root r) \<noteq> [] \<and>
     xa_groups a \<noteq> [] \<and> length (xa_groups a) \<le> 4096 \<and> sorted_wrt (<) (xa_groups a) \<and> undefined_id \<notin> set (xa_groups a) \<and>
     (if hq_operation r = ''storage.grant-read'' then xa_original a = [] else helper_uuid (xa_original a) \<and> xa_original a \<noteq> hq_job r))"

definition entitled :: "helper_request \<Rightarrow> helper_policy \<Rightarrow> bool" where
  "entitled r p \<longleftrightarrow>
     hq_operation r \<in> set network_operations \<and> network_entitled r p \<or>
     hq_operation r = ''state.auxiliary'' \<and> aux_entitled r p \<or>
     hq_operation r = ''storage.prepare-directory'' \<and> hq_mode r = [] \<and> hq_access r = None \<and> hq_aux r = None \<and>
       hq_network r = None \<and> py_roots p (hq_root r) \<noteq> [] \<or>
     hq_operation r \<in> {''storage.grant-read'', ''storage.revoke-read''} \<and> access_entitled r p"

lemma network_authorized: "authorize_network r p = Inr () \<longleftrightarrow> network_entitled r p"
proof -
  have "list_ex (\<lambda>g. np_actor g = hq_actor r \<and> np_key g = hq_key r \<and> np_resource g = hq_resource r) gs \<longleftrightarrow>
      \<lparr>np_actor = hq_actor r, np_key = hq_key r, np_resource = hq_resource r\<rparr> \<in> set gs" for gs
    by (induction gs) auto
  then show ?thesis by (simp add: authorize_network_def network_entitled_def split: option.split)
qed

lemma within_bounds: "inventory_bounds g i = Inr () \<longleftrightarrow> inventory_within g i"
proof -
  define ms where "ms = items (xi_members i)"
  have "inventory_bounds g i = Inr () \<longleftrightarrow> ms \<noteq> [] \<and> length ms \<le> unat (xp_members g) \<and> length (items (xi_directories i)) \<le> 128 \<and>
      xi_total i \<le> xp_bytes g \<and> add_sizes (xp_bytes g) ms 0 = Some (xi_total i)"
    by (auto simp: inventory_bounds_def ms_def not_less split: option.split)
  also have "add_sizes (xp_bytes g) ms 0 = Some (xi_total i) \<longleftrightarrow> sizes ms \<le> unat (xp_bytes g) \<and> unat (xi_total i) = sizes ms"
    using add_sizes_exact [of 0 "xp_bytes g" ms "xi_total i"] by simp
  finally show ?thesis unfolding inventory_within_def ms_def [symmetric] by (auto simp: word_le_nat_alt)
qed

lemma aux_policy_iff: "aux_policy r p = Inr g \<longleftrightarrow> length (py_aux p) \<le> 1024 \<and> filter (selects r) (py_aux p) = [g] \<and> bounded_permission g \<and>
    aux_absolute (py_roots p (hq_root r)) \<and> (hq_mode r = ''inspect'' \<or> xp_capture g)"
  by (auto simp: aux_policy_def split: list.split)

lemma aux_authorized: "authorize_aux r p = Inr () \<Longrightarrow> aux_entitled r p"
  by (auto simp: authorize_aux_def aux_entitled_def aux_mode_def aux_policy_iff within_bounds split: option.split_asm if_split_asm)

lemma access_authorized: "authorize_access r = Inr () \<Longrightarrow> py_roots p (hq_root r) \<noteq> [] \<Longrightarrow>
    hq_operation r \<in> {''storage.grant-read'', ''storage.revoke-read''} \<Longrightarrow> access_entitled r p"
  by (auto simp: authorize_access_def access_entitled_def ascending_sorted split: option.split_asm if_split_asm)

section \<open>The whole check\<close>

lemma operation_entitled:
  assumes op: "authorize_operation r p = Inr ()"
    and root: "hq_operation r \<notin> set network_operations \<Longrightarrow> py_roots p (hq_root r) \<noteq> []"
  shows "entitled r p"
proof -
  consider "hq_operation r \<in> set network_operations" | "hq_operation r = ''state.auxiliary''" | "hq_operation r = ''storage.prepare-directory''" |
    "hq_operation r \<in> {''storage.grant-read'', ''storage.revoke-read''}"
    using op by (auto simp: authorize_operation_def split: if_split_asm)
  then show ?thesis
  proof cases
    case 1
    then show ?thesis using op network_authorized by (simp add: authorize_operation_def entitled_def)
  next
    case 2
    then show ?thesis using op aux_authorized by (auto simp: authorize_operation_def entitled_def network_operations_def split: if_split_asm)
  next
    case 3
    then show ?thesis using op root by (auto simp: authorize_operation_def entitled_def network_operations_def split: if_split_asm)
  next
    case 4
    then have "hq_operation r \<notin> set network_operations" by (auto simp: network_operations_def)
    moreover have "authorize_access r = Inr ()" using 4 op by (auto simp: authorize_operation_def network_operations_def)
    ultimately show ?thesis using access_authorized [of r p] root 4 by (auto simp: entitled_def)
  qed
qed

lemma authorized_cases:
  assumes "authorize_request env peer r p now = Inr ()"
  shows "hq_actor r = peer" "peer \<noteq> 0" "peer \<in> set (py_actors p)" "authorize_operation r p = Inr ()" "now < hq_expires r"
    "hq_expires r \<le> now + grant_limit" "hq_operation r \<notin> set network_operations \<Longrightarrow> py_roots p (hq_root r) \<noteq> []" "check_signature env r p = Inr ()"
  using assms unfolding authorize_request_def by (auto simp del: bindr.simps split: if_split_asm)

lemma signature_checked: "check_signature env r p = Inr () \<Longrightarrow>
    \<exists>pub sig b. hex_pairs (py_keys p (hq_key r)) = Some pub \<and> length pub = 32 \<and> signed_bytes env r = Inr b \<and> he_verify env pub b sig"
  by (auto simp: check_signature_def split: option.split_asm if_split_asm)

end
