(* ===== verification/Helper_Claims.thy ===== *)
theory Helper_Claims
  imports Helper_Demo Helper_Authority
begin

text \<open>
  The guarantees of the privileged helper: whose requests it serves, what one request can do to the
  managed file, and that revoking a grant restores the access before it.
\<close>

section \<open>Authority\<close>

text \<open>
  C12. If signatures cannot be forged, every request the helper authorises is one whose canonical bytes the
  holder of a key in the administrator's policy approved; its actor is the kernel's peer, not root, and
  listed in the policy; it expires within fifteen minutes; and it is entitled to its operation by an
  explicit grant: for auxiliary state a single permission that covers machine, key, actor and root and
  whose limits hold for the sum of the member sizes as a number, not modulo the word size.
\<close>

theorem helper_authority:
  assumes unforgeable: "\<And>pub b sig. he_verify env pub b sig \<Longrightarrow> \<exists>r0. (pub, r0) \<in> approved \<and> signed_bytes env r0 = Inr b"
    and ok: "authorize_request env peer r p now = Inr ()"
  shows "hq_actor r = peer \<and> peer \<noteq> 0 \<and> peer \<in> set (py_actors p) \<and>
    now < hq_expires r \<and> hq_expires r \<le> now + grant_limit \<and> entitled r p \<and>
    (\<exists>pub r0. hex_pairs (py_keys p (hq_key r)) = Some pub \<and> length pub = 32 \<and> (pub, r0) \<in> approved \<and> signed_bytes env r0 = signed_bytes env r)"
proof -
  note checked = authorized_cases [OF ok]
  have "entitled r p" by (rule operation_entitled [OF checked(4,7)])
  moreover have "\<exists>pub r0. hex_pairs (py_keys p (hq_key r)) = Some pub \<and> length pub = 32 \<and> (pub, r0) \<in> approved \<and> signed_bytes env r0 = signed_bytes env r"
    using signature_checked [OF checked(8)] unforgeable by metis
  ultimately show ?thesis using checked by blast
qed

theorem helper_authority_witness:
  "hq_actor signed_request = 1000 \<and> (1000 :: 32 word) \<noteq> 0 \<and> 1000 \<in> set (py_actors signing_policy) \<and>
    0 < hq_expires signed_request \<and> hq_expires signed_request \<le> 0 + grant_limit \<and> entitled signed_request signing_policy \<and>
    (\<exists>pub r0. hex_pairs (py_keys signing_policy (hq_key signed_request)) = Some pub \<and> length pub = 32 \<and>
       (pub, r0) \<in> {(replicate 32 (char_of (0 :: nat)), signed_request)} \<and> signed_bytes signing_env r0 = signed_bytes signing_env signed_request)"
proof (rule helper_authority)
  show "authorize_request signing_env 1000 signed_request signing_policy 0 = Inr ()" by code_simp
  show "\<exists>r0. (pub, r0) \<in> {(replicate 32 (char_of (0 :: nat)), signed_request)} \<and> signed_bytes signing_env r0 = Inr b"
    if "he_verify signing_env pub b sig" for pub b sig
    using that by (simp add: signing_env_def demo_env_def signed_bytes_def)
qed

section \<open>One request\<close>

text \<open>
  C13. Whatever the system calls answer, one request of the helper for a volume leaves all existing records
  and every other job's records as they are. It changes the file only in mode apply, only when its own
  job had no intent record, and then either nothing but the outside world changed the file, or the file
  was still in the reviewed state when the one write of the reviewed list was made, with the intent
  already stored. A result that is returned describes the file as it is; in mode check nothing at all has
  changed, otherwise the result is complete, stored, and the file matches the intent's list.
\<close>

theorem helper_writes_once:
  "case execute_access env c w r p groups of (w', res) \<Rightarrow>
     records_kept w (hq_job r) w' \<and>
     (aw_file w' = aw_file w \<or>
        hq_mode r = ''apply'' \<and> aw_intents w (hq_job r) = None \<and> aw_intents w' (hq_job r) \<noteq> None \<and>
        (aw_file w' = ac_drift c 0 (aw_file w) \<or> reviewed_write env c w r w')) \<and>
     (case res of Inl e \<Rightarrow> True
      | Inr z \<Rightarrow> zr_job z = hq_job r \<and> zr_state z = aw_file w' \<and>
          (if hq_mode r = ''check'' then zr_complete z = False \<and> w' = w
           else zr_complete z \<and> (\<exists>before binding. access_before env r = Inr before \<and> access_binding env r = Inr binding \<and>
             established w' r before binding z)))"
proof (cases "execute_access env c w r p groups")
  case (Pair w' res)
  then show ?thesis
  proof (cases rule: execute_access_cases)
    case refused
    then show ?thesis using Pair by simp
  next
    case checked
    then show ?thesis using Pair by (simp add: completed_result_def)
  next
    case (observed a before binding)
    then have "zr_job z = hq_job r \<and> zr_state z = aw_file w' \<and> zr_complete z \<and> (\<exists>before binding. access_before env r = Inr before \<and>
        access_binding env r = Inr binding \<and> established w' r before binding z)" if "res = Inr z" for z
      using observe_access_ok [of env c w r a before binding w' z] opened_bound [of env c r a p before binding] that
      by (auto dest: established_fields)
    then show ?thesis using Pair observe_access_frame [OF observed(4)] observed(3) by (simp split: sum.split)
  next
    case (applied a before binding acl)
    note bound = opened_bound [OF applied(2)]
    have ok: "zr_job z = hq_job r \<and> zr_state z = aw_file w' \<and> zr_complete z \<and> (\<exists>before binding. access_before env r = Inr before \<and>
        access_binding env r = Inr binding \<and> established w' r before binding z)" if "res = Inr z" for z
      using apply_access_established [of c w r a before binding acl w' z] bound that applied(3, 6)
      by (auto dest: established_fields)
    have effect: "aw_file w' = aw_file w \<or> aw_intents w (hq_job r) = None \<and> aw_intents w' (hq_job r) \<noteq> None \<and>
        (aw_file w' = ac_drift c 0 (aw_file w) \<or> reviewed_write env c w r w')"
      using apply_access_file [OF applied(6)] applied(1, 4, 5) bound unfolding reviewed_write_def by auto
    show ?thesis using Pair apply_access_kept [OF applied(6)] ok effect applied(3) by (simp split: sum.split)
  qed
qed

section \<open>Grant and revocation\<close>

text \<open>
  C26. If a grant was applied and later, with its intent record still in the journal, a revocation that
  names its job is applied, then the file the revocation reports and leaves has the content identity,
  mode, owner and group it had before the grant, and its access list means what it meant then, entry for
  entry - whatever happened to the file in between that the revocation's checks let pass.
\<close>

theorem revoke_undoes_grant:
  assumes grant: "execute_access env c w r p groups = (w1, Inr z)" "hq_mode r = ''apply''"
    and meanwhile: "aw_intents w1 \<subseteq>\<^sub>m aw_intents w2"
    and revoke: "execute_access env c' w2 r' p' groups' = (w3, Inr z')" "hq_mode r' = ''apply''" "hq_operation r' = ''storage.revoke-read''"
    and refers: "map_option xa_original (hq_access r') = Some (hq_job r)"
  shows "zr_state z' = aw_file w3 \<and> same_access (aw_file w3) (aw_file w)"
proof -
  obtain binding acl where before: "access_before env r = Inr (aw_file w)" and i: "aw_intents w1 (hq_job r) = Some (Inr (own_intent r binding acl))"
    using applied_run [OF grant] by blast
  obtain a' acl' where a': "hq_access r' = Some a'" and wanted: "wanted_acl env w2 (aw_file w2) r' a' = Inr acl'"
    and after: "matches_access (aw_file w3) (aw_file w2) acl'" and state: "zr_state z' = aw_file w3"
    using applied_run [OF revoke(1,2)] by blast
  have job: "aw_intents w2 (hq_job r) = Some (Inr (own_intent r binding acl))" using meanwhile i by (auto simp: map_le_def dom_def)
  have "xa_original a' = hq_job r" using refers a' by simp
  moreover have "revoked_acl env w2 (aw_file w2) r' a' = Inr acl'" using wanted revoke(3) by (simp add: wanted_acl_def)
  ultimately obtain old actor gs desired where "access_before env r = Inr old" "desired_read old actor gs = Inr desired"
      "matches_access (aw_file w2) old desired" "restore_acl old = Inr acl'"
    using revoked_from [of env w2 "aw_file w2" r' a' acl'] job by (auto simp: own_intent_def)
  moreover from this have "old = aw_file w" using before by (simp add: access_before_def split: option.split_asm)
  ultimately show ?thesis using access_restored after state by blast
qed

theorem revoke_undoes_grant_witness:
  "zr_state (completed_result demo_revoke ''job-2'' demo_revoked_file (encode_acl (base_acl 0x81A0))) = aw_file demo_after_revoke \<and>
   same_access (aw_file demo_after_revoke) demo_file"
  using revoke_undoes_grant [OF demo_grant_run _ _ demo_revoke_run] by simp

end
