(* ===== verification/Lifecycle.thy ===== *)
theory Lifecycle
  imports Network_Profile Store_Laws Unicode_Text
begin

text \<open>
  What the workflows on a machine's definition and disks share (\<^verbatim>\<open>internal/app/removal.go\<close>,
  \<^verbatim>\<open>disk_removal.go\<close>, \<^verbatim>\<open>disk_move.go\<close>): identities and digests, computations on a host and a
  journal that may fail, and the receipt a job keeps of its effects. \<open>'w\<close> is everything outside the
  journal. Each call to the host may change the host and, because other jobs run meanwhile, the
  journal; a ghost log lists the calls with the journal they were made on.
\<close>

section \<open>Identities\<close>

definition zero_uuid :: string where
  "zero_uuid = ''00000000-0000-0000-0000-000000000000''"

definition removal_identity :: "resource_key \<Rightarrow> bool" where
  "removal_identity k \<longleftrightarrow> provider_id k = ''libvirt'' \<and> key_kind k = ''vm'' \<and>
     (connection_id k = ''qemu:///system'' \<or> connection_id k = ''qemu:///session'') \<and> uuid_pattern (key_uuid k) \<and> key_uuid k \<noteq> zero_uuid"

definition removal_digest :: "string \<Rightarrow> bool" where
  "removal_digest s \<longleftrightarrow> length s = 64 \<and> list_all lower_hex s"

definition removal_target :: "string \<Rightarrow> bool" where
  "removal_target s \<longleftrightarrow> s \<noteq> [] \<and> length s \<le> 32 \<and> is_lower (hd s) \<and> list_all (\<lambda>c. is_lower c \<or> is_digit c) (tl s)"

text \<open>\<^verbatim>\<open>domain.RemovalDisk\<close>: one disk of a machine, bound to its exact volume.\<close>

record removal_disk =
  sd_target :: string
  sd_path :: string
  sd_pool :: string
  sd_name :: string
  sd_key :: string
  sd_generation :: string
  sd_print :: string
  sd_format :: string
  sd_capacity :: "64 word"
  sd_allocated :: "64 word"

section \<open>Computations\<close>

record ('w, 'c) session =
  se_world :: 'w
  se_db :: db
  se_log :: "('c \<times> db) list"

type_synonym ('s, 'a) act = "'s \<Rightarrow> (go_error + 'a) \<times> 's"

definition retr :: "'a \<Rightarrow> ('s, 'a) act" where
  "retr a s = (Inr a, s)"

definition liftr :: "go_error + 'a \<Rightarrow> ('s, 'a) act" where
  "liftr x s = (x, s)"

abbreviation refuse :: "string \<Rightarrow> string \<Rightarrow> ('s, 'a) act" where
  "refuse code msg \<equiv> liftr (failr code msg)"

definition thenr :: "('s, 'a) act \<Rightarrow> ('a \<Rightarrow> ('s, 'b) act) \<Rightarrow> ('s, 'b) act" where
  "thenr m f s = (case m s of (Inl e, t) \<Rightarrow> (Inl e, t) | (Inr a, t) \<Rightarrow> f a t)"

text \<open>What follows may look at an error and go on.\<close>

definition tryr :: "('s, 'a) act \<Rightarrow> (go_error + 'a \<Rightarrow> ('s, 'b) act) \<Rightarrow> ('s, 'b) act" where
  "tryr m f s = (case m s of (x, t) \<Rightarrow> f x t)"

definition unlessr :: "bool \<Rightarrow> string \<Rightarrow> string \<Rightarrow> ('s, unit) act" where
  "unlessr b code msg = (if b then retr () else refuse code msg)"

lemma retr_eq [simp]: "retr a s = (r, t) \<longleftrightarrow> r = Inr a \<and> t = s"
  by (auto simp: retr_def)

lemma liftr_eq [simp]: "liftr x s = (r, t) \<longleftrightarrow> r = x \<and> t = s"
  by (auto simp: liftr_def)

lemma unlessr_eq [simp]: "unlessr b code msg s = (r, t) \<longleftrightarrow> t = s \<and> r = (if b then Inr () else failr code msg)"
  by (auto simp: unlessr_def)

lemma thenr_cases [consumes 1, case_names failed passed]:
  assumes "thenr m f s = (r, u)"
  obtains e where "m s = (Inl e, u)" "r = Inl e" | a t where "m s = (Inr a, t)" "f a t = (r, u)"
  using assms by (auto simp: thenr_def split: prod.split_asm sum.split_asm)

lemma tryr_cases: "tryr m f s = (r, u) \<Longrightarrow> (\<And>x t. m s = (x, t) \<Longrightarrow> f x t = (r, u) \<Longrightarrow> P) \<Longrightarrow> P"
  by (auto simp: tryr_def split: prod.split_asm)

lemma thenr_Inr: "thenr m f s = (Inr b, u) \<longleftrightarrow> (\<exists>a t. m s = (Inr a, t) \<and> f a t = (Inr b, u))"
  by (auto simp: thenr_def split: prod.split sum.split)

section \<open>The receipt of a job\<close>

text \<open>
  \<^verbatim>\<open>saveReceipt\<close>: the receipt replaces the bytes the job wrote before, or is new, and is read back.
  A write or a read of the journal may fail, as the host decides.
\<close>

record 'w faults =
  ft_ctx :: "'w \<Rightarrow> go_error option"
  ft_put :: "'w \<Rightarrow> go_error option"
  ft_get :: "'w \<Rightarrow> go_error option"

text \<open>A call to the host: what it does, entered in the log with the journal it was made on.\<close>

type_synonym ('w, 'a) host_call = "'w \<times> db \<Rightarrow> (go_error + 'a) \<times> 'w \<times> db"

definition ask :: "('w, 'a) host_call \<Rightarrow> (('w, 'c) session, 'a) act" where
  "ask call s = (case call (se_world s, se_db s) of (x, w, d) \<Rightarrow> (x, s\<lparr>se_world := w, se_db := d\<rparr>))"

definition ask_logged :: "('a \<Rightarrow> 'c) \<Rightarrow> ('w, 'a) host_call \<Rightarrow> (('w, 'c) session, 'a) act" where
  "ask_logged entry call s = (case call (se_world s, se_db s) of
      (Inl e, w, d) \<Rightarrow> (Inl e, s\<lparr>se_world := w, se_db := d\<rparr>)
    | (Inr a, w, d) \<Rightarrow> (Inr a, s\<lparr>se_world := w, se_db := d, se_log := se_log s @ [(entry a, d)]\<rparr>))"

text \<open>An effect is entered before it is tried, whatever comes of it.\<close>

definition effect :: "'c \<Rightarrow> ('w, 'a) host_call \<Rightarrow> (('w, 'c) session, 'a) act" where
  "effect entry call s = (case call (se_world s, se_db s) of
      (x, w, d) \<Rightarrow> (x, s\<lparr>se_world := w, se_db := d, se_log := se_log s @ [(entry, se_db s)]\<rparr>))"

definition ctx_poll :: "'w faults \<Rightarrow> (('w, 'c) session, unit) act" where
  "ctx_poll f s = (case ft_ctx f (se_world s) of Some e \<Rightarrow> (Inl e, s) | None \<Rightarrow> (Inr (), s))"

definition read_receipt :: "'w faults \<Rightarrow> string \<Rightarrow> string \<Rightarrow> (('w, 'c) session, bytes option) act" where
  "read_receipt f kind i s = (case ft_get f (se_world s) of
      Some e \<Rightarrow> (Inl e, s)
    | None \<Rightarrow> (Inr (metadata_bytes kind i (se_db s)), s))"

definition write_receipt :: "'w faults \<Rightarrow> string \<Rightarrow> string \<Rightarrow> bytes option \<Rightarrow> bytes \<Rightarrow> (('w, 'c) session, unit) act" where
  "write_receipt f kind i previous body s = (case ft_put f (se_world s) of
      Some e \<Rightarrow> (Inl e, s)
    | None \<Rightarrow> (case compare_put kind i previous body (se_db s) of
        Inl e \<Rightarrow> (Inl e, s)
      | Inr d \<Rightarrow> (Inr (), s\<lparr>se_db := d\<rparr>)))"

definition save_receipt :: "'w faults \<Rightarrow> string \<Rightarrow> string \<Rightarrow> bytes option \<Rightarrow> bytes \<Rightarrow> (('w, 'c) session, bytes option) act" where
  "save_receipt f kind i previous body = thenr (write_receipt f kind i previous body) (\<lambda>_. read_receipt f kind i)"

text \<open>
  What a workflow relies on: a save that succeeds found the bytes the job last saw and leaves the new
  ones, which it returns; a save that fails leaves the old ones or the new ones, and nothing else changes.
\<close>

locale receipt_keeper =
  fixes save :: "bytes option \<Rightarrow> bytes \<Rightarrow> 's \<Rightarrow> (go_error + bytes option) \<times> 's"
    and stored :: "'s \<Rightarrow> bytes option"
    and rest :: "'s \<Rightarrow> 'r"
  assumes saved: "save previous body s = (Inr q, t) \<Longrightarrow> stored s = previous \<and> stored t = Some body \<and> q = Some body"
    and unsaved: "save previous body s = (Inl e, t) \<Longrightarrow> t = s \<or> stored s = previous \<and> stored t = Some body"
    and only: "save previous body s = (x, t) \<Longrightarrow> rest t = rest s"
begin

text \<open>A job that begins with a fresh receipt does nothing when a receipt exists.\<close>

lemma fresh_refused: "stored s = Some old \<Longrightarrow> save None body s = (x, t) \<Longrightarrow> t = s \<and> (\<exists>e. x = Inl e)"
  using saved unsaved by (cases x) fastforce+

lemma stored_grows: "save previous body s = (x, t) \<Longrightarrow> stored t = stored s \<or> stored s = previous \<and> stored t = Some body"
  using saved unsaved by (cases x) blast+

end

lemma put_bytes: "metadata_bytes k' i' (put k i b d) = (if (k', i') = (k, i) then Some b else metadata_bytes k' i' d)"
  by (auto simp: metadata_bytes_def put_lookup)

interpretation receipts: receipt_keeper "save_receipt f kind i" "\<lambda>s. metadata_bytes kind i (se_db s)" "\<lambda>s. (se_world s, se_log s)"
  for f :: "'w faults" and kind i
  by unfold_locales
    (auto simp: save_receipt_def write_receipt_def read_receipt_def thenr_def compare_put_Inr put_bytes split: option.split_asm sum.split_asm)

end
