(* ===== verification/Disk_Removal.thy ===== *)
theory Disk_Removal
  imports Lifecycle
begin

text \<open>
  Removal of a stopped machine: its definition alone (\<^verbatim>\<open>internal/app/removal.go\<close>), or its
  definition and explicitly selected disks (\<^verbatim>\<open>disk_removal.go\<close>, \<^verbatim>\<open>disk_removal_references.go\<close>).
  Strict JSON decoding, the journal's encoder and the digests are fields of \<open>removal_env\<close>.
\<close>

section \<open>What is removed\<close>

record definition_removal =
  rd_resource :: resource_key
  rd_name :: string
  rd_print :: string
  rd_sha256 :: string
  rd_retained :: "string list"
  rd_firmware :: string
  rd_tpm :: bool

record disk_removal =
  dr_definition :: definition_removal
  dr_disks :: "removal_disk list"
  dr_resources :: "string list"
  dr_graph :: string

record removal_recipe =
  rr_version :: int
  rr_definition :: definition_removal

record disk_recipe =
  kr_version :: int
  kr_removal :: disk_removal

record removal_receipt =
  vr_version :: int
  vr_operation :: string
  vr_plan :: string
  vr_digest :: string
  vr_definition :: definition_removal

record disk_receipt =
  dk_version :: int
  dk_operation :: string
  dk_plan :: string
  dk_digest :: string
  dk_removal :: string
  dk_definition :: string
  dk_disks :: "string list"

text \<open>A machine as \<^verbatim>\<open>GetVM\<close> reports it, restricted to what removal reads.\<close>

record machine_view =
  mw_key :: resource_key
  mw_name :: string
  mw_print :: string
  mw_state :: string
  mw_xml :: string
  mw_autostart :: bool
  mw_saved :: bool

definition valid_text :: "string \<Rightarrow> bool" where
  "valid_text s \<longleftrightarrow> runes s \<noteq> None"

definition valid_removal :: "definition_removal \<Rightarrow> bool" where
  "valid_removal d \<longleftrightarrow> removal_identity (rd_resource d) \<and> removal_digest (rd_print d) \<and> removal_digest (rd_sha256 d) \<and>
     rd_name d \<noteq> [] \<and> length (rd_name d) \<le> 4096 \<and> valid_text (rd_name d) \<and> safe_display (rd_name d) = rd_name d \<and>
     length (rd_retained d) \<le> 4096 \<and>
     list_all (\<lambda>s. s \<noteq> [] \<and> length s \<le> 4096 \<and> valid_text s \<and> CHR 0x00 \<notin> set s) (rd_retained d) \<and> sorted_wrt (<) (rd_retained d) \<and>
     (rd_firmware d = [] \<or> path_absolute (rd_firmware d) \<and> safe_display (rd_firmware d) = rd_firmware d \<and> rd_firmware d \<in> set (rd_retained d))"

definition disk_ok :: "definition_removal \<Rightarrow> removal_disk \<Rightarrow> bool" where
  "disk_ok d k \<longleftrightarrow> removal_target (sd_target k) \<and> path_absolute (sd_path k) \<and> path_clean (sd_path k) = sd_path k \<and>
     safe_display (sd_path k) = sd_path k \<and> length (sd_path k) \<le> 4096 \<and> uuid_pattern (sd_pool k) \<and> sd_pool k \<noteq> zero_uuid \<and>
     sd_name k \<noteq> [] \<and> path_base (sd_path k) = sd_name k \<and> sd_key k \<noteq> [] \<and> length (sd_key k) \<le> 4096 \<and> safe_display (sd_key k) = sd_key k \<and>
     sd_generation k \<noteq> [] \<and> length (sd_generation k) \<le> 512 \<and> safe_display (sd_generation k) = sd_generation k \<and>
     removal_digest (sd_print k) \<and> (sd_format k = ''raw'' \<or> sd_format k = ''qcow2'') \<and> sd_capacity k \<noteq> 0 \<and> sd_path k \<in> set (rd_retained d)"

definition valid_disk_removal :: "disk_removal \<Rightarrow> bool" where
  "valid_disk_removal r \<longleftrightarrow> valid_removal (dr_definition r) \<and> 1 \<le> length (dr_disks r) \<and> length (dr_disks r) \<le> 64 \<and>
     removal_digest (dr_graph r) \<and> dr_resources r \<noteq> [] \<and> length (dr_resources r) \<le> 16384 \<and> sorted (dr_resources r) \<and>
     key_string (rd_resource (dr_definition r)) \<in> set (dr_resources r) \<and>
     list_all (disk_ok (dr_definition r)) (dr_disks r) \<and> sorted_wrt (<) (map sd_target (dr_disks r)) \<and>
     distinct (map sd_path (dr_disks r)) \<and> distinct (map sd_generation (dr_disks r)) \<and>
     list_all (\<lambda>s. s \<noteq> [] \<and> length s \<le> 8192 \<and> safe_display s = s) (dr_resources r) \<and> sorted_wrt (<) (dr_resources r)"

section \<open>The host\<close>

datatype removal_call = Machine_seen | References_clear | States_seen "string list" | Remove_definition | Delete_disk nat

record 'w removal_host =
  rh_faults :: "'w faults"
  rh_machine :: "string \<Rightarrow> string \<Rightarrow> ('w, machine_view) host_call"
  rh_inspect :: "string \<Rightarrow> string \<Rightarrow> ('w, definition_removal) host_call"
  rh_remove :: "definition_removal \<Rightarrow> ('w, unit) host_call"
  rh_absent :: "resource_key \<Rightarrow> ('w, bool) host_call"
  rh_check :: "disk_removal \<Rightarrow> bool \<Rightarrow> ('w, string list) host_call"
  rh_delete :: "disk_removal \<Rightarrow> nat \<Rightarrow> ('w, unit) host_call"
  rh_removes_definitions :: bool
  rh_removes_disks :: bool

record removal_env =
  re_env :: env
  re_recipe :: "bytes \<Rightarrow> removal_recipe option"
  re_disk_recipe :: "bytes \<Rightarrow> disk_recipe option"
  re_receipt :: "bytes \<Rightarrow> removal_receipt option"
  re_put_receipt :: "removal_receipt \<Rightarrow> bytes"
  re_disk_receipt :: "bytes \<Rightarrow> disk_receipt option"
  re_put_disk_receipt :: "disk_receipt \<Rightarrow> bytes"
  re_removal_json :: "disk_removal \<Rightarrow> json"

section \<open>Binding to the plan\<close>

definition parse_removal :: "removal_env \<Rightarrow> plan \<Rightarrow> bytes \<Rightarrow> go_error + removal_recipe" where
  "parse_removal env p raw = (case re_recipe env raw of
      None \<Rightarrow> failr ''INVALID_INPUT'' ''Invalid VM removal recipe binding.''
    | Some r \<Rightarrow> (let d = rr_definition r; key = key_string (rd_resource d) in
        if rr_version r \<noteq> 1 \<or> plan_operation p \<noteq> ''vm.remove-definition-v1'' \<or> \<not> valid_removal d \<or>
           connection_id (rd_resource d) \<noteq> plan_connection p \<or> plan_resources p \<noteq> [key] \<or> plan_before p \<noteq> [(key, rd_print d)]
        then failr ''INVALID_INPUT'' ''Invalid VM removal recipe binding.'' else Inr r))"

definition disk_removal_operation :: string where
  "disk_removal_operation = ''vm.remove-disks-v1''"

definition disk_receipt_kind :: string where
  "disk_receipt_kind = ''vm-disk-removal-receipt''"

definition parse_disk_removal :: "removal_env \<Rightarrow> plan \<Rightarrow> bytes \<Rightarrow> go_error + disk_removal" where
  "parse_disk_removal env p raw = (case re_disk_recipe env raw of
      None \<Rightarrow> failr ''INVALID_INPUT'' ''Invalid VM and disk removal recipe binding.''
    | Some r \<Rightarrow> (let m = kr_removal r; d = dr_definition m in
        if kr_version r \<noteq> 1 \<or> plan_operation p \<noteq> disk_removal_operation \<or> \<not> valid_disk_removal m \<or>
           connection_id (rd_resource d) \<noteq> plan_connection p \<or> plan_resources p \<noteq> dr_resources m \<or>
           plan_before p \<noteq> [(key_string (rd_resource d), rd_print d)]
        then failr ''INVALID_INPUT'' ''Invalid VM and disk removal recipe binding.'' else Inr m))"

definition bind_inventory :: "'w removal_host \<Rightarrow> definition_removal \<Rightarrow> (('w, removal_call) session, unit) act" where
  "bind_inventory h d = thenr (ask_logged (\<lambda>_. Machine_seen) (rh_machine h (connection_id (rd_resource d)) (key_uuid (rd_resource d)))) (\<lambda>v.
     thenr (unlessr (mw_key v = rd_resource d \<and> mw_name v = rd_name d \<and> mw_print v = rd_print d \<and> mw_state v = ''stopped'' \<and>
         mw_xml v \<noteq> [] \<and> \<not> mw_autostart v \<and> \<not> mw_saved v)
       ''STALE_PLAN'' ''The VM or its ownership record changed. Refresh and review removal again.'') (\<lambda>_.
     ctx_poll (rh_faults h)))"

section \<open>References to a disk\<close>

definition contains_text :: "string \<Rightarrow> string \<Rightarrow> bool" where
  "contains_text x needle \<longleftrightarrow> list_ex (\<lambda>k. take (length needle) (drop k x) = needle) [0..<Suc (length x)]"

definition mentions :: "disk_removal \<Rightarrow> string \<Rightarrow> bool" where
  "mentions r x \<longleftrightarrow> list_ex (\<lambda>d. list_ex (\<lambda>needle. needle \<noteq> [] \<and> contains_text x needle)
     [sd_path d, sd_key d, sd_name d, sd_generation d]) (dr_disks r)"

fun references_removal :: "disk_removal \<Rightarrow> json \<Rightarrow> bool" where
  "references_removal r (JStr x) \<longleftrightarrow> mentions r x"
| "references_removal r (JArr vs) \<longleftrightarrow> list_ex (references_removal r) vs"
| "references_removal r (JObj kvs) \<longleftrightarrow> list_ex (\<lambda>(k, v). mentions r k \<or> references_removal r v) kvs"
| "references_removal r _ \<longleftrightarrow> False"

record volume_intent =
  vi_type :: string
  vi_pool :: string
  vi_name :: string
  vi_source :: string
  vi_virtual :: "64 word"
  vi_bytes :: "64 word"
  vi_sha256 :: string

record created_volume =
  cv_intent :: volume_intent
  cv_key :: string
  cv_path :: string
  cv_generation :: string

record ownership =
  ow_version :: int
  ow_key :: resource_key
  ow_plan :: string
  ow_operation :: string
  ow_binding :: string
  ow_volumes :: "created_volume list"
  ow_acceptance :: string

record volume_progress =
  vp_intent :: volume_intent
  vp_allocated :: "created_volume option"
  vp_verified :: bool

record creation_receipt =
  cc_version :: int
  cc_plan :: string
  cc_operation :: string
  cc_binding :: string
  cc_vm :: string
  cc_connection :: string
  cc_volumes :: "volume_progress list"
  cc_verified :: bool
  cc_defined :: bool
  cc_booted :: bool

text \<open>The decoders and encoders of the records that are looked through.\<close>

record reference_codec =
  rf_json :: "bytes \<Rightarrow> go_error + json"
  rf_ownership :: "bytes \<Rightarrow> ownership option"
  rf_put_ownership :: "ownership \<Rightarrow> go_error + json"
  rf_creation :: "bytes \<Rightarrow> creation_receipt option"
  rf_put_creation :: "creation_receipt \<Rightarrow> go_error + json"

definition allocated_matches :: "created_volume \<Rightarrow> disk_removal \<Rightarrow> bool" where
  "allocated_matches v r \<longleftrightarrow> list_ex (\<lambda>d. cv_path v = sd_path d \<and> cv_key v = sd_key d \<and> cv_generation v = sd_generation d \<and>
     vi_pool (cv_intent v) = sd_pool d \<and> vi_name (cv_intent v) = sd_name d) (dr_disks r)"

definition ownership_ok :: "disk_removal \<Rightarrow> ownership \<Rightarrow> bool" where
  "ownership_ok r o' \<longleftrightarrow> (ow_version o' = 1 \<or> ow_version o' = 2) \<and> ow_key o' = rd_resource (dr_definition r) \<and> uuid_pattern (ow_plan o') \<and>
     uuid_pattern (ow_operation o') \<and> removal_digest (ow_binding o') \<and> (ow_version o' = 1 \<longrightarrow> ow_acceptance o' = []) \<and>
     (ow_version o' = 2 \<longrightarrow> uuid_pattern (ow_acceptance o'))"

type_synonym metadata_record = "(string \<times> string) \<times> bytes"

definition find_ownership :: "reference_codec \<Rightarrow> disk_removal \<Rightarrow> metadata_record \<Rightarrow> ownership option \<Rightarrow> go_error + ownership option" where
  "find_ownership c r entry own = (case entry of ((kind, i), body) \<Rightarrow>
     if kind \<noteq> ''created-vm'' \<or> i \<noteq> key_string (rd_resource (dr_definition r)) then Inr own
     else (case rf_ownership c body of
        None \<Rightarrow> failr ''RECOVERY_REQUIRED'' ''VM ownership metadata is not a recognized allocation record; preserve its disks.''
      | Some o' \<Rightarrow> if ownership_ok r o' then Inr (Some o')
          else failr ''RECOVERY_REQUIRED'' ''VM ownership metadata is not a recognized allocation record; preserve its disks.''))"

definition kept_progress :: "disk_removal \<Rightarrow> volume_progress \<Rightarrow> bool" where
  "kept_progress r v \<longleftrightarrow> (case vp_allocated v of
      None \<Rightarrow> True
    | Some a \<Rightarrow> \<not> vp_verified v \<or> vp_intent v \<noteq> cv_intent a \<or> \<not> allocated_matches a r)"

text \<open>What of a record counts as a reference: the machine's own allocation history of the disks is left out.\<close>

definition counted_value :: "reference_codec \<Rightarrow> disk_removal \<Rightarrow> ownership option \<Rightarrow> metadata_record \<Rightarrow> go_error + json" where
  "counted_value c r own entry = (case entry of ((kind, i), body) \<Rightarrow>
     bindr (rf_json c body) (\<lambda>value. (case own of
        None \<Rightarrow> Inr value
      | Some o' \<Rightarrow>
          bindr (if kind = ''created-vm'' \<and> i = key_string (ow_key o')
             then rf_put_ownership c (o'\<lparr>ow_volumes := filter (\<lambda>v. \<not> allocated_matches v r) (ow_volumes o')\<rparr>) else Inr value) (\<lambda>value.
          if kind = ''vm-creation'' \<and> i = ow_plan o' then (case rf_creation c body of
             None \<Rightarrow> failr ''RECOVERY_REQUIRED'' ''Creation receipt does not match this VM's verified allocation history.''
           | Some n \<Rightarrow>
               if cc_version n \<noteq> 1 \<or> cc_plan n \<noteq> ow_plan o' \<or> cc_operation n \<noteq> ow_operation o' \<or> cc_binding n \<noteq> ow_binding o' \<or>
                  cc_vm n \<noteq> key_uuid (ow_key o') \<or> cc_connection n \<noteq> connection_id (ow_key o') \<or> \<not> cc_defined n \<or> \<not> cc_verified n
               then failr ''RECOVERY_REQUIRED'' ''Creation receipt does not match this VM's verified allocation history.''
               else rf_put_creation c (n\<lparr>cc_volumes := filter (kept_progress r) (cc_volumes n)\<rparr>))
          else Inr value))))"

definition reference_error :: "string \<Rightarrow> string \<Rightarrow> go_error + 'a" where
  "reference_error kind i = failr ''RESOURCE_BUSY'' (''Recorded '' @ kind @ '' ('' @ i @ '') references a selected disk. Resolve that dependency before deletion.'')"

definition own_receipt :: "removal_env \<Rightarrow> string \<Rightarrow> plan \<Rightarrow> disk_removal \<Rightarrow> bytes \<Rightarrow> bool" where
  "own_receipt env op p r body \<longleftrightarrow> (case (digest (re_env env) (re_removal_json env r), re_disk_receipt env body) of
      (Inr hash, Some n) \<Rightarrow> dk_version n = 1 \<and> dk_operation n = op \<and> dk_plan n = plan_id p \<and> dk_digest n = plan_digest p \<and> dk_removal n = hash
    | _ \<Rightarrow> False)"

definition check_record ::
  "removal_env \<Rightarrow> reference_codec \<Rightarrow> go_error option \<Rightarrow> string \<Rightarrow> plan \<Rightarrow> disk_removal \<Rightarrow> ownership option \<Rightarrow> metadata_record \<Rightarrow> unit \<Rightarrow> go_error + unit" where
  "check_record env c ctx op p r own entry _ = (case entry of ((kind, i), body) \<Rightarrow>
     bindr (opt_err ctx) (\<lambda>_. bindr (rf_json c body) (\<lambda>_.
     if kind = disk_receipt_kind \<and> i = op then
       (if own_receipt env op p r body then Inr ()
        else failr ''RECOVERY_REQUIRED'' ''Current removal receipt does not match the accepted plan.'')
     else bindr (counted_value c r own entry) (\<lambda>value.
       if references_removal r value then reference_error kind i else Inr ()))))"

definition unresolved :: "job_state list" where
  "unresolved = [Queued, Validating, Running, Verifying, Recovery_required, Interrupted, Partial]"

definition check_job_input :: "reference_codec \<Rightarrow> db \<Rightarrow> plan \<Rightarrow> disk_removal \<Rightarrow> job \<Rightarrow> unit \<Rightarrow> go_error + unit" where
  "check_job_input c d p r j _ =
     (if job_plan j = plan_id p \<or> job_state j \<notin> set unresolved then Inr ()
      else bindr (get_plan (job_plan j) d) (\<lambda>(_, input). bindr (rf_json c input) (\<lambda>value.
        if references_removal r value then reference_error ''unresolved operation'' (job_id j) else Inr ())))"

definition check_references ::
  "removal_env \<Rightarrow> reference_codec \<Rightarrow> go_error option \<Rightarrow> string \<Rightarrow> plan \<Rightarrow> disk_removal \<Rightarrow> db \<Rightarrow> go_error + unit" where
  "check_references env c ctx op p r d =
     bindr (opt_err ctx) (\<lambda>_.
     bindr (foldr_res (find_ownership c r) (metadata_records d) None) (\<lambda>own.
     bindr (foldr_res (check_record env c ctx op p r own) (metadata_records d) ()) (\<lambda>_.
     bindr (foldr_res (check_job_input c d p r) (storage_reference_jobs d) ()) (\<lambda>_. opt_err ctx))))"

section \<open>Removing the definition\<close>

definition removal_kind :: string where
  "removal_kind = ''vm-removal-receipt''"

definition unavailable :: "string \<Rightarrow> ('s, 'a) act" where
  "unavailable what = refuse ''UNSUPPORTED_CAPABILITY'' what"

definition validate_removal ::
  "removal_env \<Rightarrow> 'w removal_host \<Rightarrow> plan \<Rightarrow> bytes \<Rightarrow> (('w, removal_call) session, unit) act" where
  "validate_removal env h p raw = thenr (liftr (parse_removal env p raw)) (\<lambda>r.
     if \<not> rh_removes_definitions h then unavailable ''VM removal provider unavailable.''
     else thenr (ask (rh_inspect h (plan_connection p) (key_uuid (rd_resource (rr_definition r))))) (\<lambda>current.
       thenr (unlessr (current = rr_definition r) ''STALE_PLAN'' ''This VM changed since preview. Go back and review its current settings.'')
         (\<lambda>_. bind_inventory h (rr_definition r))))"

definition new_removal_receipt :: "string \<Rightarrow> plan \<Rightarrow> definition_removal \<Rightarrow> removal_receipt" where
  "new_removal_receipt op p d = \<lparr>vr_version = 1, vr_operation = op, vr_plan = plan_id p, vr_digest = plan_digest p, vr_definition = d\<rparr>"

definition execute_removal ::
  "removal_env \<Rightarrow> 'w removal_host \<Rightarrow> string \<Rightarrow> plan \<Rightarrow> bytes \<Rightarrow> step \<Rightarrow> (('w, removal_call) session, unit) act" where
  "execute_removal env h op p raw st = thenr (liftr (parse_removal env p raw)) (\<lambda>r.
     if op = [] \<or> step_id st \<noteq> ''remove-definition'' then refuse ''INVALID_INPUT'' ''Durable removal operation identity required.''
     else if \<not> rh_removes_definitions h then unavailable ''VM removal provider unavailable.''
     else thenr (bind_inventory h (rr_definition r)) (\<lambda>_.
       thenr (effect Remove_definition (rh_remove h (rr_definition r))) (\<lambda>_.
         write_receipt (rh_faults h) removal_kind op None (re_put_receipt env (new_removal_receipt op p (rr_definition r))))))"

definition reconcile_removal ::
  "removal_env \<Rightarrow> 'w removal_host \<Rightarrow> string \<Rightarrow> plan \<Rightarrow> bytes \<Rightarrow> step \<Rightarrow> (('w, removal_call) session, bool) act" where
  "reconcile_removal env h op p raw st = thenr (liftr (parse_removal env p raw)) (\<lambda>r.
     thenr (ctx_poll (rh_faults h)) (\<lambda>_.
     if op = [] \<or> step_id st \<noteq> ''remove-definition'' then refuse ''INVALID_INPUT'' ''Durable removal operation identity required.''
     else thenr (read_receipt (rh_faults h) removal_kind op) (\<lambda>body.
       if Option.bind body (re_receipt env) \<noteq> Some (new_removal_receipt op p (rr_definition r))
       then refuse ''RECOVERY_REQUIRED'' ''No valid removal receipt. A missing VM alone does not prove this operation succeeded. Inspect the VM and retained disks; do not repeat removal.''
       else if \<not> rh_removes_definitions h then unavailable ''VM removal provider unavailable.''
       else thenr (ask (rh_absent h (rd_resource (rr_definition r)))) (\<lambda>absent.
         if \<not> absent
         then refuse ''RECOVERY_REQUIRED'' ''A VM with this UUID is still present or was recreated. Preserve it and inspect the operation; removal will not be repeated.''
         else thenr (ctx_poll (rh_faults h)) (\<lambda>_. retr True)))))"

section \<open>Removing disks\<close>

definition states_are :: "string list \<Rightarrow> nat \<Rightarrow> string \<Rightarrow> bool" where
  "states_are states n want \<longleftrightarrow> length states = n \<and> list_all (\<lambda>s. s = want) states"

definition references_clear ::
  "removal_env \<Rightarrow> reference_codec \<Rightarrow> 'w removal_host \<Rightarrow> string \<Rightarrow> plan \<Rightarrow> disk_removal \<Rightarrow> (('w, removal_call) session, unit) act" where
  "references_clear env c h op p r s = (case (ft_ctx (rh_faults h) (se_world s), ft_get (rh_faults h) (se_world s)) of
      (None, Some e) \<Rightarrow> (Inl e, s)
    | (cx, _) \<Rightarrow> (case check_references env c cx op p r (se_db s) of
        Inl e \<Rightarrow> (Inl e, s)
      | Inr _ \<Rightarrow> (Inr (), s\<lparr>se_log := se_log s @ [(References_clear, se_db s)]\<rparr>)))"

definition disk_states :: "'w removal_host \<Rightarrow> disk_removal \<Rightarrow> bool \<Rightarrow> (('w, removal_call) session, string list) act" where
  "disk_states h r started = ask_logged States_seen (rh_check h r started)"

definition validate_disk_removal ::
  "removal_env \<Rightarrow> reference_codec \<Rightarrow> 'w removal_host \<Rightarrow> string \<Rightarrow> plan \<Rightarrow> bytes \<Rightarrow> (('w, removal_call) session, unit) act" where
  "validate_disk_removal env c h op p raw = thenr (liftr (parse_disk_removal env p raw)) (\<lambda>r.
     if \<not> rh_removes_disks h then unavailable ''Disk removal provider unavailable.''
     else thenr (bind_inventory h (dr_definition r)) (\<lambda>_.
       thenr (disk_states h r False) (\<lambda>states.
       thenr (unlessr (states_are states (length (dr_disks r)) ''present'')
         ''STALE_PLAN'' ''Selected disks must all remain present and unchanged before removal.'') (\<lambda>_.
       references_clear env c h op p r))))"

definition save_disk_receipt ::
  "removal_env \<Rightarrow> 'w removal_host \<Rightarrow> string \<Rightarrow> bytes option \<Rightarrow> disk_receipt \<Rightarrow> (('w, removal_call) session, bytes option) act" where
  "save_disk_receipt env h op previous r = save_receipt (rh_faults h) disk_receipt_kind op previous (re_put_disk_receipt env r)"

definition not_cancelled :: "'w removal_host \<Rightarrow> string \<Rightarrow> (('w, removal_call) session, unit) act" where
  "not_cancelled h op s = (case ft_get (rh_faults h) (se_world s) of
      Some e \<Rightarrow> (Inl e, s)
    | None \<Rightarrow> (case get_job op (se_db s) of
        Inl e \<Rightarrow> (Inl e, s)
      | Inr j \<Rightarrow> if job_cancel j
          then (failr ''RECOVERY_REQUIRED'' ''Removal stopped after definition removal. Remaining disks were kept; inspect this job before any further action.'', s)
          else (Inr (), s)))"

definition wanted_states :: "nat \<Rightarrow> nat \<Rightarrow> string list" where
  "wanted_states i n = replicate i ''absent'' @ replicate (n - i) ''present''"

text \<open>What precedes the deletion of a disk: nothing recorded refers to it and all states are as recorded.\<close>

definition delete_ready ::
  "removal_env \<Rightarrow> reference_codec \<Rightarrow> 'w removal_host \<Rightarrow> string \<Rightarrow> plan \<Rightarrow> disk_removal \<Rightarrow> nat \<Rightarrow> nat \<Rightarrow> (('w, removal_call) session, unit) act" where
  "delete_ready env c h op p m i n =
     thenr (ctx_poll (rh_faults h)) (\<lambda>_.
     thenr (not_cancelled h op) (\<lambda>_.
     thenr (references_clear env c h op p m) (\<lambda>_.
     thenr (disk_states h m True) (\<lambda>states.
     if length states \<noteq> n then refuse ''RECOVERY_REQUIRED'' ''Incomplete disk state observation.''
     else unlessr (states = wanted_states i n) ''RECOVERY_REQUIRED'' ''Selected disk state differs from recorded effects; preserve remaining files.''))))"

text \<open>One turn of the loop; the receipt and the bytes last stored go from turn to turn.\<close>

definition delete_one ::
  "removal_env \<Rightarrow> reference_codec \<Rightarrow> 'w removal_host \<Rightarrow> string \<Rightarrow> plan \<Rightarrow> disk_removal \<Rightarrow> nat \<Rightarrow> disk_receipt \<times> bytes option \<Rightarrow>
   (('w, removal_call) session, disk_receipt \<times> bytes option) act" where
  "delete_one env c h op p m i rp = (let n = length (dk_disks (fst rp));
       intent = (fst rp)\<lparr>dk_disks := (dk_disks (fst rp))[i := ''intent'']\<rparr>;
       gone = intent\<lparr>dk_disks := (dk_disks intent)[i := ''deleted'']\<rparr> in
     thenr (delete_ready env c h op p m i n) (\<lambda>_.
     thenr (save_disk_receipt env h op (snd rp) intent) (\<lambda>prev.
     thenr (effect (Delete_disk i) (rh_delete h m i)) (\<lambda>_.
     thenr (disk_states h m True) (\<lambda>after.
     thenr (unlessr (length after = n \<and> after ! i = ''absent'')
       ''RECOVERY_REQUIRED'' ''Disk deletion returned but exact absence could not be confirmed.'') (\<lambda>_.
     thenr (save_disk_receipt env h op prev gone) (\<lambda>prev. retr (gone, prev))))))))"

fun delete_from ::
  "removal_env \<Rightarrow> reference_codec \<Rightarrow> 'w removal_host \<Rightarrow> string \<Rightarrow> plan \<Rightarrow> disk_removal \<Rightarrow> nat list \<Rightarrow> disk_receipt \<times> bytes option \<Rightarrow>
   (('w, removal_call) session, disk_receipt \<times> bytes option) act" where
  "delete_from env c h op p m [] rp = retr rp"
| "delete_from env c h op p m (i # is) rp = thenr (delete_one env c h op p m i rp) (delete_from env c h op p m is)"

definition first_disk_receipt :: "string \<Rightarrow> plan \<Rightarrow> disk_removal \<Rightarrow> string \<Rightarrow> disk_receipt" where
  "first_disk_receipt op p m hash = \<lparr>dk_version = 1, dk_operation = op, dk_plan = plan_id p, dk_digest = plan_digest p,
     dk_removal = hash, dk_definition = ''intent'', dk_disks = replicate (length (dr_disks m)) ''pending''\<rparr>"

text \<open>The part of a run after its checks.\<close>

definition removal_effects ::
  "removal_env \<Rightarrow> reference_codec \<Rightarrow> 'w removal_host \<Rightarrow> string \<Rightarrow> plan \<Rightarrow> disk_removal \<Rightarrow> string \<Rightarrow> (('w, removal_call) session, unit) act" where
  "removal_effects env c h op p m hash =
     (let r0 = first_disk_receipt op p m hash; r1 = r0\<lparr>dk_definition := ''removed''\<rparr> in
         thenr (save_disk_receipt env h op None r0) (\<lambda>prev0.
         thenr (effect Remove_definition (rh_remove h (dr_definition m))) (\<lambda>_.
         thenr (save_disk_receipt env h op prev0 r1) (\<lambda>prev1.
         thenr (delete_from env c h op p m [0..<length (dr_disks m)] (r1, prev1)) (\<lambda>_. retr ())))))"

definition execute_disk_removal ::
  "removal_env \<Rightarrow> reference_codec \<Rightarrow> 'w removal_host \<Rightarrow> string \<Rightarrow> plan \<Rightarrow> bytes \<Rightarrow> step \<Rightarrow> (('w, removal_call) session, unit) act" where
  "execute_disk_removal env c h op p raw st = thenr (liftr (parse_disk_removal env p raw)) (\<lambda>m.
     if op = [] \<or> step_id st \<noteq> ''remove-vm-and-disks'' then refuse ''INVALID_INPUT'' ''Durable disk removal identity required.''
     else thenr (validate_disk_removal env c h op p raw) (\<lambda>_.
       if \<not> rh_removes_definitions h then unavailable ''Definition removal provider unavailable.''
       else thenr (liftr (digest (re_env env) (re_removal_json env m))) (\<lambda>hash.
         removal_effects env c h op p m hash)))"

definition complete_receipt :: "string \<Rightarrow> plan \<Rightarrow> disk_removal \<Rightarrow> string \<Rightarrow> disk_receipt \<Rightarrow> bool" where
  "complete_receipt op p m hash r \<longleftrightarrow> dk_version r = 1 \<and> dk_operation r = op \<and> dk_plan r = plan_id p \<and> dk_digest r = plan_digest p \<and>
     dk_removal r = hash \<and> dk_definition r = ''removed'' \<and> states_are (dk_disks r) (length (dr_disks m)) ''deleted''"

definition reconcile_disk_removal ::
  "removal_env \<Rightarrow> 'w removal_host \<Rightarrow> string \<Rightarrow> plan \<Rightarrow> bytes \<Rightarrow> step \<Rightarrow> (('w, removal_call) session, bool) act" where
  "reconcile_disk_removal env h op p raw st = thenr (liftr (parse_disk_removal env p raw)) (\<lambda>m.
     if op = [] \<or> step_id st \<noteq> ''remove-vm-and-disks'' then refuse ''INVALID_INPUT'' ''Durable disk removal identity required.''
     else thenr (read_receipt (rh_faults h) disk_receipt_kind op) (\<lambda>body.
       thenr (liftr (digest (re_env env) (re_removal_json env m))) (\<lambda>hash.
       if (case Option.bind body (re_disk_receipt env) of None \<Rightarrow> True | Some r \<Rightarrow> \<not> complete_receipt op p m hash r)
       then refuse ''RECOVERY_REQUIRED'' ''Deletion is incomplete or an acknowledgement is missing. Preserve remaining files; this job will not replay removal.''
       else if \<not> rh_removes_disks h then unavailable ''Disk removal provider unavailable.''
       else thenr (disk_states h m True) (\<lambda>states.
         if \<not> states_are states (length (dr_disks m)) ''absent''
         then refuse ''RECOVERY_REQUIRED'' ''A selected volume remains or was recreated. It will not be deleted again.''
         else thenr (ctx_poll (rh_faults h)) (\<lambda>_. retr True)))))"

end
