(* ===== verification/Lifecycle_Laws.thy ===== *)
theory Lifecycle_Laws
  imports Lifecycle
begin

text \<open>
  How the workflows on a journal and a host are reasoned about: what a computation leaves in the log
  and in the journal, a weakest precondition \<open>after\<close> with a rule for each building block, and the
  interface \<open>single_run\<close> of operations that run their effects once.
\<close>

section \<open>Single computations\<close>

lemma effect_eq: "effect a call s = (x, t) \<Longrightarrow> se_log t = se_log s @ [(a, se_db s)]"
  by (auto simp: effect_def split: prod.split_asm)

lemma ask_log: "ask call s = (x, t) \<Longrightarrow> se_log t = se_log s"
  by (auto simp: ask_def split: prod.split_asm)

lemma ask_logged_log: "ask_logged f call s = (x, t) \<Longrightarrow> se_log t = se_log s @ (case x of Inl e \<Rightarrow> [] | Inr a \<Rightarrow> [(f a, se_db t)])"
  by (auto simp: ask_logged_def split: prod.split_asm sum.split_asm)

lemma ctx_poll_same: "ctx_poll f s = (x, t) \<Longrightarrow> t = s"
  by (auto simp: ctx_poll_def split: option.split_asm)

lemma read_same: "read_receipt f kind i s = (x, t) \<Longrightarrow> t = s"
  by (auto simp: read_receipt_def split: option.split_asm)

lemma effect_db: "effect e call s = (x, t) \<Longrightarrow> \<exists>x' w'. call (se_world s, se_db s) = (x', w', se_db t)"
  by (auto simp: effect_def split: prod.split_asm)

lemma ask_logged_db: "ask_logged f call s = (x, t) \<Longrightarrow> \<exists>x' w'. call (se_world s, se_db s) = (x', w', se_db t)"
  by (auto simp: ask_logged_def split: prod.split_asm sum.split_asm)

section \<open>The receipt stays\<close>

definition has_receipt :: "string \<Rightarrow> string \<Rightarrow> ('w, 'c) session \<Rightarrow> bool" where
  "has_receipt kind op s \<longleftrightarrow> metadata_bytes kind op (se_db s) \<noteq> None"

definition keeps :: "string \<Rightarrow> string \<Rightarrow> (('w, 'c) session, 'a) act \<Rightarrow> bool" where
  "keeps kind op m \<longleftrightarrow> (\<forall>s x t. m s = (x, t) \<longrightarrow> has_receipt kind op s \<longrightarrow> has_receipt kind op t)"

text \<open>What other jobs do while a call is under way leaves this job's receipt in the journal.\<close>

definition call_keeps :: "string \<Rightarrow> string \<Rightarrow> ('w, 'a) host_call \<Rightarrow> bool" where
  "call_keeps kind op call \<longleftrightarrow> (\<forall>w d x w' d'. call (w, d) = (x, w', d') \<longrightarrow>
     metadata_bytes kind op d \<noteq> None \<longrightarrow> metadata_bytes kind op d' \<noteq> None)"

lemma keepsD: "keeps kind op m \<Longrightarrow> m s = (x, t) \<Longrightarrow> has_receipt kind op s \<Longrightarrow> has_receipt kind op t"
  by (auto simp: keeps_def)

lemma keeps_thenr: "keeps kind op m \<Longrightarrow> (\<And>a. keeps kind op (f a)) \<Longrightarrow> keeps kind op (thenr m f)"
  unfolding keeps_def by (intro allI impI) (erule thenr_cases; blast)

lemma keeps_tryr: "keeps kind op m \<Longrightarrow> (\<And>x. keeps kind op (f x)) \<Longrightarrow> keeps kind op (tryr m f)"
  unfolding keeps_def by (intro allI impI) (erule tryr_cases; blast)

lemma keeps_plain [simp]: "keeps kind op (retr a)" "keeps kind op (liftr r)" "keeps kind op (unlessr b code msg)"
  by (auto simp: keeps_def)

lemma keeps_local [simp]: "keeps kind op (ctx_poll f)" "keeps kind op (read_receipt f k i)"
  by (auto simp: keeps_def has_receipt_def dest: ctx_poll_same read_same)

lemma keeps_effect: "call_keeps kind op call \<Longrightarrow> keeps kind op (effect e call)"
  unfolding keeps_def call_keeps_def has_receipt_def by (intro allI impI) (drule effect_db, elim exE, blast)

lemma keeps_ask_logged: "call_keeps kind op call \<Longrightarrow> keeps kind op (ask_logged f call)"
  unfolding keeps_def call_keeps_def has_receipt_def by (intro allI impI) (drule ask_logged_db, elim exE, blast)

lemma keeps_save [simp]: "keeps kind op (save_receipt f kind op prev body)"
  using receipts.stored_grows [of f kind op prev body] by (fastforce simp: keeps_def has_receipt_def)

section \<open>What holds after a computation\<close>

definition after :: "('s, 'a) act \<Rightarrow> (go_error + 'a \<Rightarrow> 's \<Rightarrow> bool) \<Rightarrow> 's \<Rightarrow> bool" where
  "after m Q s = (case m s of (x, t) \<Rightarrow> Q x t)"

lemma afterD: "after m Q s \<Longrightarrow> m s = (x, t) \<Longrightarrow> Q x t"
  by (simp add: after_def)

lemma after_mono: "after m Q s \<Longrightarrow> (\<And>x t. Q x t \<Longrightarrow> R x t) \<Longrightarrow> after m R s"
  by (auto simp: after_def)

lemma after_simps [simp]: "after (retr a) Q s \<longleftrightarrow> Q (Inr a) s" "after (liftr r) Q s \<longleftrightarrow> Q r s"
  "after (if b then m else m') Q s \<longleftrightarrow> (if b then after m Q s else after m' Q s)"
  "after (unlessr b code msg) Q s \<longleftrightarrow> Q (if b then Inr () else failr code msg) s"
  by (auto simp: after_def retr_def liftr_def unlessr_def)

lemma after_thenr: "after (thenr m f) Q s \<longleftrightarrow> after m (\<lambda>x t. case x of Inl e \<Rightarrow> Q (Inl e) t | Inr a \<Rightarrow> after (f a) Q t) s"
  by (auto simp: after_def thenr_def split: prod.split sum.split)

lemma after_tryr: "after (tryr m f) Q s \<longleftrightarrow> after m (\<lambda>x. after (f x) Q) s"
  by (auto simp: after_def tryr_def split: prod.split)

lemma after_poll: "(\<And>e. Q (Inl e) s) \<Longrightarrow> Q (Inr ()) s \<Longrightarrow> after (ctx_poll f) Q s"
  by (auto simp: after_def ctx_poll_def split: option.split)

lemma after_read: "(\<And>e. Q (Inl e) s) \<Longrightarrow> Q (Inr (metadata_bytes kind i (se_db s))) s \<Longrightarrow> after (read_receipt f kind i) Q s"
  by (auto simp: after_def read_receipt_def split: option.split)

lemma after_seen:
  assumes "call_keeps kind op call"
    and "\<And>e t. se_log t = se_log s \<Longrightarrow> (has_receipt kind op s \<Longrightarrow> has_receipt kind op t) \<Longrightarrow> Q (Inl e) t"
    and "\<And>a t. se_log t = se_log s @ [(f a, se_db t)] \<Longrightarrow> (has_receipt kind op s \<Longrightarrow> has_receipt kind op t) \<Longrightarrow> Q (Inr a) t"
  shows "after (ask_logged f call) Q s"
proof -
  obtain x t where run: "ask_logged f call s = (x, t)" by (cases "ask_logged f call s")
  then show ?thesis using assms(2,3) [of t] ask_logged_log [OF run] keepsD [OF keeps_ask_logged [OF assms(1)] run]
    by (cases x) (auto simp: after_def)
qed

lemma after_effect:
  assumes "call_keeps kind op call"
    and "\<And>x t. se_log t = se_log s @ [(e, se_db s)] \<Longrightarrow> (has_receipt kind op s \<Longrightarrow> has_receipt kind op t) \<Longrightarrow> Q x t"
  shows "after (effect e call) Q s"
proof -
  obtain x t where run: "effect e call s = (x, t)" by (cases "effect e call s")
  then show ?thesis using assms(2) [of t x] effect_eq [OF run] keepsD [OF keeps_effect [OF assms(1)] run] by (auto simp: after_def)
qed

lemma after_save:
  assumes "\<And>e t. se_log t = se_log s \<Longrightarrow> (has_receipt kind op s \<Longrightarrow> has_receipt kind op t) \<Longrightarrow> Q (Inl e) t"
    and "\<And>t. se_log t = se_log s \<Longrightarrow> metadata_bytes kind op (se_db s) = prev \<Longrightarrow> metadata_bytes kind op (se_db t) = Some body \<Longrightarrow> Q (Inr (Some body)) t"
  shows "after (save_receipt f kind op prev body) Q s"
proof -
  obtain x t where run: "save_receipt f kind op prev body s = (x, t)" by (cases "save_receipt f kind op prev body s")
  have "se_log t = se_log s" using receipts.only [OF run] by simp
  then show ?thesis using assms receipts.saved [of f kind op prev body s _ t] keepsD [OF keeps_save run] run
    by (cases x) (auto simp: after_def)
qed

section \<open>Operations that run once\<close>

text \<open>
  The life of one operation: its actions in any order and number, and in between anything else that
  leaves its record where it is.
\<close>

inductive life :: "('s \<Rightarrow> bool) \<Rightarrow> ('s \<Rightarrow> 'e list) \<Rightarrow> ('s \<Rightarrow> 's \<Rightarrow> bool) \<Rightarrow> 's \<Rightarrow> bool" for recorded calls act where
  begun: "\<not> recorded s \<Longrightarrow> calls s = [] \<Longrightarrow> life recorded calls act s"
| acted: "life recorded calls act s \<Longrightarrow> act s t \<Longrightarrow> life recorded calls act t"
| others: "life recorded calls act s \<Longrightarrow> (recorded s \<Longrightarrow> recorded t) \<Longrightarrow> calls t = calls s \<Longrightarrow> life recorded calls act t"

text \<open>
  An action has no effect, or it finds no record and leaves one; then the effects of a whole life are
  those of a single action.
\<close>

locale single_run =
  fixes recorded :: "'s \<Rightarrow> bool" and calls :: "'s \<Rightarrow> 'e list" and act :: "'s \<Rightarrow> 's \<Rightarrow> bool"
    and quiet :: "'e list \<Rightarrow> bool" and ok :: "'e list \<Rightarrow> bool"
  assumes acts: "act s t \<Longrightarrow> \<exists>es. calls t = calls s @ es \<and>
      (quiet es \<and> (recorded s \<longrightarrow> recorded t) \<or> \<not> recorded s \<and> recorded t \<and> ok es)"
    and quiet_nil: "quiet []" and quiet_both: "quiet xs \<Longrightarrow> quiet ys \<Longrightarrow> quiet (xs @ ys)" and ok_quiet: "quiet es \<Longrightarrow> ok es"
    and ok_before: "quiet xs \<Longrightarrow> ok ys \<Longrightarrow> ok (xs @ ys)" and ok_after: "ok xs \<Longrightarrow> quiet ys \<Longrightarrow> ok (xs @ ys)"
begin

lemma life_ok: "life recorded calls act s \<Longrightarrow> (recorded s \<or> quiet (calls s)) \<and> ok (calls s)"
proof (induction rule: life.induct)
  case (begun s)
  then show ?case using quiet_nil ok_quiet by simp
next
  case (acted s t)
  then show ?case using acts [OF acted.hyps(2)] quiet_both ok_before ok_after by metis
next
  case (others s t)
  then show ?case by auto
qed

end

end
