(* ===== verification/Disk_Removal_Laws.thy ===== *)
theory Disk_Removal_Laws
  imports Disk_Removal Lifecycle_Laws
begin

text \<open>
  What a removal does to the host, call by call: the definition and the disks go in order, each behind
  its own durable intent, a look at all recorded references and the states just observed; what is
  settled was observed; and a removal that has a receipt is never run again.
\<close>

section \<open>The log of a run\<close>

type_synonym removal_log = "(removal_call \<times> db) list"

fun deletion :: "removal_call \<Rightarrow> nat option" where
  "deletion (Delete_disk i) = Some i"
| "deletion _ = None"

definition deletions :: "removal_log \<Rightarrow> nat list" where
  "deletions es = List.map_filter (\<lambda>(c, _). deletion c) es"

definition removals :: "removal_log \<Rightarrow> nat" where
  "removals es = length (filter (\<lambda>(c, _). c = Remove_definition) es)"

lemma deletions_simps [simp]: "deletions [] = []" "deletions (xs @ ys) = deletions xs @ deletions ys"
  "deletions ((c, d) # es) = (case deletion c of None \<Rightarrow> deletions es | Some i \<Rightarrow> i # deletions es)"
  by (auto simp: deletions_def map_filter_simps List.map_filter_def split: option.split)

lemma removals_simps [simp]: "removals [] = 0" "removals (xs @ ys) = removals xs + removals ys"
  "removals ((c, d) # es) = (if c = Remove_definition then Suc (removals es) else removals es)"
  by (auto simp: removals_def)

text \<open>The receipts of a run: the intent to delete a disk, and its deletion.\<close>

definition receipt_at :: "string \<Rightarrow> plan \<Rightarrow> disk_removal \<Rightarrow> string \<Rightarrow> nat \<Rightarrow> disk_receipt" where
  "receipt_at op p m hash i = (first_disk_receipt op p m hash)\<lparr>dk_definition := ''removed'',
     dk_disks := replicate i ''deleted'' @ replicate (length (dr_disks m) - i) ''pending''\<rparr>"

definition intent_at :: "string \<Rightarrow> plan \<Rightarrow> disk_removal \<Rightarrow> string \<Rightarrow> nat \<Rightarrow> disk_receipt" where
  "intent_at op p m hash i = (receipt_at op p m hash i)\<lparr>dk_disks := (dk_disks (receipt_at op p m hash i))[i := ''intent'']\<rparr>"

lemma replicate_step: "i < n \<Longrightarrow> (replicate i a @ replicate (n - i) b)[i := a] = replicate (Suc i) a @ replicate (n - Suc i) b"
  by (simp add: list_update_append Suc_diff_Suc [symmetric] replicate_app_Cons_same)

lemma receipt_step: "i < length (dr_disks m) \<Longrightarrow>
    (intent_at op p m hash i)\<lparr>dk_disks := (dk_disks (intent_at op p m hash i))[i := ''deleted'']\<rparr> = receipt_at op p m hash (Suc i)"
  using replicate_step [of i "length (dr_disks m)" "''deleted''" "''pending''"] by (simp add: intent_at_def receipt_at_def)

text \<open>
  One deletion: the intent is stored, and just before it the disks were seen as the receipt says and
  nothing recorded referred to a selected disk.
\<close>

definition justified :: "removal_env \<Rightarrow> reference_codec \<Rightarrow> string \<Rightarrow> plan \<Rightarrow> disk_removal \<Rightarrow> string \<Rightarrow> removal_log \<Rightarrow> nat \<Rightarrow> bool" where
  "justified env c op p m hash es k \<longleftrightarrow> (case es ! k of
      (Delete_disk i, d) \<Rightarrow> 2 \<le> k \<and> fst (es ! (k - 1)) = States_seen (wanted_states i (length (dr_disks m))) \<and>
        fst (es ! (k - 2)) = References_clear \<and> (\<exists>cx. check_references env c cx op p m (snd (es ! (k - 2))) = Inr ()) \<and>
        metadata_bytes disk_receipt_kind op d = Some (re_put_disk_receipt env (intent_at op p m hash i)) \<and>
        0 < removals (take k es)
    | (Remove_definition, d) \<Rightarrow> metadata_bytes disk_receipt_kind op d = Some (re_put_disk_receipt env (first_disk_receipt op p m hash)) \<and>
        removals (take k es) = 0
    | _ \<Rightarrow> True)"

definition guarded_log :: "removal_env \<Rightarrow> reference_codec \<Rightarrow> string \<Rightarrow> plan \<Rightarrow> disk_removal \<Rightarrow> string \<Rightarrow> removal_log \<Rightarrow> bool" where
  "guarded_log env c op p m hash es \<longleftrightarrow>
     deletions es = [0..<length (deletions es)] \<and> length (deletions es) \<le> length (dr_disks m) \<and>
     (\<forall>k < length es. justified env c op p m hash es k)"

section \<open>Single steps of a removal\<close>

lemma not_cancelled_same: "not_cancelled h op s = (x, t) \<Longrightarrow> t = s"
  by (auto simp: not_cancelled_def split: option.split_asm sum.split_asm if_split_asm)

lemma references_log: "references_clear env c h op p m s = (x, t) \<Longrightarrow> se_db t = se_db s \<and> se_log t = se_log s @ (case x of
    Inl e \<Rightarrow> [] | Inr _ \<Rightarrow> [(References_clear, se_db s)]) \<and> (x = Inr () \<longrightarrow> (\<exists>cx. check_references env c cx op p m (se_db s) = Inr ()))"
  by (auto simp: references_clear_def split: sum.split_asm sum.split prod.split_asm option.split_asm)

lemma save_log: "save_disk_receipt env h op prev r s = (x, t) \<Longrightarrow> se_log t = se_log s"
  using receipts.only [of "rh_faults h" disk_receipt_kind op prev "re_put_disk_receipt env r" s x t] by (simp add: save_disk_receipt_def)

lemma save_stored: "save_disk_receipt env h op prev r s = (Inr q, t) \<Longrightarrow>
    metadata_bytes disk_receipt_kind op (se_db s) = prev \<and> metadata_bytes disk_receipt_kind op (se_db t) = Some (re_put_disk_receipt env r) \<and>
    q = Some (re_put_disk_receipt env r)"
  using receipts.saved [of "rh_faults h" disk_receipt_kind op prev "re_put_disk_receipt env r" s q t] by (simp add: save_disk_receipt_def)

section \<open>One disk\<close>

definition quiet :: "removal_log \<Rightarrow> bool" where
  "quiet es \<longleftrightarrow> deletions es = [] \<and> removals es = 0"

lemma quiet_simps [simp]: "quiet []" "quiet (xs @ ys) \<longleftrightarrow> quiet xs \<and> quiet ys"
  "quiet ((c, d) # es) \<longleftrightarrow> deletion c = None \<and> c \<noteq> Remove_definition \<and> quiet es"
  by (auto simp: quiet_def split: option.split)

lemma quiet_entry: "quiet es \<Longrightarrow> k < length es \<Longrightarrow> justified env c op p m hash (pre @ es) (length pre + k)"
proof (induction es arbitrary: pre k)
  case (Cons e es)
  show ?case
  proof (cases k)
    case 0
    obtain a d where e: "e = (a, d)" by (cases e)
    then show ?thesis using Cons.prems 0 by (cases a) (auto simp: justified_def)
  next
    case (Suc j)
    obtain a d where e: "e = (a, d)" by (cases e)
    show ?thesis using Cons.IH [of j "pre @ [e]"] Cons.prems Suc by (simp add: e)
  qed
qed simp

lemma ready_run:
  assumes "delete_ready env c h op p m i n s = (x, t)"
  shows "\<exists>es. se_log t = se_log s @ es \<and> quiet es \<and> (x = Inr () \<longrightarrow>
    (\<exists>d d' cx. es = [(References_clear, d), (States_seen (wanted_states i n), d')] \<and> check_references env c cx op p m d = Inr ()))"
  using assms unfolding delete_ready_def
proof (cases rule: thenr_cases)
  case (failed e)
  then show ?thesis by (auto dest: ctx_poll_same intro: exI [of _ "[]"])
next
  case (passed a s1)
  then have s1: "s1 = s" by (simp add: ctx_poll_same)
  from passed(2) show ?thesis
  proof (cases rule: thenr_cases)
    case (failed e)
    then show ?thesis using s1 by (auto dest: not_cancelled_same intro: exI [of _ "[]"])
  next
    case (passed b s2)
    then have s2: "s2 = s" using s1 by (auto dest: not_cancelled_same)
    from passed(2) show ?thesis
    proof (cases rule: thenr_cases)
      case (failed e)
      then show ?thesis using s2 by (auto dest!: references_log intro: exI [of _ "[]"])
    next
      case (passed u s3)
      then obtain cx where cx: "se_log s3 = se_log s @ [(References_clear, se_db s)]" "check_references env c cx op p m (se_db s) = Inr ()"
        using s2 references_log [OF passed(1)] by auto
      from passed(2) show ?thesis
      proof (cases rule: thenr_cases)
        case (failed e)
        then show ?thesis using cx by (auto simp: disk_states_def dest!: ask_logged_log)
      next
        case (passed states s4)
        then have "se_log s4 = se_log s @ [(References_clear, se_db s), (States_seen states, se_db s4)]"
          using cx by (auto simp: disk_states_def dest!: ask_logged_log)
        then show ?thesis using passed(2) cx(2) by (auto split: if_split_asm)
      qed
    qed
  qed
qed

text \<open>What a turn enters in the log.\<close>

definition turn :: "removal_env \<Rightarrow> reference_codec \<Rightarrow> string \<Rightarrow> plan \<Rightarrow> disk_removal \<Rightarrow> string \<Rightarrow> nat \<Rightarrow> removal_log \<Rightarrow> bool" where
  "turn env c op p m hash i es \<longleftrightarrow> quiet es \<or>
     (\<exists>d d' d2 cx rest. es = (References_clear, d) # (States_seen (wanted_states i (length (dr_disks m))), d') # (Delete_disk i, d2) # rest \<and>
        quiet rest \<and> check_references env c cx op p m d = Inr () \<and>
        metadata_bytes disk_receipt_kind op d2 = Some (re_put_disk_receipt env (intent_at op p m hash i)))"

lemma delete_one_run:
  assumes run: "delete_one env c h op p m i (receipt_at op p m hash i, prev) s = (x, t)" and i: "i < length (dr_disks m)"
  shows "\<exists>es. se_log t = se_log s @ es \<and> turn env c op p m hash i es \<and>
    (\<forall>q. x = Inr q \<longrightarrow> deletions es = [i] \<and> q = (receipt_at op p m hash (Suc i), Some (re_put_disk_receipt env (receipt_at op p m hash (Suc i)))) \<and>
      metadata_bytes disk_receipt_kind op (se_db t) = snd q)"
proof -
  have n: "length (dk_disks (receipt_at op p m hash i)) = length (dr_disks m)" using i by (simp add: receipt_at_def)
  note run' = run [unfolded delete_one_def Let_def fst_conv snd_conv n, folded intent_at_def, unfolded receipt_step [OF i]]
  from run' show ?thesis
  proof (cases rule: thenr_cases)
    case (failed e)
    then show ?thesis using ready_run [OF failed(1)] by (auto simp: turn_def)
  next
    case (passed a s1)
    then obtain d d' cx where s1: "se_log s1 = se_log s @ [(References_clear, d), (States_seen (wanted_states i (length (dr_disks m))), d')]"
        "check_references env c cx op p m d = Inr ()"
      using ready_run [OF passed(1)] by auto
    from passed(2) show ?thesis
    proof (cases rule: thenr_cases)
      case (failed e)
      then show ?thesis using s1 by (auto simp: turn_def dest!: save_log)
    next
      case (passed prev1 s2)
      note s2 = save_log [OF passed(1)] save_stored [OF passed(1)]
      have shape: ?thesis
        if "se_log t = se_log s2 @ (Delete_disk i, se_db s2) # rest" "quiet rest"
          "\<forall>q. x = Inr q \<longrightarrow> q = (receipt_at op p m hash (Suc i), Some (re_put_disk_receipt env (receipt_at op p m hash (Suc i)))) \<and>
            metadata_bytes disk_receipt_kind op (se_db t) = snd q" for rest
        using that s1 s2 unfolding turn_def quiet_def by (intro exI [of _ "(References_clear, d) # (States_seen (wanted_states i (length (dr_disks m))), d') # (Delete_disk i, se_db s2) # rest"]) auto
      from passed(2) show ?thesis
      proof (cases rule: thenr_cases)
        case (failed e)
        then show ?thesis using shape [of "[]"] by (auto dest: effect_eq)
      next
        case (passed u s3)
        note s3 = effect_eq [OF passed(1)]
        from passed(2) show ?thesis
        proof (cases rule: thenr_cases)
          case (failed e)
          then show ?thesis using shape [of "[]"] s3 by (auto simp: disk_states_def dest!: ask_logged_log)
        next
          case (passed after s4)
          then have s4: "se_log s4 = se_log s2 @ (Delete_disk i, se_db s2) # [(States_seen after, se_db s4)]"
            using s3 by (auto simp: disk_states_def dest!: ask_logged_log)
          from passed(2) show ?thesis
          proof (cases rule: thenr_cases)
            case (failed e)
            then show ?thesis using shape [of "[(States_seen after, se_db s4)]"] s4 by auto
          next
            case (passed v s5)
            then have s5: "s5 = s4" by (auto split: if_split_asm)
            from passed(2) show ?thesis
            proof (cases rule: thenr_cases)
              case (failed e)
              then show ?thesis using shape [of "[(States_seen after, se_db s4)]"] s4 s5 by (auto dest!: save_log)
            next
              case (passed prev2 s6)
              then show ?thesis using shape [of "[(States_seen after, se_db s4)]"] s4 s5 save_log [OF passed(1)] save_stored [OF passed(1)] by auto
            qed
          qed
        qed
      qed
    qed
  qed
qed

section \<open>All disks\<close>

lemma justified_append: "k < length es \<Longrightarrow> justified env c op p m hash (es @ fs) k \<longleftrightarrow> justified env c op p m hash es k"
proof -
  assume k: "k < length es"
  have e: "(es @ fs) ! k = es ! k" "(es @ fs) ! (k - 1) = es ! (k - 1)" "(es @ fs) ! (k - 2) = es ! (k - 2)" "take k (es @ fs) = take k es"
    using k less_imp_diff_less [OF k] by (simp_all add: nth_append)
  show ?thesis unfolding justified_def e ..
qed

lemma guarded_turn:
  assumes g: "guarded_log env c op p m hash es" and t: "turn env c op p m hash i fs"
    and i: "deletions es = [0..<i]" "i < length (dr_disks m)" and removed: "0 < removals es"
  shows "guarded_log env c op p m hash (es @ fs)"
proof -
  have new: "justified env c op p m hash (es @ fs) (length es + k)" if k: "k < length fs" for k
    using t unfolding turn_def
  proof (elim disjE exE conjE)
    assume "quiet fs"
    then show ?thesis using quiet_entry k by blast
  next
    fix d d' d2 :: db and cx rest
    let ?pre = "[(References_clear, d), (States_seen (wanted_states i (length (dr_disks m))), d'), (Delete_disk i, d2)]"
    assume fs: "fs = (References_clear, d) # (States_seen (wanted_states i (length (dr_disks m))), d') # (Delete_disk i, d2) # rest"
      and rest: "quiet rest" and clear: "check_references env c cx op p m d = Inr ()"
      and stored: "metadata_bytes disk_receipt_kind op d2 = Some (re_put_disk_receipt env (intent_at op p m hash i))"
    consider "k < 2" | "k = 2" | j where "k = 3 + j" "j < length rest" using k fs by (cases k rule: nat.exhaust) (auto simp: fs less_Suc_eq_0_disj numeral_3_eq_3 numeral_2_eq_2)
    then show ?thesis
    proof cases
      case 1
      then show ?thesis by (auto simp: justified_def nth_append fs less_2_cases_iff)
    next
      case 2
      have "(es @ fs) ! (length es + 2) = (Delete_disk i, d2)" "(es @ fs) ! (length es + 1) = (States_seen (wanted_states i (length (dr_disks m))), d')"
        "(es @ fs) ! length es = (References_clear, d)" "take (length es + 2) (es @ fs) = es @ take 2 fs"
        by (simp_all add: fs nth_append)
      then show ?thesis using 2 clear stored removed by (auto simp: justified_def)
    next
      case 3
      have "justified env c op p m hash ((es @ ?pre) @ rest) (length (es @ ?pre) + j)" by (rule quiet_entry [OF rest 3(2)])
      moreover have eqs: "length (es @ ?pre) + j = length es + k" "(es @ ?pre) @ rest = es @ fs" using 3(1) fs by simp_all
      ultimately show ?thesis unfolding eqs by blast
    qed
  qed
  have dels: "deletions fs = [] \<or> deletions fs = [i]" using t by (auto simp: turn_def quiet_def)
  have "justified env c op p m hash (es @ fs) k" if k: "k < length (es @ fs)" for k
  proof (cases "k < length es")
    case True
    then show ?thesis using g by (simp add: justified_append guarded_log_def)
  next
    case False
    then show ?thesis using new [of "k - length es"] k by simp
  qed
  then show ?thesis using dels i by (auto simp: guarded_log_def)
qed

lemma turn_removes: "turn env c op p m hash i fs \<Longrightarrow> removals fs = 0"
  by (auto simp: turn_def quiet_def)

lemma delete_from_run:
  assumes "delete_from env c h op p m [i..<length (dr_disks m)] (receipt_at op p m hash i, prev) s = (x, t)"
    and "i \<le> length (dr_disks m)" and "guarded_log env c op p m hash es" and "deletions es = [0..<i]" and "0 < removals es"
    and "prev = Some (re_put_disk_receipt env (receipt_at op p m hash i))" and "metadata_bytes disk_receipt_kind op (se_db s) = prev"
  shows "\<exists>fs. se_log t = se_log s @ fs \<and> guarded_log env c op p m hash (es @ fs) \<and> removals fs = 0 \<and>
    (\<forall>q. x = Inr q \<longrightarrow> deletions (es @ fs) = [0..<length (dr_disks m)] \<and>
      metadata_bytes disk_receipt_kind op (se_db t) = Some (re_put_disk_receipt env (receipt_at op p m hash (length (dr_disks m)))))"
  using assms
proof (induction "length (dr_disks m) - i" arbitrary: i prev s es)
  case 0
  then have "i = length (dr_disks m)" by simp
  then show ?case using 0 by (intro exI [of _ "[]"]) auto
next
  case (Suc k)
  then have i: "i < length (dr_disks m)" by simp
  then have upt: "[i..<length (dr_disks m)] = i # [Suc i..<length (dr_disks m)]" by (simp add: upt_rec)
  from Suc.prems(1) [unfolded upt delete_from.simps] show ?case
  proof (cases rule: thenr_cases)
    case (failed e)
    from delete_one_run [OF failed(1) i] obtain fs where "se_log t = se_log s @ fs" "turn env c op p m hash i fs" by blast
    then show ?thesis using guarded_turn [OF Suc.prems(3) _ Suc.prems(4) i Suc.prems(5)] turn_removes failed(2) by blast
  next
    case (passed q s1)
    from delete_one_run [OF passed(1) i] obtain fs where fs: "se_log s1 = se_log s @ fs" "turn env c op p m hash i fs" "deletions fs = [i]"
        "q = (receipt_at op p m hash (Suc i), Some (re_put_disk_receipt env (receipt_at op p m hash (Suc i))))"
        "metadata_bytes disk_receipt_kind op (se_db s1) = snd q" by blast
    have g: "guarded_log env c op p m hash (es @ fs)" by (rule guarded_turn [OF Suc.prems(3) fs(2) Suc.prems(4) i Suc.prems(5)])
    have run: "delete_from env c h op p m [Suc i..<length (dr_disks m)]
        (receipt_at op p m hash (Suc i), Some (re_put_disk_receipt env (receipt_at op p m hash (Suc i)))) s1 = (x, t)"
      using passed(2) fs(4) by simp
    have "\<exists>gs. se_log t = se_log s1 @ gs \<and> guarded_log env c op p m hash ((es @ fs) @ gs) \<and> removals gs = 0 \<and>
        (\<forall>q. x = Inr q \<longrightarrow> deletions ((es @ fs) @ gs) = [0..<length (dr_disks m)] \<and>
          metadata_bytes disk_receipt_kind op (se_db t) = Some (re_put_disk_receipt env (receipt_at op p m hash (length (dr_disks m)))))"
      by (rule Suc.hyps(1) [OF _ run _ g]) (use Suc.hyps(2) Suc.prems(4,5) i fs in auto)
    then obtain gs where "se_log t = se_log s1 @ gs" "guarded_log env c op p m hash ((es @ fs) @ gs)" "removals gs = 0"
        "\<forall>q. x = Inr q \<longrightarrow> deletions ((es @ fs) @ gs) = [0..<length (dr_disks m)] \<and>
          metadata_bytes disk_receipt_kind op (se_db t) = Some (re_put_disk_receipt env (receipt_at op p m hash (length (dr_disks m))))" by blast
    then show ?thesis using fs(1) turn_removes [OF fs(2)] by (intro exI [of _ "fs @ gs"]) simp
  qed
qed

section \<open>The whole removal\<close>

lemma bind_inventory_log: "bind_inventory h d s = (x, t) \<Longrightarrow> \<exists>es. se_log t = se_log s @ es \<and> quiet es"
  unfolding bind_inventory_def
  by (erule thenr_cases; (erule thenr_cases)?)
    (auto dest!: ask_logged_log ctx_poll_same split: if_split_asm)

lemma validate_log: "validate_disk_removal env c h op p raw s = (x, t) \<Longrightarrow> \<exists>es. se_log t = se_log s @ es \<and> quiet es"
  unfolding validate_disk_removal_def
proof (erule thenr_cases)
  fix m s1
  assume m: "liftr (parse_disk_removal env p raw) s = (Inr m, s1)"
    and "(if \<not> rh_removes_disks h then unavailable ''Disk removal provider unavailable.''
      else thenr (bind_inventory h (dr_definition m)) (\<lambda>_. thenr (disk_states h m False) (\<lambda>states.
        thenr (unlessr (states_are states (length (dr_disks m)) ''present'')
          ''STALE_PLAN'' ''Selected disks must all remain present and unchanged before removal.'') (\<lambda>_.
        references_clear env c h op p m)))) s1 = (x, t)"
  then consider "t = s" | "thenr (bind_inventory h (dr_definition m)) (\<lambda>_. thenr (disk_states h m False) (\<lambda>states.
        thenr (unlessr (states_are states (length (dr_disks m)) ''present'')
          ''STALE_PLAN'' ''Selected disks must all remain present and unchanged before removal.'') (\<lambda>_.
        references_clear env c h op p m))) s = (x, t)"
    by (auto simp: unavailable_def split: if_split_asm)
  then show ?thesis
  proof cases
    case 2
    then show ?thesis
    proof (cases rule: thenr_cases)
      case (failed e)
      then show ?thesis by (auto dest: bind_inventory_log)
    next
      case (passed u s2)
      obtain es where es: "se_log s2 = se_log s @ es" "quiet es" using bind_inventory_log [OF passed(1)] by blast
      from passed(2) show ?thesis
      proof (cases rule: thenr_cases)
        case (failed e)
        then show ?thesis using es by (auto simp: disk_states_def dest!: ask_logged_log)
      next
        case (passed states s3)
        then have s3: "se_log s3 = se_log s @ (es @ [(States_seen states, se_db s3)])" using es by (auto simp: disk_states_def dest!: ask_logged_log)
        from passed(2) show ?thesis
        proof (cases rule: thenr_cases)
          case (failed e)
          then show ?thesis using s3 es by (intro exI [of _ "es @ [(States_seen states, se_db s3)]"]) auto
        next
          case (passed v s4)
          then have "s4 = s3" by (auto split: if_split_asm)
          then show ?thesis using s3 es references_log [OF passed(2)]
            by (intro exI [of _ "es @ (States_seen states, se_db s3) # (case x of Inl e \<Rightarrow> [] | Inr _ \<Rightarrow> [(References_clear, se_db s4)])"])
              (auto split: sum.split)
        qed
      qed
    qed
  qed (auto intro: exI [of _ "[]"])
qed (auto intro: exI [of _ "[]"])

lemma quiet_guarded: "quiet es \<Longrightarrow> guarded_log env c op p m hash es"
  using quiet_entry [of es _ env c op p m hash "[]"] by (auto simp: guarded_log_def quiet_def)

lemma guarded_removal:
  assumes "quiet es" and "metadata_bytes disk_receipt_kind op d = Some (re_put_disk_receipt env (first_disk_receipt op p m hash))"
  shows "guarded_log env c op p m hash (es @ [(Remove_definition, d)])"
proof -
  have "justified env c op p m hash (es @ [(Remove_definition, d)]) k" if "k < Suc (length es)" for k
  proof (cases "k < length es")
    case True
    then show ?thesis using quiet_guarded [OF assms(1), of env c op p m hash] by (simp add: justified_append guarded_log_def)
  next
    case False
    then have "k = length es" using that by simp
    then show ?thesis using assms by (simp add: justified_def quiet_def)
  qed
  then show ?thesis using assms(1) by (auto simp: guarded_log_def quiet_def)
qed

definition ran :: "removal_env \<Rightarrow> reference_codec \<Rightarrow> string \<Rightarrow> plan \<Rightarrow> disk_removal \<Rightarrow> string \<Rightarrow> removal_log \<Rightarrow> go_error + unit \<Rightarrow> db \<Rightarrow> bool" where
  "ran env c op p m hash es x d \<longleftrightarrow> guarded_log env c op p m hash es \<and> removals es \<le> 1 \<and>
     (x = Inr () \<longrightarrow> removals es = 1 \<and> deletions es = [0..<length (dr_disks m)] \<and>
        metadata_bytes disk_receipt_kind op d = Some (re_put_disk_receipt env (receipt_at op p m hash (length (dr_disks m)))))"

lemma effects_run:
  assumes q: "quiet es" and run: "removal_effects env c h op p m hash s = (x, t)"
  shows "\<exists>fs. se_log t = se_log s @ fs \<and> ran env c op p m hash (es @ fs) x (se_db t) \<and>
    (metadata_bytes disk_receipt_kind op (se_db s) \<noteq> None \<longrightarrow> fs = [] \<and> (\<exists>e. x = Inl e))"
proof -
  have r1: "(first_disk_receipt op p m hash)\<lparr>dk_definition := ''removed''\<rparr> = receipt_at op p m hash 0"
    by (simp add: first_disk_receipt_def receipt_at_def)
  note run' = run [unfolded removal_effects_def Let_def, unfolded r1]
  have stop: "ran env c op p m hash es (Inl e) d" for e d using quiet_guarded [OF q] q by (simp add: ran_def quiet_def)
  from run' show ?thesis
  proof (cases rule: thenr_cases)
    case (failed e)
    then show ?thesis using stop [of e "se_db t"] by (intro exI [of _ "[]"]) (auto dest: save_log)
  next
    case (passed prev0 s1)
    note s1 = save_log [OF passed(1)] save_stored [OF passed(1)]
    have g: "guarded_log env c op p m hash (es @ [(Remove_definition, se_db s1)])" by (rule guarded_removal [OF q]) (use s1 in simp)
    have one: "removals (es @ [(Remove_definition, se_db s1)]) = 1" "deletions (es @ [(Remove_definition, se_db s1)]) = [0..<0]"
      using q by (simp_all add: quiet_def)
    from passed(2) show ?thesis
    proof (cases rule: thenr_cases)
      case (failed e)
      then have "se_log t = se_log s @ [(Remove_definition, se_db s1)]" using s1 by (auto dest: effect_eq)
      then show ?thesis using g one failed(2) s1 by (intro exI [of _ "[(Remove_definition, se_db s1)]"]) (auto simp: ran_def)
    next
      case (passed u s2)
      then have s2: "se_log s2 = se_log s @ [(Remove_definition, se_db s1)]" using s1 by (auto dest: effect_eq)
      from passed(2) show ?thesis
      proof (cases rule: thenr_cases)
        case (failed e)
        then show ?thesis using g one s1 s2 by (intro exI [of _ "[(Remove_definition, se_db s1)]"]) (auto simp: ran_def dest: save_log)
      next
        case (passed prev1 s3)
        note s3 = save_log [OF passed(1)] save_stored [OF passed(1)]
        have done_run: ?thesis
          if d: "delete_from env c h op p m [0..<length (dr_disks m)] (receipt_at op p m hash 0, prev1) s3 = (y, t)"
            and y: "(\<exists>e. x = Inl e) \<or> x = Inr () \<and> (\<exists>q. y = Inr q)" for y
        proof -
          obtain fs where fs: "se_log t = se_log s3 @ fs" "guarded_log env c op p m hash ((es @ [(Remove_definition, se_db s1)]) @ fs)" "removals fs = 0"
              "\<forall>q. y = Inr q \<longrightarrow> deletions ((es @ [(Remove_definition, se_db s1)]) @ fs) = [0..<length (dr_disks m)] \<and>
                metadata_bytes disk_receipt_kind op (se_db t) = Some (re_put_disk_receipt env (receipt_at op p m hash (length (dr_disks m))))"
            using delete_from_run [OF d _ g one(2)] one(1) s3 by auto
          have "ran env c op p m hash (es @ (Remove_definition, se_db s1) # fs) x (se_db t)"
            using fs y one(1) unfolding ran_def by auto
          then show ?thesis using fs(1) s1 s2 s3 by (intro exI [of _ "(Remove_definition, se_db s1) # fs"]) auto
        qed
        from passed(2) show ?thesis
          by (cases rule: thenr_cases) (use done_run in \<open>auto\<close>)
      qed
    qed
  qed
qed

lemma removal_run:
  assumes run: "execute_disk_removal env c h op p raw st s = (x, t)"
  shows "\<exists>es. se_log t = se_log s @ es \<and> (quiet es \<and> (\<exists>e. x = Inl e) \<or>
    (\<exists>m hash. parse_disk_removal env p raw = Inr m \<and> digest (re_env env) (re_removal_json env m) = Inr hash \<and> ran env c op p m hash es x (se_db t)))"
  using run [unfolded execute_disk_removal_def]
proof (cases rule: thenr_cases)
  case (failed e)
  then show ?thesis by (intro exI [of _ "[]"]) auto
next
  case (passed m s1)
  then have m: "parse_disk_removal env p raw = Inr m" "s1 = s" by auto
  show ?thesis
  proof (cases "op = [] \<or> step_id st \<noteq> ''remove-vm-and-disks''")
    case True
    then show ?thesis using passed(2) m by (intro exI [of _ "[]"]) auto
  next
    case False
    from passed(2) [unfolded if_not_P [OF False]] show ?thesis
    proof (cases rule: thenr_cases)
      case (failed e)
      then show ?thesis using m validate_log by blast
    next
      case (passed u s2)
      obtain es where es: "se_log s2 = se_log s @ es" "quiet es" using validate_log [OF passed(1)] m by blast
      show ?thesis
      proof (cases "rh_removes_definitions h")
        case False
        then show ?thesis using passed(2) es by (auto simp: unavailable_def)
      next
        case True
        then have "thenr (liftr (digest (re_env env) (re_removal_json env m))) (\<lambda>hash. removal_effects env c h op p m hash) s2 = (x, t)"
          using passed(2) by simp
        then show ?thesis
        proof (cases rule: thenr_cases)
          case (failed e)
          then show ?thesis using es by auto
        next
          case (passed hash s3)
          then obtain fs where "se_log t = se_log s2 @ fs" "ran env c op p m hash (es @ fs) x (se_db t)"
            using effects_run [OF es(2)] by fastforce
          then show ?thesis using es m passed(1) by (intro exI [of _ "es @ fs"]) auto
        qed
      qed
    qed
  qed
qed

section \<open>The receipt stays\<close>

definition host_keeps :: "string \<Rightarrow> 'w removal_host \<Rightarrow> bool" where
  "host_keeps op h \<longleftrightarrow> (\<forall>uri i. call_keeps disk_receipt_kind op (rh_machine h uri i)) \<and> (\<forall>d. call_keeps disk_receipt_kind op (rh_remove h d)) \<and>
     (\<forall>r b. call_keeps disk_receipt_kind op (rh_check h r b)) \<and> (\<forall>r i. call_keeps disk_receipt_kind op (rh_delete h r i))"

lemma removal_keeps [simp]: "keeps kind op (not_cancelled h op')" "keeps kind op (references_clear env c h op' p m)"
  by (auto simp: keeps_def has_receipt_def dest: not_cancelled_same references_log)

lemma save_keeps [simp]: "keeps disk_receipt_kind op (save_disk_receipt env h op prev r)"
  by (simp add: save_disk_receipt_def)

lemma keeps_states: "host_keeps op h \<Longrightarrow> keeps disk_receipt_kind op (disk_states h m b)"
  unfolding disk_states_def by (rule keeps_ask_logged) (simp add: host_keeps_def)

lemma keeps_bind: "host_keeps op h \<Longrightarrow> keeps disk_receipt_kind op (bind_inventory h d)"
  unfolding bind_inventory_def by (intro keeps_thenr keeps_ask_logged) (auto simp: host_keeps_def)

lemma keeps_delete_one: "host_keeps op h \<Longrightarrow> keeps disk_receipt_kind op (delete_one env c h op p m i rp)"
  unfolding delete_one_def delete_ready_def Let_def
  by (intro keeps_thenr keeps_effect keeps_states) (auto simp: host_keeps_def)

lemma keeps_delete_from: "host_keeps op h \<Longrightarrow> keeps disk_receipt_kind op (delete_from env c h op p m is rp)"
  by (induction "is" arbitrary: rp) (auto intro!: keeps_thenr keeps_delete_one)

lemma keeps_validate: "host_keeps op h \<Longrightarrow> keeps disk_receipt_kind op (validate_disk_removal env c h op p raw)"
  unfolding validate_disk_removal_def unavailable_def
  by (intro keeps_thenr) (auto intro!: keeps_thenr keeps_bind keeps_states)

lemma keeps_reconcile: "host_keeps op h \<Longrightarrow> keeps disk_receipt_kind op (reconcile_disk_removal env h op p raw st)"
proof -
  assume h: "host_keeps op h"
  have "keeps disk_receipt_kind op (read_receipt (rh_faults h) kind i)" for kind i by (auto simp: keeps_def dest: read_same)
  then show ?thesis unfolding reconcile_disk_removal_def unavailable_def
    using h by (intro keeps_thenr) (auto intro!: keeps_thenr keeps_states)
qed

lemma reconcile_quiet:
  assumes "reconcile_disk_removal env h op p raw st s = (x, t)"
  shows "\<exists>es. se_log t = se_log s @ es \<and> quiet es"
  using assms unfolding reconcile_disk_removal_def unavailable_def disk_states_def
  by (auto elim!: thenr_cases simp: quiet_def split: if_split_asm dest!: read_same ctx_poll_same ask_logged_log)

lemma keeps_remove: "host_keeps op h \<Longrightarrow> keeps disk_receipt_kind op (effect Remove_definition (rh_remove h d))"
  by (intro keeps_effect) (simp add: host_keeps_def)

lemma keeps_effects: "host_keeps op h \<Longrightarrow> keeps disk_receipt_kind op (removal_effects env c h op p m hash)"
  unfolding removal_effects_def Let_def by (intro keeps_thenr save_keeps keeps_remove keeps_delete_from keeps_plain)

lemma keeps_execute: "host_keeps op h \<Longrightarrow> keeps disk_receipt_kind op (execute_disk_removal env c h op p raw st)"
  unfolding execute_disk_removal_def unavailable_def
  by (intro keeps_thenr) (auto intro!: keeps_thenr keeps_validate keeps_effects)

lemma effects_receipt:
  assumes h: "host_keeps op h" and run: "removal_effects env c h op p m hash s = (x, t)"
  shows "se_log t = se_log s \<or> has_receipt disk_receipt_kind op t"
  using run [unfolded removal_effects_def Let_def]
proof (cases rule: thenr_cases)
  case (failed e)
  then show ?thesis by (auto dest: save_log)
next
  case (passed prev s1)
  have "has_receipt disk_receipt_kind op s1" using save_stored [OF passed(1)] by (simp add: has_receipt_def)
  then have "has_receipt disk_receipt_kind op t"
    by (intro keepsD [OF keeps_thenr passed(2)] keeps_thenr save_keeps keeps_remove [OF h] keeps_delete_from [OF h] keeps_plain)
  then show ?thesis ..
qed

text \<open>A run either has no effect, or it found no receipt and leaves one.\<close>

lemma execute_once:
  assumes h: "host_keeps op h" and run: "execute_disk_removal env c h op p raw st s = (x, t)"
  shows "\<exists>es. se_log t = se_log s @ es \<and> (quiet es \<or>
    \<not> has_receipt disk_receipt_kind op s \<and> has_receipt disk_receipt_kind op t \<and> removals es \<le> 1 \<and> deletions es = [0..<length (deletions es)])"
  using run [unfolded execute_disk_removal_def]
proof (cases rule: thenr_cases)
  case (failed e)
  then show ?thesis by (intro exI [of _ "[]"]) auto
next
  case (passed m s1)
  then have m: "s1 = s" by auto
  show ?thesis
  proof (cases "op = [] \<or> step_id st \<noteq> ''remove-vm-and-disks''")
    case True
    then show ?thesis using passed(2) m by (intro exI [of _ "[]"]) auto
  next
    case False
    from passed(2) [unfolded if_not_P [OF False]] show ?thesis
    proof (cases rule: thenr_cases)
      case (failed e)
      then show ?thesis using m validate_log by blast
    next
      case (passed u s2)
      obtain es where es: "se_log s2 = se_log s @ es" "quiet es" using validate_log [OF passed(1)] m by blast
      have kept: "has_receipt disk_receipt_kind op s \<Longrightarrow> has_receipt disk_receipt_kind op s2" using keepsD [OF keeps_validate [OF h] passed(1)] m by simp
      consider "t = s2" | hash where "removal_effects env c h op p m hash s2 = (x, t)"
        using passed(2) by (auto simp: unavailable_def elim!: thenr_cases split: if_split_asm)
      then show ?thesis
      proof cases
        case 1
        then show ?thesis using es by blast
      next
        case 2
        obtain fs where fs: "se_log t = se_log s2 @ fs" "ran env c op p m hash (es @ fs) x (se_db t)"
            "has_receipt disk_receipt_kind op s2 \<longrightarrow> fs = []"
          using effects_run [OF es(2) 2] by (auto simp: has_receipt_def)
        then show ?thesis using es kept effects_receipt [OF h 2]
          by (intro exI [of _ "es @ fs"]) (cases "fs = []"; auto simp: ran_def guarded_log_def)
      qed
    qed
  qed
qed

definition removal_act :: "removal_env \<Rightarrow> reference_codec \<Rightarrow> string \<Rightarrow> ('w, removal_call) session \<Rightarrow> ('w, removal_call) session \<Rightarrow> bool" where
  "removal_act env c op s t \<longleftrightarrow> (\<exists>h p raw st. host_keeps op h \<and>
     ((\<exists>x. execute_disk_removal env c h op p raw st s = (x, t)) \<or> (\<exists>x. reconcile_disk_removal env h op p raw st s = (x, t))))"

definition removed_once :: "removal_log \<Rightarrow> bool" where
  "removed_once es \<longleftrightarrow> removals es \<le> 1 \<and> deletions es = [0..<length (deletions es)]"

lemma quiet_append [simp]: "quiet (xs @ ys) \<longleftrightarrow> quiet xs \<and> quiet ys"
  by (auto simp: quiet_def)

lemma removal_acts: "removal_act env c op s t \<Longrightarrow> \<exists>es. se_log t = se_log s @ es \<and>
    (quiet es \<and> (has_receipt disk_receipt_kind op s \<longrightarrow> has_receipt disk_receipt_kind op t) \<or>
     \<not> has_receipt disk_receipt_kind op s \<and> has_receipt disk_receipt_kind op t \<and> removed_once es)"
proof -
  assume "removal_act env c op s t"
  then obtain h p raw st where h: "host_keeps op h"
      and run: "(\<exists>x. execute_disk_removal env c h op p raw st s = (x, t)) \<or> (\<exists>x. reconcile_disk_removal env h op p raw st s = (x, t))"
    unfolding removal_act_def by blast
  from run show ?thesis
  proof (elim disjE exE)
    fix x assume x: "execute_disk_removal env c h op p raw st s = (x, t)"
    show ?thesis using execute_once [OF h x] keepsD [OF keeps_execute [OF h] x] unfolding removed_once_def by blast
  next
    fix x assume x: "reconcile_disk_removal env h op p raw st s = (x, t)"
    show ?thesis using reconcile_quiet [OF x] keepsD [OF keeps_reconcile [OF h] x] by blast
  qed
qed

interpretation removal: single_run "has_receipt disk_receipt_kind op" se_log "removal_act env c op" quiet removed_once
  for op env c
  by unfold_locales (auto simp: removed_once_def quiet_def dest!: removal_acts)

end
