(* ===== verification/Disk_Removal_Claims.thy ===== *)
theory Disk_Removal_Claims
  imports Disk_Removal_Laws "HOL-Library.Code_Target_Numeral"
begin

text \<open>
  The properties of disk removal, and a small host on which a removal of two disks runs to its end:
  its world lists the disks that are gone.
\<close>

section \<open>A host\<close>

definition host_disk :: "string \<Rightarrow> string \<Rightarrow> removal_disk" where
  "host_disk target generation = \<lparr>sd_target = target, sd_path = ''/d/'' @ target, sd_pool = ''11111111-1111-1111-1111-111111111111'',
     sd_name = target, sd_key = ''/d/'' @ target, sd_generation = generation, sd_print = replicate 64 (CHR ''a''), sd_format = ''qcow2'',
     sd_capacity = 1, sd_allocated = 0\<rparr>"

definition host_key :: resource_key where
  "host_key = \<lparr>provider_id = ''libvirt'', connection_id = ''qemu:///system'', key_kind = ''vm'', key_uuid = ''22222222-2222-2222-2222-222222222222''\<rparr>"

definition host_removal :: disk_removal where
  "host_removal = \<lparr>dr_definition = \<lparr>rd_resource = host_key, rd_name = ''n'', rd_print = replicate 64 (CHR ''b''), rd_sha256 = replicate 64 (CHR ''c''),
       rd_retained = [''/d/vda'', ''/d/vdb''], rd_firmware = [], rd_tpm = False\<rparr>,
     dr_disks = [host_disk ''vda'' ''g1'', host_disk ''vdb'' ''g2''], dr_resources = [key_string host_key], dr_graph = replicate 64 (CHR ''d'')\<rparr>"

definition host_plan :: plan where
  "host_plan = \<lparr>plan_api = [], plan_id = ''p'', plan_created = 0, plan_expires = 0, plan_actor = 0, plan_connection = ''qemu:///system'',
     plan_operation = disk_removal_operation, plan_resources = [key_string host_key], plan_input_digest = [], plan_digest = ''x'',
     plan_before = [(key_string host_key, replicate 64 (CHR ''b''))], plan_grants = [], plan_acks = [], plan_risks = [], plan_steps = [],
     plan_estimates = \<lparr>additional_bytes = 0, requires_downtime = False, est_notes = []\<rparr>, plan_review = []\<rparr>"

text \<open>The receipt's bytes: its marks, each by its first letter, or \<open>D\<close> for a deleted disk.\<close>

definition mark :: "string \<Rightarrow> char" where
  "mark s = (if s = ''deleted'' then CHR ''D'' else if s = ''intent'' then CHR ''i'' else if s = ''pending'' then CHR ''p'' else CHR ''r'')"

definition unmark :: "char \<Rightarrow> string" where
  "unmark c = (if c = CHR ''D'' then ''deleted'' else if c = CHR ''i'' then ''intent'' else if c = CHR ''p'' then ''pending'' else ''removed'')"

definition host_env :: removal_env where
  "host_env = \<lparr>re_env = \<lparr>env_canon = \<lambda>_. Inr ''null'', env_canon_raw = Inr, env_unmarshal = \<lambda>_. Inr JNull,
       env_sha256 = \<lambda>b. b, env_rfc3339 = \<lambda>_. ''t''\<rparr>, re_recipe = \<lambda>_. None, re_disk_recipe = \<lambda>_. Some \<lparr>kr_version = 1, kr_removal = host_removal\<rparr>,
     re_receipt = \<lambda>_. None, re_put_receipt = \<lambda>_. [],
     re_disk_receipt = \<lambda>b. Some \<lparr>dk_version = 1, dk_operation = ''j'', dk_plan = ''p'', dk_digest = ''x'', dk_removal = ''null'',
       dk_definition = unmark (hd b), dk_disks = map unmark (tl b)\<rparr>,
     re_put_disk_receipt = \<lambda>r. map mark (dk_definition r # dk_disks r), re_removal_json = \<lambda>_. JNull\<rparr>"

definition host_codec :: reference_codec where
  "host_codec = \<lparr>rf_json = \<lambda>b. Inr (JStr b), rf_ownership = \<lambda>_. None, rf_put_ownership = \<lambda>_. Inr JNull,
     rf_creation = \<lambda>_. None, rf_put_creation = \<lambda>_. Inr JNull\<rparr>"

definition host_world :: "nat list removal_host" where
  "host_world = \<lparr>rh_faults = \<lparr>ft_ctx = \<lambda>_. None, ft_put = \<lambda>_. None, ft_get = \<lambda>_. None\<rparr>,
     rh_machine = \<lambda>_ _ (w, d). (Inr \<lparr>mw_key = host_key, mw_name = ''n'', mw_print = replicate 64 (CHR ''b''), mw_state = ''stopped'',
       mw_xml = ''x'', mw_autostart = False, mw_saved = False\<rparr>, w, d),
     rh_inspect = \<lambda>_ _ (w, d). (Inl (Plain ''not used''), w, d), rh_remove = \<lambda>_ (w, d). (Inr (), w, d), rh_absent = \<lambda>_ (w, d). (Inr True, w, d),
     rh_check = \<lambda>r _ (w, d). (Inr (map (\<lambda>i. if i \<in> set w then ''absent'' else ''present'') [0..<length (dr_disks r)]), w, d),
     rh_delete = \<lambda>_ i (w, d). (Inr (), i # w, d), rh_removes_definitions = True, rh_removes_disks = True\<rparr>"

definition host_start :: "(nat list, removal_call) session" where
  "host_start = \<lparr>se_world = [], se_db = empty_db\<lparr>db_jobs := [(''j'', \<lparr>job_id = ''j'', job_plan = ''p'', job_state = Running, job_step = 0,
     job_created = 0, job_error = None, job_cancel = False, job_recovery_of = [], job_recovery_op = []\<rparr>)],
     db_meta := [((''note'', ''1''), ''about vdc'')]\<rparr>, se_log = []\<rparr>"

definition host_step :: step where
  "host_step = \<lparr>step_id = ''remove-vm-and-disks'', step_action = disk_removal_operation, step_preconditions = [], step_idempotency = [],
     step_compensation = [], step_reconciliation = [], step_completion = []\<rparr>"

definition host_removed :: "(nat list, removal_call) session" where
  "host_removed = snd (execute_disk_removal host_env host_codec host_world ''j'' host_plan [] host_step host_start)"

lemma host_world_keeps: "host_keeps op host_world"
  by (auto simp: host_keeps_def call_keeps_def host_world_def)

section \<open>Properties\<close>

text \<open>
  C21. Every call of a removal's run is justified by what came before it. A run either changes nothing
  on the host and ends in an error, or its accepted recipe was parsed from the plan and the calls it
  made are guarded: the definition is removed once, after the durable receipt that announces it; the
  disks are deleted one after the other from the first, each only after the definition, just after
  all recorded references were found clear and the disks before it were seen absent and the others
  present, and with the intent to delete exactly this disk in the journal at the moment of the call.
  A run that returns success removed the definition and deleted every disk, and left the receipt that says so.
\<close>

theorem disk_removal_guarded:
  "case execute_disk_removal env c h op p raw st s of (x, t) \<Rightarrow> \<exists>es. se_log t = se_log s @ es \<and>
     (quiet es \<and> (\<exists>e. x = Inl e) \<or>
      (\<exists>m hash. parse_disk_removal env p raw = Inr m \<and> digest (re_env env) (re_removal_json env m) = Inr hash \<and>
         ran env c op p m hash es x (se_db t)))"
  using removal_run [of env c h op p raw st s] by (auto split: prod.split)

text \<open>
  C34. A removal is never replayed. In the life of one operation, with runs and reconciliations in any
  order and number, on hosts of any behaviour, failing at any call and with any step or plan, and with
  other jobs changing the host and the journal in between as long as they leave this operation's
  receipt, the definition is removed at most once and no disk is deleted twice: the deletions are those
  of disks 0, 1, ... in order.
\<close>

theorem disk_removal_once:
  assumes "life (has_receipt disk_receipt_kind op) se_log (removal_act env c op) s"
  shows "removals (se_log s) \<le> 1 \<and> deletions (se_log s) = [0..<length (deletions (se_log s))]"
  using removal.life_ok [OF assms] by (simp add: removed_once_def)

lemma host_removed_life: "life (has_receipt disk_receipt_kind ''j'') se_log (removal_act host_env host_codec ''j'') host_removed"
proof -
  have "life (has_receipt disk_receipt_kind ''j'') se_log (removal_act host_env host_codec ''j'') host_start"
    by (rule begun) (simp_all add: has_receipt_def host_start_def metadata_bytes_def disk_receipt_kind_def)
  moreover have "\<exists>x. execute_disk_removal host_env host_codec host_world ''j'' host_plan [] host_step host_start = (x, host_removed)"
    by (simp add: host_removed_def prod_eq_iff)
  then have "removal_act host_env host_codec ''j'' host_start host_removed"
    using host_world_keeps unfolding removal_act_def by blast
  ultimately show ?thesis by (rule acted)
qed

lemma host_removed_log: "deletions (se_log host_removed) = [0, 1]"
  by code_simp

theorem disk_removal_once_witness:
  "removals (se_log host_removed) \<le> 1 \<and> [0, 1] = [0..<length (deletions (se_log host_removed))]"
  using disk_removal_once [OF host_removed_life] host_removed_log by simp

lemma all_absent: "states_are a n x \<longleftrightarrow> a = replicate n x"
  by (auto simp: states_are_def list_all_iff intro: replicate_eqI)

lemma settled_tail:
  assumes "thenr (disk_states h m True) (\<lambda>states. if \<not> states_are states n ''absent'' then refuse code msg
      else thenr (ctx_poll f) (\<lambda>_. retr True)) s = (Inr b, t)"
  shows "b \<and> se_log t = se_log s @ [(States_seen (replicate n ''absent''), se_db t)]"
  using assms
proof (cases rule: thenr_cases)
  case (passed a s1)
  then have "a = replicate n ''absent''" "b \<and> t = s1"
    by (auto simp: all_absent elim!: thenr_cases split: if_split_asm dest: ctx_poll_same)
  then show ?thesis using passed(1) by (auto simp: disk_states_def dest!: ask_logged_log)
qed simp

text \<open>
  A reconciliation that reports the step complete read a receipt of this operation for this plan and
  removal in which every disk is marked deleted, and observed every disk absent.
\<close>

theorem disk_removal_settled:
  assumes "reconcile_disk_removal env h op p raw st s = (Inr b, t)"
  shows "b \<and> (\<exists>m hash body r. parse_disk_removal env p raw = Inr m \<and> digest (re_env env) (re_removal_json env m) = Inr hash \<and>
    metadata_bytes disk_receipt_kind op (se_db s) = Some body \<and> re_disk_receipt env body = Some r \<and> complete_receipt op p m hash r \<and>
    se_log t = se_log s @ [(States_seen (replicate (length (dr_disks m)) ''absent''), se_db t)])"
  using assms unfolding reconcile_disk_removal_def
proof (cases rule: thenr_cases)
  case (passed m s1)
  then have m: "parse_disk_removal env p raw = Inr m" "s1 = s" by simp_all
  show ?thesis
  proof (cases "op = [] \<or> step_id st \<noteq> ''remove-vm-and-disks''")
    case False
    from passed(2) [unfolded if_not_P [OF False]] show ?thesis
    proof (cases rule: thenr_cases)
      case (passed body s2)
      then have body: "body = metadata_bytes disk_receipt_kind op (se_db s)" "s2 = s"
        using m by (auto simp: read_receipt_def split: option.split_asm)
      from passed(2) show ?thesis
      proof (cases rule: thenr_cases)
        case (passed hash s3)
        let ?bad = "case Option.bind body (re_disk_receipt env) of None \<Rightarrow> True | Some r \<Rightarrow> \<not> complete_receipt op p m hash r"
        from passed have hash: "digest (re_env env) (re_removal_json env m) = Inr hash" "s3 = s" using body by simp_all
        have ok: "\<not> ?bad" "rh_removes_disks h" using passed(2) by (auto simp: unavailable_def split: if_split_asm)
        from passed(2) [unfolded if_not_P [OF ok(1)]] ok(2) hash(2)
        have tail: "b \<and> se_log t = se_log s @ [(States_seen (replicate (length (dr_disks m)) ''absent''), se_db t)]"
          by (intro settled_tail) simp
        from ok(1) obtain bs r where "body = Some bs" "re_disk_receipt env bs = Some r" "complete_receipt op p m hash r"
          by (cases body) (auto split: option.split_asm)
        then show ?thesis using tail hash(1) m(1) body(1) by auto
      qed simp
    qed simp
  qed (use passed(2) in simp)
qed simp

end
