(* ===== verification/Machine_Edits.thy ===== *)
theory Machine_Edits
  imports Lifecycle_Laws
begin

text \<open>
  Three workflows on a stopped machine that follow one discipline: growing a disk
  (\<^verbatim>\<open>internal/app/disk_grow.go\<close>), moving a disk to another pool (\<^verbatim>\<open>disk_move.go\<close>) and cloning the
  machine (\<^verbatim>\<open>vm_clone.go\<close>). A receipt announces the work, the provider is asked for the state and for
  the effects, and a reconciliation only observes. Strict JSON decoding, the journal's encoder and the
  digests are fields of \<open>edit_env\<close>; the provider's calls are those of \<open>edit_host\<close>.
\<close>

section \<open>Data\<close>

record disk_grow =
  dg_vm :: resource_key
  dg_print :: string
  dg_disk :: removal_disk
  dg_capacity :: "64 word"
  dg_available :: "64 word"
  dg_resources :: "string list"

record disk_move =
  mo_vm :: resource_key
  mo_print :: string
  mo_sha256 :: string
  mo_disk :: removal_disk
  mo_source_pool :: string
  mo_pool :: string
  mo_pool_name :: string
  mo_volume :: string
  mo_path :: string
  mo_bytes :: "64 word"
  mo_available :: "64 word"
  mo_keep :: bool
  mo_resources :: "string list"

record disk_copy =
  dc_disk :: removal_disk
  dc_source_pool :: string
  dc_pool :: string
  dc_pool_name :: string
  dc_volume :: string
  dc_path :: string
  dc_bytes :: "64 word"

record pool_space =
  ps_pool :: string
  ps_need :: "64 word"
  ps_available :: "64 word"

record vm_clone =
  cl_source :: resource_key
  cl_source_name :: string
  cl_print :: string
  cl_sha256 :: string
  cl_uuid :: string
  cl_name :: string
  cl_disks :: "disk_copy list"
  cl_media :: "string list"
  cl_nvram :: bool
  cl_pools :: "pool_space list"
  cl_resources :: "string list"

text \<open>The receipts.\<close>

record grow_receipt =
  gr_version :: int
  gr_operation :: string
  gr_plan :: string
  gr_digest :: string
  gr_grow :: string
  gr_state :: string

record move_receipt =
  mr_version :: int
  mr_operation :: string
  mr_plan :: string
  mr_digest :: string
  mr_move :: string
  mr_state :: string
  mr_kept :: bool
  mr_refusal :: string

record clone_receipt =
  cr_version :: int
  cr_operation :: string
  cr_plan :: string
  cr_digest :: string
  cr_clone :: string
  cr_verified :: "bool list"
  cr_defined :: bool

section \<open>Valid recipes\<close>

definition wide_bound :: "64 word \<Rightarrow> 64 word" where
  "wide_bound c = c + c div 4 + push_bit 20 16"

definition valid_grow :: "disk_grow \<Rightarrow> bool" where
  "valid_grow g \<longleftrightarrow> (let d = dg_disk g in
     removal_identity (dg_vm g) \<and> removal_digest (dg_print g) \<and> removal_target (sd_target d) \<and> path_absolute (sd_path d) \<and>
     path_clean (sd_path d) = sd_path d \<and> safe_display (sd_path d) = sd_path d \<and> uuid_pattern (sd_pool d) \<and>
     path_base (sd_path d) = sd_name d \<and> sd_key d \<noteq> [] \<and> sd_generation d \<noteq> [] \<and> removal_digest (sd_print d) \<and>
     (sd_format d = ''raw'' \<or> sd_format d = ''qcow2'') \<and> sd_capacity d \<noteq> 0 \<and> dg_capacity g > sd_capacity d \<and>
     sorted (dg_resources g) \<and> key_string (dg_vm g) \<in> set (dg_resources g) \<and> length (dg_resources g) \<le> 16)"

definition valid_move :: "disk_move \<Rightarrow> bool" where
  "valid_move m \<longleftrightarrow> (let d = mo_disk m in
     removal_identity (mo_vm m) \<and> removal_digest (mo_print m) \<and> removal_digest (mo_sha256 m) \<and>
     removal_target (sd_target d) \<and> path_absolute (sd_path d) \<and> path_clean (sd_path d) = sd_path d \<and>
     safe_display (sd_path d) = sd_path d \<and> uuid_pattern (sd_pool d) \<and>
     path_base (sd_path d) = sd_name d \<and> sd_key d \<noteq> [] \<and> sd_generation d \<noteq> [] \<and>
     removal_digest (sd_print d) \<and> sd_format d = ''qcow2'' \<and> sd_capacity d \<noteq> 0 \<and>
     uuid_pattern (mo_pool m) \<and> mo_pool m \<noteq> sd_pool d \<and> mo_pool_name m \<noteq> [] \<and> mo_source_pool m \<noteq> [] \<and>
     mo_volume m \<noteq> [] \<and> path_base (mo_volume m) = mo_volume m \<and>
     mo_bytes m > sd_capacity d \<and> mo_bytes m \<le> wide_bound (sd_capacity d) \<and>
     path_absolute (mo_path m) \<and> path_clean (mo_path m) = mo_path m \<and>
     safe_display (mo_path m) = mo_path m \<and> path_base (mo_path m) = mo_volume m \<and> mo_path m \<noteq> sd_path d \<and>
     sorted (mo_resources m) \<and> key_string (mo_vm m) \<in> set (mo_resources m) \<and> length (mo_resources m) = 4)"

text \<open>\<^verbatim>\<open>validation.DisplayName\<close>, whether it succeeds.\<close>

definition display_name_ok :: "string \<Rightarrow> bool" where
  "display_name_ok s \<longleftrightarrow> (case runes s of
      None \<Rightarrow> False
    | Some rs \<Rightarrow> s \<noteq> [] \<and> length s \<le> 256 \<and> list_all (\<lambda>r. printable r \<and> r \<noteq> 0x2F \<and> r \<noteq> 0x5C) rs)"

definition copy_ok :: "string list \<Rightarrow> disk_copy \<Rightarrow> bool" where
  "copy_ok resources d \<longleftrightarrow> (let s = dc_disk d in
     removal_target (sd_target s) \<and> path_absolute (sd_path s) \<and> path_clean (sd_path s) = sd_path s \<and> uuid_pattern (sd_pool s) \<and>
     (sd_format s = ''qcow2'' \<or> sd_format s = ''raw'') \<and> sd_capacity s \<noteq> 0 \<and> uuid_pattern (dc_pool d) \<and> dc_pool_name d \<noteq> [] \<and>
     dc_volume d \<noteq> [] \<and> path_base (dc_path d) = dc_volume d \<and> path_absolute (dc_path d) \<and>
     safe_display (dc_path d) = dc_path d \<and> dc_bytes d \<ge> sd_capacity s \<and> ''local-file|'' @ dc_path d \<in> set resources)"

text \<open>The map \<^verbatim>\<open>need\<close>: its keys, and the sum at a key, 0 where there is none.\<close>

definition needed :: "disk_copy list \<Rightarrow> string \<Rightarrow> 64 word" where
  "needed ds pool = sum_list (map dc_bytes (filter (\<lambda>d. dc_pool_name d = pool) ds))"

definition clone_key :: "vm_clone \<Rightarrow> resource_key" where
  "clone_key c = \<lparr>provider_id = ''libvirt'', connection_id = connection_id (cl_source c), key_kind = ''vm'', key_uuid = cl_uuid c\<rparr>"

definition valid_clone :: "vm_clone \<Rightarrow> bool" where
  "valid_clone c \<longleftrightarrow> removal_identity (cl_source c) \<and> removal_digest (cl_print c) \<and> removal_digest (cl_sha256 c) \<and>
     uuid_pattern (cl_uuid c) \<and> cl_uuid c \<noteq> key_uuid (cl_source c) \<and> cl_name c \<noteq> cl_source_name c \<and>
     cl_disks c \<noteq> [] \<and> length (cl_disks c) \<le> 64 \<and> display_name_ok (cl_name c) \<and>
     list_all (copy_ok (cl_resources c)) (cl_disks c) \<and>
     length (cl_pools c) = length (remdups (map dc_pool_name (cl_disks c))) \<and>
     list_all (\<lambda>p. needed (cl_disks c) (ps_pool p) = ps_need p) (cl_pools c) \<and>
     sorted (cl_resources c) \<and> key_string (cl_source c) \<in> set (cl_resources c) \<and> key_string (clone_key c) \<in> set (cl_resources c)"

section \<open>The environment\<close>

record edit_env =
  ee_env :: env
  ee_grow :: "bytes \<Rightarrow> (int \<times> disk_grow) option"
  ee_move :: "bytes \<Rightarrow> (int \<times> disk_move) option"
  ee_clone :: "bytes \<Rightarrow> (int \<times> vm_clone) option"
  ee_grow_json :: "disk_grow \<Rightarrow> json"
  ee_move_json :: "disk_move \<Rightarrow> json"
  ee_clone_json :: "vm_clone \<Rightarrow> json"
  ee_get_grow :: "bytes \<Rightarrow> grow_receipt option"
  ee_get_move :: "bytes \<Rightarrow> move_receipt option"
  ee_get_clone :: "bytes \<Rightarrow> clone_receipt option"
  ee_put_grow :: "grow_receipt \<Rightarrow> bytes"
  ee_put_move :: "move_receipt \<Rightarrow> bytes"
  ee_put_clone :: "clone_receipt \<Rightarrow> bytes"

text \<open>
  The calls a log lists. The clone's provider also reports which copies exist, which no handler reads.
\<close>

datatype edit_call = Seen string | Grow_volume | Copy_volume nat | Define_machine | Delete_old

record 'w edit_host =
  eh_faults :: "'w faults"
  eh_check_grow :: "disk_grow \<Rightarrow> ('w, string) host_call"
  eh_grow :: "disk_grow \<Rightarrow> ('w, unit) host_call"
  eh_check_move :: "disk_move \<Rightarrow> ('w, string) host_call"
  eh_copy :: "disk_move \<Rightarrow> ('w, unit) host_call"
  eh_define :: "disk_move \<Rightarrow> ('w, unit) host_call"
  eh_delete_old :: "disk_move \<Rightarrow> ('w, unit) host_call"
  eh_check_clone :: "vm_clone \<Rightarrow> ('w, string) host_call"
  eh_copy_clone :: "vm_clone \<Rightarrow> nat \<Rightarrow> ('w, unit) host_call"
  eh_define_clone :: "vm_clone \<Rightarrow> ('w, unit) host_call"
  eh_grows :: bool
  eh_moves :: bool
  eh_clones :: bool

type_synonym ('w, 'a) edit = "(('w, edit_call) session, 'a) act"

definition no_provider :: "string \<Rightarrow> ('s, 'a) act" where
  "no_provider what = refuse ''UNSUPPORTED_CAPABILITY'' what"

section \<open>Growing a disk\<close>

definition grow_kind :: string where
  "grow_kind = ''vm-disk-grow-receipt''"

definition parse_grow :: "edit_env \<Rightarrow> plan \<Rightarrow> bytes \<Rightarrow> go_error + disk_grow" where
  "parse_grow env p raw = (case ee_grow env raw of
      None \<Rightarrow> failr ''INVALID_INPUT'' ''Invalid disk grow recipe binding.''
    | Some (v, g) \<Rightarrow>
        if v \<noteq> 1 \<or> plan_operation p \<noteq> ''vm.disk.grow-v1'' \<or> \<not> valid_grow g \<or> connection_id (dg_vm g) \<noteq> plan_connection p \<or>
           plan_resources p \<noteq> dg_resources g \<or> plan_before p \<noteq> [(key_string (dg_vm g), dg_print g)]
        then failr ''INVALID_INPUT'' ''Invalid disk grow recipe binding.'' else Inr g)"

definition validate_grow :: "edit_env \<Rightarrow> 'w edit_host \<Rightarrow> plan \<Rightarrow> bytes \<Rightarrow> ('w, unit) edit" where
  "validate_grow env h p raw = thenr (liftr (parse_grow env p raw)) (\<lambda>g.
     if \<not> eh_grows h then no_provider ''Disk grow provider unavailable.''
     else thenr (ask_logged Seen (eh_check_grow h g)) (\<lambda>state.
       unlessr (state = ''before'') ''STALE_PLAN'' ''The disk already has the requested size or changed; review again.''))"

definition save_grow :: "edit_env \<Rightarrow> 'w edit_host \<Rightarrow> string \<Rightarrow> bytes option \<Rightarrow> grow_receipt \<Rightarrow> ('w, bytes option) edit" where
  "save_grow env h op prev r = save_receipt (eh_faults h) grow_kind op prev (ee_put_grow env r)"

definition first_grow :: "string \<Rightarrow> plan \<Rightarrow> string \<Rightarrow> grow_receipt" where
  "first_grow op p hash = \<lparr>gr_version = 1, gr_operation = op, gr_plan = plan_id p, gr_digest = plan_digest p, gr_grow = hash, gr_state = ''intent''\<rparr>"

definition grow_effects :: "edit_env \<Rightarrow> 'w edit_host \<Rightarrow> string \<Rightarrow> plan \<Rightarrow> disk_grow \<Rightarrow> string \<Rightarrow> ('w, unit) edit" where
  "grow_effects env h op p g hash =
     thenr (save_grow env h op None (first_grow op p hash)) (\<lambda>prev.
     tryr (effect Grow_volume (eh_grow h g)) (\<lambda>x. case x of
        Inl e \<Rightarrow> tryr (ask_logged Seen (eh_check_grow h g)) (\<lambda>y. liftr (Inl (if y = Inr ''before'' then Not_done e else e)))
      | Inr _ \<Rightarrow> thenr (ask_logged Seen (eh_check_grow h g)) (\<lambda>state.
          if state \<noteq> ''grown'' then refuse ''RECOVERY_REQUIRED'' ''The resize returned but the new size could not be confirmed.''
          else thenr (save_grow env h op prev ((first_grow op p hash)\<lparr>gr_state := ''grown''\<rparr>)) (\<lambda>_. retr ()))))"

definition execute_grow :: "edit_env \<Rightarrow> 'w edit_host \<Rightarrow> string \<Rightarrow> plan \<Rightarrow> bytes \<Rightarrow> step \<Rightarrow> ('w, unit) edit" where
  "execute_grow env h op p raw st = thenr (liftr (parse_grow env p raw)) (\<lambda>g.
     if op = [] \<or> step_id st \<noteq> ''grow-disk'' then refuse ''INVALID_INPUT'' ''Durable disk grow identity required.''
     else thenr (validate_grow env h p raw) (\<lambda>_.
       if \<not> eh_grows h then no_provider ''Disk grow provider unavailable.''
       else thenr (liftr (digest (ee_env env) (ee_grow_json env g))) (\<lambda>hash. grow_effects env h op p g hash)))"

definition grow_bound :: "string \<Rightarrow> plan \<Rightarrow> string \<Rightarrow> grow_receipt \<Rightarrow> bool" where
  "grow_bound op p hash r \<longleftrightarrow> gr_version r = 1 \<and> gr_operation r = op \<and> gr_plan r = plan_id p \<and> gr_digest r = plan_digest p \<and>
     gr_grow r = hash \<and> (gr_state r = ''intent'' \<or> gr_state r = ''grown'')"

definition reconcile_grow :: "edit_env \<Rightarrow> 'w edit_host \<Rightarrow> string \<Rightarrow> plan \<Rightarrow> bytes \<Rightarrow> step \<Rightarrow> ('w, bool) edit" where
  "reconcile_grow env h op p raw st = thenr (liftr (parse_grow env p raw)) (\<lambda>g.
     if op = [] \<or> step_id st \<noteq> ''grow-disk'' then refuse ''INVALID_INPUT'' ''Durable disk grow identity required.''
     else thenr (read_receipt (eh_faults h) grow_kind op) (\<lambda>body.
       thenr (liftr (digest (ee_env env) (ee_grow_json env g))) (\<lambda>hash.
       if (case Option.bind body (ee_get_grow env) of None \<Rightarrow> True | Some r \<Rightarrow> \<not> grow_bound op p hash r)
       then refuse ''RECOVERY_REQUIRED'' ''The grow receipt is missing or differs; the disk will not be resized again.''
       else if \<not> eh_grows h then no_provider ''Disk grow provider unavailable.''
       else thenr (ask_logged Seen (eh_check_grow h g)) (\<lambda>state.
         thenr (ctx_poll (eh_faults h)) (\<lambda>_. retr (state = ''grown''))))))"

section \<open>Moving a disk\<close>

definition move_kind :: string where
  "move_kind = ''vm-disk-move-receipt''"

definition parse_move :: "edit_env \<Rightarrow> plan \<Rightarrow> bytes \<Rightarrow> go_error + disk_move" where
  "parse_move env p raw = (case ee_move env raw of
      None \<Rightarrow> failr ''INVALID_INPUT'' ''Invalid disk move recipe binding.''
    | Some (v, m) \<Rightarrow>
        if v \<noteq> 1 \<or> plan_operation p \<noteq> ''vm.disk.move-v1'' \<or> \<not> valid_move m \<or> connection_id (mo_vm m) \<noteq> plan_connection p \<or>
           plan_resources p \<noteq> mo_resources m \<or> plan_before p \<noteq> [(key_string (mo_vm m), mo_print m)]
        then failr ''INVALID_INPUT'' ''Invalid disk move recipe binding.'' else Inr m)"

definition validate_move :: "edit_env \<Rightarrow> 'w edit_host \<Rightarrow> plan \<Rightarrow> bytes \<Rightarrow> ('w, unit) edit" where
  "validate_move env h p raw = thenr (liftr (parse_move env p raw)) (\<lambda>m.
     if \<not> eh_moves h then no_provider ''Disk move provider unavailable.''
     else thenr (ask_logged Seen (eh_check_move h m)) (\<lambda>state.
       unlessr (state = ''before'') ''STALE_PLAN'' ''This disk has already been copied or moved; review again.''))"

definition save_move :: "edit_env \<Rightarrow> 'w edit_host \<Rightarrow> string \<Rightarrow> bytes option \<Rightarrow> move_receipt \<Rightarrow> ('w, bytes option) edit" where
  "save_move env h op prev r = save_receipt (eh_faults h) move_kind op prev (ee_put_move env r)"

definition unreferenced_copy :: "disk_move \<Rightarrow> go_error \<Rightarrow> go_error" where
  "unreferenced_copy m e = (let refusal = (case errors_as_domain e of
        Some d \<Rightarrow> d | None \<Rightarrow> fail ''OPERATION_FAILED'' (''the disk could not be copied: '' @ error_text e)) in
     Not_done (Domain_error ((fail (err_code refusal) (err_message refusal))\<lparr>err_details := err_details refusal,
       err_resource := ''local-file|'' @ mo_path m,
       err_next := [''Delete the unused copy '' @ mo_volume m @ '' in '' @ mo_pool_name m @ '' if it was created'', ''Review the move again'']\<rparr>)))"

definition refusal_code :: "go_error \<Rightarrow> string" where
  "refusal_code e = (case errors_as_domain e of Some d \<Rightarrow> err_code d | None \<Rightarrow> ''OPERATION_FAILED'')"

definition first_move :: "string \<Rightarrow> plan \<Rightarrow> string \<Rightarrow> move_receipt" where
  "first_move op p hash = \<lparr>mr_version = 1, mr_operation = op, mr_plan = plan_id p, mr_digest = plan_digest p, mr_move = hash,
     mr_state = ''intent'', mr_kept = False, mr_refusal = []\<rparr>"

text \<open>The state observed or reached, the bytes last stored and the receipt go from one part to the next.\<close>

type_synonym move_progress = "string \<times> bytes option \<times> move_receipt"

definition move_copy :: "edit_env \<Rightarrow> 'w edit_host \<Rightarrow> string \<Rightarrow> disk_move \<Rightarrow> move_progress \<Rightarrow> ('w, move_progress) edit" where
  "move_copy env h op m = (\<lambda>(state, prev, r).
     if state \<noteq> ''before'' then retr (state, prev, r)
     else tryr (effect (Copy_volume 0) (eh_copy h m)) (\<lambda>x. case x of
        Inl e \<Rightarrow> tryr (ask_logged Seen (eh_check_move h m)) (\<lambda>y.
          liftr (Inl (if y = Inr ''before'' \<or> y = Inr ''copied'' then unreferenced_copy m e else e)))
      | Inr _ \<Rightarrow> (let r = r\<lparr>mr_state := ''copied''\<rparr> in
          thenr (save_move env h op prev r) (\<lambda>prev. retr (''copied'', prev, r)))))"

definition move_define :: "edit_env \<Rightarrow> 'w edit_host \<Rightarrow> string \<Rightarrow> disk_move \<Rightarrow> move_progress \<Rightarrow> ('w, move_progress) edit" where
  "move_define env h op m = (\<lambda>(state, prev, r).
     if state \<noteq> ''copied'' then retr (state, prev, r)
     else thenr (effect Define_machine (eh_define h m)) (\<lambda>_. (let r = r\<lparr>mr_state := ''retargeted''\<rparr> in
       thenr (save_move env h op prev r) (\<lambda>prev. retr (''retargeted'', prev, r)))))"

definition move_finish :: "edit_env \<Rightarrow> 'w edit_host \<Rightarrow> string \<Rightarrow> disk_move \<Rightarrow> move_progress \<Rightarrow> ('w, unit) edit" where
  "move_finish env h op m = (\<lambda>(state, prev, r).
     if state = ''retargeted'' \<and> \<not> mo_keep m then
       tryr (effect Delete_old (eh_delete_old h m)) (\<lambda>x. thenr (save_move env h op prev (case x of
            Inl e \<Rightarrow> r\<lparr>mr_kept := True, mr_refusal := refusal_code e\<rparr>
          | Inr _ \<Rightarrow> r\<lparr>mr_state := ''old-deleted''\<rparr>)) (\<lambda>_. retr ()))
     else if state \<noteq> ''retargeted'' \<and> state \<noteq> ''old-deleted''
     then refuse ''RECOVERY_REQUIRED'' ''The move returned but the VM's disk could not be confirmed.''
     else thenr (save_move env h op prev r) (\<lambda>_. retr ()))"

definition move_effects :: "edit_env \<Rightarrow> 'w edit_host \<Rightarrow> string \<Rightarrow> plan \<Rightarrow> disk_move \<Rightarrow> string \<Rightarrow> ('w, unit) edit" where
  "move_effects env h op p m hash = (let r = first_move op p hash in
     thenr (save_move env h op None r) (\<lambda>prev.
     thenr (ask_logged Seen (eh_check_move h m)) (\<lambda>state.
     thenr (move_copy env h op m (state, prev, r)) (\<lambda>q.
     thenr (move_define env h op m q) (\<lambda>q.
     move_finish env h op m q)))))"

definition execute_move :: "edit_env \<Rightarrow> 'w edit_host \<Rightarrow> string \<Rightarrow> plan \<Rightarrow> bytes \<Rightarrow> step \<Rightarrow> ('w, unit) edit" where
  "execute_move env h op p raw st = thenr (liftr (parse_move env p raw)) (\<lambda>m.
     if op = [] \<or> step_id st \<noteq> ''move-disk'' then refuse ''INVALID_INPUT'' ''Durable disk move identity required.''
     else if \<not> eh_moves h then no_provider ''Disk move provider unavailable.''
     else thenr (liftr (digest (ee_env env) (ee_move_json env m))) (\<lambda>hash. move_effects env h op p m hash))"

definition move_bound :: "string \<Rightarrow> plan \<Rightarrow> string \<Rightarrow> move_receipt \<Rightarrow> bool" where
  "move_bound op p hash r \<longleftrightarrow> mr_version r = 1 \<and> mr_operation r = op \<and> mr_plan r = plan_id p \<and> mr_digest r = plan_digest p \<and>
     mr_move r = hash \<and> mr_state r \<in> {''intent'', ''copied'', ''retargeted'', ''old-deleted''}"

definition reconcile_move :: "edit_env \<Rightarrow> 'w edit_host \<Rightarrow> string \<Rightarrow> plan \<Rightarrow> bytes \<Rightarrow> step \<Rightarrow> ('w, bool) edit" where
  "reconcile_move env h op p raw st = thenr (liftr (parse_move env p raw)) (\<lambda>m.
     if op = [] \<or> step_id st \<noteq> ''move-disk'' then refuse ''INVALID_INPUT'' ''Durable disk move identity required.''
     else thenr (read_receipt (eh_faults h) move_kind op) (\<lambda>body.
       thenr (liftr (digest (ee_env env) (ee_move_json env m))) (\<lambda>hash.
       if (case Option.bind body (ee_get_move env) of None \<Rightarrow> True | Some r \<Rightarrow> \<not> move_bound op p hash r)
       then refuse ''RECOVERY_REQUIRED'' ''The move receipt is missing or differs; nothing will be copied, defined or deleted again.''
       else if \<not> eh_moves h then no_provider ''Disk move provider unavailable.''
       else thenr (ask_logged Seen (eh_check_move h m)) (\<lambda>state.
         thenr (ctx_poll (eh_faults h)) (\<lambda>_. retr (state = ''retargeted'' \<or> state = ''old-deleted''))))))"

section \<open>Cloning\<close>

definition clone_kind :: string where
  "clone_kind = ''vm-clone-receipt''"

definition parse_clone :: "edit_env \<Rightarrow> plan \<Rightarrow> bytes \<Rightarrow> go_error + vm_clone" where
  "parse_clone env p raw = (case ee_clone env raw of
      None \<Rightarrow> failr ''INVALID_INPUT'' ''Invalid clone recipe binding.''
    | Some (v, c) \<Rightarrow>
        if v \<noteq> 1 \<or> plan_operation p \<noteq> ''vm.clone-v1'' \<or> \<not> valid_clone c \<or> connection_id (cl_source c) \<noteq> plan_connection p \<or>
           plan_resources p \<noteq> cl_resources c \<or> plan_before p \<noteq> [(key_string (cl_source c), cl_print c)]
        then failr ''INVALID_INPUT'' ''Invalid clone recipe binding.'' else Inr c)"

definition validate_clone :: "edit_env \<Rightarrow> 'w edit_host \<Rightarrow> plan \<Rightarrow> bytes \<Rightarrow> ('w, unit) edit" where
  "validate_clone env h p raw = thenr (liftr (parse_clone env p raw)) (\<lambda>c.
     if \<not> eh_clones h then no_provider ''Clone provider unavailable.''
     else thenr (ask_logged Seen (eh_check_clone h c)) (\<lambda>state.
       unlessr (state = ''before'') ''STALE_PLAN'' ''Copies or a VM with this clone's identity already exist; review again.''))"

definition save_clone :: "edit_env \<Rightarrow> 'w edit_host \<Rightarrow> string \<Rightarrow> bytes option \<Rightarrow> clone_receipt \<Rightarrow> ('w, bytes option) edit" where
  "save_clone env h op prev r = save_receipt (eh_faults h) clone_kind op prev (ee_put_clone env r)"

fun joined :: "string \<Rightarrow> string list \<Rightarrow> string" where
  "joined sep [] = []"
| "joined sep [x] = x"
| "joined sep (x # y # ys) = x @ sep @ joined sep (y # ys)"

definition uncreated_clone :: "vm_clone \<Rightarrow> nat \<Rightarrow> go_error \<Rightarrow> go_error" where
  "uncreated_clone c last_copy e = (let refusal = (case errors_as_domain e of
        Some d \<Rightarrow> d | None \<Rightarrow> fail ''OPERATION_FAILED'' (''the clone could not be made: '' @ error_text e));
       names = map (\<lambda>d. dc_volume d @ '' in '' @ dc_pool_name d) (take (Suc last_copy) (cl_disks c)) in
     Not_done (Domain_error ((fail (err_code refusal) (err_message refusal))\<lparr>err_details := err_details refusal,
       err_next := [''Delete the unused copies if they were created: '' @ joined '', '' names, ''Review the clone again'']\<rparr>)))"

definition first_clone :: "string \<Rightarrow> plan \<Rightarrow> vm_clone \<Rightarrow> string \<Rightarrow> clone_receipt" where
  "first_clone op p c hash = \<lparr>cr_version = 1, cr_operation = op, cr_plan = plan_id p, cr_digest = plan_digest p, cr_clone = hash,
     cr_verified = replicate (length (cl_disks c)) False, cr_defined = False\<rparr>"

definition copy_one :: "edit_env \<Rightarrow> 'w edit_host \<Rightarrow> string \<Rightarrow> vm_clone \<Rightarrow> nat \<Rightarrow> clone_receipt \<times> bytes option \<Rightarrow> ('w, clone_receipt \<times> bytes option) edit" where
  "copy_one env h op c i rp = tryr (effect (Copy_volume i) (eh_copy_clone h c i)) (\<lambda>x. case x of
      Inl e \<Rightarrow> liftr (Inl (uncreated_clone c i e))
    | Inr _ \<Rightarrow> (let r = (fst rp)\<lparr>cr_verified := (cr_verified (fst rp))[i := True]\<rparr> in
        thenr (save_clone env h op (snd rp) r) (\<lambda>prev. retr (r, prev))))"

fun copy_from :: "edit_env \<Rightarrow> 'w edit_host \<Rightarrow> string \<Rightarrow> vm_clone \<Rightarrow> nat list \<Rightarrow> clone_receipt \<times> bytes option \<Rightarrow> ('w, clone_receipt \<times> bytes option) edit" where
  "copy_from env h op c [] rp = retr rp"
| "copy_from env h op c (i # is) rp = thenr (copy_one env h op c i rp) (copy_from env h op c is)"

definition clone_effects :: "edit_env \<Rightarrow> 'w edit_host \<Rightarrow> string \<Rightarrow> plan \<Rightarrow> vm_clone \<Rightarrow> string \<Rightarrow> ('w, unit) edit" where
  "clone_effects env h op p c hash = (let r = first_clone op p c hash in
     thenr (save_clone env h op None r) (\<lambda>prev.
     thenr (ask_logged Seen (eh_check_clone h c)) (\<lambda>state.
     if state \<noteq> ''before'' then refuse ''STALE_PLAN'' ''Copies or a VM with this clone's identity already exist; nothing was copied.''
     else thenr (copy_from env h op c [0..<length (cl_disks c)] (r, prev)) (\<lambda>(r, prev).
       thenr (effect Define_machine (eh_define_clone h c)) (\<lambda>_.
       thenr (save_clone env h op prev (r\<lparr>cr_defined := True\<rparr>)) (\<lambda>_. retr ()))))))"

definition execute_clone :: "edit_env \<Rightarrow> 'w edit_host \<Rightarrow> string \<Rightarrow> plan \<Rightarrow> bytes \<Rightarrow> step \<Rightarrow> ('w, unit) edit" where
  "execute_clone env h op p raw st = thenr (liftr (parse_clone env p raw)) (\<lambda>c.
     if op = [] \<or> step_id st \<noteq> ''clone-vm'' then refuse ''INVALID_INPUT'' ''Durable clone identity required.''
     else if \<not> eh_clones h then no_provider ''Clone provider unavailable.''
     else thenr (liftr (digest (ee_env env) (ee_clone_json env c))) (\<lambda>hash. clone_effects env h op p c hash))"

definition clone_bound :: "string \<Rightarrow> plan \<Rightarrow> vm_clone \<Rightarrow> string \<Rightarrow> clone_receipt \<Rightarrow> bool" where
  "clone_bound op p c hash r \<longleftrightarrow> cr_version r = 1 \<and> cr_operation r = op \<and> cr_plan r = plan_id p \<and> cr_digest r = plan_digest p \<and>
     cr_clone r = hash \<and> length (cr_verified r) = length (cl_disks c)"

definition reconcile_clone :: "edit_env \<Rightarrow> 'w edit_host \<Rightarrow> string \<Rightarrow> plan \<Rightarrow> bytes \<Rightarrow> step \<Rightarrow> ('w, bool) edit" where
  "reconcile_clone env h op p raw st = thenr (liftr (parse_clone env p raw)) (\<lambda>c.
     if op = [] \<or> step_id st \<noteq> ''clone-vm'' then refuse ''INVALID_INPUT'' ''Durable clone identity required.''
     else thenr (read_receipt (eh_faults h) clone_kind op) (\<lambda>body.
       thenr (liftr (digest (ee_env env) (ee_clone_json env c))) (\<lambda>hash.
       case Option.bind body (ee_get_clone env) of
         None \<Rightarrow> refuse ''RECOVERY_REQUIRED'' ''The clone receipt is missing or differs; nothing will be copied or defined again.''
       | Some r \<Rightarrow>
           if \<not> clone_bound op p c hash r
           then refuse ''RECOVERY_REQUIRED'' ''The clone receipt is missing or differs; nothing will be copied or defined again.''
           else if False \<in> set (cr_verified r) then thenr (ctx_poll (eh_faults h)) (\<lambda>_. retr False)
           else if \<not> eh_clones h then no_provider ''Clone provider unavailable.''
           else thenr (ask_logged Seen (eh_check_clone h c)) (\<lambda>state.
             thenr (ctx_poll (eh_faults h)) (\<lambda>_. retr (state = ''defined''))))))"

end
