(* ===== verification/Machine_Plans.thy ===== *)
theory Machine_Plans
  imports Machine_Edits Disk_Removal
begin

text \<open>
  How removals, growths, moves and clones are planned and reviewed (\<^verbatim>\<open>planRemoval\<close>, \<^verbatim>\<open>planDiskRemoval\<close>,
  \<^verbatim>\<open>planDiskGrow\<close>, \<^verbatim>\<open>planDiskMove\<close>, \<^verbatim>\<open>planClone\<close> and the methods \<^verbatim>\<open>Estimate\<close> and \<^verbatim>\<open>Review\<close> of their
  handlers). Planning inspects the host and drafts what \<^verbatim>\<open>Engine.Plan\<close> completes; the JSON schema and the
  decoding of an input are fields of \<open>plan_env\<close>.
\<close>

section \<open>Requests and drafts\<close>

record request =
  rq_connection :: string
  rq_id :: string
  rq_action :: string
  rq_path :: string
  rq_after :: "64 word"
  rq_input :: "(string \<times> json) list"
  rq_apply :: bool

record 'r draft =
  df_operation :: string
  df_resources :: "string list"
  df_before :: "(string \<times> string) list"
  df_recipe :: 'r
  df_steps :: "step list"
  df_acks :: "string list"
  df_risks :: "string list"

record plan_env =
  pe_delete_disks :: "(string \<times> json) list \<Rightarrow> string list option"
  pe_grow_input :: "(string \<times> json) list \<Rightarrow> (string \<times> 64 word) option"
  pe_move_input :: "(string \<times> json) list \<Rightarrow> (string \<times> string \<times> bool) option"
  pe_clone_input :: "(string \<times> json) list \<Rightarrow> (string \<times> string) option"

record 'w inspector =
  in_disks :: "string \<Rightarrow> string \<Rightarrow> string list \<Rightarrow> ('w, disk_removal) host_call"
  in_grow :: "string \<Rightarrow> string \<Rightarrow> string \<Rightarrow> 64 word \<Rightarrow> ('w, disk_grow) host_call"
  in_move :: "string \<Rightarrow> string \<Rightarrow> string \<Rightarrow> string \<Rightarrow> bool \<Rightarrow> ('w, disk_move) host_call"
  in_clone :: "string \<Rightarrow> string \<Rightarrow> string \<Rightarrow> string \<Rightarrow> string \<Rightarrow> ('w, vm_clone) host_call"

definition request_key :: "request \<Rightarrow> resource_key" where
  "request_key q = \<lparr>provider_id = ''libvirt'', connection_id = rq_connection q, key_kind = ''vm'', key_uuid = rq_id q\<rparr>"

definition no_extras :: "request \<Rightarrow> bool" where
  "no_extras q \<longleftrightarrow> rq_path q = [] \<and> rq_after q = 0 \<and> \<not> rq_apply q"

text \<open>
  \<^verbatim>\<open>sizeText\<close>: whole GiB, or one decimal of the binary64 quotient, rounded to nearest and to even
  when halfway as \<^verbatim>\<open>strconv\<close> does. The division by a power of two is exact.
\<close>

definition tenths :: "nat \<Rightarrow> nat" where
  "tenths n = (let q = 10 * n div 2 ^ 30; r = 10 * n mod 2 ^ 30 in if r > 2 ^ 29 \<or> (r = 2 ^ 29 \<and> odd q) then q + 1 else q)"

definition size_text :: "64 word \<Rightarrow> string" where
  "size_text b = (if unat b mod 2 ^ 30 = 0 then show_nat (unat b div 2 ^ 30) @ '' GiB''
     else (let t = tenths (binary64 (unat b)) in show_nat (t div 10) @ ''.'' @ show_nat (t mod 10) @ '' GiB''))"

section \<open>Removal\<close>

definition removal_step :: step where
  "removal_step = \<lparr>step_id = ''remove-definition'', step_action = ''vm.remove-definition-v1'',
     step_preconditions = [''unchanged stopped persistent definition'', ''no autostart, saved state, snapshots, checkpoints or auxiliary firmware state''],
     step_idempotency = ''non-repeatable'', step_compensation = ''Retain disks and backups; inspect uncertain removal without replay'',
     step_reconciliation = ''Require a bound durable removal receipt and exact native UUID absence'',
     step_completion = ''Definition removed; no storage deletion requested''\<rparr>"

text \<open>\<^verbatim>\<open>planRemoval\<close> of a request without input; with one it is \<^verbatim>\<open>planDiskRemoval\<close>.\<close>

definition plan_definition_removal :: "'w removal_host \<Rightarrow> request \<Rightarrow> (('w, removal_call) session, definition_removal draft) act" where
  "plan_definition_removal h q = (let key = request_key q in
     if \<not> removal_identity key \<or> (rq_action q \<noteq> [] \<and> rq_action q \<noteq> ''remove'') \<or> \<not> no_extras q
     then refuse ''INVALID_INPUT'' ''Choose one local VM UUID. Remove keeps its disks; extra settings and disk deletion are not accepted.''
     else if \<not> rh_removes_definitions h
     then unavailable ''This provider cannot safely remove a VM definition while retaining storage.''
     else thenr (ask (rh_inspect h (rq_connection q) (rq_id q))) (\<lambda>d.
       if \<not> valid_removal d \<or> rd_resource d \<noteq> key
       then refuse ''INVALID_INPUT'' ''Removal inspection did not match the selected VM and its storage declarations.''
       else thenr (bind_inventory h d) (\<lambda>_. retr \<lparr>df_operation = ''vm.remove-definition-v1'', df_resources = [key_string key],
         df_before = [(key_string key, rd_print d)], df_recipe = d, df_steps = [removal_step],
         df_acks = [''host-mutation'', ''remove-vm-definition'', ''exclusive-lifecycle-writer''],
         df_risks = [''The VM definition is removed. Disks and existing backups are kept; this operation creates no configuration backup.'',
           ''No disk space is freed. To use retained disks again, create or restore a VM definition.'',
           ''Coordinate other VM editors. A lost acknowledgement or a replacement VM requires inspection; removal is never automatically repeated.'']\<rparr>)))"

definition disk_removal_step :: step where
  "disk_removal_step = \<lparr>step_id = ''remove-vm-and-disks'', step_action = disk_removal_operation,
     step_preconditions = [''unchanged stopped VM and exact selected volume generations'', ''complete native and persisted dependency graph; no shared or uncertain references''],
     step_idempotency = ''non-repeatable'',
     step_compensation = ''Keep unselected disks and backups; retain remaining files and locks after any uncertain effect'',
     step_reconciliation = ''Require per-effect durable receipts and exact VM/selected-volume absence; never replay deletion'',
     step_completion = ''VM definition and only the explicitly selected disks are absent''\<rparr>"

definition no_plan :: plan where
  "no_plan = \<lparr>plan_api = [], plan_id = [], plan_created = 0, plan_expires = 0, plan_actor = 0, plan_connection = [],
     plan_operation = [], plan_resources = [], plan_input_digest = [], plan_digest = [], plan_before = [], plan_grants = [],
     plan_acks = [], plan_risks = [], plan_steps = [], plan_estimates = \<lparr>additional_bytes = 0, requires_downtime = False, est_notes = []\<rparr>,
     plan_review = []\<rparr>"

definition plan_disk_removal ::
  "plan_env \<Rightarrow> removal_env \<Rightarrow> reference_codec \<Rightarrow> 'w removal_host \<Rightarrow> 'w inspector \<Rightarrow> request \<Rightarrow> (('w, removal_call) session, disk_removal draft) act" where
  "plan_disk_removal pe env c h ins q = (let key = request_key q in
     if \<not> removal_identity key \<or> (rq_action q \<noteq> [] \<and> rq_action q \<noteq> ''remove'') \<or> \<not> no_extras q
     then refuse ''INVALID_INPUT'' ''Choose one local VM and explicit disk targets to delete.''
     else case pe_delete_disks pe (rq_input q) of
       None \<Rightarrow> refuse ''INVALID_INPUT'' ''deleteDisks must contain an explicit list of disk targets, such as vda. Omit it to keep every disk.''
     | Some given \<Rightarrow>
         if length given < 1 \<or> length given > 64
         then refuse ''INVALID_INPUT'' ''deleteDisks must contain an explicit list of disk targets, such as vda. Omit it to keep every disk.''
         else (let targets = sort given in
           if \<not> list_all removal_target targets \<or> \<not> distinct targets
           then refuse ''INVALID_INPUT'' ''Choose each disk target once; paths, wildcards and empty targets are not accepted.''
           else if \<not> rh_removes_disks h
           then unavailable ''This provider cannot verify safe selected-disk removal.''
           else thenr (ask (in_disks ins (rq_connection q) (rq_id q) targets)) (\<lambda>r.
             if \<not> valid_disk_removal r \<or> rd_resource (dr_definition r) \<noteq> key \<or> map sd_target (dr_disks r) \<noteq> targets
             then refuse ''INVALID_INPUT'' ''Disk inspection did not match the selected VM and exact requested disks.''
             else thenr (bind_inventory h (dr_definition r)) (\<lambda>_.
               thenr (references_clear env c h [] no_plan r) (\<lambda>_.
               retr \<lparr>df_operation = disk_removal_operation, df_resources = dr_resources r,
                 df_before = [(key_string key, rd_print (dr_definition r))], df_recipe = r, df_steps = [disk_removal_step],
                 df_acks = [''host-mutation'', ''remove-vm-definition'', ''data-loss-delete-disks'', ''exclusive-lifecycle-writer'', ''exclusive-storage-writer''],
                 df_risks = [''Permanent data loss: the selected disks are deleted after the VM definition is removed. No configuration backup or undo copy is created.'',
                   ''Unselected disks, installer media, backing parents and backups are retained.'',
                   ''Coordinate other VM and storage editors. A partial or uncertain result keeps remaining files and locks; never repeat deletion blindly.'']\<rparr>)))))"

section \<open>Growing\<close>

definition grow_step :: step where
  "grow_step = \<lparr>step_id = ''grow-disk'', step_action = ''vm.disk.grow-v1'',
     step_preconditions = [''unchanged stopped VM and exact volume identity'', ''no other VM or image uses the volume''],
     step_idempotency = ''reconcile-before-retry'', step_compensation = ''Keep the disk; a grown disk is not shrunk back'',
     step_reconciliation = ''Observe the volume's identity and capacity; never resize again'',
     step_completion = ''The same volume has the requested capacity''\<rparr>"

definition plan_grow :: "plan_env \<Rightarrow> 'w edit_host \<Rightarrow> 'w inspector \<Rightarrow> request \<Rightarrow> ('w, disk_grow draft) edit" where
  "plan_grow pe h ins q = (let key = request_key q in
     if \<not> removal_identity key \<or> \<not> no_extras q
     then refuse ''INVALID_INPUT'' ''Choose one local VM and one of its disks to grow.''
     else case pe_grow_input pe (rq_input q) of
       None \<Rightarrow> refuse ''INVALID_INPUT'' ''Give the disk and its new size in GiB, for example {\"target\":\"vda\",\"sizeGiB\":40}.''
     | Some (target, gib) \<Rightarrow>
         if \<not> eh_grows h then no_provider ''This provider cannot grow disks.''
         else (let capacity = push_bit 30 gib in
           thenr (ask (in_grow ins (rq_connection q) (rq_id q) target capacity)) (\<lambda>g.
           if dg_vm g \<noteq> key \<or> sd_target (dg_disk g) \<noteq> target \<or> dg_capacity g \<noteq> capacity
           then refuse ''INVALID_INPUT'' ''Disk inspection did not match the selected VM and disk.''
           else if capacity \<le> sd_capacity (dg_disk g)
           then refuse ''INVALID_INPUT'' (target @ '' is already '' @ size_text (sd_capacity (dg_disk g)) @
             ''; choose a larger size. Shrinking a disk is not supported.'')
           else if \<not> valid_grow g then refuse ''INVALID_INPUT'' ''Disk inspection returned an incomplete disk identity.''
           else (let over = capacity - sd_capacity (dg_disk g) > dg_available g in
             retr \<lparr>df_operation = ''vm.disk.grow-v1'', df_resources = dg_resources g, df_before = [(key_string key, dg_print g)],
               df_recipe = g, df_steps = [grow_step],
               df_acks = [''host-mutation'', ''exclusive-storage-writer''] @ (if over then [''pool-overcommit''] else []),
               df_risks = [''Grows the virtual disk only: partitions and filesystems inside the guest keep their size until you extend them there.'',
                 ''On a system connection libvirt resizes this VM's own disk image with qemu-img as root; imported or untrusted images are never resized.'',
                 ''A grown disk is not shrunk back.''] @
                 (if over then [''The pool has less free space than the added size; the guest can run out of space as it writes.''] else [])\<rparr>))))"

section \<open>Moving\<close>

definition move_step :: step where
  "move_step = \<lparr>step_id = ''move-disk'', step_action = ''vm.disk.move-v1'',
     step_preconditions = [''unchanged stopped VM and saved definition'', ''the destination volume name is absent'', ''no other VM or image uses this disk''],
     step_idempotency = ''reconcile-before-retry'',
     step_compensation = ''Keep both copies and the unchanged VM after any uncertainty; the original is never deleted during recovery'',
     step_reconciliation = ''Observe the copy and the saved definition; never copy, define or delete twice'',
     step_completion = ''The verified copy exists and the saved definition names it instead of the original''\<rparr>"

definition plan_move :: "plan_env \<Rightarrow> 'w edit_host \<Rightarrow> 'w inspector \<Rightarrow> request \<Rightarrow> ('w, disk_move draft) edit" where
  "plan_move pe h ins q = (let key = request_key q in
     if \<not> removal_identity key \<or> \<not> no_extras q
     then refuse ''INVALID_INPUT'' ''Choose one local VM, one of its disks and the storage pool to move it to.''
     else case pe_move_input pe (rq_input q) of
       None \<Rightarrow> refuse ''INVALID_INPUT'' ''Give the disk and the destination pool, for example {\"target\":\"sdb\",\"pool\":\"archive\"}.''
     | Some (target, pool, keep) \<Rightarrow>
         if \<not> eh_moves h then no_provider ''This provider cannot move disks.''
         else thenr (ask (in_move ins (rq_connection q) (rq_id q) target pool keep)) (\<lambda>m.
           if mo_vm m \<noteq> key \<or> sd_target (mo_disk m) \<noteq> target \<or> mo_pool_name m \<noteq> pool \<or> mo_keep m \<noteq> keep
           then refuse ''INVALID_INPUT'' ''Disk inspection did not match the selected VM, disk and pool.''
           else if \<not> valid_move m then refuse ''INVALID_INPUT'' ''Disk inspection returned an incomplete move.''
           else (let over = mo_bytes m > mo_available m in
             retr \<lparr>df_operation = ''vm.disk.move-v1'', df_resources = mo_resources m, df_before = [(key_string key, mo_print m)],
               df_recipe = m, df_steps = [move_step],
               df_acks = [''host-mutation'', ''exclusive-storage-writer'', ''exclusive-configuration-writer''] @
                 (if mo_keep m then [] else [''data-loss-delete-old-copy'']) @ (if over then [''pool-overcommit''] else []),
               df_risks = [''Copies this disk into another pool and points the VM at the copy; the guest sees the same disk in the same place.'',
                 ''Both copies exist until the move finishes, so up to '' @ size_text (mo_bytes m) @ '' is needed in '' @ mo_pool_name m @ '' while it runs.'',
                 ''The copy is checked against the disk it was made from, by reading it back before the VM is pointed at it.'',
                 ''The VM must already be stopped; nothing inside the guest is changed.''] @
                 (if mo_keep m then [] else [''The original disk in '' @ mo_source_pool m @
                    '' is deleted once the VM uses the copy. If it cannot be deleted, the move still completes and the original is reported as kept.'']) @
                 (if over then [''The destination pool reports less free space than the copy needs; the copy can fail part way through.''] else [])\<rparr>)))"

section \<open>Cloning\<close>

definition clone_step :: step where
  "clone_step = \<lparr>step_id = ''clone-vm'', step_action = ''vm.clone-v1'',
     step_preconditions = [''unchanged stopped original and saved definition'', ''every copy name and the clone's name and UUID are unused'',
       ''no other VM uses the original's writable disks''],
     step_idempotency = ''reconcile-before-retry'',
     step_compensation = ''Keep the original unchanged and every verified copy after any uncertainty; copies are never deleted during recovery'',
     step_reconciliation = ''Observe the copies and whether the clone is defined; never copy or define twice'',
     step_completion = ''The clone is defined, stopped, with a new identity, and every writable disk names its verified copy''\<rparr>"

definition overcommitted :: "vm_clone \<Rightarrow> bool" where
  "overcommitted c \<longleftrightarrow> list_ex (\<lambda>p. ps_need p > ps_available p) (cl_pools c)"

definition clone_risks :: "vm_clone \<Rightarrow> string list" where
  "clone_risks c = [''Copies '' @ show_nat (length (cl_disks c)) @ '' disk(s) of '' @ cl_source_name c @ '' into new volumes and defines '' @ cl_name c @
       '', a separate stopped VM; '' @ cl_source_name c @ '' is not changed.'',
     ''Everything inside the disks is copied as it is: hostname, machine ID, SSH host keys, accounts and licences are the original's. Change them in the clone before running both on one network.'',
     ''The clone gets a new UUID and new MAC addresses on the same networks.'',
     ''The copies are checked against the disks they were made from, by reading them back, before the clone is defined.''] @
    (if cl_media c = [] then [] else [''Read-only media ('' @ joined '', '' (cl_media c) @ '') are shared with the original, not copied.'']) @
    (if cl_nvram c then [''The clone's UEFI variables start fresh from their template, so its boot entries are reset; guests that boot through the standard fallback path still boot.''] else []) @
    map (\<lambda>p. ''Needs up to '' @ size_text (ps_need p) @ '' in pool '' @ ps_pool p @ ''.'') (cl_pools c) @
    (if overcommitted c then [''A destination pool reports less free space than its copies need; copying can fail part way through.''] else [])"

text \<open>The clone's UUID is drawn at planning.\<close>

definition plan_clone :: "plan_env \<Rightarrow> 'w edit_host \<Rightarrow> 'w inspector \<Rightarrow> string \<Rightarrow> request \<Rightarrow> ('w, vm_clone draft) edit" where
  "plan_clone pe h ins uuid q = (let key = request_key q in
     if \<not> removal_identity key \<or> \<not> no_extras q then refuse ''INVALID_INPUT'' ''Choose one local VM to clone.''
     else case pe_clone_input pe (rq_input q) of
       None \<Rightarrow> refuse ''INVALID_INPUT'' ''Give the clone a name, for example {\"name\":\"web-2\"}, and optionally one storage pool for every copy.''
     | Some (name, pool) \<Rightarrow>
         if \<not> eh_clones h then no_provider ''This provider cannot clone VMs.''
         else thenr (ask (in_clone ins (rq_connection q) (rq_id q) name pool uuid)) (\<lambda>c.
           if cl_source c \<noteq> key \<or> cl_name c \<noteq> name \<or> \<not> valid_clone c
           then refuse ''INVALID_INPUT'' ''Clone inspection returned an incomplete or different clone.''
           else if list_ex (\<lambda>d. pool \<noteq> [] \<and> dc_pool_name d \<noteq> pool) (cl_disks c)
           then refuse ''INVALID_INPUT'' ''Clone inspection placed a copy outside the chosen pool.''
           else retr \<lparr>df_operation = ''vm.clone-v1'', df_resources = cl_resources c, df_before = [(key_string key, cl_print c)],
             df_recipe = c, df_steps = [clone_step],
             df_acks = [''host-mutation'', ''exclusive-storage-writer'', ''exclusive-configuration-writer'', ''copy-managed-volumes'', ''new-vm-identity''] @
               (if cl_nvram c then [''new-firmware-state''] else []) @ (if overcommitted c then [''pool-overcommit''] else []),
             df_risks = clone_risks c\<rparr>))"

section \<open>Estimates\<close>

definition removal_estimate :: estimates where
  "removal_estimate = \<lparr>additional_bytes = 0, requires_downtime = True,
     est_notes = ''VM must already be stopped. Keeps storage and frees no disk space; no new allocation or guest restart is requested.''\<rparr>"

definition disk_removal_estimate :: "removal_env \<Rightarrow> plan \<Rightarrow> bytes \<Rightarrow> go_error + estimates" where
  "disk_removal_estimate env p raw = bindr (parse_disk_removal env p raw) (\<lambda>_. Inr \<lparr>additional_bytes = 0, requires_downtime = True,
     est_notes = ''VM must already be stopped. Deletes selected disk files permanently; no wipe, backup, guest restart or new allocation.''\<rparr>)"

definition grow_estimate :: "edit_env \<Rightarrow> plan \<Rightarrow> bytes \<Rightarrow> go_error + estimates" where
  "grow_estimate env p raw = bindr (parse_grow env p raw) (\<lambda>_. Inr \<lparr>additional_bytes = 0, requires_downtime = True,
     est_notes = ''The VM must already be stopped. The disk's virtual size grows; host space is used only as the guest writes. Partitions and filesystems inside the guest are not changed.''\<rparr>)"

definition move_estimate :: "edit_env \<Rightarrow> plan \<Rightarrow> bytes \<Rightarrow> go_error + estimates" where
  "move_estimate env p raw = bindr (parse_move env p raw) (\<lambda>m. Inr \<lparr>additional_bytes = mo_bytes m, requires_downtime = True,
     est_notes = ''The VM must already be stopped. The disk is copied into the destination pool, so both copies exist until the move finishes. Nothing inside the guest is changed.''\<rparr>)"

definition clone_estimate :: "edit_env \<Rightarrow> plan \<Rightarrow> bytes \<Rightarrow> go_error + estimates" where
  "clone_estimate env p raw = bindr (parse_clone env p raw) (\<lambda>c. Inr \<lparr>additional_bytes = sum_list (map dc_bytes (cl_disks c)), requires_downtime = True,
     est_notes = ''The original must already be stopped and stays stopped while its disks are copied. It is not changed.''\<rparr>)"

section \<open>Reviews\<close>

definition key_json :: "resource_key \<Rightarrow> json" where
  "key_json k = JObj [(''providerID'', JStr (provider_id k)), (''connectionID'', JStr (connection_id k)), (''kind'', JStr (key_kind k)),
     (''resourceUUID'', JStr (key_uuid k))]"

definition disk_json :: "removal_disk \<Rightarrow> json" where
  "disk_json d = JObj [(''target'', JStr (sd_target d)), (''path'', JStr (sd_path d)), (''poolID'', JStr (sd_pool d)), (''volumeName'', JStr (sd_name d)),
     (''volumeKey'', JStr (sd_key d)), (''generation'', JStr (sd_generation d)), (''fingerprint'', JStr (sd_print d)), (''format'', JStr (sd_format d)),
     (''capacityBytes'', JNum (uint (sd_capacity d))), (''allocatedBytes'', JNum (uint (sd_allocated d)))]"

definition strings_json :: "string list \<Rightarrow> json" where
  "strings_json xs = JArr (map JStr xs)"

definition removal_review :: "removal_env \<Rightarrow> plan \<Rightarrow> bytes \<Rightarrow> go_error + (string \<times> json) list" where
  "removal_review env p raw = bindr (parse_removal env p raw) (\<lambda>r. let d = rr_definition r in Inr
     [(''action'', JStr ''remove''), (''resource'', key_json (rd_resource d)), (''vmName'', JStr (rd_name d)), (''definitionSHA256'', JStr (rd_sha256 d)),
      (''retainedSources'', strings_json (rd_retained d)), (''keptFirmware'', JStr (rd_firmware d)), (''keptTPMState'', JBool (rd_tpm d)),
      (''diskDeletion'', JBool False), (''backupsDeleted'', JBool False), (''configurationRemoved'', JBool True), (''backupCreated'', JBool False),
      (''requiresStopped'', JBool True), (''automaticStop'', JBool False)])"

definition disk_removal_review :: "removal_env \<Rightarrow> plan \<Rightarrow> bytes \<Rightarrow> go_error + (string \<times> json) list" where
  "disk_removal_review env p raw = bindr (parse_disk_removal env p raw) (\<lambda>r. let d = dr_definition r in Inr
     [(''action'', JStr ''remove''), (''resource'', key_json (rd_resource d)), (''vmName'', JStr (rd_name d)), (''definitionSHA256'', JStr (rd_sha256 d)),
      (''deleteDisks'', strings_json (map sd_target (dr_disks r))), (''disks'', JArr (map disk_json (dr_disks r))),
      (''retainedSources'', strings_json (filter (\<lambda>path. path \<notin> set (map sd_path (dr_disks r))) (rd_retained d))),
      (''diskDeletion'', JBool True), (''backupsDeleted'', JBool False), (''configurationRemoved'', JBool True), (''backupCreated'', JBool False),
      (''requiresStopped'', JBool True), (''automaticStop'', JBool False)])"

definition grow_review :: "edit_env \<Rightarrow> plan \<Rightarrow> bytes \<Rightarrow> go_error + (string \<times> json) list" where
  "grow_review env p raw = bindr (parse_grow env p raw) (\<lambda>g. Inr
     [(''action'', JStr ''grow-disk''), (''resource'', key_json (dg_vm g)), (''target'', JStr (sd_target (dg_disk g))), (''path'', JStr (sd_path (dg_disk g))),
      (''beforeCapacityBytes'', JNum (uint (sd_capacity (dg_disk g)))), (''afterCapacityBytes'', JNum (uint (dg_capacity g))),
      (''poolAvailableBytes'', JNum (uint (dg_available g))), (''guestFilesystemsGrown'', JBool False), (''requiresStopped'', JBool True),
      (''automaticStop'', JBool False), (''diskDeletion'', JBool False)])"

definition move_review :: "edit_env \<Rightarrow> plan \<Rightarrow> bytes \<Rightarrow> go_error + (string \<times> json) list" where
  "move_review env p raw = bindr (parse_move env p raw) (\<lambda>m. Inr
     [(''action'', JStr ''move-disk''), (''resource'', key_json (mo_vm m)), (''target'', JStr (sd_target (mo_disk m))),
      (''fromPool'', JStr (mo_source_pool m)), (''fromVolume'', JStr (sd_name (mo_disk m))), (''toPool'', JStr (mo_pool_name m)), (''volume'', JStr (mo_volume m)),
      (''sizeBytes'', JNum (uint (mo_bytes m))), (''capacityBytes'', JNum (uint (sd_capacity (mo_disk m)))),
      (''destinationAvailableBytes'', JNum (uint (mo_available m))), (''keepOldCopy'', JBool (mo_keep m)),
      (''diskDeletion'', JBool (\<not> mo_keep m)), (''requiresStopped'', JBool True), (''automaticStop'', JBool False)])"

definition clone_review :: "edit_env \<Rightarrow> plan \<Rightarrow> bytes \<Rightarrow> go_error + (string \<times> json) list" where
  "clone_review env p raw = bindr (parse_clone env p raw) (\<lambda>c. Inr
     [(''action'', JStr ''clone''), (''resource'', key_json (cl_source c)), (''sourceName'', JStr (cl_source_name c)), (''name'', JStr (cl_name c)), (''uuid'', JStr (cl_uuid c)),
      (''disks'', JArr (map (\<lambda>d. JObj [(''target'', JStr (sd_target (dc_disk d))), (''fromPool'', JStr (dc_source_pool d)), (''fromVolume'', JStr (sd_name (dc_disk d))),
         (''toPool'', JStr (dc_pool_name d)), (''volume'', JStr (dc_volume d)), (''sizeBytes'', JNum (uint (dc_bytes d)))]) (cl_disks c))),
      (''sharedMedia'', strings_json (cl_media c)), (''freshFirmwareVariables'', JBool (cl_nvram c)),
      (''pools'', JArr (map (\<lambda>p. JObj [(''poolName'', JStr (ps_pool p)), (''needBytes'', JNum (uint (ps_need p))), (''availableBytes'', JNum (uint (ps_available p)))]) (cl_pools c))),
      (''changesOriginal'', JBool False), (''requiresStopped'', JBool True), (''automaticStop'', JBool False), (''diskDeletion'', JBool False)])"

end
