(* ===== verification/Machine_Edits_Laws.thy ===== *)
theory Machine_Edits_Laws
  imports Machine_Edits "HOL-Library.Sublist"
begin

text \<open>
  What the workflows on a stopped machine do to the host: effects in their order, each with the receipt
  in the journal, and never again once there is a receipt.
\<close>

section \<open>Effects in a log\<close>

type_synonym edit_log = "(edit_call \<times> db) list"

fun is_effect :: "edit_call \<Rightarrow> bool" where
  "is_effect (Seen _) \<longleftrightarrow> False"
| "is_effect _ \<longleftrightarrow> True"

definition effects :: "edit_log \<Rightarrow> edit_call list" where
  "effects es = filter is_effect (map fst es)"

definition announced :: "string \<Rightarrow> string \<Rightarrow> edit_log \<Rightarrow> bool" where
  "announced kind op es \<longleftrightarrow> list_all (\<lambda>(c, d). is_effect c \<longrightarrow> metadata_bytes kind op d \<noteq> None) es"

lemma effects_simps [simp]: "effects [] = []" "effects (xs @ ys) = effects xs @ effects ys"
  "effects ((c, d) # es) = (if is_effect c then c # effects es else effects es)"
  by (auto simp: effects_def)

lemma announced_simps [simp]: "announced kind op []" "announced kind op (xs @ ys) \<longleftrightarrow> announced kind op xs \<and> announced kind op ys"
  "announced kind op ((c, d) # es) \<longleftrightarrow> (is_effect c \<longrightarrow> metadata_bytes kind op d \<noteq> None) \<and> announced kind op es"
  by (auto simp: announced_def)

text \<open>A computation of a job that has its receipt: \<open>es\<close> are the calls it makes.\<close>

definition makes :: "string \<Rightarrow> string \<Rightarrow> (('w, edit_call) session, 'a) act \<Rightarrow> (go_error + 'a \<Rightarrow> edit_call list \<Rightarrow> bool) \<Rightarrow> bool" where
  "makes kind op m Q \<longleftrightarrow> (\<forall>s. has_receipt kind op s \<longrightarrow>
     after m (\<lambda>x t. has_receipt kind op t \<and> (\<exists>es. se_log t = se_log s @ es \<and> announced kind op es \<and> Q x (map fst es))) s)"

lemma makesD:
  assumes "makes kind op m Q" and "has_receipt kind op s" and "m s = (x, t)"
  shows "has_receipt kind op t \<and> (\<exists>es. se_log t = se_log s @ es \<and> announced kind op es \<and> Q x (map fst es))"
  using assms unfolding makes_def by (blast dest: afterD)

lemma makesI: "(\<And>s x t. has_receipt kind op s \<Longrightarrow> m s = (x, t) \<Longrightarrow>
    has_receipt kind op t \<and> (\<exists>es. se_log t = se_log s @ es \<and> announced kind op es \<and> Q x (map fst es))) \<Longrightarrow> makes kind op m Q"
  unfolding makes_def after_def by (auto split: prod.split)

lemma makes_mono: "makes kind op m Q \<Longrightarrow> (\<And>x cs. Q x cs \<Longrightarrow> R x cs) \<Longrightarrow> makes kind op m R"
  by (rule makesI) (blast dest: makesD)

lemma makes_liftr: "Q x [] \<Longrightarrow> makes kind op (liftr x) Q"
  by (rule makesI) (auto intro!: exI [of _ "[]"])

lemma makes_retr: "Q (Inr a) [] \<Longrightarrow> makes kind op (retr a) Q"
  by (rule makesI) (auto intro!: exI [of _ "[]"])

lemma makes_tryr:
  assumes "makes kind op m (\<lambda>x cs. makes kind op (f x) (\<lambda>y ds. Q y (cs @ ds)))"
  shows "makes kind op (tryr m f) Q"
proof (rule makesI)
  fix s r u assume s: "has_receipt kind op s" and run: "tryr m f s = (r, u)"
  obtain x t where m: "m s = (x, t)" and f: "f x t = (r, u)" using run by (blast elim: tryr_cases)
  obtain es where es: "has_receipt kind op t" "se_log t = se_log s @ es" "announced kind op es"
      "makes kind op (f x) (\<lambda>y ds. Q y (map fst es @ ds))" using makesD [OF assms s m] by blast
  obtain fs where "has_receipt kind op u" "se_log u = se_log t @ fs" "announced kind op fs" "Q r (map fst es @ map fst fs)"
    using makesD [OF es(4,1) f] by blast
  then show "has_receipt kind op u \<and> (\<exists>es. se_log u = se_log s @ es \<and> announced kind op es \<and> Q r (map fst es))"
    using es by (auto intro!: exI [of _ "es @ fs"])
qed

lemma thenr_tryr: "thenr m f = tryr m (\<lambda>x. case x of Inl e \<Rightarrow> liftr (Inl e) | Inr a \<Rightarrow> f a)"
  by (rule ext) (auto simp: thenr_def tryr_def liftr_def split: prod.split sum.split)

lemma makes_thenr:
  assumes "makes kind op m (\<lambda>x cs. case x of Inl e \<Rightarrow> Q (Inl e) cs | Inr a \<Rightarrow> makes kind op (f a) (\<lambda>y ds. Q y (cs @ ds)))"
  shows "makes kind op (thenr m f) Q"
  unfolding thenr_tryr by (rule makes_tryr, rule makes_mono [OF assms]) (auto split: sum.split_asm intro: makes_liftr)

lemma makes_unlessr: "Q (if b then Inr () else failr code msg) [] \<Longrightarrow> makes kind op (unlessr b code msg) Q"
  by (rule makesI) (auto intro!: exI [of _ "[]"])

lemma makes_if: "(b \<Longrightarrow> makes kind op m Q) \<Longrightarrow> (\<not> b \<Longrightarrow> makes kind op m' Q) \<Longrightarrow> makes kind op (if b then m else m') Q"
  by simp

text \<open>Errors of the host and the journal that do not claim that nothing happened.\<close>

definition call_plain :: "('w, 'a) host_call \<Rightarrow> bool" where
  "call_plain call \<longleftrightarrow> (\<forall>w d e r. call (w, d) = (Inl e, r) \<longrightarrow> \<not> is_not_done e)"

definition faults_plain :: "'w faults \<Rightarrow> bool" where
  "faults_plain f \<longleftrightarrow> (\<forall>w e. (ft_ctx f w = Some e \<longrightarrow> \<not> is_not_done e) \<and>
     (ft_put f w = Some e \<longrightarrow> \<not> is_not_done e) \<and> (ft_get f w = Some e \<longrightarrow> \<not> is_not_done e))"

lemma effect_call: "effect c call s = (x, t) \<Longrightarrow> \<exists>r. call (se_world s, se_db s) = (x, r)"
  by (auto simp: effect_def split: prod.split_asm)

lemma ask_logged_call: "ask_logged f call s = (Inl e, t) \<Longrightarrow> \<exists>r. call (se_world s, se_db s) = (Inl e, r)"
  by (auto simp: ask_logged_def split: prod.split_asm sum.split_asm)

lemma makes_effect:
  assumes "call_keeps kind op call" and "call_plain call" and "is_effect c"
    and "\<And>x. (\<And>e. x = Inl e \<Longrightarrow> \<not> is_not_done e) \<Longrightarrow> Q x [c]"
  shows "makes kind op (effect c call) Q"
proof (rule makesI)
  fix s x t assume s: "has_receipt kind op s" and run: "effect c call s = (x, t)"
  have "Q x [c]" using effect_call [OF run] assms(2) by (intro assms(4)) (auto simp: call_plain_def)
  then show "has_receipt kind op t \<and> (\<exists>es. se_log t = se_log s @ es \<and> announced kind op es \<and> Q x (map fst es))"
    using effect_eq [OF run] keepsD [OF keeps_effect [OF assms(1)] run s] s assms(3)
    by (auto intro!: exI [of _ "[(c, se_db s)]"] simp: has_receipt_def)
qed

lemma makes_seen:
  assumes "call_keeps kind op call" and "call_plain call"
    and "\<And>e. \<not> is_not_done e \<Longrightarrow> Q (Inl e) []" and "\<And>a. Q (Inr a) [Seen a]"
  shows "makes kind op (ask_logged Seen call) Q"
proof (rule makesI)
  fix s x t assume s: "has_receipt kind op s" and run: "ask_logged Seen call s = (x, t)"
  have "has_receipt kind op t" by (rule keepsD [OF keeps_ask_logged [OF assms(1)] run s])
  then show "has_receipt kind op t \<and> (\<exists>es. se_log t = se_log s @ es \<and> announced kind op es \<and> Q x (map fst es))"
  proof (cases x)
    case (Inl e)
    then have "\<not> is_not_done e" using assms(2) run ask_logged_call [of Seen call s e t] unfolding call_plain_def by blast
    then have "Q x []" using assms(3) Inl by simp
    then show ?thesis using Inl ask_logged_log [OF run] \<open>has_receipt kind op t\<close> by (intro conjI exI [of _ "[]"]) auto
  next
    case (Inr a)
    then show ?thesis using ask_logged_log [OF run] assms(4) \<open>has_receipt kind op t\<close> by (intro conjI exI [of _ "[(Seen a, se_db t)]"]) auto
  qed
qed

lemma compare_put_plain: "compare_put kind i prev body d = Inl e \<Longrightarrow> \<not> is_not_done e"
  by (auto simp: compare_put_def compare_put_with_jobs_def split: if_split_asm)

lemma save_plain: "faults_plain f \<Longrightarrow> save_receipt f kind op prev body s = (Inl e, t) \<Longrightarrow> \<not> is_not_done e"
  by (auto simp: save_receipt_def write_receipt_def read_receipt_def faults_plain_def dest: compare_put_plain
      elim!: thenr_cases split: option.split_asm sum.split_asm)

lemma makes_save:
  assumes "faults_plain f" and "\<And>e. \<not> is_not_done e \<Longrightarrow> Q (Inl e) []" and "Q (Inr (Some body)) []"
  shows "makes kind op (save_receipt f kind op prev body) Q"
proof (rule makesI)
  fix s :: "('a, edit_call) session" and x t assume s: "has_receipt kind op s" and run: "save_receipt f kind op prev body s = (x, t)"
  have "has_receipt kind op t" by (rule keepsD [OF keeps_save run s])
  then show "has_receipt kind op t \<and> (\<exists>es. se_log t = se_log s @ es \<and> announced kind op es \<and> Q x (map fst es))"
  proof (cases x)
    case (Inl e)
    then have "Q x []" using assms(2) save_plain [OF assms(1)] run by blast
    then show ?thesis using receipts.only [OF run] \<open>has_receipt kind op t\<close> by (intro conjI exI [of _ "[]"]) auto
  next
    case (Inr q)
    then have "Q x []" using assms(3) receipts.saved [of f kind op prev body s q t] run by simp
    then show ?thesis using receipts.only [OF run] \<open>has_receipt kind op t\<close> by (intro conjI exI [of _ "[]"]) auto
  qed
qed

text \<open>
  A run from its announcement on: it fails before it changes anything, or there was no receipt, there
  is one now, and the calls are those of the part behind it.
\<close>

definition runs_once ::
  "string \<Rightarrow> string \<Rightarrow> (go_error + unit \<Rightarrow> edit_call list \<Rightarrow> bool) \<Rightarrow> ('w, edit_call) session \<Rightarrow> go_error + unit \<Rightarrow> ('w, edit_call) session \<Rightarrow> bool" where
  "runs_once kind op Q s x t \<longleftrightarrow>
     se_log t = se_log s \<and> (\<exists>e. x = Inl e \<and> \<not> is_not_done e) \<and> (has_receipt kind op s \<longrightarrow> has_receipt kind op t) \<or>
     \<not> has_receipt kind op s \<and> has_receipt kind op t \<and> (\<exists>es. se_log t = se_log s @ es \<and> announced kind op es \<and> Q x (map fst es))"

lemma announce:
  assumes f: "faults_plain f" and rest: "makes kind op (k (Some body)) Q"
  shows "after (thenr (save_receipt f kind op None body) k) (runs_once kind op Q s) s"
  unfolding after_def
proof (clarify elim!: thenr_cases)
  fix x t assume "thenr (save_receipt f kind op None body) k s = (x, t)"
  then show "runs_once kind op Q s x t"
  proof (cases rule: thenr_cases)
    case (failed e)
    then show ?thesis using receipts.only [OF failed(1)] save_plain [OF f failed(1)] keepsD [OF keeps_save failed(1)] by (auto simp: runs_once_def)
  next
    case (passed q s1)
    have s1: "has_receipt kind op s1" "\<not> has_receipt kind op s" "q = Some body" "se_log s1 = se_log s"
      using receipts.saved [OF passed(1)] receipts.only [OF passed(1)] by (auto simp: has_receipt_def)
    then show ?thesis using makesD [OF rest s1(1)] passed(2) by (simp add: runs_once_def)
  qed
qed

lemmas makes_rules = makes_thenr makes_tryr makes_retr makes_liftr makes_unlessr makes_if

section \<open>Growing a disk\<close>

text \<open>The receipt of a growth survives every call, and no call says that nothing happened.\<close>

definition grow_host :: "string \<Rightarrow> 'w edit_host \<Rightarrow> bool" where
  "grow_host op h \<longleftrightarrow> faults_plain (eh_faults h) \<and> (\<forall>g. call_keeps grow_kind op (eh_check_grow h g) \<and> call_plain (eh_check_grow h g) \<and>
     call_keeps grow_kind op (eh_grow h g) \<and> call_plain (eh_grow h g))"

text \<open>The calls after the receipt: the growth, then one look, and what the result says about it.\<close>

fun grow_calls :: "go_error + unit \<Rightarrow> edit_call list \<Rightarrow> bool" where
  "grow_calls x [Grow_volume] \<longleftrightarrow> (\<exists>e. x = Inl e \<and> \<not> is_not_done e)"
| "grow_calls x [Grow_volume, Seen state] \<longleftrightarrow> (x = Inr () \<longrightarrow> state = ''grown'') \<and> (\<forall>e. x = Inl e \<longrightarrow> is_not_done e \<longrightarrow> state = ''before'')"
| "grow_calls x _ \<longleftrightarrow> False"

lemma grow_effects_run:
  fixes h :: "'w edit_host"
  assumes h: "grow_host op h"
  shows "after (grow_effects env h op p g hash) (runs_once grow_kind op grow_calls s) s"
  unfolding grow_effects_def save_grow_def
  by (rule announce) (use h in \<open>auto simp: grow_host_def split: sum.split intro!: makes_rules makes_effect makes_seen makes_save\<close>)

section \<open>Moving a disk\<close>

definition move_host :: "string \<Rightarrow> 'w edit_host \<Rightarrow> bool" where
  "move_host op h \<longleftrightarrow> faults_plain (eh_faults h) \<and> (\<forall>m. call_keeps move_kind op (eh_check_move h m) \<and> call_plain (eh_check_move h m) \<and>
     call_keeps move_kind op (eh_copy h m) \<and> call_plain (eh_copy h m) \<and> call_keeps move_kind op (eh_define h m) \<and> call_plain (eh_define h m) \<and>
     call_keeps move_kind op (eh_delete_old h m) \<and> call_plain (eh_delete_old h m))"

text \<open>
  The calls after the receipt: a first look, and then effects in their order. They begin with the copy
  when the machine was found as reviewed; the original is deleted only when the review says so.
\<close>

definition move_order :: "edit_call list" where
  "move_order = [Copy_volume 0, Define_machine, Delete_old]"

fun move_calls :: "bool \<Rightarrow> go_error + unit \<Rightarrow> edit_call list \<Rightarrow> bool" where
  "move_calls keep x (Seen state # cs) \<longleftrightarrow> (let fs = filter is_effect cs in
     subseq fs move_order \<and> (state = ''before'' \<longrightarrow> prefix fs move_order) \<and> (Delete_old \<in> set fs \<longrightarrow> \<not> keep) \<and>
     (\<forall>e. x = Inl e \<longrightarrow> is_not_done e \<longrightarrow> fs = [Copy_volume 0]) \<and>
     (x = Inr () \<longrightarrow> Define_machine \<in> set fs \<or> state = ''retargeted'' \<or> state = ''old-deleted''))"
| "move_calls keep x cs \<longleftrightarrow> cs = [] \<and> (\<exists>e. x = Inl e \<and> \<not> is_not_done e)"

definition tail_calls :: "bool \<Rightarrow> string \<Rightarrow> go_error + unit \<Rightarrow> edit_call list \<Rightarrow> bool" where
  "tail_calls keep state x cs \<longleftrightarrow> (\<forall>e. x = Inl e \<longrightarrow> \<not> is_not_done e) \<and>
     (cs = [] \<or> state = ''copied'' \<and> cs = [Define_machine] \<or> \<not> keep \<and> (state = ''copied'' \<and> cs = [Define_machine, Delete_old] \<or>
        state = ''retargeted'' \<and> cs = [Delete_old])) \<and>
     (x = Inr () \<longrightarrow> Define_machine \<in> set cs \<or> state = ''retargeted'' \<or> state = ''old-deleted'')"

lemma finish_run:
  fixes h :: "'w edit_host"
  assumes h: "move_host op h"
  shows "makes move_kind op (move_finish env h op m (state, prev, r)) (tail_calls (mo_keep m) state)"
  unfolding move_finish_def save_move_def split_conv
  by (rule makes_if) (use h in \<open>auto simp: move_host_def tail_calls_def split: sum.split intro!: makes_rules makes_effect makes_save\<close>)

lemma tail_run:
  fixes h :: "'w edit_host"
  assumes h: "move_host op h"
  shows "makes move_kind op (thenr (move_define env h op m (state, prev, r)) (move_finish env h op m)) (tail_calls (mo_keep m) state)"
proof (cases "state = ''copied''")
  case True
  have rest: "makes move_kind op (move_finish env h op m (''retargeted'', prev', r'))
      (\<lambda>x cs. (\<forall>e. x = Inl e \<longrightarrow> \<not> is_not_done e) \<and> (cs = [] \<or> \<not> mo_keep m \<and> cs = [Delete_old]))" for prev' r'
    by (rule makes_mono [OF finish_run [OF h]]) (auto simp: tail_calls_def)
  show ?thesis
    using h unfolding move_define_def save_move_def Let_def True split_conv
    by (intro makes_thenr) (auto simp: move_host_def tail_calls_def rest split: sum.split intro!: makes_rules makes_effect makes_save)
next
  case False
  then show ?thesis by (auto simp: move_define_def intro!: makes_thenr makes_retr finish_run [OF h])
qed

lemma tail_moves: "tail_calls keep state x cs \<Longrightarrow> state \<noteq> ''before'' \<Longrightarrow> move_calls keep x (Seen state # cs)"
  by (auto simp: tail_calls_def move_order_def)

lemma copied_moves: "tail_calls keep ''copied'' x cs \<Longrightarrow> move_calls keep x (Seen state # Copy_volume 0 # cs)"
  by (auto simp: tail_calls_def move_order_def)

lemma copy_tried: "filter is_effect cs = [] \<Longrightarrow> move_calls keep (Inl e) (Seen state # Copy_volume 0 # cs)"
  by (auto simp: move_order_def)

lemma move_effects_run:
  fixes h :: "'w edit_host"
  assumes h: "move_host op h"
  shows "after (move_effects env h op p m hash) (runs_once move_kind op (move_calls (mo_keep m)) s) s"
proof -
  define k where "k = (\<lambda>q. thenr (move_define env h op m q) (move_finish env h op m))"
  have rest: "makes move_kind op (thenr (move_copy env h op m (state, prev, r)) k)
      (\<lambda>x cs. move_calls (mo_keep m) x (Seen state # cs))" for state prev r
  proof (cases "state = ''before''")
    case True
    have tail: "makes move_kind op (k (''copied'', prev', r')) (\<lambda>x cs. move_calls (mo_keep m) x (Seen ''before'' # Copy_volume 0 # cs))" for prev' r'
      unfolding k_def by (rule makes_mono [OF tail_run [OF h]]) (rule copied_moves)
    show ?thesis
      using h unfolding move_copy_def save_move_def Let_def True split_conv
      by (intro makes_thenr) (auto simp: move_host_def split: sum.split intro!: tail copy_tried makes_rules makes_effect makes_seen makes_save simp del: move_calls.simps)
  next
    case False
    have "makes move_kind op (k (state, prev, r)) (\<lambda>x cs. move_calls (mo_keep m) x (Seen state # cs))"
      unfolding k_def by (rule makes_mono [OF tail_run [OF h]]) (rule tail_moves [OF _ False])
    then show ?thesis using False unfolding move_copy_def by (intro makes_thenr) (simp add: makes_retr del: move_calls.simps)
  qed
  show ?thesis
    unfolding move_effects_def save_move_def Let_def k_def [symmetric]
    by (rule announce) (use h in \<open>auto simp: move_host_def rest intro!: makes_thenr [where m = "ask_logged Seen c" for c] makes_seen simp del: move_calls.simps(1)\<close>)
qed

section \<open>Cloning\<close>

definition clone_host :: "string \<Rightarrow> 'w edit_host \<Rightarrow> bool" where
  "clone_host op h \<longleftrightarrow> faults_plain (eh_faults h) \<and> (\<forall>c. call_keeps clone_kind op (eh_check_clone h c) \<and> call_plain (eh_check_clone h c) \<and>
     (\<forall>i. call_keeps clone_kind op (eh_copy_clone h c i) \<and> call_plain (eh_copy_clone h c i)) \<and>
     call_keeps clone_kind op (eh_define_clone h c) \<and> call_plain (eh_define_clone h c))"

definition clone_order :: "nat \<Rightarrow> edit_call list" where
  "clone_order n = map Copy_volume [0..<n] @ [Define_machine]"

fun clone_calls :: "nat \<Rightarrow> go_error + unit \<Rightarrow> edit_call list \<Rightarrow> bool" where
  "clone_calls n x (Seen state # cs) \<longleftrightarrow> prefix cs (clone_order n) \<and> (cs \<noteq> [] \<longrightarrow> state = ''before'') \<and>
     (x = Inr () \<longrightarrow> cs = clone_order n) \<and> (\<forall>e. x = Inl e \<longrightarrow> is_not_done e \<longrightarrow> Define_machine \<notin> set cs)"
| "clone_calls n x cs \<longleftrightarrow> cs = [] \<and> (\<exists>e. x = Inl e \<and> \<not> is_not_done e)"

definition copied :: "nat \<Rightarrow> nat \<Rightarrow> bool \<Rightarrow> edit_call list \<Rightarrow> bool" where
  "copied i n fine cs \<longleftrightarrow> (\<exists>j. i \<le> j \<and> j \<le> n \<and> cs = map Copy_volume [i..<j] \<and> (fine \<longrightarrow> j = n))"

lemma copied_one: "i < n \<Longrightarrow> copied i n False [Copy_volume i]"
  unfolding copied_def by (intro exI [of _ "Suc i"]) simp

lemma copied_Cons: "i < n \<Longrightarrow> copied (Suc i) n fine cs \<Longrightarrow> copied i n fine (Copy_volume i # cs)"
proof -
  assume i: "i < n" and "copied (Suc i) n fine cs"
  then obtain j where "Suc i \<le> j" "j \<le> n" "cs = map Copy_volume [Suc i..<j]" "fine \<longrightarrow> j = n" by (auto simp: copied_def)
  then show ?thesis unfolding copied_def by (intro exI [of _ j]) (simp add: upt_conv_Cons)
qed

lemma copies_run:
  fixes h :: "'w edit_host"
  assumes h: "clone_host op h"
  shows "i \<le> n \<Longrightarrow> makes clone_kind op (copy_from env h op c [i..<n] rp) (\<lambda>x cs. copied i n (\<not> isl x) cs)"
proof (induction "n - i" arbitrary: i rp)
  case 0
  then show ?case by (auto simp: copied_def intro!: makes_retr)
next
  case (Suc k)
  then have i: "i < n" "[i..<n] = i # [Suc i..<n]" by (simp_all add: upt_rec)
  have rest: "makes clone_kind op (copy_from env h op c [Suc i..<n] rp') (\<lambda>x cs. copied i n (\<not> isl x) (Copy_volume i # cs))" for rp'
    by (rule makes_mono [OF Suc.hyps(1)]) (use Suc.hyps(2) i in \<open>auto intro: copied_Cons\<close>)
  show ?case
    using h copied_one [OF i(1)] unfolding i(2) copy_from.simps copy_one_def save_clone_def Let_def
    by (intro makes_thenr) (auto simp: clone_host_def rest split: sum.split intro!: makes_rules makes_effect makes_save)
qed

lemma copied_prefix: "copied 0 n fine cs \<Longrightarrow> prefix cs (clone_order n)"
  unfolding copied_def clone_order_def
  by (metis le_add_diff_inverse map_mono_prefix prefixI prefix_prefix upt_add_eq_append zero_le)

lemma copied_define: "copied i n fine cs \<Longrightarrow> Define_machine \<notin> set cs"
  by (auto simp: copied_def)

lemma clone_effects_run:
  fixes h :: "'w edit_host"
  assumes h: "clone_host op h"
  shows "after (clone_effects env h op p c hash) (runs_once clone_kind op (clone_calls (length (cl_disks c))) s) s"
proof -
  let ?n = "length (cl_disks c)"
  have copies: "makes clone_kind op (thenr (copy_from env h op c [0..<?n] rp) k) (\<lambda>x cs. clone_calls ?n x (Seen ''before'' # cs))"
    if k: "\<And>q. makes clone_kind op (k q) (\<lambda>x cs. clone_calls ?n x (Seen ''before'' # map Copy_volume [0..<?n] @ cs))" for rp k
  proof (rule makes_thenr, rule makes_mono [OF copies_run [OF h, of 0 ?n]])
    fix x :: "go_error + clone_receipt \<times> bytes option" and cs assume cs: "copied 0 ?n (\<not> isl x) cs"
    show "case x of Inl e \<Rightarrow> clone_calls ?n (Inl e) (Seen ''before'' # cs)
        | Inr a \<Rightarrow> makes clone_kind op (k a) (\<lambda>y ds. clone_calls ?n y (Seen ''before'' # cs @ ds))"
    proof (cases x)
      case (Inl e)
      then show ?thesis using copied_prefix [OF cs] copied_define [OF cs] by simp
    next
      case (Inr a)
      then have "cs = map Copy_volume [0..<?n]" using cs by (auto simp: copied_def)
      then show ?thesis using Inr k by simp
    qed
  qed simp
  define k where "k = (\<lambda>(r, prev). thenr (effect Define_machine (eh_define_clone h c)) (\<lambda>_.
      thenr (save_receipt (eh_faults h) clone_kind op prev (ee_put_clone env (r\<lparr>cr_defined := True\<rparr>))) (\<lambda>_. retr ())))"
  have k: "makes clone_kind op (k q) (\<lambda>x cs. clone_calls ?n x (Seen ''before'' # map Copy_volume [0..<?n] @ cs))" for q
    using h unfolding k_def split_def
    by (auto simp: clone_host_def clone_order_def split: sum.split intro!: makes_rules makes_effect makes_save)
  show ?thesis
    unfolding clone_effects_def save_clone_def Let_def k_def [symmetric]
  proof (rule announce)
    show "faults_plain (eh_faults h)" using h by (simp add: clone_host_def)
    show "makes clone_kind op (thenr (ask_logged Seen (eh_check_clone h c)) (\<lambda>state. if state \<noteq> ''before''
        then refuse ''STALE_PLAN'' ''Copies or a VM with this clone's identity already exist; nothing was copied.''
        else thenr (copy_from env h op c [0..<?n] (first_clone op p c hash, Some (ee_put_clone env (first_clone op p c hash)))) k)) (clone_calls ?n)"
      using h by (intro makes_thenr makes_seen) (auto simp: clone_host_def intro!: makes_liftr copies k simp del: clone_calls.simps(1), simp)
  qed
qed

section \<open>Whole runs\<close>

text \<open>
  \<open>looks\<close> are the calls before the announcement. A run without effect ends in an error; any other run
  found no receipt, leaves one, and made the calls \<open>Q\<close> allows, each effect behind the receipt.
\<close>

definition edit_runs ::
  "string \<Rightarrow> string \<Rightarrow> edit_call list \<Rightarrow> (go_error + unit \<Rightarrow> edit_call list \<Rightarrow> bool) \<Rightarrow> ('w, edit_call) session \<Rightarrow> go_error + unit \<Rightarrow> ('w, edit_call) session \<Rightarrow> bool" where
  "edit_runs kind op looks Q s x t \<longleftrightarrow> (\<exists>vs. effects vs = [] \<and>
     (se_log t = se_log s @ vs \<and> (\<exists>e. x = Inl e) \<and> (has_receipt kind op s \<longrightarrow> has_receipt kind op t) \<or>
      map fst vs = looks \<and> \<not> has_receipt kind op s \<and> has_receipt kind op t \<and>
        (\<exists>es. se_log t = se_log s @ vs @ es \<and> announced kind op es \<and> Q x (map fst es))))"

lemma refused_run: "edit_runs kind op looks Q s (Inl e) s"
  unfolding edit_runs_def by (intro exI [of _ "[]"]) auto

lemma started_run:
  assumes "runs_once kind op Q s x t"
  shows "edit_runs kind op [] Q s x t"
  using assms unfolding edit_runs_def runs_once_def by (intro exI [of _ "[]"]) auto

lemma validate_grow_log:
  assumes "grow_host op h" and "validate_grow env h p raw s = (x, t)"
  shows "(has_receipt kind' op' s \<longrightarrow> kind' = grow_kind \<longrightarrow> op' = op \<longrightarrow> has_receipt kind' op' t) \<and>
    (\<exists>vs. se_log t = se_log s @ vs \<and> effects vs = [] \<and> (x = Inr () \<longrightarrow> map fst vs = [Seen ''before'']))"
  using assms(2) unfolding validate_grow_def no_provider_def
proof (cases rule: thenr_cases)
  case (passed g s1)
  then have s1: "s1 = s" by simp
  show ?thesis
  proof (cases "eh_grows h")
    case True
    with passed(2) s1 have "thenr (ask_logged Seen (eh_check_grow h g)) (\<lambda>state.
        unlessr (state = ''before'') ''STALE_PLAN'' ''The disk already has the requested size or changed; review again.'') s = (x, t)" by simp
    then show ?thesis
    proof (cases rule: thenr_cases)
      case (failed e)
      then show ?thesis using keepsD [OF keeps_ask_logged failed(1)] assms(1) ask_logged_log [OF failed(1)]
        by (auto simp: grow_host_def intro!: exI [of _ "[]"])
    next
      case (passed a s2)
      then show ?thesis using keepsD [OF keeps_ask_logged passed(1)] assms(1) ask_logged_log [OF passed(1)]
        by (auto simp: grow_host_def intro!: exI [of _ "[(Seen a, se_db s2)]"])
    qed
  qed (use passed(2) s1 in \<open>auto intro!: exI [of _ "[]"]\<close>)
qed (auto intro!: exI [of _ "[]"])

lemma grow_run:
  assumes h: "grow_host op h" and run: "execute_grow env h op p raw st s = (x, t)"
  shows "edit_runs grow_kind op [Seen ''before''] grow_calls s x t"
  using run unfolding execute_grow_def
proof (cases rule: thenr_cases)
  case (passed g s1)
  then have s1: "s1 = s" by simp
  show ?thesis
  proof (cases "op = [] \<or> step_id st \<noteq> ''grow-disk''")
    case True
    then show ?thesis using passed(2) s1 by (auto intro: refused_run)
  next
    case False
    from passed(2) [unfolded if_not_P [OF False] s1] show ?thesis
    proof (cases rule: thenr_cases)
      case (failed e)
      then show ?thesis using validate_grow_log [OF h failed(1), of grow_kind op] by (auto simp: edit_runs_def)
    next
      case (passed u s2)
      obtain vs where vs: "se_log s2 = se_log s @ vs" "effects vs = []" "map fst vs = [Seen ''before'']"
          and kept: "has_receipt grow_kind op s \<longrightarrow> has_receipt grow_kind op s2"
        using validate_grow_log [OF h passed(1), of grow_kind op] by auto
      have quiet: "edit_runs grow_kind op [Seen ''before''] grow_calls s (Inl e) s2" for e
        using vs kept by (auto simp: edit_runs_def)
      consider e where "x = Inl e" "t = s2" | hash where "grow_effects env h op p g hash s2 = (x, t)"
        using passed(2) by (auto simp: no_provider_def elim!: thenr_cases split: if_split_asm)
      then show ?thesis
      proof cases
        case 1
        then show ?thesis using quiet by simp
      next
        case 2
        have "runs_once grow_kind op grow_calls s2 x t" by (rule afterD [OF grow_effects_run [OF h] 2])
        then show ?thesis using vs kept unfolding runs_once_def edit_runs_def by (intro exI [of _ vs]) auto
      qed
    qed
  qed
qed (auto intro: refused_run)

lemma move_run:
  assumes h: "move_host op h" and run: "execute_move env h op p raw st s = (x, t)"
  shows "x \<noteq> Inr () \<and> t = s \<or> (\<exists>m. parse_move env p raw = Inr m \<and> edit_runs move_kind op [] (move_calls (mo_keep m)) s x t)"
proof -
  consider "x \<noteq> Inr ()" "t = s" | m hash where "Inr m = parse_move env p raw" "move_effects env h op p m hash s = (x, t)"
    using run unfolding execute_move_def no_provider_def by (auto elim!: thenr_cases split: if_split_asm)
  then show ?thesis
  proof cases
    case 2
    then show ?thesis using afterD [OF move_effects_run [OF h] 2(2)] by (metis started_run)
  qed simp
qed

lemma clone_run:
  assumes h: "clone_host op h" and run: "execute_clone env h op p raw st s = (x, t)"
  shows "x \<noteq> Inr () \<and> t = s \<or> (\<exists>c. parse_clone env p raw = Inr c \<and> edit_runs clone_kind op [] (clone_calls (length (cl_disks c))) s x t)"
proof -
  consider "x \<noteq> Inr ()" "t = s" | c hash where "Inr c = parse_clone env p raw" "clone_effects env h op p c hash s = (x, t)"
    using run unfolding execute_clone_def no_provider_def by (auto elim!: thenr_cases split: if_split_asm)
  then show ?thesis
  proof cases
    case 2
    then show ?thesis using afterD [OF clone_effects_run [OF h] 2(2)] by (metis started_run)
  qed simp
qed

section \<open>Reconciliations\<close>

lemma call_lists: "grow_host op h \<Longrightarrow> call_keeps grow_kind op (eh_check_grow h g)" "move_host op h \<Longrightarrow> call_keeps move_kind op (eh_check_move h m)"
  "clone_host op h \<Longrightarrow> call_keeps clone_kind op (eh_check_clone h c)"
  by (simp_all add: grow_host_def move_host_def clone_host_def)

lemma reconciles_keep:
  "grow_host op h \<Longrightarrow> keeps grow_kind op (reconcile_grow env h op p raw st)"
  "move_host op h \<Longrightarrow> keeps move_kind op (reconcile_move env h op p raw st)"
  "clone_host op h \<Longrightarrow> keeps clone_kind op (reconcile_clone env h op p raw st)"
  unfolding reconcile_grow_def reconcile_move_def reconcile_clone_def no_provider_def
  by (intro keeps_thenr; auto split: option.split intro!: keeps_thenr keeps_ask_logged call_lists)+

text \<open>A look without effect.\<close>

definition looks :: "(('w, edit_call) session, 'a) act \<Rightarrow> bool" where
  "looks m \<longleftrightarrow> (\<forall>s x t. m s = (x, t) \<longrightarrow> (\<exists>es. se_log t = se_log s @ es \<and> effects es = []))"

lemma looks_thenr: "looks m \<Longrightarrow> (\<And>a. looks (f a)) \<Longrightarrow> looks (thenr m f)"
proof -
  assume m: "looks m" and f: "\<And>a. looks (f a)"
  show ?thesis unfolding looks_def
  proof (intro allI impI)
    fix s x t assume "thenr m f s = (x, t)"
    then show "\<exists>es. se_log t = se_log s @ es \<and> effects es = []"
    proof (cases rule: thenr_cases)
      case (failed e)
      then show ?thesis using m unfolding looks_def by blast
    next
      case (passed a s1)
      then obtain es fs where "se_log s1 = se_log s @ es" "effects es = []" "se_log t = se_log s1 @ fs" "effects fs = []"
        using m f unfolding looks_def by blast
      then show ?thesis by (intro exI [of _ "es @ fs"]) simp
    qed
  qed
qed

lemma looks_simps [simp]: "looks (retr a)" "looks (liftr r)" "looks (ctx_poll f)" "looks (read_receipt f kind i)" "looks (ask_logged Seen c)"
proof -
  have "\<exists>es. se_log t = se_log s @ es \<and> effects es = []" if "ask_logged Seen c s = (x, t)" for s x t
    using ask_logged_log [OF that] by (cases x) auto
  then show "looks (ask_logged Seen c)" unfolding looks_def by blast
qed (auto simp: looks_def dest: ctx_poll_same read_same)

lemma reconciles_look:
  "looks (reconcile_grow env h op p raw st)" "looks (reconcile_move env h op p raw st)" "looks (reconcile_clone env h op p raw st)"
  unfolding reconcile_grow_def reconcile_move_def reconcile_clone_def no_provider_def
  by (intro looks_thenr; auto split: option.split intro!: looks_thenr)+

section \<open>Lives\<close>

definition grow_act :: "edit_env \<Rightarrow> string \<Rightarrow> ('w, edit_call) session \<Rightarrow> ('w, edit_call) session \<Rightarrow> bool" where
  "grow_act env op s t \<longleftrightarrow> (\<exists>h p raw st. grow_host op h \<and>
     ((\<exists>x. execute_grow env h op p raw st s = (x, t)) \<or> (\<exists>x. reconcile_grow env h op p raw st s = (x, t))))"

definition move_act :: "edit_env \<Rightarrow> string \<Rightarrow> ('w, edit_call) session \<Rightarrow> ('w, edit_call) session \<Rightarrow> bool" where
  "move_act env op s t \<longleftrightarrow> (\<exists>h p raw st. move_host op h \<and>
     ((\<exists>x. execute_move env h op p raw st s = (x, t)) \<or> (\<exists>x. reconcile_move env h op p raw st s = (x, t))))"

definition clone_act :: "edit_env \<Rightarrow> string \<Rightarrow> ('w, edit_call) session \<Rightarrow> ('w, edit_call) session \<Rightarrow> bool" where
  "clone_act env op s t \<longleftrightarrow> (\<exists>h p raw st. clone_host op h \<and>
     ((\<exists>x. execute_clone env h op p raw st s = (x, t)) \<or> (\<exists>x. reconcile_clone env h op p raw st s = (x, t))))"

definition acted_once :: "string \<Rightarrow> string \<Rightarrow> (edit_call list \<Rightarrow> bool) \<Rightarrow> ('w, edit_call) session \<Rightarrow> ('w, edit_call) session \<Rightarrow> bool" where
  "acted_once kind op order s t \<longleftrightarrow> (\<exists>es. se_log t = se_log s @ es \<and>
     (effects es = [] \<and> (has_receipt kind op s \<longrightarrow> has_receipt kind op t) \<or>
      \<not> has_receipt kind op s \<and> has_receipt kind op t \<and> announced kind op es \<and> order (effects es)))"

lemma effects_map: "effects es = filter is_effect (map fst es)"
  by (simp add: effects_def)

lemma quiet_announced: "effects es = [] \<Longrightarrow> announced kind op es"
  by (induction es) (auto split: if_split_asm)

lemma run_acted:
  assumes "edit_runs kind op first Q s x t" and "\<And>x cs. Q x cs \<Longrightarrow> order (filter is_effect cs)"
  shows "acted_once kind op order s t"
  using assms(1) unfolding edit_runs_def
proof (elim exE conjE disjE)
  fix vs assume "se_log t = se_log s @ vs" "effects vs = []" "has_receipt kind op s \<longrightarrow> has_receipt kind op t"
  then show ?thesis unfolding acted_once_def by blast
next
  fix vs es assume "se_log t = se_log s @ vs @ es" "effects vs = []" "\<not> has_receipt kind op s" "has_receipt kind op t"
    "announced kind op es" "Q x (map fst es)"
  then show ?thesis using assms(2) [of x "map fst es"] unfolding acted_once_def
    by (intro exI [of _ "vs @ es"]) (simp add: quiet_announced effects_map [of es])
qed

lemma look_acted: "looks m \<Longrightarrow> keeps kind op m \<Longrightarrow> m s = (x, t) \<Longrightarrow> acted_once kind op order s t"
  unfolding acted_once_def looks_def by (blast dest: keepsD)

lemma grow_order: "grow_calls x cs \<Longrightarrow> filter is_effect cs = [Grow_volume]"
  by (cases "(x, cs)" rule: grow_calls.cases) auto

lemma move_orders: "move_calls keep x cs \<Longrightarrow> subseq (filter is_effect cs) move_order"
  by (cases "(keep, x, cs)" rule: move_calls.cases) (auto simp: Let_def)

lemma clone_orders: "clone_calls n x cs \<Longrightarrow> prefix (filter is_effect cs) (clone_order n)"
proof -
  have "filter is_effect cs = cs" if "prefix cs (clone_order n)" for cs
    using set_mono_prefix [OF that] unfolding clone_order_def filter_id_conv by auto
  then show "clone_calls n x cs \<Longrightarrow> prefix (filter is_effect cs) (clone_order n)"
    by (cases "(n, x, cs)" rule: clone_calls.cases) auto
qed

lemma same_acted: "acted_once kind op order s s"
  unfolding acted_once_def by (intro exI [of _ "[]"]) simp

lemma grow_acted: "grow_act env op s t \<Longrightarrow> acted_once grow_kind op (\<lambda>es. es = [Grow_volume]) s t"
  unfolding grow_act_def
  by (elim exE conjE disjE) (blast intro: run_acted [OF grow_run] grow_order look_acted reconciles_look reconciles_keep)+

lemma move_acted: "move_act env op s t \<Longrightarrow> acted_once move_kind op (\<lambda>es. subseq es move_order) s t"
  unfolding move_act_def
proof (elim exE conjE disjE)
  fix h p raw st x assume "move_host op h" "execute_move env h op p raw st s = (x, t)"
  from move_run [OF this] show ?thesis by (elim disjE exE conjE) (simp add: same_acted, blast intro: run_acted move_orders)
qed (blast intro: look_acted reconciles_look reconciles_keep)

lemma clone_acted: "clone_act env op s t \<Longrightarrow> acted_once clone_kind op (\<lambda>es. \<exists>n. prefix es (clone_order n)) s t"
  unfolding clone_act_def
proof (elim exE conjE disjE)
  fix h p raw st x assume "clone_host op h" "execute_clone env h op p raw st s = (x, t)"
  from clone_run [OF this] show ?thesis by (elim disjE exE conjE) (simp add: same_acted, blast intro: run_acted clone_orders)
qed (blast intro: look_acted reconciles_look reconciles_keep)

lemma acted_single:
  assumes "\<And>s t. act s t \<Longrightarrow> acted_once kind op order s t" and "order []"
  shows "single_run (has_receipt kind op) se_log act (\<lambda>es. effects es = []) (\<lambda>es. announced kind op es \<and> order (effects es))"
  using assms by unfold_locales (auto simp: quiet_announced acted_once_def)

interpretation grows: single_run "has_receipt grow_kind op" se_log "grow_act env op" "\<lambda>es. effects es = []"
    "\<lambda>es. announced grow_kind op es \<and> (effects es = [] \<or> effects es = [Grow_volume])" for op env
  by (rule acted_single) (auto dest!: grow_acted simp: acted_once_def)

interpretation moves: single_run "has_receipt move_kind op" se_log "move_act env op" "\<lambda>es. effects es = []"
    "\<lambda>es. announced move_kind op es \<and> subseq (effects es) move_order" for op env
  by (rule acted_single [OF move_acted]) simp_all

interpretation clones: single_run "has_receipt clone_kind op" se_log "clone_act env op" "\<lambda>es. effects es = []"
    "\<lambda>es. announced clone_kind op es \<and> (\<exists>n. prefix (effects es) (clone_order n))" for op env
  by (rule acted_single [OF clone_acted]) simp_all

end
