(* ===== verification/Machine_Edits_Claims.thy ===== *)
theory Machine_Edits_Claims
  imports Machine_Edits_Laws "HOL-Library.Code_Target_Numeral"
begin

text \<open>
  The properties of growing, moving and cloning, and a small host on which a disk is moved: its world is
  the state the provider reports.
\<close>

section \<open>A host\<close>

definition small_disk :: removal_disk where
  "small_disk = \<lparr>sd_target = ''vda'', sd_path = ''/a/vda'', sd_pool = ''11111111-1111-1111-1111-111111111111'',
     sd_name = ''vda'', sd_key = ''k'', sd_generation = ''g'', sd_print = replicate 64 (CHR ''a''), sd_format = ''qcow2'',
     sd_capacity = 4, sd_allocated = 0\<rparr>"

definition small_key :: resource_key where
  "small_key = \<lparr>provider_id = ''libvirt'', connection_id = ''qemu:///system'', key_kind = ''vm'', key_uuid = ''22222222-2222-2222-2222-222222222222''\<rparr>"

definition small_volume :: string where
  "small_volume = ''virmill-22222222-2222-2222-2222-222222222222-disk-000.qcow2''"

definition small_move :: disk_move where
  "small_move = \<lparr>mo_vm = small_key, mo_print = replicate 64 (CHR ''b''), mo_sha256 = replicate 64 (CHR ''c''), mo_disk = small_disk,
     mo_source_pool = ''a'', mo_pool = ''33333333-3333-3333-3333-333333333333'', mo_pool_name = ''b'',
     mo_volume = small_volume, mo_path = ''/b/'' @ small_volume, mo_bytes = 16777221, mo_available = 9, mo_keep = False, mo_resources = [''a'', ''b'', ''c'', key_string small_key]\<rparr>"

definition small_plan :: plan where
  "small_plan = \<lparr>plan_api = [], plan_id = ''p'', plan_created = 0, plan_expires = 0, plan_actor = 0, plan_connection = ''qemu:///system'',
     plan_operation = ''vm.disk.move-v1'', plan_resources = mo_resources small_move, plan_input_digest = [], plan_digest = ''x'',
     plan_before = [(key_string small_key, mo_print small_move)], plan_grants = [], plan_acks = [], plan_risks = [], plan_steps = [],
     plan_estimates = \<lparr>additional_bytes = 0, requires_downtime = False, est_notes = []\<rparr>, plan_review = []\<rparr>"

definition small_env :: edit_env where
  "small_env = \<lparr>ee_env = \<lparr>env_canon = \<lambda>_. Inr ''null'', env_canon_raw = Inr, env_unmarshal = \<lambda>_. Inr JNull,
       env_sha256 = \<lambda>b. b, env_rfc3339 = \<lambda>_. ''t''\<rparr>,
     ee_grow = \<lambda>_. None, ee_move = \<lambda>_. Some (1, small_move), ee_clone = \<lambda>_. None,
     ee_grow_json = \<lambda>_. JNull, ee_move_json = \<lambda>_. JNull, ee_clone_json = \<lambda>_. JNull,
     ee_get_grow = \<lambda>_. None, ee_get_move = \<lambda>_. None, ee_get_clone = \<lambda>_. None,
     ee_put_grow = gr_state, ee_put_move = mr_state, ee_put_clone = \<lambda>_. []\<rparr>"

definition small_host :: "string edit_host" where
  "small_host = \<lparr>eh_faults = \<lparr>ft_ctx = \<lambda>_. None, ft_put = \<lambda>_. None, ft_get = \<lambda>_. None\<rparr>,
     eh_check_grow = \<lambda>_ (w, d). (Inr w, w, d), eh_grow = \<lambda>_ (w, d). (Inr (), ''grown'', d),
     eh_check_move = \<lambda>_ (w, d). (Inr w, w, d), eh_copy = \<lambda>_ (w, d). (Inr (), ''copied'', d),
     eh_define = \<lambda>_ (w, d). (Inr (), ''retargeted'', d), eh_delete_old = \<lambda>_ (w, d). (Inr (), ''old-deleted'', d),
     eh_check_clone = \<lambda>_ (w, d). (Inr w, w, d), eh_copy_clone = \<lambda>_ _ (w, d). (Inr (), w, d), eh_define_clone = \<lambda>_ (w, d). (Inr (), ''defined'', d),
     eh_grows = True, eh_moves = True, eh_clones = True\<rparr>"

definition small_session :: "string \<Rightarrow> (string, edit_call) session" where
  "small_session w = \<lparr>se_world = w, se_db = empty_db, se_log = []\<rparr>"

definition small_step :: step where
  "small_step = \<lparr>step_id = ''move-disk'', step_action = ''vm.disk.move-v1'', step_preconditions = [], step_idempotency = [],
     step_compensation = [], step_reconciliation = [], step_completion = []\<rparr>"

definition small_run :: "string \<Rightarrow> (go_error + unit) \<times> (string, edit_call) session" where
  "small_run w = execute_move small_env small_host ''j'' small_plan [] small_step (small_session w)"

lemma small_hosts: "grow_host op small_host" "move_host op small_host" "clone_host op small_host"
  by (auto simp: grow_host_def move_host_def clone_host_def small_host_def call_keeps_def call_plain_def faults_plain_def)

section \<open>Properties\<close>

text \<open>
  C16. A growth, a move and a clone are never replayed. Over the life of one operation, with runs and
  reconciliations in any order and number, on hosts of any behaviour that leave its receipt in the
  journal, with any recipes and anything else in between, the volume is grown at most once; a disk is
  copied, named and its original deleted at most once each and in this order; the copies of a clone are
  made once each in order and its machine is defined at most once, after them; and each of these calls
  was made with the operation's receipt in the journal.
\<close>

theorem edits_run_once:
  "(life (has_receipt grow_kind op) se_log (grow_act env op) s \<longrightarrow>
      announced grow_kind op (se_log s) \<and> (effects (se_log s) = [] \<or> effects (se_log s) = [Grow_volume])) \<and>
   (life (has_receipt move_kind op) se_log (move_act env op) s \<longrightarrow>
      announced move_kind op (se_log s) \<and> subseq (effects (se_log s)) [Copy_volume 0, Define_machine, Delete_old]) \<and>
   (life (has_receipt clone_kind op) se_log (clone_act env op) s \<longrightarrow>
      announced clone_kind op (se_log s) \<and> (\<exists>n. prefix (effects (se_log s)) (map Copy_volume [0..<n] @ [Define_machine])))"
  using grows.life_ok [of op env s] moves.life_ok [of op env s] clones.life_ok [of op env s]
  unfolding move_order_def clone_order_def by (intro conjI impI) simp_all

lemma small_run_calls: "map fst (se_log (snd (small_run ''before''))) = [Seen ''before'', Copy_volume 0, Define_machine, Delete_old]"
  by code_simp

lemma small_life: "life (has_receipt move_kind ''j'') se_log (move_act small_env ''j'') (snd (small_run ''before''))"
proof -
  have "life (has_receipt move_kind ''j'') se_log (move_act small_env ''j'') (small_session ''before'')"
    by (rule begun) (simp_all add: has_receipt_def small_session_def metadata_bytes_def empty_db_def)
  moreover have "\<exists>x. execute_move small_env small_host ''j'' small_plan [] small_step (small_session ''before'') = (x, snd (small_run ''before''))"
    by (simp add: small_run_def prod_eq_iff)
  then have "move_act small_env ''j'' (small_session ''before'') (snd (small_run ''before''))"
    using small_hosts(2) unfolding move_act_def by blast
  ultimately show ?thesis by (rule acted)
qed

theorem edits_run_once_witness:
  "announced move_kind ''j'' (se_log (snd (small_run ''before''))) \<and>
   subseq [Copy_volume 0, Define_machine, Delete_old] [Copy_volume 0, Define_machine, Delete_old]"
  using edits_run_once [where op = "''j''" and env = small_env and s = "snd (small_run ''before'')"] small_life small_run_calls
  by (simp add: effects_map)

text \<open>
  C29. What a run of the three workflows does and what its result may claim. A run is refused without
  effect, or it found no receipt, left one, and made its calls behind it: a growth follows a look that
  found the volume as reviewed, and succeeds only when the new size is seen; a move that finds the
  machine as reviewed copies, names the copy and only then deletes, and never deletes when the review
  keeps the original; a clone copies only from the reviewed state and defines the machine only after
  all its copies. An error that reports the step as not done, which lets the engine release the locks,
  is given only when the volume was seen unchanged, and never after the machine's definition was touched.
\<close>

theorem edit_outcomes:
  assumes "grow_host op h \<and> move_host op h \<and> clone_host op h"
  shows "(case execute_grow env h op p raw st s of (x, t) \<Rightarrow> edit_runs grow_kind op [Seen ''before''] grow_calls s x t) \<and>
    (case execute_move env h op p raw st s of (x, t) \<Rightarrow> x \<noteq> Inr () \<and> t = s \<or>
      (\<exists>m. parse_move env p raw = Inr m \<and> edit_runs move_kind op [] (move_calls (mo_keep m)) s x t)) \<and>
    (case execute_clone env h op p raw st s of (x, t) \<Rightarrow> x \<noteq> Inr () \<and> t = s \<or>
      (\<exists>c. parse_clone env p raw = Inr c \<and> edit_runs clone_kind op [] (clone_calls (length (cl_disks c))) s x t))"
  using assms grow_run [of op h env p raw st s] move_run [of op h env p raw st s] clone_run [of op h env p raw st s]
  by (auto split: prod.split)

theorem edit_outcomes_witness:
  "case small_run ''before'' of (x, t) \<Rightarrow> x \<noteq> Inr () \<and> t = small_session ''before'' \<or>
    (\<exists>m. parse_move small_env small_plan [] = Inr m \<and> edit_runs move_kind ''j'' [] (move_calls (mo_keep m)) (small_session ''before'') x t)"
  unfolding small_run_def
  by (rule conjunct1 [OF conjunct2 [OF edit_outcomes [OF conjI [OF small_hosts(1) conjI [OF small_hosts(2,3)]]]]])

text \<open>The bound on the size of a copy is one on numbers: its sum does not wrap for an accepted move.\<close>

theorem moved_bytes_bounded:
  assumes "valid_move m"
  shows "unat (sd_capacity (mo_disk m)) < unat (mo_bytes m) \<and>
    unat (mo_bytes m) \<le> unat (sd_capacity (mo_disk m)) + unat (sd_capacity (mo_disk m)) div 4 + 2 ^ 24"
proof -
  let ?c = "sd_capacity (mo_disk m)"
  have b: "?c < mo_bytes m" "mo_bytes m \<le> wide_bound ?c" using assms by (simp_all add: valid_move_def Let_def)
  have "unat (wide_bound ?c) \<le> unat ?c + unat ?c div 4 + 2 ^ 24"
    unfolding wide_bound_def by (simp add: unat_word_ariths unat_div push_bit_eq_mult)
  then show ?thesis using b by (simp add: word_le_nat_alt word_less_nat_alt)
qed

end
