(* ===== verification/Machine_Plans_Claims.thy ===== *)
theory Machine_Plans_Claims
  imports Machine_Plans Machine_Edits_Claims Engine
begin

text \<open>
  What planning promises the run: the drafted plan is one its handler accepts with the very recipe that
  was inspected, and a deletion is always announced.
\<close>

section \<open>Drafts\<close>

definition drafted :: "string \<Rightarrow> int \<Rightarrow> 32 word \<Rightarrow> request \<Rightarrow> 'r draft \<Rightarrow> string \<Rightarrow> plan" where
  "drafted i now uid q dr dig = draft_plan i now uid (rq_connection q) (df_operation dr) (df_resources dr) (df_before dr) dig
     (df_steps dr) (df_acks dr) (df_risks dr)"

lemma drafted_plan [simp]: "plan_operation (drafted i now uid q dr dig) = df_operation dr"
  "plan_connection (drafted i now uid q dr dig) = rq_connection q" "plan_resources (drafted i now uid q dr dig) = sort (df_resources dr)"
  "plan_before (drafted i now uid q dr dig) = df_before dr" "plan_acks (drafted i now uid q dr dig) = df_acks dr"
  by (simp_all add: drafted_def draft_plan_def)

lemma request_key_connection [simp]: "connection_id (request_key q) = rq_connection q"
  by (simp add: request_key_def)

lemma planned_removal:
  assumes "plan_definition_removal h q s = (Inr dr, t)"
  shows "valid_removal (df_recipe dr) \<and> rd_resource (df_recipe dr) = request_key q \<and>
    df_operation dr = ''vm.remove-definition-v1'' \<and> df_resources dr = [key_string (request_key q)] \<and>
    df_before dr = [(key_string (request_key q), rd_print (df_recipe dr))]"
  using assms unfolding plan_definition_removal_def unavailable_def
  by (auto simp: Let_def elim!: thenr_cases split: if_split_asm)

lemma planned_disks:
  assumes "plan_disk_removal pe env c h ins q s = (Inr dr, t)"
  shows "valid_disk_removal (df_recipe dr) \<and> rd_resource (dr_definition (df_recipe dr)) = request_key q \<and>
    df_operation dr = disk_removal_operation \<and> df_resources dr = dr_resources (df_recipe dr) \<and>
    df_before dr = [(key_string (request_key q), rd_print (dr_definition (df_recipe dr)))] \<and> ''data-loss-delete-disks'' \<in> set (df_acks dr)"
  using assms unfolding plan_disk_removal_def unavailable_def
  by (auto simp: Let_def elim!: thenr_cases split: if_split_asm option.split_asm)

lemma planned_grow:
  assumes "plan_grow pe h ins q s = (Inr dr, t)"
  shows "valid_grow (df_recipe dr) \<and> dg_vm (df_recipe dr) = request_key q \<and> df_operation dr = ''vm.disk.grow-v1'' \<and>
    df_resources dr = dg_resources (df_recipe dr) \<and> df_before dr = [(key_string (request_key q), dg_print (df_recipe dr))] \<and>
    (''pool-overcommit'' \<in> set (df_acks dr) \<longleftrightarrow> dg_capacity (df_recipe dr) - sd_capacity (dg_disk (df_recipe dr)) > dg_available (df_recipe dr))"
  using assms unfolding plan_grow_def no_provider_def
  by (auto simp: Let_def elim!: thenr_cases split: if_split_asm option.split_asm)

lemma planned_move:
  assumes "plan_move pe h ins q s = (Inr dr, t)"
  shows "valid_move (df_recipe dr) \<and> mo_vm (df_recipe dr) = request_key q \<and> df_operation dr = ''vm.disk.move-v1'' \<and>
    df_resources dr = mo_resources (df_recipe dr) \<and> df_before dr = [(key_string (request_key q), mo_print (df_recipe dr))] \<and>
    (''data-loss-delete-old-copy'' \<in> set (df_acks dr) \<longleftrightarrow> \<not> mo_keep (df_recipe dr)) \<and>
    (''pool-overcommit'' \<in> set (df_acks dr) \<longleftrightarrow> mo_bytes (df_recipe dr) > mo_available (df_recipe dr))"
  using assms unfolding plan_move_def no_provider_def
  by (auto simp: Let_def elim!: thenr_cases split: if_split_asm option.split_asm)

lemma planned_clone:
  assumes "plan_clone pe h ins uuid q s = (Inr dr, t)"
  shows "valid_clone (df_recipe dr) \<and> cl_source (df_recipe dr) = request_key q \<and> df_operation dr = ''vm.clone-v1'' \<and>
    df_resources dr = cl_resources (df_recipe dr) \<and> df_before dr = [(key_string (request_key q), cl_print (df_recipe dr))] \<and>
    (''pool-overcommit'' \<in> set (df_acks dr) \<longleftrightarrow> overcommitted (df_recipe dr))"
  using assms unfolding plan_clone_def no_provider_def
  by (auto simp: Let_def elim!: thenr_cases split: if_split_asm option.split_asm)

section \<open>Plans are accepted and announce losses\<close>

text \<open>
  C11. What is planned is what is run. When planning succeeds and the engine drafts a plan of it, the
  handler accepts the plan for as long as its stored input decodes to the recipe that was inspected, and
  then works on exactly this recipe: one that passes its validity, names the requested machine, binds its
  fingerprint, and reserves its resources in the order the handler compares them in. A plan that deletes
  disks, or the original of a moved disk, carries the acknowledgement of the data loss, and only a move
  that deletes carries it; a plan that may exceed a pool carries that acknowledgement.
\<close>

theorem plans_parse:
  "(plan_definition_removal rh q rs = (Inr d1, rt) \<longrightarrow> re_recipe renv raw = Some \<lparr>rr_version = 1, rr_definition = df_recipe d1\<rparr> \<longrightarrow>
      parse_removal renv (drafted i now uid q d1 dig) raw = Inr \<lparr>rr_version = 1, rr_definition = df_recipe d1\<rparr>) \<and>
   (plan_disk_removal pe renv c rh ins q rs = (Inr d2, rt) \<longrightarrow> re_disk_recipe renv raw = Some \<lparr>kr_version = 1, kr_removal = df_recipe d2\<rparr> \<longrightarrow>
      parse_disk_removal renv (drafted i now uid q d2 dig) raw = Inr (df_recipe d2) \<and>
      ''data-loss-delete-disks'' \<in> set (plan_acks (drafted i now uid q d2 dig))) \<and>
   (plan_grow pe h ins q s = (Inr d3, t) \<longrightarrow> ee_grow env raw = Some (1, df_recipe d3) \<longrightarrow>
      parse_grow env (drafted i now uid q d3 dig) raw = Inr (df_recipe d3) \<and>
      (''pool-overcommit'' \<in> set (plan_acks (drafted i now uid q d3 dig)) \<longleftrightarrow>
        unat (dg_capacity (df_recipe d3)) - unat (sd_capacity (dg_disk (df_recipe d3))) > unat (dg_available (df_recipe d3)))) \<and>
   (plan_move pe h ins q s = (Inr d4, t) \<longrightarrow> ee_move env raw = Some (1, df_recipe d4) \<longrightarrow>
      parse_move env (drafted i now uid q d4 dig) raw = Inr (df_recipe d4) \<and>
      (''data-loss-delete-old-copy'' \<in> set (plan_acks (drafted i now uid q d4 dig)) \<longleftrightarrow> \<not> mo_keep (df_recipe d4)) \<and>
      (''pool-overcommit'' \<in> set (plan_acks (drafted i now uid q d4 dig)) \<longleftrightarrow> unat (mo_bytes (df_recipe d4)) > unat (mo_available (df_recipe d4)))) \<and>
   (plan_clone pe h ins uuid q s = (Inr d5, t) \<longrightarrow> ee_clone env raw = Some (1, df_recipe d5) \<longrightarrow>
      parse_clone env (drafted i now uid q d5 dig) raw = Inr (df_recipe d5) \<and>
      (''pool-overcommit'' \<in> set (plan_acks (drafted i now uid q d5 dig)) \<longleftrightarrow> (\<exists>p \<in> set (cl_pools (df_recipe d5)). unat (ps_available p) < unat (ps_need p))))"
proof (intro conjI impI)
  assume "plan_definition_removal rh q rs = (Inr d1, rt)" "re_recipe renv raw = Some \<lparr>rr_version = 1, rr_definition = df_recipe d1\<rparr>"
  then show "parse_removal renv (drafted i now uid q d1 dig) raw = Inr \<lparr>rr_version = 1, rr_definition = df_recipe d1\<rparr>"
    using planned_removal [of rh q rs d1 rt] by (simp add: parse_removal_def Let_def)
next
  assume d: "plan_disk_removal pe renv c rh ins q rs = (Inr d2, rt)" and raw: "re_disk_recipe renv raw = Some \<lparr>kr_version = 1, kr_removal = df_recipe d2\<rparr>"
  note p = planned_disks [OF d]
  then have "sort (dr_resources (df_recipe d2)) = dr_resources (df_recipe d2)" by (simp add: sorted_sort_id valid_disk_removal_def)
  then show "parse_disk_removal renv (drafted i now uid q d2 dig) raw = Inr (df_recipe d2)"
    using p raw by (simp add: parse_disk_removal_def Let_def)
  show "''data-loss-delete-disks'' \<in> set (plan_acks (drafted i now uid q d2 dig))" using p by simp
next
  assume d: "plan_grow pe h ins q s = (Inr d3, t)" and raw: "ee_grow env raw = Some (1, df_recipe d3)"
  note p = planned_grow [OF d]
  then have "sort (dg_resources (df_recipe d3)) = dg_resources (df_recipe d3)" by (simp add: sorted_sort_id valid_grow_def Let_def)
  then show "parse_grow env (drafted i now uid q d3 dig) raw = Inr (df_recipe d3)"
    using p raw by (simp add: parse_grow_def)
  have "sd_capacity (dg_disk (df_recipe d3)) \<le> dg_capacity (df_recipe d3)" using p by (auto simp: valid_grow_def Let_def)
  then have "unat (dg_capacity (df_recipe d3) - sd_capacity (dg_disk (df_recipe d3))) =
      unat (dg_capacity (df_recipe d3)) - unat (sd_capacity (dg_disk (df_recipe d3)))" by (rule unat_sub)
  then show "''pool-overcommit'' \<in> set (plan_acks (drafted i now uid q d3 dig)) \<longleftrightarrow>
      unat (dg_capacity (df_recipe d3)) - unat (sd_capacity (dg_disk (df_recipe d3))) > unat (dg_available (df_recipe d3))"
    using p by (simp add: word_less_nat_alt)
next
  assume d: "plan_move pe h ins q s = (Inr d4, t)" and raw: "ee_move env raw = Some (1, df_recipe d4)"
  note p = planned_move [OF d]
  then have "sort (mo_resources (df_recipe d4)) = mo_resources (df_recipe d4)" by (simp add: sorted_sort_id valid_move_def Let_def)
  then show "parse_move env (drafted i now uid q d4 dig) raw = Inr (df_recipe d4)" using p raw by (simp add: parse_move_def)
  show "''data-loss-delete-old-copy'' \<in> set (plan_acks (drafted i now uid q d4 dig)) \<longleftrightarrow> \<not> mo_keep (df_recipe d4)" using p by simp
  show "''pool-overcommit'' \<in> set (plan_acks (drafted i now uid q d4 dig)) \<longleftrightarrow> unat (mo_bytes (df_recipe d4)) > unat (mo_available (df_recipe d4))"
    using p by (simp add: word_less_nat_alt)
next
  assume d: "plan_clone pe h ins uuid q s = (Inr d5, t)" and raw: "ee_clone env raw = Some (1, df_recipe d5)"
  note p = planned_clone [OF d]
  then have "sort (cl_resources (df_recipe d5)) = cl_resources (df_recipe d5)" by (simp add: sorted_sort_id valid_clone_def)
  then show "parse_clone env (drafted i now uid q d5 dig) raw = Inr (df_recipe d5)" using p raw by (simp add: parse_clone_def)
  show "''pool-overcommit'' \<in> set (plan_acks (drafted i now uid q d5 dig)) \<longleftrightarrow> (\<exists>p \<in> set (cl_pools (df_recipe d5)). unat (ps_available p) < unat (ps_need p))"
    using p by (simp add: overcommitted_def list_ex_iff word_less_nat_alt)
qed

text \<open>A move of the small host's disk, planned.\<close>

definition small_inputs :: plan_env where
  "small_inputs = \<lparr>pe_delete_disks = \<lambda>_. None, pe_grow_input = \<lambda>_. None, pe_move_input = \<lambda>_. Some (''vda'', ''b'', False), pe_clone_input = \<lambda>_. None\<rparr>"

definition small_inspector :: "string inspector" where
  "small_inspector = \<lparr>in_disks = \<lambda>_ _ _ (w, d). (Inl (Plain ''not used''), w, d), in_grow = \<lambda>_ _ _ _ (w, d). (Inl (Plain ''not used''), w, d),
     in_move = \<lambda>_ _ _ _ _ (w, d). (Inr small_move, w, d), in_clone = \<lambda>_ _ _ _ _ (w, d). (Inl (Plain ''not used''), w, d)\<rparr>"

definition small_request :: request where
  "small_request = \<lparr>rq_connection = ''qemu:///system'', rq_id = key_uuid small_key, rq_action = [], rq_path = [], rq_after = 0,
     rq_input = [], rq_apply = False\<rparr>"


lemma small_planned: "\<exists>dr. plan_move small_inputs small_host small_inspector small_request (small_session ''before'') = (Inr dr, small_session ''before'') \<and>
    df_recipe dr = small_move"
proof -
  have "valid_move small_move" by code_simp
  moreover have "removal_identity (request_key small_request)" by code_simp
  moreover have "request_key small_request = small_key" "no_extras small_request" by code_simp+
  ultimately show ?thesis
    by (simp add: plan_move_def small_inputs_def small_inspector_def small_host_def small_move_def small_disk_def ask_def thenr_def retr_def
        Let_def small_session_def)
qed

theorem plans_parse_witness:
  "\<exists>dr. plan_move small_inputs small_host small_inspector small_request (small_session ''before'') = (Inr dr, small_session ''before'') \<and>
     parse_move small_env (drafted ''p'' 0 7 small_request dr ''x'') [] = Inr small_move \<and>
     ''data-loss-delete-old-copy'' \<in> set (plan_acks (drafted ''p'' 0 7 small_request dr ''x''))"
proof -
  obtain dr where dr: "plan_move small_inputs small_host small_inspector small_request (small_session ''before'') = (Inr dr, small_session ''before'')"
      "df_recipe dr = small_move" using small_planned by blast
  have "ee_move small_env [] = Some (1, df_recipe dr)" "\<not> mo_keep small_move" by (simp_all add: small_env_def dr small_move_def)
  then show ?thesis
    using dr plans_parse [where pe = small_inputs and h = small_host and ins = small_inspector and q = small_request and
        s = "small_session ''before''" and t = "small_session ''before''" and ?d4.0 = dr and env = small_env and raw = "[]" and i = "''p''" and now = 0 and uid = 7 and dig = "''x''"]
    by auto
qed

end
