(* ===== verification/Move_Provider.thy ===== *)
theory Move_Provider
  imports Machine_Edits
begin

text \<open>
  The libvirt provider of disk moves (\<^verbatim>\<open>internal/backend/libvirt/disk_move_linux.go\<close>): what the host
  shows of a move, the copy through two streams with its read-back, the new definition, and the
  deletion of the original. \<open>'w\<close> is the host. The calls of libvirt, the XML decoder and the two
  editors of \<^verbatim>\<open>xmlpatch\<close> are fields of \<open>native\<close>; a volume handle is the pair of its pool and name.
  While one call of the provider runs, the host changes by the writes of that call alone.
\<close>

section \<open>The native interface\<close>

type_synonym handle = "string \<times> string"

datatype volume_lookup = Lookup_found handle | Lookup_missing go_error | Lookup_failed go_error

text \<open>What \<^verbatim>\<open>observe\<close> reports of a machine, as far as a move looks at it.\<close>

record vm_seen =
  vs_state :: string
  vs_xml :: string
  vs_live :: string
  vs_saved :: bool
  vs_print :: string

record domain_seen =
  sn_persistent :: "go_error + bool"
  sn_saved_xml :: "go_error + string"
  sn_active :: "go_error + bool"
  sn_live_xml :: "go_error + string"

text \<open>
  The answers of a stream, in order; after the last it reports its end (\<^verbatim>\<open>io.EOF\<close>). A stream that
  never ends is not represented.
\<close>

datatype recv = Chunk bytes | Idle | Broken go_error
datatype send = Sent nat | Refused go_error

record 'w native =
  nt_ctx :: "nat \<Rightarrow> 'w \<Rightarrow> go_error option"
  nt_connect :: "string \<Rightarrow> 'w \<Rightarrow> go_error option"
  nt_observe :: "resource_key \<Rightarrow> 'w \<Rightarrow> go_error + vm_seen"
  nt_snapshots :: "resource_key \<Rightarrow> 'w \<Rightarrow> go_error + nat"
  nt_checkpoints :: "resource_key \<Rightarrow> 'w \<Rightarrow> go_error + nat"
  nt_secure :: "resource_key \<Rightarrow> 'w \<Rightarrow> go_error + string"
  nt_pool :: "string \<Rightarrow> 'w \<Rightarrow> go_error option"
  nt_volume :: "string \<Rightarrow> string \<Rightarrow> 'w \<Rightarrow> volume_lookup"
  nt_disk :: "handle \<Rightarrow> string \<Rightarrow> 'w \<Rightarrow> go_error + removal_disk"
  nt_backing :: "handle \<Rightarrow> 'w \<Rightarrow> go_error + string"
  nt_create :: "string \<Rightarrow> string \<Rightarrow> 'w \<Rightarrow> (go_error + handle) \<times> 'w"
  nt_stream :: "nat \<Rightarrow> 'w \<Rightarrow> go_error option"
  nt_download :: "handle \<Rightarrow> 64 word \<Rightarrow> 'w \<Rightarrow> go_error + recv list"
  nt_upload :: "handle \<Rightarrow> 'w \<Rightarrow> go_error + send list"
  nt_finish :: "nat \<Rightarrow> 'w \<Rightarrow> go_error option"
  nt_written :: "handle \<Rightarrow> bytes \<Rightarrow> bool \<Rightarrow> 'w \<Rightarrow> 'w"
  nt_define :: "string \<Rightarrow> 'w \<Rightarrow> (go_error + resource_key) \<times> 'w"
  nt_delete :: "handle \<Rightarrow> 'w \<Rightarrow> (go_error + unit) \<times> 'w"
  nt_domains :: "'w \<Rightarrow> go_error + domain_seen list"
  nt_decoder :: "string \<Rightarrow> xml_token list \<times> string option"
  nt_escape :: "string \<Rightarrow> string"
  nt_retarget :: "string \<Rightarrow> string \<Rightarrow> string \<Rightarrow> string \<Rightarrow> go_error + string"
  nt_hardware :: "string \<Rightarrow> go_error + string"
  nt_sha :: "bytes \<Rightarrow> string"

abbreviation need :: "bool \<Rightarrow> string \<Rightarrow> string \<Rightarrow> go_error + unit" where
  "need b code msg \<equiv> checkr b (Domain_error (fail code msg))"

definition orfail :: "go_error option \<Rightarrow> go_error + unit" where
  "orfail e = (case e of None \<Rightarrow> Inr () | Some x \<Rightarrow> Inl x)"

section \<open>Valid moves\<close>

definition word_char :: "char \<Rightarrow> bool" where
  "word_char c \<longleftrightarrow> is_lower c \<or> is_upper c \<or> is_digit c \<or> c = CHR ''_''"

text \<open>\<^verbatim>\<open>coldDiskTarget\<close>, its two alternatives.\<close>

definition bus_target :: "string \<Rightarrow> bool" where
  "bus_target s \<longleftrightarrow> (let t = trim_prefix ''ioemu:'' s in
     list_ex (\<lambda>p. has_prefix p t \<and> drop (length p) t \<noteq> [] \<and> list_all word_char (drop (length p) t))
       [''fd'', ''hd'', ''sd'', ''vd'', ''xvd'', ''ubd''])"

definition some_digits :: "string \<Rightarrow> string option" where
  "some_digits s = (if takeWhile is_digit s = [] then None else Some (dropWhile is_digit s))"

definition nvme_target :: "string \<Rightarrow> bool" where
  "nvme_target s \<longleftrightarrow> (case Option.bind (cut_prefix ''nvme'' s) some_digits of
      Some t \<Rightarrow> (case Option.bind (cut_prefix ''n'' t) some_digits of
          Some u \<Rightarrow> u = [] \<or> Option.bind (cut_prefix ''p'' u) some_digits = Some []
        | None \<Rightarrow> False)
    | None \<Rightarrow> False)"

definition cold_target :: "string \<Rightarrow> bool" where
  "cold_target s \<longleftrightarrow> bus_target s \<or> nvme_target s"

definition cold_scalar :: "nat \<Rightarrow> string \<Rightarrow> bool" where
  "cold_scalar limit s \<longleftrightarrow> length s \<le> limit \<and> trimmed s \<and> runes_ok printable s"

definition cold_path :: "string \<Rightarrow> bool" where
  "cold_path s \<longleftrightarrow> cold_scalar 4096 s \<and> s \<noteq> ''/'' \<and> path_absolute s \<and> path_clean s = s"

definition removal_name :: "string \<Rightarrow> bool" where
  "removal_name s \<longleftrightarrow> s \<noteq> [] \<and> s \<noteq> ''.'' \<and> s \<noteq> ''..'' \<and> length s \<le> 255 \<and> path_base s = s \<and> cold_scalar 255 s"

definition owned_volume :: "string \<Rightarrow> bool" where
  "owned_volume s \<longleftrightarrow> (case cut_prefix ''virmill-'' s of
      None \<Rightarrow> False
    | Some t \<Rightarrow> list_all (\<lambda>c. lower_hex c \<or> c = CHR ''-'') (take 36 t) \<and>
        (case cut_prefix ''-disk-'' (drop 36 t) of
          None \<Rightarrow> False
        | Some u \<Rightarrow> length u = 9 \<and> list_all is_digit (take 3 u) \<and> drop 3 u = ''.qcow2''))"

definition check_key :: "resource_key \<Rightarrow> go_error + unit" where
  "check_key k = bindr (need (connection_id k = ''qemu:///system'' \<or> connection_id k = ''qemu:///session'') ''UNSUPPORTED_CAPABILITY''
       ''built-in provider accepts only explicit local qemu:///system or qemu:///session'') (\<lambda>_.
     need (provider_id k = ''libvirt'' \<and> key_kind k = ''vm'' \<and> uuid_pattern (key_uuid k) \<and> key_uuid k \<noteq> zero_uuid) ''INVALID_INPUT''
       ''definition removal requires an exact local libvirt VM UUID'')"

definition complete_move :: "disk_move \<Rightarrow> bool" where
  "complete_move m \<longleftrightarrow> (let d = mo_disk m in
     removal_digest (mo_print m) \<and> removal_digest (mo_sha256 m) \<and> cold_target (sd_target d) \<and> cold_path (sd_path d) \<and>
     uuid_pattern (sd_pool d) \<and> removal_name (sd_name d) \<and> sd_name d = path_base (sd_path d) \<and> sd_key d \<noteq> [] \<and>
     removal_digest (sd_print d) \<and> sd_format d = ''qcow2'' \<and> sd_capacity d \<noteq> 0 \<and> mo_source_pool m \<noteq> [] \<and> mo_pool_name m \<noteq> [] \<and>
     uuid_pattern (mo_pool m) \<and> mo_pool m \<noteq> sd_pool d \<and> owned_volume (mo_volume m) \<and> cold_path (mo_path m) \<and>
     path_base (mo_path m) = mo_volume m \<and> mo_path m \<noteq> sd_path d \<and> mo_bytes m = wide_bound (sd_capacity d) \<and>
     sd_capacity d \<le> push_bit 30 512)"

definition valid_disk_move :: "disk_move \<Rightarrow> go_error + unit" where
  "valid_disk_move m = bindr (check_key (mo_vm m)) (\<lambda>_.
     bindr (need (complete_move m) ''INVALID_INPUT'' ''complete exact disk move observation required'') (\<lambda>_.
     need (length (mo_resources m) = 4 \<and> sorted (mo_resources m) \<and> key_string (mo_vm m) \<in> set (mo_resources m)) ''INVALID_INPUT''
       ''canonical resource lock set required''))"

section \<open>What the host shows\<close>

definition attribute :: "string \<Rightarrow> (xml_name \<times> string) list \<Rightarrow> string" where
  "attribute name as = foldl (\<lambda>v (n, x). if snd n = name then x else v) [] as"

text \<open>\<^verbatim>\<open>definitionUsesVolume\<close>: \<open>depth\<close> counts the open disk elements.\<close>

fun uses_from :: "string \<Rightarrow> string \<Rightarrow> string \<Rightarrow> int \<Rightarrow> xml_token list \<Rightarrow> bool" where
  "uses_from path pool volume depth [] = False"
| "uses_from path pool volume depth (Start_element n as # ts) =
     (let depth' = (if snd n = ''disk'' then depth + 1 else depth) in
      depth' > 0 \<and> snd n = ''source'' \<and> (attribute ''file'' as = path \<or>
        attribute ''pool'' as \<noteq> [] \<and> attribute ''pool'' as = pool \<and> attribute ''volume'' as = volume) \<or>
      uses_from path pool volume depth' ts)"
| "uses_from path pool volume depth (End_element n # ts) =
     uses_from path pool volume (if snd n = ''disk'' then depth - 1 else depth) ts"
| "uses_from path pool volume depth (_ # ts) = uses_from path pool volume depth ts"

definition uses_volume :: "'w native \<Rightarrow> string \<Rightarrow> string \<Rightarrow> string \<Rightarrow> string \<Rightarrow> go_error + bool" where
  "uses_volume nt raw path pool volume = (let (ts, failure) = nt_decoder nt raw in
     if uses_from path pool volume 0 ts then Inr True
     else if failure \<noteq> None then failr ''INVALID_INPUT'' ''unreadable VM definition'' else Inr False)"

abbreviation names_copy :: "'w native \<Rightarrow> disk_move \<Rightarrow> string \<Rightarrow> go_error + bool" where
  "names_copy nt m x \<equiv> uses_volume nt x (mo_path m) (mo_pool_name m) (mo_volume m)"

abbreviation names_source :: "'w native \<Rightarrow> disk_move \<Rightarrow> string \<Rightarrow> go_error + bool" where
  "names_source nt m x \<equiv> uses_volume nt x (sd_path (mo_disk m)) (mo_source_pool m) (sd_name (mo_disk m))"

definition growable :: "'w native \<Rightarrow> resource_key \<Rightarrow> 'w \<Rightarrow> go_error + vm_seen" where
  "growable nt k w = bindr (nt_observe nt k w) (\<lambda>vm.
     bindr (need (vs_state vm = ''stopped'' \<and> vs_xml vm \<noteq> [] \<and> vs_live vm = [] \<and> \<not> vs_saved vm) ''RESOURCE_BUSY''
       ''shut down the VM before growing its disk; saved state must be resumed and shut down first'') (\<lambda>_.
     bindr (nt_snapshots nt k w) (\<lambda>a. bindr (nt_checkpoints nt k w) (\<lambda>b.
     bindr (need (a = 0 \<and> b = 0) ''UNSUPPORTED_CAPABILITY'' ''this VM has snapshots or checkpoints; growing a disk under them is not supported'') (\<lambda>_.
     Inr vm)))))"

definition observe_grow_disk :: "'w native \<Rightarrow> handle \<Rightarrow> string \<Rightarrow> 'w \<Rightarrow> go_error + removal_disk" where
  "observe_grow_disk nt v target w = bindr (nt_disk nt v target w) (\<lambda>d. bindr (nt_backing nt v w) (\<lambda>backing.
     bindr (need (backing = []) ''UNSUPPORTED_CAPABILITY'' ''this disk has a backing file; growing layered disks is not supported'') (\<lambda>_. Inr d)))"

definition move_state :: "bool \<Rightarrow> bool \<Rightarrow> bool \<Rightarrow> go_error + string" where
  "move_state copy_named source_there copy_there =
     (if \<not> copy_named \<and> source_there \<and> \<not> copy_there then Inr ''before''
      else if \<not> copy_named \<and> source_there \<and> copy_there then Inr ''copied''
      else if copy_named \<and> copy_there \<and> source_there then Inr ''retargeted''
      else if copy_named \<and> copy_there \<and> \<not> source_there then Inr ''old-deleted''
      else if copy_named \<and> \<not> copy_there then failr ''RECOVERY_REQUIRED'' ''the definition names the copy but the copy is missing''
      else failr ''SOURCE_CHANGED'' ''neither the original disk nor its copy is where the review left it'')"

definition volume_present :: "'w native \<Rightarrow> string \<Rightarrow> string \<Rightarrow> 'w \<Rightarrow> go_error + bool" where
  "volume_present nt pool name w = bindr (orfail (nt_pool nt pool w)) (\<lambda>_.
     case nt_volume nt pool name w of Lookup_found _ \<Rightarrow> Inr True | Lookup_missing _ \<Rightarrow> Inr False | Lookup_failed e \<Rightarrow> Inl e)"

definition check_disk_move :: "'w native \<Rightarrow> disk_move \<Rightarrow> 'w \<Rightarrow> go_error + string" where
  "check_disk_move nt m w = bindr (growable nt (mo_vm m) w) (\<lambda>vm.
     bindr (if vs_print vm \<noteq> mo_print m
            then bindr (names_copy nt m (vs_xml vm)) (\<lambda>b. need b ''STALE_PLAN'' ''the VM changed since the review; review again'')
            else Inr ()) (\<lambda>_.
     bindr (names_copy nt m (vs_xml vm)) (\<lambda>copy_named.
     bindr (names_source nt m (vs_xml vm)) (\<lambda>source_named.
     bindr (need (copy_named \<noteq> source_named) ''SOURCE_CHANGED''
       ''this VM's definition does not name exactly one of the disk and its copy'') (\<lambda>_.
     bindr (volume_present nt (sd_pool (mo_disk m)) (sd_name (mo_disk m)) w) (\<lambda>source_there.
     bindr (volume_present nt (mo_pool m) (mo_volume m) w) (\<lambda>copy_there.
     bindr (if copy_named then Inr ()
            else bindr (nt_hardware nt (vs_xml vm)) (\<lambda>hash.
              need (hash = mo_sha256 m) ''STALE_PLAN'' ''the definition changed since the review; review again'')) (\<lambda>_.
     move_state copy_named source_there copy_there))))))))"

text \<open>Every call begins with the checks of the move, the context and a connection.\<close>

definition opened :: "'w native \<Rightarrow> disk_move \<Rightarrow> 'w \<Rightarrow> go_error + unit" where
  "opened nt m w = bindr (valid_disk_move m) (\<lambda>_. bindr (orfail (nt_ctx nt 0 w)) (\<lambda>_. orfail (nt_connect nt (connection_id (mo_vm m)) w)))"

definition check_move :: "'w native \<Rightarrow> disk_move \<Rightarrow> 'w \<Rightarrow> go_error + string" where
  "check_move nt m w = bindr (opened nt m w) (\<lambda>_. check_disk_move nt m w)"

section \<open>Streams\<close>

definition stream_failure :: "string \<Rightarrow> go_error \<Rightarrow> go_error" where
  "stream_failure what e = Domain_error (case errors_as_domain e of
      Some d \<Rightarrow> d
    | None \<Rightarrow> (fail ''OPERATION_FAILED'' (''copying the disk failed: '' @ what))\<lparr>err_details := Some (JObj [(''native'', JStr (error_text e))])\<rparr>)"

definition streaming :: "string \<Rightarrow> go_error + 'a \<Rightarrow> go_error + 'a" where
  "streaming what r = (case r of Inl e \<Rightarrow> Inl (stream_failure what e) | Inr a \<Rightarrow> Inr a)"

text \<open>The loop of \<^verbatim>\<open>hashVolumeBytes\<close>; \<open>k\<close> counts the polls, \<open>got\<close> are the bytes hashed so far.\<close>

fun read_back :: "(nat \<Rightarrow> go_error option) \<Rightarrow> nat \<Rightarrow> 64 word \<Rightarrow> recv list \<Rightarrow> 64 word \<Rightarrow> bytes \<Rightarrow> go_error + 64 word \<times> bytes" where
  "read_back polls k limit [] seen got = (case polls k of Some e \<Rightarrow> Inl e | None \<Rightarrow> Inr (seen, got))"
| "read_back polls k limit (r # rs) seen got = (case polls k of Some e \<Rightarrow> Inl e | None \<Rightarrow> (case r of
      Broken e \<Rightarrow> Inl (stream_failure ''reading the copy back stopped early'' e)
    | Idle \<Rightarrow> read_back polls (Suc k) limit rs seen got
    | Chunk b \<Rightarrow>
        if b = [] then read_back polls (Suc k) limit rs seen got
        else let seen' = seen + of_nat (length b) in
          if seen' > limit then failr ''SOURCE_CHANGED'' ''the copy returned more bytes than were written to it''
          else read_back polls (Suc k) limit rs seen' (got @ b)))"

definition hash_volume :: "'w native \<Rightarrow> handle \<Rightarrow> 64 word \<Rightarrow> 'w \<Rightarrow> go_error + 64 word \<times> string" where
  "hash_volume nt v len w =
     bindr (streaming ''a stream to read the copy could not be opened'' (orfail (nt_stream nt 2 w))) (\<lambda>_.
     bindr (streaming ''the copy could not be read back'' (nt_download nt v len w)) (\<lambda>rs.
     bindr (read_back (\<lambda>k. nt_ctx nt k w) 0 len rs 0 []) (\<lambda>(seen, got).
     bindr (streaming ''the read-back stream did not finish'' (orfail (nt_finish nt 2 w))) (\<lambda>_.
     Inr (seen, nt_sha nt got)))))"

text \<open>The inner loop: \<open>n\<close> bytes are still to be sent.\<close>

fun send_all :: "send list \<Rightarrow> nat \<Rightarrow> go_error + send list" where
  "send_all [] n = (if n = 0 then Inr [] else failr ''OPERATION_FAILED'' ''the destination closed the copy before it was written'')"
| "send_all (x # ss) n = (if n = 0 then Inr (x # ss) else case x of
      Refused e \<Rightarrow> Inl (stream_failure ''writing the copy stopped early'' e)
    | Sent i \<Rightarrow> send_all ss (n - i))"

text \<open>The loop of \<^verbatim>\<open>copyVolumeBytes\<close>; the bytes hashed come back with the result, whatever it is.\<close>

fun copy_loop :: "(nat \<Rightarrow> go_error option) \<Rightarrow> nat \<Rightarrow> 64 word \<Rightarrow> recv list \<Rightarrow> send list \<Rightarrow> 64 word \<Rightarrow> bytes \<Rightarrow> (go_error + 64 word) \<times> bytes" where
  "copy_loop polls k bound [] ss copied got = ((case polls k of Some e \<Rightarrow> Inl e | None \<Rightarrow> Inr copied), got)"
| "copy_loop polls k bound (r # rs) ss copied got = (case polls k of Some e \<Rightarrow> (Inl e, got) | None \<Rightarrow> (case r of
      Broken e \<Rightarrow> (Inl (stream_failure ''reading the disk stopped early'' e), got)
    | Idle \<Rightarrow> copy_loop polls (Suc k) bound rs ss copied got
    | Chunk b \<Rightarrow>
        if b = [] then copy_loop polls (Suc k) bound rs ss copied got
        else let copied' = copied + of_nat (length b) in
          if copied' > bound then (failr ''SOURCE_CHANGED'' ''the disk is larger than the reviewed copy allows'', got)
          else (case send_all ss (length b) of
              Inl e \<Rightarrow> (Inl e, got @ b)
            | Inr ss' \<Rightarrow> copy_loop polls (Suc k) bound rs ss' copied' (got @ b))))"

definition open_streams :: "'w native \<Rightarrow> handle \<Rightarrow> handle \<Rightarrow> 'w \<Rightarrow> go_error + recv list \<times> send list" where
  "open_streams nt from to w =
     bindr (streaming ''a stream to read the disk could not be opened'' (orfail (nt_stream nt 0 w))) (\<lambda>_.
     bindr (streaming ''a stream to write the copy could not be opened'' (orfail (nt_stream nt 1 w))) (\<lambda>_.
     bindr (streaming ''the disk could not be opened for reading'' (nt_download nt from 0 w)) (\<lambda>rs.
     bindr (streaming ''the copy could not be opened for writing'' (nt_upload nt to w)) (\<lambda>ss. Inr (rs, ss)))))"

definition finish_copy :: "'w native \<Rightarrow> 'w \<Rightarrow> 64 word \<Rightarrow> go_error + 64 word" where
  "finish_copy nt w copied =
     bindr (need (copied \<noteq> 0) ''SOURCE_CHANGED'' ''the disk read as empty; nothing was copied'') (\<lambda>_.
     bindr (streaming ''the reading stream did not finish'' (orfail (nt_finish nt 0 w))) (\<lambda>_.
     bindr (streaming ''the writing stream did not finish'' (orfail (nt_finish nt 1 w))) (\<lambda>_. Inr copied)))"

definition copy_volume :: "'w native \<Rightarrow> handle \<Rightarrow> handle \<Rightarrow> 64 word \<Rightarrow> ('w, 64 word \<times> string) act" where
  "copy_volume nt from to bound w = (case open_streams nt from to w of
      Inl e \<Rightarrow> (Inl e, w)
    | Inr (rs, ss) \<Rightarrow> (case copy_loop (\<lambda>k. nt_ctx nt k w) 0 bound rs ss 0 [] of (res, got) \<Rightarrow>
        (case bindr res (finish_copy nt w) of
           Inl e \<Rightarrow> (Inl e, nt_written nt to got False w)
         | Inr copied \<Rightarrow> (Inr (copied, nt_sha nt got), nt_written nt to got True w))))"

section \<open>The copy\<close>

definition look :: "('w \<Rightarrow> go_error + 'a) \<Rightarrow> ('w, 'a) act" where
  "look f w = (f w, w)"

definition absent_volume :: "'w native \<Rightarrow> string \<Rightarrow> string \<Rightarrow> 'w \<Rightarrow> go_error + unit" where
  "absent_volume nt pool name w = (case nt_volume nt pool name w of
      Lookup_found _ \<Rightarrow> failr ''STALE_PLAN'' ''target volume already exists; never overwrite it''
    | Lookup_missing _ \<Rightarrow> Inr () | Lookup_failed e \<Rightarrow> Inl e)"

definition held_volume :: "'w native \<Rightarrow> string \<Rightarrow> string \<Rightarrow> 'w \<Rightarrow> go_error + handle" where
  "held_volume nt pool name w = (case nt_volume nt pool name w of Lookup_found v \<Rightarrow> Inr v | Lookup_missing e \<Rightarrow> Inl e | Lookup_failed e \<Rightarrow> Inl e)"

definition volume_xml :: "'w native \<Rightarrow> disk_move \<Rightarrow> string" where
  "volume_xml nt m = ''<volume><name>'' @ nt_escape nt (mo_volume m) @ ''</name><capacity unit=\"bytes\">'' @ show_nat (unat (mo_bytes m)) @
     ''</capacity><allocation unit=\"bytes\">0</allocation><target><format type=\"raw\"/></target></volume>''"

definition source_to_copy :: "'w native \<Rightarrow> disk_move \<Rightarrow> 'w \<Rightarrow> go_error + handle" where
  "source_to_copy nt m w = bindr (opened nt m w) (\<lambda>_. bindr (check_disk_move nt m w) (\<lambda>state.
     bindr (need (state = ''before'') ''RECOVERY_REQUIRED'' ''the copy already exists or the disk moved; it was not copied again'') (\<lambda>_.
     bindr (orfail (nt_pool nt (mo_pool m) w)) (\<lambda>_.
     bindr (absent_volume nt (mo_pool m) (mo_volume m) w) (\<lambda>_.
     bindr (orfail (nt_pool nt (sd_pool (mo_disk m)) w)) (\<lambda>_.
     bindr (held_volume nt (sd_pool (mo_disk m)) (sd_name (mo_disk m)) w) (\<lambda>v.
     bindr (observe_grow_disk nt v (sd_target (mo_disk m)) w) (\<lambda>current.
     bindr (need (current = mo_disk m) ''SOURCE_CHANGED'' ''the held disk differs immediately before the copy'') (\<lambda>_. Inr v)))))))))"

definition copy_disk_volume :: "'w native \<Rightarrow> disk_move \<Rightarrow> ('w, unit) act" where
  "copy_disk_volume nt m = thenr (look (source_to_copy nt m)) (\<lambda>held.
     thenr (nt_create nt (mo_pool m) (volume_xml nt m)) (\<lambda>created.
     thenr (copy_volume nt held created (mo_bytes m)) (\<lambda>(written, hash).
     thenr (look (hash_volume nt created written)) (\<lambda>(seen, stored).
     unlessr (seen = written \<and> stored = hash) ''RECOVERY_REQUIRED''
       ''the stored copy differs from the disk it was made from; inspect the operation without replaying it''))))"

section \<open>The definition\<close>

definition secure_read :: "'w native \<Rightarrow> resource_key \<Rightarrow> string \<Rightarrow> string \<Rightarrow> 'w \<Rightarrow> go_error + string" where
  "secure_read nt k code msg w = (case nt_secure nt k w of Inl _ \<Rightarrow> failr code msg | Inr x \<Rightarrow> Inr x)"

definition retargeted :: "'w native \<Rightarrow> disk_move \<Rightarrow> 'w \<Rightarrow> go_error + string \<times> string" where
  "retargeted nt m w = bindr (opened nt m w) (\<lambda>_. bindr (check_disk_move nt m w) (\<lambda>state.
     bindr (need (state = ''copied'') ''RECOVERY_REQUIRED'' ''the verified copy is not the only thing waiting; the definition was not changed'') (\<lambda>_.
     bindr (growable nt (mo_vm m) w) (\<lambda>vm.
     bindr (secure_read nt (mo_vm m) ''PERMISSION_DENIED'' ''a secure read of the definition is required before moving a disk'' w) (\<lambda>secure.
     bindr (need (vs_xml vm = secure) ''UNSUPPORTED_CAPABILITY''
       ''persistent XML omits sensitive settings; a dedicated secret-preserving adapter is required before editing'') (\<lambda>_.
     bindr (nt_retarget nt (vs_xml vm) (sd_target (mo_disk m)) (mo_pool_name m) (mo_volume m)) (\<lambda>result.
     bindr (nt_hardware nt result) (\<lambda>expected. Inr (result, expected)))))))))"

definition differing_definition :: "string \<Rightarrow> string \<Rightarrow> go_error" where
  "differing_definition expected stored = Domain_error ((fail ''RECOVERY_REQUIRED''
     ''the stored definition differs from the reviewed result beyond libvirt's own formatting; inspect the operation without replaying it'')
     \<lparr>err_details := Some (JObj [(''expected'', JStr expected), (''stored'', JStr stored)])\<rparr>)"

text \<open>The stored definition is read back through the handle the define returned.\<close>

definition defined_as_reviewed :: "'w native \<Rightarrow> disk_move \<Rightarrow> resource_key \<Rightarrow> string \<Rightarrow> 'w \<Rightarrow> go_error + unit" where
  "defined_as_reviewed nt m k expected w = bindr (nt_observe nt k w) (\<lambda>vm.
     bindr (secure_read nt k ''RECOVERY_REQUIRED'' ''secure readback unavailable after moving the disk; do not replay'' w) (\<lambda>secure.
     bindr (need (vs_state vm = ''stopped'') ''RECOVERY_REQUIRED''
       ''the VM is no longer stopped after moving the disk; inspect the operation without replaying it'') (\<lambda>_.
     bindr (need (\<not> vs_saved vm) ''RECOVERY_REQUIRED''
       ''the VM acquired saved state while moving the disk; inspect the operation without replaying it'') (\<lambda>_.
     bindr (nt_hardware nt (vs_xml vm)) (\<lambda>stored.
     bindr (checkr (stored = expected) (differing_definition expected stored)) (\<lambda>_.
     bindr (need (secure = vs_xml vm) ''UNSUPPORTED_CAPABILITY''
       ''the stored definition omits sensitive settings, so the moved disk cannot be confirmed; inspect the operation without replaying it'') (\<lambda>_.
     bindr (names_copy nt m (vs_xml vm)) (\<lambda>copy_named.
     bindr (names_source nt m (vs_xml vm)) (\<lambda>source_named.
     need (copy_named \<and> \<not> source_named) ''RECOVERY_REQUIRED''
       (''the stored definition does not name the copy alone at '' @ sd_target (mo_disk m)))))))))))"

definition define_moved_disk :: "'w native \<Rightarrow> disk_move \<Rightarrow> ('w, unit) act" where
  "define_moved_disk nt m = thenr (look (retargeted nt m)) (\<lambda>(result, expected).
     tryr (nt_define nt result) (\<lambda>r. case r of
        Inl _ \<Rightarrow> refuse ''RECOVERY_REQUIRED''
          ''native definition of the moved disk failed; XML values withheld; inspect and reconcile without replay''
      | Inr k \<Rightarrow> look (defined_as_reviewed nt m k expected)))"

section \<open>The original\<close>

definition domain_definitions :: "domain_seen \<Rightarrow> go_error + string list" where
  "domain_definitions d = bindr (sn_persistent d) (\<lambda>p.
     bindr (if p then bindr (sn_saved_xml d) (\<lambda>x. Inr [x]) else Inr []) (\<lambda>saved.
     bindr (sn_active d) (\<lambda>a.
     bindr (if a then bindr (sn_live_xml d) (\<lambda>x. Inr [x]) else Inr []) (\<lambda>live. Inr (saved @ live)))))"

fun unused_in :: "'w native \<Rightarrow> disk_move \<Rightarrow> string list \<Rightarrow> go_error + unit" where
  "unused_in nt m [] = Inr ()"
| "unused_in nt m (x # xs) = bindr (names_source nt m x) (\<lambda>used.
     bindr (need (\<not> used) ''RESOURCE_BUSY'' ''a VM definition still uses the original disk; it was kept'') (\<lambda>_. unused_in nt m xs))"

fun unreferenced_from :: "'w native \<Rightarrow> disk_move \<Rightarrow> 'w \<Rightarrow> nat \<Rightarrow> domain_seen list \<Rightarrow> go_error + unit" where
  "unreferenced_from nt m w k [] = Inr ()"
| "unreferenced_from nt m w k (d # ds) = bindr (orfail (nt_ctx nt k w)) (\<lambda>_.
     bindr (domain_definitions d) (\<lambda>xs. bindr (unused_in nt m xs) (\<lambda>_. unreferenced_from nt m w (Suc k) ds)))"

definition original_unreferenced :: "'w native \<Rightarrow> disk_move \<Rightarrow> 'w \<Rightarrow> go_error + unit" where
  "original_unreferenced nt m w = bindr (nt_domains nt w) (unreferenced_from nt m w 2)"

definition original_to_delete :: "'w native \<Rightarrow> disk_move \<Rightarrow> 'w \<Rightarrow> go_error + handle" where
  "original_to_delete nt m w = bindr (valid_disk_move m) (\<lambda>_.
     bindr (need (\<not> mo_keep m) ''INVALID_INPUT'' ''this move keeps the original disk'') (\<lambda>_.
     bindr (opened nt m w) (\<lambda>_. bindr (check_disk_move nt m w) (\<lambda>state.
     bindr (need (state \<noteq> ''old-deleted'') ''RECOVERY_REQUIRED'' ''the original is already gone; it was not deleted again'') (\<lambda>_.
     bindr (need (state = ''retargeted'') ''RECOVERY_REQUIRED'' ''the definition does not name the copy yet; the original was kept'') (\<lambda>_.
     bindr (orfail (nt_pool nt (sd_pool (mo_disk m)) w)) (\<lambda>_.
     bindr (held_volume nt (sd_pool (mo_disk m)) (sd_name (mo_disk m)) w) (\<lambda>v.
     bindr (nt_disk nt v (sd_target (mo_disk m)) w) (\<lambda>current.
     bindr (need (current = mo_disk m) ''SOURCE_CHANGED'' ''the held original differs immediately before deletion'') (\<lambda>_.
     bindr (original_unreferenced nt m w) (\<lambda>_.
     bindr (orfail (nt_ctx nt 1 w)) (\<lambda>_. Inr v))))))))))))"

definition delete_old_volume :: "'w native \<Rightarrow> disk_move \<Rightarrow> ('w, unit) act" where
  "delete_old_volume nt m = thenr (look (original_to_delete nt m)) (nt_delete nt)"

section \<open>The provider of a host\<close>

definition on_host :: "('w, 'a) act \<Rightarrow> ('w, 'a) host_call" where
  "on_host m = (\<lambda>(w, d). case m w of (x, w') \<Rightarrow> (x, w', d))"

definition libvirt_moves :: "'w native \<Rightarrow> 'w edit_host \<Rightarrow> 'w edit_host" where
  "libvirt_moves nt h = h\<lparr>eh_check_move := \<lambda>m. on_host (look (check_move nt m)), eh_copy := \<lambda>m. on_host (copy_disk_volume nt m),
     eh_define := \<lambda>m. on_host (define_moved_disk nt m), eh_delete_old := \<lambda>m. on_host (delete_old_volume nt m), eh_moves := True\<rparr>"

end
