(* ===== verification/Move_Provider_Laws.thy ===== *)
theory Move_Provider_Laws
  imports Move_Provider Machine_Edits_Laws
begin

text \<open>
  What a move does on the modelled provider: which host each reported state stands for, that a copy
  that succeeds was read back against the bytes it was made from, and what a whole run did to the host.
\<close>

section \<open>Streams\<close>

fun streamed :: "recv list \<Rightarrow> bytes" where
  "streamed [] = []"
| "streamed (Chunk b # rs) = b @ streamed rs"
| "streamed (_ # rs) = streamed rs"

lemma read_back_all:
  "read_back polls k limit rs n got = Inr (n', got') \<Longrightarrow> got' = got @ streamed rs \<and> n' = n + of_nat (length (streamed rs))"
proof (induction polls k limit rs n got rule: read_back.induct)
  case (2 polls k limit r rs n got)
  then show ?case by (cases r) (auto simp: Let_def add.assoc split: option.split_asm if_split_asm)
qed (auto split: option.split_asm)

lemma copy_loop_all:
  "copy_loop polls k bound rs ss n got = (Inr n', got') \<Longrightarrow> got' = got @ streamed rs \<and> n' = n + of_nat (length (streamed rs))"
proof (induction polls k bound rs ss n got rule: copy_loop.induct)
  case (2 polls k bound r rs ss n got)
  then show ?case by (cases r) (auto simp: Let_def add.assoc split: option.split_asm if_split_asm sum.split_asm)
qed (auto split: option.split_asm)

section \<open>Provider calls\<close>

lemma look_eq [simp]: "look f w = (r, w') \<longleftrightarrow> f w = r \<and> w' = w"
  by (auto simp: look_def)

lemma orfail_Inr [simp]: "orfail e = Inr u \<longleftrightarrow> e = None"
  by (auto simp: orfail_def split: option.split)

lemma streaming_Inr [simp]: "streaming what r = Inr a \<longleftrightarrow> r = Inr a"
  by (auto simp: streaming_def split: sum.split)

text \<open>
  The copy a run makes: no volume had the reviewed name, the source is the reviewed disk, and the bytes
  read from it were read back from the new volume, as far as their digest tells.
\<close>

definition copied_faithfully :: "'w native \<Rightarrow> disk_move \<Rightarrow> 'w \<Rightarrow> 'w \<Rightarrow> bool" where
  "copied_faithfully nt m w w' \<longleftrightarrow> (\<exists>e src dst w1 rs stored.
     nt_volume nt (mo_pool m) (mo_volume m) w = Lookup_missing e \<and>
     nt_volume nt (sd_pool (mo_disk m)) (sd_name (mo_disk m)) w = Lookup_found src \<and>
     nt_disk nt src (sd_target (mo_disk m)) w = Inr (mo_disk m) \<and>
     nt_create nt (mo_pool m) (volume_xml nt m) w = (Inr dst, w1) \<and>
     nt_download nt src 0 w1 = Inr rs \<and> streamed rs \<noteq> [] \<and> w' = nt_written nt dst (streamed rs) True w1 \<and>
     nt_download nt dst (of_nat (length (streamed rs))) w' = Inr stored \<and>
     length (streamed stored) mod 2 ^ 64 = length (streamed rs) mod 2 ^ 64 \<and> nt_sha nt (streamed stored) = nt_sha nt (streamed rs))"

lemma source_to_copy_Inr:
  "source_to_copy nt m w = Inr v \<Longrightarrow> check_disk_move nt m w = Inr ''before'' \<and>
     (\<exists>e. nt_volume nt (mo_pool m) (mo_volume m) w = Lookup_missing e) \<and>
     nt_volume nt (sd_pool (mo_disk m)) (sd_name (mo_disk m)) w = Lookup_found v \<and>
     nt_disk nt v (sd_target (mo_disk m)) w = Inr (mo_disk m)"
  by (auto simp: source_to_copy_def absent_volume_def held_volume_def observe_grow_disk_def split: volume_lookup.split_asm)

lemma copy_volume_Inr:
  assumes "copy_volume nt src dst bound w = (Inr (n, hash), w')"
  shows "\<exists>rs. nt_download nt src 0 w = Inr rs \<and> streamed rs \<noteq> [] \<and> n = of_nat (length (streamed rs)) \<and>
    hash = nt_sha nt (streamed rs) \<and> w' = nt_written nt dst (streamed rs) True w"
proof -
  obtain rs ss where o: "open_streams nt src dst w = Inr (rs, ss)"
    using assms by (auto simp: copy_volume_def split: sum.split_asm)
  obtain res got where l: "copy_loop (\<lambda>k. nt_ctx nt k w) 0 bound rs ss 0 [] = (res, got)" by (metis prod.exhaust)
  obtain c where c: "res = Inr c" "c = n" "c \<noteq> 0" "hash = nt_sha nt got" "w' = nt_written nt dst got True w"
    using assms o l by (auto simp: copy_volume_def finish_copy_def split: sum.split_asm)
  have "nt_download nt src 0 w = Inr rs" using o by (auto simp: open_streams_def)
  then show ?thesis using c copy_loop_all [OF l [unfolded c(1)]] by auto
qed

lemma copy_is_faithful:
  assumes "copy_disk_volume nt m w = (Inr (), w')"
  shows "copied_faithfully nt m w w'"
proof -
  obtain src dst w1 n hash stored where src: "source_to_copy nt m w = Inr src"
    and dst: "nt_create nt (mo_pool m) (volume_xml nt m) w = (Inr dst, w1)"
    and cv: "copy_volume nt src dst (mo_bytes m) w1 = (Inr (n, hash), w')"
    and hv: "hash_volume nt dst n w' = Inr (n, hash)"
    using assms by (auto simp: copy_disk_volume_def thenr_Inr split: if_split_asm)
  obtain rs where rs: "nt_download nt src 0 w1 = Inr rs" "streamed rs \<noteq> []" "n = of_nat (length (streamed rs))"
    "hash = nt_sha nt (streamed rs)" "w' = nt_written nt dst (streamed rs) True w1"
    using copy_volume_Inr [OF cv] by blast
  obtain st got where st: "nt_download nt dst n w' = Inr st" "read_back (\<lambda>k. nt_ctx nt k w') 0 n st 0 [] = Inr (n, got)"
    "nt_sha nt got = hash" using hv by (auto simp: hash_volume_def)
  have again: "got = streamed st" "n = of_nat (length (streamed st))" using read_back_all [OF st(2)] by simp_all
  have "(of_nat (length (streamed st)) :: 64 word) = of_nat (length (streamed rs))" using again(2) rs(3) by simp
  then have "length (streamed st) mod 2 ^ 64 = length (streamed rs) mod 2 ^ 64"
    by (simp add: word_of_nat_eq_iff take_bit_eq_mod)
  then show ?thesis unfolding copied_faithfully_def
    using source_to_copy_Inr [OF src] dst rs st again by metis
qed

text \<open>What the stored definition says after it was changed.\<close>

definition names_copy_alone :: "'w native \<Rightarrow> disk_move \<Rightarrow> 'w \<Rightarrow> bool" where
  "names_copy_alone nt m w \<longleftrightarrow> (\<exists>k vm. nt_observe nt k w = Inr vm \<and> vs_state vm = ''stopped'' \<and>
     names_copy nt m (vs_xml vm) = Inr True \<and> names_source nt m (vs_xml vm) = Inr False)"

lemma defined_names_copy: "define_moved_disk nt m w = (Inr (), w') \<Longrightarrow> names_copy_alone nt m w'"
proof -
  assume "define_moved_disk nt m w = (Inr (), w')"
  then obtain result expected k where "defined_as_reviewed nt m k expected w' = Inr ()"
    by (auto simp: define_moved_disk_def thenr_Inr elim!: tryr_cases split: sum.split_asm)
  then show ?thesis by (force simp: defined_as_reviewed_def names_copy_alone_def)
qed

text \<open>The states of a move.\<close>

lemma move_state_copied: "move_state a b c = Inr ''before'' \<longleftrightarrow> \<not> a \<and> b \<and> \<not> c"
  "move_state a b c = Inr ''copied'' \<longleftrightarrow> \<not> a \<and> b \<and> c" "move_state a b c = Inr ''retargeted'' \<longleftrightarrow> a \<and> b \<and> c"
  "move_state a b c = Inr ''old-deleted'' \<longleftrightarrow> a \<and> \<not> b \<and> c"
  "move_state a b c = Inr st \<Longrightarrow> st \<in> {''before'', ''copied'', ''retargeted'', ''old-deleted''}"
  by (auto simp: move_state_def split: if_split_asm)

lemma check_disk_move_Inr:
  assumes "check_disk_move nt m w = Inr st"
  obtains vm a b c where "growable nt (mo_vm m) w = Inr vm" and "names_copy nt m (vs_xml vm) = Inr a"
    and "names_source nt m (vs_xml vm) = Inr (\<not> a)" and "\<not> a \<Longrightarrow> vs_print vm = mo_print m \<and> nt_hardware nt (vs_xml vm) = Inr (mo_sha256 m)"
    and "volume_present nt (sd_pool (mo_disk m)) (sd_name (mo_disk m)) w = Inr b" and "volume_present nt (mo_pool m) (mo_volume m) w = Inr c"
    and "move_state a b c = Inr st"
proof -
  from assms obtain vm a b c where "growable nt (mo_vm m) w = Inr vm" "names_copy nt m (vs_xml vm) = Inr a"
    "names_source nt m (vs_xml vm) = Inr (\<not> a)" "vs_print vm \<noteq> mo_print m \<longrightarrow> a"
    "volume_present nt (sd_pool (mo_disk m)) (sd_name (mo_disk m)) w = Inr b" "volume_present nt (mo_pool m) (mo_volume m) w = Inr c"
    "\<not> a \<longrightarrow> nt_hardware nt (vs_xml vm) = Inr (mo_sha256 m)" "move_state a b c = Inr st"
    by (fastforce simp: check_disk_move_def split: if_split_asm)
  then show thesis using that by blast
qed

section \<open>A whole run\<close>

lemma libvirt_calls [simp]:
  "eh_check_move (libvirt_moves nt h) m = on_host (look (check_move nt m))" "eh_copy (libvirt_moves nt h) m = on_host (copy_disk_volume nt m)"
  "eh_define (libvirt_moves nt h) m = on_host (define_moved_disk nt m)" "eh_delete_old (libvirt_moves nt h) m = on_host (delete_old_volume nt m)"
  "eh_moves (libvirt_moves nt h)"
  by (simp_all add: libvirt_moves_def)

lemma effect_on_host:
  assumes "effect c (on_host m) s = (x, t)"
  shows "m (se_world s) = (x, se_world t) \<and> se_log t = se_log s @ [(c, se_db s)]"
  using assms by (auto simp: effect_def on_host_def split: prod.split_asm)

lemma seen_on_host:
  assumes "ask_logged Seen (on_host (look f)) s = (Inr a, t)"
  shows "f (se_world s) = Inr a \<and> se_world t = se_world s \<and> (\<exists>d. se_log t = se_log s @ [(Seen a, d)])"
  using assms by (auto simp: ask_logged_def on_host_def look_def split: sum.split_asm)

lemma save_move_only: "save_move env h op prev r s = (x, t) \<Longrightarrow> se_world t = se_world s \<and> se_log t = se_log s"
  unfolding save_move_def using receipts.only by blast

text \<open>
  \<open>stage\<close>: what a part of a run did when it succeeded: the host before and after, and its effects.
\<close>

definition stage :: "('w, edit_call) session \<Rightarrow> edit_call list \<Rightarrow> ('w, edit_call) session \<Rightarrow> bool" where
  "stage s cs t \<longleftrightarrow> (\<exists>es. se_log t = se_log s @ es \<and> effects es = cs)"

lemma stage_trans: "stage s cs t \<Longrightarrow> stage t ds u \<Longrightarrow> stage s (cs @ ds) u"
  by (auto simp: stage_def)

lemma stage_same: "se_log t = se_log s \<Longrightarrow> stage s [] t"
  by (simp add: stage_def)

lemma copy_stage:
  assumes "move_copy env (libvirt_moves nt h) op m (state, prev, r) s = (Inr (state', q), t)"
  shows "if state = ''before'' then state' = ''copied'' \<and> copied_faithfully nt m (se_world s) (se_world t) \<and> stage s [Copy_volume 0] t
    else state' = state \<and> se_world t = se_world s \<and> stage s [] t"
proof (cases "state = ''before''")
  case True
  obtain x s1 where e: "effect (Copy_volume 0) (on_host (copy_disk_volume nt m)) s = (x, s1)"
    and k: "(case x of Inl e \<Rightarrow> tryr (ask_logged Seen (on_host (look (check_move nt m)))) (\<lambda>y.
          liftr (Inl (if y = Inr ''before'' \<or> y = Inr ''copied'' then unreferenced_copy m e else e)))
      | Inr _ \<Rightarrow> (let r = r\<lparr>mr_state := ''copied''\<rparr> in
          thenr (save_move env (libvirt_moves nt h) op prev r) (\<lambda>prev. retr (''copied'', prev, r)))) s1 = (Inr (state', q), t)"
    using assms True by (auto simp: move_copy_def elim!: tryr_cases)
  obtain p where x: "x = Inr ()" and sv: "save_move env (libvirt_moves nt h) op prev (r\<lparr>mr_state := ''copied''\<rparr>) s1 = (Inr p, t)"
    and st: "state' = ''copied''"
    using k by (cases x) (auto simp: Let_def thenr_Inr elim!: tryr_cases)
  have w: "copy_disk_volume nt m (se_world s) = (Inr (), se_world s1)" "se_log s1 = se_log s @ [(Copy_volume 0, se_db s)]"
    using effect_on_host [OF e] x by simp_all
  have "stage s [Copy_volume 0] t" using w(2) save_move_only [OF sv] by (auto simp: stage_def)
  then show ?thesis using copy_is_faithful [OF w(1)] save_move_only [OF sv] st True by simp
next
  case False
  then show ?thesis using assms by (simp add: move_copy_def stage_same)
qed

lemma define_stage:
  assumes "move_define env (libvirt_moves nt h) op m (state, prev, r) s = (Inr (state', q), t)"
  shows "if state = ''copied'' then state' = ''retargeted'' \<and> define_moved_disk nt m (se_world s) = (Inr (), se_world t) \<and> stage s [Define_machine] t
    else state' = state \<and> se_world t = se_world s \<and> stage s [] t"
proof (cases "state = ''copied''")
  case True
  obtain s1 p where e: "effect Define_machine (on_host (define_moved_disk nt m)) s = (Inr (), s1)"
    and sv: "save_move env (libvirt_moves nt h) op prev (r\<lparr>mr_state := ''retargeted''\<rparr>) s1 = (Inr p, t)" and st: "state' = ''retargeted''"
    using assms True by (auto simp: move_define_def thenr_Inr Let_def)
  then show ?thesis using effect_on_host [OF e] save_move_only [OF sv] True by (auto simp: stage_def)
next
  case False
  then show ?thesis using assms by (simp add: move_define_def stage_same)
qed

lemma finish_stage:
  assumes "move_finish env (libvirt_moves nt h) op m (state, prev, r) s = (Inr (), t)"
  shows "if state = ''retargeted'' \<and> \<not> mo_keep m then se_world t = snd (delete_old_volume nt m (se_world s)) \<and> stage s [Delete_old] t
    else (state = ''retargeted'' \<or> state = ''old-deleted'') \<and> se_world t = se_world s \<and> stage s [] t"
proof (cases "state = ''retargeted'' \<and> \<not> mo_keep m")
  case True
  obtain x s1 p r' where e: "effect Delete_old (on_host (delete_old_volume nt m)) s = (x, s1)"
    and sv: "save_move env (libvirt_moves nt h) op prev r' s1 = (Inr p, t)"
    using assms True by (auto simp: move_finish_def thenr_Inr elim!: tryr_cases)
  then show ?thesis using effect_on_host [OF e] save_move_only [OF sv] True by (auto simp: stage_def)
next
  case False
  then show ?thesis using assms by (auto simp: move_finish_def thenr_Inr split: if_split_asm dest: save_move_only intro: stage_same)
qed

lemma execute_move_Inr:
  assumes "execute_move env h op p raw st s = (Inr (), t)"
  obtains m hash where "parse_move env p raw = Inr m" and "move_effects env h op p m hash s = (Inr (), t)"
  using assms by (auto simp: execute_move_def thenr_Inr no_provider_def split: if_split_asm intro: that [OF sym])

lemma found_unless_before:
  assumes "check_move nt m w = Inr state" and "state \<noteq> ''before''"
  shows "\<exists>v. nt_volume nt (mo_pool m) (mo_volume m) w = Lookup_found v"
proof -
  have "check_disk_move nt m w = Inr state" using assms(1) by (simp add: check_move_def)
  then show ?thesis
  proof (rule check_disk_move_Inr)
    fix a b c assume c: "volume_present nt (mo_pool m) (mo_volume m) w = Inr c" "move_state a b c = Inr state"
    have c using c(2) assms(2) by (cases a; cases b; cases c; simp add: move_state_def)
    then show ?thesis using c(1) by (auto simp: volume_present_def split: volume_lookup.split_asm)
  qed
qed

definition move_calls_of :: "string \<Rightarrow> bool \<Rightarrow> edit_call list" where
  "move_calls_of state keep = (if state = ''before'' then [Copy_volume 0] else []) @
     (if state = ''before'' \<or> state = ''copied'' then [Define_machine] else []) @
     (if keep \<or> state = ''old-deleted'' then [] else [Delete_old])"

lemma move_stages:
  assumes "move_effects env (libvirt_moves nt h) op p m hash s = (Inr (), t)"
  obtains state w w1 where "check_move nt m (se_world s) = Inr state" and "stage s (move_calls_of state (mo_keep m)) t"
    and "if state = ''before'' then copied_faithfully nt m (se_world s) w else w = se_world s"
    and "if state = ''before'' \<or> state = ''copied'' then define_moved_disk nt m w = (Inr (), w1) else w1 = w"
    and "se_world t = (if mo_keep m \<or> state = ''old-deleted'' then w1 else snd (delete_old_volume nt m w1))"
proof -
  from assms obtain prev s1 state s2 state2 q2 s3 state3 q3 s4 where
      sv: "save_move env (libvirt_moves nt h) op None (first_move op p hash) s = (Inr prev, s1)"
      and seen: "ask_logged Seen (on_host (look (check_move nt m))) s1 = (Inr state, s2)"
      and cp: "move_copy env (libvirt_moves nt h) op m (state, prev, first_move op p hash) s2 = (Inr (state2, q2), s3)"
      and df: "move_define env (libvirt_moves nt h) op m (state2, q2) s3 = (Inr (state3, q3), s4)"
      and fin: "move_finish env (libvirt_moves nt h) op m (state3, q3) s4 = (Inr (), t)"
    by (auto simp: move_effects_def Let_def thenr_Inr)
  obtain prev2 r2 prev3 r3 where q: "q2 = (prev2, r2)" "q3 = (prev3, r3)" by (metis prod.exhaust)
  note cp = copy_stage [OF cp] and df = define_stage [OF df [unfolded q]] and fin = finish_stage [OF fin [unfolded q]]
  have w: "se_world s2 = se_world s" "check_move nt m (se_world s) = Inr state" "stage s [] s2"
    using save_move_only [OF sv] seen_on_host [OF seen] by (auto simp: stage_def)
  show thesis
  proof (rule that [OF w(2), of "se_world s3" "se_world s4"])
    consider "state = ''before''" | "state = ''copied''" | "state \<noteq> ''before''" "state \<noteq> ''copied''" by blast
    then have all: "stage s (move_calls_of state (mo_keep m)) t \<and>
        (if state = ''before'' then copied_faithfully nt m (se_world s) (se_world s3) else se_world s3 = se_world s) \<and>
        (if state = ''before'' \<or> state = ''copied'' then define_moved_disk nt m (se_world s3) = (Inr (), se_world s4) else se_world s4 = se_world s3) \<and>
        se_world t = (if mo_keep m \<or> state = ''old-deleted'' then se_world s4 else snd (delete_old_volume nt m (se_world s4)))"
    proof cases
      case 1
      have c: "state2 = ''copied''" "copied_faithfully nt m (se_world s) (se_world s3)" "stage s2 [Copy_volume 0] s3" using cp 1 w(1) by simp_all
      have d: "state3 = ''retargeted''" "define_moved_disk nt m (se_world s3) = (Inr (), se_world s4)" "stage s3 [Define_machine] s4" using df c(1) by simp_all
      have "stage s [Copy_volume 0, Define_machine] s4" using stage_trans [OF w(3) stage_trans [OF c(3) d(3)]] by simp
      from stage_trans [OF this] show ?thesis using fin c(2) d(1,2) 1 by (cases "mo_keep m") (simp_all add: move_calls_of_def)
    next
      case 2
      have c: "state2 = ''copied''" "se_world s3 = se_world s" "stage s2 [] s3" using cp 2 w(1) by simp_all
      have d: "state3 = ''retargeted''" "define_moved_disk nt m (se_world s3) = (Inr (), se_world s4)" "stage s3 [Define_machine] s4" using df c(1) by simp_all
      have "stage s [Define_machine] s4" using stage_trans [OF w(3) stage_trans [OF c(3) d(3)]] by simp
      from stage_trans [OF this] show ?thesis using fin c(2) d(1,2) 2 by (cases "mo_keep m") (simp_all add: move_calls_of_def)
    next
      case 3
      have c: "state2 = state" "se_world s3 = se_world s" "stage s2 [] s3" using cp 3 w(1) by simp_all
      have d: "state3 = state" "se_world s4 = se_world s3" "stage s3 [] s4" using df c(1) 3 by simp_all
      have "stage s [] s4" using stage_trans [OF w(3) stage_trans [OF c(3) d(3)]] by simp
      from stage_trans [OF this] show ?thesis using fin c(2) d(1,2) 3 by (cases "mo_keep m"; cases "state = ''retargeted''") (simp_all add: move_calls_of_def)
    qed
    show "stage s (move_calls_of state (mo_keep m)) t" by (rule conjunct1 [OF all])
    show "if state = ''before'' then copied_faithfully nt m (se_world s) (se_world s3) else se_world s3 = se_world s"
      "if state = ''before'' \<or> state = ''copied'' then define_moved_disk nt m (se_world s3) = (Inr (), se_world s4) else se_world s4 = se_world s3"
      "se_world t = (if mo_keep m \<or> state = ''old-deleted'' then se_world s4 else snd (delete_old_volume nt m (se_world s4)))"
      using all by simp_all
  qed
qed

end
