(* ===== verification/Move_Provider_Claims.thy ===== *)
theory Move_Provider_Claims
  imports Move_Provider_Laws Machine_Edits_Claims
begin

text \<open>
  Where the bytes of a moved disk come from, and a small libvirt host on which they come from a volume
  the move never wrote.
\<close>

section \<open>The property\<close>

text \<open>
  C18. Where the disk of a machine comes from after a move that succeeded. If no volume had the reviewed
  name when the run first looked, the run made the copy: it read the reviewed original to its end, wrote
  what it read to a new volume and read it back with the same digest. If a volume of that name was
  there, the run wrote and read no volume at all before the definition was changed: it named that
  volume, whatever it held. Either way the stored definition then names the copy and no longer the
  original, and unless the review keeps the original its deletion was tried after that, once, and nothing
  else. The accepted review promises that the copy is read back before the machine is pointed at it;
  growing and cloning refuse to start from any state but the reviewed one.
\<close>

theorem moved_disk_provenance:
  assumes "execute_move env (libvirt_moves nt h) op p raw st s = (Inr (), t)"
  shows "\<exists>m state w w1. parse_move env p raw = Inr m \<and> check_move nt m (se_world s) = Inr state \<and>
    stage s (move_calls_of state (mo_keep m)) t \<and>
    (if state = ''before'' then copied_faithfully nt m (se_world s) w
     else w = se_world s \<and> (\<exists>v. nt_volume nt (mo_pool m) (mo_volume m) (se_world s) = Lookup_found v)) \<and>
    (if state = ''before'' \<or> state = ''copied'' then define_moved_disk nt m w = (Inr (), w1) \<and> names_copy_alone nt m w1 else w1 = w) \<and>
    se_world t = (if mo_keep m \<or> state = ''old-deleted'' then w1 else snd (delete_old_volume nt m w1))"
proof (rule execute_move_Inr [OF assms])
  fix m hash assume m: "parse_move env p raw = Inr m" and run: "move_effects env (libvirt_moves nt h) op p m hash s = (Inr (), t)"
  show ?thesis
  proof (rule move_stages [OF run])
    fix state w w1
    assume a: "check_move nt m (se_world s) = Inr state" "stage s (move_calls_of state (mo_keep m)) t"
      "if state = ''before'' then copied_faithfully nt m (se_world s) w else w = se_world s"
      "if state = ''before'' \<or> state = ''copied'' then define_moved_disk nt m w = (Inr (), w1) else w1 = w"
      "se_world t = (if mo_keep m \<or> state = ''old-deleted'' then w1 else snd (delete_old_volume nt m w1))"
    show ?thesis
      using m a found_unless_before [OF a(1)] defined_names_copy [of nt m w w1]
      by (intro exI [of _ m] exI [of _ state] exI [of _ w] exI [of _ w1]) (simp split: if_split_asm)
  qed
qed

section \<open>A small libvirt host\<close>

text \<open>Its one machine names the original or the copy; its volumes are lists of bytes.\<close>

record small_world =
  sw_xml :: string
  sw_volumes :: "(handle \<times> bytes) list"

definition disk_tokens :: "string \<Rightarrow> string \<Rightarrow> xml_token list" where
  "disk_tokens pool volume = [Start_element (local_name ''disk'') [],
     Start_element (local_name ''source'') [(local_name ''pool'', pool), (local_name ''volume'', volume)],
     End_element (local_name ''source''), End_element (local_name ''disk'')]"

definition small_native :: "small_world native" where
  "small_native = \<lparr>nt_ctx = \<lambda>_ _. None, nt_connect = \<lambda>_ _. None,
     nt_observe = \<lambda>_ w. Inr \<lparr>vs_state = ''stopped'', vs_xml = sw_xml w, vs_live = [], vs_saved = False,
       vs_print = (if sw_xml w = ''original'' then mo_print small_move else [])\<rparr>,
     nt_snapshots = \<lambda>_ _. Inr 0, nt_checkpoints = \<lambda>_ _. Inr 0, nt_secure = \<lambda>_ w. Inr (sw_xml w), nt_pool = \<lambda>_ _. None,
     nt_volume = \<lambda>pool name w. if map_of (sw_volumes w) (pool, name) = None then Lookup_missing (Plain ''no storage volume'') else Lookup_found (pool, name),
     nt_disk = \<lambda>_ _ _. Inr small_disk, nt_backing = \<lambda>_ _. Inr [],
     nt_create = \<lambda>pool _ w. (Inr (pool, small_volume), w\<lparr>sw_volumes := ((pool, small_volume), []) # sw_volumes w\<rparr>),
     nt_stream = \<lambda>_ _. None,
     nt_download = \<lambda>v _ w. (case map_of (sw_volumes w) v of None \<Rightarrow> Inl (Plain ''no storage volume'') | Some b \<Rightarrow> Inr [Chunk b]),
     nt_upload = \<lambda>_ _. Inr [Sent 3, Sent 5], nt_finish = \<lambda>_ _. None,
     nt_written = \<lambda>v b _ w. w\<lparr>sw_volumes := (v, b) # sw_volumes w\<rparr>,
     nt_define = \<lambda>x w. (Inr small_key, w\<lparr>sw_xml := x\<rparr>),
     nt_delete = \<lambda>v w. (Inr (), w\<lparr>sw_volumes := filter (\<lambda>(u, b). u \<noteq> v) (sw_volumes w)\<rparr>),
     nt_domains = \<lambda>w. Inr [\<lparr>sn_persistent = Inr True, sn_saved_xml = Inr (sw_xml w), sn_active = Inr False, sn_live_xml = Inr []\<rparr>],
     nt_decoder = \<lambda>x. (if x = ''original'' then disk_tokens ''a'' ''vda'' else disk_tokens ''b'' small_volume, None),
     nt_escape = \<lambda>x. x, nt_retarget = \<lambda>_ _ _ _. Inr ''retargeted'',
     nt_hardware = \<lambda>x. Inr (if x = ''original'' then mo_sha256 small_move else x), nt_sha = \<lambda>b. b\<rparr>"

definition original_volume :: "handle \<times> bytes" where
  "original_volume = ((sd_pool small_disk, ''vda''), ''data'')"

definition named_volume :: "bytes \<Rightarrow> handle \<times> bytes" where
  "named_volume b = ((mo_pool small_move, small_volume), b)"

definition bare_host :: "small_world edit_host" where
  "bare_host = \<lparr>eh_faults = \<lparr>ft_ctx = \<lambda>_. None, ft_put = \<lambda>_. None, ft_get = \<lambda>_. None\<rparr>, eh_check_grow = \<lambda>_ (w, d). (Inr [], w, d),
     eh_grow = \<lambda>_ (w, d). (Inr (), w, d), eh_check_move = \<lambda>_ (w, d). (Inr [], w, d), eh_copy = \<lambda>_ (w, d). (Inr (), w, d),
     eh_define = \<lambda>_ (w, d). (Inr (), w, d), eh_delete_old = \<lambda>_ (w, d). (Inr (), w, d), eh_check_clone = \<lambda>_ (w, d). (Inr [], w, d),
     eh_copy_clone = \<lambda>_ _ (w, d). (Inr (), w, d), eh_define_clone = \<lambda>_ (w, d). (Inr (), w, d),
     eh_grows = False, eh_moves = False, eh_clones = False\<rparr>"

definition host_with :: "string \<Rightarrow> (handle \<times> bytes) list \<Rightarrow> small_world" where
  "host_with x vs = \<lparr>sw_xml = x, sw_volumes = vs\<rparr>"

definition moved_from :: "(handle \<times> bytes) list \<Rightarrow> (go_error + unit) \<times> (small_world, edit_call) session" where
  "moved_from vs = execute_move small_env (libvirt_moves small_native bare_host) ''j'' small_plan [] small_step
     \<lparr>se_world = host_with ''original'' vs, se_db = empty_db, se_log = []\<rparr>"

lemma opened_small: "opened small_native small_move w = Inr ()"
proof -
  have "valid_disk_move small_move = Inr ()" by code_simp
  then show ?thesis by (simp add: opened_def small_native_def orfail_def)
qed

lemma parse_small: "parse_move small_env small_plan [] = Inr small_move" "mo_keep small_move = False"
  by code_simp+

lemma found_states:
  "check_disk_move small_native small_move (host_with ''original'' [original_volume]) = Inr ''before''"
  "check_disk_move small_native small_move (host_with ''original'' [original_volume, named_volume ''other'']) = Inr ''copied''"
  "check_disk_move small_native small_move (host_with ''retargeted'' [original_volume, named_volume ''other'']) = Inr ''retargeted''"
  by code_simp+

lemma retargeted_small:
  "retargeted small_native small_move (host_with ''original'' [original_volume, named_volume ''other'']) = Inr (''retargeted'', ''retargeted'')"
proof -
  let ?w = "host_with ''original'' [original_volume, named_volume ''other'']"
  have "growable small_native (mo_vm small_move) ?w = Inr \<lparr>vs_state = ''stopped'', vs_xml = ''original'', vs_live = [], vs_saved = False, vs_print = mo_print small_move\<rparr>"
    by code_simp
  then show ?thesis unfolding retargeted_def opened_small found_states
    by (simp add: small_native_def host_with_def secure_read_def)
qed

lemma defined_small:
  "define_moved_disk small_native small_move (host_with ''original'' [original_volume, named_volume ''other'']) =
     (Inr (), host_with ''retargeted'' [original_volume, named_volume ''other''])"
proof -
  have "nt_define small_native ''retargeted'' (host_with ''original'' vs) = (Inr small_key, host_with ''retargeted'' vs)" for vs
    by (simp add: small_native_def host_with_def)
  moreover have "defined_as_reviewed small_native small_move small_key ''retargeted'' (host_with ''retargeted'' [original_volume, named_volume ''other'']) = Inr ()"
    by code_simp
  ultimately show ?thesis by (simp add: define_moved_disk_def retargeted_small thenr_def tryr_def look_def)
qed

lemma deleted_small:
  "delete_old_volume small_native small_move (host_with ''retargeted'' [original_volume, named_volume ''other'']) =
     (Inr (), host_with ''retargeted'' [named_volume ''other''])"
proof -
  let ?w = "host_with ''retargeted'' [original_volume, named_volume ''other'']"
  have f: "held_volume small_native (sd_pool (mo_disk small_move)) (sd_name (mo_disk small_move)) ?w = Inr (fst original_volume)"
    "nt_disk small_native v x ?w = Inr (mo_disk small_move)" "original_unreferenced small_native small_move ?w = Inr ()"
    "nt_delete small_native (fst original_volume) ?w = (Inr (), host_with ''retargeted'' [named_volume ''other''])" for v x
    by (code_simp, simp add: small_native_def small_move_def, code_simp, code_simp)
  have n: "nt_pool small_native q ?w = None" "nt_ctx small_native k ?w = None" for q k by (simp_all add: small_native_def)
  have "valid_disk_move small_move = Inr ()" using opened_small unfolding opened_def bindr_Inr_iff by auto
  then have "original_to_delete small_native small_move ?w = Inr (fst original_volume)"
    by (simp add: original_to_delete_def opened_small found_states f n parse_small(2))
  then show ?thesis by (simp add: delete_old_volume_def thenr_def look_def f)
qed

text \<open>The receipts of a run without faults.\<close>

lemma save_small:
  assumes "metadata_bytes move_kind ''j'' (se_db s) = prev"
  shows "save_move small_env (libvirt_moves small_native bare_host) ''j'' prev r s =
    (Inr (Some (mr_state r)), s\<lparr>se_db := put move_kind ''j'' (mr_state r) (se_db s)\<rparr>)"
proof -
  have "compare_put move_kind ''j'' prev (mr_state r) (se_db s) = Inr (put move_kind ''j'' (mr_state r) (se_db s))"
    using assms by (simp add: compare_put_Inr)
  then show ?thesis
    by (simp add: save_move_def save_receipt_def write_receipt_def read_receipt_def thenr_def libvirt_moves_def bare_host_def small_env_def put_bytes)
qed

lemma small_hash: "digest (ee_env small_env) (ee_move_json small_env m) = Inr ''null''"
  by (simp add: digest_def small_env_def)

text \<open>A volume put there by someone else after the review: it becomes the machine's disk, and the original is gone.\<close>

lemma foreign_move:
  "\<exists>t. moved_from [original_volume, named_volume ''other''] = (Inr (), t) \<and> se_world t = host_with ''retargeted'' [named_volume ''other''] \<and>
     map fst (se_log t) = [Seen ''copied'', Define_machine, Delete_old]"
proof -
  have "metadata_bytes move_kind ''j'' empty_db = None" by (simp add: metadata_bytes_def empty_db_def)
  then show ?thesis unfolding moved_from_def execute_move_def
    by (simp add: thenr_def tryr_def liftr_def retr_def small_step_def parse_small small_hash move_effects_def Let_def save_small
        ask_logged_def effect_def on_host_def look_def check_move_def opened_small found_states move_copy_def move_define_def
        move_finish_def put_bytes defined_small deleted_small)
qed

text \<open>What the property says of that run: the accepted volume was found, and no volume was written or read.\<close>

theorem moved_disk_provenance_witness:
  "\<exists>v t. moved_from [original_volume, named_volume ''other''] = (Inr (), t) \<and>
    nt_volume small_native (mo_pool small_move) (mo_volume small_move) (host_with ''original'' [original_volume, named_volume ''other'']) = Lookup_found v \<and>
    stage \<lparr>se_world = host_with ''original'' [original_volume, named_volume ''other''], se_db = empty_db, se_log = []\<rparr> [Define_machine, Delete_old] t \<and>
    names_copy_alone small_native small_move (host_with ''retargeted'' [original_volume, named_volume ''other'']) \<and>
    se_world t = host_with ''retargeted'' [named_volume ''other'']"
proof -
  obtain t where t: "moved_from [original_volume, named_volume ''other''] = (Inr (), t)" using foreign_move by blast
  obtain m state w w1 where m: "parse_move small_env small_plan [] = Inr m"
    and c: "check_move small_native m (host_with ''original'' [original_volume, named_volume ''other'']) = Inr state"
    and s: "stage \<lparr>se_world = host_with ''original'' [original_volume, named_volume ''other''], se_db = empty_db, se_log = []\<rparr> (move_calls_of state (mo_keep m)) t"
    and w: "if state = ''before'' then copied_faithfully small_native m (host_with ''original'' [original_volume, named_volume ''other'']) w
      else w = host_with ''original'' [original_volume, named_volume ''other''] \<and>
        (\<exists>v. nt_volume small_native (mo_pool m) (mo_volume m) (host_with ''original'' [original_volume, named_volume ''other'']) = Lookup_found v)"
    and w1: "if state = ''before'' \<or> state = ''copied'' then define_moved_disk small_native m w = (Inr (), w1) \<and> names_copy_alone small_native m w1 else w1 = w"
    and u: "se_world t = (if mo_keep m \<or> state = ''old-deleted'' then w1 else snd (delete_old_volume small_native m w1))"
    using moved_disk_provenance [OF t [unfolded moved_from_def]] by (simp only: session.select_convs) blast
  have m': "m = small_move" using m parse_small(1) by simp
  have state: "state = ''copied''" using c by (simp add: m' check_move_def opened_small found_states)
  have d: "w1 = host_with ''retargeted'' [original_volume, named_volume ''other'']" using w w1 by (simp add: m' state defined_small)
  have "names_copy_alone small_native small_move (host_with ''retargeted'' [original_volume, named_volume ''other''])"
    using w1 by (simp add: m' state d)
  then show ?thesis using t s w u d by (simp add: m' state parse_small(2) move_calls_of_def deleted_small)
qed

end
