(* ===== verification/Spec2Isabelle.thy ===== *)
theory Spec2Isabelle
  imports Engine_Properties Engine_Claims Allocation Update_Laws Intent_Laws Network_Profile_Laws Occupancy_Laws Network_Creation_Laws
    Lab Volumes Guest_Liveness Policy_Laws Recovery_Laws Helper_Claims Disk_Removal_Claims Machine_Plans_Claims
    Move_Provider_Claims
begin

text \<open>
  A verification development for virmill, a manager of virtual machines on one Linux host. The source is Go;
  paths below are relative to \<^verbatim>\<open>src/internal\<close>.

  \<^bold>\<open>The program.\<close> A daemon turns every change of the host into a reviewed plan. The engine (\<^verbatim>\<open>operations\<close>)
  stores the plan in a journal (\<^verbatim>\<open>store\<close>, SQLite), and on acceptance installs a job that holds the plan's
  resources and runs its steps, each by the handler registered for the operation: a handler validates, executes
  and reconciles a step, on its own records in the journal and on a provider of the host. After a crash nothing
  is run again blindly: unfinished jobs keep their resources and wait for a recovery. Handlers are modelled for
  network creation (\<^verbatim>\<open>app/network_creation.go\<close>, with the profiles, reservations, occupancy and address
  arithmetic it decides with), guest recipes (\<^verbatim>\<open>guestsetup\<close>), removal of machines and disks (\<^verbatim>\<open>app/removal.go\<close>,
  \<^verbatim>\<open>app/disk_removal.go\<close>), and growing, moving and cloning (\<^verbatim>\<open>app/disk_grow.go\<close>, \<^verbatim>\<open>disk_move.go\<close>, \<^verbatim>\<open>vm_clone.go\<close>). What needs root is asked of a helper process by signed requests (\<^verbatim>\<open>helper\<close>). Pure
  decisions used by handlers that are not modelled stand by themselves: labs, the volume graph, backup policies,
  recovery manifests, updates.

  \<^bold>\<open>Conventions.\<close> Fallible functions return a sum, \<open>Inl\<close> the error with the code and message of the source,
  chained by \<open>bindr\<close>; loops that thread a state are \<open>foldr_res\<close>. Byte strings and Go strings are \<open>string\<close>.
  Sized integers are words where they may wrap. An interface or an outside call is a field of a record or an
  argument, so that theorems hold for every behaviour of it; laws asked of it are premises of the theorem. State
  outside the journal is a type variable \<open>'w\<close>. Where the code may be interrupted, the answers of the successive
  polls of the context are an argument.

  \<^bold>\<open>Shared theories.\<close> \<open>Prelude\<close>: results, rows of tables, the locale \<open>keyed_table\<close>. \<open>Text\<close> and \<open>Unicode_Text\<close>:
  Go's string, UTF-8 and path functions, and \<^verbatim>\<open>validation.SafeText\<close>. \<open>Netip\<close>, \<open>Netip6\<close>: \<^verbatim>\<open>net/netip\<close>. \<open>Calendar\<close>:
  the dates of package \<^verbatim>\<open>time\<close>. \<open>Search\<close>: three-colour depth-first search, used by \<open>Lab\<close> and \<open>Volumes\<close>.

  \<^bold>\<open>Engine.\<close> \<open>Domain\<close> (\<^verbatim>\<open>domain/domain.go\<close>): errors, plans, jobs, events. \<open>Store\<close> (\<^verbatim>\<open>store/*.go\<close>): the tables and one
  function per transaction; \<open>Store_Laws\<close> reads them as maps. \<open>Engine\<close> (\<^verbatim>\<open>operations/engine.go\<close>, \<^verbatim>\<open>cancellation.go\<close>):
  Plan, Apply, the goroutine of a job as a machine of program points, Cancel, Reconcile, Recover. \<open>Engine_Steps\<close> is the
  interleaving of all of these, with restarts, lost writes and an arbitrary outside world, as the inductive relation
  \<open>sys_step\<close>, and its invariant; \<open>Engine_History\<close> says what no step undoes; \<open>Engine_Run\<close> follows one goroutine along an infinite execution of
  all of them;
  \<open>Engine_Locks\<close> who holds resources; \<open>Engine_Claims\<close> refines the interleaving to an abstract protocol of claims;
  \<open>Engine_Demo\<close> holds a small platform at which theorems are instantiated. C1 to C10 and C14: exclusion, write-ahead
  intents, idempotent acceptance, the end of every scheduled goroutine (C7), restart and recovery, gap-free event pages, and a reachable race of the
  cancellation that breaks exclusion (C6).

  \<^bold>\<open>Helper.\<close> \<open>Helper\<close> (\<^verbatim>\<open>helper/authorization.go\<close>, \<^verbatim>\<open>network.go\<close>, \<^verbatim>\<open>auxiliary.go\<close>): requests, the policy and \<open>authorize_request\<close>.
  \<open>Helper_Authority\<close> states without the order of checks what a request must be entitled to (C12). \<open>Helper_Access\<close>
  (\<^verbatim>\<open>access_linux.go\<close>, \<^verbatim>\<open>backend/fileaccess\<close>): one change of an access list from the request to its result, system calls
  as outcomes. \<open>Helper_Laws\<close>, \<open>Helper_Claims\<close>: at most one write, behind a durable intent (C13). \<open>Helper_Undo\<close>: a
  revocation restores what was there (C26). \<open>Helper_Demo\<close>: a concrete grant and revocation. \<open>File_Access\<close> and
  \<open>File_Access_Laws\<close>: the access list itself and what a grant changes (C39).

  \<^bold>\<open>Networks.\<close> \<open>Intent\<close> (\<^verbatim>\<open>app/network/intent.go\<close>, \<^verbatim>\<open>prefixes.go\<close>): declarations and interfaces (C20). \<open>Allocation\<close>
  (\<^verbatim>\<open>allocation.go\<close>): the first free subnet on 64-bit intervals (C15). \<open>Network_Profile\<close> (\<^verbatim>\<open>backend/networkxml\<close>): rendering
  and comparison of documents (C22, C23). \<open>Network_Reservation\<close>, \<open>Occupancy\<close> (\<^verbatim>\<open>app/network_allocation.go\<close>,
  \<^verbatim>\<open>host_inventory.go\<close>): reservations and observed address space (C24, C25). \<open>Network_Creation\<close>: the handler (C27, C28).
  Each has its laws in the theory named after it with \<open>_Laws\<close>.

  \<^bold>\<open>Guests.\<close> \<open>Guest_Recipe\<close>, \<open>Guest_Stages\<close> (\<^verbatim>\<open>guestsetup\<close>): recipes, stages with intent and receipt rows. \<open>Guest_Laws\<close>:
  order and single execution (C32, C33); \<open>Guest_Liveness\<close>: a ready stage completes (C40).

  \<^bold>\<open>Stopped machines.\<close> \<open>Lifecycle\<close>: computations on a host and a journal that both change underneath, with a ghost log of
  the calls made, and the receipt of a job (locale \<open>receipt_keeper\<close>). \<open>Lifecycle_Laws\<close>: weakest preconditions of such
  computations, and the locale \<open>single_run\<close> of operations whose effects happen once, interpreted on removal, growth, move
  and clone. \<open>Disk_Removal\<close>: both removals and the scan of all recorded references to a disk; \<open>Disk_Removal_Laws\<close>,
  \<open>Disk_Removal_Claims\<close>: every call is justified by the calls before it and by the journal it was made on (C21), a removal
  is never replayed (C34), and what is settled was observed. \<open>Machine_Edits\<close>: growth, move and clone; \<open>Machine_Edits_Laws\<close>,
  \<open>Machine_Edits_Claims\<close>: effects once and in order (C16), what a result may claim (C29). \<open>Move_Provider\<close>
  (\<^verbatim>\<open>backend/libvirt/disk_move_linux.go\<close>): the provider of moves, from the state it reports to the copy through two streams,
  its read-back, the new definition and the deletion, on calls of libvirt that are fields of \<open>native\<close>; \<open>Move_Provider_Laws\<close>,
  \<open>Move_Provider_Claims\<close>: where the disk of a moved machine comes from: a copy that was read back, or any volume that
  bore the reviewed name when the run first looked (C18), with a run of the second kind. \<open>Machine_Plans\<close>: how the five are planned, estimated and reviewed; \<open>Machine_Plans_Claims\<close>: what
  is planned is what is run, and losses are announced (C11).

  \<^bold>\<open>Decisions.\<close> \<open>Lab\<close> (\<^verbatim>\<open>app/lab\<close>, C30), \<open>Volumes\<close> (\<^verbatim>\<open>app/storage\<close>, C31), \<open>Policy\<close> (\<^verbatim>\<open>app/protection/policy.go\<close>, C35 to C37),
  \<open>Recovery\<close> (\<^verbatim>\<open>capture_manifest_validation.go\<close>, C38), \<open>Version\<close> and \<open>Update\<close> (\<^verbatim>\<open>update\<close>, C17, C19).

  \<^bold>\<open>Loops.\<close> A goroutine is a machine whose moves are steps of \<open>sys_step\<close>; C7 bounds its moves by six per step and one
  more, in any interleaving, provided it keeps being scheduled. Redirects of a download are
  bounded by the code (five). The searches for a minute and the preview of a policy are \<open>partial_function (option)\<close>,
  since a zone is any function; C37 has as its premise that a rule of the policy's own zone stays in force for at least a
  minute, with offsets of any number of seconds, and proves that they return. A stream of libvirt is the finite list of
  its answers. All other loops are structural or have a measure.

  \<^bold>\<open>Not modelled.\<close> Rendering and input of the command line and the terminal screens (\<^verbatim>\<open>ui\<close>, the largest part).
  Drivers whose content is calls of other programs and of the kernel: libvirt apart from disk moves, image tools, restic, SSH, file copies,
  netlink and nftables, sockets and processes. Documents edited on the token stream of \<^verbatim>\<open>encoding/xml\<close>
  (\<^verbatim>\<open>backend/xmlpatch\<close>, \<^verbatim>\<open>importing\<close>). JSON decoding, schemas, SHA-256, Ed25519 and the canonicaliser, which are parameters.
  The long workflows of machine creation, capture and restore, and the edits of hardware, resources and reboots: they have
  the shape of the modelled workflows, on state that lives in libvirt. Plugins and the local transport. Within modelled parts:
  the construction of plans by the guest service, the review text of a network creation, read-only projections
  of the journal, and the opening of files.
\<close>

end
